(* ===== verification/Prelude.thy ===== *)
theory Prelude
  imports
    Complex_Main
    "HOL-Library.AList"
    "HOL-Library.List_Lexorder"
    "HOL-Library.Char_ord"
begin

text \<open>
  The vocabulary every component shares: Python's exceptions as values, the error-or-value
  result type with its sequencing operations, insertion-ordered dictionaries, and the string
  methods the sources call.

  Strings are lists of \<^typ>\<open>char\<close> and stand for ASCII text, on which \<open>str.lower\<close> and
  \<open>str.casefold\<close> agree. Finite floats are rationals (the value of the decimal literal that
  was configured). The text of an exception message is represented by its fixed phrase and the
  values interpolated into it.
\<close>

section \<open>Collections of facts\<close>

named_theorems res_simps \<open>computation rules of the result type\<close>
named_theorems str_simps \<open>definitions of the string methods, for evaluation\<close>
named_theorems frame \<open>what an operation leaves unchanged\<close>

section \<open>Exceptions and results\<close>

text \<open>
  \<open>HttpError\<close> is the Google client library's error: status, text and the reasons its body
  lists. \<open>Nontermination\<close> is no Python exception: it is the result of a loop that never
  returns, so that such a loop is a value of the model.
\<close>

datatype exn =
    ConfigError string "string list" "int list"
  | GoogleAPIError int string
  | TransientGoogleAPIError int string
  | ParishSoftAPIError int string string
  | TransientParishSoftAPIError int string string
  | CCAPIError int string string
  | TransientCCAPIError int string string
  | RetryError exn
  | TransientRetryError
  | TimeoutError
  | ConnectionError
  | OSError string
  | ValueError string
  | TypeError string
  | KeyError string
  | IndexError
  | AssertionError
  | HttpError int string "string list"
  | LockUnavailable string
  | RunnerConfigError string "string list"
  | Nontermination
  | OtherException string

type_synonym 'a res = "exn + 'a"

definition bind_res :: "'e + 'a \<Rightarrow> ('a \<Rightarrow> 'e + 'b) \<Rightarrow> 'e + 'b" where
  "bind_res m f = (case m of Inl e \<Rightarrow> Inl e | Inr x \<Rightarrow> f x)"

lemma bind_res_Inl [simp, res_simps]: "bind_res (Inl e) f = Inl e"
  by (simp add: bind_res_def)

lemma bind_res_Inr [simp, res_simps]: "bind_res (Inr x) f = f x"
  by (simp add: bind_res_def)

lemma bind_res_eq_Inr [simp]: "bind_res m f = Inr y \<longleftrightarrow> (\<exists>x. m = Inr x \<and> f x = Inr y)"
  by (cases m) (auto simp: bind_res_def)

lemma bind_resE:
  assumes "bind_res m f = Inr y"
  obtains x where "m = Inr x" and "f x = Inr y"
  using assms by auto

lemma bind_res_eq_Inl:
  "bind_res m f = Inl e \<longleftrightarrow> m = Inl e \<or> (\<exists>x. m = Inr x \<and> f x = Inl e)"
  by (cases m) (auto simp: bind_res_def)

lemma bind_res_cong [fundef_cong]:
  "m = m' \<Longrightarrow> (\<And>x. m' = Inr x \<Longrightarrow> f x = f' x) \<Longrightarrow> bind_res m f = bind_res m' f'"
  by (cases m') (auto simp: bind_res_def)

text \<open>A guard: raise \<open>e\<close> when the condition fails.\<close>

definition guard_res :: "bool \<Rightarrow> 'e \<Rightarrow> 'e + unit" where
  "guard_res b e = (if b then Inr () else Inl e)"

lemma guard_res_eq_Inr [simp]: "guard_res b e = Inr u \<longleftrightarrow> b"
  by (simp add: guard_res_def)

lemma guard_res_True [simp, res_simps]: "guard_res True e = Inr ()"
  by (simp add: guard_res_def)

lemma guard_res_False [simp, res_simps]: "guard_res False e = Inl e"
  by (simp add: guard_res_def)

text \<open>A comprehension or loop whose body may raise: the first error stops it.\<close>

fun map_res :: "('a \<Rightarrow> 'e + 'b) \<Rightarrow> 'a list \<Rightarrow> 'e + 'b list" where
  "map_res f [] = Inr []"
| "map_res f (x # xs) = bind_res (f x) (\<lambda>y. bind_res (map_res f xs) (\<lambda>ys. Inr (y # ys)))"

lemma map_res_eq_Inr: "map_res f xs = Inr ys \<longleftrightarrow> list_all2 (\<lambda>x y. f x = Inr y) xs ys"
  by (induction xs arbitrary: ys) (auto simp: list_all2_Cons1)

lemma map_res_length: "map_res f xs = Inr ys \<Longrightarrow> length ys = length xs"
  by (auto simp: map_res_eq_Inr list_all2_lengthD)

lemma map_res_total: "(\<And>x. x \<in> set xs \<Longrightarrow> f x = Inr (g x)) \<Longrightarrow> map_res f xs = Inr (map g xs)"
  by (induction xs) auto

lemma map_res_Inr_set:
  "map_res f xs = Inr ys \<Longrightarrow> y \<in> set ys \<Longrightarrow> \<exists>x \<in> set xs. f x = Inr y"
  by (induction xs arbitrary: ys) auto

fun foldM_res :: "('s \<Rightarrow> 'a \<Rightarrow> 'e + 's) \<Rightarrow> 's \<Rightarrow> 'a list \<Rightarrow> 'e + 's" where
  "foldM_res f s [] = Inr s"
| "foldM_res f s (x # xs) = bind_res (f s x) (\<lambda>s'. foldM_res f s' xs)"

lemma foldM_res_inv:
  assumes "foldM_res f s xs = Inr s'" and "P s"
    and "\<And>s x s'. x \<in> set xs \<Longrightarrow> P s \<Longrightarrow> f s x = Inr s' \<Longrightarrow> P s'"
  shows "P s'"
  using assms by (induction xs arbitrary: s) auto

fun all_res :: "('a \<Rightarrow> 'e + unit) \<Rightarrow> 'a list \<Rightarrow> 'e + unit" where
  "all_res f [] = Inr ()"
| "all_res f (x # xs) = bind_res (f x) (\<lambda>_. all_res f xs)"

lemma all_res_eq_Inr [simp]: "all_res f xs = Inr u \<longleftrightarrow> (\<forall>x\<in>set xs. f x = Inr ())"
  by (induction xs) auto

section \<open>Actions on the outside world\<close>

text \<open>
  Code that performs effects is a function of the state of the world \<^typ>\<open>'w\<close> that returns the new
  state and a result or an exception. Effects made before an exception stay made.
\<close>

type_synonym ('w, 'a) action = "'w \<Rightarrow> 'w \<times> 'a res"

definition bind_act :: "('w, 'a) action \<Rightarrow> ('a \<Rightarrow> ('w, 'b) action) \<Rightarrow> ('w, 'b) action" where
  "bind_act m k w = (case m w of (w', r) \<Rightarrow> (case r of Inl e \<Rightarrow> (w', Inl e) | Inr x \<Rightarrow> k x w'))"

text \<open>A computation without effects, as an action.\<close>

definition pure_act :: "'a res \<Rightarrow> ('w, 'a) action" where
  "pure_act r w = (w, r)"

lemma pure_act_apply [simp]: "pure_act r w = (w, r)"
  by (simp add: pure_act_def)

lemma bind_act_Inr: "m w = (w', Inr x) \<Longrightarrow> bind_act m k w = k x w'"
  by (simp add: bind_act_def)

lemma bind_act_Inl: "m w = (w', Inl e) \<Longrightarrow> bind_act m k w = (w', Inl e)"
  by (simp add: bind_act_def)

lemma bind_act_eq_Inr:
  "bind_act m k w = (w', Inr y) \<longleftrightarrow> (\<exists>w1 x. m w = (w1, Inr x) \<and> k x w1 = (w', Inr y))"
  by (auto simp: bind_act_def split: prod.splits sum.splits)

lemma bind_act_pure_Inr [simp]: "bind_act (pure_act (Inr x)) k = k x"
  by (simp add: bind_act_def fun_eq_iff)

lemma bind_act_pure_Inl [simp]: "bind_act (pure_act (Inl e)) k = pure_act (Inl e)"
  by (simp add: bind_act_def fun_eq_iff)

text \<open>Run an effect for every item, stopping at the first exception.\<close>

fun run_actions :: "('x \<Rightarrow> ('w, unit) action) \<Rightarrow> 'x list \<Rightarrow> ('w, unit) action" where
  "run_actions f [] = pure_act (Inr ())"
| "run_actions f (x # xs) = bind_act (f x) (\<lambda>_. run_actions f xs)"

text \<open>An observation of the world that an action leaves alone.\<close>

definition preserves :: "('w \<Rightarrow> 'o) \<Rightarrow> ('w, 'a) action \<Rightarrow> bool" where
  "preserves obs act \<longleftrightarrow> (\<forall>w. obs (fst (act w)) = obs w)"

lemma preservesD: "preserves obs act \<Longrightarrow> act w = (w', r) \<Longrightarrow> obs w' = obs w"
  unfolding preserves_def by (metis fst_conv)

lemma preserves_pure [frame, simp]: "preserves obs (pure_act r)"
  by (simp add: preserves_def)

lemma preserves_bind [frame]:
  "preserves obs m \<Longrightarrow> (\<And>x. preserves obs (k x)) \<Longrightarrow> preserves obs (bind_act m k)"
  by (simp add: preserves_def bind_act_def split: prod.splits sum.splits) (metis fst_conv)

lemma preserves_run [frame]: "(\<And>x. preserves obs (f x)) \<Longrightarrow> preserves obs (run_actions f xs)"
  by (induction xs) (auto intro: preserves_bind)

lemma preserves_if [frame]:
  "(b \<Longrightarrow> preserves obs m) \<Longrightarrow> (\<not> b \<Longrightarrow> preserves obs n) \<Longrightarrow> preserves obs (if b then m else n)"
  by simp

lemma preserves_option [frame]:
  "(x = None \<Longrightarrow> preserves obs m) \<Longrightarrow> (\<And>y. x = Some y \<Longrightarrow> preserves obs (k y)) \<Longrightarrow>
   preserves obs (case x of None \<Rightarrow> m | Some y \<Rightarrow> k y)"
  by (cases x) auto

lemma preserves_let [frame]: "preserves obs (f x) \<Longrightarrow> preserves obs (let y = x in f y)"
  by simp

section \<open>Insertion-ordered dictionaries\<close>

text \<open>
  A Python dict is an association list with distinct keys: \<open>AList.update\<close> replaces the value
  of a present key in place and appends a new key, as \<open>d[k] = v\<close> does, and \<open>AList.delete\<close> is
  \<open>del d[k]\<close>.
\<close>

type_synonym ('k, 'v) dict = "('k \<times> 'v) list"

definition dict_ok :: "('k, 'v) dict \<Rightarrow> bool" where
  "dict_ok d \<longleftrightarrow> distinct (map fst d)"

lemma dict_ok_Nil [simp]: "dict_ok []"
  by (simp add: dict_ok_def)

lemma dict_ok_update [simp]: "dict_ok d \<Longrightarrow> dict_ok (AList.update k v d)"
  by (simp add: dict_ok_def distinct_update)

lemma dict_ok_delete [simp]: "dict_ok d \<Longrightarrow> dict_ok (AList.delete k d)"
  by (simp add: dict_ok_def distinct_delete)

text \<open>A dict comprehension: later entries win, first position is kept.\<close>

fun dict_of :: "('k \<times> 'v) list \<Rightarrow> ('k, 'v) dict \<Rightarrow> ('k, 'v) dict" where
  "dict_of [] d = d"
| "dict_of ((k, v) # kvs) d = dict_of kvs (AList.update k v d)"

lemma dict_ok_dict_of [simp]: "dict_ok d \<Longrightarrow> dict_ok (dict_of kvs d)"
  by (induction kvs d rule: dict_of.induct) auto

lemma dict_of_keys: "fst ` set (dict_of kvs d) = fst ` set kvs \<union> fst ` set d"
  by (induction kvs d rule: dict_of.induct) (auto simp: dom_update)

lemma map_of_dict_of: "map_of (dict_of kvs d) = map_of d ++ map_of (rev kvs)"
  by (induction kvs d rule: dict_of.induct) (auto simp: update_conv' map_add_def fun_eq_iff split: option.splits)

definition dict_map :: "('v \<Rightarrow> 'w) \<Rightarrow> ('k, 'v) dict \<Rightarrow> ('k, 'w) dict" where
  "dict_map f d = map (\<lambda>(k, v). (k, f v)) d"

lemma dict_map_keys [simp]: "map fst (dict_map f d) = map fst d"
  by (auto simp: dict_map_def)

lemma dict_ok_map [simp]: "dict_ok (dict_map f d) \<longleftrightarrow> dict_ok d"
  by (simp add: dict_ok_def)

lemma map_of_dict_map [simp]: "map_of (dict_map f d) k = map_option f (map_of d k)"
  by (induction d) (auto simp: dict_map_def)

lemma dict_ok_Some_iff: "dict_ok d \<Longrightarrow> map_of d k = Some v \<longleftrightarrow> (k, v) \<in> set d"
  by (simp add: dict_ok_def)

section \<open>Strings\<close>

definition lower_char :: "char \<Rightarrow> char" where
  "lower_char c =
     (let n = (of_char c :: nat) in if 65 \<le> n \<and> n \<le> 90 then char_of (n + 32) else c)"

definition upper_char :: "char \<Rightarrow> char" where
  "upper_char c =
     (let n = (of_char c :: nat) in if 97 \<le> n \<and> n \<le> 122 then char_of (n - 32) else c)"

definition lower :: "string \<Rightarrow> string" where
  [str_simps]: "lower = map lower_char"

definition upper :: "string \<Rightarrow> string" where
  [str_simps]: "upper = map upper_char"

abbreviation (input) casefold :: "string \<Rightarrow> string" where
  "casefold \<equiv> lower"

definition is_space :: "char \<Rightarrow> bool" where
  "is_space c = (let n = (of_char c :: nat) in (9 \<le> n \<and> n \<le> 13) \<or> (28 \<le> n \<and> n \<le> 32))"

definition strip_by :: "(char \<Rightarrow> bool) \<Rightarrow> string \<Rightarrow> string" where
  [str_simps]: "strip_by p s = rev (dropWhile p (rev (dropWhile p s)))"

abbreviation (input) strip :: "string \<Rightarrow> string" where
  "strip \<equiv> strip_by is_space"

fun split_on :: "char \<Rightarrow> string \<Rightarrow> string list" where
  "split_on c [] = [[]]"
| "split_on c (x # xs) =
     (if x = c then [] # split_on c xs
      else (case split_on c xs of [] \<Rightarrow> [[x]] | p # ps \<Rightarrow> (x # p) # ps))"

fun join :: "string \<Rightarrow> string list \<Rightarrow> string" where
  "join sep [] = []"
| "join sep [x] = x"
| "join sep (x # y # zs) = x @ sep @ join sep (y # zs)"

definition startswith :: "string \<Rightarrow> string \<Rightarrow> bool" where
  [str_simps]: "startswith s p \<longleftrightarrow> take (length p) s = p"

definition endswith :: "string \<Rightarrow> string \<Rightarrow> bool" where
  [str_simps]: "endswith s p \<longleftrightarrow> length p \<le> length s \<and> drop (length s - length p) s = p"

text \<open>\<open>repr\<close> of a string without quotes, backslashes and control characters.\<close>

definition repr_str :: "string \<Rightarrow> string" where
  "repr_str s = CHR 0x27 # s @ [CHR 0x27]"

definition show_digit :: "nat \<Rightarrow> char" where
  "show_digit n = char_of (48 + n)"

fun show_nat :: "nat \<Rightarrow> string" where
  "show_nat n = (if n < 10 then [show_digit n] else show_nat (n div 10) @ [show_digit (n mod 10)])"

declare show_nat.simps [simp del]

definition show_int :: "int \<Rightarrow> string" where
  "show_int i = (if i < 0 then CHR ''-'' # show_nat (nat (- i)) else show_nat (nat i))"

text \<open>\<open>str.isdigit\<close> and \<open>int\<close> of a string of decimal digits.\<close>

definition is_digit :: "char \<Rightarrow> bool" where
  "is_digit c \<longleftrightarrow> (let n = (of_char c :: nat) in 48 \<le> n \<and> n \<le> 57)"

definition digits_value :: "string \<Rightarrow> nat" where
  "digits_value s = foldl (\<lambda>acc c. 10 * acc + (of_char c - 48)) 0 s"

definition parse_nat :: "string \<Rightarrow> nat option" where
  "parse_nat s = (if s \<noteq> [] \<and> list_all is_digit s then Some (digits_value s) else None)"

lemma show_digit_value: "n < 10 \<Longrightarrow> (of_char (show_digit n) :: nat) = 48 + n"
  by (simp add: show_digit_def)

lemma parse_show_nat [simp]: "parse_nat (show_nat n) = Some n"
proof (induction n rule: show_nat.induct)
  case (1 n)
  show ?case
  proof (cases "n < 10")
    case True
    then show ?thesis
      by (simp add: show_nat.simps [of n] parse_nat_def is_digit_def show_digit_value digits_value_def Let_def)
  next
    case False
    with 1 have "parse_nat (show_nat (n div 10)) = Some (n div 10)" by simp
    then have IH: "list_all is_digit (show_nat (n div 10))" "digits_value (show_nat (n div 10)) = n div 10"
      by (auto simp: parse_nat_def split: if_splits)
    have "n mod 10 < 10" by simp
    from show_digit_value [OF this] False IH show ?thesis
      by (simp add: show_nat.simps [of n] parse_nat_def is_digit_def digits_value_def Let_def)
  qed
qed

lemma lower_char_idem [simp]: "lower_char (lower_char c) = lower_char c"
  by (auto simp: lower_char_def Let_def)

lemma lower_idem [simp]: "lower (lower s) = lower s"
  by (simp add: lower_def)

lemma lower_append [simp]: "lower (s @ t) = lower s @ lower t"
  by (simp add: lower_def)

lemma length_lower [simp]: "length (lower s) = length s"
  by (simp add: lower_def)

lemma lower_eq_Nil [simp]: "lower s = [] \<longleftrightarrow> s = []"
  by (simp add: lower_def)

lemma lower_Cons: "lower (c # s) = lower_char c # lower s"
  by (simp add: lower_def)

lemma lower_Nil [simp]: "lower [] = []"
  by (simp add: lower_def)

lemma upper_char_idem [simp]: "upper_char (upper_char c) = upper_char c"
  by (auto simp: upper_char_def Let_def)

lemma upper_idem [simp]: "upper (upper s) = upper s"
  by (simp add: upper_def)

lemma split_on_nonempty [simp]: "split_on c s \<noteq> []"
  by (induction s) (auto split: list.splits)

lemma split_on_no_sep: "p \<in> set (split_on c s) \<Longrightarrow> c \<notin> set p"
  by (induction s arbitrary: p) (auto split: list.splits if_splits)

lemma split_on_join: "join [c] (split_on c s) = s"
proof (induction s)
  case (Cons x s)
  then show ?case
    by (cases "split_on c s" rule: list.exhaust; cases "tl (split_on c s)") auto
qed simp

lemma split_on_id: "c \<notin> set s \<Longrightarrow> split_on c s = [s]"
  by (induction s) auto

lemma split_on_append: "c \<notin> set p \<Longrightarrow> split_on c (p @ c # s) = p # split_on c s"
  by (induction p) auto

lemma set_dropWhile_subset: "set (dropWhile p xs) \<subseteq> set xs"
  by (auto dest: set_dropWhileD)

lemma strip_by_set: "set (strip_by p s) \<subseteq> set s"
  unfolding strip_by_def by (auto dest!: set_dropWhileD)

lemma dropWhile_hd_False: "dropWhile p xs = [] \<or> \<not> p (hd (dropWhile p xs))"
  by (induction xs) auto

lemma strip_by_id:
  "\<not> p (hd s) \<Longrightarrow> \<not> p (last s) \<Longrightarrow> strip_by p s = s"
  by (simp add: strip_by_def dropWhile_eq_self_iff [THEN iffD2] hd_rev)

lemma dropWhile_append_hd:
  "dropWhile p xs = ys \<Longrightarrow> \<exists>zs. xs = zs @ ys"
  by (metis takeWhile_dropWhile_id)

lemma strip_by_ends:
  "strip_by p s \<noteq> [] \<Longrightarrow> \<not> p (hd (strip_by p s)) \<and> \<not> p (last (strip_by p s))"
proof -
  assume ne: "strip_by p s \<noteq> []"
  let ?t = "dropWhile p s"
  have t: "?t \<noteq> []"
  proof
    assume "?t = []"
    then have "strip_by p s = []" unfolding strip_by_def by (simp only: rev.simps dropWhile.simps)
    with ne show False by simp
  qed
  have last: "\<not> p (last (strip_by p s))"
    using ne dropWhile_hd_False [of p "rev ?t"] by (auto simp: strip_by_def last_rev)
  obtain zs where z: "rev ?t = zs @ dropWhile p (rev ?t)"
    by (metis takeWhile_dropWhile_id)
  then have "?t = strip_by p s @ rev zs"
    unfolding strip_by_def by (metis rev_append rev_rev_ident)
  then have "hd (strip_by p s) = hd ?t" using ne by (metis hd_append2)
  with last t show ?thesis using dropWhile_hd_False [of p s] by auto
qed

lemma strip_by_idem [simp]: "strip_by p (strip_by p s) = strip_by p s"
  by (cases "strip_by p s = []") (auto simp: strip_by_ends strip_by_id, simp add: strip_by_def)

section \<open>Lists\<close>

lemma sort_eq_Nil [simp]: "sort xs = [] \<longleftrightarrow> xs = []"
  by (metis set_empty set_sort)

lemma distinct_map_nthD:
  "distinct (map f xs) \<Longrightarrow> i < length xs \<Longrightarrow> j < length xs \<Longrightarrow> f (xs ! i) = f (xs ! j) \<Longrightarrow> i = j"
  by (auto simp: distinct_conv_nth)

text \<open>\<open>next((i for i, x in enumerate(xs) if p(x)), None)\<close>\<close>

fun find_index :: "('a \<Rightarrow> bool) \<Rightarrow> 'a list \<Rightarrow> nat option" where
  "find_index p [] = None"
| "find_index p (x # xs) = (if p x then Some 0 else map_option Suc (find_index p xs))"

lemma find_index_None [simp]: "find_index p xs = None \<longleftrightarrow> (\<forall>x\<in>set xs. \<not> p x)"
  by (induction xs) auto

lemma find_index_SomeD:
  "find_index p xs = Some i \<Longrightarrow> i < length xs \<and> p (xs ! i) \<and> (\<forall>j<i. \<not> p (xs ! j))"
proof (induction xs arbitrary: i)
  case (Cons x xs)
  then show ?case by (auto simp: less_Suc_eq_0_disj split: if_splits)
qed simp

lemma find_index_ex: "x \<in> set xs \<Longrightarrow> p x \<Longrightarrow> \<exists>i. find_index p xs = Some i"
  by (induction xs) auto

end
