(* ===== verification/Config.thy ===== *)
theory Config
  imports Prelude
begin

text \<open>
  Configuration values as \<open>yaml.safe_load\<close> returns them, the helpers of \<open>config.py\<close> over
  them, and the small readers (\<open>_mapping\<close>, \<open>_list\<close>, \<open>_string_list\<close>, \<open>...\<close>) that the tools
  use to turn an untyped value into a typed one or a \<open>ConfigError\<close>.
\<close>

section \<open>Values\<close>

text \<open>
  \<open>PNonFinite\<close> is an infinite or not-a-number float, \<open>POther\<close> any other scalar the YAML
  loader can build (a date, a binary string). Mapping keys are strings.
\<close>

datatype pyval =
    PNone
  | PBool bool
  | PInt int
  | PFloat rat
  | PNonFinite
  | PStr string
  | PList "pyval list"
  | PDict "(string \<times> pyval) list"
  | POther string

type_synonym mapping_value = "(string \<times> pyval) list"

definition dget :: "mapping_value \<Rightarrow> string \<Rightarrow> pyval \<Rightarrow> pyval" where
  "dget d k dflt = (case map_of d k of None \<Rightarrow> dflt | Some v \<Rightarrow> v)"

abbreviation dget_none :: "mapping_value \<Rightarrow> string \<Rightarrow> pyval" where
  "dget_none d k \<equiv> dget d k PNone"

text \<open>\<open>set(d) == {...}\<close>.\<close>

definition has_keys :: "mapping_value \<Rightarrow> string list \<Rightarrow> bool" where
  "has_keys d ks \<longleftrightarrow> set (map fst d) = set ks"

text \<open>The truth value of a configuration value.\<close>

definition truthy :: "pyval \<Rightarrow> bool" where
  "truthy v \<longleftrightarrow> v \<notin> {PNone, PBool False, PInt 0, PFloat 0, PStr [], PList [], PDict []}"

text \<open>
  Equality of values as Python compares them: numbers by value, with the booleans as 0 and 1,
  lists element by element, and dicts without regard to the order of their keys.
\<close>

fun num_of :: "pyval \<Rightarrow> rat option" where
  "num_of (PBool b) = Some (if b then 1 else 0)"
| "num_of (PInt i) = Some (of_int i)"
| "num_of (PFloat q) = Some q"
| "num_of _ = None"

fun py_eq :: "pyval \<Rightarrow> pyval \<Rightarrow> bool" where
  "py_eq (PList xs) (PList ys) \<longleftrightarrow> list_all2 py_eq xs ys"
| "py_eq (PDict d) (PDict e) \<longleftrightarrow>
     length d = length e \<and>
     list_all (\<lambda>(k, v). case map_of e k of None \<Rightarrow> False | Some w \<Rightarrow> py_eq v w) d"
| "py_eq v w \<longleftrightarrow> (if num_of v \<noteq> None \<and> num_of w \<noteq> None then num_of v = num_of w else v = w)"

abbreviation row_eq :: "mapping_value \<Rightarrow> mapping_value \<Rightarrow> bool" where
  "row_eq r q \<equiv> py_eq (PDict r) (PDict q)"

fun int_value :: "pyval \<Rightarrow> int option" where
  "int_value (PInt i) = Some i"
| "int_value _ = None"

fun dict_value :: "pyval \<Rightarrow> mapping_value option" where
  "dict_value (PDict d) = Some d"
| "dict_value _ = None"

section \<open>Helpers of config.py\<close>

definition require_mapping :: "pyval \<Rightarrow> string \<Rightarrow> mapping_value res" where
  "require_mapping v name =
     (case v of PDict d \<Rightarrow> Inr d | _ \<Rightarrow> Inl (ConfigError ''must be a mapping'' [name] []))"

definition require_keys :: "mapping_value \<Rightarrow> string list \<Rightarrow> unit res" where
  "require_keys config required_keys =
     (let missing = sort (filter (\<lambda>k. k \<notin> set (map fst config)) (remdups required_keys))
      in if missing \<noteq> [] then Inl (ConfigError ''missing required configuration key(s)'' missing [])
         else Inr ())"

definition reject_unknown_keys :: "mapping_value \<Rightarrow> string list \<Rightarrow> string \<Rightarrow> unit res" where
  "reject_unknown_keys config allowed_keys name =
     (let unknown = sort (filter (\<lambda>k. k \<notin> set allowed_keys) (map fst config))
      in if unknown = [] then Inr ()
         else Inl (ConfigError ''has unsupported key(s)''
                (name # unknown @ sort (remdups allowed_keys)) []))"

definition validate_with :: "'c \<Rightarrow> ('c \<Rightarrow> 'a res) \<Rightarrow> 'a res" where
  "validate_with config validator =
     (case validator config of
        Inr x \<Rightarrow> Inr x
      | Inl (TypeError m) \<Rightarrow> Inl (ConfigError m [] [])
      | Inl (ValueError m) \<Rightarrow> Inl (ConfigError m [] [])
      | Inl e \<Rightarrow> Inl e)"

section \<open>Typed readers\<close>

definition as_mapping :: "pyval \<Rightarrow> string \<Rightarrow> mapping_value res" where
  "as_mapping v name =
     (case v of PDict d \<Rightarrow> Inr d | _ \<Rightarrow> Inl (ConfigError ''must be a mapping'' [name] []))"

definition as_list :: "pyval \<Rightarrow> string \<Rightarrow> pyval list res" where
  "as_list v name =
     (case v of PList xs \<Rightarrow> Inr xs | _ \<Rightarrow> Inl (ConfigError ''must be a list'' [name] []))"

fun is_str :: "pyval \<Rightarrow> bool" where
  "is_str (PStr _) = True"
| "is_str _ = False"

fun str_of :: "pyval \<Rightarrow> string" where
  "str_of (PStr s) = s"
| "str_of _ = []"

definition as_string_list :: "pyval \<Rightarrow> string \<Rightarrow> string list res" where
  "as_string_list v name =
     (case v of
        PList xs \<Rightarrow>
          if \<forall>x\<in>set xs. is_str x then Inr (map str_of xs)
          else Inl (ConfigError ''must be a list of strings'' [name] [])
      | _ \<Rightarrow> Inl (ConfigError ''must be a list of strings'' [name] []))"

definition as_required_string :: "pyval \<Rightarrow> string \<Rightarrow> string res" where
  "as_required_string v name =
     (case v of
        PStr s \<Rightarrow> if s = [] then Inl (ConfigError ''must be a string'' [name] []) else Inr s
      | _ \<Rightarrow> Inl (ConfigError ''must be a string'' [name] []))"

definition as_optional_string :: "pyval \<Rightarrow> string \<Rightarrow> string option res" where
  "as_optional_string v name =
     (if v = PNone \<or> v = PStr [] then Inr None
      else bind_res (as_required_string v name) (\<lambda>s. Inr (Some s)))"

definition as_optional_regex :: "(string \<Rightarrow> bool) \<Rightarrow> pyval \<Rightarrow> string \<Rightarrow> string option res" where
  "as_optional_regex re_compiles v name =
     bind_res (as_optional_string v name)
       (\<lambda>pattern. case pattern of
           None \<Rightarrow> Inr None
         | Some p \<Rightarrow>
             if re_compiles p then Inr (Some p)
             else Inl (ConfigError ''must be a valid regular expression'' [name] []))"

definition as_bool :: "pyval \<Rightarrow> string \<Rightarrow> bool res" where
  "as_bool v name =
     (case v of PBool b \<Rightarrow> Inr b | _ \<Rightarrow> Inl (ConfigError ''must be a boolean'' [name] []))"

definition as_positive_int :: "pyval \<Rightarrow> string \<Rightarrow> int res" where
  "as_positive_int v name =
     (case v of
        PInt i \<Rightarrow> if i \<le> 0 then Inl (ConfigError ''must be a positive integer'' [name] []) else Inr i
      | _ \<Rightarrow> Inl (ConfigError ''must be a positive integer'' [name] []))"

definition as_fraction :: "pyval \<Rightarrow> string \<Rightarrow> rat res" where
  "as_fraction v name =
     (let err = Inl (ConfigError ''must be a number between 0 and 1'' [name] []);
          chk = (\<lambda>q. if 0 \<le> q \<and> q \<le> 1 then Inr q else err)
      in case v of PInt i \<Rightarrow> chk (of_int i) | PFloat q \<Rightarrow> chk q | _ \<Rightarrow> err)"

text \<open>\<open>int(v)\<close> for a number or a decimal string (no sign, blanks or underscores), else an error.\<close>

definition py_int :: "pyval \<Rightarrow> int option" where
  "py_int v =
     (case v of
        PInt i \<Rightarrow> Some i
      | PBool b \<Rightarrow> Some (if b then 1 else 0)
      | PFloat q \<Rightarrow> Some (if q < 0 then - \<lfloor>- q\<rfloor> else \<lfloor>q\<rfloor>)
      | PStr s \<Rightarrow> map_option int (parse_nat s)
      | _ \<Rightarrow> None)"

text \<open>The name of an item of a list in an error message.\<close>

definition indexed :: "string \<Rightarrow> nat \<Rightarrow> string" where
  "indexed name i = name @ ''['' @ show_nat i @ '']''"

section \<open>Lemmas\<close>

lemma reject_unknown_keys_eq_Inr [simp]:
  "reject_unknown_keys config allowed name = Inr u \<longleftrightarrow> fst ` set config \<subseteq> set allowed"
  by (auto simp: reject_unknown_keys_def Let_def filter_empty_conv)

lemma require_keys_eq_Inr [simp]:
  "require_keys config required = Inr u \<longleftrightarrow> set required \<subseteq> fst ` set config"
  by (auto simp: require_keys_def Let_def filter_empty_conv)

lemma as_mapping_eq_Inr [simp]: "as_mapping v name = Inr d \<longleftrightarrow> v = PDict d"
  by (auto simp: as_mapping_def split: pyval.splits)

lemma as_list_eq_Inr [simp]: "as_list v name = Inr xs \<longleftrightarrow> v = PList xs"
  by (auto simp: as_list_def split: pyval.splits)

lemma is_str_iff: "is_str v \<longleftrightarrow> (\<exists>s. v = PStr s)"
  by (cases v) auto

lemma as_string_list_eq_Inr [simp]:
  "as_string_list v name = Inr ss \<longleftrightarrow> v = PList (map PStr ss)"
proof -
  have "\<forall>x\<in>set xs. is_str x \<Longrightarrow> map PStr (map str_of xs) = xs" for xs
    by (induction xs) (auto simp: is_str_iff)
  then show ?thesis
    by (cases v) (auto simp: as_string_list_def comp_def)
qed

lemma as_required_string_eq_Inr [simp]:
  "as_required_string v name = Inr s \<longleftrightarrow> v = PStr s \<and> s \<noteq> []"
  by (auto simp: as_required_string_def split: pyval.splits)

lemma as_optional_string_eq_Inr [simp]:
  "as_optional_string v name = Inr r \<longleftrightarrow>
     (r = None \<and> (v = PNone \<or> v = PStr [])) \<or> (\<exists>s. r = Some s \<and> s \<noteq> [] \<and> v = PStr s)"
  by (auto simp: as_optional_string_def)

lemma as_bool_eq_Inr [simp]: "as_bool v name = Inr b \<longleftrightarrow> v = PBool b"
  by (auto simp: as_bool_def split: pyval.splits)

lemma as_positive_int_eq_Inr [simp]:
  "as_positive_int v name = Inr i \<longleftrightarrow> v = PInt i \<and> 0 < i"
  by (auto simp: as_positive_int_def split: pyval.splits)

lemma as_fraction_range: "as_fraction v name = Inr q \<Longrightarrow> 0 \<le> q \<and> q \<le> 1"
  by (auto simp: as_fraction_def Let_def split: pyval.splits if_splits)

text \<open>Every reader fails with a configuration error that names the field it read.\<close>

lemma reader_errors:
  "as_mapping v name = Inl e \<Longrightarrow> \<exists>m. e = ConfigError m [name] []"
  "as_list v name = Inl e \<Longrightarrow> \<exists>m. e = ConfigError m [name] []"
  "as_string_list v name = Inl e \<Longrightarrow> \<exists>m. e = ConfigError m [name] []"
  "as_required_string v name = Inl e \<Longrightarrow> \<exists>m. e = ConfigError m [name] []"
  "as_optional_string v name = Inl e \<Longrightarrow> \<exists>m. e = ConfigError m [name] []"
  "as_optional_regex rc v name = Inl e \<Longrightarrow> \<exists>m. e = ConfigError m [name] []"
  "as_bool v name = Inl e \<Longrightarrow> \<exists>m. e = ConfigError m [name] []"
  "as_positive_int v name = Inl e \<Longrightarrow> \<exists>m. e = ConfigError m [name] []"
  "as_fraction v name = Inl e \<Longrightarrow> \<exists>m. e = ConfigError m [name] []"
  by (auto simp: as_mapping_def as_list_def as_string_list_def as_required_string_def
      as_optional_string_def as_optional_regex_def as_bool_def as_positive_int_def
      as_fraction_def Let_def bind_res_eq_Inl split: pyval.splits if_splits option.splits)

end
