(* ===== verification/GGroup_Config.thy ===== *)
theory GGroup_Config
  imports Config
begin

text \<open>
  The configuration of \<open>pk-sync-ps-to-ggroup\<close> (\<open>pk_sync_ps_to_ggroup.py\<close>): its dataclasses
  and the parser \<open>sync_config_from_yaml\<close> with everything it calls. Whether a string is a valid
  regular expression (\<open>re.compile\<close>) is the parameter \<open>rc\<close>.
\<close>

section \<open>Data\<close>

record static_member =
  sm_email :: string
  sm_leader :: bool

record selector =
  sel_type :: string
  ministry_prefix :: "string option"
  ministry_pattern :: "string option"
  member_roles :: "string list"
  sel_leader_roles :: "string list"
  staff_owner_domains :: "string list"
  purpose :: "string option"

record group_sync =
  gs_group :: string
  gs_notify :: "string list"
  gs_ministries :: "string list"
  gs_workgroups :: "string list"
  static_members :: "static_member list"
  selectors :: "selector list"
  allow_empty :: bool
  max_removals :: int
  max_removal_fraction :: rat

record sync_config =
  sc_groups :: "group_sync list"
  sc_sender :: "string option"
  google_mail_domains :: "string set"
  sc_leader_roles :: "string set"

definition LEADER_ROLES :: "string list" where
  "LEADER_ROLES = [''Chairperson'', ''Staff'']"

section \<open>Parsing\<close>

definition static_member_of :: "pyval \<Rightarrow> string \<Rightarrow> static_member res" where
  "static_member_of value name =
     bind_res (as_mapping value name) (\<lambda>item.
     bind_res (reject_unknown_keys item [''email'', ''leader'', ''owner''] name) (\<lambda>_.
     bind_res (as_required_string (dget_none item ''email'') (name @ ''.email'')) (\<lambda>email.
     bind_res (as_bool (dget item ''leader'' (dget item ''owner'' (PBool False)))
                 (name @ ''.leader'')) (\<lambda>leader.
     Inr \<lparr>sm_email = lower email, sm_leader = leader\<rparr>))))"

definition selector_of :: "(string \<Rightarrow> bool) \<Rightarrow> pyval \<Rightarrow> string \<Rightarrow> selector res" where
  "selector_of rc value name =
     bind_res (as_mapping value name) (\<lambda>item.
     bind_res (reject_unknown_keys item
       [''type'', ''ministry_prefix'', ''ministry_pattern'', ''member_roles'', ''leader_roles'',
        ''staff_owner_domains'', ''purpose''] name) (\<lambda>_.
     bind_res (as_required_string (dget_none item ''type'') (name @ ''.type'')) (\<lambda>ty.
     bind_res (as_optional_string (dget_none item ''ministry_prefix'')
                 (name @ ''.ministry_prefix'')) (\<lambda>prefix.
     bind_res (as_optional_regex rc (dget_none item ''ministry_pattern'')
                 (name @ ''.ministry_pattern'')) (\<lambda>pattern.
     bind_res (as_string_list (dget item ''member_roles'' (PList []))
                 (name @ ''.member_roles'')) (\<lambda>mroles.
     bind_res (as_string_list (dget item ''leader_roles'' (PList []))
                 (name @ ''.leader_roles'')) (\<lambda>lroles.
     bind_res (as_string_list (dget item ''staff_owner_domains'' (PList []))
                 (name @ ''.staff_owner_domains'')) (\<lambda>domains.
     bind_res (as_optional_string (dget_none item ''purpose'') (name @ ''.purpose'')) (\<lambda>purp.
     Inr \<lparr>sel_type = ty, ministry_prefix = prefix, ministry_pattern = pattern,
          member_roles = mroles, sel_leader_roles = lroles,
          staff_owner_domains = map lower domains, purpose = purp\<rparr>)))))))))"

definition group_sync_of :: "(string \<Rightarrow> bool) \<Rightarrow> pyval \<Rightarrow> string \<Rightarrow> group_sync res" where
  "group_sync_of rc value name =
     bind_res (as_mapping value name) (\<lambda>item.
     bind_res (reject_unknown_keys item
       [''group'', ''ggroup'', ''notify'', ''ministries'', ''workgroups'', ''static_members'',
        ''selectors'', ''allow_empty'', ''max_removals'', ''max_removal_fraction''] name) (\<lambda>_.
     bind_res (as_required_string (dget item ''group'' (dget_none item ''ggroup''))
                 (name @ ''.group'')) (\<lambda>grp.
     bind_res (as_string_list (dget item ''notify'' (PList [])) (name @ ''.notify'')) (\<lambda>notif.
     bind_res (as_string_list (dget item ''ministries'' (PList [])) (name @ ''.ministries'')) (\<lambda>mins.
     bind_res (as_string_list (dget item ''workgroups'' (PList [])) (name @ ''.workgroups'')) (\<lambda>wgs.
     bind_res (as_list (dget item ''static_members'' (PList [])) (name @ ''.static_members'')) (\<lambda>statics.
     bind_res (map_res (\<lambda>(i, v). static_member_of v (indexed (name @ ''.static_members'') i))
                 (enumerate 0 statics)) (\<lambda>sms.
     bind_res (as_list (dget item ''selectors'' (PList [])) (name @ ''.selectors'')) (\<lambda>sels.
     bind_res (map_res (\<lambda>(i, v). selector_of rc v (indexed (name @ ''.selectors'') i))
                 (enumerate 0 sels)) (\<lambda>ss.
     bind_res (guard_res (mins \<noteq> [] \<or> wgs \<noteq> [] \<or> sms \<noteq> [] \<or> ss \<noteq> [])
                 (ConfigError ''must configure a source'' [name] [])) (\<lambda>_.
     bind_res (as_bool (dget item ''allow_empty'' (PBool False)) (name @ ''.allow_empty'')) (\<lambda>ae.
     bind_res (as_positive_int (dget item ''max_removals'' (PInt 25)) (name @ ''.max_removals'')) (\<lambda>mr.
     bind_res (as_fraction (dget item ''max_removal_fraction'' (PFloat (1 / 2)))
                 (name @ ''.max_removal_fraction'')) (\<lambda>mrf.
     Inr \<lparr>gs_group = grp, gs_notify = notif, gs_ministries = mins, gs_workgroups = wgs,
          static_members = sms, selectors = ss, allow_empty = ae, max_removals = mr,
          max_removal_fraction = mrf\<rparr>))))))))))))))"

fun duplicate_groups :: "group_sync list \<Rightarrow> string set \<Rightarrow> string list" where
  "duplicate_groups [] seen = []"
| "duplicate_groups (g # gs) seen =
     (let normalized = casefold (gs_group g);
          rest = duplicate_groups gs (insert normalized seen)
      in if normalized \<in> seen then gs_group g # rest else rest)"

definition validate_unique_groups :: "group_sync list \<Rightarrow> unit res" where
  "validate_unique_groups groups =
     (let duplicates = duplicate_groups groups {}
      in if duplicates \<noteq> []
         then Inl (ConfigError ''sync.groups[].group values must be unique'' duplicates [])
         else Inr ())"

definition sync_config_from_yaml :: "(string \<Rightarrow> bool) \<Rightarrow> mapping_value \<Rightarrow> sync_config res" where
  "sync_config_from_yaml rc config =
     bind_res (as_mapping (dget config ''sync'' (PDict [])) ''sync'') (\<lambda>section.
     bind_res (reject_unknown_keys section
       [''groups'', ''notifications'', ''google_mail_domains'', ''leader_roles''] ''sync'') (\<lambda>_.
     bind_res (as_list (dget_none section ''groups'') ''sync.groups'') (\<lambda>items.
     bind_res (map_res (\<lambda>(i, v). group_sync_of rc v (indexed ''sync.groups'' i))
                 (enumerate 0 items)) (\<lambda>groups.
     bind_res (guard_res (groups \<noteq> []) (ConfigError ''sync.groups must not be empty'' [] [])) (\<lambda>_.
     bind_res (validate_unique_groups groups) (\<lambda>_.
     bind_res (as_mapping (dget section ''notifications'' (PDict [])) ''sync.notifications'') (\<lambda>notifications.
     bind_res (reject_unknown_keys notifications [''sender''] ''sync.notifications'') (\<lambda>_.
     bind_res (as_optional_string (dget_none notifications ''sender'')
                 ''sync.notifications.sender'') (\<lambda>sender.
     bind_res (guard_res (\<not> ((\<exists>g\<in>set groups. gs_notify g \<noteq> []) \<and> sender = None))
                 (ConfigError ''sync.notifications.sender is required'' [] [])) (\<lambda>_.
     bind_res (as_string_list (dget section ''google_mail_domains'' (PList [PStr ''gmail.com'']))
                 ''sync.google_mail_domains'') (\<lambda>domains.
     bind_res (as_string_list (dget section ''leader_roles'' (PList (map PStr (sort LEADER_ROLES))))
                 ''sync.leader_roles'') (\<lambda>roles.
     Inr \<lparr>sc_groups = groups, sc_sender = sender,
          google_mail_domains = set (map casefold domains),
          sc_leader_roles = set roles\<rparr>))))))))))))"

section \<open>What a parsed configuration guarantees\<close>

definition group_ok :: "group_sync \<Rightarrow> bool" where
  "group_ok g \<longleftrightarrow>
     gs_group g \<noteq> [] \<and>
     (gs_ministries g \<noteq> [] \<or> gs_workgroups g \<noteq> [] \<or> static_members g \<noteq> [] \<or> selectors g \<noteq> []) \<and>
     (\<forall>m\<in>set (static_members g). sm_email m \<noteq> [] \<and> lower (sm_email m) = sm_email m) \<and>
     0 < max_removals g \<and> 0 \<le> max_removal_fraction g \<and> max_removal_fraction g \<le> 1"

definition config_ok :: "sync_config \<Rightarrow> bool" where
  "config_ok c \<longleftrightarrow>
     sc_groups c \<noteq> [] \<and> (\<forall>g\<in>set (sc_groups c). group_ok g) \<and>
     distinct (map (\<lambda>g. casefold (gs_group g)) (sc_groups c)) \<and>
     ((\<exists>g\<in>set (sc_groups c). gs_notify g \<noteq> []) \<longrightarrow> sc_sender c \<noteq> None) \<and>
     (\<forall>d\<in>google_mail_domains c. lower d = d)"

lemma static_member_of_ok:
  "static_member_of v name = Inr m \<Longrightarrow> sm_email m \<noteq> [] \<and> lower (sm_email m) = sm_email m"
  by (auto simp: static_member_of_def)

lemma static_members_ok:
  assumes "map_res (\<lambda>(i, v). static_member_of v (f i)) (enumerate n vs) = Inr ms"
  shows "\<forall>m\<in>set ms. sm_email m \<noteq> [] \<and> lower (sm_email m) = sm_email m"
proof
  fix m assume "m \<in> set ms"
  from map_res_Inr_set [OF assms this] obtain i v where "static_member_of v (f i) = Inr m"
    by auto
  then show "sm_email m \<noteq> [] \<and> lower (sm_email m) = sm_email m" by (rule static_member_of_ok)
qed

lemma group_sync_of_ok: "group_sync_of rc v name = Inr g \<Longrightarrow> group_ok g"
  unfolding group_sync_of_def group_ok_def
  apply (elim bind_resE)
  apply (drule static_members_ok, drule as_fraction_range)
  apply (simp only: guard_res_eq_Inr as_positive_int_eq_Inr as_required_string_eq_Inr sum.inject)
  apply (elim conjE, hypsubst)
  apply (simp only: group_sync.simps simp_thms)
  done

lemma duplicate_groups_Nil:
  "duplicate_groups gs seen = [] \<longleftrightarrow>
     distinct (map (\<lambda>g. casefold (gs_group g)) gs) \<and>
     (\<lambda>g. casefold (gs_group g)) ` set gs \<inter> seen = {}"
  by (induction gs seen rule: duplicate_groups.induct) (auto simp: Let_def)

lemma validate_unique_groups_ok:
  "validate_unique_groups gs = Inr u \<longleftrightarrow> distinct (map (\<lambda>g. casefold (gs_group g)) gs)"
  by (simp add: validate_unique_groups_def Let_def duplicate_groups_Nil)

lemma groups_ok:
  assumes "map_res (\<lambda>(i, v). group_sync_of rc v (f i)) (enumerate n vs) = Inr gs"
  shows "\<forall>g\<in>set gs. group_ok g"
proof
  fix g assume "g \<in> set gs"
  from map_res_Inr_set [OF assms this] obtain i v where "group_sync_of rc v (f i) = Inr g"
    by auto
  then show "group_ok g" by (rule group_sync_of_ok)
qed

lemma sender_guard: "\<not> (A \<and> x = None) \<Longrightarrow> A \<longrightarrow> x \<noteq> None"
  by simp

lemma casefolded: "\<forall>d\<in>set (map casefold ds). lower d = d"
  by auto

definition demo_yaml :: mapping_value where
  "demo_yaml =
     [(''sync'', PDict
        [(''groups'', PList [PDict
            [(''group'', PStr ''ushers@example.org''), (''notify'', PList [PStr ''office@example.org'']),
             (''workgroups'', PList [PStr ''Ushers'']),
             (''static_members'', PList [PDict [(''email'', PStr ''Pastor@Example.org''), (''leader'', PBool True)]])]]),
         (''notifications'', PDict [(''sender'', PStr ''bot@example.org'')])])]"

section \<open>Properties\<close>

text \<open>
  C40: a configuration that parses is well formed: at least one group, every group named, with at
  least one source and sane removal limits, no two groups with the same address up to case, a sender
  whenever some group is to be notified, and addresses and domains in lower case.
\<close>

theorem sync_config_from_yaml_ok: "sync_config_from_yaml rc config = Inr c \<Longrightarrow> config_ok c"
  unfolding sync_config_from_yaml_def config_ok_def
  apply (elim bind_resE)
  apply (drule groups_ok)
  apply (simp only: guard_res_eq_Inr validate_unique_groups_ok sum.inject)
  apply hypsubst
  apply (simp only: sync_config.simps simp_thms)
  apply (intro conjI casefolded, assumption, erule sender_guard)
  done

theorem sync_config_from_yaml_ok_witness:
  "\<exists>c. sync_config_from_yaml (\<lambda>_. True) demo_yaml = Inr c \<and> config_ok c"
proof -
  have "isl (sync_config_from_yaml (\<lambda>_. True) demo_yaml) = False" by code_simp
  then obtain c where "sync_config_from_yaml (\<lambda>_. True) demo_yaml = Inr c"
    by (cases "sync_config_from_yaml (\<lambda>_. True) demo_yaml") auto
  with sync_config_from_yaml_ok [OF this] show ?thesis by blast
qed

end
