(* ===== verification/Dates.thy ===== *)
theory Dates
  imports Prelude
begin

text \<open>
  Calendar dates (\<open>datetime.date\<close>): year, month and day, ordered lexicographically, with the
  validity check of \<open>date.replace\<close> in the proleptic Gregorian calendar.
\<close>

datatype date = Date (year: int) (month: int) (day: int)

instantiation date :: linorder
begin

definition less_eq_date :: "date \<Rightarrow> date \<Rightarrow> bool" where
  "d \<le> e \<longleftrightarrow> year d < year e \<or> (year d = year e \<and> (month d < month e \<or>
     (month d = month e \<and> day d \<le> day e)))"

definition less_date :: "date \<Rightarrow> date \<Rightarrow> bool" where
  "d < e \<longleftrightarrow> year d < year e \<or> (year d = year e \<and> (month d < month e \<or>
     (month d = month e \<and> day d < day e)))"

instance
  by standard (auto simp: less_eq_date_def less_date_def intro: date.expand)

end

definition leap_year :: "int \<Rightarrow> bool" where
  "leap_year y \<longleftrightarrow> y mod 4 = 0 \<and> (y mod 100 \<noteq> 0 \<or> y mod 400 = 0)"

definition days_in_month :: "int \<Rightarrow> int \<Rightarrow> int" where
  "days_in_month y m =
     (if m = 2 then (if leap_year y then 29 else 28)
      else if m \<in> {4, 6, 9, 11} then 30 else 31)"

definition valid_date :: "date \<Rightarrow> bool" where
  "valid_date d \<longleftrightarrow> 1 \<le> year d \<and> year d \<le> 9999 \<and> 1 \<le> month d \<and> month d \<le> 12 \<and>
     1 \<le> day d \<and> day d \<le> days_in_month (year d) (month d)"

definition date_replace :: "date \<Rightarrow> date res" where
  "date_replace d = (if valid_date d then Inr d else Inl (ValueError ''date out of range''))"

lemma valid_date_iff [simp]: "date_replace d = Inr e \<longleftrightarrow> e = d \<and> valid_date d"
  by (auto simp: date_replace_def)

lemma days_in_month_ge_28: "28 \<le> days_in_month y m"
  by (simp add: days_in_month_def)

lemma days_in_month_le_31: "days_in_month y m \<le> 31"
  by (simp add: days_in_month_def)

lemma leap_year_pred: "leap_year y \<Longrightarrow> \<not> leap_year (y - 1)"
  unfolding leap_year_def by presburger


section \<open>Weekdays and ISO text\<close>

definition days_before_year :: "int \<Rightarrow> int" where
  "days_before_year y = (y - 1) * 365 + (y - 1) div 4 - (y - 1) div 100 + (y - 1) div 400"

definition days_before_month :: "int \<Rightarrow> int \<Rightarrow> int" where
  "days_before_month y m = sum_list (map (\<lambda>k. days_in_month y (int k)) [1..<nat m])"

definition toordinal :: "date \<Rightarrow> int" where
  "toordinal d = days_before_year (year d) + days_before_month (year d) (month d) + day d"

text \<open>\<open>date.weekday()\<close>: Monday is 0.\<close>

definition weekday :: "date \<Rightarrow> int" where
  "weekday d = (toordinal d + 6) mod 7"

definition pad_zero :: "nat \<Rightarrow> string \<Rightarrow> string" where
  "pad_zero n s = replicate (n - length s) CHR ''0'' @ s"

definition isoformat :: "date \<Rightarrow> string" where
  "isoformat d = pad_zero 4 (show_nat (nat (year d))) @ ''-'' @ pad_zero 2 (show_nat (nat (month d))) @ ''-'' @
     pad_zero 2 (show_nat (nat (day d)))"

lemma weekday_range: "0 \<le> weekday d \<and> weekday d < 7"
  by (simp add: weekday_def)

lemma pad_zero_value: "parse_nat s = Some n \<Longrightarrow> parse_nat (pad_zero k s) = Some n"
proof -
  assume s: "parse_nat s = Some n"
  have "digits_value (replicate j CHR ''0'' @ t) = digits_value t" for j t
    by (induction j) (simp_all add: digits_value_def)
  with s show ?thesis
    by (auto simp: parse_nat_def pad_zero_def is_digit_def Let_def list_all_iff split: if_splits)
qed

lemma dash_not_digit: "parse_nat s = Some n \<Longrightarrow> CHR ''-'' \<notin> set s"
  by (auto simp: parse_nat_def is_digit_def list_all_iff Let_def split: if_splits dest!: bspec)

lemma isoformat_fields:
  "map parse_nat (split_on CHR ''-'' (isoformat d)) = [Some (nat (year d)), Some (nat (month d)), Some (nat (day d))]"
proof -
  let ?y = "pad_zero 4 (show_nat (nat (year d)))" and ?m = "pad_zero 2 (show_nat (nat (month d)))"
    and ?d = "pad_zero 2 (show_nat (nat (day d)))"
  have v: "parse_nat ?y = Some (nat (year d))" "parse_nat ?m = Some (nat (month d))" "parse_nat ?d = Some (nat (day d))"
    by (simp_all add: pad_zero_value)
  note nd = v [THEN dash_not_digit]
  have "split_on CHR ''-'' (?y @ CHR ''-'' # ?m @ CHR ''-'' # ?d) = ?y # split_on CHR ''-'' (?m @ CHR ''-'' # ?d)"
    by (rule split_on_append [OF nd(1)])
  also have "split_on CHR ''-'' (?m @ CHR ''-'' # ?d) = ?m # split_on CHR ''-'' ?d"
    by (rule split_on_append [OF nd(2)])
  also have "split_on CHR ''-'' ?d = [?d]" by (rule split_on_id [OF nd(3)])
  finally show ?thesis using v by (simp add: isoformat_def)
qed

text \<open>The ISO text of a valid date determines the date.\<close>

lemma isoformat_inj:
  assumes "valid_date d" "valid_date e" "isoformat d = isoformat e"
  shows "d = e"
proof -
  from assms(3) isoformat_fields [of d] isoformat_fields [of e]
  have "nat (year d) = nat (year e)" "nat (month d) = nat (month e)" "nat (day d) = nat (day e)" by auto
  with assms(1,2) show ?thesis
    by (cases d; cases e) (auto simp: valid_date_def)
qed

end
