(* ===== verification/ParishSoft.thy ===== *)
theory ParishSoft
  imports Dates
begin

text \<open>
  The ParishSoft snapshot of \<open>parishsoft.py\<close>: members, families, workgroup and ministry
  rosters, the e-mail normalisation, the cross-linking passes and the filter that prunes
  members and families.

  A member or family dictionary is a record with the fields the sources use. The Python objects
  refer to each other (a family's \<open>py members\<close> are member objects); here they refer by key, so
  every object lives in one place: \<open>py_members\<close> holds member DUIDs and \<open>py_family\<close> a family DUID.
\<close>

section \<open>Records\<close>

record contact_info =
  nickName :: "string option"

record ministry_entry =
  me_id :: int
  me_name :: string
  me_role :: "string option"
  me_start :: "date option"
  me_end :: "date option"
  me_member :: int
  me_family :: "int option"

record member =
  memberDUID :: int
  m_familyDUID :: int
  firstName :: string
  lastName :: string
  emailAddress :: "string option"
  py_emailAddresses :: "string list option"
  memberStatus :: "string option"
  memberType :: "string option"
  family_PublishPhone :: bool
  family_PublishEMail :: bool
  mobilePhone :: "string option"
  homePhone :: "string option"
  py_family :: "int option"
  py_contactInfo :: "contact_info option"
  py_member_workgroups :: "int list"
  py_workgroups :: "(string, int) dict"
  py_ministries :: "(string, ministry_entry) dict"
  py_friendly_FL :: "string option"
  py_friendly_LF :: "string option"
  py_active :: bool

record family =
  f_familyDUID :: int
  eMailAddress :: "string option"
  py_eMailAddresses :: "string list option"
  registeredOrganizationID :: "int option"
  famGroupID :: "int option"
  familyGroupID :: "int option"
  py_family_group :: "string option"
  py_members :: "int list"
  py_family_workgroups :: "int list"
  f_py_workgroups :: "(string, int) dict"
  py_pledges :: "int list"
  py_contributions :: "int list"

text \<open>A row of a workgroup or ministry roster, with both spellings of its identifiers.\<close>

record membership_row =
  row_memberDUID :: "int option"
  row_memberId :: "int option"
  row_familyDUID :: "int option"
  row_familyId :: "int option"
  py_member_duid :: "int option"
  py_family_duid :: "int option"
  row_role :: "string option"
  row_start :: "date option"
  row_end :: "date option"

record roster =
  ro_id :: int
  ro_name :: string
  membership :: "membership_row list"

type_synonym members = "(int, member) dict"
type_synonym families = "(int, family) dict"
type_synonym rosters = "(int, roster) dict"

text \<open>Python's \<open>a or b\<close> on an optional integer: \<open>None\<close> and 0 are false.\<close>

definition py_or :: "int option \<Rightarrow> int option \<Rightarrow> int option" where
  "py_or a b = (case a of None \<Rightarrow> b | Some n \<Rightarrow> if n = 0 then b else a)"

section \<open>E-mail addresses\<close>

fun dedup_emails :: "string list \<Rightarrow> string list \<Rightarrow> string set \<Rightarrow> string list" where
  "dedup_emails [] addresses seen = addresses"
| "dedup_emails (item # items) addresses seen =
     (let email = lower (strip item)
      in if email = [] \<or> email \<in> seen then dedup_emails items addresses seen
         else dedup_emails items (addresses @ [email]) (insert email seen))"

definition split_email_addresses :: "string list \<Rightarrow> string list" where
  "split_email_addresses items = dedup_emails (concat (map (split_on CHR '';'') items)) [] {}"

definition normalize_member_email :: "member \<Rightarrow> member" where
  "normalize_member_email m =
     (case emailAddress m of
        Some value \<Rightarrow>
          if value = [] then m
          else (let addresses = split_email_addresses [value]
                in m\<lparr>emailAddress := Some (join ''; '' addresses),
                     py_emailAddresses := Some addresses\<rparr>)
      | None \<Rightarrow> m)"

definition normalize_family_email :: "family \<Rightarrow> family" where
  "normalize_family_email f =
     (case eMailAddress f of
        Some value \<Rightarrow>
          if value = [] then f
          else (let addresses = split_email_addresses [value]
                in f\<lparr>eMailAddress := Some (join ''; '' addresses),
                     py_eMailAddresses := Some addresses\<rparr>)
      | None \<Rightarrow> f)"

definition member_email_addresses :: "member \<Rightarrow> string list" where
  "member_email_addresses m =
     (case py_emailAddresses m of
        Some emails \<Rightarrow> split_email_addresses emails
      | None \<Rightarrow>
          (case emailAddress m of
             Some value \<Rightarrow> if value = [] then [] else split_email_addresses [value]
           | None \<Rightarrow> []))"

section \<open>Status\<close>

definition member_is_deceased :: "member \<Rightarrow> bool" where
  "member_is_deceased m \<longleftrightarrow> memberStatus m = Some ''Deceased''"

definition member_is_active :: "member \<Rightarrow> bool" where
  "member_is_active m \<longleftrightarrow> memberStatus m \<noteq> Some ''Inactive'' \<and> \<not> member_is_deceased m"

text \<open>The member objects behind a family's \<open>py members\<close> list.\<close>

definition family_members :: "members \<Rightarrow> family \<Rightarrow> member list" where
  "family_members ms f = List.map_filter (map_of ms) (py_members f)"

definition family_is_active :: "members \<Rightarrow> family \<Rightarrow> bool" where
  "family_is_active ms f \<longleftrightarrow>
     py_family_group f \<noteq> Some ''Inactive'' \<and> list_ex member_is_active (family_members ms f)"

definition family_is_parishioner :: "family \<Rightarrow> int option \<Rightarrow> bool" where
  "family_is_parishioner f org_id =
     (case org_id of
        None \<Rightarrow> False
      | Some o' \<Rightarrow> (case registeredOrganizationID f of None \<Rightarrow> False | Some r \<Rightarrow> r = o'))"

definition ministry_membership_is_current :: "membership_row \<Rightarrow> date \<Rightarrow> bool" where
  "ministry_membership_is_current row today =
     (case (row_start row, row_end row) of
        (None, None) \<Rightarrow> False
      | (start_date, end_date) \<Rightarrow>
          if (case start_date of None \<Rightarrow> False | Some s \<Rightarrow> s > today) then False
          else \<not> (case end_date of None \<Rightarrow> False | Some e \<Rightarrow> e \<le> today))"

definition one_year_ago :: "date \<Rightarrow> date res" where
  "one_year_ago today =
     (case date_replace (Date (year today - 1) (month today) (day today)) of
        Inr d \<Rightarrow> Inr d
      | Inl _ \<Rightarrow> date_replace (Date (year today - 1) (month today) 28))"

section \<open>Loading rows\<close>

definition copy_row_duids :: "membership_row \<Rightarrow> membership_row" where
  "copy_row_duids row =
     (let row = (case row_memberDUID row of
                   Some d \<Rightarrow> row\<lparr>py_member_duid := Some d\<rparr>
                 | None \<Rightarrow> (case row_memberId row of
                             Some d \<Rightarrow> row\<lparr>py_member_duid := Some d\<rparr> | None \<Rightarrow> row))
      in case row_familyDUID row of
           Some d \<Rightarrow> row\<lparr>py_family_duid := Some d\<rparr>
         | None \<Rightarrow> (case row_familyId row of
                     Some d \<Rightarrow> row\<lparr>py_family_duid := Some d\<rparr> | None \<Rightarrow> row))"

definition load_members :: "member list \<Rightarrow> members" where
  "load_members elements =
     dict_map normalize_member_email (dict_of (map (\<lambda>m. (memberDUID m, m)) elements) [])"

definition load_families :: "family list \<Rightarrow> families" where
  "load_families elements =
     dict_map normalize_family_email (dict_of (map (\<lambda>f. (f_familyDUID f, f)) elements) [])"

section \<open>Cross-linking\<close>

definition link_families_and_members :: "families \<Rightarrow> members \<Rightarrow> families \<times> members" where
  "link_families_and_members families members =
     fold (\<lambda>(k, m) (fs, ms).
         let fam = map_of fs (m_familyDUID m);
             ms' = AList.update k (m\<lparr>py_family := map_option (\<lambda>_. m_familyDUID m) fam\<rparr>) ms
         in case fam of
              None \<Rightarrow> (fs, ms')
            | Some f \<Rightarrow>
                (AList.update (m_familyDUID m) (f\<lparr>py_members := py_members f @ [k]\<rparr>) fs, ms'))
       members
       (dict_map (\<lambda>f. f\<lparr>py_members := []\<rparr>) families, members)"

definition link_family_groups :: "families \<Rightarrow> (int, string) dict \<Rightarrow> families" where
  "link_family_groups families family_groups =
     dict_map (\<lambda>f.
       case py_or (famGroupID f) (familyGroupID f) of
         None \<Rightarrow> f
       | Some g \<Rightarrow> f\<lparr>py_family_group := map_of family_groups g\<rparr>) families"

definition add_family_workgroup :: "int \<Rightarrow> roster \<Rightarrow> families \<Rightarrow> membership_row \<Rightarrow> families" where
  "add_family_workgroup k wg fs row =
     (case py_or (py_family_duid row) (py_or (row_familyDUID row) (row_familyId row)) of
        None \<Rightarrow> fs
      | Some d \<Rightarrow>
          (case map_of fs d of
             None \<Rightarrow> fs
           | Some f \<Rightarrow>
               AList.update d
                 (f\<lparr>py_family_workgroups := py_family_workgroups f @ [k],
                    f_py_workgroups := AList.update (ro_name wg) k (f_py_workgroups f)\<rparr>) fs))"

definition link_family_workgroups :: "families \<Rightarrow> rosters \<Rightarrow> families" where
  "link_family_workgroups families memberships =
     fold (\<lambda>(k, wg) fs. foldl (add_family_workgroup k wg) fs (membership wg))
       memberships
       (dict_map (\<lambda>f. f\<lparr>py_family_workgroups := [], f_py_workgroups := []\<rparr>) families)"

definition link_member_contactinfos :: "members \<Rightarrow> (int, contact_info) dict \<Rightarrow> members" where
  "link_member_contactinfos members contactinfos =
     map (\<lambda>(k, m). case map_of contactinfos k of
                     None \<Rightarrow> (k, m)
                   | Some c \<Rightarrow> (k, m\<lparr>py_contactInfo := Some c\<rparr>)) members"

definition add_member_workgroup :: "int \<Rightarrow> roster \<Rightarrow> members \<Rightarrow> membership_row \<Rightarrow> members" where
  "add_member_workgroup k wg ms row =
     (case py_member_duid row of
        None \<Rightarrow> ms
      | Some d \<Rightarrow>
          (case map_of ms d of
             None \<Rightarrow> ms
           | Some m \<Rightarrow>
               AList.update d
                 (m\<lparr>py_member_workgroups := py_member_workgroups m @ [k],
                    py_workgroups := AList.update (ro_name wg) k (py_workgroups m)\<rparr>) ms))"

definition link_member_workgroups :: "members \<Rightarrow> rosters \<Rightarrow> members" where
  "link_member_workgroups members memberships =
     fold (\<lambda>(k, wg) ms. foldl (add_member_workgroup k wg) ms (membership wg))
       memberships
       (dict_map (\<lambda>m. m\<lparr>py_member_workgroups := [], py_workgroups := []\<rparr>) members)"

definition ministry_entry_of :: "roster \<Rightarrow> int \<Rightarrow> membership_row \<Rightarrow> int option \<Rightarrow> ministry_entry" where
  "ministry_entry_of ministry member_duid row family_duid =
     \<lparr>me_id = ro_id ministry, me_name = ro_name ministry, me_role = row_role row,
      me_start = row_start row, me_end = row_end row, me_member = member_duid,
      me_family = py_or (py_family_duid row) family_duid\<rparr>"

definition add_member_ministry :: "date \<Rightarrow> roster \<Rightarrow> members \<Rightarrow> membership_row \<Rightarrow> members" where
  "add_member_ministry today ministry ms row =
     (case py_member_duid row of
        None \<Rightarrow> ms
      | Some d \<Rightarrow>
          (case map_of ms d of
             None \<Rightarrow> ms
           | Some m \<Rightarrow>
               if ministry_membership_is_current row today
               then AList.update d
                 (m\<lparr>py_ministries :=
                      AList.update (ro_name ministry)
                        (ministry_entry_of ministry d row (py_family m)) (py_ministries m)\<rparr>) ms
               else ms))"

definition link_member_ministries :: "date \<Rightarrow> members \<Rightarrow> rosters \<Rightarrow> members" where
  "link_member_ministries today members memberships =
     fold (\<lambda>(_, ministry) ms. foldl (add_member_ministry today ministry) ms (membership ministry))
       memberships
       (dict_map (\<lambda>m. m\<lparr>py_ministries := []\<rparr>) members)"

definition get_member_preferred_first :: "member \<Rightarrow> string" where
  "get_member_preferred_first m =
     (case py_contactInfo m of
        None \<Rightarrow> firstName m
      | Some c \<Rightarrow>
          (case nickName c of
             None \<Rightarrow> firstName m
           | Some n \<Rightarrow> if n = [] then firstName m else n))"

definition make_member_friendly_names :: "members \<Rightarrow> members" where
  "make_member_friendly_names members =
     dict_map (\<lambda>m.
       let first = get_member_preferred_first m; last' = lastName m
       in m\<lparr>py_friendly_FL := Some (strip (first @ '' '' @ last')),
            py_friendly_LF := Some (strip_by (\<lambda>c. c = CHR '','' \<or> c = CHR '' '') (last' @ '', '' @ first))\<rparr>)
     members"

section \<open>Filtering\<close>

text \<open>
  The collections the filter mutates. \<open>objs\<close> holds every member object, also those already
  deleted from \<open>members\<close>: a family's list refers to objects, not to dictionary entries.
\<close>

record ps_state =
  st_families :: families
  st_members :: members
  st_objs :: members
  st_fwm :: rosters
  st_mwm :: rosters
  st_mtm :: rosters

record filter_flags =
  ff_org_id :: int
  active_only :: bool
  parishioners_only :: bool
  include_deceased :: bool
  retain_empty_families :: bool

definition row_family_key :: "membership_row \<Rightarrow> int" where
  "row_family_key row =
     (case py_or (py_family_duid row) (py_or (row_familyDUID row) (py_or (row_familyId row) (Some (- 1)))) of
        Some d \<Rightarrow> d | None \<Rightarrow> - 1)"

definition row_member_key :: "membership_row \<Rightarrow> int" where
  "row_member_key row =
     (case py_or (py_member_duid row) (py_or (row_memberDUID row) (Some (- 1))) of
        Some d \<Rightarrow> d | None \<Rightarrow> - 1)"

definition drop_rows :: "(membership_row \<Rightarrow> int) \<Rightarrow> int \<Rightarrow> rosters \<Rightarrow> rosters" where
  "drop_rows key i rs =
     dict_map (\<lambda>g. g\<lparr>membership := filter (\<lambda>item. key item \<noteq> i) (membership g)\<rparr>) rs"

definition remove_memberships_for_family :: "int \<Rightarrow> ps_state \<Rightarrow> ps_state" where
  "remove_memberships_for_family family_id s =
     s\<lparr>st_fwm := drop_rows row_family_key family_id (st_fwm s),
       st_mwm := drop_rows row_family_key family_id (st_mwm s),
       st_mtm := drop_rows row_family_key family_id (st_mtm s)\<rparr>"

definition remove_memberships_for_member :: "int \<Rightarrow> ps_state \<Rightarrow> ps_state" where
  "remove_memberships_for_member member_id s =
     s\<lparr>st_mwm := drop_rows row_member_key member_id (st_mwm s),
       st_mtm := drop_rows row_member_key member_id (st_mtm s)\<rparr>"

definition member_out_of_scope :: "filter_flags \<Rightarrow> member \<Rightarrow> bool" where
  "member_out_of_scope fl m \<longleftrightarrow>
     (\<not> include_deceased fl \<and> member_is_deceased m) \<or> (active_only fl \<and> \<not> member_is_active m)"

definition filter_member :: "filter_flags \<Rightarrow> ps_state \<Rightarrow> int \<times> member \<Rightarrow> ps_state" where
  "filter_member fl s km =
     (let member_id = fst km; m = snd km
      in if member_out_of_scope fl m then
           (let s1 = s\<lparr>st_objs := AList.update member_id (m\<lparr>py_active := False\<rparr>) (st_objs s)\<rparr>;
                s2 = (case py_family m of
                        None \<Rightarrow> s1
                      | Some fid \<Rightarrow>
                          (case map_of (st_families s1) fid of
                             None \<Rightarrow> s1
                           | Some f \<Rightarrow>
                               s1\<lparr>st_families :=
                                 AList.update fid
                                   (f\<lparr>py_members := filter (\<lambda>i. i \<noteq> member_id) (py_members f)\<rparr>)
                                   (st_families s1)\<rparr>));
                s3 = remove_memberships_for_member member_id s2
            in s3\<lparr>st_members := AList.delete member_id (st_members s3)\<rparr>)
         else s)"

definition family_out_of_scope :: "filter_flags \<Rightarrow> members \<Rightarrow> family \<Rightarrow> bool" where
  "family_out_of_scope fl objs f \<longleftrightarrow>
     (\<not> list_ex py_active (family_members objs f) \<and> \<not> retain_empty_families fl) \<or>
     (active_only fl \<and> \<not> family_is_active objs f) \<or>
     (parishioners_only fl \<and> \<not> family_is_parishioner f (Some (ff_org_id fl)))"

definition filter_family :: "filter_flags \<Rightarrow> ps_state \<Rightarrow> int \<times> family \<Rightarrow> ps_state" where
  "filter_family fl s kf =
     (let family_id = fst kf; f = snd kf
      in if family_out_of_scope fl (st_objs s) f then
           (let s1 = s\<lparr>st_members := fold AList.delete (py_members f) (st_members s)\<rparr>;
                s2 = remove_memberships_for_family family_id s1
            in s2\<lparr>st_families := AList.delete family_id (st_families s2)\<rparr>)
         else s)"

definition filter_families_and_members :: "filter_flags \<Rightarrow> ps_state \<Rightarrow> ps_state" where
  "filter_families_and_members fl s =
     (let marked = dict_map (\<lambda>m. m\<lparr>py_active := True\<rparr>) (st_members s);
          s0 = s\<lparr>st_members := marked, st_objs := marked\<rparr>;
          s1 = foldl (filter_member fl) s0 (st_members s0)
      in foldl (filter_family fl) s1 (st_families s1))"

end
