(* ===== verification/GGroup_Sync.thy ===== *)
theory GGroup_Sync
  imports GGroup_Config ParishSoft
begin

text \<open>
  The decisions of \<open>pk-sync-ps-to-ggroup\<close>: which ParishSoft members a configured group wants,
  how addresses are compared, the diff between the wanted and the current membership, and the
  guard against large removals. \<open>re.search\<close> is the parameter \<open>rs\<close> (pattern, then text).
\<close>

section \<open>Data\<close>

record desired_member =
  dm_email :: string
  dm_leader :: bool
  dm_names :: "string list"

record sync_action =
  sa_action :: string
  sa_email :: string
  sa_role :: "string option"
  sa_member_id :: "string option"
  sa_desired :: "desired_member option"

text \<open>A member as the Directory API lists it, and the normalised form of it.\<close>

record raw_member =
  rm_email :: string
  rm_role :: "string option"
  rm_id :: "string option"

record gmember =
  gm_email :: string
  gm_role :: string
  gm_id :: string

section \<open>Address comparison\<close>

definition at_split :: "string \<Rightarrow> string \<times> string" where
  "at_split s = (takeWhile (\<lambda>c. c \<noteq> CHR ''@'') s, tl (dropWhile (\<lambda>c. c \<noteq> CHR ''@'') s))"

definition normalize_email :: "string set \<Rightarrow> string \<Rightarrow> string" where
  "normalize_email domains email =
     (if CHR ''@'' \<notin> set email then lower email
      else (let (loc, domain) = at_split (lower email)
            in if domain \<notin> domains then loc @ ''@'' @ domain
               else (let loc = takeWhile (\<lambda>c. c \<noteq> CHR ''+'') loc;
                         loc = (if domain = ''gmail.com'' \<or> domain = ''googlemail.com''
                                then filter (\<lambda>c. c \<noteq> CHR ''.'') loc else loc)
                     in loc @ ''@'' @ domain)))"

definition compare_email :: "string set \<Rightarrow> string \<Rightarrow> string \<Rightarrow> bool" where
  "compare_email domains l r \<longleftrightarrow> normalize_email domains l = normalize_email domains r"

definition normalized_group_members :: "raw_member list \<Rightarrow> gmember list" where
  "normalized_group_members members =
     map (\<lambda>m. \<lparr>gm_email = lower (rm_email m),
               gm_role = upper (case rm_role m of None \<Rightarrow> ''MEMBER'' | Some r \<Rightarrow> r),
               gm_id = (case rm_id m of None \<Rightarrow> rm_email m
                        | Some i \<Rightarrow> if i = [] then rm_email m else i)\<rparr>) members"

section \<open>Matching members to a group\<close>

definition is_ministry_leader :: "ministry_entry \<Rightarrow> string set \<Rightarrow> bool" where
  "is_ministry_leader ministry leader_roles =
     (case me_role ministry of None \<Rightarrow> False | Some r \<Rightarrow> r \<in> leader_roles)"

definition ministry_name_matches_selector ::
  "(string \<Rightarrow> string \<Rightarrow> bool) \<Rightarrow> string \<Rightarrow> selector \<Rightarrow> bool" where
  "ministry_name_matches_selector rs name sel =
     (if \<not> startswith name (case ministry_prefix sel of None \<Rightarrow> [] | Some p \<Rightarrow> p) then False
      else \<not> (case ministry_pattern sel of None \<Rightarrow> False | Some p \<Rightarrow> \<not> rs p name))"

definition ministry_matches_selector ::
  "(string \<Rightarrow> string \<Rightarrow> bool) \<Rightarrow> ministry_entry \<Rightarrow> selector \<Rightarrow> bool" where
  "ministry_matches_selector rs ministry sel = ministry_name_matches_selector rs (me_name ministry) sel"

definition member_in_ministries :: "member \<Rightarrow> string list \<Rightarrow> string set \<Rightarrow> bool \<times> bool" where
  "member_in_ministries m ministries leader_roles =
     foldl (\<lambda>(found, leader) ministry.
         if me_name ministry \<in> set ministries
         then (True, leader \<or> is_ministry_leader ministry leader_roles)
         else (found, leader))
       (False, False) (map snd (py_ministries m))"

definition member_in_workgroups :: "member \<Rightarrow> string list \<Rightarrow> bool \<times> bool" where
  "member_in_workgroups m workgroups =
     foldl (\<lambda>(found, leader) workgroup.
         let found = found \<or> workgroup \<in> fst ` set (py_workgroups m)
         in if (workgroup @ '' Ldr'') \<in> fst ` set (py_workgroups m) \<or>
               (workgroup @ '' Leader'') \<in> fst ` set (py_workgroups m)
            then (True, True) else (found, leader))
       (False, False) workgroups"

definition last_at_part :: "string \<Rightarrow> string" where
  "last_at_part email =
     (if CHR ''@'' \<in> set email then rev (takeWhile (\<lambda>c. c \<noteq> CHR ''@'') (rev email)) else [])"

definition selector_matches_member ::
  "(string \<Rightarrow> string \<Rightarrow> bool) \<Rightarrow> member \<Rightarrow> selector \<Rightarrow> string set \<Rightarrow> (bool \<times> bool) res" where
  "selector_matches_member rs m sel configured_leader_roles =
     (let ministries = map snd (py_ministries m);
          chairs = filter (\<lambda>ministry. is_ministry_leader ministry configured_leader_roles \<and>
                             ministry_matches_selector rs ministry sel) ministries
      in if sel_type sel = ''all_ministry_chairs'' then
           (if chairs = [] then Inr (False, False)
            else (let emails = member_email_addresses m;
                      email = (case emails of [] \<Rightarrow> [] | e # _ \<Rightarrow> e)
                  in Inr (True, last_at_part email \<in> set (staff_owner_domains sel))))
         else if sel_type sel = ''ministry_chair'' then Inr (chairs \<noteq> [], chairs \<noteq> [])
         else if sel_type sel = ''ministry_role'' then
           Inr (foldl (\<lambda>(is_member, is_leader) ministry.
                  if \<not> ministry_matches_selector rs ministry sel then (is_member, is_leader)
                  else (case me_role ministry of
                          None \<Rightarrow> (is_member, is_leader)
                        | Some role \<Rightarrow>
                            if role \<in> set (member_roles sel) \<or> role \<in> set (sel_leader_roles sel)
                            then (True, is_leader \<or> role \<in> set (sel_leader_roles sel) \<or>
                                    is_ministry_leader ministry configured_leader_roles)
                            else (is_member, is_leader)))
                (False, False) ministries)
         else Inl (ConfigError ''unknown sync selector type'' [sel_type sel] []))"

definition member_matches_group ::
  "(string \<Rightarrow> string \<Rightarrow> bool) \<Rightarrow> member \<Rightarrow> group_sync \<Rightarrow> string set \<Rightarrow> (bool \<times> bool) res" where
  "member_matches_group rs m grp leader_roles =
     (let (mm, ml) = member_in_ministries m (gs_ministries grp) leader_roles;
          (wm, wl) = member_in_workgroups m (gs_workgroups grp)
      in bind_res (foldM_res (\<lambda>(is_member, is_leader) sel.
                     bind_res (selector_matches_member rs m sel leader_roles)
                       (\<lambda>(sm, sl). Inr (is_member \<or> sm, is_leader \<or> sl)))
                   (mm \<or> wm, ml \<or> wl) (selectors grp))
           (\<lambda>(is_member, is_leader). Inr (is_member \<or> is_leader, is_leader)))"

section \<open>The wanted membership\<close>

definition member_display_name :: "member \<Rightarrow> string" where
  "member_display_name m = strip (firstName m @ '' '' @ lastName m)"

type_synonym found = "(string, desired_member) dict"

definition add_desired_member ::
  "string set \<Rightarrow> found \<Rightarrow> string \<Rightarrow> bool \<Rightarrow> string option \<Rightarrow> found" where
  "add_desired_member domains found email leader name =
     (let display_email = lower email;
          normalized = normalize_email domains display_email;
          new_names = (case name of None \<Rightarrow> [] | Some n \<Rightarrow> if n = [] then [] else [n])
      in case map_of found normalized of
           Some ex \<Rightarrow>
             AList.update normalized
               (ex\<lparr>dm_leader := dm_leader ex \<or> leader, dm_names := dm_names ex @ new_names\<rparr>) found
         | None \<Rightarrow>
             AList.update normalized
               \<lparr>dm_email = display_email, dm_leader = leader, dm_names = new_names\<rparr> found)"

definition member_label :: "member \<Rightarrow> string" where
  "member_label m =
     (case py_friendly_FL m of
        None \<Rightarrow> member_display_name m
      | Some n \<Rightarrow> if n = [] then member_display_name m else n)"

definition add_matching_member ::
  "(string \<Rightarrow> string \<Rightarrow> bool) \<Rightarrow> string set \<Rightarrow> string set \<Rightarrow> group_sync \<Rightarrow> found \<Rightarrow> member \<Rightarrow> found res" where
  "add_matching_member rs domains leader_roles grp found m =
     bind_res (member_matches_group rs m grp leader_roles) (\<lambda>(is_member, is_leader).
       if \<not> is_member \<and> \<not> is_leader then Inr found
       else (case member_email_addresses m of
               [] \<Rightarrow> Inr found
             | e # _ \<Rightarrow> Inr (add_desired_member domains found e is_leader (Some (member_label m)))))"

definition desired_members ::
  "(string \<Rightarrow> string \<Rightarrow> bool) \<Rightarrow> members \<Rightarrow> group_sync \<Rightarrow> string set \<Rightarrow> string set \<Rightarrow>
   desired_member list res" where
  "desired_members rs members grp domains leader_roles =
     bind_res (foldM_res (add_matching_member rs domains leader_roles grp) [] (map snd members)) (\<lambda>found.
       Inr (map snd (foldl (\<lambda>found sm. add_desired_member domains found (sm_email sm) (sm_leader sm) None)
              found (static_members grp))))"

section \<open>The diff\<close>

definition role_of :: "desired_member \<Rightarrow> string" where
  "role_of d = (if dm_leader d then ''OWNER'' else ''MEMBER'')"

definition member_key :: "gmember \<Rightarrow> string" where
  "member_key g = (if gm_id g = [] then gm_email g else gm_id g)"

fun desired_actions ::
  "string set \<Rightarrow> gmember list \<Rightarrow> desired_member list \<Rightarrow> sync_action list \<times> nat set" where
  "desired_actions domains group_members [] = ([], {})"
| "desired_actions domains group_members (d # ds) =
     (let (rest, matched) = desired_actions domains group_members ds
      in case find_index (\<lambda>g. compare_email domains (dm_email d) (gm_email g)) group_members of
           None \<Rightarrow>
             (\<lparr>sa_action = ''add'', sa_email = dm_email d, sa_role = Some (role_of d),
               sa_member_id = None, sa_desired = Some d\<rparr> # rest, matched)
         | Some i \<Rightarrow>
             (let g = group_members ! i
              in if upper (gm_role g) \<noteq> role_of d
                 then (\<lparr>sa_action = ''change_role'', sa_email = dm_email d, sa_role = Some (role_of d),
                        sa_member_id = Some (member_key g), sa_desired = Some d\<rparr> # rest,
                       insert i matched)
                 else (rest, insert i matched)))"

definition delete_action :: "gmember \<Rightarrow> sync_action" where
  "delete_action g =
     \<lparr>sa_action = ''delete'', sa_email = gm_email g, sa_role = None,
      sa_member_id = Some (member_key g), sa_desired = None\<rparr>"

definition compute_actions ::
  "desired_member list \<Rightarrow> gmember list \<Rightarrow> string set \<Rightarrow> sync_action list" where
  "compute_actions desired group_members domains =
     (let (actions, matched) = desired_actions domains group_members desired
      in actions @ map (\<lambda>(_, g). delete_action g)
           (filter (\<lambda>(i, _). i \<notin> matched) (enumerate 0 group_members)))"

text \<open>The order in which \<open>apply_actions\<close> runs them: a stable sort that puts deletions first.\<close>

definition ordered_actions :: "sync_action list \<Rightarrow> sync_action list" where
  "ordered_actions actions = sort_key (\<lambda>a. sa_action a \<noteq> ''delete'') actions"

definition action_key :: "sync_action \<Rightarrow> string" where
  "action_key a = (case sa_member_id a of None \<Rightarrow> sa_email a | Some i \<Rightarrow> if i = [] then sa_email a else i)"

definition action_role :: "sync_action \<Rightarrow> string" where
  "action_role a = (case sa_role a of None \<Rightarrow> ''MEMBER'' | Some r \<Rightarrow> if r = [] then ''MEMBER'' else r)"

section \<open>The removal guard\<close>

definition removal_guard_tripped :: "int \<Rightarrow> int \<Rightarrow> int \<Rightarrow> rat \<Rightarrow> bool" where
  "removal_guard_tripped removal_count current_count max_count max_fraction =
     (if current_count \<le> 0 \<or> removal_count \<le> max_count then False
      else of_int removal_count / of_int current_count > max_fraction)"

definition validate_large_removal_guard ::
  "group_sync \<Rightarrow> sync_action list \<Rightarrow> gmember list \<Rightarrow> unit res" where
  "validate_large_removal_guard grp actions current_members =
     (let removals = filter (\<lambda>a. sa_action a = ''delete'') actions;
          current_count = int (length current_members)
      in if \<not> removal_guard_tripped (int (length removals)) current_count
              (max_removals grp) (max_removal_fraction grp)
         then Inr ()
         else Inl (ConfigError ''Google Group would remove current member(s)'' [gs_group grp]
                [int (length removals), current_count]))"

section \<open>Checking configured sources\<close>

definition available_ministry_names :: "rosters \<Rightarrow> members \<Rightarrow> string list" where
  "available_ministry_names ministry_type_memberships members =
     remdups (filter (\<lambda>n. n \<noteq> []) (map (ro_name \<circ> snd) ministry_type_memberships) @
       concat (map (\<lambda>(_, m). map fst (py_ministries m)) members))"

definition available_member_workgroup_source_names :: "rosters \<Rightarrow> members \<Rightarrow> string list" where
  "available_member_workgroup_source_names member_workgroup_memberships members =
     (let names = filter (\<lambda>n. n \<noteq> []) (map (ro_name \<circ> snd) member_workgroup_memberships) @
            concat (map (\<lambda>(_, m). map fst (py_workgroups m)) members);
          bases = concat (map (\<lambda>name. concat (map (\<lambda>suffix.
            if endswith name suffix then [take (length name - length suffix) name] else [])
            ['' Ldr'', '' Leader''])) names)
      in remdups (names @ bases))"

definition selector_matches_any_ministry_name ::
  "(string \<Rightarrow> string \<Rightarrow> bool) \<Rightarrow> selector \<Rightarrow> string list \<Rightarrow> bool res" where
  "selector_matches_any_ministry_name rs sel ministry_names =
     (if sel_type sel \<notin> {''all_ministry_chairs'', ''ministry_chair'', ''ministry_role''}
      then Inl (ConfigError ''unknown sync selector type'' [sel_type sel] [])
      else Inr (list_ex (\<lambda>name. ministry_name_matches_selector rs name sel) ministry_names))"

definition validate_group_sources ::
  "(string \<Rightarrow> string \<Rightarrow> bool) \<Rightarrow> string list \<Rightarrow> string list \<Rightarrow> group_sync \<Rightarrow> unit res" where
  "validate_group_sources rs ministry_names workgroup_names grp =
     bind_res (all_res (\<lambda>ministry. guard_res (ministry \<in> set ministry_names)
         (ConfigError ''Configured ParishSoft ministry was not found'' [gs_group grp, ministry] []))
       (gs_ministries grp)) (\<lambda>_.
     bind_res (all_res (\<lambda>workgroup. guard_res (workgroup \<in> set workgroup_names)
         (ConfigError ''Configured ParishSoft member workgroup was not found''
            [gs_group grp, workgroup] []))
       (gs_workgroups grp)) (\<lambda>_.
     all_res (\<lambda>sel. bind_res (selector_matches_any_ministry_name rs sel ministry_names) (\<lambda>ok.
         guard_res ok (ConfigError ''Configured ParishSoft selector matched no ministries''
            [gs_group grp, sel_type sel] [])))
       (selectors grp)))"

definition validate_configured_parishsoft_sources ::
  "(string \<Rightarrow> string \<Rightarrow> bool) \<Rightarrow> rosters \<Rightarrow> rosters \<Rightarrow> members \<Rightarrow> sync_config \<Rightarrow> unit res" where
  "validate_configured_parishsoft_sources rs ministry_type_memberships
       member_workgroup_memberships members config =
     (let ministry_names = available_ministry_names ministry_type_memberships members;
          workgroup_names =
            available_member_workgroup_source_names member_workgroup_memberships members
      in all_res (validate_group_sources rs ministry_names workgroup_names) (sc_groups config))"

end
