(* ===== verification/Interfaces.thy ===== *)
theory Interfaces
  imports Prelude
begin

text \<open>
  The contracts that several components share, as locales: a normaliser whose results are fixed
  points (addresses, names, tokens) and a keyed accumulator that merges entries with the same key
  (the wanted members of a group, the contacts of a list).
  Each component interprets them on its own definitions.
\<close>

section \<open>Normalisers\<close>

locale normaliser =
  fixes norm :: "'a \<Rightarrow> 'a"
  assumes norm_idem: "norm (norm x) = norm x"
begin

lemma norm_image: "x \<in> range norm \<longleftrightarrow> norm x = x"
  by (metis norm_idem rangeE rangeI)

lemma norm_same_as_normal: "norm x = y \<Longrightarrow> norm y = y"
  using norm_idem by blast

lemma norm_map_idem: "map norm (map norm xs) = map norm xs"
  by (simp add: norm_idem)

end

section \<open>Keyed accumulators\<close>

locale keyed_merge =
  fixes key :: "'e \<Rightarrow> 'k"
    and fresh :: "'e \<Rightarrow> 'v"
    and merge :: "'v \<Rightarrow> 'e \<Rightarrow> 'v"
    and add :: "('k, 'v) dict \<Rightarrow> 'e \<Rightarrow> ('k, 'v) dict"
  assumes add_new: "map_of d (key e) = None \<Longrightarrow> add d e = AList.update (key e) (fresh e) d"
    and add_old: "map_of d (key e) = Some v \<Longrightarrow> add d e = AList.update (key e) (merge v e) d"
begin

definition add_all :: "('k, 'v) dict \<Rightarrow> 'e list \<Rightarrow> ('k, 'v) dict" where
  "add_all = foldl add"

lemma dict_ok_add: "dict_ok d \<Longrightarrow> dict_ok (add d e)"
  by (cases "map_of d (key e)") (auto simp: add_new add_old)

lemma dict_ok_add_all: "dict_ok d \<Longrightarrow> dict_ok (add_all d es)"
  by (induction es arbitrary: d) (auto simp: add_all_def dict_ok_add)

lemma map_of_add:
  "map_of (add d e) k =
     (if k = key e then Some (case map_of d k of None \<Rightarrow> fresh e | Some v \<Rightarrow> merge v e)
      else map_of d k)"
  by (cases "map_of d (key e)") (auto simp: add_new add_old update_conv')

text \<open>What is stored under a key: the entries with that key, merged in order.\<close>

lemma map_of_add_all:
  "map_of (add_all d es) k =
     (case map_of d k of
        Some v \<Rightarrow> Some (foldl merge v (filter (\<lambda>e. key e = k) es))
      | None \<Rightarrow> (case filter (\<lambda>e. key e = k) es of
                  [] \<Rightarrow> None | e # es' \<Rightarrow> Some (foldl merge (fresh e) es')))"
proof (induction es arbitrary: d)
  case Nil
  then show ?case by (auto simp: add_all_def split: option.splits)
next
  case (Cons e es)
  have "add_all d (e # es) = add_all (add d e) es" by (simp add: add_all_def)
  then show ?case by (auto simp: Cons.IH map_of_add split: option.splits)
qed

lemma keys_add_all: "fst ` set (add_all d es) = fst ` set d \<union> key ` set es"
proof -
  have "fst ` set (add d e) = insert (key e) (fst ` set d)" for d e
    by (cases "map_of d (key e)") (auto simp: add_new add_old dom_update)
  then show ?thesis by (induction es arbitrary: d) (auto simp: add_all_def)
qed

end

end
