(* ===== verification/GGroup_Diff.thy ===== *)
theory GGroup_Diff
  imports GGroup_Sync Interfaces
begin

text \<open>
  Correctness of the decisions in \<open>GGroup_Sync\<close>: address normalisation is idempotent, the
  wanted membership has one entry per address and the right roles, and carrying out the
  computed actions on a group produces exactly the wanted membership.
\<close>

section \<open>Address normalisation\<close>

lemma at_split_join:
  "CHR ''@'' \<notin> set l \<Longrightarrow> at_split (l @ ''@'' @ d) = (l, d)"
  by (induction l) (auto simp: at_split_def)

lemma at_split_parts:
  assumes "CHR ''@'' \<in> set s" and "at_split s = (l, d)"
  shows "s = l @ ''@'' @ d \<and> CHR ''@'' \<notin> set l"
proof -
  let ?p = "\<lambda>c. c \<noteq> CHR ''@''"
  from assms(1) have ne: "dropWhile ?p s \<noteq> []" by auto
  then have "hd (dropWhile ?p s) = CHR ''@''" using dropWhile_hd_False [of ?p s] by auto
  with ne have "dropWhile ?p s = CHR ''@'' # tl (dropWhile ?p s)" by (cases "dropWhile ?p s") auto
  then have "s = takeWhile ?p s @ CHR ''@'' # tl (dropWhile ?p s)"
    by (metis takeWhile_dropWhile_id)
  moreover have "CHR ''@'' \<notin> set (takeWhile ?p s)" by (auto dest: set_takeWhileD)
  ultimately show ?thesis using assms(2) by (auto simp: at_split_def)
qed

lemma lower_char_at [simp]: "lower_char c = CHR ''@'' \<longleftrightarrow> c = CHR ''@''"
proof -
  have "lower_char (CHR ''@'') = CHR ''@''" by code_simp
  moreover have "c = CHR ''@''" if "lower_char c = CHR ''@''"
  proof (cases "65 \<le> (of_char c :: nat) \<and> (of_char c :: nat) \<le> 90")
    case True
    with that have "(of_char (char_of ((of_char c :: nat) + 32) :: char) :: nat) = of_char (CHR ''@'')"
      by (simp add: lower_char_def)
    with True show ?thesis by simp
  next
    case False
    with that show ?thesis by (auto simp: lower_char_def Let_def split: if_splits)
  qed
  ultimately show ?thesis by metis
qed

lemma at_in_lower [simp]: "CHR ''@'' \<in> set (lower s) \<longleftrightarrow> CHR ''@'' \<in> set s"
  by (induction s) (auto simp: lower_Cons eq_commute [of "CHR ''@''"])

lemma lower_sub: "lower (l @ r) = l @ r \<Longrightarrow> lower l = l \<and> lower r = r"
  by simp

lemma lower_fixed_iff: "lower s = s \<longleftrightarrow> (\<forall>c\<in>set s. lower_char c = c)"
  by (induction s) (auto simp: lower_Cons)

lemma lower_fixed_filter: "lower s = s \<Longrightarrow> lower (filter p s) = filter p s"
  by (simp add: lower_fixed_iff)

lemma lower_fixed_takeWhile: "lower s = s \<Longrightarrow> lower (takeWhile p s) = takeWhile p s"
  by (auto simp: lower_fixed_iff dest: set_takeWhileD)

lemma normalize_email_lower [simp]: "normalize_email D (lower e) = normalize_email D e"
  by (simp add: normalize_email_def)

lemma normalize_email_idem: "normalize_email D (normalize_email D e) = normalize_email D e"
proof (cases "CHR ''@'' \<in> set e")
  case False
  then show ?thesis by (simp add: normalize_email_def)
next
  case True
  obtain l d where ld: "at_split (lower e) = (l, d)" by (cases "at_split (lower e)")
  from True at_split_parts [OF _ ld] have e: "lower e = l @ ''@'' @ d" and l: "CHR ''@'' \<notin> set l"
    by auto
  have low: "lower l = l" "lower d = d"
    using lower_idem [of e] unfolding e by (auto simp: lower_Cons)
  define l' where "l' = (if d \<notin> D then l else
    (let k = takeWhile (\<lambda>c. c \<noteq> CHR ''+'') l
     in if d = ''gmail.com'' \<or> d = ''googlemail.com'' then filter (\<lambda>c. c \<noteq> CHR ''.'') k else k))"
  have n: "normalize_email D e = l' @ ''@'' @ d"
    using True ld by (simp add: normalize_email_def l'_def Let_def)
  have l': "CHR ''@'' \<notin> set l'" "lower l' = l'"
    using l low(1) by (auto simp: l'_def Let_def lower_fixed_filter lower_fixed_takeWhile
        dest: set_takeWhileD)
  have fix': "takeWhile (\<lambda>c. c \<noteq> CHR ''+'') l' = l'" if "d \<in> D"
    using that by (auto simp: l'_def Let_def takeWhile_eq_all_conv dest: set_takeWhileD)
  have fil: "filter (\<lambda>c. c \<noteq> CHR ''.'') l' = l'" if "d \<in> D" "d = ''gmail.com'' \<or> d = ''googlemail.com''"
    using that by (auto simp: l'_def Let_def)
  have lo: "lower (l' @ ''@'' @ d) = l' @ ''@'' @ d"
    using l'(2) low(2) by (simp add: lower_Cons)
  have "normalize_email D (l' @ ''@'' @ d) = l' @ ''@'' @ d"
    unfolding normalize_email_def lo at_split_join [OF l'(1)]
    by (cases "d \<in> D"; cases "d = ''gmail.com'' \<or> d = ''googlemail.com''")
      (simp_all add: Let_def fix' fil del: disj_not1)
  then show ?thesis by (simp only: n)
qed

interpretation email_norm: normaliser "normalize_email domains" for domains
  by unfold_locales (rule normalize_email_idem)

lemma compare_email_equiv: "equivp (compare_email D)"
  by (auto simp: equivp_def compare_email_def fun_eq_iff)

section \<open>The wanted membership\<close>

text \<open>An entry of the accumulation: address, leadership, display name.\<close>

type_synonym entry = "string \<times> bool \<times> string option"

definition entry_names :: "string option \<Rightarrow> string list" where
  "entry_names name = (case name of None \<Rightarrow> [] | Some n \<Rightarrow> if n = [] then [] else [n])"

definition add_entry :: "string set \<Rightarrow> found \<Rightarrow> entry \<Rightarrow> found" where
  "add_entry domains found e =
     add_desired_member domains found (fst e) (fst (snd e)) (snd (snd e))"

interpretation wanted: keyed_merge
  "\<lambda>e::entry. normalize_email domains (fst e)"
  "\<lambda>e::entry. \<lparr>dm_email = lower (fst e), dm_leader = fst (snd e), dm_names = entry_names (snd (snd e))\<rparr>"
  "\<lambda>d (e::entry). d\<lparr>dm_leader := dm_leader d \<or> fst (snd e), dm_names := dm_names d @ entry_names (snd (snd e))\<rparr>"
  "add_entry domains" for domains
  by unfold_locales (auto simp: add_entry_def add_desired_member_def entry_names_def Let_def)

lemma foldl_merge_leader:
  "dm_leader (foldl (\<lambda>d (e::entry). d\<lparr>dm_leader := dm_leader d \<or> fst (snd e),
     dm_names := dm_names d @ entry_names (snd (snd e))\<rparr>) d es) \<longleftrightarrow>
   dm_leader d \<or> (\<exists>e\<in>set es. fst (snd e))"
  by (induction es arbitrary: d) auto

lemma foldl_merge_email [simp]:
  "dm_email (foldl (\<lambda>d (e::entry). d\<lparr>dm_leader := dm_leader d \<or> fst (snd e),
     dm_names := dm_names d @ entry_names (snd (snd e))\<rparr>) d es) = dm_email d"
  by (induction es arbitrary: d) auto

text \<open>The entries of the members that match a group, then of its static members.\<close>

definition member_entries ::
  "(string \<Rightarrow> string \<Rightarrow> bool) \<Rightarrow> string set \<Rightarrow> group_sync \<Rightarrow> member \<Rightarrow> entry list res" where
  "member_entries rs leader_roles grp m =
     bind_res (member_matches_group rs m grp leader_roles) (\<lambda>(is_member, is_leader).
       Inr (if \<not> is_member \<and> \<not> is_leader then []
            else (case member_email_addresses m of [] \<Rightarrow> []
                  | e # _ \<Rightarrow> [(e, is_leader, Some (member_label m))])))"

definition all_entries ::
  "(string \<Rightarrow> string \<Rightarrow> bool) \<Rightarrow> members \<Rightarrow> group_sync \<Rightarrow> string set \<Rightarrow> entry list res" where
  "all_entries rs members grp leader_roles =
     bind_res (map_res (member_entries rs leader_roles grp) (map snd members)) (\<lambda>ess.
       Inr (concat ess @ map (\<lambda>sm. (sm_email sm, sm_leader sm, None)) (static_members grp)))"

lemma add_matching_member_entries:
  "add_matching_member rs domains leader_roles grp found m =
     bind_res (member_entries rs leader_roles grp m) (\<lambda>es. Inr (foldl (add_entry domains) found es))"
  by (cases "member_matches_group rs m grp leader_roles")
    (auto simp: add_matching_member_def member_entries_def add_entry_def split: list.splits)

lemma foldM_matching_members:
  "foldM_res (add_matching_member rs domains leader_roles grp) found ms =
     bind_res (map_res (member_entries rs leader_roles grp) ms)
       (\<lambda>ess. Inr (foldl (add_entry domains) found (concat ess)))"
proof (induction ms arbitrary: found)
  case (Cons m ms)
  show ?case
  proof (cases "member_entries rs leader_roles grp m")
    case (Inr es)
    then show ?thesis
      by (cases "map_res (member_entries rs leader_roles grp) ms")
        (auto simp: add_matching_member_entries [where m = m] Cons.IH)
  qed (simp add: add_matching_member_entries [where m = m])
qed simp

lemma desired_members_entries:
  "desired_members rs members grp domains leader_roles =
     bind_res (all_entries rs members grp leader_roles)
       (\<lambda>es. Inr (map snd (wanted.add_all domains [] es)))"
proof -
  have "foldl (\<lambda>found sm. add_desired_member domains found (sm_email sm) (sm_leader sm) None) found sms =
    foldl (add_entry domains) found (map (\<lambda>sm. (sm_email sm, sm_leader sm, None)) sms)"
    for found :: found and sms :: "static_member list"
    by (induction sms arbitrary: found) (auto simp: add_entry_def)
  then show ?thesis
    by (cases "map_res (member_entries rs leader_roles grp) (map snd members)")
      (auto simp: desired_members_def all_entries_def foldM_matching_members wanted.add_all_def)
qed

lemma wanted_map_of:
  assumes "map_of (wanted.add_all D [] es) k = Some d"
  shows "normalize_email D (dm_email d) = k"
    and "dm_leader d \<longleftrightarrow> (\<exists>e\<in>set es. normalize_email D (fst e) = k \<and> fst (snd e))"
    and "lower (dm_email d) = dm_email d"
proof -
  from assms obtain e es' where f: "filter (\<lambda>e. normalize_email D (fst e) = k) es = e # es'"
    and d: "d = foldl (\<lambda>d e. d\<lparr>dm_leader := dm_leader d \<or> fst (snd e),
        dm_names := dm_names d @ entry_names (snd (snd e))\<rparr>)
      \<lparr>dm_email = lower (fst e), dm_leader = fst (snd e), dm_names = entry_names (snd (snd e))\<rparr> es'"
    by (auto simp: wanted.map_of_add_all split: list.splits)
  have "e \<in> set (filter (\<lambda>e. normalize_email D (fst e) = k) es)" unfolding f by simp
  then have ek: "normalize_email D (fst e) = k" by simp
  then show "normalize_email D (dm_email d) = k" "lower (dm_email d) = dm_email d"
    by (simp_all add: d)
  have "dm_leader d \<longleftrightarrow> (\<exists>x\<in>set (e # es'). fst (snd x))"
    by (auto simp: d foldl_merge_leader)
  also have "set (e # es') = {x \<in> set es. normalize_email D (fst x) = k}"
    by (metis f set_filter)
  finally show "dm_leader d \<longleftrightarrow> (\<exists>e\<in>set es. normalize_email D (fst e) = k \<and> fst (snd e))"
    by blast
qed

text \<open>The list of wanted members, characterised by the entries.\<close>

definition distinct_addresses :: "string set \<Rightarrow> desired_member list \<Rightarrow> bool" where
  "distinct_addresses D ds \<longleftrightarrow> distinct (map (\<lambda>d. normalize_email D (dm_email d)) ds)"

lemma wanted_list:
  fixes D :: "string set" and es :: "entry list"
  defines "ds \<equiv> map snd (wanted.add_all D [] es)"
  shows "distinct_addresses D ds"
    and "(\<lambda>d. normalize_email D (dm_email d)) ` set ds = (\<lambda>e. normalize_email D (fst e)) ` set es"
    and "d \<in> set ds \<Longrightarrow> dm_leader d \<longleftrightarrow>
      (\<exists>e\<in>set es. normalize_email D (fst e) = normalize_email D (dm_email d) \<and> fst (snd e))"
    and "d \<in> set ds \<Longrightarrow> lower (dm_email d) = dm_email d"
proof -
  let ?m = "wanted.add_all D [] es"
  have ok: "dict_ok ?m" by (rule wanted.dict_ok_add_all) simp
  have mo: "(k, v) \<in> set ?m \<Longrightarrow> map_of ?m k = Some v" for k v
    using ok by (simp add: dict_ok_Some_iff)
  have key: "(k, v) \<in> set ?m \<Longrightarrow> normalize_email D (dm_email v) = k" for k v
    by (rule wanted_map_of(1)) (rule mo)
  have map_eq: "map (\<lambda>d. normalize_email D (dm_email d)) ds = map fst ?m"
    by (auto simp: ds_def key)
  from ok show "distinct_addresses D ds"
    by (simp add: distinct_addresses_def map_eq dict_ok_def)
  have "(\<lambda>d. normalize_email D (dm_email d)) ` set ds = set (map (\<lambda>d. normalize_email D (dm_email d)) ds)"
    by simp
  also have "\<dots> = fst ` set ?m" unfolding map_eq by simp
  also have "\<dots> = (\<lambda>e. normalize_email D (fst e)) ` set es" by (simp add: wanted.keys_add_all)
  finally show "(\<lambda>d. normalize_email D (dm_email d)) ` set ds = (\<lambda>e. normalize_email D (fst e)) ` set es" .
  assume "d \<in> set ds"
  then obtain k where kd: "(k, d) \<in> set ?m" by (auto simp: ds_def)
  from wanted_map_of(2,3) [OF mo [OF kd]] key [OF kd]
  show "dm_leader d \<longleftrightarrow>
      (\<exists>e\<in>set es. normalize_email D (fst e) = normalize_email D (dm_email d) \<and> fst (snd e))"
    and "lower (dm_email d) = dm_email d" by auto
qed

lemma desired_members_distinct:
  "desired_members rs members grp D lr = Inr ds \<Longrightarrow> distinct_addresses D ds"
  by (auto simp: desired_members_entries wanted_list(1))

section \<open>The diff\<close>

definition match_of :: "string set \<Rightarrow> gmember list \<Rightarrow> desired_member \<Rightarrow> nat option" where
  "match_of D C d = find_index (\<lambda>g. compare_email D (dm_email d) (gm_email g)) C"

definition needs_role :: "gmember list \<Rightarrow> desired_member \<Rightarrow> nat \<Rightarrow> bool" where
  "needs_role C d i \<longleftrightarrow> upper (gm_role (C ! i)) \<noteq> role_of d"

definition add_action :: "desired_member \<Rightarrow> sync_action" where
  "add_action d = \<lparr>sa_action = ''add'', sa_email = dm_email d, sa_role = Some (role_of d),
     sa_member_id = None, sa_desired = Some d\<rparr>"

definition role_action :: "desired_member \<Rightarrow> gmember \<Rightarrow> sync_action" where
  "role_action d g = \<lparr>sa_action = ''change_role'', sa_email = dm_email d, sa_role = Some (role_of d),
     sa_member_id = Some (member_key g), sa_desired = Some d\<rparr>"

definition act_of :: "string set \<Rightarrow> gmember list \<Rightarrow> desired_member \<Rightarrow> sync_action list" where
  "act_of D C d = (case match_of D C d of None \<Rightarrow> [add_action d]
     | Some i \<Rightarrow> if needs_role C d i then [role_action d (C ! i)] else [])"

definition matched :: "string set \<Rightarrow> gmember list \<Rightarrow> desired_member list \<Rightarrow> nat set" where
  "matched D C ds = {i. \<exists>d\<in>set ds. match_of D C d = Some i}"

lemma desired_actions_eq:
  "desired_actions D C ds = (concat (map (act_of D C) ds), matched D C ds)"
proof (induction ds)
  case (Cons d ds)
  have "matched D C (d # ds) = (case match_of D C d of None \<Rightarrow> matched D C ds
      | Some i \<Rightarrow> insert i (matched D C ds))"
    by (auto simp: matched_def split: option.splits)
  then show ?case
    by (cases "match_of D C d") (auto simp: Cons.IH act_of_def match_of_def needs_role_def
        add_action_def role_action_def Let_def simp del: find_index_None)
qed (simp add: matched_def)

definition kept :: "nat set \<Rightarrow> gmember list \<Rightarrow> gmember list" where
  "kept M C = map snd (filter (\<lambda>(i, _). i \<in> M) (enumerate 0 C))"

definition surplus :: "nat set \<Rightarrow> gmember list \<Rightarrow> gmember list" where
  "surplus M C = map snd (filter (\<lambda>(i, _). i \<notin> M) (enumerate 0 C))"

lemma compute_actions_eq:
  "compute_actions ds C D =
     concat (map (act_of D C) ds) @ map delete_action (surplus (matched D C ds) C)"
  by (auto simp: compute_actions_def desired_actions_eq surplus_def Let_def comp_def split_beta)

lemma act_of_not_delete: "a \<in> set (act_of D C d) \<Longrightarrow> sa_action a \<noteq> ''delete''"
  by (auto simp: act_of_def add_action_def role_action_def split: option.splits if_splits)

lemma insort_key_True:
  "\<forall>a\<in>set xs. \<not> f a \<Longrightarrow> \<forall>b\<in>set ys. f b \<Longrightarrow> f x \<Longrightarrow> insort_key f x (xs @ ys) = xs @ x # ys"
  for f :: "'a \<Rightarrow> bool"
  by (induction xs) (cases ys, auto)

lemma insort_key_False: "\<not> f x \<Longrightarrow> insort_key f x ys = x # ys" for f :: "'a \<Rightarrow> bool"
  by (cases ys) auto

lemma sort_key_bool: "sort_key f xs = filter (\<lambda>x. \<not> f x) xs @ filter f xs" for f :: "'a \<Rightarrow> bool"
  by (induction xs) (auto simp: insort_key_True insort_key_False)

lemma ordered_actions_compute:
  "ordered_actions (compute_actions ds C D) =
     map delete_action (surplus (matched D C ds) C) @ concat (map (act_of D C) ds)"
proof -
  have "filter (\<lambda>a. sa_action a \<noteq> ''delete'') (concat (map (act_of D C) ds)) = concat (map (act_of D C) ds)"
    "filter (\<lambda>a. \<not> sa_action a \<noteq> ''delete'') (concat (map (act_of D C) ds)) = []"
    by (auto simp: filter_id_conv filter_empty_conv dest: act_of_not_delete)
  moreover have "filter (\<lambda>a. sa_action a \<noteq> ''delete'') (map delete_action gs) = []"
    "filter (\<lambda>a. \<not> sa_action a \<noteq> ''delete'') (map delete_action gs) = map delete_action gs" for gs
    by (auto simp: filter_empty_conv filter_id_conv delete_action_def)
  ultimately show ?thesis
    by (simp only: ordered_actions_def sort_key_bool compute_actions_eq filter_append append_Nil append_Nil2)
qed

section \<open>The effect of the actions\<close>

text \<open>
  What each action does to a group, as the Directory API documents it: an insert appends a member
  with a fresh identifier \<open>nid email\<close>, an update sets the role of the identified member, a
  delete removes it.
\<close>

definition spec_apply :: "(string \<Rightarrow> string) \<Rightarrow> gmember list \<Rightarrow> sync_action \<Rightarrow> gmember list" where
  "spec_apply nid gs a =
     (if sa_action a = ''add'' then
        gs @ [\<lparr>gm_email = sa_email a, gm_role = action_role a, gm_id = nid (sa_email a)\<rparr>]
      else if sa_action a = ''change_role'' then
        map (\<lambda>g. if gm_id g = action_key a then g\<lparr>gm_role := action_role a\<rparr> else g) gs
      else filter (\<lambda>g. gm_id g \<noteq> action_key a) gs)"

definition wf_group :: "gmember list \<Rightarrow> bool" where
  "wf_group C \<longleftrightarrow> distinct (map gm_id C) \<and>
     (\<forall>g\<in>set C. gm_id g \<noteq> [] \<and> upper (gm_role g) = gm_role g)"

lemma role_of_nonempty [simp]: "role_of d \<noteq> []"
  by (simp add: role_of_def)

lemma upper_role_of [simp]: "upper (role_of d) = role_of d"
proof -
  have "upper ''OWNER'' = ''OWNER''" "upper ''MEMBER'' = ''MEMBER''" by code_simp+
  then show ?thesis by (simp add: role_of_def)
qed

lemma spec_apply_delete:
  "gm_id g \<noteq> [] \<Longrightarrow> spec_apply nid gs (delete_action g) = filter (\<lambda>x. gm_id x \<noteq> gm_id g) gs"
  by (simp add: spec_apply_def delete_action_def action_key_def member_key_def)

lemma spec_apply_deletes:
  "\<forall>g\<in>set S. gm_id g \<noteq> [] \<Longrightarrow>
   foldl (spec_apply nid) gs (map delete_action S) = filter (\<lambda>x. gm_id x \<notin> gm_id ` set S) gs"
proof (induction S arbitrary: gs)
  case (Cons g S)
  then show ?case by (auto simp: spec_apply_delete intro: filter_cong)
qed simp

lemma kept_nth: "g \<in> set (kept M C) \<longleftrightarrow> (\<exists>i\<in>M. i < length C \<and> g = C ! i)"
  by (auto simp: kept_def in_set_enumerate_eq image_iff)

lemma surplus_nth: "g \<in> set (surplus M C) \<longleftrightarrow> (\<exists>i. i \<notin> M \<and> i < length C \<and> g = C ! i)"
  by (auto simp: surplus_def in_set_enumerate_eq image_iff)

lemma filter_enumerate:
  "filter (\<lambda>x. P x) C = map snd (filter (\<lambda>(i, x). P x) (enumerate n C))"
  by (induction C arbitrary: n) auto

lemma delete_surplus:
  assumes "wf_group C"
  shows "foldl (spec_apply nid) C (map delete_action (surplus M C)) = kept M C"
proof -
  have ne: "\<forall>g\<in>set (surplus M C). gm_id g \<noteq> []"
    using assms by (auto simp: surplus_nth wf_group_def)
  have inj: "i < length C \<Longrightarrow> j < length C \<Longrightarrow> gm_id (C ! i) = gm_id (C ! j) \<Longrightarrow> i = j" for i j
    using assms by (auto simp: wf_group_def distinct_conv_nth)
  have "(gm_id x \<notin> gm_id ` set (surplus M C)) \<longleftrightarrow> i \<in> M" if "(i, x) \<in> set (enumerate 0 C)" for i x
  proof -
    from that have ix: "i < length C" "x = C ! i" by (auto simp: in_set_enumerate_eq)
    show ?thesis
    proof
      assume "gm_id x \<notin> gm_id ` set (surplus M C)"
      then have "x \<notin> set (surplus M C)" by blast
      with ix show "i \<in> M" unfolding surplus_nth by blast
    next
      assume iM: "i \<in> M"
      show "gm_id x \<notin> gm_id ` set (surplus M C)"
      proof
        assume "gm_id x \<in> gm_id ` set (surplus M C)"
        then obtain g where "g \<in> set (surplus M C)" "gm_id x = gm_id g" by auto
        then obtain j where "j \<notin> M" "j < length C" "gm_id (C ! i) = gm_id (C ! j)"
          using ix by (auto simp: surplus_nth)
        with inj ix iM show False by blast
      qed
    qed
  qed
  then have "filter (\<lambda>(i, x). gm_id x \<notin> gm_id ` set (surplus M C)) (enumerate 0 C) =
      filter (\<lambda>(i, _). i \<in> M) (enumerate 0 C)"
    by (intro filter_cong) auto
  then show ?thesis
    unfolding spec_apply_deletes [OF ne] kept_def
    by (subst filter_enumerate [of _ _ 0]) simp
qed

text \<open>The role changes, as one function on members, and the members the adds create.\<close>

fun upd_roles :: "string set \<Rightarrow> gmember list \<Rightarrow> desired_member list \<Rightarrow> gmember \<Rightarrow> gmember" where
  "upd_roles D C [] g = g"
| "upd_roles D C (d # ds) g =
     upd_roles D C ds (case match_of D C d of
        Some i \<Rightarrow> if needs_role C d i \<and> gm_id g = gm_id (C ! i) then g\<lparr>gm_role := role_of d\<rparr> else g
      | None \<Rightarrow> g)"

definition new_member :: "(string \<Rightarrow> string) \<Rightarrow> desired_member \<Rightarrow> gmember" where
  "new_member nid d = \<lparr>gm_email = dm_email d, gm_role = role_of d, gm_id = nid (dm_email d)\<rparr>"

definition unmatched :: "string set \<Rightarrow> gmember list \<Rightarrow> desired_member list \<Rightarrow> desired_member list" where
  "unmatched D C ds = filter (\<lambda>d. match_of D C d = None) ds"

lemma upd_roles_frame [simp]:
  "gm_email (upd_roles D C ds g) = gm_email g" "gm_id (upd_roles D C ds g) = gm_id g"
  by (induction ds arbitrary: g) (auto split: option.splits)

lemma match_of_lt: "match_of D C d = Some i \<Longrightarrow> i < length C"
  by (auto simp: match_of_def dest: find_index_SomeD)

lemma upd_roles_other:
  "\<forall>d\<in>set ds. \<forall>i. match_of D C d = Some i \<longrightarrow> gm_id g \<noteq> gm_id (C ! i) \<Longrightarrow> upd_roles D C ds g = g"
  by (induction ds arbitrary: g) (auto split: option.splits)

text \<open>
  No address that is to be added belongs to an account that stays in the group under another
  address. An account that is deleted first does not count.
\<close>

definition no_alias ::
  "(string \<Rightarrow> string) \<Rightarrow> string set \<Rightarrow> desired_member list \<Rightarrow> gmember list \<Rightarrow> bool" where
  "no_alias nid D ds C \<longleftrightarrow>
     (\<forall>d\<in>set ds. match_of D C d = None \<longrightarrow>
        (\<forall>d'\<in>set ds. case match_of D C d' of
           None \<Rightarrow> d' = d \<or> nid (dm_email d') \<noteq> nid (dm_email d)
         | Some i \<Rightarrow> gm_id (C ! i) \<noteq> nid (dm_email d)))"

lemma no_alias_subset: "no_alias nid D ds C \<Longrightarrow> set es \<subseteq> set ds \<Longrightarrow> no_alias nid D es C"
  unfolding no_alias_def by (meson subsetD)

lemma no_alias_kept:
  "no_alias nid D ds C \<Longrightarrow> d \<in> set ds \<Longrightarrow> match_of D C d = None \<Longrightarrow> d' \<in> set ds \<Longrightarrow>
   match_of D C d' = Some i \<Longrightarrow> nid (dm_email d) \<noteq> gm_id (C ! i)"
  unfolding no_alias_def by (drule (1) bspec, drule (1) mp, drule (1) bspec, simp)

lemma no_alias_new:
  "no_alias nid D ds C \<Longrightarrow> d \<in> set ds \<Longrightarrow> match_of D C d = None \<Longrightarrow> d' \<in> set ds \<Longrightarrow>
   match_of D C d' = None \<Longrightarrow> nid (dm_email d') = nid (dm_email d) \<Longrightarrow> d' = d"
  unfolding no_alias_def by (drule (1) bspec, drule (1) mp, drule (1) bspec, simp)

lemma upd_roles_new:
  assumes "no_alias nid D (d # ds) C" "match_of D C d = None"
  shows "upd_roles D C ds (new_member nid d) = new_member nid d"
  using no_alias_kept [OF assms(1) _ assms(2)] by (intro upd_roles_other) (auto simp: new_member_def)

lemma spec_apply_add: "spec_apply nid gs (add_action d) = gs @ [new_member nid d]"
  by (simp add: spec_apply_def add_action_def new_member_def action_role_def)

lemma spec_apply_role:
  "gm_id g \<noteq> [] \<Longrightarrow> spec_apply nid gs (role_action d g) =
     map (\<lambda>x. if gm_id x = gm_id g then x\<lparr>gm_role := role_of d\<rparr> else x) gs"
  by (simp add: spec_apply_def role_action_def action_role_def action_key_def member_key_def)

lemma apply_wanted:
  assumes "wf_group C" and "no_alias nid D ds C"
  shows "foldl (spec_apply nid) gs (concat (map (act_of D C) ds)) =
    map (upd_roles D C ds) gs @ map (new_member nid) (unmatched D C ds)"
  using assms(2)
proof (induction ds arbitrary: gs)
  case Nil
  then show ?case by (simp add: unmatched_def)
next
  case (Cons d ds)
  have tail: "no_alias nid D ds C" by (rule no_alias_subset [OF Cons.prems]) auto
  show ?case
  proof (cases "match_of D C d")
    case None
    with Cons.prems have "upd_roles D C ds (new_member nid d) = new_member nid d"
      by (rule upd_roles_new)
    with None Cons.IH [OF tail] show ?thesis
      by (simp add: act_of_def unmatched_def spec_apply_add)
  next
    case (Some i)
    then have "gm_id (C ! i) \<noteq> []" using assms(1) match_of_lt [OF Some] by (auto simp: wf_group_def)
    with Some Cons.IH [OF tail] show ?thesis
      by (auto simp: act_of_def unmatched_def spec_apply_role)
  qed
qed

text \<open>Carrying out the computed actions, deletions first.\<close>

definition synced :: "(string \<Rightarrow> string) \<Rightarrow> string set \<Rightarrow> desired_member list \<Rightarrow> gmember list \<Rightarrow> gmember list" where
  "synced nid D ds C = foldl (spec_apply nid) C (ordered_actions (compute_actions ds C D))"

lemma synced_eq:
  assumes "wf_group C" and "no_alias nid D ds C"
  shows "synced nid D ds C =
    map (upd_roles D C ds) (kept (matched D C ds) C) @ map (new_member nid) (unmatched D C ds)"
  using assms by (simp add: synced_def ordered_actions_compute delete_surplus apply_wanted)

lemma match_of_inj:
  assumes "match_of D C d = Some i" "match_of D C d' = Some i"
  shows "normalize_email D (dm_email d) = normalize_email D (dm_email d')"
  using assms by (auto simp: match_of_def compare_email_def dest!: find_index_SomeD)

lemma match_of_norm:
  "match_of D C d = Some i \<Longrightarrow> normalize_email D (gm_email (C ! i)) = normalize_email D (dm_email d)"
  by (auto simp: match_of_def compare_email_def dest!: find_index_SomeD)

lemma upd_roles_hit:
  assumes "wf_group C" "distinct_addresses D ds" "d \<in> set ds" "match_of D C d = Some i"
  shows "gm_role (upd_roles D C ds (C ! i)) = role_of d"
proof -
  from assms(3) obtain as bs where ds: "ds = as @ d # bs" by (meson split_list)
  have other: "upd_roles D C es g = g"
    if "set es \<subseteq> set as \<union> set bs" "gm_id g = gm_id (C ! i)" for es g
  proof (rule upd_roles_other, intro ballI allI impI notI)
    fix e j assume e: "e \<in> set es" "match_of D C e = Some j" "gm_id g = gm_id (C ! j)"
    from e(2) assms(4) have "i < length C" "j < length C" by (auto dest: match_of_lt)
    with e(3) that(2) assms(1) have "i = j" by (auto simp: wf_group_def distinct_conv_nth)
    with e(2) assms(4) have "normalize_email D (dm_email e) = normalize_email D (dm_email d)"
      by (blast intro: match_of_inj)
    moreover from that(1) e(1) have
      "normalize_email D (dm_email e) \<in> (\<lambda>d. normalize_email D (dm_email d)) ` (set as \<union> set bs)"
      by blast
    ultimately show False using assms(2) unfolding ds distinct_addresses_def by auto
  qed
  have app: "upd_roles D C (xs @ ys) g = upd_roles D C ys (upd_roles D C xs g)" for xs ys g
    by (induction xs arbitrary: g) (auto split: option.splits)
  have "upd_roles D C ds (C ! i) =
      upd_roles D C bs (if needs_role C d i then (C ! i)\<lparr>gm_role := role_of d\<rparr> else C ! i)"
    using assms(4) by (simp add: ds app other)
  also have "\<dots> = (if needs_role C d i then (C ! i)\<lparr>gm_role := role_of d\<rparr> else C ! i)"
    by (rule other) auto
  finally show ?thesis
    using assms(1) match_of_lt [OF assms(4)] by (auto simp: needs_role_def wf_group_def)
qed

text \<open>The resulting group holds each wanted address once, with the wanted role, and nothing else.\<close>

definition group_is :: "string set \<Rightarrow> desired_member list \<Rightarrow> gmember list \<Rightarrow> bool" where
  "group_is D ds gs \<longleftrightarrow>
     distinct (map (\<lambda>g. normalize_email D (gm_email g)) gs) \<and>
     (\<lambda>g. (normalize_email D (gm_email g), gm_role g)) ` set gs =
       (\<lambda>d. (normalize_email D (dm_email d), role_of d)) ` set ds"

lemma group_is_wanted:
  assumes "group_is D ds gs" "d \<in> set ds"
  obtains g where "g \<in> set gs" "normalize_email D (gm_email g) = normalize_email D (dm_email d)"
    "gm_role g = role_of d"
proof -
  from assms have "(normalize_email D (dm_email d), role_of d) \<in>
    (\<lambda>g. (normalize_email D (gm_email g), gm_role g)) ` set gs"
    by (simp add: group_is_def)
  then show thesis using that by auto
qed

lemma group_is_present:
  assumes "group_is D ds gs" "g \<in> set gs"
  shows "\<exists>d\<in>set ds. normalize_email D (gm_email g) = normalize_email D (dm_email d)"
proof -
  from assms(2) have "(normalize_email D (gm_email g), gm_role g) \<in>
    (\<lambda>g. (normalize_email D (gm_email g), gm_role g)) ` set gs" by blast
  with assms(1) show ?thesis by (auto simp: group_is_def)
qed

lemma kept_member:
  "g \<in> set (kept (matched D C ds) C) \<longleftrightarrow> (\<exists>d\<in>set ds. \<exists>i. match_of D C d = Some i \<and> g = C ! i)"
  by (auto simp: kept_nth matched_def dest: match_of_lt)

lemma first_match_unique:
  assumes "match_of D C d = Some i" "match_of D C d' = Some j"
    and "normalize_email D (gm_email (C ! i)) = normalize_email D (gm_email (C ! j))"
  shows "i = j"
proof -
  from assms have "normalize_email D (dm_email d) = normalize_email D (dm_email d')"
    by (simp add: match_of_norm)
  then have "match_of D C d = match_of D C d'" by (simp add: match_of_def compare_email_def)
  with assms show ?thesis by simp
qed

lemma kept_distinct_norm: "distinct (map (\<lambda>g. normalize_email D (gm_email g)) (kept (matched D C ds) C))"
proof -
  let ?f = "\<lambda>x :: nat \<times> gmember. normalize_email D (gm_email (snd x))"
  let ?xs = "filter (\<lambda>(i, _). i \<in> matched D C ds) (enumerate 0 C)"
  have "inj_on ?f (set ?xs)"
    by (auto simp: inj_on_def in_set_enumerate_eq matched_def dest: first_match_unique)
  moreover have "distinct ?xs" by simp
  ultimately have "distinct (map ?f ?xs)" by (simp only: distinct_map simp_thms)
  then show ?thesis by (simp add: kept_def comp_def)
qed

lemma unmatched_disjoint:
  "d \<in> set (unmatched D C ds) \<Longrightarrow> g \<in> set C \<Longrightarrow>
   normalize_email D (dm_email d) \<noteq> normalize_email D (gm_email g)"
  by (auto simp: unmatched_def match_of_def compare_email_def)

lemma synced_group_is:
  assumes "wf_group C" and "distinct_addresses D ds"
    and "no_alias nid D ds C"
  shows "group_is D ds (synced nid D ds C)"
proof -
  let ?K = "kept (matched D C ds) C" and ?U = "unmatched D C ds"
  note eq = synced_eq [OF assms(1,3)]
  have K: "set ?K \<subseteq> set C" by (auto simp: kept_nth)
  then have KU: "normalize_email D (gm_email g) \<noteq> normalize_email D (dm_email d)"
    if "g \<in> set ?K" "d \<in> set ?U" for g d
    using that unmatched_disjoint [of d D C ds g] by auto
  have dU: "distinct (map (\<lambda>d. normalize_email D (dm_email d)) ?U)"
    using assms(2) by (auto simp: distinct_addresses_def unmatched_def distinct_map_filter)
  have dist: "distinct (map (\<lambda>g. normalize_email D (gm_email g)) (synced nid D ds C))"
    using kept_distinct_norm [of D C ds] dU KU by (auto simp: eq comp_def new_member_def)
  have "(\<lambda>g. (normalize_email D (gm_email g), gm_role g)) ` set (synced nid D ds C) =
      (\<lambda>g. (normalize_email D (gm_email g), gm_role (upd_roles D C ds g))) ` set ?K \<union>
      (\<lambda>d. (normalize_email D (dm_email d), role_of d)) ` set ?U"
    by (auto simp: eq new_member_def image_iff image_Un)
  also have "(\<lambda>g. (normalize_email D (gm_email g), gm_role (upd_roles D C ds g))) ` set ?K =
      (\<lambda>d. (normalize_email D (dm_email d), role_of d)) ` {d \<in> set ds. match_of D C d \<noteq> None}"
    (is "?L = ?R")
  proof
    show "?L \<subseteq> ?R"
    proof
      fix x assume "x \<in> ?L"
      then obtain d i where "d \<in> set ds" "match_of D C d = Some i"
        "x = (normalize_email D (gm_email (C ! i)), gm_role (upd_roles D C ds (C ! i)))"
        by (auto simp: kept_member)
      then show "x \<in> ?R"
        by (auto simp: match_of_norm upd_roles_hit [OF assms(1,2)])
    qed
    show "?R \<subseteq> ?L"
    proof
      fix x assume "x \<in> ?R"
      then obtain d i where d: "d \<in> set ds" "match_of D C d = Some i"
        and x: "x = (normalize_email D (dm_email d), role_of d)" by auto
      then have "C ! i \<in> set ?K" by (auto simp: kept_member)
      moreover have "x = (normalize_email D (gm_email (C ! i)), gm_role (upd_roles D C ds (C ! i)))"
        using d x by (simp add: match_of_norm upd_roles_hit [OF assms(1,2)])
      ultimately show "x \<in> ?L" by blast
    qed
  qed
  also have "?R \<union> (\<lambda>d. (normalize_email D (dm_email d), role_of d)) ` set ?U =
      (\<lambda>d. (normalize_email D (dm_email d), role_of d)) ` ({d \<in> set ds. match_of D C d \<noteq> None} \<union> set ?U)"
    by (simp only: image_Un)
  also have "{d \<in> set ds. match_of D C d \<noteq> None} \<union> set ?U = set ds"
    by (auto simp: unmatched_def)
  finally have "(\<lambda>g. (normalize_email D (gm_email g), gm_role g)) ` set (synced nid D ds C) =
      (\<lambda>d. (normalize_email D (dm_email d), role_of d)) ` set ds" .
  with dist show ?thesis by (simp add: group_is_def)
qed

text \<open>A group that is as wanted needs no action.\<close>

lemma group_is_no_actions:
  assumes "group_is D ds gs" and "\<forall>g\<in>set gs. upper (gm_role g) = gm_role g"
    and "distinct_addresses D ds"
  shows "compute_actions ds gs D = []"
proof -
  have dist: "distinct (map (\<lambda>g. normalize_email D (gm_email g)) gs)"
    using assms(1) by (simp add: group_is_def)
  have act: "act_of D gs d = []" if d: "d \<in> set ds" for d
  proof -
    from assms(1) d obtain g where g: "g \<in> set gs" "normalize_email D (gm_email g) = normalize_email D (dm_email d)"
      "gm_role g = role_of d"
      by (rule group_is_wanted)
    then obtain i where i: "match_of D gs d = Some i"
      unfolding match_of_def by (metis compare_email_def find_index_ex)
    from g(1) obtain j where j: "j < length gs" "gs ! j = g" by (auto simp: in_set_conv_nth)
    have "i = j"
      by (rule distinct_map_nthD [OF dist match_of_lt [OF i] j(1)]) (simp add: j g match_of_norm [OF i])
    with i j g assms(2) show ?thesis by (simp add: act_of_def needs_role_def)
  qed
  have "i \<in> matched D gs ds" if i: "i < length gs" for i
  proof -
    from i assms(1) obtain d where d: "d \<in> set ds" "normalize_email D (gm_email (gs ! i)) = normalize_email D (dm_email d)"
      by (metis group_is_present nth_mem)
    then obtain j where j: "match_of D gs d = Some j"
      unfolding match_of_def using i by (metis compare_email_def find_index_ex nth_mem)
    have "j = i"
      by (rule distinct_map_nthD [OF dist match_of_lt [OF j] i]) (simp add: d match_of_norm [OF j])
    with d j show ?thesis by (auto simp: matched_def)
  qed
  then have "surplus (matched D gs ds) gs = []"
    by (auto simp: surplus_def filter_empty_conv in_set_enumerate_eq)
  with act show ?thesis by (simp add: compute_actions_eq)
qed

section \<open>Properties\<close>

lemma member_entries_iff:
  assumes "member_entries rs lr grp m = Inr es"
  shows "(a, l, n) \<in> set es \<longleftrightarrow> n = Some (member_label m) \<and>
    member_matches_group rs m grp lr = Inr (True, l) \<and> (\<exists>as. member_email_addresses m = a # as)"
proof -
  obtain im il where mg: "member_matches_group rs m grp lr = Inr (im, il)"
    using assms by (auto simp: member_entries_def)
  have "il \<longrightarrow> im" using mg by (auto simp: member_matches_group_def Let_def split: prod.splits)
  then show ?thesis
    using assms mg by (auto simp: member_entries_def split: list.splits if_splits)
qed

lemma all_entries_iff:
  assumes "all_entries rs members grp lr = Inr es"
  shows "(\<exists>n. (a, l, n) \<in> set es) \<longleftrightarrow>
    (\<exists>k m as. (k, m) \<in> set members \<and> member_matches_group rs m grp lr = Inr (True, l) \<and>
       member_email_addresses m = a # as) \<or>
    (\<exists>sm\<in>set (static_members grp). sm_email sm = a \<and> sm_leader sm = l)"
proof -
  from assms obtain ess where ess: "map_res (member_entries rs lr grp) (map snd members) = Inr ess"
    and es: "es = concat ess @ map (\<lambda>sm. (sm_email sm, sm_leader sm, None)) (static_members grp)"
    by (auto simp: all_entries_def)
  have l2: "list_all2 (\<lambda>m e. member_entries rs lr grp m = Inr e) (map snd members) ess"
    using ess by (simp add: map_res_eq_Inr)
  have "(\<exists>n. (a, l, n) \<in> set (concat ess)) \<longleftrightarrow>
      (\<exists>m\<in>snd ` set members. member_matches_group rs m grp lr = Inr (True, l) \<and> (\<exists>as. member_email_addresses m = a # as))"
    using l2
  proof (induction "map snd members" ess arbitrary: members rule: list_all2_induct)
    case (Cons m ms e ess)
    from Cons.hyps(4) obtain k mems where mem: "members = (k, m) # mems" "ms = map snd mems"
      by (cases members) auto
    show ?case
      using Cons.hyps(3) [OF mem(2)] member_entries_iff [OF Cons.hyps(1), of a l] by (auto simp: mem(1))
  qed simp
  also have "\<dots> \<longleftrightarrow> (\<exists>k m as. (k, m) \<in> set members \<and> member_matches_group rs m grp lr = Inr (True, l) \<and>
       member_email_addresses m = a # as)" by force
  finally have "(\<exists>n. (a, l, n) \<in> set (concat ess)) \<longleftrightarrow> \<dots>" .
  moreover have "(\<exists>n. (a, l, n) \<in> set es) \<longleftrightarrow> (\<exists>n. (a, l, n) \<in> set (concat ess)) \<or>
      (\<exists>sm\<in>set (static_members grp). sm_email sm = a \<and> sm_leader sm = l)"
    unfolding es by auto
  ultimately show ?thesis by blast
qed

text \<open>
  C13: the wanted members. Each address occurs once up to Gmail-style equivalence; an address is
  wanted exactly when it is the first address of a matching member or a static member; and it is
  wanted as owner exactly when one of those sources makes it a leader.
\<close>

theorem desired_members_correct:
  assumes "desired_members rs members grp D lr = Inr ds"
  shows "distinct_addresses D ds \<and>
    (\<forall>n. (\<exists>d\<in>set ds. normalize_email D (dm_email d) = n) \<longleftrightarrow>
      (\<exists>a l. normalize_email D a = n \<and>
        ((\<exists>k m as. (k, m) \<in> set members \<and> member_matches_group rs m grp lr = Inr (True, l) \<and>
            member_email_addresses m = a # as) \<or>
         (\<exists>sm\<in>set (static_members grp). sm_email sm = a \<and> sm_leader sm = l)))) \<and>
    (\<forall>d\<in>set ds. role_of d = ''OWNER'' \<longleftrightarrow>
      (\<exists>a. normalize_email D a = normalize_email D (dm_email d) \<and>
        ((\<exists>k m as. (k, m) \<in> set members \<and> member_matches_group rs m grp lr = Inr (True, True) \<and>
            member_email_addresses m = a # as) \<or>
         (\<exists>sm\<in>set (static_members grp). sm_email sm = a \<and> sm_leader sm))))"
proof -
  from assms obtain es where es: "all_entries rs members grp lr = Inr es"
    and ds: "ds = map snd (wanted.add_all D [] es)"
    by (auto simp: desired_members_entries)
  have "(\<exists>d\<in>set ds. normalize_email D (dm_email d) = n) \<longleftrightarrow>
      (\<exists>a l. normalize_email D a = n \<and> (\<exists>nm. (a, l, nm) \<in> set es))" for n
  proof -
    have "(\<exists>d\<in>set ds. normalize_email D (dm_email d) = n) \<longleftrightarrow> n \<in> (\<lambda>d. normalize_email D (dm_email d)) ` set ds"
      by auto
    also have "\<dots> \<longleftrightarrow> n \<in> (\<lambda>e. normalize_email D (fst e)) ` set es"
      unfolding ds wanted_list(2) ..
    finally show ?thesis by force
  qed
  moreover have "role_of d = ''OWNER'' \<longleftrightarrow>
      (\<exists>a. normalize_email D a = normalize_email D (dm_email d) \<and> (\<exists>nm. (a, True, nm) \<in> set es))"
    if "d \<in> set ds" for d
  proof -
    have "role_of d = ''OWNER'' \<longleftrightarrow> dm_leader d" by (simp add: role_of_def)
    also have "\<dots> \<longleftrightarrow> (\<exists>e\<in>set es. normalize_email D (fst e) = normalize_email D (dm_email d) \<and> fst (snd e))"
      using wanted_list(3) [of d D es] that unfolding ds by blast
    finally show ?thesis by force
  qed
  ultimately show ?thesis
    using wanted_list(1) [of D es] unfolding ds all_entries_iff [OF es] by blast
qed

definition demo_static :: group_sync where
  "demo_static = \<lparr>gs_group = ''g'', gs_notify = [], gs_ministries = [], gs_workgroups = [],
     static_members = [\<lparr>sm_email = ''a.b@gmail.com'', sm_leader = False\<rparr>, \<lparr>sm_email = ''ab@gmail.com'', sm_leader = True\<rparr>],
     selectors = [], allow_empty = False, max_removals = 5, max_removal_fraction = 1\<rparr>"

theorem desired_members_correct_witness:
  "distinct_addresses {''gmail.com''} [\<lparr>dm_email = ''a.b@gmail.com'', dm_leader = True, dm_names = []\<rparr>] \<and>
   desired_members (\<lambda>_ _. False) [] demo_static {''gmail.com''} {} =
     Inr [\<lparr>dm_email = ''a.b@gmail.com'', dm_leader = True, dm_names = []\<rparr>]"
proof -
  have "desired_members (\<lambda>_ _. False) [] demo_static {''gmail.com''} {} =
     Inr [\<lparr>dm_email = ''a.b@gmail.com'', dm_leader = True, dm_names = []\<rparr>]" by code_simp
  with desired_members_correct [OF this] show ?thesis by blast
qed

text \<open>
  Address comparison is an equivalence that ignores case, and for a configured Google domain
  also a plus tag and, in a Gmail domain, dots before the at sign.
\<close>

theorem compare_email_correct:
  "equivp (compare_email D) \<and> compare_email D e (lower e) \<and>
   (d \<in> D \<longrightarrow> lower d = d \<longrightarrow> CHR ''@'' \<notin> set l \<union> set tag \<longrightarrow> CHR ''+'' \<notin> set l \<longrightarrow>
      compare_email D (l @ ''+'' @ tag @ ''@'' @ d) (l @ ''@'' @ d)) \<and>
   (''gmail.com'' \<in> D \<longrightarrow> CHR ''@'' \<notin> set l \<longrightarrow>
      compare_email D (l @ ''@gmail.com'') (filter (\<lambda>c. c \<noteq> CHR ''.'') l @ ''@gmail.com''))"
proof -
  have low: "normalize_email D (x @ ''@'' @ d) =
      (let k = (if d \<in> D then takeWhile (\<lambda>c. c \<noteq> CHR ''+'') (lower x) else lower x)
       in (if d \<in> D \<and> (d = ''gmail.com'' \<or> d = ''googlemail.com'') then filter (\<lambda>c. c \<noteq> CHR ''.'') k else k) @ ''@'' @ d)"
    if "CHR ''@'' \<notin> set x" "lower d = d" for x d
  proof -
    have "lower (x @ ''@'' @ d) = lower x @ ''@'' @ d"
      using that(2) by (simp add: lower_Cons)
    with that(1) show ?thesis
      unfolding normalize_email_def using at_split_join [of "lower x" d] by (simp add: Let_def)
  qed
  have plus: "lower_char c = CHR ''+'' \<longleftrightarrow> c = CHR ''+''" and dot: "lower_char c = CHR ''.'' \<longleftrightarrow> c = CHR ''.''" for c
  proof -
    have n: "(of_char (lower_char c) :: nat) = (if 65 \<le> (of_char c :: nat) \<and> (of_char c :: nat) \<le> 90
        then of_char c + 32 else of_char c)"
      by (simp add: lower_char_def Let_def)
    have "(of_char (lower_char c) :: nat) = 43 \<longleftrightarrow> (of_char c :: nat) = 43"
      "(of_char (lower_char c) :: nat) = 46 \<longleftrightarrow> (of_char c :: nat) = 46" unfolding n by auto
    then show "lower_char c = CHR ''+'' \<longleftrightarrow> c = CHR ''+''" "lower_char c = CHR ''.'' \<longleftrightarrow> c = CHR ''.''"
      by (simp_all flip: of_char_eq_iff [where 'a = nat])
  qed
  have nop: "CHR ''+'' \<notin> set l \<Longrightarrow> takeWhile (\<lambda>c. c \<noteq> CHR ''+'') (lower l @ CHR ''+'' # y) = lower l"
    "CHR ''+'' \<notin> set l \<Longrightarrow> takeWhile (\<lambda>c. c \<noteq> CHR ''+'') (lower l) = lower l" for y
    by (induction l) (auto simp: lower_Cons plus)
  have gd: "lower ''gmail.com'' = ''gmail.com''" by code_simp
  have dots: "filter (\<lambda>c. c \<noteq> CHR ''.'') (takeWhile (\<lambda>c. c \<noteq> CHR ''+'') (lower (filter (\<lambda>c. c \<noteq> CHR ''.'') l))) =
      filter (\<lambda>c. c \<noteq> CHR ''.'') (takeWhile (\<lambda>c. c \<noteq> CHR ''+'') (lower l))"
    by (induction l) (auto simp: lower_Cons dot plus)
  have "lower_char (CHR ''+'') = CHR ''+''" using plus by simp
  then have tag: "compare_email D (l @ ''+'' @ tag @ ''@'' @ d) (l @ ''@'' @ d)"
    if "d \<in> D" "lower d = d" "CHR ''@'' \<notin> set l \<union> set tag" "CHR ''+'' \<notin> set l"
    using that low [of "l @ ''+'' @ tag" d] low [of l d] nop
    by (simp add: compare_email_def lower_Cons)
  have gm: "compare_email D (l @ ''@gmail.com'') (filter (\<lambda>c. c \<noteq> CHR ''.'') l @ ''@gmail.com'')"
    if "''gmail.com'' \<in> D" "CHR ''@'' \<notin> set l"
    using that low [OF _ gd, of l] low [OF _ gd, of "filter (\<lambda>c. c \<noteq> CHR ''.'') l"] dots
    by (simp add: compare_email_def)
  show ?thesis
    using compare_email_equiv [of D] tag gm by (simp add: compare_email_def)
qed

theorem compare_email_correct_witness:
  "compare_email {''gmail.com''} ''Ann.Lee+parish@gmail.com'' ''annlee@gmail.com''"
proof -
  have gd: "lower ''gmail.com'' = ''gmail.com''" by code_simp
  have t: "compare_email {''gmail.com''} (''ann.lee'' @ ''+'' @ ''parish'' @ ''@'' @ ''gmail.com'') (''ann.lee'' @ ''@'' @ ''gmail.com'')"
    "compare_email {''gmail.com''} (''ann.lee'' @ ''@gmail.com'') (filter (\<lambda>c. c \<noteq> CHR ''.'') ''ann.lee'' @ ''@gmail.com'')"
    "compare_email {''gmail.com''} ''Ann.Lee+parish@gmail.com'' (lower ''Ann.Lee+parish@gmail.com'')"
    using compare_email_correct [of "{''gmail.com''}" "''Ann.Lee+parish@gmail.com''" "''gmail.com''" "''ann.lee''" "''parish''"]
    by (simp_all add: gd)
  have l: "lower ''Ann.Lee+parish@gmail.com'' = ''ann.lee+parish@gmail.com''" by code_simp
  show ?thesis using t unfolding l by (simp add: compare_email_def)
qed

end
