(* ===== verification/Email.thy ===== *)
theory Email
  imports Prelude
begin

text \<open>
  The outgoing message of \<open>email/base.py\<close> as the reports use it, \<open>html.escape\<close> of the standard
  library, and the markup of a text: what decides whether text can break out of an HTML report.
\<close>

record email =
  em_subject :: string
  em_sender :: string
  em_to :: "string list"
  em_text :: "string option"
  em_html :: "string option"

section \<open>Escaping\<close>

definition escape_char :: "char \<Rightarrow> string" where
  "escape_char c =
     (if c = CHR ''&'' then ''&amp;''
      else if c = CHR ''<'' then ''&lt;''
      else if c = CHR ''>'' then ''&gt;''
      else if c = CHR 0x22 then ''&quot;''
      else if c = CHR 0x27 then ''&#x27;''
      else [c])"

definition html_escape :: "string \<Rightarrow> string" where
  "html_escape s = concat (map escape_char s)"

section \<open>Lemmas\<close>

lemma escape_char_safe:
  "d \<in> set (escape_char c) \<Longrightarrow> d \<noteq> CHR ''<'' \<and> d \<noteq> CHR ''>'' \<and> d \<noteq> CHR 0x22 \<and> d \<noteq> CHR 0x27"
  by (auto simp: escape_char_def split: if_splits)

lemma html_escape_safe:
  "d \<in> set (html_escape s) \<Longrightarrow> d \<noteq> CHR ''<'' \<and> d \<noteq> CHR ''>'' \<and> d \<noteq> CHR 0x22 \<and> d \<noteq> CHR 0x27"
  by (auto simp: html_escape_def dest: escape_char_safe)

lemma escape_char_prefix: "escape_char c @ x = escape_char d @ y \<Longrightarrow> c = d \<and> x = y"
  by (auto simp: escape_char_def split: if_splits)

lemma html_escape_inj: "html_escape s = html_escape t \<Longrightarrow> s = t"
proof (induction s arbitrary: t)
  case Nil
  then show ?case by (cases t) (auto simp: html_escape_def escape_char_def split: if_splits)
next
  case (Cons c s)
  then obtain d t' where t: "t = d # t'"
    by (cases t) (auto simp: html_escape_def escape_char_def split: if_splits)
  with Cons.prems have "escape_char c @ html_escape s = escape_char d @ html_escape t'"
    by (simp add: html_escape_def)
  with escape_char_prefix Cons.IH t show ?case by blast
qed

text \<open>The markup of a text: its angle brackets, in order.\<close>

definition markup :: "string \<Rightarrow> string" where
  "markup s = filter (\<lambda>c. c = CHR ''<'' \<or> c = CHR ''>'') s"

lemma markup_append [simp]: "markup (s @ t) = markup s @ markup t"
  by (simp add: markup_def)

lemma markup_Nil [simp]: "markup [] = []"
  by (simp add: markup_def)

lemma markup_Cons: "markup (c # s) = (if c = CHR ''<'' \<or> c = CHR ''>'' then [c] else []) @ markup s"
  by (simp add: markup_def)

lemma markup_escape [simp]: "markup (html_escape s) = []"
  by (auto simp: markup_def filter_empty_conv dest: html_escape_safe)

lemma markup_concat: "markup (concat xs) = concat (map markup xs)"
  by (induction xs) auto

lemma markup_join: "markup sep = [] \<Longrightarrow> markup (join sep xs) = concat (map markup xs)"
  by (induction sep xs rule: join.induct) auto

end
