(* ===== verification/GGroup_Email.thy ===== *)
theory GGroup_Email
  imports GGroup_Sync Email
begin

text \<open>
  The notification e-mail of \<open>pk-sync-ps-to-ggroup\<close>: subject, plain-text body and HTML body of
  \<open>build_notification_email\<close>, with the helpers that describe sources and actions.
\<close>

section \<open>Wording\<close>

definition text_list :: "string list \<Rightarrow> string" where
  "text_list values = (if values \<noteq> [] then join '', '' values else ''none'')"

definition group_type_label :: "string option \<Rightarrow> string" where
  "group_type_label posting_permission =
     (case posting_permission of
        None \<Rightarrow> ''Broadcast''
      | Some p \<Rightarrow>
          if p = ''ANYONE_CAN_POST'' \<or> p = ''ALL_IN_DOMAIN_CAN_POST'' \<or> p = ''ALL_MEMBERS_CAN_POST''
          then ''Discussion'' else ''Broadcast'')"

definition action_display_names :: "sync_action \<Rightarrow> string" where
  "action_display_names a =
     (case sa_desired a of
        Some d \<Rightarrow> if dm_names d \<noteq> [] then join '', '' (dm_names d) else ''[Static member]''
      | None \<Rightarrow> ''[No ParishSoft member]'')"

definition group_action_message :: "sync_action \<Rightarrow> string option \<Rightarrow> bool \<Rightarrow> string" where
  "group_action_message a posting_permission html_output =
     (let broadcast = (group_type_label posting_permission = ''Broadcast'');
          cannot = (if html_output then ''can <strong><em>not</em></strong> post to this group''
                    else ''cannot post to this group'');
          role = (case sa_role a of None \<Rightarrow> ''MEMBER'' | Some r \<Rightarrow> if r = [] then ''MEMBER'' else r)
      in if sa_action a = ''add'' then
           (if \<not> broadcast then ''Added to group''
            else if role = ''OWNER'' then ''Added to group (can post to this group)''
            else ''Added to group ('' @ cannot @ '')'')
         else if sa_action a = ''change_role'' then
           (if role = ''OWNER''
            then ''Change to: owner'' @ (if broadcast then '' (can post to this group)'' else [])
            else ''Change to: member'' @ (if broadcast then '' ('' @ cannot @ '')'' else []))
         else if sa_action a = ''delete'' then ''Removed from the group''
         else sa_action a)"

definition purpose_or_type :: "selector \<Rightarrow> string" where
  "purpose_or_type s = (case purpose s of None \<Rightarrow> sel_type s | Some p \<Rightarrow> if p = [] then sel_type s else p)"

definition group_subject_sources :: "group_sync \<Rightarrow> string" where
  "group_subject_sources grp =
     (let sources = gs_ministries grp @ gs_workgroups grp @ map purpose_or_type (selectors grp)
      in text_list (if sources \<noteq> [] then sources else [gs_group grp]))"

definition source_rationale_text :: "group_sync \<Rightarrow> string list" where
  "source_rationale_text grp =
     map (\<lambda>name. ''Members in the '' @ [CHR 0x22] @ name @ [CHR 0x22] @ '' ministry'') (gs_ministries grp) @
     map (\<lambda>name. ''Members in the '' @ [CHR 0x22] @ name @ [CHR 0x22] @ '' Member WorkGroup'') (gs_workgroups grp) @
     map (\<lambda>s. ''Members that satisfied the '' @ [CHR 0x22] @ purpose_or_type s @ [CHR 0x22] @ '' function'')
       (selectors grp) @
     (if static_members grp \<noteq> [] then [''Hard-coded members''] else [])"

definition EMAIL_TABLE_STYLE :: string where
  "EMAIL_TABLE_STYLE = ''border-collapse: collapse; margin-bottom: 20px; width: auto;''"

definition EMAIL_HEADER_STYLE :: string where
  "EMAIL_HEADER_STYLE = ''border: 1px solid #dddddd; padding: 8px; text-align: left; '' @
     ''background-color: #4472C4; color: white; white-space: nowrap;''"

definition email_cell_style :: "nat \<Rightarrow> string" where
  "email_cell_style row =
     ''border: 1px solid #dddddd; padding: 8px; text-align: left; '' @
     ''background-color: '' @ (if row mod 2 = 0 then ''#f2f2f2'' else ''#ffffff'') @ '';''"

section \<open>The message\<close>

definition td :: "nat \<Rightarrow> string \<Rightarrow> string" where
  "td row content = ''<td style='' @ [CHR 0x22] @ email_cell_style row @ [CHR 0x22] @ ''>'' @ content @ ''</td>''"

definition th :: "string \<Rightarrow> string" where
  "th content = ''<th style='' @ [CHR 0x22] @ EMAIL_HEADER_STYLE @ [CHR 0x22] @ ''>'' @ content @ ''</th>''"

definition email_row :: "string option \<Rightarrow> nat \<times> sync_action \<Rightarrow> string" where
  "email_row posting_permission ia =
     (let row = fst ia - 1; a = snd ia
      in ''<tr>'' @ td row (show_nat (fst ia) @ ''.'') @
         td row (html_escape (action_display_names a)) @
         td row (html_escape (sa_email a)) @
         td row (group_action_message a posting_permission True) @ ''</tr>'')"

definition text_line :: "string option \<Rightarrow> nat \<times> sync_action \<Rightarrow> string" where
  "text_line posting_permission ia =
     show_nat (fst ia) @ ''. '' @ action_display_names (snd ia) @ '' | '' @ sa_email (snd ia) @ '' | '' @
     group_action_message (snd ia) posting_permission False"

definition text_lines :: "group_sync \<Rightarrow> string option \<Rightarrow> sync_action list \<Rightarrow> string list" where
  "text_lines grp posting_permission actions =
     [''The following changes were made to the '' @ group_type_label posting_permission @
        '' Google Group '' @ gs_group grp @ '':'', []] @
     map (text_line posting_permission) (enumerate 1 actions) @
     [[], ''These email addresses were obtained from PS:''] @
     map (\<lambda>item. ''- '' @ item) (source_rationale_text grp)"

definition report_html :: "group_sync \<Rightarrow> string option \<Rightarrow> sync_action list \<Rightarrow> string" where
  "report_html grp posting_permission actions =
     (let q = [CHR 0x22];
          rows = map (email_row posting_permission) (enumerate 1 actions);
          rationale = join [CHR 0x0A]
            (map (\<lambda>item. ''<li>'' @ html_escape item @ ''</li>'') (source_rationale_text grp))
      in ''<html><body style='' @ q @ ''font-family: Arial, sans-serif; font-size: 14px;'' @ q @ ''>'' @
         ''<p>The following changes were made to the '' @
         html_escape (group_type_label posting_permission) @
         '' Google Group '' @ html_escape (gs_group grp) @ '':</p>'' @
         ''<p><table style='' @ q @ EMAIL_TABLE_STYLE @ q @ ''>'' @
         ''<tr>'' @ th ''&nbsp;'' @ th ''Name'' @ th ''Email address'' @ th ''Action'' @ ''</tr>'' @
         concat rows @ ''</table></p>'' @
         ''<p>These email addresses were obtained from PS:</p>'' @
         ''<p><ol>'' @ rationale @ ''</ol></p>'' @ ''</body></html>'')"

definition build_notification_email ::
  "sync_config \<Rightarrow> group_sync \<Rightarrow> string option \<Rightarrow> sync_action list \<Rightarrow> email res" where
  "build_notification_email config grp posting_permission actions =
     (case sc_sender config of
        None \<Rightarrow> Inl (ConfigError ''sync.notifications.sender is required'' [] [])
      | Some sender \<Rightarrow>
          if sender = [] then Inl (ConfigError ''sync.notifications.sender is required'' [] [])
          else Inr \<lparr>em_subject = ''Update to Google Group '' @ gs_group grp @ '' for '' @
                      group_subject_sources grp,
                    em_sender = sender, em_to = gs_notify grp,
                    em_text = Some (join [CHR 0x0A] (text_lines grp posting_permission actions)),
                    em_html = Some (report_html grp posting_permission actions)\<rparr>)"

section \<open>Lemmas\<close>

lemma markup_items:
  "markup (join [CHR 0x0A] (map (\<lambda>item. ''<li>'' @ html_escape item @ ''</li>'') xs)) =
   concat (replicate (length xs) ''<><>'')"
proof -
  have "concat (map (\<lambda>item. markup (''<li>'' @ html_escape item @ ''</li>'')) xs) =
      concat (replicate (length xs) ''<><>'')"
    by (induction xs) (simp_all add: markup_Cons)
  then show ?thesis by (simp add: markup_join markup_Cons comp_def)
qed

lemma group_action_message_cong:
  "sa_action a = sa_action b \<Longrightarrow> sa_role a = sa_role b \<Longrightarrow>
   group_action_message a pp h = group_action_message b pp h"
  unfolding group_action_message_def by (simp only:)

lemma markup_row_cong:
  assumes "sa_action a = sa_action b" "sa_role a = sa_role b"
  shows "markup (email_row pp (i, a)) = markup (email_row pp (i, b))"
  using group_action_message_cong [OF assms] by (simp add: email_row_def Let_def td_def markup_Cons)

lemma markup_rows_cong:
  assumes "map (\<lambda>a. (sa_action a, sa_role a)) as = map (\<lambda>a. (sa_action a, sa_role a)) bs"
  shows "map (\<lambda>x. markup (email_row pp x)) (enumerate n as) = map (\<lambda>x. markup (email_row pp x)) (enumerate n bs)"
  using assms
proof (induction as arbitrary: bs n)
  case (Cons a as)
  then obtain b bs' where "bs = b # bs'" "sa_action a = sa_action b" "sa_role a = sa_role b"
    "map (\<lambda>a. (sa_action a, sa_role a)) as = map (\<lambda>a. (sa_action a, sa_role a)) bs'"
    by (cases bs) auto
  with Cons.IH [of bs' "Suc n"] markup_row_cong [of a b] show ?case by simp
qed simp

section \<open>Properties\<close>

text \<open>
  No markup injection. The angle brackets of the HTML report depend only on the kinds and
  roles of the actions and on the number of sources: names, addresses, source names and the group's
  address, whatever characters they contain, add none.
\<close>

theorem report_no_injection:
  assumes "map (\<lambda>a. (sa_action a, sa_role a)) actions = map (\<lambda>a. (sa_action a, sa_role a)) actions'"
    and "length (source_rationale_text grp) = length (source_rationale_text grp')"
  shows "markup (report_html grp posting actions) = markup (report_html grp' posting actions')"
  using markup_rows_cong [OF assms(1), of posting 1] assms(2)
  by (simp add: report_html_def Let_def markup_concat markup_items [simplified] markup_Cons comp_def)

theorem report_no_injection_witness:
  "markup (report_html
     \<lparr>gs_group = ''<b>'', gs_notify = [], gs_ministries = [''<script>''], gs_workgroups = [], static_members = [],
      selectors = [], allow_empty = False, max_removals = 5, max_removal_fraction = 1\<rparr> None
     [\<lparr>sa_action = ''delete'', sa_email = ''<i>@x'', sa_role = None, sa_member_id = None, sa_desired = None\<rparr>]) =
   markup (report_html
     \<lparr>gs_group = ''g'', gs_notify = [], gs_ministries = [''m''], gs_workgroups = [], static_members = [],
      selectors = [], allow_empty = False, max_removals = 5, max_removal_fraction = 1\<rparr> None
     [\<lparr>sa_action = ''delete'', sa_email = ''a@x'', sa_role = None, sa_member_id = None, sa_desired = None\<rparr>])"
  by (rule report_no_injection) (simp_all add: source_rationale_text_def)

text \<open>
  The notification. It is built exactly when a sender is configured, goes to the group's
  notify list from that sender, and its text has one numbered line per action, in order, between
  the heading and the list of sources.
\<close>

theorem build_notification_email_correct:
  "(case build_notification_email config grp posting actions of
      Inl e \<Rightarrow> (sc_sender config = None \<or> sc_sender config = Some []) \<and>
               e = ConfigError ''sync.notifications.sender is required'' [] []
    | Inr m \<Rightarrow> sc_sender config = Some (em_sender m) \<and> em_sender m \<noteq> [] \<and> em_to m = gs_notify grp \<and>
        (\<exists>lines. em_text m = Some (join [CHR 0x0A] lines) \<and>
           length lines = 4 + length actions + length (source_rationale_text grp) \<and>
           (\<forall>i < length actions. lines ! (2 + i) =
              show_nat (Suc i) @ ''. '' @ action_display_names (actions ! i) @ '' | '' @
              sa_email (actions ! i) @ '' | '' @ group_action_message (actions ! i) posting False)))"
proof (cases "sc_sender config = None \<or> sc_sender config = Some []")
  case True
  then show ?thesis by (auto simp: build_notification_email_def split: option.splits)
next
  case False
  have "length (text_lines grp posting actions) = 4 + length actions + length (source_rationale_text grp)"
    by (simp add: text_lines_def)
  moreover have "text_lines grp posting actions ! (2 + i) = text_line posting (Suc i, actions ! i)"
    if "i < length actions" for i
    using that by (simp add: text_lines_def nth_append nth_enumerate_eq)
  ultimately show ?thesis
    using False by (auto simp: build_notification_email_def text_line_def split: option.splits)
qed

theorem build_notification_email_correct_witness:
  "build_notification_email \<lparr>sc_groups = [], sc_sender = None, google_mail_domains = {}, sc_leader_roles = {}\<rparr>
     \<lparr>gs_group = ''g'', gs_notify = [], gs_ministries = [], gs_workgroups = [], static_members = [],
      selectors = [], allow_empty = False, max_removals = 5, max_removal_fraction = 1\<rparr> None [] =
   Inl (ConfigError ''sync.notifications.sender is required'' [] [])"
  using build_notification_email_correct
    [where config = "\<lparr>sc_groups = [], sc_sender = None, google_mail_domains = {}, sc_leader_roles = {}\<rparr>"
      and grp = "\<lparr>gs_group = ''g'', gs_notify = [], gs_ministries = [], gs_workgroups = [], static_members = [],
      selectors = [], allow_empty = False, max_removals = 5, max_removal_fraction = 1\<rparr>"
      and posting = None and actions = "[]"]
  by (auto split: sum.splits)

end
