(* ===== verification/Retry.thy ===== *)
theory Retry
  imports Prelude
begin

text \<open>
  \<open>retry.py\<close>: the retry policy with its validation, the backoff schedule, and
  \<open>retry_call\<close>. The retried callable is a state transformer over an arbitrary world \<open>'w\<close> that
  may raise; the delays passed to \<open>sleep\<close> are returned as a list, in order. The random draw of
  the jitter is a parameter \<open>rnd\<close>: \<open>rnd i\<close> is the value of \<open>random.random()\<close> in \<open>[0, 1)\<close> at
  retry \<open>i\<close>, so that \<open>random.uniform(0, jitter)\<close> is \<open>jitter * rnd i\<close>.
\<close>

section \<open>The policy\<close>

record retry_policy =
  attempts :: int
  initial_delay :: rat
  backoff :: rat
  max_delay :: rat
  jitter :: rat

definition default_policy :: retry_policy where
  "default_policy =
     \<lparr>attempts = 3, initial_delay = 1, backoff = 2, max_delay = 30, jitter = 0\<rparr>"

definition policy_post_init :: "retry_policy \<Rightarrow> retry_policy res" where
  "policy_post_init p =
     (if attempts p < 1 then Inl (ValueError ''attempts must be at least 1'')
      else if initial_delay p < 0 then Inl (ValueError ''initial_delay must be non-negative'')
      else if backoff p < 1 then Inl (ValueError ''backoff must be at least 1'')
      else if max_delay p < 0 then Inl (ValueError ''max_delay must be non-negative'')
      else if jitter p < 0 then Inl (ValueError ''jitter must be non-negative'')
      else Inr p)"

definition policy_ok :: "retry_policy \<Rightarrow> bool" where
  "policy_ok p \<longleftrightarrow> 1 \<le> attempts p \<and> 0 \<le> initial_delay p \<and> 1 \<le> backoff p \<and>
     0 \<le> max_delay p \<and> 0 \<le> jitter p"

definition delay_for_attempt :: "retry_policy \<Rightarrow> (nat \<Rightarrow> rat) \<Rightarrow> nat \<Rightarrow> rat" where
  "delay_for_attempt p rnd i =
     (let base_delay = min (initial_delay p * backoff p ^ i) (max_delay p)
      in if jitter p = 0 then base_delay else base_delay + jitter p * rnd i)"

section \<open>The retry loop\<close>

definition default_retry_exceptions :: "exn \<Rightarrow> bool" where
  "default_retry_exceptions e =
     (case e of TransientRetryError \<Rightarrow> True
      | TransientGoogleAPIError _ _ \<Rightarrow> True
      | TransientParishSoftAPIError _ _ _ \<Rightarrow> True
      | TransientCCAPIError _ _ _ \<Rightarrow> True
      | TimeoutError \<Rightarrow> True
      | ConnectionError \<Rightarrow> True
      | _ \<Rightarrow> False)"

fun retry_loop ::
  "retry_policy \<Rightarrow> (exn \<Rightarrow> bool) \<Rightarrow> (nat \<Rightarrow> rat) \<Rightarrow> ('w, 'a) action \<Rightarrow>
   nat list \<Rightarrow> exn option \<Rightarrow> 'w \<Rightarrow> 'w \<times> rat list \<times> 'a res" where
  "retry_loop p retry_on rnd func [] last_exception w =
     (w, [], (case last_exception of None \<Rightarrow> Inl AssertionError | Some e \<Rightarrow> Inl (RetryError e)))"
| "retry_loop p retry_on rnd func (attempt_index # rest) last_exception w =
     (case func w of
        (w', Inr x) \<Rightarrow> (w', [], Inr x)
      | (w', Inl exc) \<Rightarrow>
          if \<not> retry_on exc then (w', [], Inl exc)
          else if int attempt_index = attempts p - 1 then (w', [], Inl (RetryError exc))
          else (case retry_loop p retry_on rnd func rest (Some exc) w' of
                  (w'', ds, r) \<Rightarrow> (w'', delay_for_attempt p rnd attempt_index # ds, r)))"

definition retry_call ::
  "retry_policy option \<Rightarrow> (exn \<Rightarrow> bool) \<Rightarrow> (nat \<Rightarrow> rat) \<Rightarrow> ('w, 'a) action \<Rightarrow>
   'w \<Rightarrow> 'w \<times> rat list \<times> 'a res" where
  "retry_call policy retry_on rnd func w =
     (let p = (case policy of None \<Rightarrow> default_policy | Some p \<Rightarrow> p)
      in retry_loop p retry_on rnd func [0..<nat (attempts p)] None w)"

section \<open>Lemmas\<close>

lemma policy_post_init_ok: "policy_post_init p = Inr q \<longleftrightarrow> q = p \<and> policy_ok p"
  by (auto simp: policy_post_init_def policy_ok_def)

lemma default_policy_ok [simp]: "policy_ok default_policy"
  by (simp add: policy_ok_def default_policy_def)

lemma delay_nonneg: "policy_ok p \<Longrightarrow> 0 \<le> rnd i \<Longrightarrow> 0 \<le> delay_for_attempt p rnd i"
  by (auto simp: policy_ok_def delay_for_attempt_def Let_def)

lemma delay_bound:
  assumes "policy_ok p" and "rnd i < 1"
  shows "delay_for_attempt p rnd i \<le> max_delay p + jitter p"
proof -
  have "jitter p * rnd i \<le> jitter p * 1"
    using assms by (intro mult_left_mono) (auto simp: policy_ok_def)
  then have "min b (max_delay p) + jitter p * rnd i \<le> max_delay p + jitter p" for b
    by (intro add_mono) auto
  then show ?thesis using assms by (auto simp: delay_for_attempt_def Let_def policy_ok_def)
qed

lemma delay_mono:
  assumes "policy_ok p" and "jitter p = 0" and "i \<le> j"
  shows "delay_for_attempt p rnd i \<le> delay_for_attempt p rnd j"
proof -
  have "backoff p ^ i \<le> backoff p ^ j"
    using assms by (intro power_increasing) (auto simp: policy_ok_def)
  then have "initial_delay p * backoff p ^ i \<le> initial_delay p * backoff p ^ j"
    using assms by (intro mult_left_mono) (auto simp: policy_ok_def)
  then show ?thesis using assms by (simp add: delay_for_attempt_def Let_def min.mono)
qed

text \<open>
  The specification of a retried call: \<open>state_after func k w\<close> is the world after \<open>k\<close> calls and
  \<open>outcome func k w\<close> the result of call \<open>k\<close> (from 0).
\<close>

fun state_after :: "('w, 'a) action \<Rightarrow> nat \<Rightarrow> 'w \<Rightarrow> 'w" where
  "state_after func 0 w = w"
| "state_after func (Suc k) w = state_after func k (fst (func w))"

definition outcome :: "('w, 'a) action \<Rightarrow> nat \<Rightarrow> 'w \<Rightarrow> 'a res" where
  "outcome func k w = snd (func (state_after func k w))"

lemma outcome_0: "outcome func 0 w = snd (func w)"
  by (simp add: outcome_def)

lemma outcome_Suc: "outcome func (Suc k) w = outcome func k (fst (func w))"
  by (simp add: outcome_def)

definition retryable :: "(exn \<Rightarrow> bool) \<Rightarrow> 'a res \<Rightarrow> bool" where
  "retryable retry_on r = (case r of Inl e \<Rightarrow> retry_on e | Inr _ \<Rightarrow> False)"

lemma retry_loop_spec:
  assumes "i + Suc n = nat (attempts p)"
    and "retry_loop p retry_on rnd func [i..<i + Suc n] le w = (w', ds, r)"
  shows "\<exists>k\<le>n. w' = state_after func (Suc k) w \<and>
    (\<forall>j<k. retryable retry_on (outcome func j w)) \<and>
    ds = map (delay_for_attempt p rnd) [i..<i + k] \<and>
    (if retryable retry_on (outcome func k w)
     then k = n \<and> (\<exists>e. outcome func k w = Inl e \<and> r = Inl (RetryError e))
     else r = outcome func k w)"
  using assms
proof (induction n arbitrary: i le w w' ds r)
  case 0
  from 0(1) have i: "int i = attempts p - 1" by auto
  have "retry_loop p retry_on rnd func [i] le w = (w', ds, r)" using 0(2) by simp
  then show ?case using i
    by (auto simp: outcome_def retryable_def split: prod.splits sum.splits if_splits)
next
  case (Suc n)
  obtain w1 r1 where f: "func w = (w1, r1)" by (cases "func w")
  have upt: "[i..<i + Suc (Suc n)] = i # [Suc i..<Suc i + Suc n]"
    by (simp add: upt_conv_Cons)
  note prem = Suc.prems(2) [unfolded upt]
  show ?case
  proof (cases "retryable retry_on r1")
    case False
    with prem f have "w' = w1 \<and> ds = [] \<and> r = r1"
      by (auto simp: retryable_def simp del: upt_Suc split: sum.splits)
    with f False show ?thesis
      by (intro exI [of _ 0]) (auto simp: outcome_0)
  next
    case True
    then obtain e where e: "r1 = Inl e" "retry_on e" by (auto simp: retryable_def split: sum.splits)
    obtain ds' where rec: "retry_loop p retry_on rnd func [Suc i..<Suc i + Suc n] (Some e) w1 = (w', ds', r)"
      and ds: "ds = delay_for_attempt p rnd i # ds'"
      using prem Suc.prems(1) f e by (auto simp del: upt_Suc split: prod.splits if_splits)
    from Suc.prems(1) have "Suc i + Suc n = nat (attempts p)" by simp
    from Suc.IH [OF this rec] obtain k where k: "k \<le> n" "w' = state_after func (Suc k) w1"
      "\<forall>j<k. retryable retry_on (outcome func j w1)"
      "ds' = map (delay_for_attempt p rnd) [Suc i..<Suc i + k]"
      "if retryable retry_on (outcome func k w1)
       then k = n \<and> (\<exists>e. outcome func k w1 = Inl e \<and> r = Inl (RetryError e))
       else r = outcome func k w1" by blast
    show ?thesis
    proof (intro exI [of _ "Suc k"] conjI)
      show "\<forall>j<Suc k. retryable retry_on (outcome func j w)"
        using k(3) True f by (auto simp: less_Suc_eq_0_disj outcome_0 outcome_Suc)
      show "ds = map (delay_for_attempt p rnd) [i..<i + Suc k]"
        using ds k(4) by (simp add: upt_conv_Cons del: upt_Suc)
    qed (use k f in \<open>auto simp: outcome_Suc\<close>)
  qed
qed

lemma retry_call_one_shot:
  assumes "attempts p = 1"
  shows "retry_call (Some p) retry_on rnd func w =
    (fst (func w), [], (case snd (func w) of Inr x \<Rightarrow> Inr x
       | Inl e \<Rightarrow> if retry_on e then Inl (RetryError e) else Inl e))"
  using assms by (auto simp: retry_call_def split: prod.splits sum.splits)

text \<open>A request that succeeds at once is made once, whatever the policy.\<close>

lemma retry_call_success:
  assumes "func w = (w', Inr x)"
    and "policy = None \<or> (\<exists>p. policy = Some p \<and> policy_ok p)"
  shows "retry_call policy on rnd func w = (w', [], Inr x)"
proof -
  obtain p where p: "policy_ok p" "p = (case policy of None \<Rightarrow> default_policy | Some p \<Rightarrow> p)"
    using assms(2) by auto
  then obtain n where "nat (attempts p) = Suc n"
    by (cases "nat (attempts p)") (auto simp: policy_ok_def)
  then have "[0..<nat (attempts p)] = 0 # [1..<Suc n]" by (simp add: upt_conv_Cons)
  with assms(1) p(2) show ?thesis by (simp add: retry_call_def Let_def)
qed

lemma retry_loop_preserves:
  assumes "\<forall>w. obs (fst (func w)) = obs w"
  shows "obs (fst (retry_loop p on rnd func is le w)) = obs w"
proof (induction "is" arbitrary: le w)
  case (Cons i rest)
  obtain w1 r1 where f: "func w = (w1, r1)" by (cases "func w")
  with assms have w1: "obs w1 = obs w" by (metis fst_conv)
  have "obs (fst (retry_loop p on rnd func rest (Some e) w1)) = obs w1" for e
    by (rule Cons.IH)
  then have "retry_loop p on rnd func rest (Some e) w1 = (w2, ds, r) \<Longrightarrow> obs w2 = obs w" for e w2 ds r
    using w1 by (metis fst_conv)
  with f w1 show ?case by (cases r1) (auto split: prod.splits)
qed simp

text \<open>
  A retried call from a world with \<open>P\<close>, where a failing call keeps \<open>P\<close> and a successful one
  establishes \<open>Q\<close>.
\<close>

lemma retry_loop_success_rule:
  assumes "retry_loop p retry_on rnd func is le w = (w', ds, Inr x)" and "P w"
    and "\<And>w w' e. P w \<Longrightarrow> func w = (w', Inl e) \<Longrightarrow> P w'"
    and "\<And>w w' x. P w \<Longrightarrow> func w = (w', Inr x) \<Longrightarrow> Q x w'"
  shows "Q x w'"
  using assms(1,2)
proof (induction "is" arbitrary: le w ds)
  case Nil
  then show ?case by (auto split: option.splits)
next
  case (Cons i rest)
  obtain w1 r1 where f: "func w = (w1, r1)" by (cases "func w")
  show ?case
  proof (cases r1)
    case (Inr y)
    with Cons.prems f assms(4) show ?thesis by auto
  next
    case (Inl e)
    with Cons.prems(1) f obtain ds' where "retry_loop p retry_on rnd func rest (Some e) w1 = (w', ds', Inr x)"
      by (auto split: if_splits prod.splits)
    then show ?thesis using Cons.IH assms(3) Cons.prems(2) f Inl by blast
  qed
qed

lemma retry_call_success_rule:
  assumes "retry_call policy retry_on rnd func w = (w', ds, Inr x)" and "P w"
    and "\<And>w w' e. P w \<Longrightarrow> func w = (w', Inl e) \<Longrightarrow> P w'"
    and "\<And>w w' x. P w \<Longrightarrow> func w = (w', Inr x) \<Longrightarrow> Q x w'"
  shows "Q x w'"
  using assms(1) unfolding retry_call_def Let_def
  by (rule retry_loop_success_rule [where P = P]) (fact assms(2), erule (1) assms(3), erule (1) assms(4))

lemma retry_call_spec:
  assumes "policy_ok p"
    and "retry_call (Some p) retry_on rnd func w = (w', ds, r)"
  shows "\<exists>k < nat (attempts p). w' = state_after func (Suc k) w \<and>
    (\<forall>j<k. retryable retry_on (outcome func j w)) \<and>
    ds = map (delay_for_attempt p rnd) [0..<k] \<and>
    (if retryable retry_on (outcome func k w)
     then Suc k = nat (attempts p) \<and> (\<exists>e. outcome func k w = Inl e \<and> r = Inl (RetryError e))
     else r = outcome func k w)"
proof -
  from assms(1) obtain n where n: "nat (attempts p) = Suc n"
    by (cases "nat (attempts p)") (auto simp: policy_ok_def)
  from assms(2) n have "retry_loop p retry_on rnd func [0..<0 + Suc n] None w = (w', ds, r)"
    by (simp add: retry_call_def)
  from retry_loop_spec [OF _ this] n show ?thesis
    by (auto simp: less_Suc_eq_le)
qed

section \<open>Properties\<close>

text \<open>
  A retried call under a valid policy. It is made at most \<open>attempts\<close> times; every call but
  the last ended in a retryable exception; between two calls the delay of the schedule is slept;
  and the result is that of the last call, wrapped in \<open>RetryError\<close> exactly when that one was
  retryable too, which happens only when the attempts are used up.
\<close>

theorem retry_call_correct:
  assumes "policy_ok p"
    and "retry_call (Some p) retry_on rnd func w = (w', ds, r)"
  shows "\<exists>k < nat (attempts p). w' = state_after func (Suc k) w \<and>
    (\<forall>j<k. retryable retry_on (outcome func j w)) \<and>
    ds = map (delay_for_attempt p rnd) [0..<k] \<and>
    (if retryable retry_on (outcome func k w)
     then Suc k = nat (attempts p) \<and> (\<exists>e. outcome func k w = Inl e \<and> r = Inl (RetryError e))
     else r = outcome func k w)"
  by (rule retry_call_spec [OF assms])

definition flaky :: "(nat, string) action" where
  "flaky n = (Suc n, if n < 2 then Inl ConnectionError else Inr ''ok'')"

theorem retry_call_correct_witness:
  "retry_call (Some default_policy) default_retry_exceptions (\<lambda>_. 0) flaky 0 = (3, [1, 2], Inr ''ok'') \<and>
   (\<exists>k < nat (attempts default_policy). 3 = state_after flaky (Suc k) 0)"
proof -
  have "[0..<nat (attempts default_policy)] = [0, 1, 2]" by (simp add: default_policy_def upt_rec)
  then have r: "retry_call (Some default_policy) default_retry_exceptions (\<lambda>_. 0) flaky 0 = (3, [1, 2], Inr ''ok'')"
    by (simp add: retry_call_def flaky_def default_retry_exceptions_def delay_for_attempt_def default_policy_def)
  with retry_call_correct [OF default_policy_ok r] show ?thesis by blast
qed

text \<open>
  The delays of a retried call. There are fewer of them than attempts, each lies between zero
  and the configured maximum plus the jitter, and without jitter they never decrease.
\<close>

theorem retry_delays_bounded:
  assumes "policy_ok p" and "\<forall>i. 0 \<le> rnd i \<and> rnd i < 1"
    and "retry_call (Some p) retry_on rnd func w = (w', ds, r)"
  shows "int (length ds) < attempts p \<and> (\<forall>d\<in>set ds. 0 \<le> d \<and> d \<le> max_delay p + jitter p) \<and>
    (jitter p = 0 \<longrightarrow> sorted ds)"
proof -
  from retry_call_spec [OF assms(1,3)] obtain k where k: "k < nat (attempts p)"
      "ds = map (delay_for_attempt p rnd) [0..<k]" by blast
  have "sorted ds" if "jitter p = 0"
    unfolding k(2) sorted_map
    by (rule sorted_wrt_mono_rel [OF _ strict_sorted_imp_sorted [OF sorted_wrt_upt]])
      (auto intro: delay_mono [OF assms(1) that])
  with k assms(1,2) show ?thesis by (auto intro: delay_nonneg delay_bound)
qed

theorem retry_delays_bounded_witness:
  "int (length ([1, 2] :: rat list)) < attempts default_policy"
proof -
  have "[0..<nat (attempts default_policy)] = [0, 1, 2]" by (simp add: default_policy_def upt_rec)
  then have r: "retry_call (Some default_policy) default_retry_exceptions (\<lambda>_. 0) flaky 0 = (3, [1, 2], Inr ''ok'')"
    by (simp add: retry_call_def flaky_def default_retry_exceptions_def delay_for_attempt_def default_policy_def)
  show ?thesis using retry_delays_bounded [OF default_policy_ok _ r] by simp
qed

end
