(* ===== verification/Paging.thy ===== *)
theory Paging
  imports Retry Config
begin

text \<open>
  The page loop the API clients share: fetch a page, append its items, go on with the next
  token until there is none. A server that keeps returning tokens makes the loop run forever;
  the loop is therefore a \<open>partial_function\<close>, and \<open>fetch_all\<close> maps divergence to the value
  \<open>Nontermination\<close>.
\<close>

text \<open>An HTTP response: status, text, URL and the JSON value of the body, when it has one.\<close>

record http_response =
  hr_status :: int
  hr_text :: string
  hr_url :: string
  hr_json :: "pyval option"

type_synonym ('t, 'i, 'w) fetcher = "'t \<Rightarrow> ('w, 'i list \<times> 't option) action"

partial_function (option) page_loop ::
  "('t, 'i, 'w) fetcher \<Rightarrow> 't \<Rightarrow> 'i list \<Rightarrow> 'w \<Rightarrow> ('w \<times> 'i list res) option" where
  "page_loop fetch token acc w =
     (case fetch token w of (w', r) \<Rightarrow>
       (case r of
          Inl e \<Rightarrow> Some (w', Inl e)
        | Inr (items, next) \<Rightarrow>
            (case next of
               None \<Rightarrow> Some (w', Inr (acc @ items))
             | Some t \<Rightarrow> page_loop fetch t (acc @ items) w')))"

declare page_loop.simps [code]

definition fetch_all :: "('t, 'i, 'w) fetcher \<Rightarrow> 't \<Rightarrow> ('w, 'i list) action" where
  "fetch_all fetch token w =
     (case page_loop fetch token [] w of Some r \<Rightarrow> r | None \<Rightarrow> (w, Inl Nontermination))"

text \<open>
  \<open>pages fetch t w items w'\<close>: starting at token \<open>t\<close> in world \<open>w\<close>, finitely many successful
  pages deliver \<open>items\<close> and leave world \<open>w'\<close>.
\<close>

inductive pages :: "('t, 'i, 'w) fetcher \<Rightarrow> 't \<Rightarrow> 'w \<Rightarrow> 'i list \<Rightarrow> 'w \<Rightarrow> bool" for fetch where
  last_page: "fetch t w = (w', Inr (items, None)) \<Longrightarrow> pages fetch t w items w'"
| more_pages: "fetch t w = (w1, Inr (items, Some t')) \<Longrightarrow> pages fetch t' w1 rest w' \<Longrightarrow>
     pages fetch t w (items @ rest) w'"

lemma page_loop_pages:
  "pages fetch t w items w' \<Longrightarrow> page_loop fetch t acc w = Some (w', Inr (acc @ items))"
proof (induction arbitrary: acc rule: pages.induct)
  case (last_page t w w' items)
  then show ?case by (simp add: page_loop.simps [of fetch t])
next
  case (more_pages t w w1 items t' rest w')
  then show ?case by (simp add: page_loop.simps [of fetch t])
qed

lemma fetch_all_pages: "pages fetch t w items w' \<Longrightarrow> fetch_all fetch t w = (w', Inr items)"
  by (simp add: fetch_all_def page_loop_pages [where acc = "[]"])

text \<open>Whatever every page fetch preserves, the loop preserves, also when it fails or diverges.\<close>

lemma page_loop_preserves:
  fixes fetch :: "('t, 'i, 'w) fetcher" and obs :: "'w \<Rightarrow> 'o"
  assumes ret: "page_loop fetch t acc w = Some p"
    and reads: "\<forall>t w. obs (fst (fetch t w)) = obs w"
  shows "obs (fst p) = obs w"
proof -
  have "(\<forall>t w. obs (fst (fetch t w)) = obs w) \<longrightarrow> obs (fst p) = obs w"
  proof (rule page_loop.raw_induct [where P = "\<lambda>fetch t acc w p.
      (\<forall>t w. obs (fst (fetch t w)) = obs w) \<longrightarrow> obs (fst p) = obs w", OF _ ret])
    fix loop :: "('t, 'i, 'w) fetcher \<Rightarrow> 't \<Rightarrow> 'i list \<Rightarrow> 'w \<Rightarrow> ('w \<times> 'i list res) option"
      and f :: "('t, 'i, 'w) fetcher" and t :: 't and acc :: "'i list" and w :: 'w and p
    assume IH: "\<And>f t acc w p. loop f t acc w = Some p \<Longrightarrow>
        (\<forall>t w. obs (fst (f t w)) = obs w) \<longrightarrow> obs (fst p) = obs w"
      and eq: "(case f t w of (w', r) \<Rightarrow>
       (case r of Inl e \<Rightarrow> Some (w', Inl e)
        | Inr (items, next) \<Rightarrow>
            (case next of None \<Rightarrow> Some (w', Inr (acc @ items))
             | Some t \<Rightarrow> loop f t (acc @ items) w'))) = Some p"
    show "(\<forall>t w. obs (fst (f t w)) = obs w) \<longrightarrow> obs (fst p) = obs w"
    proof
      assume obs: "\<forall>t w. obs (fst (f t w)) = obs w"
      obtain w1 r1 where f: "f t w = (w1, r1)" by (cases "f t w")
      with obs have w1: "obs w1 = obs w" by (metis fst_conv)
      consider "fst p = w1" | t acc where "loop f t acc w1 = Some p"
        using eq f by (cases r1) (auto split: option.splits prod.splits)
      then show "obs (fst p) = obs w"
        using w1 obs IH by cases auto
    qed
  qed
  with reads show ?thesis by blast
qed

lemma fetch_all_preserves:
  assumes "\<forall>t w. obs (fst (fetch t w)) = obs w"
  shows "obs (fst (fetch_all fetch t w)) = obs w"
  using page_loop_preserves [OF _ assms, of t "[]" w]
  by (cases "page_loop fetch t [] w") (simp_all add: fetch_all_def)

end
