(* ===== verification/Google_API.thy ===== *)
theory Google_API
  imports Paging GGroup_Sync
begin

text \<open>
  \<open>google/auth.py\<close> (\<open>execute_google_request\<close>) and \<open>google/groups.py\<close>. The Google client
  library is a parameter: \<^typ>\<open>'w\<close> is the state of the outside world and a \<open>directory\<close> gives,
  for each request the sources build, the action its \<open>execute()\<close> performs on that world.
\<close>

definition TRANSIENT_GOOGLE_STATUSES :: "int set" where
  "TRANSIENT_GOOGLE_STATUSES = {429, 500, 502, 503, 504}"

definition TRANSIENT_GOOGLE_REASONS :: "string set" where
  "TRANSIENT_GOOGLE_REASONS = {''rateLimitExceeded'', ''userRateLimitExceeded''}"

definition google_execute_once ::
  "int set \<Rightarrow> string set \<Rightarrow> ('w, 'a) action \<Rightarrow> ('w, 'a) action" where
  "google_execute_once statuses reasons request w =
     (case request w of
        (w', Inl (HttpError status msg rs)) \<Rightarrow>
          (w', Inl (if status \<in> statuses \<or> set rs \<inter> reasons \<noteq> {}
                    then TransientGoogleAPIError status msg else GoogleAPIError status msg))
      | (w', r) \<Rightarrow> (w', r))"

definition only_transient_google :: "exn \<Rightarrow> bool" where
  "only_transient_google e = (case e of TransientGoogleAPIError _ _ \<Rightarrow> True | _ \<Rightarrow> False)"

definition execute_google_request ::
  "retry_policy option \<Rightarrow> int set option \<Rightarrow> string set option \<Rightarrow> bool \<Rightarrow>
   ('w, 'a) action \<Rightarrow> ('w, 'a) action" where
  "execute_google_request policy retryable_statuses retryable_reasons retry_ambiguous request w =
     (let statuses = (case retryable_statuses of None \<Rightarrow> TRANSIENT_GOOGLE_STATUSES | Some s \<Rightarrow> s);
          reasons = (case retryable_reasons of None \<Rightarrow> TRANSIENT_GOOGLE_REASONS | Some r \<Rightarrow> r);
          retry_on = (if retry_ambiguous then default_retry_exceptions else only_transient_google)
      in case retry_call policy retry_on (\<lambda>_. 0) (google_execute_once statuses reasons request) w of
           (w', _, Inl (RetryError (TransientGoogleAPIError status msg))) \<Rightarrow>
             (w', Inl (GoogleAPIError status msg))
         | (w', _, r) \<Rightarrow> (w', r))"

abbreviation execute_default :: "('w, 'a) action \<Rightarrow> ('w, 'a) action" where
  "execute_default \<equiv> execute_google_request None None None True"

definition WRITE_POLICY :: retry_policy where
  "WRITE_POLICY = default_policy\<lparr>attempts := 1\<rparr>"

abbreviation execute_write :: "('w, 'a) action \<Rightarrow> ('w, 'a) action" where
  "execute_write \<equiv> execute_google_request (Some WRITE_POLICY) None None True"

section \<open>The directory service\<close>

record 'w directory =
  dir_list :: "string \<Rightarrow> string option \<Rightarrow> ('w, raw_member list \<times> string option) action"
  dir_get :: "string \<Rightarrow> string \<Rightarrow> ('w, raw_member) action"
  dir_insert :: "string \<Rightarrow> string \<Rightarrow> string \<Rightarrow> ('w, unit) action"
  dir_update :: "string \<Rightarrow> string \<Rightarrow> string \<Rightarrow> ('w, unit) action"
  dir_delete :: "string \<Rightarrow> string \<Rightarrow> ('w, unit) action"

definition list_page :: "'w directory \<Rightarrow> string \<Rightarrow> (string option, raw_member, 'w) fetcher" where
  "list_page svc group_key page_token w =
     (case execute_default (dir_list svc group_key page_token) w of
        (w', Inl e) \<Rightarrow> (w', Inl e)
      | (w', Inr (items, token)) \<Rightarrow>
          (w', Inr (items, (case token of None \<Rightarrow> None
                            | Some t \<Rightarrow> if t = [] then None else Some (Some t)))))"

definition list_group_members :: "'w directory \<Rightarrow> string \<Rightarrow> ('w, raw_member list) action" where
  "list_group_members svc group_key = fetch_all (list_page svc group_key) None"

definition get_group_member :: "'w directory \<Rightarrow> string \<Rightarrow> string \<Rightarrow> ('w, raw_member) action" where
  "get_group_member svc group_key mkey = execute_default (dir_get svc group_key mkey)"

definition insert_group_member ::
  "'w directory \<Rightarrow> string \<Rightarrow> string \<Rightarrow> string \<Rightarrow> ('w, unit) action" where
  "insert_group_member svc group_key email role = execute_write (dir_insert svc group_key email role)"

definition update_group_member_role ::
  "'w directory \<Rightarrow> string \<Rightarrow> string \<Rightarrow> string \<Rightarrow> ('w, unit) action" where
  "update_group_member_role svc group_key mkey role = execute_write (dir_update svc group_key mkey role)"

definition delete_group_member :: "'w directory \<Rightarrow> string \<Rightarrow> string \<Rightarrow> ('w, unit) action" where
  "delete_group_member svc group_key mkey = execute_write (dir_delete svc group_key mkey)"

section \<open>Lemmas\<close>

lemma google_execute_once_Inr:
  "request w = (w', Inr x) \<Longrightarrow> google_execute_once ss rs request w = (w', Inr x)"
  by (simp add: google_execute_once_def)

lemma fst_google_execute_once: "fst (google_execute_once ss rs request w) = fst (request w)"
  by (auto simp: google_execute_once_def split: prod.splits sum.splits exn.splits)

lemma write_policy_ok [simp]: "policy_ok WRITE_POLICY"
  by (simp add: WRITE_POLICY_def policy_ok_def default_policy_def)

lemma execute_success:
  assumes "request w = (w', Inr x)"
    and "policy = None \<or> (\<exists>p. policy = Some p \<and> policy_ok p)"
  shows "execute_google_request policy ss rs amb request w = (w', Inr x)"
proof -
  have "retry_call policy on rnd (google_execute_once S R request) w = (w', [], Inr x)" for on rnd S R
    by (rule retry_call_success [OF google_execute_once_Inr]) (fact assms)+
  then show ?thesis by (simp add: execute_google_request_def Let_def)
qed

lemma fst_execute:
  "fst (execute_google_request policy ss rs amb request w) =
     fst (retry_call policy (if amb then default_retry_exceptions else only_transient_google) (\<lambda>_. 0)
       (google_execute_once (case ss of None \<Rightarrow> TRANSIENT_GOOGLE_STATUSES | Some s \<Rightarrow> s)
          (case rs of None \<Rightarrow> TRANSIENT_GOOGLE_REASONS | Some r \<Rightarrow> r) request) w)"
  by (simp add: execute_google_request_def Let_def split: prod.splits sum.splits exn.splits)

lemma execute_preserves:
  assumes "\<forall>w. obs (fst (request w)) = obs w"
  shows "obs (fst (execute_google_request policy ss rs amb request w)) = obs w"
  unfolding fst_execute retry_call_def Let_def
  by (rule retry_loop_preserves) (simp add: fst_google_execute_once assms)

lemma list_group_members_preserves:
  assumes "\<forall>t w. obs (fst (dir_list svc k t w)) = obs w"
  shows "obs (fst (list_group_members svc k w)) = obs w"
  unfolding list_group_members_def
proof (rule fetch_all_preserves, intro allI)
  fix t w
  have "obs (fst (execute_default (dir_list svc k t) w)) = obs w"
    by (rule execute_preserves) (simp add: assms)
  then show "obs (fst (list_page svc k t w)) = obs w"
    by (auto simp: list_page_def split: prod.splits sum.splits)
qed


section \<open>Properties\<close>

lemma execute_write_once:
  "execute_write request w =
     (fst (request w), (case snd (request w) of
        Inr x \<Rightarrow> Inr x
      | Inl e \<Rightarrow> (case e of
            HttpError status msg _ \<Rightarrow> Inl (GoogleAPIError status msg)
          | TransientGoogleAPIError status msg \<Rightarrow> Inl (GoogleAPIError status msg)
          | RetryError (TransientGoogleAPIError status msg) \<Rightarrow> Inl (GoogleAPIError status msg)
          | _ \<Rightarrow> if default_retry_exceptions e then Inl (RetryError e) else Inl e)))"
proof -
  have "attempts WRITE_POLICY = 1" by (simp add: WRITE_POLICY_def)
  note R = retry_call_one_shot [OF this]
  obtain w' r where f: "request w = (w', r)" by (cases "request w")
  show ?thesis
  proof (cases r)
    case (Inl e)
    then show ?thesis
      by (cases e) (auto simp: execute_google_request_def Let_def R google_execute_once_def f
          default_retry_exceptions_def split: exn.splits)
  qed (simp add: execute_google_request_def Let_def R google_execute_once_def f)
qed

text \<open>
  The three write requests are made exactly once, whatever they answer: a write whose outcome
  is unknown is never repeated. An HTTP error is reported as \<open>GoogleAPIError\<close> with its status.
\<close>

theorem directory_writes_once:
  "fst (insert_group_member svc k e r w) = fst (dir_insert svc k e r w) \<and>
   fst (update_group_member_role svc k i r w) = fst (dir_update svc k i r w) \<and>
   fst (delete_group_member svc k i w) = fst (dir_delete svc k i w) \<and>
   (snd (dir_insert svc k e r w) = Inl (HttpError status msg reasons) \<longrightarrow>
      snd (insert_group_member svc k e r w) = Inl (GoogleAPIError status msg)) \<and>
   (snd (dir_insert svc k e r w) = Inr () \<longleftrightarrow> snd (insert_group_member svc k e r w) = Inr ())"
  unfolding insert_group_member_def update_group_member_role_def delete_group_member_def execute_write_once
  by (auto split: sum.splits exn.splits)

definition failing_directory :: "nat directory" where
  "failing_directory =
     \<lparr>dir_list = \<lambda>_ _ w. (w, Inr ([], None)), dir_get = \<lambda>_ _ w. (w, Inl TimeoutError),
      dir_insert = \<lambda>_ _ _ w. (Suc w, Inl (HttpError 503 ''busy'' [])),
      dir_update = \<lambda>_ _ _ w. (Suc w, Inl TimeoutError),
      dir_delete = \<lambda>_ _ w. (Suc w, Inl TimeoutError)\<rparr>"

theorem directory_writes_once_witness:
  "fst (insert_group_member failing_directory ''g'' ''a@x'' ''MEMBER'' 0) = 1 \<and>
   snd (insert_group_member failing_directory ''g'' ''a@x'' ''MEMBER'' 0) = Inl (GoogleAPIError 503 ''busy'')"
  using directory_writes_once [of failing_directory "''g''" "''a@x''" "''MEMBER''" 0 _ 503 "''busy''" "[]"]
  by (simp add: failing_directory_def)

text \<open>
  A read request is repeated only after an explicitly transient answer, a timeout or a
  connection failure, and at most three times in all; when it is given up after a transient answer
  the caller sees \<open>GoogleAPIError\<close> with the status of the last answer.
\<close>

theorem google_read_retries:
  assumes "execute_default request w = (w', r)"
  shows "\<exists>n\<in>{1, 2, 3}. w' = state_after request n w \<and>
    (\<forall>j. Suc j < n \<longrightarrow> (\<exists>e. outcome request j w = Inl e \<and>
       (case e of HttpError status _ rs \<Rightarrow>
            status \<in> TRANSIENT_GOOGLE_STATUSES \<or> set rs \<inter> TRANSIENT_GOOGLE_REASONS \<noteq> {}
        | _ \<Rightarrow> default_retry_exceptions e)))"
proof -
  let ?f = "google_execute_once TRANSIENT_GOOGLE_STATUSES TRANSIENT_GOOGLE_REASONS request"
  obtain w1 ds r1 where c: "retry_call (Some default_policy) default_retry_exceptions (\<lambda>_. 0) ?f w = (w1, ds, r1)"
    by (cases "retry_call (Some default_policy) default_retry_exceptions (\<lambda>_. 0) ?f w") auto
  have p: "retry_call None default_retry_exceptions (\<lambda>_. 0) ?f w = (w1, ds, r1)"
    using c by (simp add: retry_call_def)
  have w1: "w' = w1" using assms fst_execute [of None None None True request w] by (simp add: p)
  have st: "state_after ?f k w = state_after request k w" for k
    by (induction k arbitrary: w) (simp_all add: fst_google_execute_once)
  have out: "outcome ?f j w = snd (google_execute_once TRANSIENT_GOOGLE_STATUSES TRANSIENT_GOOGLE_REASONS request
      (state_after request j w))" for j
    by (simp add: outcome_def st)
  have "nat (attempts default_policy) = 3" by (simp add: default_policy_def)
  with c have l: "retry_loop default_policy default_retry_exceptions (\<lambda>_. 0) ?f [0..<0 + Suc 2] None w = (w1, ds, r1)"
    by (simp add: retry_call_def numeral_3_eq_3)
  have "0 + Suc 2 = nat (attempts default_policy)" by (simp add: default_policy_def)
  from retry_loop_spec [OF this l] obtain k where k: "k \<le> 2" "w1 = state_after request (Suc k) w"
    "\<forall>j<k. retryable default_retry_exceptions (outcome ?f j w)"
    unfolding st by blast
  have "\<exists>e. outcome request j w = Inl e \<and>
       (case e of HttpError status _ rs \<Rightarrow>
            status \<in> TRANSIENT_GOOGLE_STATUSES \<or> set rs \<inter> TRANSIENT_GOOGLE_REASONS \<noteq> {}
        | _ \<Rightarrow> default_retry_exceptions e)" if "j < k" for j
  proof -
    from k(3) that have "retryable default_retry_exceptions (outcome ?f j w)" by blast
    then show ?thesis
      unfolding out by (cases "request (state_after request j w)")
        (auto simp: google_execute_once_def retryable_def outcome_def default_retry_exceptions_def
          split: sum.splits exn.splits if_splits)
  qed
  with k w1 show ?thesis by (intro bexI [of _ "Suc k"]) auto
qed

theorem google_read_retries_witness:
  "\<exists>n\<in>{1, 2, 3}. (3 :: nat) = state_after (\<lambda>w. (Suc w, Inl TimeoutError :: unit res)) n 0"
proof -
  have "[0..<nat (attempts default_policy)] = [0, 1, 2]" by (simp add: default_policy_def upt_rec)
  then have "execute_default (\<lambda>w. (Suc w, Inl TimeoutError :: unit res)) (0 :: nat) = (3, Inl (RetryError TimeoutError))"
    by (simp add: execute_google_request_def Let_def retry_call_def google_execute_once_def
        default_retry_exceptions_def default_policy_def)
  from google_read_retries [OF this] show ?thesis by blast
qed

end
