(* ===== verification/GGroup_Run.thy ===== *)
theory GGroup_Run
  imports GGroup_Diff GGroup_Email Google_API
begin

text \<open>
  Planning, applying and notifying: \<open>plan_group\<close>, \<open>apply_actions\<close>, \<open>apply_group_plan\<close>,
  \<open>send_notification\<close> and the loop of \<open>_run\<close> in \<open>pk_sync_ps_to_ggroup.py\<close>. \<^typ>\<open>'p\<close> is the
  type of e-mail providers and \<^typ>\<open>'s\<close> of Groups Settings services; what they do is given by
  parameters. Logging is left out.
\<close>

section \<open>Planning\<close>

record 'p group_plan =
  gp_group :: group_sync
  gp_actions :: "sync_action list"
  gp_provider :: "'p option"
  gp_posting :: "string option"

definition list_group_members_or_config_error ::
  "'w directory \<Rightarrow> string \<Rightarrow> ('w, raw_member list) action" where
  "list_group_members_or_config_error svc group_key w =
     (case list_group_members svc group_key w of
        (w', Inl (GoogleAPIError status msg)) \<Rightarrow>
          if status \<noteq> 404 then (w', Inl (GoogleAPIError status msg))
          else (w', Inl (ConfigError ''Configured Google Group was not found'' [group_key] []))
      | r \<Rightarrow> r)"

definition group_has_notification_content :: "sync_config \<Rightarrow> group_sync \<Rightarrow> sync_action list \<Rightarrow> bool" where
  "group_has_notification_content config grp actions \<longleftrightarrow>
     sc_sender config \<noteq> None \<and> sc_sender config \<noteq> Some [] \<and> gs_notify grp \<noteq> [] \<and> actions \<noteq> []"

definition group_notification_will_send ::
  "'p option \<Rightarrow> sync_config \<Rightarrow> group_sync \<Rightarrow> sync_action list \<Rightarrow> bool" where
  "group_notification_will_send provider config grp actions \<longleftrightarrow>
     provider \<noteq> None \<and> group_has_notification_content config grp actions"

text \<open>
  The services a run uses: the directory, the posting-permission lookup of a settings service,
  the factories that build the lazily created objects (\<open>None\<close> when the caller gives none) and
  the provider's \<open>send\<close>.
\<close>

record ('w, 's, 'p) services =
  sv_dir :: "'w directory"
  sv_posting :: "'s \<Rightarrow> string \<Rightarrow> ('w, string option) action"
  sv_provider_factory :: "('w, 'p) action option"
  sv_settings_factory :: "('w, 's) action option"
  sv_send :: "'p \<Rightarrow> email \<Rightarrow> ('w, unit) action"

definition get_group_posting_permissions ::
  "('w, 's, 'p) services \<Rightarrow> 's \<Rightarrow> string \<Rightarrow> ('w, string option) action" where
  "get_group_posting_permissions sv settings group_key = execute_default (sv_posting sv settings group_key)"

text \<open>The part of \<open>plan_group\<close> before any service object is built.\<close>

definition plan_actions ::
  "(string \<Rightarrow> string \<Rightarrow> bool) \<Rightarrow> 'w directory \<Rightarrow> members \<Rightarrow> sync_config \<Rightarrow> group_sync \<Rightarrow>
   ('w, sync_action list) action" where
  "plan_actions rs svc members config grp =
     bind_act (pure_act (desired_members rs members grp (google_mail_domains config)
         (sc_leader_roles config))) (\<lambda>desired.
     bind_act (list_group_members_or_config_error svc (gs_group grp)) (\<lambda>raw.
       let current = normalized_group_members raw;
           actions = compute_actions desired current (google_mail_domains config)
       in pure_act (
            bind_res (guard_res (\<not> (desired = [] \<and> current \<noteq> [] \<and> \<not> allow_empty grp))
              (ConfigError ''Google Group sources resolved to zero desired members''
                 [gs_group grp] [])) (\<lambda>_.
            bind_res (validate_large_removal_guard grp actions current) (\<lambda>_.
            Inr actions)))))"

text \<open>The e-mail provider of a plan: the given one, or one built because a report will be needed.\<close>

definition plan_provider ::
  "('w, 's, 'p) services \<Rightarrow> 'p option \<Rightarrow> sync_config \<Rightarrow> group_sync \<Rightarrow> sync_action list \<Rightarrow>
   ('w, 'p option) action" where
  "plan_provider sv provider config grp actions =
     (case sv_provider_factory sv of
        None \<Rightarrow> pure_act (Inr provider)
      | Some factory \<Rightarrow>
          if provider = None \<and> group_has_notification_content config grp actions
          then bind_act factory (\<lambda>p. pure_act (Inr (Some p)))
          else pure_act (Inr provider))"

definition plan_settings ::
  "('w, 's, 'p) services \<Rightarrow> 's option \<Rightarrow> ('w, 's) action" where
  "plan_settings sv settings =
     (case settings of
        Some s \<Rightarrow> pure_act (Inr s)
      | None \<Rightarrow>
          (case sv_settings_factory sv of
             None \<Rightarrow> pure_act (Inl (ConfigError
               ''Google Groups Settings service is required for notifications'' [] []))
           | Some factory \<Rightarrow> factory))"

text \<open>\<open>plan_group\<close>; the second component is the settings service, kept by the caller.\<close>

definition plan_group ::
  "(string \<Rightarrow> string \<Rightarrow> bool) \<Rightarrow> ('w, 's, 'p) services \<Rightarrow> 's option \<Rightarrow> 'p option \<Rightarrow> members \<Rightarrow>
   sync_config \<Rightarrow> group_sync \<Rightarrow> bool \<Rightarrow> ('w, 'p group_plan \<times> 's option) action" where
  "plan_group rs sv settings provider members config grp dry_run =
     bind_act (plan_actions rs (sv_dir sv) members config grp) (\<lambda>actions.
       if dry_run then
         pure_act (Inr (\<lparr>gp_group = grp, gp_actions = actions, gp_provider = None,
                         gp_posting = None\<rparr>, settings))
       else
         bind_act (plan_provider sv provider config grp actions) (\<lambda>provider.
           if \<not> group_notification_will_send provider config grp actions then
             pure_act (Inr (\<lparr>gp_group = grp, gp_actions = actions, gp_provider = provider,
                             gp_posting = None\<rparr>, settings))
           else
             bind_act (plan_settings sv settings) (\<lambda>s.
             bind_act (get_group_posting_permissions sv s (gs_group grp)) (\<lambda>posting.
             pure_act (Inr (\<lparr>gp_group = grp, gp_actions = actions, gp_provider = provider,
                             gp_posting = posting\<rparr>, Some s))))))"

section \<open>Applying\<close>

definition google_duplicate_member_email ::
  "'w directory \<Rightarrow> string \<Rightarrow> string \<Rightarrow> 'w \<Rightarrow> 'w \<times> string option res" where
  "google_duplicate_member_email svc group_key attempted_email w =
     (case get_group_member svc group_key attempted_email w of
        (w', Inl (GoogleAPIError _ _)) \<Rightarrow> (w', Inr None)
      | (w', Inl e) \<Rightarrow> (w', Inl e)
      | (w', Inr m) \<Rightarrow>
          (let email = strip (rm_email m) in (w', Inr (if email = [] then None else Some email))))"

definition duplicate_member_error_detail :: "string \<Rightarrow> string option \<Rightarrow> string" where
  "duplicate_member_error_detail attempted_email duplicate_email =
     (case duplicate_email of
        None \<Rightarrow> []
      | Some d \<Rightarrow>
          if casefold d = casefold attempted_email
          then ''; Google confirms that address is already a member''
          else ''; Google resolves that address to existing member '' @ repr_str d)"

definition apply_action :: "'w directory \<Rightarrow> string \<Rightarrow> sync_action \<Rightarrow> ('w, unit) action" where
  "apply_action svc group_key a w =
     (if sa_action a = ''add'' then
        (case insert_group_member svc group_key (sa_email a) (action_role a) w of
           (w1, Inl (GoogleAPIError status msg)) \<Rightarrow>
             (case (if status = 409 then google_duplicate_member_email svc group_key (sa_email a) w1
                    else (w1, Inr None)) of
                (w2, Inl e) \<Rightarrow> (w2, Inl e)
              | (w2, Inr dup) \<Rightarrow>
                  (w2, Inl (GoogleAPIError status
                     (''failed to add '' @ repr_str (sa_email a) @ '' to Google Group '' @
                      repr_str group_key @ duplicate_member_error_detail (sa_email a) dup @
                      ''. Google response: '' @ msg))))
         | r \<Rightarrow> r)
      else if sa_action a = ''change_role'' then
        update_group_member_role svc group_key (action_key a) (action_role a) w
      else if sa_action a = ''delete'' then delete_group_member svc group_key (action_key a) w
      else (w, Inl (ConfigError ''unknown sync action'' [sa_action a] [])))"

definition apply_actions :: "'w directory \<Rightarrow> string \<Rightarrow> sync_action list \<Rightarrow> ('w, unit) action" where
  "apply_actions svc group_key actions = run_actions (apply_action svc group_key) (ordered_actions actions)"

definition apply_group_plan :: "'w directory \<Rightarrow> bool \<Rightarrow> 'p group_plan \<Rightarrow> ('w, unit) action" where
  "apply_group_plan svc dry_run plan w =
     (if dry_run then (w, Inr ())
      else apply_actions svc (gs_group (gp_group plan)) (gp_actions plan) w)"

definition send_notification ::
  "('w, 's, 'p) services \<Rightarrow> 'p option \<Rightarrow> sync_config \<Rightarrow> group_sync \<Rightarrow> string option \<Rightarrow>
   sync_action list \<Rightarrow> ('w, unit) action" where
  "send_notification sv provider config grp posting actions w =
     (case provider of
        None \<Rightarrow> (w, Inr ())
      | Some p \<Rightarrow>
          if gs_notify grp = [] \<or> actions = [] then (w, Inr ())
          else (case build_notification_email config grp posting actions of
                  Inl e \<Rightarrow> (w, Inl e)
                | Inr message \<Rightarrow> sv_send sv p message w))"

definition send_group_plan_notification ::
  "('w, 's, 'p) services \<Rightarrow> sync_config \<Rightarrow> 'p group_plan \<Rightarrow> ('w, unit) action" where
  "send_group_plan_notification sv config plan =
     send_notification sv (gp_provider plan) config (gp_group plan) (gp_posting plan) (gp_actions plan)"

section \<open>The run\<close>

fun plan_all ::
  "(string \<Rightarrow> string \<Rightarrow> bool) \<Rightarrow> ('w, 's, 'p) services \<Rightarrow> members \<Rightarrow> sync_config \<Rightarrow> bool \<Rightarrow>
   group_sync list \<Rightarrow> 's option \<Rightarrow> 'p option \<Rightarrow> ('w, 'p group_plan list) action" where
  "plan_all rs sv members config dry_run [] settings provider = pure_act (Inr [])"
| "plan_all rs sv members config dry_run (grp # grps) settings provider =
     bind_act (plan_group rs sv settings provider members config grp dry_run) (\<lambda>(plan, settings').
     bind_act (plan_all rs sv members config dry_run grps settings'
         (case gp_provider plan of None \<Rightarrow> provider | Some p \<Rightarrow> Some p)) (\<lambda>plans.
     pure_act (Inr (plan # plans))))"

definition sync_groups ::
  "(string \<Rightarrow> string \<Rightarrow> bool) \<Rightarrow> ('w, 's, 'p) services \<Rightarrow> rosters \<Rightarrow> rosters \<Rightarrow> members \<Rightarrow>
   sync_config \<Rightarrow> bool \<Rightarrow> 's option \<Rightarrow> 'p option \<Rightarrow> ('w, unit) action" where
  "sync_groups rs sv mtm mwm members config dry_run settings provider =
     bind_act (pure_act (validate_configured_parishsoft_sources rs mtm mwm members config)) (\<lambda>_.
     bind_act (plan_all rs sv members config dry_run (sc_groups config) settings provider) (\<lambda>plans.
     bind_act (run_actions (apply_group_plan (sv_dir sv) dry_run) plans) (\<lambda>_.
       if dry_run then pure_act (Inr ())
       else run_actions (send_group_plan_notification sv config) plans)))"

end
