(* ===== verification/GGroup_Facts.thy ===== *)
theory GGroup_Facts
  imports GGroup_Run
begin

text \<open>
  Correctness of a run of \<open>pk-sync-ps-to-ggroup\<close>. The Directory API is described by
  \<open>directory_laws\<close>: listing delivers the members over finitely many pages, an insert of an
  address whose account is not a member appends it, an update sets a role, a delete removes. On
  any service with these laws, applying a plan succeeds and leaves exactly the wanted
  membership, and planning again finds nothing to do. On any service at all, a dry run and a run
  whose planning fails change nothing.
\<close>

section \<open>The Directory API\<close>

inductive listing ::
  "'w directory \<Rightarrow> string \<Rightarrow> string option \<Rightarrow> 'w \<Rightarrow> raw_member list \<Rightarrow> 'w \<Rightarrow> bool"
  for svc k where
  listing_last: "dir_list svc k t w = (w', Inr (items, tok)) \<Longrightarrow> tok = None \<or> tok = Some [] \<Longrightarrow>
     listing svc k t w items w'"
| listing_more: "dir_list svc k t w = (w1, Inr (items, Some t')) \<Longrightarrow> t' \<noteq> [] \<Longrightarrow>
     listing svc k (Some t') w1 rest w' \<Longrightarrow> listing svc k t w (items @ rest) w'"

lemma listing_pages: "listing svc k t w items w' \<Longrightarrow> pages (list_page svc k) t w items w'"
proof (induction rule: listing.induct)
  case (listing_last t w w' items tok)
  then have "list_page svc k t w = (w', Inr (items, None))"
    by (auto simp: list_page_def execute_success split: option.splits)
  then show ?case by (rule last_page)
next
  case (listing_more t w w1 items t' rest w')
  then have "list_page svc k t w = (w1, Inr (items, Some (Some t')))"
    by (simp add: list_page_def execute_success)
  then show ?case by (rule more_pages) (fact listing_more.IH)
qed

definition ids_ok :: "raw_member list \<Rightarrow> bool" where
  "ids_ok ms \<longleftrightarrow> distinct (map rm_id ms) \<and> list_all (\<lambda>m. rm_id m \<noteq> None \<and> rm_id m \<noteq> Some []) ms"

definition directory_laws ::
  "'w directory \<Rightarrow> string \<Rightarrow> (string \<Rightarrow> string) \<Rightarrow> ('w \<Rightarrow> raw_member list) \<Rightarrow> bool" where
  "directory_laws svc k nid view \<longleftrightarrow>
     (\<forall>w. \<exists>w'. listing svc k None w (view w) w' \<and> view w' = view w) \<and>
     (\<forall>w e r. Some (nid e) \<notin> rm_id ` set (view w) \<longrightarrow>
        (\<exists>w'. dir_insert svc k e r w = (w', Inr ()) \<and>
              view w' = view w @ [\<lparr>rm_email = e, rm_role = Some r, rm_id = Some (nid e)\<rparr>])) \<and>
     (\<forall>w i r. Some i \<in> rm_id ` set (view w) \<longrightarrow>
        (\<exists>w'. dir_update svc k i r w = (w', Inr ()) \<and>
              view w' = map (\<lambda>m. if rm_id m = Some i then m\<lparr>rm_role := Some r\<rparr> else m) (view w))) \<and>
     (\<forall>w i. Some i \<in> rm_id ` set (view w) \<longrightarrow>
        (\<exists>w'. dir_delete svc k i w = (w', Inr ()) \<and>
              view w' = filter (\<lambda>m. rm_id m \<noteq> Some i) (view w)))"

lemma laws_list:
  assumes "directory_laws svc k nid view"
  shows "\<exists>w'. list_group_members svc k w = (w', Inr (view w)) \<and> view w' = view w"
proof -
  from assms obtain w' where "listing svc k None w (view w) w'" "view w' = view w"
    unfolding directory_laws_def by blast
  then show ?thesis
    by (auto simp: list_group_members_def intro: fetch_all_pages listing_pages)
qed

lemma laws_write:
  assumes "directory_laws svc k nid view"
  shows "Some (nid e) \<notin> rm_id ` set (view w) \<Longrightarrow>
      \<exists>w'. insert_group_member svc k e r w = (w', Inr ()) \<and>
           view w' = view w @ [\<lparr>rm_email = e, rm_role = Some r, rm_id = Some (nid e)\<rparr>]"
    and "Some i \<in> rm_id ` set (view w) \<Longrightarrow>
      \<exists>w'. update_group_member_role svc k i r w = (w', Inr ()) \<and>
           view w' = map (\<lambda>m. if rm_id m = Some i then m\<lparr>rm_role := Some r\<rparr> else m) (view w)"
    and "Some i \<in> rm_id ` set (view w) \<Longrightarrow>
      \<exists>w'. delete_group_member svc k i w = (w', Inr ()) \<and>
           view w' = filter (\<lambda>m. rm_id m \<noteq> Some i) (view w)"
proof -
  have ex: "execute_write req w = (w', Inr x)" if "req w = (w', Inr x)" for req w' and x :: unit
    using that by (intro execute_success) auto
  note L = assms [unfolded directory_laws_def]
  show "\<exists>w'. insert_group_member svc k e r w = (w', Inr ()) \<and>
           view w' = view w @ [\<lparr>rm_email = e, rm_role = Some r, rm_id = Some (nid e)\<rparr>]"
    if "Some (nid e) \<notin> rm_id ` set (view w)"
    using that L unfolding insert_group_member_def by (blast intro: ex)
  show "\<exists>w'. update_group_member_role svc k i r w = (w', Inr ()) \<and>
           view w' = map (\<lambda>m. if rm_id m = Some i then m\<lparr>rm_role := Some r\<rparr> else m) (view w)"
    if "Some i \<in> rm_id ` set (view w)"
    using that L unfolding update_group_member_role_def by (blast intro: ex)
  show "\<exists>w'. delete_group_member svc k i w = (w', Inr ()) \<and>
           view w' = filter (\<lambda>m. rm_id m \<noteq> Some i) (view w)"
    if "Some i \<in> rm_id ` set (view w)"
    using that L unfolding delete_group_member_def by (blast intro: ex)
qed


section \<open>One action\<close>

abbreviation norm_view :: "('w \<Rightarrow> raw_member list) \<Rightarrow> 'w \<Rightarrow> gmember list" where
  "norm_view view w \<equiv> normalized_group_members (view w)"

lemma normalized_append [simp]:
  "normalized_group_members (xs @ ys) = normalized_group_members xs @ normalized_group_members ys"
  by (simp add: normalized_group_members_def)

lemma normalized_ids: "ids_ok ms \<Longrightarrow> map (\<lambda>g. Some (gm_id g)) (normalized_group_members ms) = map rm_id ms"
  by (auto simp: ids_ok_def normalized_group_members_def list_all_iff split: option.splits)

lemma normalized_id_in:
  assumes "ids_ok ms"
  shows "i \<in> gm_id ` set (normalized_group_members ms) \<longleftrightarrow> Some i \<in> rm_id ` set ms"
proof -
  have "Some i \<in> rm_id ` set ms \<longleftrightarrow> Some i \<in> set (map rm_id ms)" by simp
  also have "\<dots> \<longleftrightarrow> Some i \<in> (\<lambda>g. Some (gm_id g)) ` set (normalized_group_members ms)"
    unfolding normalized_ids [OF assms, symmetric] by simp
  finally show ?thesis by auto
qed

lemma ids_ok_wf:
  assumes "ids_ok ms"
  shows "wf_group (normalized_group_members ms)"
proof -
  have "distinct (map Some (map gm_id (normalized_group_members ms)))"
    using normalized_ids [OF assms] assms by (simp add: ids_ok_def comp_def)
  then have "distinct (map gm_id (normalized_group_members ms))"
    by (simp only: distinct_map)
  moreover have "gm_id g \<noteq> [] \<and> upper (gm_role g) = gm_role g"
    if "g \<in> set (normalized_group_members ms)" for g
    using that assms by (auto simp: normalized_group_members_def ids_ok_def list_all_iff split: option.splits)
  ultimately show ?thesis by (simp add: wf_group_def)
qed

text \<open>An action the Directory API accepts in a group.\<close>

definition enabled :: "(string \<Rightarrow> string) \<Rightarrow> gmember list \<Rightarrow> sync_action \<Rightarrow> bool" where
  "enabled nid gs a \<longleftrightarrow>
     (if sa_action a = ''add'' then
        nid (sa_email a) \<notin> gm_id ` set gs \<and> nid (sa_email a) \<noteq> [] \<and> lower (sa_email a) = sa_email a \<and>
        upper (action_role a) = action_role a
      else if sa_action a = ''change_role'' then
        action_key a \<in> gm_id ` set gs \<and> upper (action_role a) = action_role a
      else sa_action a = ''delete'' \<and> action_key a \<in> gm_id ` set gs)"

lemma normalized_update:
  assumes "ids_ok ms" and "upper r = r"
  shows "normalized_group_members (map (\<lambda>m. if rm_id m = Some i then m\<lparr>rm_role := Some r\<rparr> else m) ms) =
    map (\<lambda>g. if gm_id g = i then g\<lparr>gm_role := r\<rparr> else g) (normalized_group_members ms)"
  using assms by (auto simp: normalized_group_members_def ids_ok_def list_all_iff split: option.splits)

lemma normalized_filter:
  assumes "ids_ok ms"
  shows "normalized_group_members (filter (\<lambda>m. rm_id m \<noteq> Some i) ms) =
    filter (\<lambda>g. gm_id g \<noteq> i) (normalized_group_members ms)"
  using assms unfolding ids_ok_def
  by (induction ms) (auto simp: normalized_group_members_def split: option.splits)

lemma ids_ok_filter: "ids_ok ms \<Longrightarrow> ids_ok (filter p ms)"
  by (auto simp: ids_ok_def list_all_iff distinct_map_filter)

lemma ids_ok_update: "ids_ok ms \<Longrightarrow> ids_ok (map (\<lambda>m. if b m then m\<lparr>rm_role := r\<rparr> else m) ms)"
  by (auto simp: ids_ok_def list_all_iff comp_def if_distrib cong: if_cong)

lemma ids_ok_snoc:
  "ids_ok ms \<Longrightarrow> i \<noteq> [] \<Longrightarrow> Some i \<notin> rm_id ` set ms \<Longrightarrow>
   ids_ok (ms @ [\<lparr>rm_email = e, rm_role = r, rm_id = Some i\<rparr>])"
  by (auto simp: ids_ok_def)

lemma apply_action_spec:
  assumes laws: "directory_laws svc k nid view" and ids: "ids_ok (view w)"
    and en: "enabled nid (norm_view view w) a"
  shows "\<exists>w'. apply_action svc k a w = (w', Inr ()) \<and> ids_ok (view w') \<and>
    norm_view view w' = spec_apply nid (norm_view view w) a"
proof -
  consider "sa_action a = ''add''" | "sa_action a = ''change_role''" | "sa_action a = ''delete''"
    using en unfolding enabled_def by argo
  then show ?thesis
  proof cases
    case 1
    then have en': "Some (nid (sa_email a)) \<notin> rm_id ` set (view w)" "nid (sa_email a) \<noteq> []"
      "lower (sa_email a) = sa_email a" "upper (action_role a) = action_role a"
      using en ids by (auto simp: enabled_def normalized_id_in)
    from laws_write(1) [OF laws en'(1), of "action_role a"] obtain w'
      where "insert_group_member svc k (sa_email a) (action_role a) w = (w', Inr ())"
        and view: "view w' = view w @ [\<lparr>rm_email = sa_email a, rm_role = Some (action_role a),
          rm_id = Some (nid (sa_email a))\<rparr>]" by blast
    then have "apply_action svc k a w = (w', Inr ())" using 1 by (simp add: apply_action_def)
    moreover have "ids_ok (view w')" unfolding view by (rule ids_ok_snoc [OF ids en'(2,1)])
    moreover have "norm_view view w' = spec_apply nid (norm_view view w) a"
      using 1 en' by (simp add: view spec_apply_def normalized_group_members_def)
    ultimately show ?thesis by blast
  next
    case 2
    then have "Some (action_key a) \<in> rm_id ` set (view w)" "upper (action_role a) = action_role a"
      using en ids by (auto simp: enabled_def normalized_id_in)
    moreover from laws_write(2) [OF laws this(1), of "action_role a"] obtain w'
      where "update_group_member_role svc k (action_key a) (action_role a) w = (w', Inr ())"
        and view: "view w' = map (\<lambda>m. if rm_id m = Some (action_key a)
          then m\<lparr>rm_role := Some (action_role a)\<rparr> else m) (view w)" by blast
    ultimately show ?thesis using ids 2
      by (intro exI [of _ w'])
        (simp add: apply_action_def spec_apply_def view normalized_update ids_ok_update)
  next
    case 3
    then have "Some (action_key a) \<in> rm_id ` set (view w)"
      using en ids by (auto simp: enabled_def normalized_id_in)
    from laws_write(3) [OF laws this] obtain w'
      where "delete_group_member svc k (action_key a) w = (w', Inr ())"
        and view: "view w' = filter (\<lambda>m. rm_id m \<noteq> Some (action_key a)) (view w)" by blast
    with ids 3 show ?thesis
      by (intro exI [of _ w'])
        (simp add: apply_action_def spec_apply_def view normalized_filter ids_ok_filter)
  qed
qed

section \<open>A sequence of actions\<close>

fun enabled_all :: "(string \<Rightarrow> string) \<Rightarrow> gmember list \<Rightarrow> sync_action list \<Rightarrow> bool" where
  "enabled_all nid gs [] = True"
| "enabled_all nid gs (a # as) \<longleftrightarrow> enabled nid gs a \<and> enabled_all nid (spec_apply nid gs a) as"

lemma enabled_all_append:
  "enabled_all nid gs (as @ bs) \<longleftrightarrow>
     enabled_all nid gs as \<and> enabled_all nid (foldl (spec_apply nid) gs as) bs"
  by (induction as arbitrary: gs) auto

lemma run_actions_spec:
  assumes "directory_laws svc k nid view" "ids_ok (view w)" "enabled_all nid (norm_view view w) as"
  shows "\<exists>w'. run_actions (apply_action svc k) as w = (w', Inr ()) \<and> ids_ok (view w') \<and>
    norm_view view w' = foldl (spec_apply nid) (norm_view view w) as"
  using assms(2,3)
proof (induction as arbitrary: w)
  case (Cons a as)
  from Cons.prems apply_action_spec [OF assms(1), of w a] obtain w1
    where w1: "apply_action svc k a w = (w1, Inr ())" "ids_ok (view w1)"
      "norm_view view w1 = spec_apply nid (norm_view view w) a" by auto
  with Cons.prems have "enabled_all nid (norm_view view w1) as" by simp
  from Cons.IH [OF w1(2) this] w1 show ?case by (auto simp: bind_act_Inr)
qed auto

lemma enabled_deletes:
  assumes "wf_group gs" "set S \<subseteq> set gs" "distinct (map gm_id S)"
  shows "enabled_all nid gs (map delete_action S)"
  using assms
proof (induction S arbitrary: gs)
  case (Cons g S)
  then have ne: "gm_id g \<noteq> []" by (auto simp: wf_group_def)
  let ?gs = "filter (\<lambda>x. gm_id x \<noteq> gm_id g) gs"
  have "wf_group ?gs" using Cons.prems(1) by (auto simp: wf_group_def distinct_map_filter)
  moreover have "set S \<subseteq> set ?gs" using Cons.prems(2,3) by (auto simp: image_iff)
  ultimately have "enabled_all nid ?gs (map delete_action S)"
    using Cons.prems(3) by (intro Cons.IH) auto
  moreover have "enabled nid gs (delete_action g)"
    using Cons.prems(2) ne by (auto simp: enabled_def delete_action_def action_key_def member_key_def)
  ultimately show ?case using ne by (simp add: spec_apply_delete)
qed simp

text \<open>The identifiers in a group while the wanted members are processed.\<close>

lemma enabled_wanted:
  assumes wf: "wf_group C" and ids: "\<forall>d\<in>set ds. \<forall>i. match_of D C d = Some i \<longrightarrow> gm_id (C ! i) \<in> gm_id ` set gs"
    and new: "\<forall>d\<in>set ds. match_of D C d = None \<longrightarrow> nid (dm_email d) \<notin> gm_id ` set gs"
    and dist: "distinct ds" and na: "no_alias nid D ds C"
    and low: "\<forall>d\<in>set ds. lower (dm_email d) = dm_email d" and ne: "\<forall>e. nid e \<noteq> []"
  shows "enabled_all nid gs (concat (map (act_of D C) ds))"
  using ids new dist na low
proof (induction ds arbitrary: gs)
  case (Cons d ds)
  have tail: "no_alias nid D ds C" by (rule no_alias_subset [OF Cons.prems(4)]) auto
  show ?case
  proof (cases "match_of D C d")
    case None
    then have act: "act_of D C d = [add_action d]" by (simp add: act_of_def)
    have en: "enabled nid gs (add_action d)"
      using Cons.prems(2,5) None ne by (simp add: enabled_def add_action_def action_role_def)
    have "nid (dm_email d') \<noteq> nid (dm_email d)" if "d' \<in> set ds" "match_of D C d' = None" for d'
      using no_alias_new [OF Cons.prems(4) _ None _ that(2)] that(1) Cons.prems(3) by auto
    then have "enabled_all nid (gs @ [new_member nid d]) (concat (map (act_of D C) ds))"
      using Cons.prems tail by (intro Cons.IH) (auto simp: new_member_def)
    with en act show ?thesis by (simp add: spec_apply_add)
  next
    case (Some i)
    with wf have ne': "gm_id (C ! i) \<noteq> []" by (auto simp: wf_group_def dest: match_of_lt)
    let ?gs = "map (\<lambda>x. if gm_id x = gm_id (C ! i) then x\<lparr>gm_role := role_of d\<rparr> else x) gs"
    have "map gm_id ?gs = map gm_id gs" by simp
    then have idgs: "gm_id ` set ?gs = gm_id ` set gs" by (metis set_map)
    have rest: "enabled_all nid gs' (concat (map (act_of D C) ds))"
      if "gm_id ` set gs' = gm_id ` set gs" for gs'
      using Cons.prems tail by (intro Cons.IH) (simp_all add: that)
    have "enabled nid gs (role_action d (C ! i))"
      using Cons.prems(1) Some ne' by (simp add: enabled_def role_action_def action_key_def member_key_def action_role_def)
    with rest [OF refl] rest [OF idgs] Some ne' show ?thesis
      by (simp add: act_of_def [of D C d] spec_apply_role)
  qed
qed simp

lemma enabled_computed:
  assumes wf: "wf_group C" and d: "distinct_addresses D ds" and na: "no_alias nid D ds C"
    and low: "\<forall>d\<in>set ds. lower (dm_email d) = dm_email d" and ne: "\<forall>e. nid e \<noteq> []"
  shows "enabled_all nid C (ordered_actions (compute_actions ds C D))"
proof -
  let ?M = "matched D C ds"
  have "distinct (map gm_id (surplus ?M C))"
  proof -
    have "map gm_id (surplus ?M C) = map fst (filter (\<lambda>(_, i). i \<notin> ?M) (map (\<lambda>(i, g). (gm_id g, i)) (enumerate 0 C)))"
      by (simp add: surplus_def filter_map comp_def case_prod_unfold)
    moreover have "map fst (map (\<lambda>(i, g). (gm_id g, i)) (enumerate 0 C)) = map gm_id C"
      using arg_cong [OF map_snd_enumerate [of 0 C], of "map gm_id"] by (simp add: comp_def case_prod_unfold del: map_snd_enumerate)
    ultimately show ?thesis using wf
      by (metis (no_types, lifting) distinct_map_filter wf_group_def)
  qed
  then have del: "enabled_all nid C (map delete_action (surplus ?M C))"
    using wf by (intro enabled_deletes) (auto simp: surplus_nth)
  have kept: "gm_id ` set (kept ?M C) = {gm_id (C ! i) |d i. d \<in> set ds \<and> match_of D C d = Some i}"
  proof (rule set_eqI)
    fix x
    have "x \<in> gm_id ` set (kept ?M C) \<longleftrightarrow> (\<exists>g. g \<in> set (kept ?M C) \<and> x = gm_id g)" by auto
    then show "x \<in> gm_id ` set (kept ?M C) \<longleftrightarrow>
        x \<in> {gm_id (C ! i) |d i. d \<in> set ds \<and> match_of D C d = Some i}"
      unfolding kept_member by auto
  qed
  have "distinct ds" using d by (simp add: distinct_addresses_def distinct_map)
  then have "enabled_all nid (kept ?M C) (concat (map (act_of D C) ds))"
    using wf na low ne by (intro enabled_wanted) (auto simp: kept dest: no_alias_kept)
  with del show ?thesis
    by (simp add: ordered_actions_compute enabled_all_append delete_surplus [OF wf])
qed


section \<open>Convergence of a group\<close>

lemma list_or_error_ok:
  "list_group_members svc k w = (w', Inr ms) \<Longrightarrow> list_group_members_or_config_error svc k w = (w', Inr ms)"
  by (simp add: list_group_members_or_config_error_def)

lemma plan_actions_eq:
  assumes "desired_members rs members grp (google_mail_domains config) (sc_leader_roles config) = Inr ds"
    and "list_group_members svc (gs_group grp) w = (w', Inr raw)"
  shows "plan_actions rs svc members config grp w =
    (w', (if ds = [] \<and> raw \<noteq> [] \<and> \<not> allow_empty grp
          then Inl (ConfigError ''Google Group sources resolved to zero desired members'' [gs_group grp] [])
          else (let actions = compute_actions ds (normalized_group_members raw) (google_mail_domains config)
                in bind_res (validate_large_removal_guard grp actions (normalized_group_members raw))
                     (\<lambda>_. Inr actions))))"
proof -
  have "normalized_group_members raw = [] \<longleftrightarrow> raw = []" by (simp add: normalized_group_members_def)
  then show ?thesis
    using assms by (auto simp: plan_actions_def bind_act_Inr list_or_error_ok Let_def)
qed

lemma desired_members_lower:
  assumes "desired_members rs members grp D lr = Inr ds"
  shows "\<forall>d\<in>set ds. lower (dm_email d) = dm_email d"
proof -
  from assms obtain es where "ds = map snd (wanted.add_all D [] es)"
    by (auto simp: desired_members_entries)
  then show ?thesis using wanted_list(4) by blast
qed

lemma group_is_Nil: "group_is D [] gs \<longleftrightarrow> gs = []"
  by (auto simp: group_is_def)

lemma guard_no_removals:
  "0 \<le> max_removals grp \<Longrightarrow> validate_large_removal_guard grp [] C = Inr ()"
  by (simp add: validate_large_removal_guard_def removal_guard_tripped_def)

section \<open>What reads preserve\<close>

text \<open>
  \<open>obs\<close> is any observation of the world that the read requests leave alone: the memberships of
  all groups, the messages sent, a log of writes.
\<close>

definition lists_preserve :: "('w \<Rightarrow> 'o) \<Rightarrow> 'w directory \<Rightarrow> bool" where
  "lists_preserve obs svc \<longleftrightarrow> (\<forall>k t. preserves obs (dir_list svc k t))"

definition reads_preserve :: "('w \<Rightarrow> 'o) \<Rightarrow> ('w, 's, 'p) services \<Rightarrow> bool" where
  "reads_preserve obs sv \<longleftrightarrow> lists_preserve obs (sv_dir sv) \<and>
     (\<forall>s k. preserves obs (sv_posting sv s k)) \<and>
     (\<forall>f. sv_provider_factory sv = Some f \<longrightarrow> preserves obs f) \<and>
     (\<forall>f. sv_settings_factory sv = Some f \<longrightarrow> preserves obs f)"

lemma preserves_list_or_error:
  assumes "lists_preserve obs svc"
  shows "preserves obs (list_group_members_or_config_error svc k)"
proof -
  have "obs (fst (list_group_members svc k w)) = obs w" for w
    using assms by (intro list_group_members_preserves) (auto simp: lists_preserve_def preserves_def)
  then have "list_group_members svc k w = (w', r) \<Longrightarrow> obs w' = obs w" for w w' r
    by (metis fst_conv)
  then show ?thesis
    by (auto simp: preserves_def list_group_members_or_config_error_def split: prod.splits sum.splits exn.splits)
qed

lemma preserves_plan_actions:
  "lists_preserve obs svc \<Longrightarrow> preserves obs (plan_actions rs svc members config grp)"
  unfolding plan_actions_def by (intro frame preserves_list_or_error)

lemma preserves_plan_dry:
  "lists_preserve obs (sv_dir sv) \<Longrightarrow>
   preserves obs (plan_group rs sv settings provider members config grp True)"
  unfolding plan_group_def by (auto intro!: frame preserves_plan_actions)

lemma preserves_plan_all_dry:
  "lists_preserve obs (sv_dir sv) \<Longrightarrow>
   preserves obs (plan_all rs sv members config True grps settings provider)"
  by (induction grps arbitrary: settings provider)
    (auto intro!: frame preserves_plan_dry split: prod.splits)

section \<open>A failed plan writes nothing\<close>

lemma preserves_posting:
  assumes "reads_preserve obs sv"
  shows "preserves obs (get_group_posting_permissions sv s k)"
  using assms unfolding preserves_def reads_preserve_def get_group_posting_permissions_def
  by (intro allI execute_preserves) blast

lemma preserves_plan_group:
  assumes "reads_preserve obs sv"
  shows "preserves obs (plan_group rs sv settings provider members config grp dry)"
proof -
  have l: "lists_preserve obs (sv_dir sv)"
    and f: "\<And>f. sv_provider_factory sv = Some f \<Longrightarrow> preserves obs f"
    and h: "\<And>h. sv_settings_factory sv = Some h \<Longrightarrow> preserves obs h"
    using assms by (auto simp: reads_preserve_def)
  show ?thesis
    unfolding plan_group_def plan_provider_def plan_settings_def
    by (intro frame preserves_plan_actions l preserves_posting assms f h)
qed

lemma preserves_plan_all:
  "reads_preserve obs sv \<Longrightarrow> preserves obs (plan_all rs sv members config dry grps settings provider)"
  by (induction grps arbitrary: settings provider)
    (auto intro!: frame preserves_plan_group split: prod.splits)

section \<open>A directory in memory\<close>

text \<open>
  A directory with one group whose members are the state, used to exercise the properties: it
  satisfies the laws.
\<close>

definition mem_id :: "string \<Rightarrow> string" where
  "mem_id e = ''id:'' @ e"

definition mem_directory :: "raw_member list directory" where
  "mem_directory =
     \<lparr>dir_list = \<lambda>_ _ w. (w, Inr (w, None)),
      dir_get = \<lambda>_ i w. (case find (\<lambda>m. rm_id m = Some i \<or> rm_email m = i) w of
          None \<Rightarrow> (w, Inl (HttpError 404 ''notFound'' [])) | Some m \<Rightarrow> (w, Inr m)),
      dir_insert = \<lambda>_ e r w.
        if Some (mem_id e) \<in> rm_id ` set w then (w, Inl (HttpError 409 ''duplicate'' []))
        else (w @ [\<lparr>rm_email = e, rm_role = Some r, rm_id = Some (mem_id e)\<rparr>], Inr ()),
      dir_update = \<lambda>_ i r w.
        if Some i \<in> rm_id ` set w
        then (map (\<lambda>m. if rm_id m = Some i then m\<lparr>rm_role := Some r\<rparr> else m) w, Inr ())
        else (w, Inl (HttpError 404 ''notFound'' [])),
      dir_delete = \<lambda>_ i w.
        if Some i \<in> rm_id ` set w then (filter (\<lambda>m. rm_id m \<noteq> Some i) w, Inr ())
        else (w, Inl (HttpError 404 ''notFound'' []))\<rparr>"

lemma mem_directory_laws: "directory_laws mem_directory k mem_id (\<lambda>w. w)"
proof -
  have "listing mem_directory k None w w w" for w
    by (rule listing_last [where tok = None]) (simp_all add: mem_directory_def)
  then show ?thesis
    unfolding directory_laws_def by (auto simp: mem_directory_def)
qed

definition demo_member :: member where
  "demo_member =
     \<lparr>memberDUID = 7, m_familyDUID = 3, firstName = ''Ann'', lastName = ''Lee'',
      emailAddress = Some ''Ann.Lee@gmail.com'', py_emailAddresses = None,
      memberStatus = Some ''Active'', memberType = Some ''Head'', family_PublishPhone = False,
      family_PublishEMail = False, mobilePhone = None, homePhone = None, py_family = Some 3,
      py_contactInfo = None, py_member_workgroups = [], py_workgroups = [(''Ushers'', 1), (''Ushers Ldr'', 2)],
      py_ministries = [], py_friendly_FL = Some ''Ann Lee'', py_friendly_LF = Some ''Lee, Ann'', py_active = True\<rparr>"

definition demo_group :: group_sync where
  "demo_group =
     \<lparr>gs_group = ''ushers@example.org'', gs_notify = [], gs_ministries = [], gs_workgroups = [''Ushers''],
      static_members = [\<lparr>sm_email = ''office@example.org'', sm_leader = False\<rparr>], selectors = [],
      allow_empty = False, max_removals = 5, max_removal_fraction = 1 / 2\<rparr>"

definition demo_config :: sync_config where
  "demo_config = \<lparr>sc_groups = [demo_group], sc_sender = None,
     google_mail_domains = {''gmail.com''}, sc_leader_roles = {''Chairperson''}\<rparr>"

definition demo_current :: "raw_member list" where
  "demo_current =
     [\<lparr>rm_email = ''annlee@gmail.com'', rm_role = Some ''MEMBER'', rm_id = Some ''1''\<rparr>,
      \<lparr>rm_email = ''gone@example.org'', rm_role = Some ''OWNER'', rm_id = Some ''2''\<rparr>]"

definition demo_wanted :: "desired_member list" where
  "demo_wanted =
     [\<lparr>dm_email = ''ann.lee@gmail.com'', dm_leader = True, dm_names = [''Ann Lee'']\<rparr>,
      \<lparr>dm_email = ''office@example.org'', dm_leader = False, dm_names = []\<rparr>]"

lemma demo_desired:
  "desired_members (\<lambda>_ _. False) [(7, demo_member)] demo_group (google_mail_domains demo_config)
     (sc_leader_roles demo_config) = Inr demo_wanted"
  by code_simp

lemma demo_no_alias:
  "no_alias mem_id (google_mail_domains demo_config) demo_wanted (normalized_group_members demo_current)"
  by code_simp

definition demo_actions :: "sync_action list" where
  "demo_actions =
     [\<lparr>sa_action = ''change_role'', sa_email = ''ann.lee@gmail.com'', sa_role = Some ''OWNER'',
       sa_member_id = Some ''1'', sa_desired = Some (demo_wanted ! 0)\<rparr>,
      \<lparr>sa_action = ''add'', sa_email = ''office@example.org'', sa_role = Some ''MEMBER'',
       sa_member_id = None, sa_desired = Some (demo_wanted ! 1)\<rparr>,
      \<lparr>sa_action = ''delete'', sa_email = ''gone@example.org'', sa_role = None,
       sa_member_id = Some ''2'', sa_desired = None\<rparr>]"

lemma demo_list:
  "list_group_members mem_directory k w = (w, Inr w)"
  using laws_list [OF mem_directory_laws, of k w] by simp

lemma demo_plan:
  "plan_actions (\<lambda>_ _. False) mem_directory [(7, demo_member)] demo_config demo_group demo_current =
     (demo_current, Inr demo_actions)"
  unfolding plan_actions_eq [OF demo_desired demo_list] by code_simp

definition demo_services :: "(raw_member list, unit, unit) services" where
  "demo_services =
     \<lparr>sv_dir = mem_directory, sv_posting = \<lambda>_ _ w. (w, Inr None), sv_provider_factory = None,
      sv_settings_factory = None, sv_send = \<lambda>_ _ w. (w, Inr ())\<rparr>"

lemma demo_reads: "reads_preserve (\<lambda>w. w) demo_services"
  by (simp add: reads_preserve_def lists_preserve_def preserves_def demo_services_def mem_directory_def)

section \<open>Properties\<close>

text \<open>
  C1: on a directory that keeps its laws, a plan that passed the guards is applied without an
  error, leaves exactly the wanted members (each address once, in the wanted role), and planning
  again finds nothing to do. The only condition on the data is that no address to be added belongs
  to an account that stays in the group under another address.
\<close>

theorem planned_group_converges:
  assumes laws: "directory_laws svc (gs_group grp) nid view" and ids: "ids_ok (view w)" and ne: "\<forall>e. nid e \<noteq> []"
    and want: "desired_members rs members grp (google_mail_domains config) (sc_leader_roles config) = Inr ds"
    and plan: "plan_actions rs svc members config grp w = (w1, Inr actions)"
    and na: "no_alias nid (google_mail_domains config) ds (norm_view view w)"
    and nn: "0 \<le> max_removals grp"
  shows "\<exists>w2 w3. apply_actions svc (gs_group grp) actions w1 = (w2, Inr ()) \<and>
    group_is (google_mail_domains config) ds (norm_view view w2) \<and>
    plan_actions rs svc members config grp w2 = (w3, Inr [])"
proof -
  let ?D = "google_mail_domains config" and ?C = "norm_view view w"
  from laws_list [OF laws, of w] obtain w1' where l: "list_group_members svc (gs_group grp) w = (w1', Inr (view w))"
    and v1: "view w1' = view w" by auto
  from plan plan_actions_eq [OF want l] have w1: "w1 = w1'" and act: "actions = compute_actions ds ?C ?D"
    by (auto simp: Let_def split: if_splits)
  note wf = ids_ok_wf [OF ids] and dist = desired_members_distinct [OF want]
  from enabled_computed [OF wf dist na desired_members_lower [OF want] ne]
  have "enabled_all nid (norm_view view w1) (ordered_actions actions)"
    by (simp add: act w1 v1)
  from run_actions_spec [OF laws _ this] ids obtain w2 where
    w2: "apply_actions svc (gs_group grp) actions w1 = (w2, Inr ())" "ids_ok (view w2)"
      "norm_view view w2 = synced nid ?D ds ?C"
    by (auto simp: apply_actions_def w1 v1 act synced_def)
  have gi: "group_is ?D ds (norm_view view w2)"
    unfolding w2(3) by (rule synced_group_is [OF wf dist na])
  from laws_list [OF laws, of w2] obtain w3
    where l3: "list_group_members svc (gs_group grp) w2 = (w3, Inr (view w2))" by auto
  have "compute_actions ds (norm_view view w2) ?D = []"
    using ids_ok_wf [OF w2(2)] dist by (intro group_is_no_actions [OF gi]) (auto simp: wf_group_def)
  moreover have "ds = [] \<longrightarrow> view w2 = []"
    using gi by (auto simp: group_is_Nil normalized_group_members_def)
  ultimately have "plan_actions rs svc members config grp w2 = (w3, Inr [])"
    using nn by (auto simp: plan_actions_eq [OF want l3] guard_no_removals)
  with w2 gi show ?thesis by blast
qed


theorem planned_group_converges_witness:
  "\<exists>w2 w3. apply_actions mem_directory ''ushers@example.org'' demo_actions demo_current = (w2, Inr ()) \<and>
     group_is {''gmail.com''} demo_wanted (normalized_group_members w2) \<and>
     plan_actions (\<lambda>_ _. False) mem_directory [(7, demo_member)] demo_config demo_group w2 = (w3, Inr [])"
  using planned_group_converges [OF mem_directory_laws _ _ demo_desired demo_plan demo_no_alias]
  by (simp add: demo_group_def demo_config_def demo_current_def ids_ok_def mem_id_def)



text \<open>
  All groups are planned before any is changed: when the plan of some group fails, the run
  fails with that exception and no member of any group was written and no message was sent.
\<close>

theorem failed_plan_preserves:
  assumes "reads_preserve obs sv"
    and "plan_all rs sv members config dry (sc_groups config) settings provider w = (w1, Inl e)"
    and "validate_configured_parishsoft_sources rs mtm mwm members config = Inr ()"
  shows "sync_groups rs sv mtm mwm members config dry settings provider w = (w1, Inl e) \<and> obs w1 = obs w"
  using preservesD [OF preserves_plan_all [OF assms(1)] assms(2)] assms(2,3)
  by (simp add: sync_groups_def bind_act_Inl)

lemma demo_failing_plan:
  "plan_all (\<lambda>_ _. False) demo_services [] (demo_config\<lparr>sc_groups := [demo_group\<lparr>static_members := []\<rparr>]\<rparr>)
     False [demo_group\<lparr>static_members := []\<rparr>] None None demo_current =
   (demo_current, Inl (ConfigError ''Google Group sources resolved to zero desired members''
      [''ushers@example.org''] []))"
proof -
  have d: "desired_members (\<lambda>_ _. False) [] (demo_group\<lparr>static_members := []\<rparr>)
      (google_mail_domains (demo_config\<lparr>sc_groups := [demo_group\<lparr>static_members := []\<rparr>]\<rparr>))
      (sc_leader_roles (demo_config\<lparr>sc_groups := [demo_group\<lparr>static_members := []\<rparr>]\<rparr>)) = Inr []"
    by code_simp
  have "plan_actions (\<lambda>_ _. False) mem_directory [] (demo_config\<lparr>sc_groups := [demo_group\<lparr>static_members := []\<rparr>]\<rparr>)
      (demo_group\<lparr>static_members := []\<rparr>) demo_current =
    (demo_current, Inl (ConfigError ''Google Group sources resolved to zero desired members''
      [''ushers@example.org''] []))"
    unfolding plan_actions_eq [OF d demo_list] by (simp add: demo_group_def demo_current_def)
  then show ?thesis by (simp add: plan_group_def bind_act_Inl demo_services_def)
qed

theorem failed_plan_preserves_witness:
  "sync_groups (\<lambda>_ _. False) demo_services [] [(1, \<lparr>ro_id = 1, ro_name = ''Ushers'', membership = []\<rparr>)] []
     (demo_config\<lparr>sc_groups := [demo_group\<lparr>static_members := []\<rparr>]\<rparr>) False None None demo_current =
   (demo_current, Inl (ConfigError ''Google Group sources resolved to zero desired members''
      [''ushers@example.org''] [])) \<and> demo_current = demo_current"
proof (rule failed_plan_preserves [OF demo_reads])
  show "validate_configured_parishsoft_sources (\<lambda>_ _. False) [] [(1, \<lparr>ro_id = 1, ro_name = ''Ushers'', membership = []\<rparr>)]
     [] (demo_config\<lparr>sc_groups := [demo_group\<lparr>static_members := []\<rparr>]\<rparr>) = Inr ()"
    by code_simp
qed (use demo_failing_plan in simp)

text \<open>
  The guards of a plan. Its actions are the difference between wanted and current members; it
  never empties a group unless that is allowed, and the number of removals is within the absolute
  limit or within the allowed fraction of the current members.
\<close>

theorem plan_actions_guards:
  assumes "plan_actions rs svc members config grp w = (w', Inr actions)"
  shows "\<exists>ds raw current.
    desired_members rs members grp (google_mail_domains config) (sc_leader_roles config) = Inr ds \<and>
    list_group_members svc (gs_group grp) w = (w', Inr raw) \<and> current = normalized_group_members raw \<and>
    actions = compute_actions ds current (google_mail_domains config) \<and>
    (ds = [] \<longrightarrow> current = [] \<or> allow_empty grp) \<and>
    (let removals = length (filter (\<lambda>a. sa_action a = ''delete'') actions) in
       int removals \<le> max_removals grp \<or>
       of_nat removals \<le> max_removal_fraction grp * of_nat (length current))"
proof -
  from assms obtain ds raw where ds: "desired_members rs members grp (google_mail_domains config) (sc_leader_roles config) = Inr ds"
    and raw: "list_group_members_or_config_error svc (gs_group grp) w = (w', Inr raw)"
    and eq: "actions = compute_actions ds (normalized_group_members raw) (google_mail_domains config)"
    and g1: "\<not> (ds = [] \<and> normalized_group_members raw \<noteq> [] \<and> \<not> allow_empty grp)"
    and g2: "validate_large_removal_guard grp actions (normalized_group_members raw) = Inr ()"
    by (auto simp: plan_actions_def bind_act_eq_Inr Let_def)
  let ?C = "normalized_group_members raw" and ?R = "filter (\<lambda>a. sa_action a = ''delete'') actions"
  have "length ?R \<le> length ?C"
  proof -
    have "?R = map delete_action (surplus (matched (google_mail_domains config) ?C ds) ?C)"
      unfolding eq compute_actions_eq
      by (auto simp: filter_id_conv delete_action_def filter_empty_conv dest: act_of_not_delete)
    then show ?thesis by (simp add: surplus_def) (metis length_enumerate length_filter_le)
  qed
  moreover from g2 have "\<not> removal_guard_tripped (int (length ?R)) (int (length ?C)) (max_removals grp) (max_removal_fraction grp)"
    by (auto simp: validate_large_removal_guard_def Let_def split: if_splits)
  ultimately have "int (length ?R) \<le> max_removals grp \<or>
       of_nat (length ?R) \<le> max_removal_fraction grp * of_nat (length ?C)"
    by (auto simp: removal_guard_tripped_def not_less divide_le_eq split: if_splits)
  moreover from raw have "list_group_members svc (gs_group grp) w = (w', Inr raw)"
    by (auto simp: list_group_members_or_config_error_def split: prod.splits sum.splits exn.splits if_splits)
  ultimately show ?thesis
    by (intro exI [of _ ds] exI [of _ raw] exI [of _ ?C]) (use eq g1 ds in \<open>auto simp: Let_def\<close>)
qed

theorem plan_actions_guards_witness:
  "\<exists>ds raw current. desired_members (\<lambda>_ _. False) [(7, demo_member)] demo_group {''gmail.com''} {''Chairperson''} = Inr ds \<and>
    list_group_members mem_directory ''ushers@example.org'' demo_current = (demo_current, Inr raw) \<and>
    current = normalized_group_members raw \<and>
    demo_actions = compute_actions ds current {''gmail.com''} \<and>
    (ds = [] \<longrightarrow> current = [] \<or> allow_empty demo_group) \<and>
    (let removals = length (filter (\<lambda>a. sa_action a = ''delete'') demo_actions) in
       int removals \<le> max_removals demo_group \<or>
       of_nat removals \<le> max_removal_fraction demo_group * of_nat (length current))"
  using plan_actions_guards [OF demo_plan] unfolding demo_config_def sync_config.simps demo_group_def group_sync.simps .

text \<open>
  Applying stops at the first failure. The actions before it were carried out, those after it
  were not, and the failure is the result. When the failure is an insert that Google answers with
  409, the member that the address resolves to is looked up and named in the message.
\<close>

theorem apply_actions_stops:
  assumes "ordered_actions actions = before @ a # after"
    and "run_actions (apply_action svc k) before w = (w1, Inr ())"
    and "apply_action svc k a w1 = (w2, Inl e)"
  shows "apply_actions svc k actions w = (w2, Inl e) \<and>
    (sa_action a = ''add'' \<longrightarrow> dir_insert svc k (sa_email a) (action_role a) w1 = (w1', Inl (HttpError 409 msg rs)) \<longrightarrow>
     get_group_member svc k (sa_email a) w1' = (w2', Inr m) \<longrightarrow> strip (rm_email m) \<noteq> [] \<longrightarrow>
     casefold (strip (rm_email m)) \<noteq> casefold (sa_email a) \<longrightarrow>
     w2 = w2' \<and> e = GoogleAPIError 409 (''failed to add '' @ repr_str (sa_email a) @ '' to Google Group '' @
       repr_str k @ ''; Google resolves that address to existing member '' @ repr_str (strip (rm_email m)) @
       ''. Google response: '' @ msg))"
proof -
  have app: "run_actions f (xs @ ys) w = bind_act (run_actions f xs) (\<lambda>_. run_actions f ys) w"
    for f :: "sync_action \<Rightarrow> ('a, unit) action" and xs ys w
  proof (induction xs arbitrary: w)
    case (Cons x xs)
    have "bind_act (f x) (\<lambda>_. run_actions f (xs @ ys)) = bind_act (f x) (\<lambda>_. bind_act (run_actions f xs) (\<lambda>_. run_actions f ys))"
      using Cons by presburger
    then show ?case by (auto simp: bind_act_def split: prod.splits sum.splits)
  qed (simp add: bind_act_def)
  have 1: "apply_actions svc k actions w = (w2, Inl e)"
    unfolding apply_actions_def assms(1) app using assms(2,3) by (simp add: bind_act_Inr bind_act_Inl)
  have ins: "insert_group_member svc k (sa_email a) (action_role a) w1 = (w1', Inl (GoogleAPIError 409 msg))"
    if "dir_insert svc k (sa_email a) (action_role a) w1 = (w1', Inl (HttpError 409 msg rs))"
    using that by (simp add: insert_group_member_def execute_write_once)
  show ?thesis
    using 1 assms(3) ins
    by (auto simp: apply_action_def google_duplicate_member_email_def duplicate_member_error_detail_def Let_def)
qed

definition demo_add :: sync_action where
  "demo_add = \<lparr>sa_action = ''add'', sa_email = ''gone@example.org'', sa_role = Some ''MEMBER'',
     sa_member_id = None, sa_desired = None\<rparr>"

theorem apply_actions_stops_witness:
  "apply_actions failing_directory ''g'' [demo_add, demo_add] 0 =
     (1, Inl (GoogleAPIError 503 ''failed to add 'gone@example.org' to Google Group 'g'. Google response: busy''))"
proof -
  have ord: "ordered_actions [demo_add, demo_add] = [] @ demo_add # [demo_add]"
    by (simp add: ordered_actions_def)
  have "apply_action failing_directory ''g'' demo_add 0 =
      (1, Inl (GoogleAPIError 503 ''failed to add 'gone@example.org' to Google Group 'g'. Google response: busy''))"
    by (simp add: apply_action_def demo_add_def insert_group_member_def execute_write_once
        failing_directory_def action_role_def duplicate_member_error_detail_def repr_str_def)
  from apply_actions_stops [OF ord _ this] show ?thesis by simp
qed

end
