(* ===== verification/PS_Rules.thy ===== *)
theory PS_Rules
  imports ParishSoft
begin

text \<open>
  The questions other tools ask of a ParishSoft snapshot: family heads, the layered search for a
  family's addresses, the rules that select families for a mailing, what may be published, and
  salutations. \<open>full_match\<close> stands for \<open>_PLAIN_EMAIL.fullmatch\<close>, a compiled regular expression.
\<close>

section \<open>Heads and family addresses\<close>

definition HEAD_MEMBER_TYPES :: "string set" where
  "HEAD_MEMBER_TYPES = {''Head'', ''Husband'', ''Wife''}"

definition get_family_heads :: "members \<Rightarrow> family \<Rightarrow> (int, member) dict" where
  "get_family_heads ms f =
     dict_of (map (\<lambda>m. (memberDUID m, m))
       (filter (\<lambda>m. case memberType m of None \<Rightarrow> False | Some t \<Rightarrow> t \<in> HEAD_MEMBER_TYPES)
         (family_members ms f))) []"

text \<open>
  One layer of the search: the members with addresses, and their addresses in order. A dictionary
  with \<open>True\<close> values is an ordered set.
\<close>

definition add_emails :: "string list \<Rightarrow> string list \<Rightarrow> string list" where
  "add_emails emails new = foldl (\<lambda>es e. if e \<in> set es then es else es @ [e]) emails new"

definition add_layer_member :: "member list \<times> string list \<Rightarrow> member \<Rightarrow> member list \<times> string list" where
  "add_layer_member acc m =
     (let member_emails = member_email_addresses m
      in if member_emails \<noteq> [] then (fst acc @ [m], add_emails (snd acc) member_emails) else acc)"

definition workgroup_row_members :: "(int, member) dict \<Rightarrow> membership_row list \<Rightarrow> member list" where
  "workgroup_row_members fm rows =
     List.map_filter (\<lambda>row.
       case py_or (py_member_duid row) (py_or (row_memberDUID row) (row_memberId row)) of
         None \<Rightarrow> None | Some d \<Rightarrow> map_of fm d) rows"

definition family_workgroup_emails ::
  "members \<Rightarrow> family \<Rightarrow> rosters \<Rightarrow> string \<Rightarrow> member list \<times> string list" where
  "family_workgroup_emails ms f member_workgroups workgroup_name =
     (case find (\<lambda>wg. ro_name wg = workgroup_name) (map snd member_workgroups) of
        None \<Rightarrow> ([], [])
      | Some target \<Rightarrow>
          (let fm = dict_of (map (\<lambda>m. (memberDUID m, m)) (family_members ms f)) [];
               r1 = foldl add_layer_member ([], []) (workgroup_row_members fm (membership target))
           in if snd r1 \<noteq> [] then r1
              else (let r2 = foldl add_layer_member r1 (map snd (get_family_heads ms f))
                    in if snd r2 \<noteq> [] then r2
                       else (let r3 = foldl add_layer_member r2 (family_members ms f)
                             in if snd r3 \<noteq> [] then r3
                                else (fst r3, add_emails (snd r3)
                                  (map lower (case py_eMailAddresses f of None \<Rightarrow> [] | Some es \<Rightarrow> es)))))))"

definition BUSINESS_LOGISTICS_WORKGROUP_NAME :: string where
  "BUSINESS_LOGISTICS_WORKGROUP_NAME = ''Business Logistics Email''"

definition family_business_logistics_emails :: "members \<Rightarrow> family \<Rightarrow> rosters \<Rightarrow> string list" where
  "family_business_logistics_emails ms f wgs =
     snd (family_workgroup_emails ms f wgs BUSINESS_LOGISTICS_WORKGROUP_NAME)"

definition family_business_logistics_emails_members :: "members \<Rightarrow> family \<Rightarrow> rosters \<Rightarrow> member list" where
  "family_business_logistics_emails_members ms f wgs =
     fst (family_workgroup_emails ms f wgs BUSINESS_LOGISTICS_WORKGROUP_NAME)"

section \<open>Families rules\<close>

text \<open>A preset by name, or the Advanced rule with its three lists.\<close>

record family_rule =
  fr_rule :: string
  fr_registered :: bool
  fr_family_groups :: "int list"
  fr_member_statuses :: "string list"

definition FAMILY_RULE_PRESET_GROUPS :: "(string, string list) dict" where
  "FAMILY_RULE_PRESET_GROUPS =
     [(''active_parishioners'', [''Active'']), (''active_parishioners_and_staff'', [''Active'', ''Staff''])]"

definition NO_FAMILY_GROUP_ID :: int where
  "NO_FAMILY_GROUP_ID = 0"

definition NO_FAMILY_GROUP_NAME :: string where
  "NO_FAMILY_GROUP_NAME = ''No Family Group''"

definition family_rule_member_statuses :: "family_rule \<Rightarrow> string list" where
  "family_rule_member_statuses rule =
     (if map_of FAMILY_RULE_PRESET_GROUPS (fr_rule rule) \<noteq> None then [''Active'']
      else fr_member_statuses rule)"

definition member_matches_rule :: "member \<Rightarrow> family_rule option \<Rightarrow> bool" where
  "member_matches_rule m rule =
     (case rule of
        None \<Rightarrow> member_is_active m
      | Some r \<Rightarrow> (case memberStatus m of None \<Rightarrow> False
                   | Some s \<Rightarrow> s \<in> set (family_rule_member_statuses r)))"

definition family_in_rule_groups :: "family \<Rightarrow> family_rule \<Rightarrow> bool" where
  "family_in_rule_groups f rule =
     (case map_of FAMILY_RULE_PRESET_GROUPS (fr_rule rule) of
        Some groups \<Rightarrow> (case py_family_group f of None \<Rightarrow> False | Some n \<Rightarrow> n \<in> set groups)
      | None \<Rightarrow>
          (let chosen = set (fr_family_groups rule)
           in case famGroupID f of
                None \<Rightarrow> NO_FAMILY_GROUP_ID \<in> chosen
              | Some g \<Rightarrow>
                  if g = 0 then NO_FAMILY_GROUP_ID \<in> chosen
                  else g \<in> chosen \<or>
                    (NO_FAMILY_GROUP_ID \<in> chosen \<and> py_family_group f = Some NO_FAMILY_GROUP_NAME)))"

definition family_matches_rule :: "members \<Rightarrow> family \<Rightarrow> family_rule option \<Rightarrow> int option \<Rightarrow> bool" where
  "family_matches_rule ms f rule org_id =
     (case rule of
        None \<Rightarrow> family_is_active ms f \<and> family_is_parishioner f org_id
      | Some r \<Rightarrow>
          (let registered = map_of FAMILY_RULE_PRESET_GROUPS (fr_rule r) \<noteq> None \<or> fr_registered r
           in (\<not> registered \<or> family_is_parishioner f org_id) \<and> family_in_rule_groups f r \<and>
              list_ex (\<lambda>m. member_matches_rule m rule) (family_members ms f)))"

section \<open>What may be published\<close>

definition get_member_public_phones :: "member \<Rightarrow> (string \<times> string) list" where
  "get_member_public_phones m =
     (if \<not> family_PublishPhone m then []
      else List.map_filter (\<lambda>(value, phone_type).
             case value of None \<Rightarrow> None | Some n \<Rightarrow> if n = [] then None else Some (n, phone_type))
           [(mobilePhone m, ''cell''), (homePhone m, ''home'')])"

definition get_member_public_email :: "member \<Rightarrow> string option" where
  "get_member_public_email m =
     (if \<not> family_PublishEMail m then None
      else (case py_emailAddresses m of None \<Rightarrow> None | Some [] \<Rightarrow> None | Some (e # _) \<Rightarrow> Some e))"

definition get_member_public_emails :: "(string \<Rightarrow> bool) \<Rightarrow> member \<Rightarrow> string list" where
  "get_member_public_emails full_match m =
     (if \<not> family_PublishEMail m then [] else filter full_match (member_email_addresses m))"

section \<open>Salutations\<close>

definition salutation_for_members :: "member list \<Rightarrow> (string \<times> string) res" where
  "salutation_for_members members =
     (case members of
        [] \<Rightarrow> Inl (ConfigError ''salutation requires at least one member'' [] [])
      | [m] \<Rightarrow> Inr (get_member_preferred_first m, lastName m)
      | m0 # _ \<Rightarrow>
          (let first_names = map get_member_preferred_first members;
               final = last members
           in if list_all (\<lambda>m. lastName m = lastName m0) members then
                Inr (if length first_names = 2 then join '' and '' first_names
                     else join '', '' (butlast first_names) @ '', and '' @ last first_names,
                     lastName m0)
              else if length members = 2 then
                Inr (hd first_names @ '' '' @ lastName m0 @ '' and '' @ last first_names, lastName final)
              else
                Inr (join '', '' (map (\<lambda>m. get_member_preferred_first m @ '' '' @ lastName m) (butlast members)) @
                     '', and '' @ last first_names, lastName final)))"

end
