(* ===== verification/CC_Data.thy ===== *)
theory CC_Data
  imports PS_Rules Config
begin

text \<open>
  The Constant Contact data of \<open>constant_contact.py\<close>: lists and contacts, the cross-references
  \<open>link_cc_data\<close> and \<open>link_contacts_to_ps_members\<close> add, and the request bodies. Contacts and lists
  refer to each other by address and name; a contact's \<open>PS MEMBERS\<close> are the members themselves.
  The back-link \<open>CONTACT\<close> of a member is never read by the program and is left out.
\<close>

record cc_contact =
  cc_contact_id :: string
  cc_address :: string
  permission_to_send :: string
  first_name :: string
  last_name :: string
  list_memberships :: "string list"
  custom_fields :: "string list"
  cc_custom_names :: "string list"
  LIST_MEMBERSHIPS :: "string list"
  PS_MEMBERS :: "member list option"

record cc_list =
  list_id :: string
  list_name :: string
  CONTACTS :: "string list"

section \<open>Cross-references\<close>

definition index_member :: "(string, member list) dict \<Rightarrow> string \<times> member \<Rightarrow> (string, member list) dict" where
  "index_member d em =
     AList.update (fst em) ((case map_of d (fst em) of None \<Rightarrow> [] | Some xs \<Rightarrow> xs) @ [snd em]) d"

definition members_by_email :: "members \<Rightarrow> (string, member list) dict" where
  "members_by_email ms =
     foldl index_member []
       (concat (map (\<lambda>(_, m). map (\<lambda>e. (e, m)) (member_email_addresses m)) ms))"

text \<open>
  \<open>list_lookup\<close> maps an identifier to the last list that has it; every list in the lookup gets an
  empty index first, and each contact is entered under its lower-case address.
\<close>

definition lookup_list :: "cc_list list \<Rightarrow> string \<Rightarrow> nat option" where
  "lookup_list ls i = map_of (rev (map (\<lambda>(n, l). (list_id l, n)) (enumerate 0 ls))) i"

definition enter_contact :: "string \<Rightarrow> cc_list list \<Rightarrow> string \<Rightarrow> cc_list list" where
  "enter_contact email ls i =
     (case lookup_list ls i of
        None \<Rightarrow> ls
      | Some n \<Rightarrow>
          (let l = ls ! n
           in ls[n := l\<lparr>CONTACTS := if email \<in> set (CONTACTS l) then CONTACTS l
                                        else CONTACTS l @ [email]\<rparr>]))"

definition link_contact ::
  "(string, string) dict \<Rightarrow> cc_list list \<Rightarrow> cc_contact \<Rightarrow> (cc_list list \<times> cc_contact) res" where
  "link_contact field_lookup ls c =
     bind_res (map_res (\<lambda>i. case map_of field_lookup i of None \<Rightarrow> Inl (KeyError i) | Some n \<Rightarrow> Inr n)
        (custom_fields c)) (\<lambda>names.
     Inr (foldl (enter_contact (lower (cc_address c))) ls (list_memberships c),
          c\<lparr>cc_custom_names := names,
            LIST_MEMBERSHIPS := List.map_filter (\<lambda>i. map_option (\<lambda>n. list_name (ls ! n)) (lookup_list ls i))
              (list_memberships c)\<rparr>))"

fun link_contacts ::
  "(string, string) dict \<Rightarrow> cc_list list \<Rightarrow> cc_contact list \<Rightarrow> (cc_list list \<times> cc_contact list) res" where
  "link_contacts field_lookup ls [] = Inr (ls, [])"
| "link_contacts field_lookup ls (c # cs) =
     bind_res (link_contact field_lookup ls c) (\<lambda>(ls1, c').
     bind_res (link_contacts field_lookup ls1 cs) (\<lambda>(ls2, cs').
     Inr (ls2, c' # cs')))"

definition link_cc_data ::
  "cc_contact list \<Rightarrow> (string \<times> string) list \<Rightarrow> cc_list list \<Rightarrow> (cc_list list \<times> cc_contact list) res" where
  "link_cc_data contacts cfs ls =
     link_contacts (dict_of cfs [])
       (map (\<lambda>(n, l). if lookup_list ls (list_id l) = Some n then l\<lparr>CONTACTS := []\<rparr> else l) (enumerate 0 ls))
       contacts"

definition link_contacts_to_ps_members :: "cc_contact list \<Rightarrow> members \<Rightarrow> cc_contact list" where
  "link_contacts_to_ps_members contacts ms =
     map (\<lambda>c. case map_of (members_by_email ms) (lower (cc_address c)) of
                None \<Rightarrow> c | Some found \<Rightarrow> c\<lparr>PS_MEMBERS := Some found\<rparr>) contacts"

section \<open>Request bodies\<close>

record contact_body =
  cb_contact_id :: "string option"
  cb_address :: string
  cb_first :: string
  cb_last :: string
  cb_lists :: "string list"

definition strip_periods :: "string \<Rightarrow> string" where
  "strip_periods s = filter (\<lambda>c. c \<noteq> CHR ''.'') s"

text \<open>
  The bodies the sync builds hold exactly the fields below; the payload keeps them and strips
  periods from the first name.
\<close>

definition update_contact_body :: "contact_body \<Rightarrow> contact_body" where
  "update_contact_body b = b\<lparr>cb_contact_id := None, cb_first := strip_periods (cb_first b)\<rparr>"

definition sign_up_form_body :: "contact_body \<Rightarrow> contact_body" where
  "sign_up_form_body b = b\<lparr>cb_contact_id := None, cb_first := strip_periods (cb_first b)\<rparr>"

definition create_contact_dict :: "string \<Rightarrow> member list \<Rightarrow> contact_body res" where
  "create_contact_dict email ps_members =
     bind_res (salutation_for_members ps_members) (\<lambda>(first, lst).
     Inr \<lparr>cb_contact_id = None, cb_address = lower email, cb_first = first, cb_last = lst, cb_lists = []\<rparr>)"

end
