(* ===== verification/CC_Sync.thy ===== *)
theory CC_Sync
  imports CC_Data
begin

text \<open>
  The decisions of \<open>pk-sync-ps-to-cc\<close>: the configuration, the wanted addresses of every list, the
  opt-out filter, the guards, the computed actions and the request bodies made from them. Python
  sets of addresses are sets; \<open>sorted\<close> of a set is \<open>sorted_list_of_set\<close>. Parsing of an ISO time is
  the parameter \<open>iso_time\<close> (seconds after midnight of a local time, \<open>None\<close> when
  \<open>dt.time.fromisoformat\<close> fails or the time has a zone), resolution of a state path \<open>path_of\<close>.
\<close>

section \<open>Configuration\<close>

record cc_mapping =
  source_workgroup :: string
  target_list :: string
  cm_notifications :: "string list"
  cm_allow_empty :: bool
  cm_max_removals :: int
  cm_max_removal_fraction :: rat

record report_config =
  rc_enabled :: bool
  rc_day_of_week :: "int option"
  rc_time :: int
  rc_window_minutes :: int
  rc_state_file :: string

record cc_sync_config =
  cc_mappings :: "cc_mapping list"
  update_names :: bool
  cc_sender :: "string option"
  unsubscribed_report :: report_config

definition WEEKDAY_NAMES :: "(string, int) dict" where
  "WEEKDAY_NAMES =
     [(''monday'', 0), (''mon'', 0), (''tuesday'', 1), (''tue'', 1), (''wednesday'', 2), (''wed'', 2),
      (''thursday'', 3), (''thu'', 3), (''friday'', 4), (''fri'', 4), (''saturday'', 5), (''sat'', 5),
      (''sunday'', 6), (''sun'', 6)]"

definition as_day_of_week :: "pyval \<Rightarrow> string \<Rightarrow> int option res" where
  "as_day_of_week v name =
     (case v of
        PNone \<Rightarrow> Inr None
      | PStr s \<Rightarrow>
          if s = [] then Inr None
          else (case map_of WEEKDAY_NAMES (lower (strip s)) of
                  None \<Rightarrow> Inl (ConfigError ''must be a weekday name like monday, tuesday, or sunday'' [name] [])
                | Some d \<Rightarrow> Inr (Some d))
      | _ \<Rightarrow> Inl (ConfigError ''must be a weekday name'' [name] []))"

definition as_time :: "(string \<Rightarrow> int option) \<Rightarrow> pyval \<Rightarrow> string \<Rightarrow> int res" where
  "as_time iso_time v name =
     (case v of
        PStr s \<Rightarrow>
          if s = [] then Inl (ConfigError ''must be a time string like 02:00'' [name] [])
          else (case iso_time s of
                  None \<Rightarrow> Inl (ConfigError ''must be a time string like 02:00'' [name] [])
                | Some t \<Rightarrow> Inr t)
      | _ \<Rightarrow> Inl (ConfigError ''must be a time string like 02:00'' [name] []))"

definition as_path :: "(string \<Rightarrow> string) \<Rightarrow> pyval \<Rightarrow> string \<Rightarrow> string res" where
  "as_path path_of v name =
     (case v of
        PStr s \<Rightarrow> if s = [] then Inl (ConfigError ''must be a path string'' [name] []) else Inr (path_of s)
      | _ \<Rightarrow> Inl (ConfigError ''must be a path string'' [name] []))"

definition cc_mapping_of :: "pyval \<Rightarrow> string \<Rightarrow> cc_mapping res" where
  "cc_mapping_of value name =
     bind_res (as_mapping value name) (\<lambda>item.
     bind_res (reject_unknown_keys item
       [''source_workgroup'', ''source ps member wg'', ''target_list'', ''target cc list'',
        ''notifications'', ''allow_empty'', ''max_removals'', ''max_removal_fraction''] name) (\<lambda>_.
     bind_res (as_required_string (dget item ''source_workgroup'' (dget_none item ''source ps member wg''))
                 (name @ ''.source_workgroup'')) (\<lambda>wg.
     bind_res (as_required_string (dget item ''target_list'' (dget_none item ''target cc list''))
                 (name @ ''.target_list'')) (\<lambda>target.
     bind_res (as_string_list (dget item ''notifications'' (PList [])) (name @ ''.notifications'')) (\<lambda>ns.
     bind_res (as_bool (dget item ''allow_empty'' (PBool False)) (name @ ''.allow_empty'')) (\<lambda>ae.
     bind_res (as_positive_int (dget item ''max_removals'' (PInt 25)) (name @ ''.max_removals'')) (\<lambda>mr.
     bind_res (as_fraction (dget item ''max_removal_fraction'' (PFloat (1 / 2)))
                 (name @ ''.max_removal_fraction'')) (\<lambda>mrf.
     Inr \<lparr>source_workgroup = wg, target_list = target, cm_notifications = ns, cm_allow_empty = ae,
          cm_max_removals = mr, cm_max_removal_fraction = mrf\<rparr>))))))))"

definition unsubscribed_report_config_of ::
  "(string \<Rightarrow> int option) \<Rightarrow> (string \<Rightarrow> string) \<Rightarrow> string \<Rightarrow> pyval \<Rightarrow> string \<Rightarrow> report_config res" where
  "unsubscribed_report_config_of iso_time path_of default_state value name =
     bind_res (as_mapping value name) (\<lambda>item.
     bind_res (reject_unknown_keys item
       [''enabled'', ''day_of_week'', ''time'', ''window_minutes'', ''state_file''] name) (\<lambda>_.
     bind_res (as_bool (dget item ''enabled'' (PBool False)) (name @ ''.enabled'')) (\<lambda>enabled.
     bind_res (as_day_of_week (dget_none item ''day_of_week'') (name @ ''.day_of_week'')) (\<lambda>day.
     bind_res (as_time iso_time (dget item ''time'' (PStr ''02:00'')) (name @ ''.time'')) (\<lambda>t.
     bind_res (as_positive_int (dget item ''window_minutes'' (PInt 60)) (name @ ''.window_minutes'')) (\<lambda>w.
     bind_res (as_path path_of (dget item ''state_file'' (PStr default_state)) (name @ ''.state_file'')) (\<lambda>p.
     Inr \<lparr>rc_enabled = enabled, rc_day_of_week = day, rc_time = t, rc_window_minutes = w,
          rc_state_file = p\<rparr>)))))))"

fun duplicate_targets :: "cc_mapping list \<Rightarrow> string set \<Rightarrow> string list" where
  "duplicate_targets [] seen = []"
| "duplicate_targets (m # ms) seen =
     (let normalized = casefold (target_list m);
          rest = duplicate_targets ms (insert normalized seen)
      in if normalized \<in> seen then target_list m # rest else rest)"

definition validate_unique_target_lists :: "cc_mapping list \<Rightarrow> unit res" where
  "validate_unique_target_lists mappings =
     (let duplicates = duplicate_targets mappings {}
      in if duplicates \<noteq> []
         then Inl (ConfigError ''sync.lists[].target_list values must be unique'' duplicates [])
         else Inr ())"

definition cc_sync_config_from_yaml ::
  "(string \<Rightarrow> int option) \<Rightarrow> (string \<Rightarrow> string) \<Rightarrow> string \<Rightarrow> mapping_value \<Rightarrow> cc_sync_config res" where
  "cc_sync_config_from_yaml iso_time path_of default_state config =
     bind_res (as_mapping (dget config ''sync'' (PDict [])) ''sync'') (\<lambda>section.
     bind_res (reject_unknown_keys section
       [''lists'', ''notifications'', ''unsubscribed_report'', ''update_names''] ''sync'') (\<lambda>_.
     bind_res (as_list (dget_none section ''lists'') ''sync.lists'') (\<lambda>items.
     bind_res (map_res (\<lambda>(i, v). cc_mapping_of v (indexed ''sync.lists'' i)) (enumerate 0 items)) (\<lambda>mappings.
     bind_res (guard_res (mappings \<noteq> []) (ConfigError ''sync.lists must not be empty'' [] [])) (\<lambda>_.
     bind_res (validate_unique_target_lists mappings) (\<lambda>_.
     bind_res (as_mapping (dget section ''notifications'' (PDict [])) ''sync.notifications'') (\<lambda>notifications.
     bind_res (reject_unknown_keys notifications [''sender''] ''sync.notifications'') (\<lambda>_.
     bind_res (as_optional_string (dget_none notifications ''sender'') ''sync.notifications.sender'') (\<lambda>sender.
     bind_res (guard_res (\<not> ((\<exists>m\<in>set mappings. cm_notifications m \<noteq> []) \<and> sender = None))
                 (ConfigError ''sync.notifications.sender is required'' [] [])) (\<lambda>_.
     bind_res (unsubscribed_report_config_of iso_time path_of default_state
                 (dget section ''unsubscribed_report'' (PDict [])) ''sync.unsubscribed_report'') (\<lambda>report.
     bind_res (as_bool (dget section ''update_names'' (PBool False)) ''sync.update_names'') (\<lambda>un.
     Inr \<lparr>cc_mappings = mappings, update_names = un, cc_sender = sender,
          unsubscribed_report = report\<rparr>))))))))))))"

section \<open>Wanted addresses\<close>

definition roster_named :: "rosters \<Rightarrow> string \<Rightarrow> roster option" where
  "roster_named ros n = find (\<lambda>r. ro_name r = n) (rev (map snd ros))"

definition list_named :: "cc_list list \<Rightarrow> string \<Rightarrow> cc_list option" where
  "list_named ls n = find (\<lambda>l. list_name l = n) (rev ls)"

definition missing_workgroup_error :: "cc_mapping \<Rightarrow> exn" where
  "missing_workgroup_error m =
     ConfigError ''Configured ParishSoft member workgroup was not found'' [target_list m, source_workgroup m] []"

definition validate_configured_parishsoft_workgroups :: "cc_sync_config \<Rightarrow> rosters \<Rightarrow> unit res" where
  "validate_configured_parishsoft_workgroups config mwm =
     all_res (\<lambda>m. guard_res (roster_named mwm (source_workgroup m) \<noteq> None) (missing_workgroup_error m))
       (cc_mappings config)"

definition roster_emails :: "members \<Rightarrow> roster \<Rightarrow> string set" where
  "roster_emails ms wg =
     set (List.map_filter (\<lambda>item.
       case py_member_duid item of
         None \<Rightarrow> None
       | Some d \<Rightarrow>
           (case map_of ms d of
              None \<Rightarrow> None
            | Some m \<Rightarrow> (case member_email_addresses m of [] \<Rightarrow> None | e # _ \<Rightarrow> Some e)))
       (membership wg))"

definition resolve_desired_state ::
  "cc_sync_config \<Rightarrow> rosters \<Rightarrow> members \<Rightarrow> cc_list list \<Rightarrow> string set list res" where
  "resolve_desired_state config mwm ms ls =
     map_res (\<lambda>m.
       case list_named ls (target_list m) of
         None \<Rightarrow> Inl (ConfigError ''Configured Constant Contact list was not found'' [target_list m] [])
       | Some _ \<Rightarrow>
           (case roster_named mwm (source_workgroup m) of
              None \<Rightarrow> Inl (missing_workgroup_error m)
            | Some wg \<Rightarrow> Inr (roster_emails ms wg)))
       (cc_mappings config)"

section \<open>Opt-outs\<close>

type_synonym unsub_row = "string \<times> string \<times> string"

definition unsub_row_of :: "(string, member list) dict \<Rightarrow> string \<Rightarrow> unsub_row" where
  "unsub_row_of by_email email =
     (let ms = (case map_of by_email email of None \<Rightarrow> [] | Some xs \<Rightarrow> xs)
      in (email,
          join '', '' (map (\<lambda>m. case py_friendly_FL m of None \<Rightarrow> [] | Some n \<Rightarrow> n) ms),
          join '', '' (map (\<lambda>m. show_int (memberDUID m)) ms)))"

definition filter_contact ::
  "(string, member list) dict \<Rightarrow> (string set \<times> unsub_row list) list \<Rightarrow> cc_contact \<Rightarrow>
   (string set \<times> unsub_row list) list" where
  "filter_contact by_email state c =
     (if permission_to_send c \<noteq> ''unsubscribed'' then state
      else (let email = lower (cc_address c)
            in map (\<lambda>(desired, rows).
                 if email \<notin> desired then (desired, rows)
                 else (desired - {email}, rows @ [unsub_row_of by_email email])) state))"

text \<open>The filtered sets (the code mutates them) and the filtered rows, per mapping.\<close>

definition filter_unsubscribed ::
  "cc_contact list \<Rightarrow> string set list \<Rightarrow> (string, member list) dict \<Rightarrow> string set list \<times> unsub_row list list" where
  "filter_unsubscribed contacts desired_emails by_email =
     (let state = foldl (filter_contact by_email) (map (\<lambda>d. (d, [])) desired_emails) contacts
      in (map fst state, map snd state))"

section \<open>Guards\<close>

definition cc_removal_guard_tripped :: "int \<Rightarrow> int \<Rightarrow> int \<Rightarrow> rat \<Rightarrow> bool" where
  "cc_removal_guard_tripped removal_count current_count max_count max_fraction =
     (if current_count \<le> 0 \<or> removal_count \<le> max_count then False
      else of_int removal_count / of_int current_count > max_fraction)"

definition named_or_key_error :: "cc_list list \<Rightarrow> string \<Rightarrow> cc_list res" where
  "named_or_key_error ls n = (case list_named ls n of None \<Rightarrow> Inl (KeyError n) | Some l \<Rightarrow> Inr l)"

definition validate_non_empty_desired_state ::
  "cc_sync_config \<Rightarrow> string set list \<Rightarrow> cc_list list \<Rightarrow> unit res" where
  "validate_non_empty_desired_state config desired_emails ls =
     all_res (\<lambda>(i, m).
       if desired_emails ! i \<noteq> {} \<or> cm_allow_empty m then Inr ()
       else bind_res (named_or_key_error ls (target_list m)) (\<lambda>l.
              guard_res (CONTACTS l = [])
                (ConfigError ''Constant Contact list has current contacts, but no desired addresses''
                   [target_list m] [])))
       (enumerate 0 (cc_mappings config))"

section \<open>Actions\<close>

record cc_action =
  ca_type :: string
  ca_email :: string
  ca_sync_index :: "nat option"
  ca_detail :: string
  ca_list_name :: "string option"
  ca_list_uuid :: "string option"
  ca_new_first :: "string option"
  ca_new_last :: "string option"

definition create_action :: "nat \<Rightarrow> string \<Rightarrow> cc_action" where
  "create_action i email =
     \<lparr>ca_type = ''create'', ca_email = email, ca_sync_index = Some i,
      ca_detail = ''Create contact for '' @ email, ca_list_name = None, ca_list_uuid = None,
      ca_new_first = None, ca_new_last = None\<rparr>"

definition list_action :: "string \<Rightarrow> string \<Rightarrow> nat \<Rightarrow> cc_mapping \<Rightarrow> string \<Rightarrow> string \<Rightarrow> cc_action" where
  "list_action ty verb i m uuid email =
     \<lparr>ca_type = ty, ca_email = email, ca_sync_index = Some i,
      ca_detail = verb @ target_list m, ca_list_name = Some (target_list m), ca_list_uuid = Some uuid,
      ca_new_first = None, ca_new_last = None\<rparr>"

definition compute_create_actions :: "string set list \<Rightarrow> (string, cc_contact) dict \<Rightarrow> cc_action list" where
  "compute_create_actions desired_emails contacts_by_email =
     map (\<lambda>email. create_action (the (find_index (\<lambda>emails. email \<in> emails) desired_emails)) email)
       (sorted_list_of_set (\<Union> (set desired_emails) - fst ` set contacts_by_email))"

definition list_actions :: "nat \<Rightarrow> cc_mapping \<Rightarrow> string set \<Rightarrow> cc_list \<Rightarrow> cc_action list" where
  "list_actions i m desired l =
     map (\<lambda>e. list_action ''subscribe'' (''Subscribe '' @ e @ '' to '') i m (list_id l) e)
       (sorted_list_of_set (desired - set (CONTACTS l))) @
     map (\<lambda>e. list_action ''unsubscribe'' (''Unsubscribe '' @ e @ '' from '') i m (list_id l) e)
       (sorted_list_of_set (set (CONTACTS l) - desired))"

definition compute_subscribe_unsubscribe_actions ::
  "cc_sync_config \<Rightarrow> string set list \<Rightarrow> cc_list list \<Rightarrow> cc_action list res" where
  "compute_subscribe_unsubscribe_actions config desired_emails ls =
     bind_res (map_res (\<lambda>(i, m). bind_res (named_or_key_error ls (target_list m)) (\<lambda>l.
                 Inr (list_actions i m (desired_emails ! i) l)))
               (enumerate 0 (cc_mappings config)))
       (\<lambda>ass. Inr (concat ass))"

definition compute_all_actions ::
  "cc_sync_config \<Rightarrow> string set list \<Rightarrow> cc_list list \<Rightarrow> (string, cc_contact) dict \<Rightarrow> cc_action list res" where
  "compute_all_actions config desired_emails ls contacts_by_email =
     bind_res (compute_subscribe_unsubscribe_actions config desired_emails ls) (\<lambda>subs.
       Inr (compute_create_actions desired_emails contacts_by_email @ subs))"

definition cc_validate_large_removal_guard ::
  "cc_sync_config \<Rightarrow> cc_action list \<Rightarrow> cc_list list \<Rightarrow> unit res" where
  "cc_validate_large_removal_guard config actions ls =
     all_res (\<lambda>(i, m).
       bind_res (named_or_key_error ls (target_list m)) (\<lambda>l.
       let removals = filter (\<lambda>a. ca_sync_index a = Some i \<and> ca_type a = ''unsubscribe'') actions;
           current_count = int (length (CONTACTS l))
       in guard_res (\<not> cc_removal_guard_tripped (int (length removals)) current_count
                          (cm_max_removals m) (cm_max_removal_fraction m))
            (ConfigError ''Constant Contact list would remove current contact(s)'' [target_list m]
               [int (length removals), current_count])))
       (enumerate 0 (cc_mappings config))"

definition name_update_candidate_sync_indices ::
  "cc_sync_config \<Rightarrow> string set list \<Rightarrow> cc_list list \<Rightarrow> (string \<Rightarrow> nat list) res" where
  "name_update_candidate_sync_indices config desired_emails ls =
     bind_res (map_res (\<lambda>(i, m). bind_res (named_or_key_error ls (target_list m)) (\<lambda>l.
                 Inr (i, desired_emails ! i \<union> set (CONTACTS l)))) (enumerate 0 (cc_mappings config)))
       (\<lambda>scopes. Inr (\<lambda>email. map fst (filter (\<lambda>(_, scope). email \<in> scope) scopes)))"

definition name_action :: "string \<Rightarrow> string \<Rightarrow> string \<Rightarrow> nat \<Rightarrow> cc_action" where
  "name_action email first lst i =
     \<lparr>ca_type = ''update_name'', ca_email = email, ca_sync_index = Some i,
      ca_detail = ''Update name for '' @ email, ca_list_name = None, ca_list_uuid = None,
      ca_new_first = Some first, ca_new_last = Some lst\<rparr>"

text \<open>\<open>detect_name_mismatches\<close> as the run calls it, with \<open>candidate_sync_indices\<close>.\<close>

definition contact_name_actions :: "(string \<Rightarrow> nat list) \<Rightarrow> string \<times> cc_contact \<Rightarrow> cc_action list res" where
  "contact_name_actions indices ec =
     (let (email, c) = ec
      in if indices email = [] then Inr []
         else (case PS_MEMBERS c of
                 None \<Rightarrow> Inr []
               | Some ms \<Rightarrow>
                   if ms = [] then Inr []
                   else bind_res (salutation_for_members ms) (\<lambda>(first, lst).
                          let first = strip_periods first
                          in Inr (if first = first_name c \<and> lst = last_name c then []
                                  else map (name_action email first lst) (indices email)))))"

definition detect_name_mismatches ::
  "bool \<Rightarrow> (string \<Rightarrow> nat list) \<Rightarrow> (string, cc_contact) dict \<Rightarrow> cc_action list res" where
  "detect_name_mismatches update indices contacts_by_email =
     (if \<not> update then Inr []
      else bind_res (map_res (contact_name_actions indices) contacts_by_email) (\<lambda>ass. Inr (concat ass)))"

section \<open>Request bodies\<close>

definition post_body_for_actions ::
  "string \<Rightarrow> cc_action list \<Rightarrow> (string, cc_contact) dict \<Rightarrow> (string, member list) dict \<Rightarrow>
   contact_body option res" where
  "post_body_for_actions email actions contacts_by_email by_email =
     (let creates = filter (\<lambda>a. ca_type a = ''create'') actions;
          subscribes = filter (\<lambda>a. ca_type a = ''subscribe'') actions;
          uuids = List.map_filter (\<lambda>a. case ca_list_uuid a of None \<Rightarrow> None
                    | Some u \<Rightarrow> if u = [] then None else Some u) subscribes
      in if creates = [] \<and> subscribes = [] then Inr None
         else bind_res
           (if creates \<noteq> [] then
              (case map_of by_email email of
                 None \<Rightarrow> Inl (KeyError email)
               | Some ms \<Rightarrow> create_contact_dict email ms)
            else
              (case map_of contacts_by_email email of
                 None \<Rightarrow> Inl (KeyError email)
               | Some c \<Rightarrow> Inr \<lparr>cb_contact_id = None, cb_address = email, cb_first = first_name c,
                                cb_last = last_name c, cb_lists = []\<rparr>))
           (\<lambda>body. Inr (Some (body\<lparr>cb_lists := uuids\<rparr>))))"

definition remove_uuid :: "string list \<Rightarrow> cc_action \<Rightarrow> string list" where
  "remove_uuid ids a = (case ca_list_uuid a of None \<Rightarrow> ids | Some u \<Rightarrow> remove1 u ids)"

definition or_string :: "string option \<Rightarrow> string \<Rightarrow> string" where
  "or_string v dflt = (case v of None \<Rightarrow> dflt | Some s \<Rightarrow> if s = [] then dflt else s)"

definition put_body_for_actions ::
  "string \<Rightarrow> cc_action list \<Rightarrow> (string, cc_contact) dict \<Rightarrow> contact_body option res" where
  "put_body_for_actions email actions contacts_by_email =
     (let unsubscribes = filter (\<lambda>a. ca_type a = ''unsubscribe'') actions;
          name_updates = filter (\<lambda>a. ca_type a = ''update_name'') actions
      in if unsubscribes = [] \<and> name_updates = [] then Inr None
         else (case map_of contacts_by_email email of
                 None \<Rightarrow> Inl (KeyError email)
               | Some c \<Rightarrow>
                   (let body = \<lparr>cb_contact_id = Some (cc_contact_id c), cb_address = cc_address c,
                          cb_first = first_name c, cb_last = last_name c,
                          cb_lists = foldl remove_uuid (list_memberships c) unsubscribes\<rparr>
                    in Inr (Some (if name_updates = [] then body
                         else body\<lparr>cb_first := or_string (ca_new_first (last name_updates)) (cb_first body),
                                   cb_last := or_string (ca_new_last (last name_updates)) (cb_last body)\<rparr>)))))"

text \<open>The subscribed lists are folded into the update when a contact has both requests.\<close>

definition merge_lists :: "string list \<Rightarrow> string list \<Rightarrow> string list" where
  "merge_lists put post = foldl (\<lambda>ids i. if i \<in> set ids then ids else ids @ [i]) put post"

definition contact_bodies ::
  "(string, cc_contact) dict \<Rightarrow> (string, member list) dict \<Rightarrow> string \<times> cc_action list \<Rightarrow>
   (contact_body option \<times> contact_body option) res" where
  "contact_bodies contacts_by_email by_email ea =
     bind_res (post_body_for_actions (fst ea) (snd ea) contacts_by_email by_email) (\<lambda>post.
     bind_res (put_body_for_actions (fst ea) (snd ea) contacts_by_email) (\<lambda>put.
     Inr (case (post, put) of
            (Some b, Some b') \<Rightarrow> (post, Some (b'\<lparr>cb_lists := merge_lists (cb_lists b') (cb_lists b)\<rparr>))
          | _ \<Rightarrow> (post, put))))"

definition add_to_group :: "(string, cc_action list) dict \<Rightarrow> cc_action \<Rightarrow> (string, cc_action list) dict" where
  "add_to_group d a =
     AList.update (ca_email a) ((case map_of d (ca_email a) of None \<Rightarrow> [] | Some xs \<Rightarrow> xs) @ [a]) d"

definition group_by_email :: "cc_action list \<Rightarrow> (string, cc_action list) dict" where
  "group_by_email actions = foldl add_to_group [] actions"

end
