(* ===== verification/Json_Text.thy ===== *)
theory Json_Text
  imports Prelude
begin

text \<open>
  JSON string literals as \<open>json.dumps\<close> writes them, with and without \<open>ensure_ascii\<close>, and a decoder that
  shows that they lose nothing.
\<close>

definition hex_digit :: "nat \<Rightarrow> char" where
  "hex_digit n = (if n < 10 then char_of (48 + n) else char_of (87 + n))"

text \<open>
  A character of a JSON string: quotes, backslashes and control characters are escaped, and with
  \<open>ensure_ascii\<close> everything outside the printable ASCII range.
\<close>

definition json_char :: "bool \<Rightarrow> char \<Rightarrow> string" where
  "json_char ascii c =
     (let n = (of_char c :: nat)
      in if n = 34 then [CHR 0x5C, CHR 0x22]
         else if n = 92 then [CHR 0x5C, CHR 0x5C]
         else if n = 8 then [CHR 0x5C, CHR ''b'']
         else if n = 9 then [CHR 0x5C, CHR ''t'']
         else if n = 10 then [CHR 0x5C, CHR ''n'']
         else if n = 12 then [CHR 0x5C, CHR ''f'']
         else if n = 13 then [CHR 0x5C, CHR ''r'']
         else if 32 \<le> n \<and> (n \<le> 126 \<or> \<not> ascii) then [c]
         else [CHR 0x5C, CHR ''u'', CHR ''0'', CHR ''0'', hex_digit (n div 16), hex_digit (n mod 16)])"

definition json_string :: "bool \<Rightarrow> string \<Rightarrow> string" where
  "json_string ascii s = [CHR 0x22] @ concat (map (json_char ascii) s) @ [CHR 0x22]"

text \<open>A decoder for the characters of a JSON string shows that the encoding loses nothing.\<close>

definition hex_value :: "char \<Rightarrow> nat" where
  "hex_value c = (let n = of_char c in if n < 58 then n - 48 else n - 87)"

definition json_decode :: "string \<Rightarrow> char \<times> string" where
  "json_decode s =
     (if hd s \<noteq> CHR 0x5C then (hd s, tl s)
      else if s ! 1 = CHR ''b'' then (char_of (8 :: nat), drop 2 s)
      else if s ! 1 = CHR ''t'' then (char_of (9 :: nat), drop 2 s)
      else if s ! 1 = CHR ''n'' then (char_of (10 :: nat), drop 2 s)
      else if s ! 1 = CHR ''f'' then (char_of (12 :: nat), drop 2 s)
      else if s ! 1 = CHR ''r'' then (char_of (13 :: nat), drop 2 s)
      else if s ! 1 = CHR ''u'' then (char_of (16 * hex_value (s ! 4) + hex_value (s ! 5)), drop 6 s)
      else (s ! 1, drop 2 s))"

lemma hex_value_digit: "n < 16 \<Longrightarrow> hex_value (hex_digit n) = n"
  by (simp add: hex_value_def hex_digit_def Let_def)

lemma of_char_eq: "(of_char c :: nat) = n \<Longrightarrow> c = char_of n"
  by auto

lemma json_decode_char: "json_decode (json_char ascii c @ u) = (c, u)"
proof -
  let ?n = "of_char c :: nat"
  have small: "?n < 256" by simp
  consider "?n \<in> {34, 92, 8, 9, 10, 12, 13}" | "?n \<notin> {34, 92}" "32 \<le> ?n" "?n \<le> 126 \<or> \<not> ascii"
    | "?n \<notin> {34, 92, 8, 9, 10, 12, 13}" "\<not> (32 \<le> ?n \<and> (?n \<le> 126 \<or> \<not> ascii))" by auto
  then show ?thesis
  proof cases
    case 1
    moreover have "char_of (34 :: nat) = CHR 0x22" "char_of (92 :: nat) = CHR 0x5C" by code_simp+
    ultimately show ?thesis by (auto simp: json_char_def json_decode_def dest!: of_char_eq)
  next
    case 2
    then have "json_char ascii c = [c]" by (auto simp: json_char_def Let_def)
    moreover have "c \<noteq> CHR 0x5C" using 2 by auto
    ultimately show ?thesis by (simp add: json_decode_def)
  next
    case 3
    then have "json_char ascii c = [CHR 0x5C, CHR ''u'', CHR ''0'', CHR ''0'', hex_digit (?n div 16), hex_digit (?n mod 16)]"
      by (auto simp: json_char_def Let_def)
    moreover have "?n div 16 < 16" using small by linarith
    then have "hex_value (hex_digit (?n div 16)) = ?n div 16" "hex_value (hex_digit (?n mod 16)) = ?n mod 16"
      by (auto intro!: hex_value_digit)
    ultimately show ?thesis by (simp add: json_decode_def)
  qed
qed

lemma json_char_hd: "hd (json_char ascii c) \<noteq> CHR 0x22" "json_char ascii c \<noteq> []"
proof -
  have "(of_char c :: nat) = 34" if "c = CHR 0x22" using that by simp
  then show "hd (json_char ascii c) \<noteq> CHR 0x22" by (auto simp: json_char_def Let_def)
  show "json_char ascii c \<noteq> []" by (auto simp: json_char_def Let_def)
qed

lemma json_body_inj:
  "concat (map (json_char ascii) s) @ CHR 0x22 # x = concat (map (json_char ascii) t) @ CHR 0x22 # y \<Longrightarrow> s = t \<and> x = y"
proof (induction s arbitrary: t)
  case Nil
  then show ?case using json_char_hd by (cases t) (auto, metis hd_append2 list.sel(1))
next
  case (Cons c s)
  show ?case
  proof (cases t)
    case Nil
    with Cons.prems show ?thesis using json_char_hd by auto (metis hd_append2 list.sel(1))
  next
    case (Cons d t')
    with Cons.prems have "json_decode (json_char ascii c @ concat (map (json_char ascii) s) @ CHR 0x22 # x) =
        json_decode (json_char ascii d @ concat (map (json_char ascii) t') @ CHR 0x22 # y)" by simp
    then show ?thesis unfolding json_decode_char using Cons.IH [of t'] Cons by simp
  qed
qed

lemma json_string_inj: "json_string ascii s @ x = json_string ascii t @ y \<Longrightarrow> s = t \<and> x = y"
  using json_body_inj [of ascii s x t y] by (simp add: json_string_def)

end
