(* ===== verification/CC_Report.thy ===== *)
theory CC_Report
  imports CC_Sync Email Dates Json_Text
begin

text \<open>
  The e-mails of \<open>pk-sync-ps-to-cc\<close> and the schedule and state of its standalone report of
  unsubscribed contacts. A local time is a date and the seconds after midnight; the formatted time
  stamps of the messages are parameters. The state file is a JSON object, represented as in
  \<open>Config\<close>.
\<close>

section \<open>The schedule\<close>

record instant =
  in_date :: date
  in_seconds :: int

record report_decision =
  rd_due :: bool
  rd_reason :: string
  rd_run_date :: string

definition weekday_name :: "int \<Rightarrow> string" where
  "weekday_name i =
     [''monday'', ''tuesday'', ''wednesday'', ''thursday'', ''friday'', ''saturday'', ''sunday''] ! nat i"

definition hour_minute :: "int \<Rightarrow> string" where
  "hour_minute t = pad_zero 2 (show_nat (nat (t div 3600))) @ '':'' @ pad_zero 2 (show_nat (nat (t div 60 mod 60)))"

definition last_unsubscribed_report_date :: "mapping_value \<Rightarrow> string option res" where
  "last_unsubscribed_report_date payload =
     (case dget_none payload ''last_sent_date'' of
        PNone \<Rightarrow> Inr None
      | PStr s \<Rightarrow> Inr (Some s)
      | _ \<Rightarrow> Inl (ConfigError ''last_sent_date must be a string'' [] []))"

text \<open>\<open>read_state\<close> reads the state file; it is read only inside the window.\<close>

definition unsubscribed_report_decision ::
  "report_config \<Rightarrow> instant \<Rightarrow> ('w, mapping_value) action \<Rightarrow> ('w, report_decision) action" where
  "unsubscribed_report_decision config now read_state =
     (let run_date = isoformat (in_date now);
          no = (\<lambda>reason. \<lparr>rd_due = False, rd_reason = reason, rd_run_date = run_date\<rparr>);
          elapsed = in_seconds now - rc_time config
      in if \<not> rc_enabled config then pure_act (Inr (no ''disabled''))
         else if (case rc_day_of_week config of None \<Rightarrow> False | Some d \<Rightarrow> weekday (in_date now) \<noteq> d) then
           pure_act (Inr (no (''not configured weekday '' @ weekday_name (the (rc_day_of_week config)))))
         else if elapsed < 0 then pure_act (Inr (no (''before daily '' @ hour_minute (rc_time config))))
         else if elapsed \<ge> 60 * rc_window_minutes config then
           pure_act (Inr (no (''after daily '' @ hour_minute (rc_time config))))
         else
           bind_act read_state (\<lambda>payload.
           bind_act (pure_act (last_unsubscribed_report_date payload)) (\<lambda>last_sent.
             if last_sent = Some run_date then pure_act (Inr (no (''already sent for '' @ run_date)))
             else pure_act (Inr \<lparr>rd_due = True, rd_reason = ''due for '' @ run_date, rd_run_date = run_date\<rparr>))))"

section \<open>The state file\<close>

definition report_mapping_key :: "cc_mapping \<Rightarrow> string" where
  "report_mapping_key m =
     ''['' @ json_string True (source_workgroup m) @ '','' @ json_string True (target_list m) @ '']''"

definition unsubscribed_report_mapping_sent :: "mapping_value \<Rightarrow> string \<Rightarrow> cc_mapping \<Rightarrow> bool" where
  "unsubscribed_report_mapping_sent state run_date m =
     (case dget_none state ''sent_reports'' of
        PDict sent_reports \<Rightarrow>
          (case dget_none sent_reports run_date of
             PList keys \<Rightarrow> PStr (report_mapping_key m) \<in> set keys
           | _ \<Rightarrow> False)
      | _ \<Rightarrow> False)"

definition marked_state :: "mapping_value \<Rightarrow> string \<Rightarrow> cc_mapping \<Rightarrow> string \<Rightarrow> mapping_value" where
  "marked_state state run_date m stamp =
     (let sent_reports = (case dget state ''sent_reports'' (PDict []) of PDict d \<Rightarrow> d | _ \<Rightarrow> []);
          keys = (case dget sent_reports run_date (PList []) of PList xs \<Rightarrow> xs | _ \<Rightarrow> []);
          key = PStr (report_mapping_key m);
          keys' = (if key \<in> set keys then keys else keys @ [key])
      in AList.update ''last_mapping_sent_at'' (PStr stamp)
           (AList.update ''sent_reports'' (PDict (AList.update run_date (PList keys') sent_reports)) state))"

definition sent_state :: "mapping_value \<Rightarrow> string \<Rightarrow> string \<Rightarrow> mapping_value" where
  "sent_state state run_date stamp =
     AList.update ''last_sent_at'' (PStr stamp) (AList.update ''last_sent_date'' (PStr run_date) state)"

section \<open>Wording of the messages\<close>

fun words_aux :: "string \<Rightarrow> string \<Rightarrow> string list" where
  "words_aux acc [] = (if acc = [] then [] else [rev acc])"
| "words_aux acc (c # cs) =
     (if is_space c then (if acc = [] then words_aux [] cs else rev acc # words_aux [] cs)
      else words_aux (c # acc) cs)"

definition split_ws :: "string \<Rightarrow> string list" where
  "split_ws s = words_aux [] s"

definition unsubscribed_sort_key :: "unsub_row \<Rightarrow> string \<times> string" where
  "unsubscribed_sort_key row =
     (let parts = split_ws (strip (hd (split_on CHR '','' (fst (snd row)))))
      in if parts = [] then ([], []) else (lower (last parts), lower (hd parts)))"

definition CC_EMAIL_TABLE_STYLE :: string where
  "CC_EMAIL_TABLE_STYLE = ''border-collapse: collapse; margin-bottom: 20px; width: auto;''"

definition CC_EMAIL_HEADER_STYLE :: string where
  "CC_EMAIL_HEADER_STYLE = ''border: 1px solid #dddddd; padding: 8px; text-align: center; '' @
     ''background-color: #4472C4; color: white; white-space: nowrap;''"

definition cc_email_cell_style :: "nat \<Rightarrow> string" where
  "cc_email_cell_style row =
     ''border: 1px solid #dddddd; padding: 8px; '' @
     ''background-color: '' @ (if row mod 2 = 0 then ''#f2f2f2'' else ''#ffffff'') @ ''; white-space: nowrap;''"

definition action_order :: "string \<Rightarrow> nat" where
  "action_order ty =
     (if ty = ''create'' then 0 else if ty = ''subscribe'' then 1 else if ty = ''unsubscribe'' then 2
      else if ty = ''update_name'' then 3 else 99)"

definition cc_action_label :: "cc_action \<Rightarrow> string" where
  "cc_action_label a = map (\<lambda>c. if c = CHR ''_'' then CHR '' '' else c) (ca_type a)"

definition unsubscribed_count_summary :: "nat \<Rightarrow> nat option \<Rightarrow> string" where
  "unsubscribed_count_summary visible suppressed =
     (case suppressed of None \<Rightarrow> show_nat visible
      | Some n \<Rightarrow> show_nat n @ '' (handled by scheduled report)'')"

definition cc_contact_names_and_duids ::
  "string \<Rightarrow> (string, cc_contact) dict \<Rightarrow> (string, member list) dict \<Rightarrow> string \<times> string" where
  "cc_contact_names_and_duids email contacts_by_email by_email =
     (let contact = map_of contacts_by_email email;
          linked = (case contact of None \<Rightarrow> [] | Some c \<Rightarrow> (case PS_MEMBERS c of None \<Rightarrow> [] | Some ms \<Rightarrow> ms));
          ms = (if linked \<noteq> [] then linked
                else (case map_of by_email email of None \<Rightarrow> [] | Some xs \<Rightarrow> xs))
      in if ms \<noteq> [] then
           (join '', '' (map (\<lambda>m. case py_friendly_FL m of None \<Rightarrow> [] | Some n \<Rightarrow> n) ms),
            join '', '' (map (\<lambda>m. show_int (memberDUID m)) ms))
         else (strip ((case contact of None \<Rightarrow> [] | Some c \<Rightarrow> first_name c) @ '' '' @
                      (case contact of None \<Rightarrow> [] | Some c \<Rightarrow> last_name c)), []))"

section \<open>The messages\<close>

definition q :: string where
  "q = [CHR 0x22]"

definition cc_td :: "nat \<Rightarrow> string \<Rightarrow> string" where
  "cc_td row content = ''<td style='' @ q @ cc_email_cell_style row @ q @ ''>'' @ html_escape content @ ''</td>''"

definition cc_th :: "string \<Rightarrow> string" where
  "cc_th label = ''<th style='' @ q @ CC_EMAIL_HEADER_STYLE @ q @ ''>'' @ label @ ''</th>''"

definition unsub_html_row :: "nat \<times> unsub_row \<Rightarrow> string" where
  "unsub_html_row ir =
     (let (row, (email, names, duids)) = ir
      in ''<tr>'' @ cc_td row names @ cc_td row duids @ cc_td row email @ ''</tr>'')"

definition sorted_unsubscribed :: "unsub_row list \<Rightarrow> unsub_row list" where
  "sorted_unsubscribed rows = sort_key (\<lambda>r. fst (unsubscribed_sort_key r)) (sort_key (\<lambda>r. snd (unsubscribed_sort_key r)) rows)"

definition sorted_actions :: "cc_action list \<Rightarrow> cc_action list" where
  "sorted_actions as = sort_key (\<lambda>a. action_order (ca_type a)) (sort_key ca_email (sort_key ca_detail as))"

definition cc_action_row ::
  "(string, cc_contact) dict \<Rightarrow> (string, member list) dict \<Rightarrow> nat \<times> cc_action \<Rightarrow> string" where
  "cc_action_row contacts_by_email by_email ia =
     (let (row, a) = ia;
          (names, duids) = cc_contact_names_and_duids (ca_email a) contacts_by_email by_email
      in ''<tr>'' @ cc_td row (cc_action_label a) @ cc_td row names @ cc_td row duids @
         cc_td row (ca_email a) @ ''</tr>'')"

definition cc_text_lines ::
  "cc_mapping \<Rightarrow> cc_action list \<Rightarrow> unsub_row list \<Rightarrow> string \<Rightarrow> nat option \<Rightarrow> string list" where
  "cc_text_lines m actions unsubscribed stamp suppressed =
     [''Constant Contact sync update: '' @ target_list m,
      ''Generated: '' @ stamp,
      ''ParishSoft Member Workgroup: '' @ source_workgroup m,
      ''Constant Contact List: '' @ target_list m,
      [],
      ''Summary:'',
      ''- Contacts created: '' @ show_nat (length (filter (\<lambda>a. ca_type a = ''create'') actions)),
      ''- Contacts subscribed: '' @ show_nat (length (filter (\<lambda>a. ca_type a = ''subscribe'') actions)),
      ''- Contacts unsubscribed: '' @ show_nat (length (filter (\<lambda>a. ca_type a = ''unsubscribe'') actions)),
      ''- Unsubscribed contacts filtered: '' @ unsubscribed_count_summary (length unsubscribed) suppressed,
      []] @
     map ca_detail actions @
     map (\<lambda>(email, names, duids). ''Unsubscribed contact filtered: '' @ names @ '' ('' @ duids @ '') '' @ email)
       unsubscribed"

definition cc_html ::
  "cc_mapping \<Rightarrow> cc_action list \<Rightarrow> unsub_row list \<Rightarrow> (string, cc_contact) dict \<Rightarrow> (string, member list) dict \<Rightarrow>
   string \<Rightarrow> nat option \<Rightarrow> string" where
  "cc_html m actions unsubscribed contacts_by_email by_email stamp suppressed =
     ''<html><body style='' @ q @ ''font-family: Arial, sans-serif; font-size: 14px;'' @ q @ ''>'' @
     ''<h2 style='' @ q @ ''color: #333333;'' @ q @ ''>Constant Contact Sync Update: '' @
     html_escape (target_list m) @ ''</h2>'' @
     ''<p style='' @ q @ ''color: #666666;'' @ q @ ''>Generated: '' @ html_escape stamp @ ''</p>'' @
     ''<p><strong>ParishSoft Member Workgroup:</strong> '' @ html_escape (source_workgroup m) @ ''<br>'' @
     ''<strong>Constant Contact List:</strong> '' @ html_escape (target_list m) @ ''</p>'' @
     ''<h3>Summary</h3><ul>'' @
     ''<li>Contacts created: '' @ show_nat (length (filter (\<lambda>a. ca_type a = ''create'') actions)) @ ''</li>'' @
     ''<li>Contacts subscribed: '' @ show_nat (length (filter (\<lambda>a. ca_type a = ''subscribe'') actions)) @ ''</li>'' @
     ''<li>Contacts unsubscribed: '' @ show_nat (length (filter (\<lambda>a. ca_type a = ''unsubscribe'') actions)) @ ''</li>'' @
     ''<li>Unsubscribed contacts filtered: '' @
       html_escape (unsubscribed_count_summary (length unsubscribed) suppressed) @ ''</li>'' @
     ''</ul>'' @
     (if actions = [] then []
      else ''<h3>Actions Performed</h3>'' @ ''<table style='' @ q @ CC_EMAIL_TABLE_STYLE @ q @ ''><tr>'' @
        cc_th ''Action'' @ cc_th ''Contact Name(s)'' @ cc_th ''ParishSoft Member DUID(s)'' @ cc_th ''Email'' @ ''</tr>'' @
        concat (map (cc_action_row contacts_by_email by_email) (enumerate 0 (sorted_actions actions))) @ ''</table>'') @
     (if unsubscribed = [] then []
      else ''<h3 style='' @ q @ ''color: #cc0000;'' @ q @ ''>Filtered Unsubscribed Contacts</h3>'' @
        ''<table style='' @ q @ CC_EMAIL_TABLE_STYLE @ q @ ''><tr>'' @
        cc_th ''Contact Name(s)'' @ cc_th ''ParishSoft Member DUID(s)'' @ cc_th ''Email'' @ ''</tr>'' @
        concat (map unsub_html_row (enumerate 0 (sorted_unsubscribed unsubscribed))) @ ''</table>'') @
     ''<hr style='' @ q @ ''border: 1px solid #dddddd; margin-top: 30px;'' @ q @ ''>'' @
     ''<p style='' @ q @ ''color: #999999; font-size: 12px;'' @ q @ ''>'' @
     ''This is an automated message from the ParishSoft to Constant '' @
     ''Contact synchronization script.</p>'' @ ''</body></html>''"

definition cc_build_notification_email ::
  "cc_mapping \<Rightarrow> cc_action list \<Rightarrow> unsub_row list \<Rightarrow> (string, cc_contact) dict \<Rightarrow> (string, member list) dict \<Rightarrow>
   string \<Rightarrow> string \<Rightarrow> nat option \<Rightarrow> email" where
  "cc_build_notification_email m actions unsubscribed contacts_by_email by_email sender stamp suppressed =
     \<lparr>em_subject = ''Constant Contact sync update: '' @ target_list m, em_sender = sender,
      em_to = cm_notifications m,
      em_text = Some (join [CHR 0x0A] (cc_text_lines m actions unsubscribed stamp suppressed)),
      em_html = Some (cc_html m actions unsubscribed contacts_by_email by_email stamp suppressed)\<rparr>"

definition report_text_lines :: "cc_mapping \<Rightarrow> unsub_row list \<Rightarrow> string \<Rightarrow> string list" where
  "report_text_lines m rows stamp =
     [''Constant Contact unsubscribed contacts report: '' @ target_list m,
      ''Generated: '' @ stamp,
      [],
      ''The following ParishSoft Members are in the '' @ [CHR 0x27] @ source_workgroup m @ [CHR 0x27] @
        '' workgroup but have manually unsubscribed '' @ ''from Constant Contact.'',
      [],
      ''These ParishSoft Members should be removed from the '' @ [CHR 0x27] @ source_workgroup m @ [CHR 0x27] @
        '' workgroup in ParishSoft.'',
      []] @
     map (\<lambda>(email, names, duids). ''- '' @ names @ '' (DUID: '' @ duids @ ''): '' @ email) (sorted_unsubscribed rows)"

definition unsub_report_html :: "cc_mapping \<Rightarrow> unsub_row list \<Rightarrow> string \<Rightarrow> string" where
  "unsub_report_html m rows stamp =
     ''<html><body style='' @ q @ ''font-family: Arial, sans-serif; font-size: 14px;'' @ q @ ''>'' @
     ''<h2 style='' @ q @ ''color: #333333;'' @ q @ ''>Constant Contact Unsubscribed '' @
     ''Contacts Report: '' @ html_escape (target_list m) @ ''</h2>'' @
     ''<p style='' @ q @ ''color: #666666;'' @ q @ ''>Generated: '' @ html_escape stamp @ ''</p>'' @
     ''<p>The following ParishSoft Members are in the '' @ [CHR 0x27] @
     html_escape (source_workgroup m) @ [CHR 0x27] @ '' workgroup but have manually '' @
     ''unsubscribed from Constant Contact.</p>'' @
     ''<p style='' @ q @ ''color: #cc0000; font-weight: bold; font-size: 16px;'' @ q @ ''>'' @
     ''These ParishSoft Members should be removed from the '' @ [CHR 0x27] @
     html_escape (source_workgroup m) @ [CHR 0x27] @ '' workgroup in ParishSoft.</p>'' @
     ''<table style='' @ q @ ''border-collapse: collapse; margin-bottom: 20px; width: auto;'' @ q @ ''>'' @
     ''<tr>'' @ cc_th ''PS Member Name(s)'' @ cc_th ''PS Member DUID(s)'' @ cc_th ''Email'' @ ''</tr>'' @
     concat (map unsub_html_row (enumerate 0 (sorted_unsubscribed rows))) @ ''</table>'' @
     ''<hr style='' @ q @ ''border: 1px solid #dddddd; margin-top: 30px;'' @ q @ ''>'' @
     ''<p style='' @ q @ ''color: #999999; font-size: 12px;'' @ q @ ''>'' @
     ''This is an automated message from the ParishSoft to Constant Contact '' @
     ''synchronization script.</p>'' @ ''</body></html>''"

definition build_unsubscribed_report_email :: "cc_mapping \<Rightarrow> unsub_row list \<Rightarrow> string \<Rightarrow> string \<Rightarrow> email" where
  "build_unsubscribed_report_email m rows sender stamp =
     \<lparr>em_subject = ''Constant Contact unsubscribed contacts report: '' @ target_list m, em_sender = sender,
      em_to = cm_notifications m, em_text = Some (join [CHR 0x0A] (report_text_lines m rows stamp)),
      em_html = Some (unsub_report_html m rows stamp)\<rparr>"

end
