(* ===== verification/CC_Client.thy ===== *)
theory CC_Client
  imports CC_Data Paging
begin

text \<open>
  The Constant Contact REST client of \<open>constant_contact.py\<close>: one request under the retry policy,
  the paginated read with its single token refresh, the writes, and the access-token file. The
  \<open>requests\<close> session, the token endpoint and the token file are parameters: actions on the world.
  JSON is represented by the configuration values of \<open>Config\<close>; times are seconds.
\<close>

section \<open>One request\<close>

definition cc_call :: "('w, http_response) action \<Rightarrow> ('w, http_response) action" where
  "cc_call func =
     bind_act func (\<lambda>response.
       if hr_status response \<in> {429, 500, 502, 503, 504} then
         pure_act (Inl (TransientCCAPIError (hr_status response) (hr_text response) (hr_url response)))
       else if \<not> (200 \<le> hr_status response \<and> hr_status response \<le> 299) then
         pure_act (Inl (CCAPIError (hr_status response) (hr_text response) (hr_url response)))
       else pure_act (Inr response))"

definition CC_RETRY_POLICY :: retry_policy where
  "CC_RETRY_POLICY = default_policy\<lparr>attempts := 3, initial_delay := 1 / 5\<rparr>"

definition CC_POST_POLICY :: retry_policy where
  "CC_POST_POLICY = default_policy\<lparr>attempts := 1, initial_delay := 0\<rparr>"

definition cc_request :: "retry_policy \<Rightarrow> ('w, http_response) action \<Rightarrow> ('w, http_response) action" where
  "cc_request policy func w =
     (case retry_call (Some policy) default_retry_exceptions (\<lambda>_. 0) (cc_call func) w of
        (w', _, Inl (RetryError (TransientCCAPIError status text url))) \<Rightarrow>
          (w', Inl (CCAPIError status text url))
      | (w', _, r) \<Rightarrow> (w', r))"

definition json_response :: "http_response \<Rightarrow> string \<Rightarrow> mapping_value res" where
  "json_response response api_endpoint =
     (if hr_text response = [] then Inr []
      else (let url = (if hr_url response = [] then api_endpoint else hr_url response)
            in case hr_json response of
                 None \<Rightarrow> Inl (CCAPIError (hr_status response) ''invalid JSON response from Constant Contact'' url)
               | Some (PDict payload) \<Rightarrow> Inr payload
               | Some _ \<Rightarrow> Inl (CCAPIError (hr_status response) ''Constant Contact response must be a JSON object'' url)))"

section \<open>The client\<close>

record 'w cc_session =
  cs_get :: "string \<Rightarrow> string \<Rightarrow> (string \<times> string) list \<Rightarrow> ('w, http_response) action"
  cs_put :: "string \<Rightarrow> string \<Rightarrow> contact_body \<Rightarrow> ('w, http_response) action"
  cs_post :: "string \<Rightarrow> string \<Rightarrow> contact_body \<Rightarrow> ('w, http_response) action"
  cs_refresh :: "('w, string) action option"
  cs_api :: string

text \<open>
  The world of the client is the outside world and the client's current access token, which a
  refresh replaces.
\<close>

definition lift_world :: "(string \<Rightarrow> ('w, 'a) action) \<Rightarrow> ('w \<times> string, 'a) action" where
  "lift_world f s = (case f (snd s) (fst s) of (w', r) \<Rightarrow> ((w', snd s), r))"

definition cc_url :: "'w cc_session \<Rightarrow> string \<Rightarrow> string" where
  "cc_url cs api_endpoint = rev (dropWhile (\<lambda>c. c = CHR ''/'') (rev (cs_api cs))) @ ''/v3/'' @ api_endpoint"

definition get_with_access_token_refresh ::
  "'w cc_session \<Rightarrow> (string \<Rightarrow> ('w, http_response) action) \<Rightarrow> ('w \<times> string, http_response) action" where
  "get_with_access_token_refresh cs func s =
     (case lift_world (\<lambda>token. cc_request CC_RETRY_POLICY (func token)) s of
        (s', Inl (CCAPIError status text url)) \<Rightarrow>
          (case cs_refresh cs of
             None \<Rightarrow> (s', Inl (CCAPIError status text url))
           | Some refresh \<Rightarrow>
               if status \<noteq> 401 then (s', Inl (CCAPIError status text url))
               else (case refresh (fst s') of
                       (w2, Inl e) \<Rightarrow> ((w2, snd s'), Inl e)
                     | (w2, Inr token) \<Rightarrow>
                         lift_world (\<lambda>token. cc_request CC_RETRY_POLICY (func token)) (w2, token)))
      | r \<Rightarrow> r)"

text \<open>The items and the next link of a page.\<close>

definition page_items :: "mapping_value \<Rightarrow> string \<Rightarrow> pyval list res" where
  "page_items payload field =
     (case dget payload field (PList []) of PList xs \<Rightarrow> Inr xs | _ \<Rightarrow> Inl (TypeError field))"

definition next_href :: "mapping_value \<Rightarrow> string option res" where
  "next_href payload =
     (let links = dget_none payload ''_links''
      in if \<not> truthy links then Inr None
         else (case links of
                 PDict d \<Rightarrow>
                   (let next_link = dget_none d ''next''
                    in if \<not> truthy next_link then Inr None
                       else (case next_link of
                               PDict n \<Rightarrow>
                                 (case map_of n ''href'' of
                                    None \<Rightarrow> Inl (KeyError ''href'')
                                  | Some (PStr h) \<Rightarrow> Inr (Some h)
                                  | Some _ \<Rightarrow> Inl (TypeError ''href''))
                             | _ \<Rightarrow> Inl (TypeError ''next'')))
               | _ \<Rightarrow> Inl (TypeError ''_links'')))"

definition get_page ::
  "'w cc_session \<Rightarrow> string \<Rightarrow> string \<Rightarrow> (string \<times> (string \<times> string) list, pyval, 'w \<times> string) fetcher" where
  "get_page cs api_endpoint field up =
     bind_act (get_with_access_token_refresh cs (\<lambda>token. cs_get cs token (fst up) (snd up))) (\<lambda>response.
     bind_act (pure_act (json_response response api_endpoint)) (\<lambda>payload.
     bind_act (pure_act (page_items payload field)) (\<lambda>items.
     bind_act (pure_act (next_href payload)) (\<lambda>href.
     pure_act (Inr (items,
       (case href of
          None \<Rightarrow> None
        | Some h \<Rightarrow> if cs_api cs @ h = [] then None else Some (cs_api cs @ h, []))))))))"

definition get_all ::
  "'w cc_session \<Rightarrow> string \<Rightarrow> string \<Rightarrow> (string \<times> string) list \<Rightarrow> ('w \<times> string, pyval list) action" where
  "get_all cs api_endpoint field params =
     fetch_all (get_page cs api_endpoint field) (cc_url cs api_endpoint, params @ [(''limit'', ''500'')])"

definition put_or_post ::
  "'w cc_session \<Rightarrow> bool \<Rightarrow> string \<Rightarrow> contact_body \<Rightarrow> ('w \<times> string, mapping_value) action" where
  "put_or_post cs is_put api_endpoint body =
     bind_act (lift_world (\<lambda>token.
         cc_request (if is_put then CC_RETRY_POLICY else CC_POST_POLICY)
           ((if is_put then cs_put cs else cs_post cs) token (cc_url cs api_endpoint) body))) (\<lambda>response.
     pure_act (json_response response api_endpoint))"

section \<open>The access token\<close>

record token =
  tk_access :: string
  tk_refresh :: "string option"
  tk_valid_from :: int
  tk_valid_to :: int

definition ACCESS_TOKEN_REFRESH_MARGIN :: int where
  "ACCESS_TOKEN_REFRESH_MARGIN = 60"

definition set_valid_from_to :: "int \<Rightarrow> int \<Rightarrow> token \<Rightarrow> token" where
  "set_valid_from_to start expires_in t = t\<lparr>tk_valid_from := start, tk_valid_to := start + expires_in\<rparr>"

definition token_is_valid :: "token \<Rightarrow> int \<Rightarrow> int \<Rightarrow> bool" where
  "token_is_valid t now minimum_validity \<longleftrightarrow> tk_valid_from t \<le> now \<and> now + minimum_validity \<le> tk_valid_to t"

text \<open>
  \<open>refresh_access_token\<close>: the token endpoint answers with a new token, its lifetime and perhaps a
  new refresh token; the old refresh token is carried over when it is left out. A JSON answer that is
  not an object ends in a Python error that the function does not convert.
\<close>

definition refresh_once :: "('w, http_response) action \<Rightarrow> ('w, http_response) action" where
  "refresh_once post =
     bind_act post (\<lambda>response.
       if hr_status response = 429 \<or> 500 \<le> hr_status response
       then pure_act (Inl TransientRetryError) else pure_act (Inr response))"

definition token_of_payload :: "mapping_value \<Rightarrow> token \<Rightarrow> int \<Rightarrow> token res" where
  "token_of_payload payload old start =
     (case dget_none payload ''access_token'' of
        PStr access \<Rightarrow>
          (let refresh = (case map_of payload ''refresh_token'' of
                            Some (PStr r) \<Rightarrow> Some r | Some _ \<Rightarrow> None | None \<Rightarrow> tk_refresh old)
           in case py_int (dget_none payload ''expires_in'') of
                Some n \<Rightarrow> Inr (set_valid_from_to start n
                  \<lparr>tk_access = access, tk_refresh = refresh, tk_valid_from = 0, tk_valid_to = 0\<rparr>)
              | None \<Rightarrow> Inl (ConfigError ''Constant Contact token refresh returned malformed token'' [] []))
      | _ \<Rightarrow> Inl (ConfigError ''Constant Contact access_token requires access_token'' [] []))"

definition refresh_access_token ::
  "(string \<Rightarrow> ('w, http_response) action) \<Rightarrow> token \<Rightarrow> int \<Rightarrow> ('w, token) action" where
  "refresh_access_token post_refresh old start =
     (case tk_refresh old of
        None \<Rightarrow> pure_act (Inl (ConfigError ''Constant Contact refresh_token is required'' [] []))
      | Some refresh \<Rightarrow>
          (\<lambda>w. case retry_call (Some CC_RETRY_POLICY) default_retry_exceptions (\<lambda>_. 0)
                     (refresh_once (post_refresh refresh)) w of
             (w', _, Inl (RetryError e)) \<Rightarrow>
               (w', Inl (ConfigError ''Constant Contact token refresh failed after retries'' [] []))
           | (w', _, Inl e) \<Rightarrow> (w', Inl e)
           | (w', _, Inr response) \<Rightarrow>
               (w', (case hr_json response of
                       Some (PDict payload) \<Rightarrow>
                         if hr_status response < 200 \<or> hr_status response > 299 \<or>
                            map_of payload ''error'' \<noteq> None
                         then Inl (ConfigError ''Constant Contact token refresh failed'' [] [])
                         else token_of_payload payload old start
                     | Some _ \<Rightarrow> Inl (TypeError ''token refresh payload is not an object'')
                     | None \<Rightarrow> Inl (ConfigError ''Constant Contact token refresh returned invalid JSON'' [] [])))))"

text \<open>The token file: whether it exists, reading and writing it, under its lock.\<close>

record 'w token_file =
  tf_exists :: "'w \<Rightarrow> bool"
  tf_load :: "('w, token) action"
  tf_save :: "token \<Rightarrow> ('w, unit) action"

definition get_access_token ::
  "'w token_file \<Rightarrow> (string \<Rightarrow> ('w, http_response) action) \<Rightarrow> int \<Rightarrow> bool \<Rightarrow> bool \<Rightarrow> ('w, token) action" where
  "get_access_token tf post_refresh now allow_refresh force_refresh w =
     (if \<not> tf_exists tf w then
        (w, Inl (ConfigError ''Constant Contact access token file is missing'' [] []))
      else
        bind_act (tf_load tf) (\<lambda>t.
          if \<not> force_refresh \<and> token_is_valid t now ACCESS_TOKEN_REFRESH_MARGIN then pure_act (Inr t)
          else if \<not> allow_refresh then
            pure_act (Inl (ConfigError ''Constant Contact access token is expired or expires too soon'' [] []))
          else
            bind_act (refresh_access_token post_refresh t now) (\<lambda>refreshed.
            bind_act (tf_save tf refreshed) (\<lambda>_.
            pure_act (Inr refreshed)))) w)"

end
