(* ===== verification/CC_Run.thy ===== *)
theory CC_Run
  imports CC_Report CC_Client
begin

text \<open>
  The run of \<open>pk-sync-ps-to-cc\<close>: executing the actions, the notifications, the standalone report
  with its state file, and the sequence of \<open>_run\<close> from the loaded data on. The services are
  parameters; logging is left out.
\<close>

record ('w, 'p) cc_services =
  cv_session :: "'w cc_session"
  cv_read_state :: "('w, mapping_value) action"
  cv_write_state :: "mapping_value \<Rightarrow> ('w, unit) action"
  cv_probe_state :: "('w, unit) action"
  cv_send :: "'p \<Rightarrow> email \<Rightarrow> ('w, unit) action"
  cv_provider_factory :: "('w, 'p) action"

section \<open>Loading\<close>

text \<open>
  The JSON records of lists and contacts as records of the model. A missing or ill-typed field that
  the program reads with \<open>[...]\<close> is a \<open>KeyError\<close>; the program raises it at its first use, the model
  when the record is decoded.
\<close>

definition str_field :: "mapping_value \<Rightarrow> string \<Rightarrow> string res" where
  "str_field d k = (case map_of d k of Some (PStr s) \<Rightarrow> Inr s | _ \<Rightarrow> Inl (KeyError k))"

definition str_default :: "mapping_value \<Rightarrow> string \<Rightarrow> string" where
  "str_default d k = (case map_of d k of Some (PStr s) \<Rightarrow> s | _ \<Rightarrow> [])"

definition strs_default :: "mapping_value \<Rightarrow> string \<Rightarrow> string list" where
  "strs_default d k =
     (case map_of d k of
        Some (PList vs) \<Rightarrow> List.map_filter (\<lambda>v. case v of PStr s \<Rightarrow> Some s | _ \<Rightarrow> None) vs
      | _ \<Rightarrow> [])"

definition list_of_json :: "pyval \<Rightarrow> cc_list res" where
  "list_of_json v =
     (case v of
        PDict d \<Rightarrow> bind_res (str_field d ''list_id'') (\<lambda>i. bind_res (str_field d ''name'') (\<lambda>n.
          Inr \<lparr>list_id = i, list_name = n, CONTACTS = []\<rparr>))
      | _ \<Rightarrow> Inl (TypeError ''list''))"

definition contact_of_json :: "pyval \<Rightarrow> cc_contact res" where
  "contact_of_json v =
     (case v of
        PDict d \<Rightarrow>
          (case map_of d ''email_address'' of
             Some (PDict a) \<Rightarrow>
               bind_res (str_field d ''contact_id'') (\<lambda>i. bind_res (str_field a ''address'') (\<lambda>e.
               Inr \<lparr>cc_contact_id = i, cc_address = e, permission_to_send = str_default a ''permission_to_send'',
                    first_name = str_default d ''first_name'', last_name = str_default d ''last_name'',
                    list_memberships = strs_default d ''list_memberships'', custom_fields = [],
                    cc_custom_names = [], LIST_MEMBERSHIPS = [], PS_MEMBERS = None\<rparr>))
           | _ \<Rightarrow> Inl (KeyError ''email_address''))
      | _ \<Rightarrow> Inl (TypeError ''contact''))"

definition is_deleted :: "pyval \<Rightarrow> bool" where
  "is_deleted v = (case v of PDict d \<Rightarrow> map_of d ''deleted_at'' \<noteq> None | _ \<Rightarrow> False)"

definition load_cc_data :: "'w cc_session \<Rightarrow> ('w \<times> string, cc_list list \<times> cc_contact list) action" where
  "load_cc_data cs =
     bind_act (get_all cs ''contact_lists'' ''lists'' []) (\<lambda>list_items.
     bind_act (get_all cs ''contacts'' ''contacts'' [(''include'', ''list_memberships''), (''status'', ''all'')]) (\<lambda>items.
     pure_act (
       bind_res (map_res list_of_json list_items) (\<lambda>ls.
       bind_res (map_res contact_of_json (filter (\<lambda>v. \<not> is_deleted v) items)) (\<lambda>contacts.
       link_cc_data contacts [] ls)))))"

section \<open>Executing the actions\<close>

text \<open>Effects on the outside world only, in the world of the client.\<close>

definition on_world :: "('w, 'a) action \<Rightarrow> ('w \<times> string, 'a) action" where
  "on_world act = lift_world (\<lambda>_. act)"

definition execute_contact ::
  "'w cc_session \<Rightarrow> (string, cc_contact) dict \<Rightarrow> (string, member list) dict \<Rightarrow> bool \<Rightarrow>
   string \<times> cc_action list \<Rightarrow> ('w \<times> string, unit) action" where
  "execute_contact cs contacts_by_email by_email dry_run ea =
     bind_act (pure_act (contact_bodies contacts_by_email by_email ea)) (\<lambda>(post, put).
       if dry_run then pure_act (Inr ())
       else
         bind_act (case post of
                     None \<Rightarrow> pure_act (Inr ())
                   | Some b \<Rightarrow> bind_act (put_or_post cs False ''contacts/sign_up_form'' (sign_up_form_body b))
                                (\<lambda>_. pure_act (Inr ()))) (\<lambda>_.
         case put of
           None \<Rightarrow> pure_act (Inr ())
         | Some b \<Rightarrow> bind_act (put_or_post cs True (''contacts/'' @ the (cb_contact_id b)) (update_contact_body b))
                      (\<lambda>_. pure_act (Inr ()))))"

definition execute_actions ::
  "'w cc_session \<Rightarrow> cc_action list \<Rightarrow> (string, cc_contact) dict \<Rightarrow> (string, member list) dict \<Rightarrow> bool \<Rightarrow>
   ('w \<times> string, unit) action" where
  "execute_actions cs actions contacts_by_email by_email dry_run =
     run_actions (execute_contact cs contacts_by_email by_email dry_run) (group_by_email actions)"

section \<open>Notifications\<close>

definition mapping_report ::
  "cc_sync_config \<Rightarrow> cc_action list \<Rightarrow> unsub_row list list \<Rightarrow> nat \<Rightarrow> cc_action list \<times> unsub_row list \<times> nat option" where
  "mapping_report config actions unsubscribed i =
     (filter (\<lambda>a. ca_sync_index a = Some i) actions,
      (if rc_enabled (unsubscribed_report config) then [] else unsubscribed ! i),
      (if rc_enabled (unsubscribed_report config) \<and> unsubscribed ! i \<noteq> [] then Some (length (unsubscribed ! i)) else None))"

definition has_sender :: "cc_sync_config \<Rightarrow> bool" where
  "has_sender config \<longleftrightarrow> cc_sender config \<noteq> None \<and> cc_sender config \<noteq> Some []"

text \<open>
  \<open>provider.send(message, dry_run=dry_run)\<close>: in a dry run the provider only builds the message.
\<close>

definition send_one_notification ::
  "('w, 'p) cc_services \<Rightarrow> 'p \<Rightarrow> cc_sync_config \<Rightarrow> cc_action list \<Rightarrow> unsub_row list list \<Rightarrow>
   (string, cc_contact) dict \<Rightarrow> (string, member list) dict \<Rightarrow> string \<Rightarrow> bool \<Rightarrow> nat \<times> cc_mapping \<Rightarrow> ('w, unit) action" where
  "send_one_notification sv p config actions unsubscribed contacts_by_email by_email stamp dry_run im =
     (let (i, m) = im; (list_acts, reported, suppressed) = mapping_report config actions unsubscribed i
      in if list_acts = [] \<and> reported = [] then pure_act (Inr ())
         else if cm_notifications m = [] then pure_act (Inr ())
         else if dry_run then pure_act (Inr ())
         else cv_send sv p (cc_build_notification_email m list_acts reported contacts_by_email by_email
                (the (cc_sender config)) stamp suppressed))"

definition send_notifications ::
  "('w, 'p) cc_services \<Rightarrow> 'p option \<Rightarrow> cc_sync_config \<Rightarrow> cc_action list \<Rightarrow> unsub_row list list \<Rightarrow>
   (string, cc_contact) dict \<Rightarrow> (string, member list) dict \<Rightarrow> string \<Rightarrow> bool \<Rightarrow> ('w, unit) action" where
  "send_notifications sv provider config actions unsubscribed contacts_by_email by_email stamp dry_run =
     (case provider of
        None \<Rightarrow> pure_act (Inr ())
      | Some p \<Rightarrow>
          if \<not> has_sender config then pure_act (Inr ())
          else run_actions
            (send_one_notification sv p config actions unsubscribed contacts_by_email by_email stamp dry_run)
            (enumerate 0 (cc_mappings config)))"

definition sync_notifications_will_send ::
  "cc_sync_config \<Rightarrow> cc_action list \<Rightarrow> unsub_row list list \<Rightarrow> bool" where
  "sync_notifications_will_send config actions unsubscribed \<longleftrightarrow>
     has_sender config \<and>
     list_ex (\<lambda>(i, m). cm_notifications m \<noteq> [] \<and>
       (let (list_acts, reported, _) = mapping_report config actions unsubscribed i
        in list_acts \<noteq> [] \<or> reported \<noteq> [])) (enumerate 0 (cc_mappings config))"

definition unsubscribed_report_will_send ::
  "cc_sync_config \<Rightarrow> unsub_row list list \<Rightarrow> report_decision \<Rightarrow> bool \<Rightarrow> bool" where
  "unsubscribed_report_will_send config unsubscribed decision dry_run \<longleftrightarrow>
     rc_enabled (unsubscribed_report config) \<and> rd_due decision \<and> \<not> dry_run \<and>
     list_ex (\<lambda>rows. rows \<noteq> []) unsubscribed"

section \<open>The standalone report\<close>

definition validate_unsubscribed_report_config ::
  "('w, 'p) cc_services \<Rightarrow> cc_sync_config \<Rightarrow> unsub_row list list \<Rightarrow> report_decision \<Rightarrow> bool \<Rightarrow> ('w, unit) action" where
  "validate_unsubscribed_report_config sv config unsubscribed decision dry_run =
     (if \<not> unsubscribed_report_will_send config unsubscribed decision dry_run then pure_act (Inr ())
      else
        (let missing = map (\<lambda>(i, m). target_list m)
               (filter (\<lambda>(i, m). unsubscribed ! i \<noteq> [] \<and> cm_notifications m = []) (enumerate 0 (cc_mappings config)))
         in if missing \<noteq> [] then
              pure_act (Inl (ConfigError ''sync.lists[].notifications is required for the unsubscribed report'' missing []))
            else if \<not> has_sender config then
              pure_act (Inl (ConfigError ''sync.notifications.sender is required for the unsubscribed report'' [] []))
            else cv_probe_state sv))"

definition validate_unsubscribed_report_provider ::
  "'p option \<Rightarrow> cc_sync_config \<Rightarrow> unsub_row list list \<Rightarrow> report_decision \<Rightarrow> bool \<Rightarrow> unit res" where
  "validate_unsubscribed_report_provider provider config unsubscribed decision dry_run =
     guard_res (\<not> (unsubscribed_report_will_send config unsubscribed decision dry_run \<and> provider = None))
       (ConfigError ''email configuration is required for the unsubscribed report'' [] [])"

fun report_loop ::
  "('w, 'p) cc_services \<Rightarrow> 'p \<Rightarrow> cc_sync_config \<Rightarrow> string \<Rightarrow> string \<Rightarrow>
   (cc_mapping \<times> unsub_row list) list \<Rightarrow> mapping_value \<Rightarrow> nat \<Rightarrow> ('w, mapping_value \<times> nat) action" where
  "report_loop sv p config run_date stamp [] state sent = pure_act (Inr (state, sent))"
| "report_loop sv p config run_date stamp ((m, rows) # rest) state sent =
     (if rows = [] \<or> unsubscribed_report_mapping_sent state run_date m
      then report_loop sv p config run_date stamp rest state sent
      else
        bind_act (cv_send sv p (build_unsubscribed_report_email m rows
            (case cc_sender config of None \<Rightarrow> [] | Some s \<Rightarrow> s) stamp)) (\<lambda>_.
        bind_act (cv_write_state sv (marked_state state run_date m stamp)) (\<lambda>_.
        report_loop sv p config run_date stamp rest (marked_state state run_date m stamp) (Suc sent))))"

definition send_unsubscribed_report ::
  "('w, 'p) cc_services \<Rightarrow> 'p option \<Rightarrow> cc_sync_config \<Rightarrow> unsub_row list list \<Rightarrow> report_decision \<Rightarrow> string \<Rightarrow>
   bool \<Rightarrow> ('w, nat) action" where
  "send_unsubscribed_report sv provider config unsubscribed decision stamp dry_run =
     (if \<not> rc_enabled (unsubscribed_report config) \<or> \<not> rd_due decision then pure_act (Inr 0)
      else if \<not> list_ex (\<lambda>rows. rows \<noteq> []) unsubscribed then pure_act (Inr 0)
      else if dry_run then pure_act (Inr 0)
      else
        bind_act (validate_unsubscribed_report_config sv config unsubscribed decision dry_run) (\<lambda>_.
        bind_act (pure_act (validate_unsubscribed_report_provider provider config unsubscribed decision dry_run)) (\<lambda>_.
        bind_act (cv_read_state sv) (\<lambda>state.
        bind_act (report_loop sv (the provider) config (rd_run_date decision) stamp
            (zip (cc_mappings config) unsubscribed) state 0) (\<lambda>(state, sent).
          if list_all (\<lambda>(m, rows). rows = [] \<or> unsubscribed_report_mapping_sent state (rd_run_date decision) m)
               (zip (cc_mappings config) unsubscribed)
          then bind_act (cv_write_state sv (sent_state state (rd_run_date decision) stamp)) (\<lambda>_. pure_act (Inr sent))
          else pure_act (Inr sent))))))"

section \<open>The run\<close>

definition contacts_by_email_of :: "cc_contact list \<Rightarrow> (string, cc_contact) dict" where
  "contacts_by_email_of contacts = dict_of (map (\<lambda>c. (lower (cc_address c), c)) contacts) []"

record cc_plan =
  cp_contacts :: "(string, cc_contact) dict"
  cp_desired :: "string set list"
  cp_unsubscribed :: "unsub_row list list"
  cp_actions :: "cc_action list"

text \<open>
  Everything before the first write: the wanted addresses with the opt-outs filtered, then (after
  the schedule decision) the actions and their guards. \<open>cc_plan_actions\<close> is both in sequence.
\<close>

definition cc_desired_state ::
  "cc_sync_config \<Rightarrow> rosters \<Rightarrow> members \<Rightarrow> cc_list list \<Rightarrow> cc_contact list \<Rightarrow>
   (string set list \<times> unsub_row list list) res" where
  "cc_desired_state config mwm ms ls contacts =
     bind_res (resolve_desired_state config mwm ms ls) (\<lambda>desired.
     bind_res (validate_non_empty_desired_state config desired ls) (\<lambda>_.
     Inr (filter_unsubscribed contacts desired (members_by_email ms))))"

definition cc_compute_plan ::
  "cc_sync_config \<Rightarrow> cc_list list \<Rightarrow> cc_contact list \<Rightarrow> string set list \<times> unsub_row list list \<Rightarrow> cc_plan res" where
  "cc_compute_plan config ls contacts du =
     (let (desired, unsubscribed) = du; contacts_by_email = contacts_by_email_of contacts
      in bind_res (compute_all_actions config desired ls contacts_by_email) (\<lambda>actions.
         bind_res (name_update_candidate_sync_indices config desired ls) (\<lambda>indices.
         bind_res (detect_name_mismatches (update_names config) indices contacts_by_email) (\<lambda>renames.
         bind_res (cc_validate_large_removal_guard config (actions @ renames) ls) (\<lambda>_.
         Inr \<lparr>cp_contacts = contacts_by_email, cp_desired = desired,
              cp_unsubscribed = unsubscribed, cp_actions = actions @ renames\<rparr>)))))"

definition cc_plan_actions ::
  "cc_sync_config \<Rightarrow> rosters \<Rightarrow> members \<Rightarrow> cc_list list \<Rightarrow> cc_contact list \<Rightarrow> cc_plan res" where
  "cc_plan_actions config mwm ms ls contacts =
     (let contacts = link_contacts_to_ps_members contacts ms
      in bind_res (cc_desired_state config mwm ms ls contacts) (cc_compute_plan config ls contacts))"

definition cc_finish ::
  "('w, 'p) cc_services \<Rightarrow> 'p option \<Rightarrow> cc_sync_config \<Rightarrow> (string, member list) dict \<Rightarrow> cc_plan \<Rightarrow>
   report_decision \<Rightarrow> string \<Rightarrow> string \<Rightarrow> bool \<Rightarrow> ('w \<times> string, nat) action" where
  "cc_finish sv provider config by_email plan decision stamp stamp_zone dry_run =
     bind_act (on_world (validate_unsubscribed_report_config sv config (cp_unsubscribed plan) decision dry_run)) (\<lambda>_.
     bind_act (if provider = None \<and> \<not> dry_run \<and>
                  (sync_notifications_will_send config (cp_actions plan) (cp_unsubscribed plan) \<or>
                   unsubscribed_report_will_send config (cp_unsubscribed plan) decision dry_run)
               then on_world (bind_act (cv_provider_factory sv) (\<lambda>p. pure_act (Inr (Some p))))
               else pure_act (Inr provider)) (\<lambda>provider.
     bind_act (pure_act (validate_unsubscribed_report_provider provider config (cp_unsubscribed plan) decision dry_run)) (\<lambda>_.
     bind_act (execute_actions (cv_session sv) (cp_actions plan) (cp_contacts plan) by_email dry_run) (\<lambda>_.
     bind_act (on_world (send_notifications sv provider config (cp_actions plan) (cp_unsubscribed plan)
         (cp_contacts plan) by_email stamp dry_run)) (\<lambda>_.
     on_world (send_unsubscribed_report sv provider config (cp_unsubscribed plan) decision stamp_zone dry_run))))))"

definition cc_sync_run ::
  "('w, 'p) cc_services \<Rightarrow> 'p option \<Rightarrow> cc_sync_config \<Rightarrow> rosters \<Rightarrow> members \<Rightarrow>
   instant \<Rightarrow> string \<Rightarrow> string \<Rightarrow> bool \<Rightarrow> ('w \<times> string, nat) action" where
  "cc_sync_run sv provider config mwm ms now stamp stamp_zone dry_run =
     bind_act (pure_act (validate_configured_parishsoft_workgroups config mwm)) (\<lambda>_.
     bind_act (load_cc_data (cv_session sv)) (\<lambda>(ls, contacts).
     let contacts = link_contacts_to_ps_members contacts ms
     in bind_act (pure_act (cc_desired_state config mwm ms ls contacts)) (\<lambda>du.
        bind_act (on_world (unsubscribed_report_decision (unsubscribed_report config) now (cv_read_state sv))) (\<lambda>decision.
        bind_act (pure_act (cc_compute_plan config ls contacts du)) (\<lambda>plan.
        cc_finish sv provider config (members_by_email ms) plan decision stamp stamp_zone dry_run)))))"

end
