(* ===== verification/ParishSoft_Facts.thy ===== *)
theory ParishSoft_Facts
  imports ParishSoft Interfaces
begin

text \<open>
  Correctness of the ParishSoft snapshot: the address lists are normal forms, the links between
  families and members agree with each other, only current ministry memberships are attached,
  and the filter keeps the links consistent while it removes exactly what is out of scope.
\<close>

section \<open>Address lists\<close>

definition address_ok :: "string \<Rightarrow> bool" where
  "address_ok e \<longleftrightarrow> e \<noteq> [] \<and> lower e = e \<and> strip e = e \<and> CHR '';'' \<notin> set e"

lemma dedup_emails_spec:
  "seen = set acc \<Longrightarrow> distinct acc \<Longrightarrow>
   distinct (dedup_emails items acc seen) \<and>
   set (dedup_emails items acc seen) = set acc \<union> ((\<lambda>i. lower (strip i)) ` set items - {[]})"
  by (induction items acc seen rule: dedup_emails.induct) (auto simp: Let_def)

lemma dedup_emails_fixed:
  assumes "\<forall>i\<in>set items. i \<noteq> [] \<and> lower (strip i) = i" "distinct items" "set items \<inter> seen = {}"
  shows "dedup_emails items acc seen = acc @ items"
  using assms
proof (induction items acc seen rule: dedup_emails.induct)
  case (2 item items addresses seen)
  then have "lower (strip item) = item" "item \<noteq> []" "item \<notin> seen" by auto
  moreover from 2 have "dedup_emails items (addresses @ [item]) (insert item seen) = (addresses @ [item]) @ items"
    using calculation by (intro "2.IH"(2)) (auto simp: Let_def)
  ultimately show ?case by (simp add: Let_def)
qed simp

lemma is_space_lower_char [simp]: "is_space (lower_char c) = is_space c"
proof (cases "65 \<le> (of_char c :: nat) \<and> (of_char c :: nat) \<le> 90")
  case True
  then show ?thesis by (auto simp: is_space_def lower_char_def Let_def)
next
  case False
  then show ?thesis by (auto simp: is_space_def lower_char_def Let_def)
qed

lemma dropWhile_space_lower: "dropWhile is_space (lower s) = lower (dropWhile is_space s)"
  by (induction s) (auto simp: lower_Cons)

lemma strip_lower [simp]: "strip (lower s) = lower (strip s)"
proof -
  have "rev (lower t) = lower (rev t)" for t by (simp add: lower_def rev_map)
  then show ?thesis by (simp add: strip_by_def dropWhile_space_lower)
qed

lemma lower_char_semicolon [simp]: "lower_char c = CHR '';'' \<longleftrightarrow> c = CHR '';''"
proof (cases "65 \<le> (of_char c :: nat) \<and> (of_char c :: nat) \<le> 90")
  case True
  then have "(of_char (lower_char c) :: nat) \<noteq> of_char (CHR '';'')" by (simp add: lower_char_def)
  moreover from True have "c \<noteq> CHR '';''" by auto
  ultimately show ?thesis by auto
next
  case False
  then show ?thesis by (auto simp: lower_char_def Let_def)
qed

lemma semicolon_lower [simp]: "CHR '';'' \<in> set (lower s) \<longleftrightarrow> CHR '';'' \<in> set s"
  by (induction s) (auto simp: lower_Cons eq_commute [of "CHR '';''"])

lemma split_email_addresses_spec:
  "distinct (split_email_addresses items)"
  "set (split_email_addresses items) =
     {lower (strip p) | i p. i \<in> set items \<and> p \<in> set (split_on CHR '';'' i)} - {[]}"
  using dedup_emails_spec [of "{}" "[]" "concat (map (split_on CHR '';'') items)"]
  by (auto simp: split_email_addresses_def)

lemma split_email_addresses_ok: "e \<in> set (split_email_addresses items) \<Longrightarrow> address_ok e"
proof -
  assume "e \<in> set (split_email_addresses items)"
  then obtain i p where e: "e = lower (strip p)" "e \<noteq> []" and p: "p \<in> set (split_on CHR '';'' i)"
    by (auto simp: split_email_addresses_spec(2))
  from split_on_no_sep [OF p] strip_by_set [of is_space p] have "CHR '';'' \<notin> set (strip p)" by blast
  with e show ?thesis by (auto simp: address_ok_def)
qed

lemma split_email_addresses_fixed:
  assumes "\<forall>e\<in>set es. address_ok e" "distinct es"
  shows "split_email_addresses es = es"
proof -
  have "concat (map (split_on CHR '';'') es) = es"
    using assms(1) by (induction es) (auto simp: address_ok_def split_on_id)
  then show ?thesis
    using assms dedup_emails_fixed [of es "{}" "[]"] by (auto simp: split_email_addresses_def address_ok_def)
qed

interpretation addresses: normaliser split_email_addresses
  by unfold_locales (intro split_email_addresses_fixed ballI split_email_addresses_ok split_email_addresses_spec(1))


text \<open>The joined text of a normal list splits into that list again.\<close>

lemma split_join_pieces:
  "\<forall>e\<in>set es. CHR '';'' \<notin> set e \<Longrightarrow> es \<noteq> [] \<Longrightarrow>
   split_on CHR '';'' (join ''; '' es) = hd es # map (\<lambda>e. CHR '' '' # e) (tl es)"
proof (induction "''; ''" es rule: join.induct)
  case (3 x y zs)
  have "split_on CHR '';'' (x @ CHR '';'' # CHR '' '' # join ''; '' (y # zs)) =
      x # split_on CHR '';'' (CHR '' '' # join ''; '' (y # zs))"
    using 3(2) by (intro split_on_append) auto
  then show ?case using 3 by auto
qed (auto simp: split_on_id)

lemma strip_space_Cons: "is_space c \<Longrightarrow> strip (c # s) = strip s"
  by (simp add: strip_by_def)

lemma split_joined_addresses:
  assumes "\<forall>e\<in>set es. address_ok e" "distinct es"
  shows "split_email_addresses [join ''; '' es] = es"
proof (cases es)
  case Nil
  then show ?thesis by (simp add: split_email_addresses_def strip_by_def)
next
  case (Cons a as)
  have sp: "is_space (CHR '' '')" by (simp add: is_space_def)
  have low: "lower (strip e) = e" "e \<noteq> []" if "e \<in> set es" for e
    using that assms(1) by (auto simp: address_ok_def)
  have red: "dedup_emails (map (\<lambda>e. CHR '' '' # e) xs) acc seen = dedup_emails xs acc seen" for xs acc seen
    by (induction xs arbitrary: acc seen) (simp_all add: strip_space_Cons [OF sp] Let_def)
  have "split_email_addresses [join ''; '' es] = dedup_emails (a # map (\<lambda>e. CHR '' '' # e) as) [] {}"
    using split_join_pieces [of es] assms(1) Cons by (auto simp: split_email_addresses_def address_ok_def)
  also have "\<dots> = dedup_emails es [] {}" by (simp add: Cons red Let_def)
  also have "\<dots> = es" using dedup_emails_fixed [of es "{}" "[]"] assms(2) low by auto
  finally show ?thesis .
qed

section \<open>Families and members\<close>

text \<open>The links agree: a member points to a family exactly when that family lists it.\<close>

definition linked :: "families \<Rightarrow> members \<Rightarrow> bool" where
  "linked fs ms \<longleftrightarrow> dict_ok fs \<and> dict_ok ms \<and>
     (\<forall>fid f. map_of fs fid = Some f \<longrightarrow>
        distinct (py_members f) \<and>
        set (py_members f) = {k. \<exists>m. map_of ms k = Some m \<and> py_family m = Some fid}) \<and>
     (\<forall>k m fid. map_of ms k = Some m \<longrightarrow> py_family m = Some fid \<longrightarrow> map_of fs fid \<noteq> None)"

lemma linked_dict_ok: "linked fs ms \<Longrightarrow> dict_ok fs \<and> dict_ok ms"
  by (simp add: linked_def)

lemma linked_members:
  "linked fs ms \<Longrightarrow> map_of fs fid = Some f \<Longrightarrow> distinct (py_members f) \<and>
   (k \<in> set (py_members f) \<longleftrightarrow> (\<exists>m. map_of ms k = Some m \<and> py_family m = Some fid))"
  unfolding linked_def by blast

lemma linked_family:
  "linked fs ms \<Longrightarrow> map_of ms k = Some m \<Longrightarrow> py_family m = Some fid \<Longrightarrow> \<exists>f. map_of fs fid = Some f"
  unfolding linked_def by blast

definition link_step :: "int \<times> member \<Rightarrow> families \<times> members \<Rightarrow> families \<times> members" where
  "link_step = (\<lambda>(k, m) (fs, ms).
         let fam = map_of fs (m_familyDUID m);
             ms' = AList.update k (m\<lparr>py_family := map_option (\<lambda>_. m_familyDUID m) fam\<rparr>) ms
         in case fam of
              None \<Rightarrow> (fs, ms')
            | Some f \<Rightarrow>
                (AList.update (m_familyDUID m) (f\<lparr>py_members := py_members f @ [k]\<rparr>) fs, ms'))"

definition family_of :: "families \<Rightarrow> member \<Rightarrow> int option" where
  "family_of fs m = (if map_of fs (m_familyDUID m) = None then None else Some (m_familyDUID m))"

lemma fold_link_step:
  assumes "distinct (map fst xs)" "dict_ok fs" "dict_ok ms" "fold link_step xs (fs, ms) = (fs', ms')"
  shows "dict_ok fs' \<and> dict_ok ms' \<and>
    (\<forall>fid. map_of fs' fid = map_option (\<lambda>f. f\<lparr>py_members := py_members f @
       map fst (filter (\<lambda>(k, m). m_familyDUID m = fid) xs)\<rparr>) (map_of fs fid)) \<and>
    (\<forall>k. map_of ms' k = (case map_of xs k of
       Some m \<Rightarrow> Some (m\<lparr>py_family := family_of fs m\<rparr>) | None \<Rightarrow> map_of ms k))"
  using assms
proof (induction xs arbitrary: fs ms)
  case Nil
  then show ?case by (auto simp: option.map_ident_strong)
next
  case (Cons x xs)
  obtain k m where x: "x = (k, m)" by (cases x)
  obtain fs1 ms1 where s: "link_step (k, m) (fs, ms) = (fs1, ms1)" by (cases "link_step (k, m) (fs, ms)")
  have ms1: "ms1 = AList.update k (m\<lparr>py_family := family_of fs m\<rparr>) ms"
    and fs1: "fs1 = (case map_of fs (m_familyDUID m) of None \<Rightarrow> fs | Some f \<Rightarrow>
      AList.update (m_familyDUID m) (f\<lparr>py_members := py_members f @ [k]\<rparr>) fs)"
    using s by (auto simp: link_step_def family_of_def Let_def split: option.splits)
  have d: "map_of fs1 fid = None \<longleftrightarrow> map_of fs fid = None" for fid
    by (auto simp: fs1 update_conv' split: option.splits)
  have ok: "dict_ok fs1" "dict_ok ms1" using Cons.prems by (auto simp: fs1 ms1 split: option.splits)
  have "fold link_step xs (fs1, ms1) = (fs', ms')" using Cons.prems(4) x s by simp
  from Cons.IH [OF _ ok this] Cons.prems(1)
  have IH: "dict_ok fs'" "dict_ok ms'"
    "\<And>fid. map_of fs' fid = map_option (\<lambda>f. f\<lparr>py_members := py_members f @
       map fst (filter (\<lambda>(k, m). m_familyDUID m = fid) xs)\<rparr>) (map_of fs1 fid)"
    "\<And>k. map_of ms' k = (case map_of xs k of
       Some m \<Rightarrow> Some (m\<lparr>py_family := family_of fs1 m\<rparr>) | None \<Rightarrow> map_of ms1 k)" by auto
  have fo: "family_of fs1 = family_of fs" by (simp add: family_of_def d fun_eq_iff)
  have F: "map_of fs' fid = map_option (\<lambda>f. f\<lparr>py_members := py_members f @
       map fst (filter (\<lambda>(k, m). m_familyDUID m = fid) (x # xs))\<rparr>) (map_of fs fid)" for fid
    by (auto simp: IH(3) fs1 x update_conv' split: option.splits)
  have "map_of xs k = None" using Cons.prems(1) x by (simp add: map_of_eq_None_iff)
  then have "map_of ms' j = (case map_of (x # xs) j of
       Some m \<Rightarrow> Some (m\<lparr>py_family := family_of fs m\<rparr>) | None \<Rightarrow> map_of ms j)" for j
    by (auto simp: IH(4) fo ms1 x update_conv' split: option.splits)
  with IH(1,2) F show ?case by blast
qed

lemma link_families_and_members_eq:
  "link_families_and_members fs ms =
     fold link_step ms (dict_map (\<lambda>f. f\<lparr>py_members := []\<rparr>) fs, ms)"
  by (simp add: link_families_and_members_def link_step_def)

lemma link_families_and_members_spec:
  assumes "dict_ok fs" "dict_ok ms" "link_families_and_members fs ms = (fs', ms')"
  shows "dict_ok fs'" "dict_ok ms'"
    "map_of fs' fid = map_option (\<lambda>f. f\<lparr>py_members :=
       map fst (filter (\<lambda>(k, m). m_familyDUID m = fid) ms)\<rparr>) (map_of fs fid)"
    "map_of ms' k = map_option (\<lambda>m. m\<lparr>py_family := family_of fs m\<rparr>) (map_of ms k)"
proof -
  let ?fs = "dict_map (\<lambda>f. f\<lparr>py_members := []\<rparr>) fs"
  have fo: "family_of ?fs = family_of fs" by (simp add: family_of_def fun_eq_iff)
  note S = fold_link_step [OF _ _ assms(2) assms(3) [unfolded link_families_and_members_eq]]
  have S': "dict_ok fs' \<and> dict_ok ms' \<and>
    (\<forall>fid. map_of fs' fid = map_option (\<lambda>f. f\<lparr>py_members := py_members f @
       map fst (filter (\<lambda>(k, m). m_familyDUID m = fid) ms)\<rparr>) (map_of ?fs fid)) \<and>
    (\<forall>k. map_of ms' k = (case map_of ms k of
       Some m \<Rightarrow> Some (m\<lparr>py_family := family_of ?fs m\<rparr>) | None \<Rightarrow> map_of ms k))"
    using assms(1,2) by (intro S) (simp_all add: dict_ok_def)
  then show "dict_ok fs'" "dict_ok ms'" by auto
  from S' show "map_of fs' fid = map_option (\<lambda>f. f\<lparr>py_members :=
       map fst (filter (\<lambda>(k, m). m_familyDUID m = fid) ms)\<rparr>) (map_of fs fid)"
    by (simp add: option.map_comp comp_def)
  from S' show "map_of ms' k = map_option (\<lambda>m. m\<lparr>py_family := family_of fs m\<rparr>) (map_of ms k)"
    by (simp add: fo split: option.splits)
qed

lemma link_families_and_members_linked:
  assumes "dict_ok fs" "dict_ok ms" "link_families_and_members fs ms = (fs', ms')"
  shows "linked fs' ms'"
proof -
  note S = link_families_and_members_spec [OF assms]
  have D: "map_of fs' fid = None \<longleftrightarrow> map_of fs fid = None" for fid by (simp add: S(3))
  have "distinct (py_members f) \<and>
      set (py_members f) = {k. \<exists>m. map_of ms' k = Some m \<and> py_family m = Some fid}"
    if f: "map_of fs' fid = Some f" for fid f
  proof -
    from f have pm: "py_members f = map fst (filter (\<lambda>(k, m). m_familyDUID m = fid) ms)"
      by (auto simp: S(3))
    have "set (py_members f) = {k. \<exists>m. map_of ms k = Some m \<and> m_familyDUID m = fid}"
      using assms(2) by (force simp: pm dict_ok_Some_iff)
    moreover from f have "map_of fs fid \<noteq> None" by (auto simp: S(3))
    then have "(\<exists>m. map_of ms' k = Some m \<and> py_family m = Some fid) \<longleftrightarrow>
        (\<exists>m. map_of ms k = Some m \<and> m_familyDUID m = fid)" for k
      by (cases "map_of ms k") (auto simp: S(4) family_of_def)
    moreover have "distinct (py_members f)"
      using assms(2) by (simp add: pm dict_ok_def distinct_map_filter)
    ultimately show ?thesis by simp
  qed
  moreover have "map_of fs' fid \<noteq> None" if "map_of ms' k = Some m" "py_family m = Some fid" for k m fid
    using that by (auto simp: D S(4) family_of_def split: if_splits)
  ultimately show ?thesis using S(1,2) by (simp add: linked_def)
qed


section \<open>Ministries\<close>

text \<open>Every attached ministry comes from a current row of that member in a roster of that name.\<close>

definition ministry_from :: "date \<Rightarrow> rosters \<Rightarrow> int \<Rightarrow> string \<Rightarrow> ministry_entry \<Rightarrow> bool" where
  "ministry_from today mtm k name e \<longleftrightarrow>
     (\<exists>(i, ro)\<in>set mtm. \<exists>row\<in>set (membership ro). ro_name ro = name \<and> me_name e = name \<and>
        me_id e = ro_id ro \<and> me_role e = row_role row \<and> me_member e = k \<and>
        py_member_duid row = Some k \<and> ministry_membership_is_current row today)"

definition ministries_ok :: "date \<Rightarrow> rosters \<Rightarrow> members \<Rightarrow> bool" where
  "ministries_ok today mtm ms \<longleftrightarrow>
     (\<forall>k m name e. map_of ms k = Some m \<longrightarrow> map_of (py_ministries m) name = Some e \<longrightarrow>
        ministry_from today mtm k name e)"

lemma add_member_ministry_ok:
  assumes "ministries_ok today mtm ms" "(i, ro) \<in> set mtm" "row \<in> set (membership ro)"
  shows "ministries_ok today mtm (add_member_ministry today ro ms row)"
proof (cases "py_member_duid row")
  case (Some d)
  show ?thesis
  proof (cases "map_of ms d")
    case m: (Some m)
    show ?thesis
    proof (cases "ministry_membership_is_current row today")
      case True
      have "ministry_from today mtm d (ro_name ro) (ministry_entry_of ro d row (py_family m))"
        unfolding ministry_from_def using assms(2,3) Some True by (force simp: ministry_entry_of_def)
      with Some m True assms(1) show ?thesis
        by (auto simp: ministries_ok_def add_member_ministry_def update_conv' split: if_splits)
    qed (use Some m assms(1) in \<open>simp add: add_member_ministry_def\<close>)
  qed (use Some assms(1) in \<open>simp add: add_member_ministry_def\<close>)
qed (use assms(1) in \<open>simp add: add_member_ministry_def\<close>)

lemma add_member_ministry_keys [frame]:
  "map fst (add_member_ministry today ro ms row) = map fst ms"
  by (auto simp: add_member_ministry_def update_keys map_of_eq_None_iff split: option.splits
      dest: map_of_SomeD) (metis domI domIff map_of_eq_None_iff)+

lemma link_member_ministries_ok: "ministries_ok today mtm (link_member_ministries today ms mtm)"
proof -
  have rows: "ministries_ok today mtm (foldl (add_member_ministry today ro) ms rows)"
    if "(i, ro) \<in> set mtm" "set rows \<subseteq> set (membership ro)" "ministries_ok today mtm ms" for i ro ms rows
    using that by (induction rows arbitrary: ms) (auto intro: add_member_ministry_ok)
  have "ministries_ok today mtm (fold (\<lambda>(_, ro) ms. foldl (add_member_ministry today ro) ms (membership ro)) xs ms)"
    if "set xs \<subseteq> set mtm" "ministries_ok today mtm ms" for xs ms
    using that by (induction xs arbitrary: ms) (auto intro!: rows)
  moreover have "ministries_ok today mtm (dict_map (\<lambda>m. m\<lparr>py_ministries := []\<rparr>) ms)"
    by (auto simp: ministries_ok_def)
  ultimately show ?thesis by (simp add: link_member_ministries_def)
qed

section \<open>Filtering\<close>

text \<open>What the filter computes, without mutation: the members and families it drops.\<close>

definition gone_members :: "filter_flags \<Rightarrow> (int \<times> member) list \<Rightarrow> (int \<times> int option) set" where
  "gone_members fl xs = {(k, py_family m) | k m. (k, m) \<in> set xs \<and> member_out_of_scope fl m}"

definition keep_rows :: "(membership_row \<Rightarrow> int) \<Rightarrow> int set \<Rightarrow> rosters \<Rightarrow> rosters" where
  "keep_rows key gone ros =
     dict_map (\<lambda>g. g\<lparr>membership := filter (\<lambda>r. key r \<notin> gone) (membership g)\<rparr>) ros"

definition detach :: "(int \<times> int option) set \<Rightarrow> families \<Rightarrow> families" where
  "detach G fs = map (\<lambda>(fid, f). (fid, f\<lparr>py_members := filter (\<lambda>i. (i, Some fid) \<notin> G) (py_members f)\<rparr>)) fs"

lemma drop_rows_keep: "drop_rows key i ros = keep_rows key {i} ros"
  by (simp add: drop_rows_def keep_rows_def)

lemma keep_rows_empty [simp]: "keep_rows key {} ros = ros"
  by (auto simp: keep_rows_def dict_map_def intro: map_idI)

lemma keep_rows_Un: "keep_rows key A (keep_rows key B ros) = keep_rows key (A \<union> B) ros"
  by (auto simp: keep_rows_def dict_map_def conj_commute)

lemma detach_empty [simp]: "detach {} fs = fs"
  by (auto simp: detach_def intro: map_idI)

lemma detach_Un: "detach A (detach B fs) = detach (A \<union> B) fs"
  by (auto simp: detach_def conj_commute)

lemma dict_update_map:
  "dict_ok d \<Longrightarrow> map_of d k = Some v \<Longrightarrow>
   AList.update k (g v) d = map (\<lambda>(k', v'). (k', if k' = k then g v' else v')) d"
proof (induction d)
  case (Cons x d)
  then show ?case
    by (cases x) (auto simp: dict_ok_def image_iff intro!: map_idI [symmetric] map_cong)
qed simp

lemma dict_ok_detach [simp]: "dict_ok (detach G fs) \<longleftrightarrow> dict_ok fs"
  by (simp add: dict_ok_def detach_def case_prod_unfold comp_def)

lemma map_of_detach:
  "map_of (detach G fs) fid = map_option (\<lambda>f. f\<lparr>py_members := filter (\<lambda>i. (i, Some fid) \<notin> G) (py_members f)\<rparr>) (map_of fs fid)"
  by (induction fs) (auto simp: detach_def)

lemma filter_member_eq:
  assumes "dict_ok (st_families s)" "member_out_of_scope fl m"
  shows "filter_member fl s (k, m) =
    s\<lparr>st_objs := AList.update k (m\<lparr>py_active := False\<rparr>) (st_objs s),
      st_families := detach {(k, py_family m)} (st_families s),
      st_mwm := keep_rows row_member_key {k} (st_mwm s),
      st_mtm := keep_rows row_member_key {k} (st_mtm s),
      st_members := filter (\<lambda>(k', _). k' \<noteq> k) (st_members s)\<rparr>"
proof -
  have del: "AList.delete k d = filter (\<lambda>(k', _). k' \<noteq> k) d" for d :: members
    by (auto simp: AList.delete_eq eq_commute intro: filter_cong)
  have miss: "detach {(k, Some fid)} fs = fs" if "map_of fs fid = None" for fid fs
    using that by (auto simp: detach_def map_of_eq_None_iff image_iff intro!: map_idI)
  have hit: "detach {(k, Some fid)} fs = AList.update fid (f\<lparr>py_members := filter (\<lambda>i. i \<noteq> k) (py_members f)\<rparr>) fs"
    if "dict_ok fs" "map_of fs fid = Some f" for fid f fs
    unfolding dict_update_map [OF that, of "\<lambda>f. f\<lparr>py_members := filter (\<lambda>i. i \<noteq> k) (py_members f)\<rparr>"]
    by (auto simp: detach_def intro!: map_cong)
  have none: "detach {(k, None)} fs = fs" for fs
    by (auto simp: detach_def intro!: map_idI)
  show ?thesis
    using assms(2) none miss hit [OF assms(1)]
    by (auto simp: filter_member_def Let_def remove_memberships_for_member_def drop_rows_keep del
        split: option.splits)
qed

lemma filter_member_in_scope: "\<not> member_out_of_scope fl m \<Longrightarrow> filter_member fl s (k, m) = s"
  by (simp add: filter_member_def)

lemma filter_members_eq:
  fixes s :: ps_state
  assumes "dict_ok (st_families s)"
  shows "st_families (foldl (filter_member fl) s xs) = detach (gone_members fl xs) (st_families s) \<and>
    st_fwm (foldl (filter_member fl) s xs) = st_fwm s \<and>
    st_mwm (foldl (filter_member fl) s xs) = keep_rows row_member_key (fst ` gone_members fl xs) (st_mwm s) \<and>
    st_mtm (foldl (filter_member fl) s xs) = keep_rows row_member_key (fst ` gone_members fl xs) (st_mtm s) \<and>
    st_members (foldl (filter_member fl) s xs) =
      filter (\<lambda>(k, _). k \<notin> fst ` gone_members fl xs) (st_members s)"
  using assms
proof (induction xs arbitrary: s)
  case Nil
  then show ?case by (simp add: gone_members_def)
next
  case (Cons x xs)
  obtain k m where x: "x = (k, m)" by (cases x)
  show ?case
  proof (cases "member_out_of_scope fl m")
    case True
    let ?s = "filter_member fl s (k, m)"
    have G: "gone_members fl (x # xs) = gone_members fl xs \<union> {(k, py_family m)}"
      using True by (auto simp: gone_members_def x)
    note s1 = filter_member_eq [OF Cons.prems True]
    have ok: "dict_ok (st_families ?s)" by (simp add: s1 Cons.prems)
    show ?thesis
      using Cons.IH [OF ok] unfolding foldl.simps G unfolding x s1
      by (simp add: detach_Un keep_rows_Un image_Un conj_commute case_prod_unfold)
  next
    case False
    then have G: "gone_members fl (x # xs) = gone_members fl xs"
      by (auto simp: gone_members_def x)
    show ?thesis
      using Cons.IH [OF Cons.prems] unfolding foldl.simps G unfolding x filter_member_in_scope [OF False] .
  qed
qed

lemma filter_objs:
  "map_of (st_objs (foldl (filter_member fl) s xs)) k =
     (case map_of (rev (filter (\<lambda>(k, m). member_out_of_scope fl m) xs)) k of
        Some m \<Rightarrow> Some (m\<lparr>py_active := False\<rparr>) | None \<Rightarrow> map_of (st_objs s) k)"
proof (induction xs arbitrary: s)
  case (Cons x xs)
  obtain j m where x: "x = (j, m)" by (cases x)
  have "st_objs (filter_member fl s (j, m)) =
      (if member_out_of_scope fl m then AList.update j (m\<lparr>py_active := False\<rparr>) (st_objs s) else st_objs s)"
    by (simp add: filter_member_def Let_def remove_memberships_for_member_def split: option.splits)
  then show ?case
    by (simp add: Cons.IH x update_conv' map_add_def split: option.splits)
qed simp

definition gone_families :: "filter_flags \<Rightarrow> members \<Rightarrow> (int \<times> family) list \<Rightarrow> int set" where
  "gone_families fl objs ys = {fid. \<exists>f. (fid, f) \<in> set ys \<and> family_out_of_scope fl objs f}"

definition gone_with_families :: "filter_flags \<Rightarrow> members \<Rightarrow> (int \<times> family) list \<Rightarrow> int set" where
  "gone_with_families fl objs ys =
     {k. \<exists>fid f. (fid, f) \<in> set ys \<and> family_out_of_scope fl objs f \<and> k \<in> set (py_members f)}"

lemma filter_families_eq:
  "foldl (filter_family fl) s ys =
    s\<lparr>st_families := filter (\<lambda>(fid, _). fid \<notin> gone_families fl (st_objs s) ys) (st_families s),
      st_fwm := keep_rows row_family_key (gone_families fl (st_objs s) ys) (st_fwm s),
      st_mwm := keep_rows row_family_key (gone_families fl (st_objs s) ys) (st_mwm s),
      st_mtm := keep_rows row_family_key (gone_families fl (st_objs s) ys) (st_mtm s),
      st_members := filter (\<lambda>(k, _). k \<notin> gone_with_families fl (st_objs s) ys) (st_members s)\<rparr>"
proof (induction ys arbitrary: s)
  case Nil
  then show ?case by (simp add: gone_families_def gone_with_families_def)
next
  case (Cons y ys)
  obtain fid f where y: "y = (fid, f)" by (cases y)
  have del: "AList.delete i d = filter (\<lambda>(i', _). i' \<noteq> i) d" for i and d :: "(int, 'v) dict"
    by (auto simp: AList.delete_eq eq_commute intro: filter_cong)
  have dels: "fold AList.delete is d = filter (\<lambda>(k, _). k \<notin> set is) d" for "is" and d :: members
    by (induction "is" arbitrary: d) (auto simp: del intro: filter_cong)
  show ?case
  proof (cases "family_out_of_scope fl (st_objs s) f")
    case True
    then have G: "gone_families fl (st_objs s) (y # ys) = gone_families fl (st_objs s) ys \<union> {fid}"
      "gone_with_families fl (st_objs s) (y # ys) = gone_with_families fl (st_objs s) ys \<union> set (py_members f)"
      by (auto simp: gone_families_def gone_with_families_def y)
    from True have s1: "filter_family fl s (fid, f) =
      s\<lparr>st_members := filter (\<lambda>(k, _). k \<notin> set (py_members f)) (st_members s),
        st_fwm := keep_rows row_family_key {fid} (st_fwm s),
        st_mwm := keep_rows row_family_key {fid} (st_mwm s),
        st_mtm := keep_rows row_family_key {fid} (st_mtm s),
        st_families := filter (\<lambda>(i, _). i \<noteq> fid) (st_families s)\<rparr>"
      by (simp add: filter_family_def Let_def remove_memberships_for_family_def drop_rows_keep del dels)
    show ?thesis
      unfolding foldl.simps G unfolding y s1 Cons.IH
      by (simp add: keep_rows_Un conj_commute case_prod_unfold)
  next
    case False
    then have G: "gone_families fl (st_objs s) (y # ys) = gone_families fl (st_objs s) ys"
      "gone_with_families fl (st_objs s) (y # ys) = gone_with_families fl (st_objs s) ys"
      by (auto simp: gone_families_def gone_with_families_def y)
    from False have "filter_family fl s (fid, f) = s" by (simp add: filter_family_def)
    with Cons.IH [of s] show ?thesis by (simp add: y G [unfolded y])
  qed
qed


lemma map_of_filter_key: "map_of (filter (\<lambda>(k, _). P k) d) k = (if P k then map_of d k else None)"
  by (induction d) auto

lemma dict_ok_filter: "dict_ok d \<Longrightarrow> dict_ok (filter p d)"
  by (simp add: dict_ok_def distinct_map_filter)

lemma gone_member_iff:
  "dict_ok ms \<Longrightarrow> k \<in> fst ` gone_members fl ms \<longleftrightarrow> (\<exists>m. map_of ms k = Some m \<and> member_out_of_scope fl m)"
  by (force simp: gone_members_def dict_ok_Some_iff)

lemma gone_pair_iff:
  "dict_ok ms \<Longrightarrow> map_of ms k = Some m \<Longrightarrow>
   (k, x) \<in> gone_members fl ms \<longleftrightarrow> x = py_family m \<and> member_out_of_scope fl m"
  unfolding gone_members_def by (auto simp flip: dict_ok_Some_iff)

lemma linked_detach:
  assumes "linked fs ms"
  shows "linked (detach (gone_members fl ms) fs) (filter (\<lambda>(k, _). k \<notin> fst ` gone_members fl ms) ms)"
proof -
  let ?G = "gone_members fl ms" and ?ms = "filter (\<lambda>(k, _). k \<notin> fst ` gone_members fl ms) ms"
  have ok: "dict_ok fs" "dict_ok ms" using linked_dict_ok [OF assms] by auto
  have G: "(k, Some fid) \<in> ?G \<longleftrightarrow> k \<in> fst ` ?G" if "map_of ms k = Some m" "py_family m = Some fid" for k m fid
    unfolding gone_member_iff [OF ok(2)] gone_pair_iff [OF ok(2) that(1)] using that by auto
  have mem: "map_of ?ms k = (if k \<notin> fst ` ?G then map_of ms k else None)" for k
    by (rule map_of_filter_key)
  have "distinct (py_members f) \<and> (k \<in> set (py_members f) \<longleftrightarrow> (\<exists>m. map_of ?ms k = Some m \<and> py_family m = Some fid))"
    if "map_of (detach ?G fs) fid = Some f" for fid f k
  proof -
    from that obtain f0 where f0: "map_of fs fid = Some f0"
      "f = f0\<lparr>py_members := filter (\<lambda>i. (i, Some fid) \<notin> ?G) (py_members f0)\<rparr>"
      by (auto simp: map_of_detach)
    from linked_members [OF assms f0(1), of k] f0(2) G [of k] show ?thesis
      by (cases "map_of ms k") (auto simp: mem)
  qed
  moreover have "map_of (detach ?G fs) fid \<noteq> None" if "map_of ?ms k = Some m" "py_family m = Some fid" for k m fid
    using that linked_family [OF assms, of k m fid] by (auto simp: mem map_of_detach split: if_splits)
  ultimately show ?thesis
    unfolding linked_def using ok by (simp add: dict_ok_filter set_eq_iff)
qed

lemma linked_drop:
  assumes "linked fs ms"
  shows "linked (filter (\<lambda>(fid, _). fid \<notin> gone_families fl objs fs) fs)
    (filter (\<lambda>(k, _). k \<notin> gone_with_families fl objs fs) ms)"
    and "map_of ms k = Some m \<Longrightarrow> k \<in> gone_with_families fl objs fs \<longleftrightarrow>
      (\<exists>fid. py_family m = Some fid \<and> fid \<in> gone_families fl objs fs)"
proof -
  let ?Q = "gone_families fl objs fs" and ?W = "gone_with_families fl objs fs"
  have ok: "dict_ok fs" "dict_ok ms" using linked_dict_ok [OF assms] by auto
  have W: "k \<in> ?W \<longleftrightarrow> (\<exists>fid. py_family m = Some fid \<and> fid \<in> ?Q)" if "map_of ms k = Some m" for k m
  proof
    assume "k \<in> ?W"
    then obtain fid f where f: "map_of fs fid = Some f" "family_out_of_scope fl objs f" "k \<in> set (py_members f)"
      using ok(1) by (auto simp: gone_with_families_def dict_ok_Some_iff)
    with linked_members [OF assms f(1), of k] that show "\<exists>fid. py_family m = Some fid \<and> fid \<in> ?Q"
      using ok(1) by (auto simp: gone_families_def dict_ok_Some_iff)
  next
    assume "\<exists>fid. py_family m = Some fid \<and> fid \<in> ?Q"
    then obtain fid f where f: "py_family m = Some fid" "map_of fs fid = Some f" "family_out_of_scope fl objs f"
      using ok(1) by (auto simp: gone_families_def dict_ok_Some_iff)
    with linked_members [OF assms f(2), of k] that show "k \<in> ?W"
      using ok(1) by (auto simp: gone_with_families_def dict_ok_Some_iff)
  qed
  show "k \<in> ?W \<longleftrightarrow> (\<exists>fid. py_family m = Some fid \<and> fid \<in> ?Q)" if "map_of ms k = Some m"
    using W [OF that] .
  let ?fs = "filter (\<lambda>(fid, _). fid \<notin> ?Q) fs" and ?ms = "filter (\<lambda>(k, _). k \<notin> ?W) ms"
  have mem: "map_of ?ms k = (if k \<notin> ?W then map_of ms k else None)"
    "map_of ?fs fid = (if fid \<notin> ?Q then map_of fs fid else None)" for k fid
    by (rule map_of_filter_key)+
  have "distinct (py_members f) \<and> (k \<in> set (py_members f) \<longleftrightarrow> (\<exists>m. map_of ?ms k = Some m \<and> py_family m = Some fid))"
    if "map_of ?fs fid = Some f" for fid f k
  proof -
    from that have f: "map_of fs fid = Some f" "fid \<notin> ?Q" by (auto simp: mem split: if_splits)
    from linked_members [OF assms f(1), of k] W [of k] f(2) show ?thesis
      by (cases "map_of ms k") (auto simp: mem)
  qed
  moreover have "map_of ?fs fid \<noteq> None" if "map_of ?ms k = Some m" "py_family m = Some fid" for k m fid
    using that W [of k m] linked_family [OF assms, of k m fid] by (auto simp: mem split: if_splits)
  ultimately show "linked ?fs ?ms"
    unfolding linked_def using ok by (simp add: dict_ok_filter set_eq_iff)
qed

text \<open>The families that stay, in terms of the data before the filter.\<close>

definition kept_keys :: "filter_flags \<Rightarrow> members \<Rightarrow> family \<Rightarrow> int list" where
  "kept_keys fl ms f = filter (\<lambda>k. case map_of ms k of Some m \<Rightarrow> \<not> member_out_of_scope fl m | None \<Rightarrow> False) (py_members f)"

definition family_stays :: "filter_flags \<Rightarrow> members \<Rightarrow> family \<Rightarrow> bool" where
  "family_stays fl ms f \<longleftrightarrow>
     (kept_keys fl ms f \<noteq> [] \<or> retain_empty_families fl) \<and>
     (active_only fl \<longrightarrow> py_family_group f \<noteq> Some ''Inactive'' \<and> kept_keys fl ms f \<noteq> []) \<and>
     (parishioners_only fl \<longrightarrow> family_is_parishioner f (Some (ff_org_id fl)))"

lemma out_of_scope_mark [simp]: "member_out_of_scope fl (m\<lparr>py_active := b\<rparr>) = member_out_of_scope fl m"
  "member_is_active (m\<lparr>py_active := b\<rparr>) = member_is_active m"
  by (simp_all add: member_out_of_scope_def member_is_deceased_def member_is_active_def)

lemma list_ex_map_filter:
  "\<forall>k\<in>set ks. \<exists>v. f k = Some v \<Longrightarrow> list_ex P (List.map_filter f ks) \<longleftrightarrow> (\<exists>k\<in>set ks. P (the (f k)))"
  by (induction ks) (auto simp: map_filter_simps)

lemma family_scope_after_detach:
  assumes ok: "dict_ok ms" and mem: "\<forall>k\<in>set (py_members f). map_of ms k \<noteq> None"
    and fam: "\<forall>k\<in>set (py_members f). \<forall>m. map_of ms k = Some m \<longrightarrow> py_family m = Some fid"
    and objs: "\<And>k. map_of objs k = (case map_of ms k of None \<Rightarrow> None
      | Some m \<Rightarrow> Some (m\<lparr>py_active := \<not> member_out_of_scope fl m\<rparr>))"
  shows "family_out_of_scope fl objs (f\<lparr>py_members := filter (\<lambda>i. (i, Some fid) \<notin> gone_members fl ms) (py_members f)\<rparr>)
    \<longleftrightarrow> \<not> family_stays fl ms f"
proof -
  have keys: "filter (\<lambda>i. (i, Some fid) \<notin> gone_members fl ms) (py_members f) = kept_keys fl ms f"
    unfolding kept_keys_def
  proof (rule filter_cong [OF refl])
    fix k assume k: "k \<in> set (py_members f)"
    with mem obtain m where m: "map_of ms k = Some m" by auto
    with fam k have "py_family m = Some fid" by auto
    with m ok show "((k, Some fid) \<notin> gone_members fl ms) =
        (case map_of ms k of Some m \<Rightarrow> \<not> member_out_of_scope fl m | None \<Rightarrow> False)"
      by (simp add: gone_pair_iff)
  qed
  have ko: "\<exists>m. map_of ms k = Some m \<and> \<not> member_out_of_scope fl m" if "k \<in> set (kept_keys fl ms f)" for k
    using that by (auto simp: kept_keys_def split: option.splits)
  have oo: "\<forall>k\<in>set (kept_keys fl ms f). \<exists>v. map_of objs k = Some v"
    using ko by (fastforce simp: objs)
  have act: "list_ex py_active (List.map_filter (map_of objs) (kept_keys fl ms f)) \<longleftrightarrow> kept_keys fl ms f \<noteq> []"
    unfolding list_ex_map_filter [OF oo]
    using ko by (fastforce simp: objs neq_Nil_conv)
  have act2: "active_only fl \<Longrightarrow> list_ex member_is_active (List.map_filter (map_of objs) (kept_keys fl ms f)) \<longleftrightarrow> kept_keys fl ms f \<noteq> []"
    unfolding list_ex_map_filter [OF oo]
    using ko by (fastforce simp: objs neq_Nil_conv member_out_of_scope_def)
  have frame: "py_family_group (f\<lparr>py_members := x\<rparr>) = py_family_group f"
    "family_is_parishioner (f\<lparr>py_members := x\<rparr>) = family_is_parishioner f" for x
    by (auto simp: family_is_parishioner_def fun_eq_iff split: option.splits)
  show ?thesis
    unfolding family_out_of_scope_def family_stays_def family_is_active_def family_members_def keys frame
    using act act2 by auto
qed


section \<open>The two passes\<close>

definition marked :: "ps_state \<Rightarrow> ps_state" where
  "marked s = (let ms = dict_map (\<lambda>m. m\<lparr>py_active := True\<rparr>) (st_members s)
               in s\<lparr>st_members := ms, st_objs := ms\<rparr>)"

definition pass_one :: "filter_flags \<Rightarrow> ps_state \<Rightarrow> ps_state" where
  "pass_one fl s = foldl (filter_member fl) (marked s) (st_members (marked s))"

definition out_members :: "filter_flags \<Rightarrow> ps_state \<Rightarrow> int set" where
  "out_members fl s = {k. \<exists>m. map_of (st_members s) k = Some m \<and> member_out_of_scope fl m}"

lemma filter_passes:
  "filter_families_and_members fl s = foldl (filter_family fl) (pass_one fl s) (st_families (pass_one fl s))"
  by (simp add: filter_families_and_members_def pass_one_def marked_def Let_def)

lemma marked_members: "map_of (st_members (marked s)) k = map_option (\<lambda>m. m\<lparr>py_active := True\<rparr>) (map_of (st_members s) k)"
  by (simp add: marked_def Let_def)

lemma linked_marked:
  assumes "linked (st_families s) (st_members s)"
  shows "linked (st_families s) (st_members (marked s))" "dict_ok (st_families s)" "dict_ok (st_members (marked s))"
proof -
  have "dict_ok (st_members (marked s))" using assms by (simp add: linked_def marked_def Let_def)
  moreover from this assms show "linked (st_families s) (st_members (marked s))" "dict_ok (st_families s)"
    unfolding linked_def by (auto simp: marked_members)
  ultimately show "dict_ok (st_members (marked s))" by blast
qed

lemma gone_marked:
  assumes "dict_ok (st_members (marked s))"
  shows "fst ` gone_members fl (st_members (marked s)) = out_members fl s"
  by (rule set_eqI, unfold gone_member_iff [OF assms] out_members_def) (auto simp: marked_members)

lemma pass_one_eq:
  assumes "linked (st_families s) (st_members s)"
  shows "st_families (pass_one fl s) = detach (gone_members fl (st_members (marked s))) (st_families s)"
    "st_fwm (pass_one fl s) = st_fwm s"
    "st_mwm (pass_one fl s) = keep_rows row_member_key (out_members fl s) (st_mwm s)"
    "st_mtm (pass_one fl s) = keep_rows row_member_key (out_members fl s) (st_mtm s)"
    "st_members (pass_one fl s) = filter (\<lambda>(k, _). k \<notin> out_members fl s) (st_members (marked s))"
proof -
  note L = linked_marked [OF assms]
  have "st_families (marked s) = st_families s" "st_fwm (marked s) = st_fwm s"
    "st_mwm (marked s) = st_mwm s" "st_mtm (marked s) = st_mtm s"
    by (simp_all add: marked_def Let_def)
  with filter_members_eq [of "marked s" fl "st_members (marked s)"] L(2)
  show "st_families (pass_one fl s) = detach (gone_members fl (st_members (marked s))) (st_families s)"
    "st_fwm (pass_one fl s) = st_fwm s"
    "st_mwm (pass_one fl s) = keep_rows row_member_key (out_members fl s) (st_mwm s)"
    "st_mtm (pass_one fl s) = keep_rows row_member_key (out_members fl s) (st_mtm s)"
    "st_members (pass_one fl s) = filter (\<lambda>(k, _). k \<notin> out_members fl s) (st_members (marked s))"
    by (simp_all add: pass_one_def gone_marked [OF L(3)])
qed

lemma linked_pass_one:
  assumes "linked (st_families s) (st_members s)"
  shows "linked (st_families (pass_one fl s)) (st_members (pass_one fl s))"
  using linked_detach [OF linked_marked(1) [OF assms], of fl]
  unfolding pass_one_eq [OF assms] gone_marked [OF linked_marked(3) [OF assms]] .

lemma pass_one_members:
  assumes "linked (st_families s) (st_members s)"
  shows "map_of (st_members (pass_one fl s)) k = Some m \<longleftrightarrow>
    (\<exists>m0. map_of (st_members s) k = Some m0 \<and> m = m0\<lparr>py_active := True\<rparr> \<and> \<not> member_out_of_scope fl m0)"
  unfolding pass_one_eq [OF assms] map_of_filter_key by (auto simp: marked_members out_members_def)

lemma map_of_rev_filter_value:
  assumes "dict_ok d"
  shows "map_of (rev (filter (\<lambda>(k, v). P v) d)) k =
    (case map_of d k of Some v \<Rightarrow> if P v then Some v else None | None \<Rightarrow> None)"
proof -
  let ?d = "filter (\<lambda>(k, v). P v) d"
  have "dict_ok ?d" by (rule dict_ok_filter [OF assms])
  then have "map_of (rev ?d) = map_of ?d"
    unfolding dict_ok_def by (subst map_of_inject_set) (auto simp: rev_map [symmetric])
  moreover have "map_of ?d k = (case map_of d k of Some v \<Rightarrow> if P v then Some v else None | None \<Rightarrow> None)"
    using assms unfolding dict_ok_def
    by (induction d) (auto simp: map_of_eq_None_iff image_iff split: option.splits)
  ultimately show ?thesis by simp
qed

lemma pass_one_objs:
  assumes "dict_ok (st_members (marked s))"
  shows "map_of (st_objs (pass_one fl s)) k = (case map_of (st_members (marked s)) k of None \<Rightarrow> None
      | Some m \<Rightarrow> Some (m\<lparr>py_active := \<not> member_out_of_scope fl m\<rparr>))"
proof -
  have "st_objs (marked s) = st_members (marked s)" by (simp add: marked_def Let_def)
  then show ?thesis
    unfolding pass_one_def filter_objs map_of_rev_filter_value [OF assms]
    by (auto simp: marked_members split: option.splits)
qed

lemma family_stays_marked:
  "family_stays fl (st_members (marked s)) f = family_stays fl (st_members s) f"
  by (simp add: family_stays_def kept_keys_def marked_members option.case_eq_if option.map_sel cong: filter_cong)

abbreviation dropped :: "filter_flags \<Rightarrow> ps_state \<Rightarrow> int set" where
  "dropped fl s \<equiv> gone_families fl (st_objs (pass_one fl s)) (st_families (pass_one fl s))"

lemma dropped_iff:
  assumes "linked (st_families s) (st_members s)"
  shows "fid \<in> dropped fl s \<longleftrightarrow>
    (\<exists>f. map_of (st_families s) fid = Some f \<and> \<not> family_stays fl (st_members s) f)"
proof -
  note L = linked_marked [OF assms] and one = pass_one_eq [OF assms, of fl]
  have "fid \<in> dropped fl s \<longleftrightarrow> (\<exists>f. map_of (st_families (pass_one fl s)) fid = Some f \<and>
      family_out_of_scope fl (st_objs (pass_one fl s)) f)"
    using linked_pass_one [OF assms, of fl] by (auto simp: gone_families_def linked_def dict_ok_Some_iff)
  also have "\<dots> \<longleftrightarrow> (\<exists>f. map_of (st_families s) fid = Some f \<and> \<not> family_stays fl (st_members (marked s)) f)"
  proof (cases "map_of (st_families s) fid")
    case (Some f)
    have fm: "\<forall>k\<in>set (py_members f). map_of (st_members (marked s)) k \<noteq> None"
      "\<forall>k\<in>set (py_members f). \<forall>m. map_of (st_members (marked s)) k = Some m \<longrightarrow> py_family m = Some fid"
      using linked_members [OF L(1) Some] by auto
    show ?thesis
      using family_scope_after_detach [OF L(3) fm pass_one_objs [OF L(3)]] Some
      by (simp add: one(1) map_of_detach)
  qed (simp add: one(1) map_of_detach)
  finally show ?thesis by (simp add: family_stays_marked)
qed

lemma family_gone_iff:
  assumes "linked (st_families s) (st_members s)"
  shows "map_of (st_families (filter_families_and_members fl s)) fid = None \<longleftrightarrow>
    fid \<in> dropped fl s \<or> map_of (st_families s) fid = None"
  unfolding filter_passes filter_families_eq
  by (auto simp: map_of_filter_key pass_one_eq(1) [OF assms] map_of_detach)

section \<open>What the filter leaves\<close>

lemma filter_linked:
  assumes "linked (st_families s) (st_members s)"
  shows "linked (st_families (filter_families_and_members fl s)) (st_members (filter_families_and_members fl s))"
  unfolding filter_passes filter_families_eq
  using linked_drop(1) [OF linked_pass_one [OF assms]] by simp

lemma filter_families_stay:
  assumes "linked (st_families s) (st_members s)"
  shows "map_of (st_families (filter_families_and_members fl s)) fid \<noteq> None \<longleftrightarrow>
    (\<exists>f. map_of (st_families s) fid = Some f \<and> family_stays fl (st_members s) f)"
  unfolding family_gone_iff [OF assms] dropped_iff [OF assms] by auto

lemma filter_members_stay:
  assumes "linked (st_families s) (st_members s)"
  shows "map_of (st_members (filter_families_and_members fl s)) k = Some m \<longleftrightarrow>
    (\<exists>m0. map_of (st_members s) k = Some m0 \<and> m = m0\<lparr>py_active := True\<rparr> \<and> \<not> member_out_of_scope fl m0 \<and>
       (\<forall>fid. py_family m0 = Some fid \<longrightarrow> map_of (st_families (filter_families_and_members fl s)) fid \<noteq> None))"
proof (cases "map_of (st_members (pass_one fl s)) k")
  case None
  then have "\<not> (\<exists>m. map_of (st_members (pass_one fl s)) k = Some m)" by simp
  with None show ?thesis
    unfolding filter_passes [of fl s] filter_families_eq pass_one_members [OF assms]
    by (auto simp: map_of_filter_key)
next
  case (Some m1)
  then obtain m0 where m0: "map_of (st_members s) k = Some m0" "m1 = m0\<lparr>py_active := True\<rparr>"
    "\<not> member_out_of_scope fl m0"
    by (auto simp: pass_one_members [OF assms])
  have mem: "map_of (st_members (filter_families_and_members fl s)) k =
      (if k \<notin> gone_with_families fl (st_objs (pass_one fl s)) (st_families (pass_one fl s))
       then map_of (st_members (pass_one fl s)) k else None)"
    unfolding filter_passes filter_families_eq by (simp add: map_of_filter_key)
  have "map_of (st_families s) fid \<noteq> None" if "py_family m0 = Some fid" for fid
    using linked_family [OF assms m0(1) that] by auto
  then show ?thesis
    unfolding mem linked_drop(2) [OF linked_pass_one [OF assms] Some] family_gone_iff [OF assms]
    using Some m0 by auto
qed

lemma filter_rosters:
  fixes s :: ps_state and fl :: filter_flags
  assumes "linked (st_families s) (st_members s)"
  defines "s' \<equiv> filter_families_and_members fl s"
  defines "Q \<equiv> {fid. map_of (st_families s) fid \<noteq> None \<and> map_of (st_families s') fid = None}"
  shows "st_fwm s' = keep_rows row_family_key Q (st_fwm s)"
    and "st_mwm s' = keep_rows row_family_key Q (keep_rows row_member_key (out_members fl s) (st_mwm s))"
    and "st_mtm s' = keep_rows row_family_key Q (keep_rows row_member_key (out_members fl s) (st_mtm s))"
proof -
  have "dropped fl s = Q"
    unfolding Q_def s'_def family_gone_iff [OF assms(1)] using dropped_iff [OF assms(1), of _ fl] by auto
  then show "st_fwm s' = keep_rows row_family_key Q (st_fwm s)"
    and "st_mwm s' = keep_rows row_family_key Q (keep_rows row_member_key (out_members fl s) (st_mwm s))"
    and "st_mtm s' = keep_rows row_family_key Q (keep_rows row_member_key (out_members fl s) (st_mtm s))"
    unfolding s'_def filter_passes filter_families_eq by (simp_all add: pass_one_eq [OF assms(1)])
qed


section \<open>A small snapshot\<close>

definition demo_person :: "int \<Rightarrow> int \<Rightarrow> string \<Rightarrow> member" where
  "demo_person k fid status =
     \<lparr>memberDUID = k, m_familyDUID = fid, firstName = ''Pat'', lastName = ''Roe'',
      emailAddress = Some '' Pat@Example.org;pat@example.org; x@y.org'', py_emailAddresses = None,
      memberStatus = Some status, memberType = None, family_PublishPhone = False,
      family_PublishEMail = False, mobilePhone = None, homePhone = None, py_family = None,
      py_contactInfo = None, py_member_workgroups = [], py_workgroups = [],
      py_ministries = [], py_friendly_FL = None, py_friendly_LF = None, py_active = False\<rparr>"

definition demo_family :: "int \<Rightarrow> int \<Rightarrow> family" where
  "demo_family fid org =
     \<lparr>f_familyDUID = fid, eMailAddress = None, py_eMailAddresses = None,
      registeredOrganizationID = Some org, famGroupID = None, familyGroupID = None,
      py_family_group = None, py_members = [], py_family_workgroups = [], f_py_workgroups = [],
      py_pledges = [], py_contributions = []\<rparr>"

definition demo_row :: "int \<Rightarrow> int option \<Rightarrow> membership_row" where
  "demo_row k fid =
     \<lparr>row_memberDUID = Some k, row_memberId = None, row_familyDUID = fid, row_familyId = None,
      py_member_duid = Some k, py_family_duid = fid, row_role = None,
      row_start = Some (Date 2024 1 1), row_end = None\<rparr>"

definition demo_families :: families where
  "demo_families = [(1, demo_family 1 100), (2, demo_family 2 200)]"

definition demo_members :: members where
  "demo_members = [(10, demo_person 10 1 ''Active''), (11, demo_person 11 1 ''Deceased''), (20, demo_person 20 2 ''Active'')]"

definition demo_state :: ps_state where
  "demo_state =
     (let (fs, ms) = link_families_and_members demo_families demo_members
      in \<lparr>st_families = fs, st_members = ms, st_objs = ms, st_fwm = [],
          st_mwm = [(5, \<lparr>ro_id = 5, ro_name = ''Ushers'', membership = [demo_row 20 None, demo_row 11 None, demo_row 20 (Some 2)]\<rparr>)],
          st_mtm = []\<rparr>)"

definition demo_flags :: filter_flags where
  "demo_flags = \<lparr>ff_org_id = 100, active_only = True, parishioners_only = True,
     include_deceased = False, retain_empty_families = False\<rparr>"

lemma demo_linked: "linked (st_families demo_state) (st_members demo_state)"
proof -
  have ok: "dict_ok demo_families" "dict_ok demo_members"
    by (simp_all add: dict_ok_def demo_families_def demo_members_def)
  show ?thesis
    using link_families_and_members_linked [OF ok, of "st_families demo_state" "st_members demo_state"]
    by (simp add: demo_state_def split: prod.splits)
qed

text \<open>
  A row that names no family keeps a removed member alive in a roster: the filter removes member
  20 together with family 2, and the row of member 20 without a family identifier stays.
\<close>

lemma filter_leaves_orphan_row:
  "map_of (st_members (filter_families_and_members demo_flags demo_state)) 20 = None \<and>
   (\<exists>i ro row. (i, ro) \<in> set (st_mwm (filter_families_and_members demo_flags demo_state)) \<and>
      row \<in> set (membership ro) \<and> row_member_key row = 20)"
proof -
  have "st_mwm (filter_families_and_members demo_flags demo_state) =
      [(5, \<lparr>ro_id = 5, ro_name = ''Ushers'', membership = [demo_row 20 None]\<rparr>)]" by code_simp
  moreover have "map_of (st_members (filter_families_and_members demo_flags demo_state)) 20 = None" by code_simp
  ultimately show ?thesis by (simp add: demo_row_def row_member_key_def py_or_def)
qed

section \<open>Properties\<close>

text \<open>
  Address lists are normal forms. Every address of a member is lower case, stripped, not empty
  and contains no separator, no address occurs twice, and storing the normal form of a member's
  e-mail field changes neither the addresses nor, when done again, the record.
\<close>

theorem member_addresses_normal:
  "distinct (member_email_addresses m) \<and> (\<forall>e\<in>set (member_email_addresses m). address_ok e) \<and>
   normalize_member_email (normalize_member_email m) = normalize_member_email m \<and>
   (py_emailAddresses m = None \<longrightarrow>
      member_email_addresses (normalize_member_email m) = member_email_addresses m)"
proof -
  have j: "split_email_addresses [join ''; '' (split_email_addresses xs)] = split_email_addresses xs" for xs
    by (intro split_joined_addresses ballI split_email_addresses_ok split_email_addresses_spec(1))
  have "normalize_member_email (normalize_member_email m) = normalize_member_email m"
    by (auto simp: normalize_member_email_def Let_def j split: option.splits)
  moreover have "py_emailAddresses m = None \<longrightarrow>
      member_email_addresses (normalize_member_email m) = member_email_addresses m"
    by (auto simp: normalize_member_email_def member_email_addresses_def Let_def addresses.norm_idem
        split: option.splits)
  ultimately show ?thesis
    by (auto simp: member_email_addresses_def split_email_addresses_spec(1)
        intro: split_email_addresses_ok split: option.splits)
qed

theorem member_addresses_normal_witness:
  "member_email_addresses (demo_person 1 1 ''Active'') = [''pat@example.org'', ''x@y.org''] \<and>
   member_email_addresses (normalize_member_email (demo_person 1 1 ''Active'')) = [''pat@example.org'', ''x@y.org''] \<and>
   distinct (member_email_addresses (demo_person 1 1 ''Active''))"
proof -
  have "member_email_addresses (demo_person 1 1 ''Active'') = [''pat@example.org'', ''x@y.org'']" by code_simp
  then show ?thesis using member_addresses_normal [of "demo_person 1 1 ''Active''"]
    by (simp add: demo_person_def)
qed

text \<open>
  Cross-linking. After \<open>link_families_and_members\<close> every family lists, in order, exactly
  the members whose family identifier names it, a member points to its family when that family
  was loaded and to nothing otherwise, and the two directions agree.
\<close>

theorem link_families_and_members_correct:
  assumes "dict_ok fs" "dict_ok ms" "link_families_and_members fs ms = (fs', ms')"
  shows "linked fs' ms' \<and>
    (\<forall>fid. map_of fs' fid = map_option (\<lambda>f. f\<lparr>py_members :=
       map fst (filter (\<lambda>(k, m). m_familyDUID m = fid) ms)\<rparr>) (map_of fs fid)) \<and>
    (\<forall>k. map_of ms' k = map_option (\<lambda>m. m\<lparr>py_family :=
       if map_of fs (m_familyDUID m) = None then None else Some (m_familyDUID m)\<rparr>) (map_of ms k))"
  using link_families_and_members_linked [OF assms] link_families_and_members_spec(3,4) [OF assms]
  by (simp add: family_of_def)

theorem link_families_and_members_correct_witness:
  "linked (fst (link_families_and_members demo_families demo_members))
     (snd (link_families_and_members demo_families demo_members))"
  using link_families_and_members_correct [of demo_families demo_members]
  by (simp add: dict_ok_def demo_families_def demo_members_def)

text \<open>
  \<open>link_member_ministries\<close> attaches a ministry to a member only because of a membership row of
  that member that is current today, in a roster of that name, with the role of that row.
\<close>

theorem member_ministries_current:
  "map_of (link_member_ministries today ms mtm) k = Some m \<Longrightarrow> map_of (py_ministries m) name = Some e \<Longrightarrow>
   ministry_from today mtm k name e"
  using link_member_ministries_ok unfolding ministries_ok_def by blast

theorem member_ministries_current_witness:
  "ministry_from (Date 2025 6 1) [(5, \<lparr>ro_id = 5, ro_name = ''Choir'', membership = [demo_row 10 None]\<rparr>)] 10 ''Choir''
     (ministry_entry_of \<lparr>ro_id = 5, ro_name = ''Choir'', membership = [demo_row 10 None]\<rparr> 10 (demo_row 10 None) None)"
  by (rule member_ministries_current [where ms = demo_members and
      m = "the (map_of (link_member_ministries (Date 2025 6 1) demo_members
        [(5, \<lparr>ro_id = 5, ro_name = ''Choir'', membership = [demo_row 10 None]\<rparr>)]) 10)"]) code_simp+



text \<open>
  The default start of the giving history, one year before today, exists for every valid date
  after the first year, is valid, and differs from the same day of the previous year only for
  29 February, which becomes 28 February.
\<close>

theorem one_year_ago_valid:
  assumes "valid_date today" "2 \<le> year today"
  shows "\<exists>d. one_year_ago today = Inr d \<and> valid_date d \<and> d < today \<and> year d = year today - 1 \<and>
    month d = month today \<and> day d = (if month today = 2 \<and> day today = 29 then 28 else day today)"
proof (cases "month today = 2 \<and> day today = 29")
  case True
  then have "\<not> leap_year (year today - 1)"
    using assms(1) by (auto simp: valid_date_def days_in_month_def leap_year_pred split: if_splits)
  with True assms show ?thesis
    by (auto simp: one_year_ago_def date_replace_def valid_date_def days_in_month_def less_date_def)
next
  case False
  with assms have "valid_date (Date (year today - 1) (month today) (day today))"
    by (auto simp: valid_date_def days_in_month_def split: if_splits)
  with False show ?thesis by (auto simp: one_year_ago_def date_replace_def less_date_def)
qed

theorem one_year_ago_valid_witness: "one_year_ago (Date 2024 2 29) = Inr (Date 2023 2 28)"
proof -
  have "valid_date (Date 2024 2 29)" by code_simp
  from one_year_ago_valid [OF this] obtain d where "one_year_ago (Date 2024 2 29) = Inr d"
    "year d = 2023" "month d = 2" "day d = 28" by auto
  then show ?thesis by (cases d) simp
qed

end
