(* ===== verification/CC_Plan_Facts.thy ===== *)
theory CC_Plan_Facts
  imports CC_Run ParishSoft_Facts
begin

text \<open>
  Lemmas about the plan of \<open>pk-sync-ps-to-cc\<close>: the dictionaries of members and actions keyed by
  address, the cross-references of lists and contacts, the opt-out filter, and what the computed
  actions and the request bodies made from them contain.
\<close>

section \<open>Dictionaries keyed by address\<close>

lemma foldl_snoc: "foldl (\<lambda>v e. v @ [f e]) xs es = xs @ map f es"
  by (induction es arbitrary: xs) auto

interpretation by_email: keyed_merge fst "\<lambda>em. [snd em]" "\<lambda>v em. v @ [snd em]" index_member
  by unfold_locales (auto simp: index_member_def)

interpretation grouped: keyed_merge ca_email "\<lambda>a. [a]" "\<lambda>v a. v @ [a]" add_to_group
  by unfold_locales (auto simp: add_to_group_def)

lemma filter_eq_distinct: "distinct xs \<Longrightarrow> filter (\<lambda>x. x = e) xs = (if e \<in> set xs then [e] else [])"
  by (induction xs) auto

lemma member_email_addresses_distinct: "distinct (member_email_addresses m)"
  by (auto simp: member_email_addresses_def split_email_addresses_spec(1) split: option.splits)

lemma member_email_addresses_ok: "e \<in> set (member_email_addresses m) \<Longrightarrow> address_ok e"
  by (auto simp: member_email_addresses_def split_email_addresses_ok split: option.splits if_splits)

text \<open>The members under an address are those that have it, in the order of the snapshot.\<close>

definition holders :: "members \<Rightarrow> string \<Rightarrow> member list" where
  "holders ms e = filter (\<lambda>m. e \<in> set (member_email_addresses m)) (map snd ms)"

lemma members_by_email_lookup:
  "map_of (members_by_email ms) e = (if holders ms e = [] then None else Some (holders ms e))"
proof -
  let ?es = "concat (map (\<lambda>(_, m). map (\<lambda>e. (e, m)) (member_email_addresses m)) ms)"
  have "map snd (filter (\<lambda>em. fst em = e) ?es) = holders ms e"
    by (induction ms) (auto simp: holders_def filter_map o_def filter_eq_distinct member_email_addresses_distinct)
  moreover have "map_of (members_by_email ms) e =
      (case filter (\<lambda>em. fst em = e) ?es of [] \<Rightarrow> None | x # xs \<Rightarrow> Some (snd x # map snd xs))"
    using by_email.map_of_add_all [of "[]" ?es e]
    by (simp add: members_by_email_def by_email.add_all_def foldl_snoc split: list.splits)
  ultimately show ?thesis by (auto split: list.splits)
qed

lemma group_by_email_lookup:
  "map_of (group_by_email actions) e =
     (case filter (\<lambda>a. ca_email a = e) actions of [] \<Rightarrow> None | a # as \<Rightarrow> Some (a # as))"
  using grouped.map_of_add_all [of "[]" actions e]
  by (simp add: group_by_email_def grouped.add_all_def foldl_snoc [where f = "\<lambda>x. x"] split: list.splits)

lemma group_by_email_ok: "dict_ok (group_by_email actions)"
  using grouped.dict_ok_add_all [of "[]" actions] by (simp add: group_by_email_def grouped.add_all_def)

lemma group_by_email_entry:
  assumes "(e, as) \<in> set (group_by_email actions)"
  shows "as = filter (\<lambda>a. ca_email a = e) actions"
proof -
  have "map_of (group_by_email actions) e = Some as"
    using assms group_by_email_ok by (simp add: dict_ok_Some_iff)
  then show ?thesis by (auto simp: group_by_email_lookup split: list.splits)
qed

lemma group_by_email_keys: "fst ` set (group_by_email actions) = ca_email ` set actions"
  using grouped.keys_add_all [of "[]" actions] by (simp add: group_by_email_def grouped.add_all_def)

section \<open>Lists and their contacts\<close>

lemma lookup_list_iff:
  assumes "distinct (map list_id ls)"
  shows "lookup_list ls i = Some n \<longleftrightarrow> n < length ls \<and> list_id (ls ! n) = i"
proof -
  have "map fst (map (\<lambda>(n, l). (list_id l, n)) (enumerate 0 ls)) = map list_id ls"
    by (rule nth_equalityI) (auto simp: nth_enumerate_eq)
  with assms have "distinct (map fst (rev (map (\<lambda>(n, l). (list_id l, n)) (enumerate 0 ls))))"
    by (metis distinct_rev rev_map)
  then have "lookup_list ls i = Some n \<longleftrightarrow> (i, n) \<in> set (map (\<lambda>(n, l). (list_id l, n)) (enumerate 0 ls))"
    unfolding lookup_list_def by (metis map_of_eq_Some_iff set_rev)
  also have "\<dots> \<longleftrightarrow> n < length ls \<and> list_id (ls ! n) = i"
    by (auto simp: in_set_enumerate_eq intro!: image_eqI [where x = "(n, ls ! n)"])
  finally show ?thesis .
qed

definition shape :: "cc_list list \<Rightarrow> (string \<times> string) list" where
  "shape ls = map (\<lambda>l. (list_id l, list_name l)) ls"

lemma shape_ids: "map list_id ls = map fst (shape ls)"
  by (simp add: shape_def)

lemma shape_length: "shape ls = shape ls' \<Longrightarrow> length ls = length ls'"
  unfolding shape_def by (metis length_map)

lemma shape_nth:
  assumes "shape ls = shape ls'" and "n < length ls"
  shows "list_id (ls ! n) = list_id (ls' ! n)" "list_name (ls ! n) = list_name (ls' ! n)"
proof -
  from assms have "shape ls ! n = shape ls' ! n" "n < length ls'" by (auto dest: shape_length)
  with assms(2) show "list_id (ls ! n) = list_id (ls' ! n)" "list_name (ls ! n) = list_name (ls' ! n)"
    by (simp_all add: shape_def)
qed

lemma enter_contact_spec:
  assumes "distinct (map list_id ls)"
  shows "shape (enter_contact e ls i) = shape ls"
    and "n < length ls \<Longrightarrow> CONTACTS (enter_contact e ls i ! n) =
      (if list_id (ls ! n) = i \<and> e \<notin> set (CONTACTS (ls ! n)) then CONTACTS (ls ! n) @ [e] else CONTACTS (ls ! n))"
proof -
  show "shape (enter_contact e ls i) = shape ls"
    by (auto simp: enter_contact_def shape_def Let_def map_update list_update_same_conv
        lookup_list_iff [OF assms] split: option.splits)
  show "CONTACTS (enter_contact e ls i ! n) =
      (if list_id (ls ! n) = i \<and> e \<notin> set (CONTACTS (ls ! n)) then CONTACTS (ls ! n) @ [e] else CONTACTS (ls ! n))"
    if n: "n < length ls"
  proof (cases "lookup_list ls i")
    case None
    then have "list_id (ls ! n) \<noteq> i" using lookup_list_iff [OF assms, of i n] n by auto
    with None show ?thesis by (simp add: enter_contact_def)
  next
    case (Some k)
    then have k: "k < length ls" "list_id (ls ! k) = i" by (auto simp: lookup_list_iff [OF assms])
    have "list_id (ls ! n) = i \<longleftrightarrow> n = k"
      using k n assms by (auto simp: distinct_map_nthD)
    with Some k n show ?thesis by (auto simp: enter_contact_def Let_def nth_list_update)
  qed
qed

lemma enter_contacts_spec:
  assumes "distinct (map list_id ls)"
  shows "shape (foldl (enter_contact e) ls is) = shape ls \<and>
    (\<forall>n<length ls.
       set (CONTACTS (foldl (enter_contact e) ls is ! n)) =
         set (CONTACTS (ls ! n)) \<union> (if list_id (ls ! n) \<in> set is then {e} else {}) \<and>
       (distinct (CONTACTS (ls ! n)) \<longrightarrow> distinct (CONTACTS (foldl (enter_contact e) ls is ! n))))"
  using assms
proof (induction "is" arbitrary: ls)
  case (Cons i "is")
  let ?l = "enter_contact e ls i"
  note sp = enter_contact_spec [OF Cons.prems, where e = e and i = i]
  from sp(1) Cons.prems have "distinct (map list_id ?l)" by (simp add: shape_ids)
  note IH = Cons.IH [OF this]
  have len: "length ?l = length ls" using sp(1) by (rule shape_length)
  have id: "list_id (?l ! n) = list_id (ls ! n)" if "n < length ls" for n
    by (rule shape_nth [OF sp(1)]) (simp add: len that)
  have one: "CONTACTS (?l ! n) = (if list_id (ls ! n) = i \<and> e \<notin> set (CONTACTS (ls ! n))
      then CONTACTS (ls ! n) @ [e] else CONTACTS (ls ! n))" if "n < length ls" for n
    by (rule sp(2)) (fact that)
  have "set (CONTACTS (foldl (enter_contact e) ?l is ! n)) =
      set (CONTACTS (ls ! n)) \<union> (if list_id (ls ! n) \<in> set (i # is) then {e} else {}) \<and>
      (distinct (CONTACTS (ls ! n)) \<longrightarrow> distinct (CONTACTS (foldl (enter_contact e) ?l is ! n)))"
    if n: "n < length ls" for n
    using IH [THEN conjunct2, rule_format, of n] one [OF n] id [OF n] n len by auto
  then show ?case using IH sp(1) by simp
qed simp

text \<open>A contact without the fields the links fill in.\<close>

definition bare :: "cc_contact \<Rightarrow> cc_contact" where
  "bare c = c\<lparr>cc_custom_names := [], LIST_MEMBERSHIPS := [], PS_MEMBERS := None\<rparr>"

lemma bare_linked [simp]: "bare (c\<lparr>cc_custom_names := x, LIST_MEMBERSHIPS := y\<rparr>) = bare c"
  "bare (c\<lparr>PS_MEMBERS := z\<rparr>) = bare c"
  by (simp_all add: bare_def)

lemma bare_fields:
  assumes "bare c = bare c'"
  shows "cc_contact_id c = cc_contact_id c'" "cc_address c = cc_address c'"
    "permission_to_send c = permission_to_send c'" "first_name c = first_name c'"
    "last_name c = last_name c'" "list_memberships c = list_memberships c'"
  using assms by (cases c; cases c'; simp add: bare_def)+

lemma link_contact_Inr:
  "link_contact fl ls c = Inr (ls1, c1) \<Longrightarrow>
   ls1 = foldl (enter_contact (lower (cc_address c))) ls (list_memberships c) \<and> bare c1 = bare c"
  by (auto simp: link_contact_def)

lemma link_contacts_spec:
  assumes "link_contacts fl ls cs = Inr (ls', cs')" and "distinct (map list_id ls)"
  shows "shape ls' = shape ls \<and> map bare cs' = map bare cs \<and>
    (\<forall>n<length ls.
       set (CONTACTS (ls' ! n)) = set (CONTACTS (ls ! n)) \<union>
         (\<lambda>c. lower (cc_address c)) ` {c \<in> set cs. list_id (ls ! n) \<in> set (list_memberships c)} \<and>
       (distinct (CONTACTS (ls ! n)) \<longrightarrow> distinct (CONTACTS (ls' ! n))))"
  using assms
proof (induction cs arbitrary: ls ls' cs')
  case (Cons c cs)
  let ?l = "foldl (enter_contact (lower (cc_address c))) ls (list_memberships c)"
  note sp = enter_contacts_spec [OF Cons.prems(2), of "lower (cc_address c)" "list_memberships c"]
  from Cons.prems(1) obtain c' cs1 where c': "bare c' = bare c" and cs': "cs' = c' # cs1"
    and rec: "link_contacts fl ?l cs = Inr (ls', cs1)"
    by (auto dest: link_contact_Inr)
  from sp Cons.prems(2) have "distinct (map list_id ?l)" by (simp add: shape_ids)
  note IH = Cons.IH [OF rec this]
  have len: "length ?l = length ls" using sp shape_length by blast
  have id: "list_id (?l ! n) = list_id (ls ! n)" if "n < length ls" for n
    by (rule shape_nth [OF sp [THEN conjunct1]]) (simp add: len that)
  have "set (CONTACTS (ls' ! n)) = set (CONTACTS (ls ! n)) \<union>
      (\<lambda>c. lower (cc_address c)) ` {x \<in> set (c # cs). list_id (ls ! n) \<in> set (list_memberships x)} \<and>
      (distinct (CONTACTS (ls ! n)) \<longrightarrow> distinct (CONTACTS (ls' ! n)))"
    if n: "n < length ls" for n
    using IH [THEN conjunct2, THEN conjunct2, rule_format, of n] sp [THEN conjunct2, rule_format, OF n]
      id [OF n] n len by auto
  then show ?case using IH sp c' cs' by simp
qed simp

lemma link_cc_data_spec:
  assumes "link_cc_data cs cfs ls = Inr (ls', cs')" and "distinct (map list_id ls)"
  shows "shape ls' = shape ls \<and> map bare cs' = map bare cs \<and>
    (\<forall>n<length ls. distinct (CONTACTS (ls' ! n)) \<and>
       set (CONTACTS (ls' ! n)) =
         (\<lambda>c. lower (cc_address c)) ` {c \<in> set cs. list_id (ls ! n) \<in> set (list_memberships c)})"
proof -
  let ?l = "map (\<lambda>(n, l). if lookup_list ls (list_id l) = Some n then l\<lparr>CONTACTS := []\<rparr> else l) (enumerate 0 ls)"
  have l: "?l ! n = (ls ! n)\<lparr>CONTACTS := []\<rparr>" if "n < length ls" for n
    using that lookup_list_iff [OF assms(2), of "list_id (ls ! n)" n] by (simp add: nth_enumerate_eq)
  have sh: "shape ?l = shape ls"
    by (rule nth_equalityI) (simp_all add: shape_def nth_enumerate_eq)
  with assms(2) have "distinct (map list_id ?l)" by (simp only: shape_ids)
  from link_contacts_spec [OF assms(1) [unfolded link_cc_data_def] this] sh l show ?thesis by simp
qed

lemma duplicate_targets_Nil:
  "duplicate_targets ms seen = [] \<Longrightarrow>
   distinct (map (\<lambda>m. lower (target_list m)) ms) \<and> (\<forall>m\<in>set ms. lower (target_list m) \<notin> seen)"
  by (induction ms seen rule: duplicate_targets.induct) (auto simp: Let_def split: if_splits)

section \<open>Opt-outs\<close>

definition opted_out :: "cc_contact list \<Rightarrow> string set" where
  "opted_out cs = (\<lambda>c. lower (cc_address c)) ` {c \<in> set cs. permission_to_send c = ''unsubscribed''}"

lemma filter_contact_fst:
  "map fst (filter_contact by state c) =
     map (\<lambda>s. fst s - (if permission_to_send c = ''unsubscribed'' then {lower (cc_address c)} else {})) state"
  by (auto simp: filter_contact_def Let_def split: if_splits)

lemma filter_contacts_fst:
  "map fst (foldl (filter_contact by) state cs) = map (\<lambda>s. fst s - opted_out cs) state"
proof (induction cs arbitrary: state)
  case Nil
  then show ?case by (simp add: opted_out_def)
next
  case (Cons c cs)
  have "opted_out (c # cs) = (if permission_to_send c = ''unsubscribed'' then {lower (cc_address c)} else {}) \<union> opted_out cs"
    by (auto simp: opted_out_def)
  moreover have "map (\<lambda>s. fst s - X) st = map (\<lambda>d. d - X) (map fst st)" for st :: "(string set \<times> unsub_row list) list" and X
    by simp
  ultimately show ?case by (simp only: foldl.simps Cons.IH filter_contact_fst) (simp add: Diff_Un Int_Un_distrib set_diff_eq o_def) 
qed

lemma filter_unsubscribed_fst: "fst (filter_unsubscribed cs desired by) = map (\<lambda>d. d - opted_out cs) desired"
  by (simp add: filter_unsubscribed_def Let_def filter_contacts_fst o_def)

lemma filter_unsubscribed_length: "length (snd (filter_unsubscribed cs desired by)) = length desired"
proof -
  have "length (foldl (filter_contact by) state cs) = length state" for state
    by (induction cs arbitrary: state) (auto simp: filter_contact_def Let_def)
  then show ?thesis by (simp add: filter_unsubscribed_def Let_def)
qed

section \<open>The actions\<close>

definition uuids :: "string \<Rightarrow> string \<Rightarrow> cc_action list \<Rightarrow> string set" where
  "uuids ty e actions = {u. \<exists>a\<in>set actions. ca_type a = ty \<and> ca_email a = e \<and> ca_list_uuid a = Some u}"

lemma uuids_append [simp]: "uuids ty e (as @ bs) = uuids ty e as \<union> uuids ty e bs"
  by (auto simp: uuids_def)

lemma uuids_none: "\<forall>a\<in>set as. ca_list_uuid a = None \<Longrightarrow> uuids ty e as = {}"
  by (auto simp: uuids_def)

lemma uuids_filter: "uuids ty e (filter (\<lambda>a. ca_email a = e) as) = uuids ty e as"
  by (auto simp: uuids_def)

lemma create_uuids: "uuids ty e (compute_create_actions D cbe) = {}"
  by (rule uuids_none) (simp add: compute_create_actions_def create_action_def)

lemma contact_name_actions_set:
  "contact_name_actions indices ec = Inr as \<Longrightarrow> a \<in> set as \<Longrightarrow>
   ca_type a = ''update_name'' \<and> ca_email a = fst ec \<and> ca_list_uuid a = None \<and>
   (\<exists>i\<in>set (indices (fst ec)). ca_sync_index a = Some i)"
  by (cases ec) (auto simp: contact_name_actions_def name_action_def Let_def split: if_splits option.splits)

lemma renames_set:
  assumes "detect_name_mismatches upd indices cbe = Inr as" and "a \<in> set as"
  shows "ca_type a = ''update_name'' \<and> ca_list_uuid a = None \<and> ca_email a \<in> fst ` set cbe \<and> upd \<and>
    (\<exists>i\<in>set (indices (ca_email a)). ca_sync_index a = Some i)"
proof -
  from assms obtain ass bs where upd: upd and ass: "map_res (contact_name_actions indices) cbe = Inr ass"
    and a: "bs \<in> set ass" "a \<in> set bs"
    by (auto simp: detect_name_mismatches_def split: if_splits)
  from map_res_Inr_set [OF ass a(1)] obtain ec where "ec \<in> set cbe" "contact_name_actions indices ec = Inr bs" by blast
  with contact_name_actions_set [OF this(2) a(2)] upd show ?thesis by auto
qed

lemma list_action_fields [simp]:
  "ca_type (list_action ty v i m u e) = ty" "ca_email (list_action ty v i m u e) = e"
  "ca_sync_index (list_action ty v i m u e) = Some i" "ca_list_uuid (list_action ty v i m u e) = Some u"
  by (simp_all add: list_action_def)

lemma create_action_fields [simp]:
  "ca_type (create_action i e) = ''create''" "ca_email (create_action i e) = e"
  "ca_sync_index (create_action i e) = Some i" "ca_list_uuid (create_action i e) = None"
  by (simp_all add: create_action_def)

lemma uuids_map: "uuids ty e (map f xs) = {u. \<exists>x\<in>set xs. ca_type (f x) = ty \<and> ca_email (f x) = e \<and> ca_list_uuid (f x) = Some u}"
  by (auto simp: uuids_def)

lemma map_enumerate: "map f (enumerate 0 xs) = map (\<lambda>i. f (i, xs ! i)) [0..<length xs]"
  by (rule nth_equalityI) (simp_all add: nth_enumerate_eq)

lemma list_actions_uuids:
  assumes "finite D"
  shows "uuids ''subscribe'' e (list_actions i m D l) = (if e \<in> D - set (CONTACTS l) then {list_id l} else {})"
    and "uuids ''unsubscribe'' e (list_actions i m D l) = (if e \<in> set (CONTACTS l) - D then {list_id l} else {})"
  using assms by (auto simp: list_actions_def uuids_map)

lemma compute_subs_Inr:
  "compute_subscribe_unsubscribe_actions config D ls = Inr as \<longleftrightarrow>
   (\<forall>m\<in>set (cc_mappings config). list_named ls (target_list m) \<noteq> None) \<and>
   as = concat (map (\<lambda>(i, m). list_actions i m (D ! i) (the (list_named ls (target_list m))))
          (enumerate 0 (cc_mappings config)))" (is "?l \<longleftrightarrow> ?r")
proof -
  let ?f = "\<lambda>(i, m). bind_res (named_or_key_error ls (target_list m)) (\<lambda>l. Inr (list_actions i m (D ! i) l))"
  let ?g = "\<lambda>(i, m). list_actions i m (D ! i) (the (list_named ls (target_list m)))"
  have "map_res ?f xs = (Inr bs :: exn + cc_action list list) \<longleftrightarrow>
      (\<forall>(i, m)\<in>set xs. list_named ls (target_list m) \<noteq> None) \<and> bs = map ?g xs" for xs bs
    by (induction xs arbitrary: bs) (auto simp: named_or_key_error_def split: option.splits)
  moreover have "(\<forall>(i, m)\<in>set (enumerate 0 xs). P m) \<longleftrightarrow> (\<forall>m\<in>set xs. P m)" for xs and P :: "cc_mapping \<Rightarrow> bool"
    by (metis (no_types, lifting) case_prod_unfold image_eqI map_snd_enumerate set_map imageE)
  ultimately show ?thesis
    by (auto simp: compute_subscribe_unsubscribe_actions_def)
qed

lemma subs_uuids:
  assumes "compute_subscribe_unsubscribe_actions config D ls = Inr as"
    and "\<forall>d\<in>set D. finite d" and "length D = length (cc_mappings config)"
  shows "uuids ''subscribe'' e as = {list_id l | i l. i < length D \<and>
      list_named ls (target_list (cc_mappings config ! i)) = Some l \<and> e \<in> D ! i - set (CONTACTS l)}"
    and "uuids ''unsubscribe'' e as = {list_id l | i l. i < length D \<and>
      list_named ls (target_list (cc_mappings config ! i)) = Some l \<and> e \<in> set (CONTACTS l) - D ! i}"
proof -
  let ?ms = "cc_mappings config"
  let ?a = "\<lambda>i. list_actions i (?ms ! i) (D ! i) (the (list_named ls (target_list (?ms ! i))))"
  from assms(1) have as: "as = concat (map ?a [0..<length ?ms])"
    and nm: "\<forall>m\<in>set ?ms. list_named ls (target_list m) \<noteq> None"
    by (simp_all add: compute_subs_Inr map_enumerate)
  have u: "uuids ty e as = (\<Union>i<length ?ms. uuids ty e (?a i))" for ty
    by (auto simp: uuids_def as)
  have fin: "finite (D ! i)" if "i < length ?ms" for i using assms(2,3) that by simp
  have some: "list_named ls (target_list (?ms ! i)) = Some (the (list_named ls (target_list (?ms ! i))))"
    if "i < length ?ms" for i using nm that by (metis nth_mem option.collapse)
  show "uuids ''subscribe'' e as = {list_id l | i l. i < length D \<and>
      list_named ls (target_list (?ms ! i)) = Some l \<and> e \<in> D ! i - set (CONTACTS l)}"
    unfolding u assms(3) using fin some by (auto simp: list_actions_uuids split: if_splits)
  show "uuids ''unsubscribe'' e as = {list_id l | i l. i < length D \<and>
      list_named ls (target_list (?ms ! i)) = Some l \<and> e \<in> set (CONTACTS l) - D ! i}"
    unfolding u assms(3) using fin some by (auto simp: list_actions_uuids split: if_splits)
qed

section \<open>Request bodies\<close>

lemma map_filter_uuids:
  "set (List.map_filter (\<lambda>a. case ca_list_uuid a of None \<Rightarrow> None | Some u \<Rightarrow> if u = [] then None else Some u)
     (filter (\<lambda>a. ca_type a = ty) as)) = {u. u \<noteq> [] \<and> (\<exists>a\<in>set as. ca_type a = ty \<and> ca_list_uuid a = Some u)}"
  by (induction as) (auto simp: List.map_filter_simps split: option.splits)

lemma remove_uuids_set:
  assumes "distinct ids"
  shows "distinct (foldl remove_uuid ids as) \<and>
    set (foldl remove_uuid ids as) = set ids - {u. \<exists>a\<in>set as. ca_list_uuid a = Some u}"
  using assms
proof (induction as arbitrary: ids)
  case (Cons a as)
  have "distinct (remove_uuid ids a)" "set (remove_uuid ids a) = set ids - {u. ca_list_uuid a = Some u}"
    using Cons.prems by (auto simp: remove_uuid_def split: option.splits)
  with Cons.IH [of "remove_uuid ids a"] show ?case by auto
qed simp

lemma merge_lists_set: "set (merge_lists put post) = set put \<union> set post"
  unfolding merge_lists_def by (induction post arbitrary: put) auto

lemma post_body_spec:
  assumes "post_body_for_actions e as cbe by = Inr post"
    and "\<forall>a\<in>set as. ca_email a = e" and "[] \<notin> uuids ''subscribe'' e as"
  shows "case post of
      None \<Rightarrow> (\<forall>a\<in>set as. ca_type a \<noteq> ''create'' \<and> ca_type a \<noteq> ''subscribe'') \<and> uuids ''subscribe'' e as = {}
    | Some b \<Rightarrow> lower (cb_address b) = lower e \<and> set (cb_lists b) = uuids ''subscribe'' e as"
proof (cases post)
  case None
  with assms(1) have "filter (\<lambda>a. ca_type a = ''create'') as = []" "filter (\<lambda>a. ca_type a = ''subscribe'') as = []"
    by (auto simp: post_body_for_actions_def Let_def split: if_splits option.splits)
  with None show ?thesis by (auto simp: filter_empty_conv uuids_def)
next
  case (Some b)
  have u: "{u. u \<noteq> [] \<and> (\<exists>a\<in>set as. ca_type a = ''subscribe'' \<and> ca_list_uuid a = Some u)} = uuids ''subscribe'' e as"
    using assms(2,3) by (auto simp: uuids_def)
  from assms(1) Some have "set (cb_lists b) = uuids ''subscribe'' e as \<and> lower (cb_address b) = lower e"
    unfolding u [symmetric] map_filter_uuids [symmetric]
    by (auto simp: post_body_for_actions_def create_contact_dict_def Let_def split: if_splits option.splits)
  with Some show ?thesis by simp
qed

lemma put_body_spec:
  assumes "put_body_for_actions e as cbe = Inr put"
    and "\<forall>a\<in>set as. ca_email a = e" and "\<And>c. map_of cbe e = Some c \<Longrightarrow> distinct (list_memberships c)"
  shows "case put of
      None \<Rightarrow> uuids ''unsubscribe'' e as = {}
    | Some b \<Rightarrow> (\<exists>c. map_of cbe e = Some c \<and> cb_contact_id b = Some (cc_contact_id c) \<and>
        cb_address b = cc_address c \<and>
        set (cb_lists b) = set (list_memberships c) - uuids ''unsubscribe'' e as)"
proof (cases put)
  case None
  with assms(1) have "filter (\<lambda>a. ca_type a = ''unsubscribe'') as = []"
    by (auto simp: put_body_for_actions_def Let_def split: if_splits option.splits)
  with None show ?thesis by (auto simp: filter_empty_conv uuids_def)
next
  case (Some b)
  let ?u = "filter (\<lambda>a. ca_type a = ''unsubscribe'') as"
  from assms(1) Some obtain c where c: "map_of cbe e = Some c" and b: "cb_contact_id b = Some (cc_contact_id c)"
      "cb_address b = cc_address c" "cb_lists b = foldl remove_uuid (list_memberships c) ?u"
    by (auto simp: put_body_for_actions_def Let_def split: if_splits option.splits)
  have "{u. \<exists>a\<in>set ?u. ca_list_uuid a = Some u} = uuids ''unsubscribe'' e as"
    using assms(2) by (auto simp: uuids_def)
  with remove_uuids_set [OF assms(3) [OF c], of ?u] b c Some show ?thesis by auto
qed

text \<open>What the two requests of a contact ask for.\<close>

lemma contact_bodies_spec:
  assumes "contact_bodies cbe by (e, as) = Inr (post, put)"
    and "\<forall>a\<in>set as. ca_email a = e" and "[] \<notin> uuids ''subscribe'' e as"
    and "\<And>c. map_of cbe e = Some c \<Longrightarrow> distinct (list_memberships c)"
  shows "case post of None \<Rightarrow> uuids ''subscribe'' e as = {}
      | Some b \<Rightarrow> lower (cb_address b) = lower e \<and> set (cb_lists b) = uuids ''subscribe'' e as"
    and "case put of None \<Rightarrow> uuids ''unsubscribe'' e as = {}
      | Some b \<Rightarrow> (\<exists>c. map_of cbe e = Some c \<and> cb_contact_id b = Some (cc_contact_id c) \<and>
          cb_address b = cc_address c \<and>
          set (cb_lists b) = (set (list_memberships c) - uuids ''unsubscribe'' e as) \<union> uuids ''subscribe'' e as)"
proof -
  from assms(1) obtain post0 put0 where "post_body_for_actions e as cbe by = Inr post0"
      "put_body_for_actions e as cbe = Inr put0"
      "(case (post0, put0) of
          (Some b, Some b') \<Rightarrow> (post0, Some (b'\<lparr>cb_lists := merge_lists (cb_lists b') (cb_lists b)\<rparr>))
        | _ \<Rightarrow> (post0, put0)) = (post, put)"
    unfolding contact_bodies_def by (elim bind_resE) simp
  then obtain put0 where p: "post_body_for_actions e as cbe by = Inr post"
      "put_body_for_actions e as cbe = Inr put0"
    and put: "put = (case (post, put0) of
        (Some b, Some b') \<Rightarrow> Some (b'\<lparr>cb_lists := merge_lists (cb_lists b') (cb_lists b)\<rparr>) | _ \<Rightarrow> put0)"
    by (cases post0; cases put0) auto
  note post = post_body_spec [OF p(1) assms(2,3)]
  then show "case post of None \<Rightarrow> uuids ''subscribe'' e as = {}
      | Some b \<Rightarrow> lower (cb_address b) = lower e \<and> set (cb_lists b) = uuids ''subscribe'' e as"
    by (auto split: option.splits)
  show "case put of None \<Rightarrow> uuids ''unsubscribe'' e as = {}
      | Some b \<Rightarrow> (\<exists>c. map_of cbe e = Some c \<and> cb_contact_id b = Some (cc_contact_id c) \<and>
          cb_address b = cc_address c \<and>
          set (cb_lists b) = (set (list_memberships c) - uuids ''unsubscribe'' e as) \<union> uuids ''subscribe'' e as)"
    using post put_body_spec [OF p(2) assms(2,4)] put
    by (cases post; cases put0) (auto simp: merge_lists_set)
qed

section \<open>The plan\<close>

lemma link_members_bare: "map bare (link_contacts_to_ps_members cs ms) = map bare cs"
  by (auto simp: link_contacts_to_ps_members_def split: option.splits)

lemma map_bare_field:
  "map bare cs = map bare cs' \<Longrightarrow> (\<And>c. f (bare c) = f c) \<Longrightarrow> map f cs = map f cs'"
  by (metis (no_types, lifting) map_map comp_apply map_eq_conv)

lemma opted_out_bare: "map bare cs = map bare cs' \<Longrightarrow> opted_out cs = opted_out cs'"
proof -
  assume "map bare cs = map bare cs'"
  then have "map (\<lambda>c. (permission_to_send c, lower (cc_address c))) cs = map (\<lambda>c. (permission_to_send c, lower (cc_address c))) cs'"
    by (rule map_bare_field) (simp add: bare_def)
  then have "set (map (\<lambda>c. (permission_to_send c, lower (cc_address c))) cs) =
      set (map (\<lambda>c. (permission_to_send c, lower (cc_address c))) cs')" by simp
  moreover have "opted_out xs = {e. (''unsubscribed'', e) \<in> set (map (\<lambda>c. (permission_to_send c, lower (cc_address c))) xs)}" for xs
    by (force simp: opted_out_def)
  ultimately show ?thesis by simp
qed

lemma cc_plan_actions_Inr:
  assumes "cc_plan_actions config mwm ms ls cs = Inr plan"
  obtains D0 subs renames indices where
    "resolve_desired_state config mwm ms ls = Inr D0"
    "validate_non_empty_desired_state config D0 ls = Inr ()"
    "cp_desired plan = map (\<lambda>d. d - opted_out cs) D0"
    "cp_contacts plan = contacts_by_email_of (link_contacts_to_ps_members cs ms)"
    "compute_subscribe_unsubscribe_actions config (cp_desired plan) ls = Inr subs"
    "name_update_candidate_sync_indices config (cp_desired plan) ls = Inr indices"
    "detect_name_mismatches (update_names config) indices (cp_contacts plan) = Inr renames"
    "cp_actions plan = compute_create_actions (cp_desired plan) (cp_contacts plan) @ subs @ renames"
    "cc_validate_large_removal_guard config (cp_actions plan) ls = Inr ()"
    "cp_unsubscribed plan =
       snd (filter_unsubscribed (link_contacts_to_ps_members cs ms) D0 (members_by_email ms))"
proof -
  let ?cs = "link_contacts_to_ps_members cs ms"
  have F: "fst (filter_unsubscribed ?cs D bm) = map (\<lambda>d. d - opted_out cs) D" for D bm
    using filter_unsubscribed_fst [of ?cs D bm] opted_out_bare [OF link_members_bare] by simp
  from assms obtain D0 where D0: "resolve_desired_state config mwm ms ls = Inr D0"
      "validate_non_empty_desired_state config D0 ls = Inr ()"
    and rest: "cc_compute_plan config ls ?cs (filter_unsubscribed ?cs D0 (members_by_email ms)) = Inr plan"
    unfolding cc_plan_actions_def cc_desired_state_def Let_def by (elim bind_resE) simp
  obtain un where un: "filter_unsubscribed ?cs D0 (members_by_email ms) = (map (\<lambda>d. d - opted_out cs) D0, un)"
    using F by (metis prod.collapse)
  from rest show thesis
    unfolding un cc_compute_plan_def Let_def prod.case compute_all_actions_def
    by (elim bind_resE) (rule that [OF D0], auto simp: un)
qed

lemma resolve_desired_state_Inr:
  assumes "resolve_desired_state config mwm ms ls = Inr D"
  shows "length D = length (cc_mappings config)"
    and "i < length D \<Longrightarrow> list_named ls (target_list (cc_mappings config ! i)) \<noteq> None \<and>
      (\<exists>wg. roster_named mwm (source_workgroup (cc_mappings config ! i)) = Some wg \<and> D ! i = roster_emails ms wg)"
  using assms unfolding resolve_desired_state_def map_res_eq_Inr
  by (auto dest: list_all2_lengthD list_all2_nthD2 split: option.splits)

lemma set_map_filter_iff: "set (List.map_filter f xs) = {y. \<exists>x\<in>set xs. f x = Some y}"
  by (induction xs) (auto simp: List.map_filter_simps split: option.splits)

lemma roster_emails_finite [simp]: "finite (roster_emails ms wg)"
  by (simp add: roster_emails_def)

lemma roster_emails_ok:
  assumes "e \<in> roster_emails ms wg"
  shows "\<exists>d m es. map_of ms d = Some m \<and> member_email_addresses m = e # es"
proof -
  from assms obtain x :: membership_row where "(case py_member_duid x of None \<Rightarrow> None | Some d \<Rightarrow>
      (case map_of ms d of None \<Rightarrow> None
       | Some m \<Rightarrow> (case member_email_addresses m of [] \<Rightarrow> None | e # _ \<Rightarrow> Some e))) = Some e"
    unfolding roster_emails_def set_map_filter_iff by blast
  then show ?thesis by (auto split: option.splits list.splits)
qed

lemma contacts_by_email_Some:
  "map_of (contacts_by_email_of cs) e = Some c \<Longrightarrow> c \<in> set cs \<and> lower (cc_address c) = e"
  unfolding contacts_by_email_of_def map_of_dict_of by (auto dest!: map_of_SomeD simp flip: rev_map)

lemma contacts_by_email_keys: "fst ` set (contacts_by_email_of cs) = (\<lambda>c. lower (cc_address c)) ` set cs"
  by (force simp: contacts_by_email_of_def dict_of_keys)

end
