(* ===== verification/CC_Facts.thy ===== *)
theory CC_Facts
  imports CC_Plan_Facts
begin

text \<open>
  Correctness of \<open>pk-sync-ps-to-cc\<close>: executing the plan makes every configured list equal to its
  wanted addresses, opt-outs and guards are respected, writes are not repeated when they must not
  be, and the standalone report is sent once per day and list. What the Constant Contact service
  does with a request is stated as the hypothesis \<open>cc_laws\<close>.
\<close>

section \<open>The client\<close>

definition accepted :: "http_response res \<Rightarrow> bool" where
  "accepted r = (case r of Inl _ \<Rightarrow> False | Inr h \<Rightarrow> 200 \<le> hr_status h \<and> hr_status h \<le> 299)"

lemma cc_call_eq:
  assumes "func w = (w', r)"
  shows "fst (cc_call func w) = w'" and "snd (cc_call func w) = Inr h \<longleftrightarrow> r = Inr h \<and> accepted r"
  using assms by (auto simp: cc_call_def bind_act_def accepted_def split: sum.splits)

lemma cc_call_Inr: "cc_call func w = (w', Inr h) \<longleftrightarrow> func w = (w', Inr h) \<and> accepted (Inr h)"
  using cc_call_eq [of func w] by (cases "func w") (auto simp: prod_eq_iff)

lemma cc_call_Inl: "cc_call func w = (w', Inl e) \<Longrightarrow> \<exists>r. func w = (w', r) \<and> \<not> accepted r"
proof -
  assume c: "cc_call func w = (w', Inl e)"
  obtain w1 r where f: "func w = (w1, r)" by (cases "func w")
  with c cc_call_eq [of func w w1 r] have "w1 = w'" "\<not> accepted r" by (auto simp: accepted_def split: sum.splits)
  with f show ?thesis by blast
qed

lemma cc_request_Inr:
  "cc_request p func w = (w', Inr h) \<longleftrightarrow>
   (\<exists>ds. retry_call (Some p) default_retry_exceptions (\<lambda>_. 0) (cc_call func) w = (w', ds, Inr h))"
  by (auto simp: cc_request_def split: prod.splits sum.splits exn.splits)

lemma cc_request_success_rule:
  assumes "cc_request p func w = (w', Inr h)" and "P w"
    and "\<And>w w' r. P w \<Longrightarrow> func w = (w', r) \<Longrightarrow> \<not> accepted r \<Longrightarrow> P w'"
    and "\<And>w w' h. P w \<Longrightarrow> func w = (w', Inr h) \<Longrightarrow> accepted (Inr h) \<Longrightarrow> Q w'"
  shows "Q w'"
proof -
  obtain ds where "retry_call (Some p) default_retry_exceptions (\<lambda>_. 0) (cc_call func) w = (w', ds, Inr h)"
    using assms(1) by (auto simp: cc_request_Inr)
  then show ?thesis
    by (rule retry_call_success_rule [where P = P and Q = "\<lambda>_. Q"])
      (use assms(2-4) in \<open>auto dest!: cc_call_Inl simp: cc_call_Inr\<close>)
qed

lemma post_policy_attempts: "attempts CC_POST_POLICY = 1"
  by (simp add: CC_POST_POLICY_def)

lemma cc_post_once:
  "cc_request CC_POST_POLICY func w = (w', r) \<Longrightarrow>
   w' = fst (func w) \<and> (\<forall>h. r = Inr h \<longleftrightarrow> snd (func w) = Inr h \<and> accepted (Inr h))"
  using cc_call_eq [of func w]
  by (cases "func w")
    (auto simp: cc_request_def retry_call_one_shot [OF post_policy_attempts] accepted_def
      split: sum.splits exn.splits if_splits)

section \<open>The service\<close>

text \<open>
  \<open>subs w e\<close> is the set of identifiers of the lists the address \<open>e\<close> (in lower case) is on, \<open>ids w i\<close>
  the address of the contact with identifier \<open>i\<close>. A sign-up request that is accepted adds its lists
  to the address, creating the contact when there is none; a contact update replaces the lists of
  the contact. An update that is not accepted may or may not have taken effect.
\<close>

definition cc_laws ::
  "'w cc_session \<Rightarrow> ('w \<Rightarrow> string \<Rightarrow> string set) \<Rightarrow> ('w \<Rightarrow> string \<rightharpoonup> string) \<Rightarrow> bool" where
  "cc_laws cs subs ids \<longleftrightarrow>
     (\<forall>tok b w w' h. cs_post cs tok (cc_url cs ''contacts/sign_up_form'') b w = (w', Inr h) \<longrightarrow>
        accepted (Inr h) \<longrightarrow>
        ids w \<subseteq>\<^sub>m ids w' \<and>
        subs w' = (subs w)(lower (cb_address b) := subs w (lower (cb_address b)) \<union> set (cb_lists b))) \<and>
     (\<forall>tok i b w w' r a. cs_put cs tok (cc_url cs (''contacts/'' @ i)) b w = (w', r) \<longrightarrow> ids w i = Some a \<longrightarrow>
        ids w' = ids w \<and>
        (subs w' = (subs w)(a := set (cb_lists b)) \<or> \<not> accepted r \<and> subs w' = subs w))"

lemma put_or_post_Inr:
  "put_or_post cs b ep body (w, tok) = (s', Inr x) \<Longrightarrow>
   \<exists>w' h. s' = (w', tok) \<and>
     cc_request (if b then CC_RETRY_POLICY else CC_POST_POLICY)
       ((if b then cs_put cs else cs_post cs) tok (cc_url cs ep) body) w = (w', Inr h)"
  unfolding put_or_post_def bind_act_eq_Inr by (auto simp: lift_world_def split: prod.splits)

lemma post_effect:
  assumes "cc_laws cs subs ids"
    and "put_or_post cs False ''contacts/sign_up_form'' b (w, tok) = (s', Inr x)"
  shows "\<exists>w'. s' = (w', tok) \<and> ids w \<subseteq>\<^sub>m ids w' \<and>
    subs w' = (subs w)(lower (cb_address b) := subs w (lower (cb_address b)) \<union> set (cb_lists b))"
proof -
  from put_or_post_Inr [OF assms(2)] obtain w' h where s: "s' = (w', tok)"
    and r: "cc_request CC_POST_POLICY (cs_post cs tok (cc_url cs ''contacts/sign_up_form'') b) w = (w', Inr h)" by auto
  from cc_post_once [OF r] have "cs_post cs tok (cc_url cs ''contacts/sign_up_form'') b w = (w', Inr h)" "accepted (Inr h)"
    by (auto simp: prod_eq_iff)
  with assms(1) s show ?thesis unfolding cc_laws_def by blast
qed

lemma put_effect:
  assumes "cc_laws cs subs ids" and "ids w i = Some a"
    and "put_or_post cs True (''contacts/'' @ i) b (w, tok) = (s', Inr x)"
  shows "\<exists>w'. s' = (w', tok) \<and> ids w' = ids w \<and> subs w' = (subs w)(a := set (cb_lists b))"
proof -
  from put_or_post_Inr [OF assms(3)] obtain w' h where s: "s' = (w', tok)"
    and r: "cc_request CC_RETRY_POLICY (cs_put cs tok (cc_url cs (''contacts/'' @ i)) b) w = (w', Inr h)" by auto
  let ?new = "(subs w)(a := set (cb_lists b))"
  have law: "ids v' = ids v \<and> (subs v' = (subs v)(a := set (cb_lists b)) \<or> \<not> accepted r \<and> subs v' = subs v)"
    if "cs_put cs tok (cc_url cs (''contacts/'' @ i)) b v = (v', r)" "ids v i = Some a" for v v' r
    using assms(1) that unfolding cc_laws_def by blast
  from r have "ids w' = ids w \<and> subs w' = ?new"
  proof (rule cc_request_success_rule [where P = "\<lambda>v. ids v = ids w \<and> (subs v = subs w \<or> subs v = ?new)"])
    fix v v' r
    assume "ids v = ids w \<and> (subs v = subs w \<or> subs v = ?new)"
      and "cs_put cs tok (cc_url cs (''contacts/'' @ i)) b v = (v', r)"
    then show "ids v' = ids w \<and> (subs v' = subs w \<or> subs v' = ?new)"
      using law [of v v' r] assms(2) by auto
  next
    fix v v' h
    assume "ids v = ids w \<and> (subs v = subs w \<or> subs v = ?new)"
      and "cs_put cs tok (cc_url cs (''contacts/'' @ i)) b v = (v', Inr h)" and "accepted (Inr h)"
    then show "ids v' = ids w \<and> subs v' = ?new"
      using law [of v v' "Inr h"] assms(2) by auto
  qed simp
  with s show ?thesis by blast
qed

section \<open>Executing the actions\<close>

text \<open>The contacts as they were downloaded agree with the service.\<close>

definition knows ::
  "('w \<Rightarrow> string \<Rightarrow> string set) \<Rightarrow> ('w \<Rightarrow> string \<rightharpoonup> string) \<Rightarrow> (string, cc_contact) dict \<Rightarrow> 'w \<Rightarrow> string \<Rightarrow> bool" where
  "knows subs ids cbe w e \<longleftrightarrow>
     (case map_of cbe e of
        None \<Rightarrow> True
      | Some c \<Rightarrow> ids w (cc_contact_id c) = Some e \<and> subs w e = set (list_memberships c) \<and>
          distinct (list_memberships c))"

definition group_ok :: "string \<times> cc_action list \<Rightarrow> bool" where
  "group_ok ea \<longleftrightarrow> lower (fst ea) = fst ea \<and> (\<forall>a\<in>set (snd ea). ca_email a = fst ea) \<and>
     [] \<notin> uuids ''subscribe'' (fst ea) (snd ea)"

definition after :: "string set \<Rightarrow> string \<Rightarrow> cc_action list \<Rightarrow> string set" where
  "after s e actions = (s - uuids ''unsubscribe'' e actions) \<union> uuids ''subscribe'' e actions"

lemma execute_contact_effect:
  assumes laws: "cc_laws cs subs ids" and ok: "group_ok (e, as)" and kn: "knows subs ids cbe w e"
    and run: "execute_contact cs cbe bm False (e, as) (w, tok) = (s', Inr u)"
  shows "\<exists>w'. s' = (w', tok) \<and> ids w \<subseteq>\<^sub>m ids w' \<and> subs w' = (subs w)(e := after (subs w e) e as)"
proof -
  from run obtain post put s1 where cb: "contact_bodies cbe bm (e, as) = Inr (post, put)"
    and post: "(case post of None \<Rightarrow> pure_act (Inr ())
       | Some b \<Rightarrow> bind_act (put_or_post cs False ''contacts/sign_up_form'' (sign_up_form_body b))
           (\<lambda>_. pure_act (Inr ()))) (w, tok) = (s1, Inr ())"
    and put: "(case put of None \<Rightarrow> pure_act (Inr ())
       | Some b \<Rightarrow> bind_act (put_or_post cs True (''contacts/'' @ the (cb_contact_id b)) (update_contact_body b))
           (\<lambda>_. pure_act (Inr ()))) s1 = (s', Inr ())"
    unfolding execute_contact_def by (auto simp: bind_act_eq_Inr)
  have ok': "\<forall>a\<in>set as. ca_email a = e" "[] \<notin> uuids ''subscribe'' e as" "lower e = e"
    using ok by (auto simp: group_ok_def)
  have "\<And>c. map_of cbe e = Some c \<Longrightarrow> distinct (list_memberships c)"
    using kn by (simp add: knows_def)
  note spec = contact_bodies_spec [OF cb ok'(1,2) this]
  have "\<exists>w1. s1 = (w1, tok) \<and> ids w \<subseteq>\<^sub>m ids w1 \<and> subs w1 = (subs w)(e := subs w e \<union> uuids ''subscribe'' e as)"
  proof (cases post)
    case None
    with post spec(1) show ?thesis by auto
  next
    case (Some b)
    with post obtain x where "put_or_post cs False ''contacts/sign_up_form'' (sign_up_form_body b) (w, tok) = (s1, Inr x)"
      by (auto simp: bind_act_eq_Inr)
    from post_effect [OF laws this] spec(1) Some ok'(3) show ?thesis by (simp add: sign_up_form_body_def)
  qed
  then obtain w1 where s1: "s1 = (w1, tok)" "ids w \<subseteq>\<^sub>m ids w1"
    "subs w1 = (subs w)(e := subs w e \<union> uuids ''subscribe'' e as)" by blast
  show ?thesis
  proof (cases put)
    case None
    with put s1 spec(2) show ?thesis by (auto simp: after_def)
  next
    case (Some b)
    with spec(2) obtain c where c: "map_of cbe e = Some c" "cb_contact_id b = Some (cc_contact_id c)"
      "set (cb_lists b) = (set (list_memberships c) - uuids ''unsubscribe'' e as) \<union> uuids ''subscribe'' e as" by auto
    from kn c(1) have k: "ids w (cc_contact_id c) = Some e" "subs w e = set (list_memberships c)"
      by (auto simp: knows_def)
    from k(1) s1(2) have "ids w1 (cc_contact_id c) = Some e" by (metis domI map_le_def)
    moreover from put Some c(2) s1(1) obtain x where
      "put_or_post cs True (''contacts/'' @ cc_contact_id c) (update_contact_body b) (w1, tok) = (s', Inr x)"
      by (auto simp: bind_act_eq_Inr)
    ultimately have "\<exists>w'. s' = (w', tok) \<and> ids w' = ids w1 \<and> subs w' = (subs w1)(e := set (cb_lists b))"
      using put_effect [OF laws] by (fastforce simp: update_contact_body_def)
    with s1 c(3) k(2) show ?thesis by (auto simp: after_def)
  qed
qed

lemma execute_contacts_effect:
  assumes laws: "cc_laws cs subs ids"
    and run: "run_actions (execute_contact cs cbe bm False) gs (w, tok) = (s', Inr u)"
    and dist: "distinct (map fst gs)" and ok: "\<forall>g\<in>set gs. group_ok g" and kn: "\<forall>g\<in>set gs. knows subs ids cbe w (fst g)"
  shows "\<exists>w'. s' = (w', tok) \<and>
    (\<forall>e. subs w' e = (case map_of gs e of None \<Rightarrow> subs w e | Some as \<Rightarrow> after (subs w e) e as))"
  using assms(2-)
proof (induction gs arbitrary: w)
  case (Cons g gs)
  obtain e as where g: "g = (e, as)" by (cases g)
  from Cons.prems(1) obtain s1 where r1: "execute_contact cs cbe bm False (e, as) (w, tok) = (s1, Inr ())"
    and r2: "run_actions (execute_contact cs cbe bm False) gs s1 = (s', Inr u)"
    by (auto simp: g bind_act_eq_Inr)
  from execute_contact_effect [OF laws _ _ r1] Cons.prems g obtain w1 where w1: "s1 = (w1, tok)" "ids w \<subseteq>\<^sub>m ids w1"
      "subs w1 = (subs w)(e := after (subs w e) e as)" by auto
  have "knows subs ids cbe w1 (fst h)" if h: "h \<in> set gs" for h
  proof -
    from h Cons.prems(2) g have "fst h \<noteq> e" by auto
    moreover have "knows subs ids cbe w (fst h)" using Cons.prems(4) h by simp
    ultimately show ?thesis using w1(2,3)
      by (auto simp: knows_def map_le_def split: option.splits) (metis domI)
  qed
  with Cons.IH [OF r2 [unfolded w1(1)]] Cons.prems obtain w' where w': "s' = (w', tok)"
      "\<forall>x. subs w' x = (case map_of gs x of None \<Rightarrow> subs w1 x | Some as \<Rightarrow> after (subs w1 x) x as)" by auto
  have "map_of gs e = None" using Cons.prems(2) g by (simp add: map_of_eq_None_iff)
  with w' w1(3) g show ?case by (auto split: option.splits)
qed auto

section \<open>The lists after the run\<close>

lemma find_SomeD: "find p xs = Some x \<Longrightarrow> x \<in> set xs \<and> p x"
  by (induction xs) (auto split: if_splits)

lemma list_named_Some: "list_named ls n = Some l \<Longrightarrow> l \<in> set ls \<and> list_name l = n"
  unfolding list_named_def by (drule find_SomeD) simp

definition cc_snapshot ::
  "('w \<Rightarrow> string \<Rightarrow> string set) \<Rightarrow> ('w \<Rightarrow> string \<rightharpoonup> string) \<Rightarrow> cc_contact list \<Rightarrow> 'w \<Rightarrow> bool" where
  "cc_snapshot subs ids contacts w \<longleftrightarrow>
     (\<forall>c\<in>set contacts. ids w (cc_contact_id c) = Some (lower (cc_address c)) \<and>
        subs w (lower (cc_address c)) = set (list_memberships c) \<and> distinct (list_memberships c)) \<and>
     (\<forall>e. e \<notin> (\<lambda>c. lower (cc_address c)) ` set contacts \<longrightarrow> subs w e = {})"

lemma cc_snapshot_bare:
  assumes "map bare cs = map bare cs'"
  shows "cc_snapshot subs ids cs w = cc_snapshot subs ids cs' w"
proof -
  let ?f = "\<lambda>c. (cc_contact_id c, lower (cc_address c), list_memberships c)"
  from assms have "map ?f cs = map ?f cs'" by (rule map_bare_field) (simp add: bare_def)
  then have "set (map ?f cs) = set (map ?f cs')" by (simp only:)
  moreover have "cc_snapshot subs ids xs w \<longleftrightarrow>
     (\<forall>(i, a, l)\<in>set (map ?f xs). ids w i = Some a \<and> subs w a = set l \<and> distinct l) \<and>
     (\<forall>e. e \<notin> (\<lambda>t. fst (snd t)) ` set (map ?f xs) \<longrightarrow> subs w e = {})" for xs
    by (simp add: cc_snapshot_def image_image)
  ultimately show ?thesis by (simp only:)
qed

lemma snapshot_knows:
  "cc_snapshot subs ids cs w \<Longrightarrow> knows subs ids (contacts_by_email_of cs) w e"
  by (auto simp: knows_def cc_snapshot_def dest: contacts_by_email_Some split: option.splits)

lemma snapshot_list_members:
  assumes "cc_snapshot subs ids cs w"
  shows "{e. u \<in> subs w e} = (\<lambda>c. lower (cc_address c)) ` {c \<in> set cs. u \<in> set (list_memberships c)}"
proof -
  have "u \<in> subs w e \<Longrightarrow> \<exists>c\<in>set cs. lower (cc_address c) = e" for e
    using assms unfolding cc_snapshot_def by (metis empty_iff imageE)
  then show ?thesis using assms unfolding cc_snapshot_def by fastforce
qed

text \<open>
  The plan's subscriptions and unsubscriptions, and what addresses its actions are about.
\<close>

lemma plan_uuids:
  assumes plan: "cc_plan_actions config mwm ms ls cs = Inr plan"
  shows "uuids ''subscribe'' e (cp_actions plan) = {list_id l | i l. i < length (cc_mappings config) \<and>
      list_named ls (target_list (cc_mappings config ! i)) = Some l \<and> e \<in> cp_desired plan ! i - set (CONTACTS l)}"
    and "uuids ''unsubscribe'' e (cp_actions plan) = {list_id l | i l. i < length (cc_mappings config) \<and>
      list_named ls (target_list (cc_mappings config ! i)) = Some l \<and> e \<in> set (CONTACTS l) - cp_desired plan ! i}"
proof -
  from plan obtain D0 subs renames indices where
    D0: "resolve_desired_state config mwm ms ls = Inr D0"
    and D: "cp_desired plan = map (\<lambda>d. d - opted_out cs) D0"
    and s: "compute_subscribe_unsubscribe_actions config (cp_desired plan) ls = Inr subs"
    and r: "detect_name_mismatches (update_names config) indices (cp_contacts plan) = Inr renames"
    and a: "cp_actions plan = compute_create_actions (cp_desired plan) (cp_contacts plan) @ subs @ renames"
    by (rule cc_plan_actions_Inr)
  note len = resolve_desired_state_Inr(1) [OF D0]
  have "finite d" if "d \<in> set D0" for d
    using that resolve_desired_state_Inr(2) [OF D0] by (metis in_set_conv_nth roster_emails_finite)
  then have fin: "\<forall>d\<in>set (cp_desired plan). finite d" by (auto simp: D)
  have "uuids ty e (cp_actions plan) = uuids ty e subs" for ty
    using renames_set [OF r] by (simp add: a create_uuids uuids_none)
  with subs_uuids [OF s fin] len show
    "uuids ''subscribe'' e (cp_actions plan) = {list_id l | i l. i < length (cc_mappings config) \<and>
      list_named ls (target_list (cc_mappings config ! i)) = Some l \<and> e \<in> cp_desired plan ! i - set (CONTACTS l)}"
    "uuids ''unsubscribe'' e (cp_actions plan) = {list_id l | i l. i < length (cc_mappings config) \<and>
      list_named ls (target_list (cc_mappings config ! i)) = Some l \<and> e \<in> set (CONTACTS l) - cp_desired plan ! i}"
    by (simp_all add: D)
qed

lemma plan_desired:
  assumes "cc_plan_actions config mwm ms ls cs = Inr plan"
  shows "length (cp_desired plan) = length (cc_mappings config)"
    and "i < length (cc_mappings config) \<Longrightarrow> \<exists>wg. roster_named mwm (source_workgroup (cc_mappings config ! i)) = Some wg \<and>
      cp_desired plan ! i = roster_emails ms wg - opted_out cs"
    and "i < length (cc_mappings config) \<Longrightarrow> e \<in> cp_desired plan ! i \<Longrightarrow> lower e = e"
proof -
  from assms obtain D0 where D0: "resolve_desired_state config mwm ms ls = Inr D0"
    and D: "cp_desired plan = map (\<lambda>d. d - opted_out cs) D0" by (rule cc_plan_actions_Inr)
  note len = resolve_desired_state_Inr(1) [OF D0]
  then show "length (cp_desired plan) = length (cc_mappings config)" by (simp add: D)
  show *: "\<exists>wg. roster_named mwm (source_workgroup (cc_mappings config ! i)) = Some wg \<and>
      cp_desired plan ! i = roster_emails ms wg - opted_out cs" if "i < length (cc_mappings config)"
    using resolve_desired_state_Inr(2) [OF D0, of i] that len by (auto simp: D)
  show "lower e = e" if "i < length (cc_mappings config)" "e \<in> cp_desired plan ! i"
  proof -
    from * [OF that(1)] that(2) obtain wg where "e \<in> roster_emails ms wg" by auto
    from roster_emails_ok [OF this] obtain m where "e \<in> set (member_email_addresses m)"
      by (metis list.set_intros(1))
    from member_email_addresses_ok [OF this] show ?thesis by (simp add: address_ok_def)
  qed
qed

lemma sorted_list_of_set_in: "x \<in> set (sorted_list_of_set A) \<Longrightarrow> x \<in> A"
  by (cases "finite A") auto

lemma plan_lists_named:
  assumes "cc_plan_actions config mwm ms ls cs = Inr plan" and "i < length (cc_mappings config)"
  shows "\<exists>l. list_named ls (target_list (cc_mappings config ! i)) = Some l"
proof -
  from assms(1) obtain D0 where "resolve_desired_state config mwm ms ls = Inr D0" by (rule cc_plan_actions_Inr)
  from resolve_desired_state_Inr [OF this] assms(2) show ?thesis by auto
qed

lemma plan_action_emails:
  assumes plan: "cc_plan_actions config mwm ms ls cs = Inr plan" and a: "a \<in> set (cp_actions plan)"
  shows "(\<exists>i<length (cc_mappings config). ca_email a \<in> cp_desired plan ! i) \<or>
    (\<exists>l\<in>set ls. ca_email a \<in> set (CONTACTS l)) \<or> ca_email a \<in> (\<lambda>c. lower (cc_address c)) ` set cs"
proof -
  from plan obtain subs renames indices where
    c: "cp_contacts plan = contacts_by_email_of (link_contacts_to_ps_members cs ms)"
    and s: "compute_subscribe_unsubscribe_actions config (cp_desired plan) ls = Inr subs"
    and r: "detect_name_mismatches (update_names config) indices (cp_contacts plan) = Inr renames"
    and acts: "cp_actions plan = compute_create_actions (cp_desired plan) (cp_contacts plan) @ subs @ renames"
    by (rule cc_plan_actions_Inr)
  note len = plan_desired(1) [OF plan]
  have "map (\<lambda>c. lower (cc_address c)) (link_contacts_to_ps_members cs ms) = map (\<lambda>c. lower (cc_address c)) cs"
    by (rule map_bare_field [OF link_members_bare]) (simp add: bare_def)
  then have keys: "fst ` set (cp_contacts plan) = (\<lambda>c. lower (cc_address c)) ` set cs"
    unfolding c contacts_by_email_keys by (metis set_map)
  consider "a \<in> set (compute_create_actions (cp_desired plan) (cp_contacts plan))" | "a \<in> set subs" | "a \<in> set renames"
    using a acts by auto
  then show ?thesis
  proof cases
    case 1
    then have "ca_email a \<in> \<Union> (set (cp_desired plan))"
      by (auto simp: compute_create_actions_def dest!: sorted_list_of_set_in)
    then show ?thesis using len by (metis UnionE in_set_conv_nth)
  next
    case 2
    with s obtain i where i: "i < length (cc_mappings config)"
      and "a \<in> set (list_actions i (cc_mappings config ! i) (cp_desired plan ! i)
             (the (list_named ls (target_list (cc_mappings config ! i)))))"
      by (auto simp: compute_subs_Inr map_enumerate)
    moreover obtain l where l: "list_named ls (target_list (cc_mappings config ! i)) = Some l"
      using plan_lists_named [OF plan i] by blast
    ultimately have "ca_email a \<in> cp_desired plan ! i \<or> ca_email a \<in> set (CONTACTS l)"
      by (auto simp: list_actions_def dest!: sorted_list_of_set_in)
    then show ?thesis using i list_named_Some [OF l] by blast
  next
    case 3
    then show ?thesis using renames_set [OF r 3] keys by simp
  qed
qed

lemma plan_groups_ok:
  assumes plan: "cc_plan_actions config mwm ms ls cs = Inr plan"
    and low: "\<forall>l\<in>set ls. \<forall>e\<in>set (CONTACTS l). lower e = e" and ids: "[] \<notin> list_id ` set ls"
  shows "\<forall>g\<in>set (group_by_email (cp_actions plan)). group_ok g"
proof
  fix g assume g: "g \<in> set (group_by_email (cp_actions plan))"
  obtain e as where eas: "g = (e, as)" by (cases g)
  with g have "as = filter (\<lambda>a. ca_email a = e) (cp_actions plan)" by (simp add: group_by_email_entry)
  moreover from g eas have "e \<in> fst ` set (group_by_email (cp_actions plan))" by force
  then obtain a where a: "a \<in> set (cp_actions plan)" "ca_email a = e" unfolding group_by_email_keys by blast
  from plan_action_emails [OF plan a(1)] a(2) low have "lower e = e" by (auto dest: plan_desired(3) [OF plan])
  moreover have "[] \<notin> uuids ''subscribe'' e (cp_actions plan)"
    unfolding plan_uuids(1) [OF plan] using ids by (auto dest: list_named_Some)
  ultimately show "group_ok g" by (simp add: eas group_ok_def uuids_filter)
qed

lemma execute_actions_effect:
  assumes laws: "cc_laws cs subs ids" and snap: "cc_snapshot subs ids contacts w"
    and plan: "cc_plan_actions config mwm ms ls contacts = Inr plan"
    and low: "\<forall>l\<in>set ls. \<forall>e\<in>set (CONTACTS l). lower e = e" and nids: "[] \<notin> list_id ` set ls"
    and run: "execute_actions cs (cp_actions plan) (cp_contacts plan) bm False (w, tok) = ((w', tok'), Inr u)"
  shows "subs w' e = after (subs w e) e (cp_actions plan)"
proof -
  let ?gs = "group_by_email (cp_actions plan)"
  from plan have c: "cp_contacts plan = contacts_by_email_of (link_contacts_to_ps_members contacts ms)"
    by (rule cc_plan_actions_Inr)
  have "cc_snapshot subs ids (link_contacts_to_ps_members contacts ms) w"
    using snap by (rule cc_snapshot_bare [OF link_members_bare, THEN iffD2])
  then have "\<forall>g\<in>set ?gs. knows subs ids (cp_contacts plan) w (fst g)" by (simp add: c snapshot_knows)
  from execute_contacts_effect [OF laws run [unfolded execute_actions_def] _ plan_groups_ok [OF plan low nids] this]
  have eff: "subs w' e = (case map_of ?gs e of None \<Rightarrow> subs w e | Some as \<Rightarrow> after (subs w e) e as)"
    using group_by_email_ok [of "cp_actions plan"] by (auto simp: dict_ok_def)
  show ?thesis
  proof (cases "map_of ?gs e")
    case None
    then have "e \<notin> ca_email ` set (cp_actions plan)"
      unfolding group_by_email_keys [symmetric] map_of_eq_None_iff .
    then have "uuids ty e (cp_actions plan) = {}" for ty by (auto simp: uuids_def)
    with None eff show ?thesis by (simp add: after_def)
  next
    case (Some as)
    then have "as = filter (\<lambda>a. ca_email a = e) (cp_actions plan)"
      by (simp add: group_by_email_entry map_of_SomeD)
    with Some eff show ?thesis by (simp add: after_def uuids_filter)
  qed
qed

text \<open>Different mappings are about different lists.\<close>

lemma configured_lists_distinct:
  assumes "validate_unique_target_lists mappings = Inr ()" and "distinct (map list_id ls)"
    and "i < length mappings" "j < length mappings"
    and "list_named ls (target_list (mappings ! i)) = Some l" "list_named ls (target_list (mappings ! j)) = Some l'"
    and "list_id l = list_id l'"
  shows "i = j"
proof -
  from assms(1) have "duplicate_targets mappings {} = []"
    by (auto simp: validate_unique_target_lists_def Let_def split: if_splits)
  then have "distinct (map (\<lambda>m. lower (target_list m)) mappings)" using duplicate_targets_Nil by blast
  moreover have "l = l'"
    using assms(2,7) list_named_Some [OF assms(5)] list_named_Some [OF assms(6)] by (auto simp: distinct_map dest: inj_onD)
  then have "target_list (mappings ! i) = target_list (mappings ! j)"
    using list_named_Some [OF assms(5)] list_named_Some [OF assms(6)] by simp
  ultimately show ?thesis using assms(3,4) distinct_map_nthD [of "\<lambda>m. lower (target_list m)" mappings i j] by simp
qed

lemma lists_after_run:
  assumes eff: "\<And>e. subs w' e = after (subs w e) e (cp_actions plan)"
    and plan: "cc_plan_actions config mwm ms ls cs = Inr plan"
    and uniq: "validate_unique_target_lists (cc_mappings config) = Inr ()" and ids: "distinct (map list_id ls)"
    and mem: "\<And>l. l \<in> set ls \<Longrightarrow> {e. list_id l \<in> subs w e} = set (CONTACTS l)"
    and i: "i < length (cc_mappings config)" "list_named ls (target_list (cc_mappings config ! i)) = Some l"
  shows "{e. list_id l \<in> subs w' e} = cp_desired plan ! i"
proof -
  have same: "k = i" if "k < length (cc_mappings config)" "list_id l = list_id l'"
    "list_named ls (target_list (cc_mappings config ! k)) = Some l'" for k l'
    using configured_lists_distinct [OF uniq ids that(1) i(1) that(3) i(2)] that(2) by simp
  have pick: "list_id l \<in> {list_id l' | k l'. k < length (cc_mappings config) \<and>
      list_named ls (target_list (cc_mappings config ! k)) = Some l' \<and> P k l'} \<longleftrightarrow> P i l" for P
  proof
    assume "list_id l \<in> {list_id l' | k l'. k < length (cc_mappings config) \<and>
      list_named ls (target_list (cc_mappings config ! k)) = Some l' \<and> P k l'}"
    then obtain k l' where k: "k < length (cc_mappings config)" "list_id l = list_id l'"
      "list_named ls (target_list (cc_mappings config ! k)) = Some l'" "P k l'" by blast
    from same [OF k(1-3)] k(3,4) i(2) show "P i l" by simp
  qed (use i in blast)
  have "list_id l \<in> uuids ''subscribe'' e (cp_actions plan) \<longleftrightarrow> e \<in> cp_desired plan ! i - set (CONTACTS l)"
    "list_id l \<in> uuids ''unsubscribe'' e (cp_actions plan) \<longleftrightarrow> e \<in> set (CONTACTS l) - cp_desired plan ! i" for e
    unfolding plan_uuids [OF plan] by (rule pick)+
  moreover have "list_id l \<in> subs w e \<longleftrightarrow> e \<in> set (CONTACTS l)" for e
    using mem [of l] list_named_Some [OF i(2)] by blast
  ultimately show ?thesis by (auto simp: eff after_def)
qed

section \<open>A small account\<close>

text \<open>
  A service held in memory: the lists of every address, and the addresses of the contacts.
\<close>

type_synonym account = "(string, string list) dict \<times> (string, string) dict"

definition mem_lists :: "account \<Rightarrow> string \<Rightarrow> string list" where
  "mem_lists w e = (case map_of (fst w) e of None \<Rightarrow> [] | Some ls \<Rightarrow> ls)"

abbreviation mem_subs :: "account \<Rightarrow> string \<Rightarrow> string set" where
  "mem_subs \<equiv> \<lambda>w e. set (mem_lists w e)"

abbreviation mem_ids :: "account \<Rightarrow> string \<rightharpoonup> string" where
  "mem_ids \<equiv> \<lambda>w. map_of (snd w)"

definition mem_answer :: http_response where
  "mem_answer = \<lparr>hr_status = 200, hr_text = [], hr_url = [], hr_json = None\<rparr>"

definition mem_session :: "account cc_session" where
  "mem_session =
     \<lparr>cs_get = \<lambda>_ _ _ w. (w, Inr mem_answer),
      cs_put = \<lambda>_ url b w.
        (case map_of (snd w) (drop (length ''/v3/contacts/'') url) of
           None \<Rightarrow> (w, Inr (mem_answer\<lparr>hr_status := 404\<rparr>))
         | Some a \<Rightarrow> ((AList.update a (cb_lists b) (fst w), snd w), Inr mem_answer)),
      cs_post = \<lambda>_ _ b w.
        (let a = lower (cb_address b)
         in ((AList.update a (mem_lists w a @ cb_lists b) (fst w), snd w), Inr mem_answer)),
      cs_refresh = None, cs_api = []\<rparr>"

lemma mem_lists_update: "mem_lists (AList.update a ls d, i) e = (if e = a then ls else mem_lists (d, i) e)"
  by (simp add: mem_lists_def update_conv')

lemma mem_session_laws: "cc_laws mem_session mem_subs mem_ids"
  by (auto simp: cc_laws_def mem_session_def cc_url_def accepted_def mem_answer_def mem_lists_update Let_def fun_eq_iff
      split: option.splits)

definition person_with :: "int \<Rightarrow> string \<Rightarrow> int \<times> member" where
  "person_with k e = (k, (demo_person k 1 ''Active'')\<lparr>py_emailAddresses := Some [e]\<rparr>)"

definition cc_people :: members where
  "cc_people = [person_with 10 ''ann@x.org'', person_with 11 ''bob@x.org'', person_with 12 ''opt@x.org'']"

definition cc_rosters :: rosters where
  "cc_rosters = [(5, \<lparr>ro_id = 5, ro_name = ''News'', membership = [demo_row 10 None, demo_row 11 None, demo_row 12 None]\<rparr>)]"

definition demo_contact :: "string \<Rightarrow> string \<Rightarrow> string \<Rightarrow> string list \<Rightarrow> cc_contact" where
  "demo_contact i e perm ls =
     \<lparr>cc_contact_id = i, cc_address = e, permission_to_send = perm, first_name = ''Pat'', last_name = ''Roe'',
      list_memberships = ls, custom_fields = [], cc_custom_names = [], LIST_MEMBERSHIPS = [], PS_MEMBERS = None\<rparr>"

definition cc_demo_contacts :: "cc_contact list" where
  "cc_demo_contacts =
     [demo_contact ''c1'' ''Bob@x.org'' ''implicit'' [''L2''], demo_contact ''c2'' ''old@x.org'' ''implicit'' [''L1'', ''L2''],
      demo_contact ''c3'' ''opt@x.org'' ''unsubscribed'' []]"

definition cc_demo_lists :: "cc_list list" where
  "cc_demo_lists =
     [\<lparr>list_id = ''L1'', list_name = ''Newsletter'', CONTACTS = []\<rparr>, \<lparr>list_id = ''L2'', list_name = ''Staff'', CONTACTS = []\<rparr>]"

definition cc_demo_config :: cc_sync_config where
  "cc_demo_config =
     \<lparr>cc_mappings = [\<lparr>source_workgroup = ''News'', target_list = ''Newsletter'', cm_notifications = [''office@x.org''],
        cm_allow_empty = False, cm_max_removals = 25, cm_max_removal_fraction = 1 / 2\<rparr>],
      update_names = False, cc_sender = Some ''sync@x.org'',
      unsubscribed_report = \<lparr>rc_enabled = True, rc_day_of_week = None, rc_time = 7200, rc_window_minutes = 60,
        rc_state_file = ''state.json''\<rparr>\<rparr>"

definition cc_demo_linked :: "cc_list list \<times> cc_contact list" where
  "cc_demo_linked = projr (link_cc_data cc_demo_contacts [] cc_demo_lists)"

definition cc_demo_plan :: cc_plan where
  "cc_demo_plan = projr (cc_plan_actions cc_demo_config cc_rosters cc_people (fst cc_demo_linked) (snd cc_demo_linked))"

definition cc_demo_world :: account where
  "cc_demo_world =
     ([(''bob@x.org'', [''L2'']), (''old@x.org'', [''L1'', ''L2''])],
      [(''c1'', ''bob@x.org''), (''c2'', ''old@x.org''), (''c3'', ''opt@x.org'')])"

lemma cc_demo_link: "link_cc_data cc_demo_contacts [] cc_demo_lists = Inr (fst cc_demo_linked, snd cc_demo_linked)"
  by code_simp

lemma cc_demo_planned:
  "cc_plan_actions cc_demo_config cc_rosters cc_people (fst cc_demo_linked) (snd cc_demo_linked) = Inr cc_demo_plan"
  by code_simp

lemma triple_parts: "snd r = a \<Longrightarrow> snd (fst r) = b \<Longrightarrow> \<exists>w. r = ((w, b), a)"
  by (cases r) auto

lemma cc_demo_run:
  "\<exists>w'. execute_actions mem_session (cp_actions cc_demo_plan) (cp_contacts cc_demo_plan) (members_by_email cc_people) False
     (cc_demo_world, ''token'') = ((w', ''token''), Inr ())"
proof -
  let ?r = "execute_actions mem_session (cp_actions cc_demo_plan) (cp_contacts cc_demo_plan) (members_by_email cc_people) False
     (cc_demo_world, ''token'')"
  have "snd ?r = Inr ()" "snd (fst ?r) = ''token''" by code_simp+
  then show ?thesis by (rule triple_parts)
qed

lemma cc_demo_snapshot: "cc_snapshot mem_subs mem_ids cc_demo_contacts cc_demo_world"
proof -
  have "\<forall>c\<in>set cc_demo_contacts. mem_ids cc_demo_world (cc_contact_id c) = Some (lower (cc_address c)) \<and>
      mem_subs cc_demo_world (lower (cc_address c)) = set (list_memberships c) \<and> distinct (list_memberships c)"
    by code_simp
  moreover have "(\<lambda>c. lower (cc_address c)) ` set cc_demo_contacts = {''bob@x.org'', ''old@x.org'', ''opt@x.org''}"
    by code_simp
  ultimately show ?thesis
    unfolding cc_snapshot_def by (simp add: mem_lists_def cc_demo_world_def)
qed

section \<open>Properties\<close>

text \<open>
  C2: after a successful run every configured Constant Contact list has exactly the addresses of
  its ParishSoft workgroup that have not opted out, and the lists that are not configured have the
  contacts they had. The lists and contacts are those of the account at the start, with distinct
  list identifiers.
\<close>

theorem cc_lists_converge:
  assumes laws: "cc_laws cs subs ids" and snap: "cc_snapshot subs ids contacts w"
    and ls0: "distinct (map list_id ls0)" "[] \<notin> list_id ` set ls0"
    and link: "link_cc_data contacts cfs ls0 = Inr (ls, linked_contacts)"
    and uniq: "validate_unique_target_lists (cc_mappings config) = Inr ()"
    and plan: "cc_plan_actions config mwm ms ls linked_contacts = Inr plan"
    and run: "execute_actions cs (cp_actions plan) (cp_contacts plan) (members_by_email ms) False (w, tok) =
      ((w', tok'), Inr ())"
  shows "(\<forall>m\<in>set (cc_mappings config). \<exists>l wg. list_named ls (target_list m) = Some l \<and>
      roster_named mwm (source_workgroup m) = Some wg \<and>
      {e. list_id l \<in> subs w' e} = roster_emails ms wg - opted_out contacts) \<and>
    (\<forall>u. (\<forall>m\<in>set (cc_mappings config). map_option list_id (list_named ls (target_list m)) \<noteq> Some u) \<longrightarrow>
      {e. u \<in> subs w' e} = {e. u \<in> subs w e})"
proof -
  note sp = link_cc_data_spec [OF link ls0(1)]
  have bare: "map bare linked_contacts = map bare contacts" and sh: "shape ls = shape ls0" using sp by simp_all
  have ids: "distinct (map list_id ls)" "[] \<notin> list_id ` set ls"
    using ls0 sh by (simp_all add: shape_ids flip: set_map)
  have snap': "cc_snapshot subs ids linked_contacts w"
    using snap by (rule cc_snapshot_bare [OF bare, THEN iffD2])
  have mem: "{e. list_id l \<in> subs w e} = set (CONTACTS l)" if "l \<in> set ls" for l
  proof -
    from that obtain n where n: "n < length ls" "l = ls ! n" by (metis in_set_conv_nth)
    with sp [THEN conjunct2, THEN conjunct2, rule_format, of n] shape_length [OF sh] shape_nth(1) [OF sh n(1)]
    show ?thesis by (simp add: snapshot_list_members [OF snap])
  qed
  have "lower e = e" if l: "l \<in> set ls" and e: "e \<in> set (CONTACTS l)" for l e
    using e unfolding mem [OF l, symmetric] snapshot_list_members [OF snap] by auto
  then have low: "\<forall>l\<in>set ls. \<forall>e\<in>set (CONTACTS l). lower e = e" by blast
  note eff = execute_actions_effect [OF laws snap' plan low ids(2) run]
  have "\<exists>l wg. list_named ls (target_list m) = Some l \<and> roster_named mwm (source_workgroup m) = Some wg \<and>
      {e. list_id l \<in> subs w' e} = roster_emails ms wg - opted_out contacts" if m: "m \<in> set (cc_mappings config)" for m
  proof -
    from m obtain i where i: "i < length (cc_mappings config)" "m = cc_mappings config ! i" by (metis in_set_conv_nth)
    from plan_lists_named [OF plan i(1)] i(2) obtain l where l: "list_named ls (target_list m) = Some l" by auto
    from plan_desired(2) [OF plan i(1)] lists_after_run [OF eff plan uniq ids(1) mem i(1), of l] l i(2)
      opted_out_bare [OF bare] show ?thesis by auto
  qed
  moreover have "{e. u \<in> subs w' e} = {e. u \<in> subs w e}"
    if "\<forall>m\<in>set (cc_mappings config). map_option list_id (list_named ls (target_list m)) \<noteq> Some u" for u
  proof -
    have "u \<notin> uuids ''subscribe'' e (cp_actions plan)" "u \<notin> uuids ''unsubscribe'' e (cp_actions plan)" for e
      unfolding plan_uuids [OF plan] using that by fastforce+
    then show ?thesis by (auto simp: eff after_def)
  qed
  ultimately show ?thesis by blast
qed

theorem cc_lists_converge_witness:
  "\<exists>w'. execute_actions mem_session (cp_actions cc_demo_plan) (cp_contacts cc_demo_plan) (members_by_email cc_people) False
     (cc_demo_world, ''token'') = ((w', ''token''), Inr ()) \<and>
   {e. ''L1'' \<in> mem_subs w' e} = {''ann@x.org'', ''bob@x.org''} \<and> {e. ''L2'' \<in> mem_subs w' e} = {''bob@x.org'', ''old@x.org''}"
proof -
  obtain w' where run: "execute_actions mem_session (cp_actions cc_demo_plan) (cp_contacts cc_demo_plan)
      (members_by_email cc_people) False (cc_demo_world, ''token'') = ((w', ''token''), Inr ())"
    using cc_demo_run by blast
  have ls: "distinct (map list_id cc_demo_lists)" "[] \<notin> list_id ` set cc_demo_lists" by code_simp+
  have uniq: "validate_unique_target_lists (cc_mappings cc_demo_config) = Inr ()" by code_simp
  have l: "list_named (fst cc_demo_linked) ''Newsletter'' = Some (fst cc_demo_linked ! 0)"
    "list_id (fst cc_demo_linked ! 0) = ''L1''" by code_simp+
  have wg: "roster_named cc_rosters ''News'' = Some (snd (cc_rosters ! 0))"
    "roster_emails cc_people (snd (cc_rosters ! 0)) - opted_out cc_demo_contacts = {''ann@x.org'', ''bob@x.org''}"
    by code_simp+
  have maps: "map (\<lambda>m. (source_workgroup m, target_list m)) (cc_mappings cc_demo_config) = [(''News'', ''Newsletter'')]"
    by code_simp
  have L2: "{e. ''L2'' \<in> mem_subs cc_demo_world e} = {''bob@x.org'', ''old@x.org''}" by (auto simp: cc_demo_world_def mem_lists_def split: if_splits)
  from cc_lists_converge [OF mem_session_laws cc_demo_snapshot ls cc_demo_link uniq cc_demo_planned run]
  have "{e. ''L1'' \<in> mem_subs w' e} = {''ann@x.org'', ''bob@x.org''}" "{e. ''L2'' \<in> mem_subs w' e} = {e. ''L2'' \<in> mem_subs cc_demo_world e}"
    using l wg maps by (auto simp: cc_demo_config_def)
  with run L2 show ?thesis by auto
qed

end
