(* ===== verification/CC_Safety.thy ===== *)
theory CC_Safety
  imports CC_Facts
begin

text \<open>
  What \<open>pk-sync-ps-to-cc\<close> never does: contact an address that opted out, create a contact twice,
  empty a list by mistake or remove more contacts than allowed, write in a dry run, repeat a
  request that creates something, or send a report twice.
\<close>

section \<open>Counting the actions of a mapping\<close>

lemma filter_concat_own:
  assumes "\<And>k a. k < n \<Longrightarrow> a \<in> set (f k) \<Longrightarrow> g a = k" and "i < n"
  shows "filter (\<lambda>a. g a = i \<and> P a) (concat (map f [0..<n])) = filter P (f i)"
proof -
  have "filter (\<lambda>a. g a = i \<and> P a) (concat (map f [0..<k])) = (if i < k then filter P (f i) else [])" if "k \<le> n" for k
    using that
  proof (induction k)
    case (Suc k)
    have "filter (\<lambda>a. g a = i \<and> P a) (f k) = (if k = i then filter P (f i) else [])"
      using assms(1) [of k] Suc.prems by (auto intro!: filter_cong simp: filter_empty_conv)
    with Suc show ?case by auto
  qed simp
  with assms(2) show ?thesis by simp
qed

lemma list_actions_index: "a \<in> set (list_actions i m D l) \<Longrightarrow> ca_sync_index a = Some i"
  by (auto simp: list_actions_def)

lemma list_actions_removals:
  "filter (\<lambda>a. ca_type a = ''unsubscribe'') (list_actions i m D l) =
   map (\<lambda>e. list_action ''unsubscribe'' (''Unsubscribe '' @ e @ '' from '') i m (list_id l) e)
     (sorted_list_of_set (set (CONTACTS l) - D))"
  by (simp add: list_actions_def filter_map o_def)

lemma plan_removals:
  assumes plan: "cc_plan_actions config mwm ms ls cs = Inr plan" and i: "i < length (cc_mappings config)"
    and l: "list_named ls (target_list (cc_mappings config ! i)) = Some l"
  shows "length (filter (\<lambda>a. ca_sync_index a = Some i \<and> ca_type a = ''unsubscribe'') (cp_actions plan)) =
    card (set (CONTACTS l) - cp_desired plan ! i)"
proof -
  let ?ms = "cc_mappings config"
  let ?f = "\<lambda>i. list_actions i (?ms ! i) (cp_desired plan ! i) (the (list_named ls (target_list (?ms ! i))))"
  from plan obtain subs renames indices where
    s: "compute_subscribe_unsubscribe_actions config (cp_desired plan) ls = Inr subs"
    and r: "detect_name_mismatches (update_names config) indices (cp_contacts plan) = Inr renames"
    and acts: "cp_actions plan = compute_create_actions (cp_desired plan) (cp_contacts plan) @ subs @ renames"
    by (rule cc_plan_actions_Inr)
  from s have subs: "subs = concat (map ?f [0..<length ?ms])" by (simp add: compute_subs_Inr map_enumerate)
  have "filter (\<lambda>a. the (ca_sync_index a) = i \<and> ca_type a = ''unsubscribe'') subs = filter (\<lambda>a. ca_type a = ''unsubscribe'') (?f i)"
    unfolding subs by (rule filter_concat_own) (auto dest: list_actions_index simp: i)
  moreover have "filter (\<lambda>a. ca_sync_index a = Some i \<and> ca_type a = ''unsubscribe'') subs =
      filter (\<lambda>a. the (ca_sync_index a) = i \<and> ca_type a = ''unsubscribe'') subs"
    unfolding subs by (rule filter_cong [OF refl]) (auto dest: list_actions_index)
  moreover have "filter (\<lambda>a. ca_sync_index a = Some i \<and> ca_type a = ''unsubscribe'') renames = []"
    using renames_set [OF r] by (auto simp: filter_empty_conv)
  moreover have "filter (\<lambda>a. ca_sync_index a = Some i \<and> ca_type a = ''unsubscribe'')
      (compute_create_actions (cp_desired plan) (cp_contacts plan)) = []"
    by (simp add: compute_create_actions_def filter_map o_def)
  ultimately show ?thesis by (simp add: acts list_actions_removals l)
qed

section \<open>Properties of the plan\<close>

text \<open>
  C3: an address that opted out (a contact with permission \<open>unsubscribed\<close>) gets no create and no
  subscribe action, whatever workgroups its members are in.
\<close>

theorem opted_out_not_added:
  assumes plan: "cc_plan_actions config mwm ms ls contacts = Inr plan"
    and a: "a \<in> set (cp_actions plan)" "ca_email a \<in> opted_out contacts"
  shows "ca_type a \<noteq> ''create'' \<and> ca_type a \<noteq> ''subscribe''"
proof -
  from plan obtain subs renames indices where
    s: "compute_subscribe_unsubscribe_actions config (cp_desired plan) ls = Inr subs"
    and r: "detect_name_mismatches (update_names config) indices (cp_contacts plan) = Inr renames"
    and acts: "cp_actions plan = compute_create_actions (cp_desired plan) (cp_contacts plan) @ subs @ renames"
    by (rule cc_plan_actions_Inr)
  have D: "ca_email a \<notin> cp_desired plan ! i" if "i < length (cc_mappings config)" for i
    using plan_desired(2) [OF plan that] a(2) by auto
  have "a \<notin> set (compute_create_actions (cp_desired plan) (cp_contacts plan))"
    using D plan_desired(1) [OF plan]
    by (auto simp: compute_create_actions_def in_set_conv_nth [of _ "cp_desired plan"] dest!: sorted_list_of_set_in)
  moreover have "ca_type a = ''unsubscribe''" if "a \<in> set subs"
    using that s D by (auto simp: compute_subs_Inr map_enumerate list_actions_def dest!: sorted_list_of_set_in)
  ultimately show ?thesis using renames_set [OF r] a(1) acts by auto
qed

theorem opted_out_not_added_witness:
  "''opt@x.org'' \<in> opted_out (snd cc_demo_linked) \<and> ''opt@x.org'' \<in> roster_emails cc_people (snd (cc_rosters ! 0)) \<and>
   filter (\<lambda>a. ca_email a = ''opt@x.org'' \<and> ca_type a \<in> {''create'', ''subscribe''}) (cp_actions cc_demo_plan) = []"
proof -
  have "''opt@x.org'' \<in> opted_out (snd cc_demo_linked)" "''opt@x.org'' \<in> roster_emails cc_people (snd (cc_rosters ! 0))"
    by code_simp+
  with opted_out_not_added [OF cc_demo_planned] show ?thesis by (auto simp: filter_empty_conv)
qed

text \<open>
  C4: the guards of a plan that is accepted. A list whose workgroup has no addresses at all is empty
  already unless the mapping allows it to become empty; and the number of contacts to remove is at
  most \<open>max_removals\<close> or at most \<open>max_removal_fraction\<close> of the list.
\<close>

theorem cc_plan_guards:
  assumes plan: "cc_plan_actions config mwm ms ls contacts = Inr plan"
    and i: "i < length (cc_mappings config)"
  shows "\<exists>l wg. list_named ls (target_list (cc_mappings config ! i)) = Some l \<and>
    roster_named mwm (source_workgroup (cc_mappings config ! i)) = Some wg \<and>
    (roster_emails ms wg = {} \<and> \<not> cm_allow_empty (cc_mappings config ! i) \<longrightarrow> CONTACTS l = []) \<and>
    (let removed = card (set (CONTACTS l) - cp_desired plan ! i)
     in int removed \<le> cm_max_removals (cc_mappings config ! i) \<or>
        of_nat removed \<le> cm_max_removal_fraction (cc_mappings config ! i) * of_nat (length (CONTACTS l)))"
proof -
  let ?m = "cc_mappings config ! i"
  from plan obtain D0 where D0: "resolve_desired_state config mwm ms ls = Inr D0"
    and ne: "validate_non_empty_desired_state config D0 ls = Inr ()"
    and guard: "cc_validate_large_removal_guard config (cp_actions plan) ls = Inr ()"
    by (rule cc_plan_actions_Inr)
  from resolve_desired_state_Inr(1) [OF D0] resolve_desired_state_Inr(2) [OF D0, of i] i obtain l wg where l: "list_named ls (target_list ?m) = Some l"
    and wg: "roster_named mwm (source_workgroup ?m) = Some wg" "D0 ! i = roster_emails ms wg" by auto
  have mem: "(i, ?m) \<in> set (enumerate 0 (cc_mappings config))" using i by (simp add: in_set_enumerate_eq)
  from ne mem l wg(2) have "CONTACTS l = []" if "roster_emails ms wg = {}" "\<not> cm_allow_empty ?m"
    using that unfolding validate_non_empty_desired_state_def all_res_eq_Inr
    by (auto simp: named_or_key_error_def)
  moreover from guard mem l have "\<not> cc_removal_guard_tripped (int (card (set (CONTACTS l) - cp_desired plan ! i)))
      (int (length (CONTACTS l))) (cm_max_removals ?m) (cm_max_removal_fraction ?m)"
    unfolding cc_validate_large_removal_guard_def all_res_eq_Inr
    by (auto simp: named_or_key_error_def Let_def plan_removals [OF plan i l])
  then have "int (card (set (CONTACTS l) - cp_desired plan ! i)) \<le> cm_max_removals ?m \<or>
      of_nat (card (set (CONTACTS l) - cp_desired plan ! i)) \<le> cm_max_removal_fraction ?m * of_nat (length (CONTACTS l))"
    by (cases "CONTACTS l = []") (auto simp: cc_removal_guard_tripped_def not_less divide_le_eq split: if_splits)
  ultimately show ?thesis using l wg(1) by (auto simp: Let_def)
qed

theorem cc_plan_guards_witness:
  "\<exists>l. list_named (fst cc_demo_linked) ''Newsletter'' = Some l \<and> CONTACTS l = [''old@x.org''] \<and>
     (int (card (set (CONTACTS l) - cp_desired cc_demo_plan ! 0)) \<le> 25 \<or>
      of_nat (card (set (CONTACTS l) - cp_desired cc_demo_plan ! 0)) \<le> (1 / 2 :: rat) * of_nat (length (CONTACTS l)))"
proof -
  have "0 < length (cc_mappings cc_demo_config)" by code_simp
  moreover have "CONTACTS (fst cc_demo_linked ! 0) = [''old@x.org'']"
    "list_named (fst cc_demo_linked) ''Newsletter'' = Some (fst cc_demo_linked ! 0)" by code_simp+
  ultimately show ?thesis
    using cc_plan_guards [OF cc_demo_planned, of 0] by (auto simp: cc_demo_config_def Let_def)
qed

text \<open>
  Contacts are created once. The addresses of the create actions are, without repetition, the
  wanted addresses that have no contact, and each action belongs to the first mapping that wants
  the address.
\<close>

theorem creates_correct:
  assumes plan: "cc_plan_actions config mwm ms ls contacts = Inr plan"
  defines "creates \<equiv> filter (\<lambda>a. ca_type a = ''create'') (cp_actions plan)"
  shows "distinct (map ca_email creates) \<and>
    ca_email ` set creates = \<Union> (set (cp_desired plan)) - (\<lambda>c. lower (cc_address c)) ` set contacts \<and>
    (\<forall>a\<in>set creates. \<exists>i. ca_sync_index a = Some i \<and> i < length (cc_mappings config) \<and>
       ca_email a \<in> cp_desired plan ! i \<and> (\<forall>j<i. ca_email a \<notin> cp_desired plan ! j))"
proof -
  from plan obtain D0 subs renames indices where
    D0: "resolve_desired_state config mwm ms ls = Inr D0" and D: "cp_desired plan = map (\<lambda>d. d - opted_out contacts) D0"
    and c: "cp_contacts plan = contacts_by_email_of (link_contacts_to_ps_members contacts ms)"
    and s: "compute_subscribe_unsubscribe_actions config (cp_desired plan) ls = Inr subs"
    and r: "detect_name_mismatches (update_names config) indices (cp_contacts plan) = Inr renames"
    and acts: "cp_actions plan = compute_create_actions (cp_desired plan) (cp_contacts plan) @ subs @ renames"
    by (rule cc_plan_actions_Inr)
  let ?A = "\<Union> (set (cp_desired plan)) - fst ` set (cp_contacts plan)"
  have "filter (\<lambda>a. ca_type a = ''create'') subs = []" "filter (\<lambda>a. ca_type a = ''create'') renames = []"
    using s renames_set [OF r] by (auto simp: filter_empty_conv compute_subs_Inr list_actions_def)
  moreover have "filter (\<lambda>a. ca_type a = ''create'') (compute_create_actions (cp_desired plan) (cp_contacts plan)) =
      compute_create_actions (cp_desired plan) (cp_contacts plan)"
    by (simp add: compute_create_actions_def filter_map o_def)
  ultimately have creates: "creates = compute_create_actions (cp_desired plan) (cp_contacts plan)"
    by (simp add: creates_def acts)
  have emails: "map ca_email creates = sorted_list_of_set ?A"
    by (simp add: creates compute_create_actions_def o_def)
  have "\<forall>d\<in>set D0. finite d"
    using resolve_desired_state_Inr(2) [OF D0] by (metis in_set_conv_nth roster_emails_finite)
  then have fin: "finite ?A" by (auto simp: D)
  have "map (\<lambda>c. lower (cc_address c)) (link_contacts_to_ps_members contacts ms) = map (\<lambda>c. lower (cc_address c)) contacts"
    by (rule map_bare_field [OF link_members_bare]) (simp add: bare_def)
  then have keys: "fst ` set (cp_contacts plan) = (\<lambda>c. lower (cc_address c)) ` set contacts"
    unfolding c contacts_by_email_keys by (metis set_map)
  have idx: "\<exists>i. ca_sync_index a = Some i \<and> i < length (cc_mappings config) \<and>
       ca_email a \<in> cp_desired plan ! i \<and> (\<forall>j<i. ca_email a \<notin> cp_desired plan ! j)" if "a \<in> set creates" for a
  proof -
    let ?p = "\<lambda>emails. ca_email a \<in> emails"
    from that obtain e where e: "e \<in> set (sorted_list_of_set ?A)"
      "a = create_action (the (find_index (\<lambda>emails. e \<in> emails) (cp_desired plan))) e"
      unfolding creates compute_create_actions_def set_map by blast
    with sorted_list_of_set_in [OF e(1)]
    have a: "ca_email a \<in> ?A" "ca_sync_index a = Some (the (find_index ?p (cp_desired plan)))" by simp_all
    then obtain i where "find_index ?p (cp_desired plan) = Some i" using find_index_ex [of _ "cp_desired plan" ?p] by blast
    with a(2) find_index_SomeD [OF this] plan_desired(1) [OF plan] show ?thesis by auto
  qed
  have "ca_email ` set creates = ?A" using emails fin by (metis set_map set_sorted_list_of_set)
  with emails idx keys show ?thesis by simp
qed

theorem creates_correct_witness:
  "ca_email ` set (filter (\<lambda>a. ca_type a = ''create'') (cp_actions cc_demo_plan)) = {''ann@x.org''}"
proof -
  have "\<Union> (set (cp_desired cc_demo_plan)) - (\<lambda>c. lower (cc_address c)) ` set (snd cc_demo_linked) = {''ann@x.org''}"
    by code_simp
  with creates_correct [OF cc_demo_planned] show ?thesis by simp
qed

section \<open>Effects\<close>

lemma preserves_lift_world [frame]: "(\<And>t. preserves obs (f t)) \<Longrightarrow> preserves (\<lambda>s. obs (fst s)) (lift_world f)"
  by (auto simp: preserves_def lift_world_def split: prod.splits) (metis fst_conv)

lemma preserves_on_world [frame]: "preserves obs act \<Longrightarrow> preserves (\<lambda>s. obs (fst s)) (on_world act)"
  unfolding on_world_def by (rule preserves_lift_world)

lemma preserves_cc_request [frame]:
  assumes "preserves obs func"
  shows "preserves obs (cc_request p func)"
proof -
  have "obs (fst (cc_call func w)) = obs w" for w
    using assms cc_call_eq(1) [of func w] by (cases "func w") (auto simp: preserves_def, metis fst_conv)
  then have "obs (fst (retry_call (Some p) default_retry_exceptions (\<lambda>_. 0) (cc_call func) w)) = obs w" for w
    unfolding retry_call_def Let_def by (intro retry_loop_preserves) simp
  moreover have "fst (cc_request p func w) = fst (retry_call (Some p) default_retry_exceptions (\<lambda>_. 0) (cc_call func) w)" for w
    by (simp add: cc_request_def split: prod.splits sum.splits exn.splits)
  ultimately show ?thesis by (simp add: preserves_def)
qed

lemma preserves_get_with_refresh [frame]:
  assumes "\<And>t. preserves obs (f t)" and "cs_refresh cs = None"
  shows "preserves (\<lambda>s. obs (fst s)) (get_with_access_token_refresh cs f)"
proof -
  have "fst (get_with_access_token_refresh cs f s) = fst (lift_world (\<lambda>t. cc_request CC_RETRY_POLICY (f t)) s)" for s
    by (simp add: get_with_access_token_refresh_def assms(2) split: prod.splits sum.splits exn.splits)
  moreover have "preserves (\<lambda>s. obs (fst s)) (lift_world (\<lambda>t. cc_request CC_RETRY_POLICY (f t)))"
    by (intro frame assms)
  ultimately show ?thesis by (simp add: preserves_def)
qed

lemma preserves_get_all [frame]:
  assumes "\<And>t u p. preserves obs (cs_get cs t u p)" and "cs_refresh cs = None"
  shows "preserves (\<lambda>s. obs (fst s)) (get_all cs ep field params)"
proof -
  have "preserves (\<lambda>s. obs (fst s)) (get_page cs ep field up)" for up
    unfolding get_page_def by (intro frame assms)
  then have "\<forall>t s. obs (fst (fst (get_page cs ep field t s))) = obs (fst s)" unfolding preserves_def by blast
  then show ?thesis
    unfolding get_all_def preserves_def by (intro allI fetch_all_preserves [where obs = "\<lambda>s. obs (fst s)"]) blast
qed

lemma preserves_pair [frame]: "(\<And>x y. preserves obs (k x y)) \<Longrightarrow> preserves obs (case p of (x, y) \<Rightarrow> k x y)"
  by (cases p) simp

text \<open>
  A dry run changes nothing. Whatever the requests that read Constant Contact and the state
  file leave alone, the whole run leaves alone: no contact is written, no message sent, no state
  recorded, no mail provider built, whether the run succeeds or fails. (In a dry run the client has
  no way to refresh its token.)
\<close>

theorem cc_dry_run_preserves:
  assumes "\<forall>tok url ps. preserves obs (cs_get (cv_session sv) tok url ps)"
    and "cs_refresh (cv_session sv) = None" and "preserves obs (cv_read_state sv)"
  shows "preserves (\<lambda>s. obs (fst s)) (cc_sync_run sv provider config mwm ms now stamp stamp_zone True)"
proof -
  have "preserves obs (unsubscribed_report_decision rc now (cv_read_state sv))" for rc
    unfolding unsubscribed_report_decision_def Let_def by (intro frame assms)
  moreover have "preserves (\<lambda>s. obs (fst s)) (load_cc_data (cv_session sv))"
    unfolding load_cc_data_def using assms by (intro frame) simp_all
  moreover have "preserves (\<lambda>s. obs (fst s)) (cc_finish sv provider config bm plan dec st1 st2 True)" for bm plan dec st1 st2
    unfolding cc_finish_def validate_unsubscribed_report_config_def unsubscribed_report_will_send_def
      execute_actions_def execute_contact_def send_notifications_def send_one_notification_def send_unsubscribed_report_def
    by (auto intro!: frame simp: Let_def case_prod_unfold)
  ultimately show ?thesis
    unfolding cc_sync_run_def Let_def by (intro frame)
qed

definition mem_services :: "(account, unit) cc_services" where
  "mem_services =
     \<lparr>cv_session = mem_session, cv_read_state = \<lambda>w. (w, Inr []), cv_write_state = \<lambda>_ w. (w, Inr ()),
      cv_probe_state = \<lambda>w. (w, Inr ()), cv_send = \<lambda>_ _ w. (w, Inr ()), cv_provider_factory = \<lambda>w. (w, Inr ())\<rparr>"

theorem cc_dry_run_preserves_witness:
  "preserves fst (cc_sync_run mem_services None cc_demo_config cc_rosters cc_people
     \<lparr>in_date = Date 2024 5 6, in_seconds = 8000\<rparr> ''t'' ''t'' True)"
  using cc_dry_run_preserves [of "\<lambda>w. w" mem_services]
  by (simp add: preserves_def mem_services_def mem_session_def)

section \<open>Writes\<close>

text \<open>The answers after which a request may be repeated.\<close>

definition transient_answer :: "http_response res \<Rightarrow> bool" where
  "transient_answer r =
     (case r of Inl e \<Rightarrow> default_retry_exceptions e | Inr h \<Rightarrow> hr_status h \<in> {429, 500, 502, 503, 504})"

lemma state_after_cong: "(\<And>w. fst (f w) = fst (g w)) \<Longrightarrow> state_after f k w = state_after g k w"
  by (induction k arbitrary: w) auto

lemma cc_call_fst: "fst (cc_call func w) = fst (func w)"
  by (cases "func w") (simp add: cc_call_eq)

lemma cc_call_retryable: "retryable default_retry_exceptions (snd (cc_call func w)) \<longleftrightarrow> transient_answer (snd (func w))"
  by (cases "func w")
    (auto simp: cc_call_def bind_act_def retryable_def transient_answer_def default_retry_exceptions_def split: sum.splits)

lemma cc_request_attempts:
  assumes "policy_ok p"
  shows "\<exists>k < nat (attempts p). fst (cc_request p func w) = state_after func (Suc k) w \<and>
    (\<forall>j<k. transient_answer (outcome func j w)) \<and>
    (transient_answer (outcome func k w) \<longrightarrow> Suc k = nat (attempts p))"
proof -
  obtain w' ds r where call: "retry_call (Some p) default_retry_exceptions (\<lambda>_. 0) (cc_call func) w = (w', ds, r)"
    by (cases "retry_call (Some p) default_retry_exceptions (\<lambda>_. 0) (cc_call func) w")
  have sa: "state_after (cc_call func) k w = state_after func k w" for k by (rule state_after_cong) (rule cc_call_fst)
  have out: "retryable default_retry_exceptions (outcome (cc_call func) k w) \<longleftrightarrow> transient_answer (outcome func k w)" for k
    by (simp add: outcome_def sa cc_call_retryable)
  from retry_call_spec [OF assms call] obtain k where "k < nat (attempts p)" "w' = state_after func (Suc k) w"
    "\<forall>j<k. transient_answer (outcome func j w)" "transient_answer (outcome func k w) \<longrightarrow> Suc k = nat (attempts p)"
    unfolding sa out by metis
  moreover have "fst (cc_request p func w) = w'"
    by (simp add: cc_request_def call split: sum.splits exn.splits)
  ultimately show ?thesis by blast
qed

lemma fst_put_or_post:
  "fst (put_or_post cs b ep body (w, tok)) =
     (fst (cc_request (if b then CC_RETRY_POLICY else CC_POST_POLICY)
        ((if b then cs_put cs else cs_post cs) tok (cc_url cs ep) body) w), tok)"
  by (simp add: put_or_post_def bind_act_def lift_world_def split: prod.splits sum.splits)

text \<open>
  A create request is sent exactly once whatever the answer, so that a create hidden behind a
  transient answer is never repeated; an update is sent at most three times, each repetition
  following a transient answer (429, 5xx, a timeout or a lost connection).
\<close>

theorem cc_write_attempts:
  "fst (put_or_post cs False ep body (w, tok)) = (fst (cs_post cs tok (cc_url cs ep) body w), tok) \<and>
   (\<exists>k<3. fst (put_or_post cs True ep body (w, tok)) = (state_after (cs_put cs tok (cc_url cs ep) body) (Suc k) w, tok) \<and>
     (\<forall>j<k. transient_answer (outcome (cs_put cs tok (cc_url cs ep) body) j w)))"
proof -
  have "policy_ok CC_RETRY_POLICY" "nat (attempts CC_RETRY_POLICY) = 3"
    by (simp_all add: CC_RETRY_POLICY_def policy_ok_def default_policy_def)
  with cc_request_attempts [of CC_RETRY_POLICY "cs_put cs tok (cc_url cs ep) body" w]
  have "\<exists>k<3. fst (cc_request CC_RETRY_POLICY (cs_put cs tok (cc_url cs ep) body) w) =
      state_after (cs_put cs tok (cc_url cs ep) body) (Suc k) w \<and>
      (\<forall>j<k. transient_answer (outcome (cs_put cs tok (cc_url cs ep) body) j w))" by auto
  moreover have "fst (cc_request CC_POST_POLICY f w) = fst (f w)" for f :: "('a, http_response) action"
    using cc_post_once [of f w] by (cases "cc_request CC_POST_POLICY f w") auto
  ultimately show ?thesis by (auto simp: fst_put_or_post)
qed

text \<open>A service whose first answer to every update is lost.\<close>

definition lossy_session :: "nat cc_session" where
  "lossy_session =
     \<lparr>cs_get = \<lambda>_ _ _ w. (w, Inr mem_answer),
      cs_put = \<lambda>_ _ _ w. (Suc w, if w = 0 then Inl ConnectionError else Inr mem_answer),
      cs_post = \<lambda>_ _ _ w. (Suc w, if w = 0 then Inl ConnectionError else Inr mem_answer),
      cs_refresh = None, cs_api = []\<rparr>"

theorem cc_write_attempts_witness:
  "fst (put_or_post lossy_session False ''contacts/sign_up_form''
      \<lparr>cb_contact_id = None, cb_address = [], cb_first = [], cb_last = [], cb_lists = []\<rparr> (0, ''t'')) = (1, ''t'') \<and>
   (\<exists>k<3. fst (put_or_post lossy_session True ''contacts/c1''
      \<lparr>cb_contact_id = None, cb_address = [], cb_first = [], cb_last = [], cb_lists = []\<rparr> (0, ''t'')) =
      (state_after (cs_put lossy_session ''t'' (cc_url lossy_session ''contacts/c1'')
         \<lparr>cb_contact_id = None, cb_address = [], cb_first = [], cb_last = [], cb_lists = []\<rparr>) (Suc k) 0, ''t''))"
proof -
  let ?b = "\<lparr>cb_contact_id = None, cb_address = [], cb_first = [], cb_last = [], cb_lists = []\<rparr>"
  have "fst (put_or_post lossy_session False ''contacts/sign_up_form'' ?b (0, ''t'')) = (1, ''t'')"
    using cc_write_attempts [of lossy_session "''contacts/sign_up_form''" ?b 0 "''t''"] by (simp add: lossy_session_def)
  with cc_write_attempts [of lossy_session "''contacts/c1''" ?b 0 "''t''"] show ?thesis by blast
qed

end
