(* ===== verification/CC_Report_Facts.thy ===== *)
theory CC_Report_Facts
  imports CC_Plan_Facts
begin

text \<open>
  The standalone report of unsubscribed contacts: its schedule, the keys under which the state file
  records what was sent, and that a report interrupted by a failing message is resumed by the next
  run without repeating a message.
\<close>

section \<open>Keys of the state file\<close>

lemma report_mapping_key_inj:
  "report_mapping_key m = report_mapping_key m' \<longleftrightarrow>
   source_workgroup m = source_workgroup m' \<and> target_list m = target_list m'"
  using json_string_inj [of True "target_list m" "[]" "target_list m'" "[]"]
  by (auto simp: report_mapping_key_def dest!: json_string_inj)

section \<open>The state\<close>

lemma mapping_sent_marked:
  "unsubscribed_report_mapping_sent (marked_state state d m stamp) d m' \<longleftrightarrow>
   unsubscribed_report_mapping_sent state d m' \<or> report_mapping_key m = report_mapping_key m'"
  by (auto simp: unsubscribed_report_mapping_sent_def marked_state_def Let_def dget_def
      update_conv' split: option.splits pyval.splits)

lemma mapping_sent_sent_state:
  "unsubscribed_report_mapping_sent (sent_state state d' stamp) d m \<longleftrightarrow> unsubscribed_report_mapping_sent state d m"
  by (simp add: unsubscribed_report_mapping_sent_def sent_state_def dget_def update_conv')

section \<open>Sending the report\<close>

text \<open>
  The mail provider and the state file: \<open>out w\<close> are the messages delivered so far, \<open>st w\<close> is the
  state on disk. A message that fails is not delivered; writing the state succeeds.
\<close>

definition report_laws ::
  "('w, 'p) cc_services \<Rightarrow> ('w \<Rightarrow> email list) \<Rightarrow> ('w \<Rightarrow> mapping_value) \<Rightarrow> bool" where
  "report_laws sv out st \<longleftrightarrow>
     (\<forall>p e w. st (fst (cv_send sv p e w)) = st w \<and>
        (case snd (cv_send sv p e w) of
           Inl _ \<Rightarrow> out (fst (cv_send sv p e w)) = out w
         | Inr _ \<Rightarrow> out (fst (cv_send sv p e w)) = out w @ [e])) \<and>
     (\<forall>s w. \<exists>w'. cv_write_state sv s w = (w', Inr ()) \<and> st w' = s \<and> out w' = out w) \<and>
     (\<forall>w. \<exists>w'. cv_read_state sv w = (w', Inr (st w)) \<and> st w' = st w \<and> out w' = out w) \<and>
     (\<forall>w. st (fst (cv_probe_state sv w)) = st w \<and> out (fst (cv_probe_state sv w)) = out w)"

definition report_pending ::
  "string \<Rightarrow> mapping_value \<Rightarrow> (cc_mapping \<times> unsub_row list) list \<Rightarrow> (cc_mapping \<times> unsub_row list) list" where
  "report_pending d state items =
     filter (\<lambda>(m, rows). rows \<noteq> [] \<and> \<not> unsubscribed_report_mapping_sent state d m) items"

definition report_mail :: "cc_sync_config \<Rightarrow> string \<Rightarrow> cc_mapping \<times> unsub_row list \<Rightarrow> email" where
  "report_mail config stamp mr =
     build_unsubscribed_report_email (fst mr) (snd mr) (case cc_sender config of None \<Rightarrow> [] | Some s \<Rightarrow> s) stamp"

definition mark_all :: "string \<Rightarrow> string \<Rightarrow> (cc_mapping \<times> unsub_row list) list \<Rightarrow> mapping_value \<Rightarrow> mapping_value" where
  "mark_all d stamp items state = foldl (\<lambda>s (m, _). marked_state s d m stamp) state items"

definition keys_distinct :: "(cc_mapping \<times> unsub_row list) list \<Rightarrow> bool" where
  "keys_distinct items \<longleftrightarrow> distinct (map (\<lambda>(m, _). report_mapping_key m) items)"

lemma report_pending_marked:
  assumes "report_mapping_key m \<notin> (\<lambda>(m, _). report_mapping_key m) ` set items"
  shows "report_pending d (marked_state state d m stamp) items = report_pending d state items"
  using assms by (auto simp: report_pending_def mapping_sent_marked intro!: filter_cong)

lemma mark_all_Cons [simp]: "mark_all d stamp (mr # items) state = mark_all d stamp items (marked_state state d (fst mr) stamp)"
  by (cases mr) (simp add: mark_all_def)

lemma mark_all_Nil [simp]: "mark_all d stamp [] state = state"
  by (simp add: mark_all_def)

lemma mapping_sent_mark_all:
  "unsubscribed_report_mapping_sent (mark_all d stamp items state) d m \<longleftrightarrow>
   unsubscribed_report_mapping_sent state d m \<or> report_mapping_key m \<in> (\<lambda>(m, _). report_mapping_key m) ` set items"
  by (induction items arbitrary: state) (auto simp: mapping_sent_marked)

text \<open>
  The loop delivers a prefix of the pending messages, in order, and records exactly that prefix; it
  delivers all of them when it returns.
\<close>

lemma report_loop_effect:
  assumes laws: "report_laws sv out st" and "keys_distinct items" and "st w = state"
    and "report_loop sv p config d stamp items state n w = (w', r)"
  shows "\<exists>k \<le> length (report_pending d state items).
    out w' = out w @ map (report_mail config stamp) (take k (report_pending d state items)) \<and>
    st w' = mark_all d stamp (take k (report_pending d state items)) state \<and>
    (\<forall>x. r = Inr x \<longrightarrow> k = length (report_pending d state items) \<and> fst x = st w' \<and> snd x = n + k)"
  using assms(2-)
proof (induction items arbitrary: state n w)
  case Nil
  then show ?case by (auto simp: report_pending_def)
next
  case (Cons mr items)
  obtain m rows where mr: "mr = (m, rows)" by (cases mr)
  have dist: "keys_distinct items" "report_mapping_key m \<notin> (\<lambda>(m, _). report_mapping_key m) ` set items"
    using Cons.prems(1) by (auto simp: keys_distinct_def mr)
  show ?case
  proof (cases "rows = [] \<or> unsubscribed_report_mapping_sent state d m")
    case True
    then have "report_pending d state (mr # items) = report_pending d state items" by (auto simp: report_pending_def mr)
    then show ?thesis using Cons.IH [OF dist(1) Cons.prems(2)] Cons.prems(3) True by (simp add: mr)
  next
    case False
    let ?s = "marked_state state d m stamp"
    have pend: "report_pending d state (mr # items) = mr # report_pending d ?s items"
      using False by (simp add: report_pending_marked [OF dist(2)]) (simp add: report_pending_def mr)
    obtain w1 r1 where send: "cv_send sv p (report_mail config stamp mr) w = (w1, r1)"
      by (cases "cv_send sv p (report_mail config stamp mr) w")
    have w1: "st w1 = st w" "case r1 of Inl _ \<Rightarrow> out w1 = out w | Inr _ \<Rightarrow> out w1 = out w @ [report_mail config stamp mr]"
      using laws send unfolding report_laws_def by (metis fst_conv, metis fst_conv snd_conv)
    show ?thesis
    proof (cases r1)
      case (Inl e)
      then have "(w', r) = (w1, Inl e)"
        using Cons.prems(3) False send by (simp add: mr report_mail_def bind_act_def)
      then show ?thesis using w1 Inl Cons.prems(2) by (intro exI [of _ 0]) auto
    next
      case (Inr u)
      obtain w2 where w2: "cv_write_state sv ?s w1 = (w2, Inr ())" "st w2 = ?s" "out w2 = out w1"
        using laws unfolding report_laws_def by blast
      have rec: "report_loop sv p config d stamp items ?s (Suc n) w2 = (w', r)"
        using Cons.prems(3) False send Inr w2(1) by (simp add: mr report_mail_def bind_act_def)
      from Cons.IH [OF dist(1) w2(2) rec] obtain k where k: "k \<le> length (report_pending d ?s items)"
        "out w' = out w2 @ map (report_mail config stamp) (take k (report_pending d ?s items))"
        "st w' = mark_all d stamp (take k (report_pending d ?s items)) ?s"
        "\<forall>x. r = Inr x \<longrightarrow> k = length (report_pending d ?s items) \<and> fst x = st w' \<and> snd x = Suc n + k" by blast
      show ?thesis unfolding pend
        using k w1(2) w2(3) Inr by (intro exI [of _ "Suc k"]) (auto simp: mr)
    qed
  qed
qed

lemma validate_report_config_frame:
  assumes "report_laws sv out st"
  shows "st (fst (validate_unsubscribed_report_config sv config unsub dec dry w)) = st w"
    and "out (fst (validate_unsubscribed_report_config sv config unsub dec dry w)) = out w"
  using assms by (auto simp: validate_unsubscribed_report_config_def report_laws_def Let_def)

lemma all_sent_after:
  "list_all (\<lambda>(m, rows). rows = [] \<or> unsubscribed_report_mapping_sent (mark_all d stamp (report_pending d state items) state) d m) items"
  by (auto simp: list_all_iff mapping_sent_mark_all) (auto simp: report_pending_def image_iff)

lemma report_pending_after:
  assumes "keys_distinct items"
    and "\<And>m. unsubscribed_report_mapping_sent state' d m =
      unsubscribed_report_mapping_sent (mark_all d stamp (take k (report_pending d state items)) state) d m"
  shows "report_pending d state' items = drop k (report_pending d state items)"
proof -
  let ?key = "\<lambda>(m, _). report_mapping_key m" and ?p = "report_pending d state items"
  have drop: "filter (\<lambda>x. f x \<notin> f ` set (take k xs)) xs = drop k xs" if "distinct (map f xs)" for f :: "_ \<Rightarrow> string" and xs
  proof -
    have "filter (\<lambda>x. f x \<notin> f ` set (take k xs)) (take k xs @ drop k xs) = drop k xs"
      using that unfolding filter_append
      by (subst (1) append_take_drop_id [of k xs, symmetric], subst (asm) append_take_drop_id [of k xs, symmetric])
        (auto simp: filter_empty_conv filter_id_conv simp del: append_take_drop_id)
    then show ?thesis by simp
  qed
  have "distinct (map ?key ?p)"
    using assms(1) by (auto simp: keys_distinct_def report_pending_def intro: distinct_map_filter)
  from drop [OF this] have "drop k ?p = filter (\<lambda>x. ?key x \<notin> ?key ` set (take k ?p)) ?p" by simp
  also have "\<dots> = report_pending d state' items"
    unfolding report_pending_def filter_filter
    by (rule filter_cong) (auto simp: assms(2) mapping_sent_mark_all report_pending_def)
  finally show ?thesis by simp
qed

lemma send_report_effect:
  fixes unsub :: "unsub_row list list"
  assumes laws: "report_laws sv out st" and on: "rc_enabled (unsubscribed_report config)" "rd_due dec"
    and dist: "keys_distinct (zip (cc_mappings config) unsub)"
    and run: "send_unsubscribed_report sv provider config unsub dec stamp False w = (w', r)"
  defines "pend \<equiv> report_pending (rd_run_date dec) (st w) (zip (cc_mappings config) unsub)"
  shows "\<exists>k \<le> length pend. out w' = out w @ map (report_mail config stamp) (take k pend) \<and>
    (\<forall>m. unsubscribed_report_mapping_sent (st w') (rd_run_date dec) m =
       unsubscribed_report_mapping_sent (mark_all (rd_run_date dec) stamp (take k pend) (st w)) (rd_run_date dec) m) \<and>
    (\<forall>n. r = Inr n \<longrightarrow> k = length pend \<and> n = k \<and>
       (list_ex (\<lambda>rows. rows \<noteq> []) unsub \<longrightarrow> map_of (st w') ''last_sent_date'' = Some (PStr (rd_run_date dec))))"
    (is "\<exists>k \<le> length pend. ?eff k")
proof (cases "list_ex (\<lambda>rows. rows \<noteq> []) unsub")
  case False
  then have "pend = []" by (auto simp: pend_def report_pending_def filter_empty_conv list_ex_iff dest: set_zip_rightD)
  moreover have "w' = w" "r = Inr 0" using run on False by (auto simp: send_unsubscribed_report_def)
  ultimately show ?thesis using False by auto
next
  case True
  let ?d = "rd_run_date dec" and ?items = "zip (cc_mappings config) unsub"
  obtain w1 r1 where v: "validate_unsubscribed_report_config sv config unsub dec False w = (w1, r1)"
    by (cases "validate_unsubscribed_report_config sv config unsub dec False w")
  have w1: "st w1 = st w" "out w1 = out w"
    using validate_report_config_frame [OF laws, of config unsub dec False w] by (simp_all add: v)
  have stop: ?thesis if "w' = w1" "\<exists>e. r = Inl e"
    using that w1 by (intro exI [of _ 0]) auto
  show ?thesis
  proof (cases "(\<exists>e. r1 = Inl e) \<or> (\<exists>e. validate_unsubscribed_report_provider provider config unsub dec False = Inl e)")
    case bad: True
    then have "w' = w1 \<and> (\<exists>e. r = Inl e)"
      using run on True v by (cases r1) (auto simp: send_unsubscribed_report_def bind_act_def)
    with stop show ?thesis by blast
  next
    case False
    then obtain u where ok: "r1 = Inr u" "validate_unsubscribed_report_provider provider config unsub dec False = Inr ()"
      by (cases r1; cases "validate_unsubscribed_report_provider provider config unsub dec False") auto
    obtain w2 where w2: "cv_read_state sv w1 = (w2, Inr (st w))" "st w2 = st w" "out w2 = out w"
      using laws w1 unfolding report_laws_def by metis
    obtain w3 r3 where l: "report_loop sv (the provider) config ?d stamp ?items (st w) 0 w2 = (w3, r3)"
      by (cases "report_loop sv (the provider) config ?d stamp ?items (st w) 0 w2")
    from report_loop_effect [OF laws dist w2(2) l] obtain k where k: "k \<le> length pend"
      "out w3 = out w @ map (report_mail config stamp) (take k pend)" "st w3 = mark_all ?d stamp (take k pend) (st w)"
      "\<forall>x. r3 = Inr x \<longrightarrow> k = length pend \<and> fst x = st w3 \<and> snd x = 0 + k"
      unfolding pend_def w2(3) by blast
    let ?k = "\<lambda>x. if list_all (\<lambda>(m, rows). rows = [] \<or> unsubscribed_report_mapping_sent (fst x) ?d m) ?items
        then bind_act (cv_write_state sv (sent_state (fst x) ?d stamp)) (\<lambda>_. pure_act (Inr (snd x)))
        else pure_act (Inr (snd x))"
    have run': "(w', r) = bind_act (report_loop sv (the provider) config ?d stamp ?items (st w) 0) ?k w2"
      by (simp add: run [symmetric] send_unsubscribed_report_def on True ok(2) bind_act_Inr [of "validate_unsubscribed_report_config sv config unsub dec False", OF v [unfolded ok(1)]]
          bind_act_Inr [of "cv_read_state sv", OF w2(1)] case_prod_unfold)
    show ?thesis
    proof (cases r3)
      case (Inl e)
      with run' have "w' = w3" "r = Inl e" by (simp_all add: bind_act_Inl [of "report_loop sv (the provider) config ?d stamp ?items (st w) 0", OF l [unfolded Inl]])
      with k show ?thesis by auto
    next
      case (Inr x)
      with k have x: "k = length pend" "fst x = mark_all ?d stamp pend (st w)" "snd x = k" by auto
      let ?s = "sent_state (mark_all ?d stamp pend (st w)) ?d stamp"
      obtain w4 where w4: "cv_write_state sv ?s w3 = (w4, Inr ())" "st w4 = ?s" "out w4 = out w3"
        using laws unfolding report_laws_def by blast
      have "w' = w4" "r = Inr k"
        using run' x all_sent_after [of ?d stamp "st w" ?items]
        by (simp_all add: bind_act_Inr [of "report_loop sv (the provider) config ?d stamp ?items (st w) 0", OF l [unfolded Inr]] bind_act_Inr [of "cv_write_state sv ?s", OF w4(1)] flip: pend_def)
      moreover have "map_of (st w4) ''last_sent_date'' = Some (PStr ?d)"
        by (simp add: w4(2) sent_state_def update_conv')
      ultimately show ?thesis
        using k(2) x w4 by (intro exI [of _ k]) (auto simp: mapping_sent_sent_state)
    qed
  qed
qed

lemma unique_targets_keys:
  assumes "validate_unique_target_lists (cc_mappings config) = Inr ()"
  shows "keys_distinct (zip (cc_mappings config) unsub)"
proof -
  from assms have "duplicate_targets (cc_mappings config) {} = []"
    by (auto simp: validate_unique_target_lists_def Let_def split: if_splits)
  from duplicate_targets_Nil [OF this] have "distinct (map (\<lambda>m. lower (target_list m)) (cc_mappings config))" by blast
  then have "distinct (map (\<lambda>m. lower (target_list m)) (map fst (zip (cc_mappings config) unsub)))"
    by (simp add: map_fst_zip_take distinct_take flip: take_map)
  then show ?thesis
    by (auto simp: keys_distinct_def distinct_map inj_on_def report_mapping_key_inj) (metis fst_conv prod.inject)+
qed

section \<open>A provider in memory\<close>

text \<open>Delivered messages, the state file, and how many messages are accepted before one fails.\<close>

type_synonym desk = "email list \<times> mapping_value \<times> nat"

definition desk_services :: "(desk, unit) cc_services" where
  "desk_services =
     \<lparr>cv_session = \<lparr>cs_get = \<lambda>_ _ _ w. (w, Inl ConnectionError), cs_put = \<lambda>_ _ _ w. (w, Inl ConnectionError),
        cs_post = \<lambda>_ _ _ w. (w, Inl ConnectionError), cs_refresh = None, cs_api = []\<rparr>,
      cv_read_state = \<lambda>w. (w, Inr (fst (snd w))),
      cv_write_state = \<lambda>s w. ((fst w, s, snd (snd w)), Inr ()),
      cv_probe_state = \<lambda>w. (w, Inr ()),
      cv_send = \<lambda>_ e w.
        (case snd (snd w) of
           0 \<Rightarrow> ((fst w, fst (snd w), 9), Inl ConnectionError)
         | Suc n \<Rightarrow> ((fst w @ [e], fst (snd w), n), Inr ())),
      cv_provider_factory = \<lambda>w. (w, Inr ())\<rparr>"

lemma desk_laws: "report_laws desk_services fst (\<lambda>w. fst (snd w))"
  by (auto simp: report_laws_def desk_services_def split: nat.splits)

definition desk_mapping :: "string \<Rightarrow> string \<Rightarrow> cc_mapping" where
  "desk_mapping wg l = \<lparr>source_workgroup = wg, target_list = l, cm_notifications = [''office@x.org''],
     cm_allow_empty = False, cm_max_removals = 25, cm_max_removal_fraction = 1 / 2\<rparr>"

definition desk_config :: cc_sync_config where
  "desk_config =
     \<lparr>cc_mappings = [desk_mapping ''A'' ''News'', desk_mapping ''B'' ''Staff''], update_names = False,
      cc_sender = Some ''sync@x.org'',
      unsubscribed_report = \<lparr>rc_enabled = True, rc_day_of_week = None, rc_time = 7200, rc_window_minutes = 60,
        rc_state_file = ''state.json''\<rparr>\<rparr>"

definition desk_rows :: "unsub_row list list" where
  "desk_rows = [[(''opt@x.org'', ''Pat Roe'', ''12'')], [(''ex@x.org'', ''Sam Poe'', ''13'')]]"

definition desk_decision :: report_decision where
  "desk_decision = \<lparr>rd_due = True, rd_reason = ''due'', rd_run_date = ''2024-05-06''\<rparr>"

section \<open>Properties\<close>



text \<open>
  One report per day. After a run that sent the reports of a day, the schedule is not due again
  on that day at any time, and is due again on any other configured day within the window.
\<close>

theorem report_once_per_day:
  assumes laws: "report_laws sv out st" and on: "rc_enabled (unsubscribed_report config)" "rd_due dec"
    and uniq: "validate_unique_target_lists (cc_mappings config) = Inr ()"
    and date: "rd_run_date dec = isoformat d" "valid_date d"
    and sent: "send_unsubscribed_report sv provider config unsub dec stamp False w = (w1, Inr n)"
      "list_ex (\<lambda>rows. rows \<noteq> []) unsub"
    and later: "unsubscribed_report_decision (unsubscribed_report config) now (cv_read_state sv) w1 = (w2, Inr dec')"
      "valid_date (in_date now)"
  shows "rd_due dec' \<longleftrightarrow> in_date now \<noteq> d \<and>
    (case rc_day_of_week (unsubscribed_report config) of None \<Rightarrow> True | Some k \<Rightarrow> weekday (in_date now) = k) \<and>
    rc_time (unsubscribed_report config) \<le> in_seconds now \<and>
    in_seconds now < rc_time (unsubscribed_report config) + 60 * rc_window_minutes (unsubscribed_report config)"
proof -
  from send_report_effect [OF laws on unique_targets_keys [OF uniq] sent(1)] sent(2)
  have last: "map_of (st w1) ''last_sent_date'' = Some (PStr (isoformat d))" by (auto simp: date(1))
  obtain w3 where "cv_read_state sv w1 = (w3, Inr (st w1))" using laws unfolding report_laws_def by blast
  then have read: "bind_act (cv_read_state sv) f w1 = f (st w1) w3" for f :: "mapping_value \<Rightarrow> ('a, report_decision) action"
    by (rule bind_act_Inr)
  have "isoformat (in_date now) = isoformat d \<longleftrightarrow> in_date now = d"
    using isoformat_inj [OF later(2) date(2)] by blast
  then show ?thesis using later(1) on(1) last
    by (auto simp: unsubscribed_report_decision_def Let_def read last_unsubscribed_report_date_def dget_def
        split: if_splits option.splits)
qed

theorem report_once_per_day_witness:
  "\<exists>w1 n dec'. send_unsubscribed_report desk_services (Some ()) desk_config desk_rows desk_decision ''t1'' False ([], [], 5) =
       (w1, Inr n) \<and>
     unsubscribed_report_decision (unsubscribed_report desk_config) \<lparr>in_date = Date 2024 5 6, in_seconds = 8000\<rparr>
       (cv_read_state desk_services) w1 = (w1, Inr dec') \<and> \<not> rd_due dec'"
proof -
  let ?r = "send_unsubscribed_report desk_services (Some ()) desk_config desk_rows desk_decision ''t1'' False ([], [], 5)"
  let ?now = "\<lparr>in_date = Date 2024 5 6, in_seconds = 8000\<rparr>"
  let ?q = "unsubscribed_report_decision (unsubscribed_report desk_config) ?now (cv_read_state desk_services) (fst ?r)"
  have "snd ?r = Inr 2" by code_simp
  then have r: "?r = (fst ?r, Inr 2)" by (metis prod.collapse)
  have "fst ?q = fst ?r" "isl (snd ?q) = False" by code_simp+
  then obtain dec' where q: "?q = (fst ?r, Inr dec')" by (cases "snd ?q") (auto simp: prod_eq_iff)
  have on: "rc_enabled (unsubscribed_report desk_config)" "rd_due desk_decision"
    "validate_unique_target_lists (cc_mappings desk_config) = Inr ()"
    "rd_run_date desk_decision = isoformat (Date 2024 5 6)" "valid_date (Date 2024 5 6)"
    "list_ex (\<lambda>rows. rows \<noteq> []) desk_rows" "valid_date (in_date ?now)" by code_simp+
  from report_once_per_day [OF desk_laws on(1-5) r on(6) q on(7)] have "\<not> rd_due dec'" by simp
  with r q show ?thesis by blast
qed

end
