(* ===== verification/Cron_Config.thy ===== *)
theory Cron_Config
  imports Config
begin

text \<open>
  The configuration of \<open>pk-cron-runner\<close>: durations, the runner file with its lock, runner, Slack
  and job sections, the command-line overrides and the selection of jobs, and the redaction of
  commands and environments that are logged. Paths are strings; \<open>expand\<close> stands for
  \<open>Path.expanduser\<close>, \<open>in_dir\<close> for resolving a relative path against the directory of the
  configuration file, and \<open>run_dir_lock\<close> is the default lock path. Durations are seconds; a
  non-finite number is not a duration of the model.
\<close>

section \<open>Data\<close>

record lock_config =
  lock_path :: string
  stale_after :: "rat option"
  stale_action :: string

record job_config =
  jc_name :: string
  jc_command :: "string list"
  jc_enabled :: bool
  jc_cwd :: "string option"
  jc_env :: "(string, string) dict"
  jc_timeout :: "rat option"

record runner_config =
  rn_lock :: lock_config
  rn_jobs :: "job_config list"
  stop_on_first_failure :: bool
  notify_success :: bool
  rn_context :: "string option"
  include_output_in_slack :: bool

section \<open>Typed readers\<close>

definition unit_seconds :: "(char \<times> nat) list" where
  "unit_seconds = [(CHR ''s'', 1), (CHR ''m'', 60), (CHR ''h'', 3600), (CHR ''d'', 86400)]"

definition parse_duration :: "pyval \<Rightarrow> rat option res" where
  "parse_duration value =
     (case value of
        PNone \<Rightarrow> Inr None
      | PInt i \<Rightarrow> if i < 0 then Inl (ConfigError ''duration must be non-negative'' [] []) else Inr (Some (of_int i))
      | PFloat q \<Rightarrow> if q < 0 then Inl (ConfigError ''duration must be non-negative'' [] []) else Inr (Some q)
      | PStr s \<Rightarrow>
          if s = [] then Inr None
          else (case (map_of unit_seconds (last s), parse_nat (butlast s)) of
                  (Some mult, Some n) \<Rightarrow>
                    if n < 1 then Inl (ConfigError ''invalid duration'' [s] [])
                    else Inr (Some (of_nat (n * mult)))
                | _ \<Rightarrow> Inl (ConfigError ''invalid duration'' [s] []))
      | _ \<Rightarrow> Inl (ConfigError ''duration must be a string or number'' [] []))"

definition read_path :: "(string \<Rightarrow> string) \<Rightarrow> pyval \<Rightarrow> string \<Rightarrow> string option res" where
  "read_path expand value key =
     (case value of
        PNone \<Rightarrow> Inr None
      | PStr s \<Rightarrow> if s = [] then Inr None else Inr (Some (expand s))
      | _ \<Rightarrow> Inl (ConfigError ''must be a string path'' [key] []))"

definition read_string_list :: "pyval \<Rightarrow> string \<Rightarrow> string list res" where
  "read_string_list value key =
     (case value of
        PList vs \<Rightarrow>
          if vs \<noteq> [] \<and> list_all is_str vs then Inr (map str_of vs)
          else Inl (ConfigError ''must be a non-empty list of strings'' [key] [])
      | _ \<Rightarrow> Inl (ConfigError ''must be a non-empty list of strings'' [key] []))"

definition bool_value :: "pyval \<Rightarrow> string \<Rightarrow> bool \<Rightarrow> bool res" where
  "bool_value value key dflt =
     (case value of
        PNone \<Rightarrow> Inr dflt
      | PBool b \<Rightarrow> Inr b
      | _ \<Rightarrow> Inl (ConfigError ''must be a boolean'' [key] []))"

definition optional_string :: "pyval \<Rightarrow> string \<Rightarrow> string option res" where
  "optional_string value key =
     (case value of
        PNone \<Rightarrow> Inr None
      | PStr s \<Rightarrow> Inr (if s = [] then None else Some s)
      | _ \<Rightarrow> Inl (ConfigError ''must be a string'' [key] []))"

definition choice :: "pyval \<Rightarrow> string \<Rightarrow> string list \<Rightarrow> string \<Rightarrow> string res" where
  "choice value key choices dflt =
     (case value of
        PNone \<Rightarrow> Inr dflt
      | PStr s \<Rightarrow>
          if s \<in> set choices then Inr s
          else Inl (ConfigError ''must be one of'' (key # sort choices) [])
      | _ \<Rightarrow> Inl (ConfigError ''must be a string'' [key] []))"

section \<open>The runner file\<close>

definition STALE_ACTIONS :: "string list" where
  "STALE_ACTIONS = [''exit-and-alert'', ''remove-and-continue'', ''fail-closed'']"

definition section_of :: "mapping_value \<Rightarrow> string \<Rightarrow> string list \<Rightarrow> mapping_value res" where
  "section_of data name allowed =
     bind_res (as_mapping (dget data name (PDict [])) name) (\<lambda>d.
     bind_res (reject_unknown_keys d allowed name) (\<lambda>_. Inr d))"

definition parse_job :: "(string \<Rightarrow> string) \<Rightarrow> (string \<Rightarrow> string) \<Rightarrow> pyval \<Rightarrow> job_config res" where
  "parse_job expand in_dir raw =
     (case raw of
        PDict d \<Rightarrow>
          bind_res (reject_unknown_keys d [''name'', ''command'', ''enabled'', ''cwd'', ''env'', ''timeout''] ''job'') (\<lambda>_.
          bind_res (case dget_none d ''name'' of
                      PStr n \<Rightarrow> if n = [] then Inl (ConfigError ''job.name must be a non-empty string'' [] []) else Inr n
                    | _ \<Rightarrow> Inl (ConfigError ''job.name must be a non-empty string'' [] [])) (\<lambda>name.
          bind_res (read_string_list (dget_none d ''command'') (''job '' @ name @ ''.command'')) (\<lambda>command.
          bind_res (read_path expand (dget_none d ''cwd'') (''job '' @ name @ ''.cwd'')) (\<lambda>cwd.
          bind_res (case dget d ''env'' (PDict []) of
                      PDict e \<Rightarrow> if list_all (\<lambda>kv. is_str (snd kv)) e then Inr (map (\<lambda>(k, v). (k, str_of v)) e)
                                 else Inl (ConfigError ''env must be a mapping of strings'' [name] [])
                    | _ \<Rightarrow> Inl (ConfigError ''env must be a mapping of strings'' [name] [])) (\<lambda>env.
          bind_res (bool_value (dget_none d ''enabled'') (''job '' @ name @ ''.enabled'') True) (\<lambda>enabled.
          bind_res (parse_duration (dget_none d ''timeout'')) (\<lambda>timeout.
          Inr \<lparr>jc_name = name, jc_command = command, jc_enabled = enabled, jc_cwd = map_option in_dir cwd,
               jc_env = env, jc_timeout = timeout\<rparr>)))))))
      | _ \<Rightarrow> Inl (ConfigError ''each job must be a mapping'' [] []))"

fun duplicate_names :: "string list \<Rightarrow> string set \<Rightarrow> string set" where
  "duplicate_names [] seen = {}"
| "duplicate_names (n # ns) seen =
     (if n \<in> seen then insert n (duplicate_names ns (insert n seen)) else duplicate_names ns (insert n seen))"

definition validate_unique_job_names :: "job_config list \<Rightarrow> unit res" where
  "validate_unique_job_names jobs =
     (let duplicates = duplicate_names (map jc_name jobs) {}
      in if duplicates \<noteq> {} then Inl (ConfigError ''duplicate job name(s)'' (sorted_list_of_set duplicates) [])
         else Inr ())"

definition positive_duration :: "rat option \<Rightarrow> rat option" where
  "positive_duration d = (if d = Some 0 then None else d)"

definition parse_runner_config ::
  "(string \<Rightarrow> string) \<Rightarrow> (string \<Rightarrow> string) \<Rightarrow> string \<Rightarrow> mapping_value \<Rightarrow> runner_config res" where
  "parse_runner_config expand in_dir run_dir_lock data =
     bind_res (section_of data ''lock'' [''path'', ''stale_after'', ''stale_action'']) (\<lambda>lock_data.
     bind_res (section_of data ''runner'' [''stop_on_first_failure'', ''notify_success'', ''context'']) (\<lambda>runner_data.
     bind_res (section_of data ''slack''
       [''token_file'', ''channel'', ''level'', ''notify_success'', ''context'', ''include_output'']) (\<lambda>slack_data.
     bind_res (read_path expand (dget_none lock_data ''path'') ''lock.path'') (\<lambda>lp.
     bind_res (parse_duration (dget_none lock_data ''stale_after'')) (\<lambda>after.
     bind_res (choice (dget_none lock_data ''stale_action'') ''lock.stale_action'' STALE_ACTIONS ''exit-and-alert'') (\<lambda>act.
     bind_res (optional_string (dget_none runner_data ''context'') ''runner.context'') (\<lambda>runner_context.
     bind_res (optional_string (dget_none slack_data ''context'') ''slack.context'') (\<lambda>slack_context.
     bind_res (as_list (dget data ''jobs'' (PList [])) ''jobs'') (\<lambda>jobs_raw.
     bind_res (map_res (parse_job expand in_dir) jobs_raw) (\<lambda>jobs.
     bind_res (validate_unique_job_names jobs) (\<lambda>_.
     bind_res (bool_value (dget_none runner_data ''stop_on_first_failure'') ''runner.stop_on_first_failure'' True) (\<lambda>stop.
     bind_res (bool_value (dget slack_data ''notify_success'' (dget_none runner_data ''notify_success''))
                 ''slack.notify_success'' False) (\<lambda>notify.
     bind_res (bool_value (dget_none slack_data ''include_output'') ''slack.include_output'' False) (\<lambda>output.
     Inr \<lparr>rn_lock = \<lparr>lock_path = in_dir (case lp of None \<Rightarrow> run_dir_lock | Some p \<Rightarrow> p),
                     stale_after = positive_duration after, stale_action = act\<rparr>,
          rn_jobs = jobs, stop_on_first_failure = stop, notify_success = notify,
          rn_context = (case runner_context of None \<Rightarrow> slack_context | Some c \<Rightarrow> Some c),
          include_output_in_slack = output\<rparr>))))))))))))))"

section \<open>Command line\<close>

record cli_args =
  arg_command :: "string list option"
  arg_lock_file :: "string option"
  arg_stale_after :: "string option"
  arg_stale_action :: "string option"
  arg_timeout :: "string option"
  arg_jobs :: "string list"
  arg_include_disabled :: bool
  arg_continue_on_failure :: bool

definition given :: "string option \<Rightarrow> bool" where
  "given v \<longleftrightarrow> (case v of None \<Rightarrow> False | Some s \<Rightarrow> s \<noteq> [])"

definition arg_value :: "string option \<Rightarrow> pyval" where
  "arg_value v = (case v of None \<Rightarrow> PNone | Some s \<Rightarrow> PStr s)"

definition single_command_config :: "string \<Rightarrow> cli_args \<Rightarrow> runner_config res" where
  "single_command_config run_dir_lock args =
     (case arg_command args of
        Some (c # cs) \<Rightarrow>
          bind_res (if given (arg_stale_after args) then parse_duration (arg_value (arg_stale_after args)) else Inr None) (\<lambda>after.
          bind_res (parse_duration (arg_value (arg_timeout args))) (\<lambda>timeout.
          Inr \<lparr>rn_lock = \<lparr>lock_path = (case arg_lock_file args of None \<Rightarrow> run_dir_lock | Some p \<Rightarrow> p),
                          stale_after = after,
                          stale_action = (if given (arg_stale_action args) then the (arg_stale_action args) else ''exit-and-alert'')\<rparr>,
               rn_jobs = [\<lparr>jc_name = ''command'', jc_command = c # cs, jc_enabled = True, jc_cwd = None,
                           jc_env = [], jc_timeout = timeout\<rparr>],
               stop_on_first_failure = True, notify_success = False, rn_context = None,
               include_output_in_slack = False\<rparr>))
      | _ \<Rightarrow> Inl (ConfigError ''--command requires at least one command argument'' [] []))"

definition apply_cli_overrides :: "runner_config \<Rightarrow> cli_args \<Rightarrow> runner_config res" where
  "apply_cli_overrides config args =
     bind_res (if given (arg_stale_after args) then parse_duration (arg_value (arg_stale_after args))
               else Inr (stale_after (rn_lock config))) (\<lambda>after.
     bind_res (if given (arg_timeout args) then parse_duration (arg_value (arg_timeout args)) else Inr None) (\<lambda>timeout.
     Inr (config\<lparr>rn_lock :=
             \<lparr>lock_path = (case arg_lock_file args of None \<Rightarrow> lock_path (rn_lock config) | Some p \<Rightarrow> p),
              stale_after = after,
              stale_action = (if given (arg_stale_action args) then the (arg_stale_action args)
                              else stale_action (rn_lock config))\<rparr>,
           rn_jobs := (case timeout of None \<Rightarrow> rn_jobs config
                       | Some t \<Rightarrow> map (\<lambda>j. j\<lparr>jc_timeout := Some t\<rparr>) (rn_jobs config))\<rparr>)))"

definition select_jobs :: "job_config list \<Rightarrow> string list \<Rightarrow> bool \<Rightarrow> job_config list res" where
  "select_jobs jobs selected include_disabled =
     (if selected \<noteq> [] then
        (let by_name = dict_of (map (\<lambda>j. (jc_name j, j)) jobs) [];
             missing = sorted_list_of_set (set selected - set (map fst by_name))
         in if missing \<noteq> [] then Inl (RunnerConfigError ''unknown job(s)'' missing)
            else Inr (filter (\<lambda>j. include_disabled \<or> jc_enabled j) (map (\<lambda>n. the (map_of by_name n)) selected)))
      else Inr (filter (\<lambda>j. include_disabled \<or> jc_enabled j) jobs))"

section \<open>Redaction\<close>

definition SENSITIVE_WORDS :: "string list" where
  "SENSITIVE_WORDS = [''TOKEN'', ''SECRET'', ''PASSWORD'', ''PASS'', ''KEY'', ''CREDENTIAL'', ''AUTH'']"

fun contains :: "string \<Rightarrow> string \<Rightarrow> bool" where
  "contains w [] = (w = [])"
| "contains w (c # s) = (startswith (c # s) w \<or> contains w s)"

definition looks_sensitive :: "string \<Rightarrow> bool" where
  "looks_sensitive value =
     (let up = map (\<lambda>c. if c = CHR ''-'' then CHR ''_'' else c) (upper value)
      in list_ex (\<lambda>w. contains w up) SENSITIVE_WORDS)"

definition redacted_mark :: string where
  "redacted_mark = ''[redacted]''"

definition redacted_env :: "(string, string) dict \<Rightarrow> (string, string) dict" where
  "redacted_env env = map (\<lambda>(k, v). (k, if looks_sensitive k then redacted_mark else v)) env"

fun redact_tokens :: "bool \<Rightarrow> string list \<Rightarrow> string list" where
  "redact_tokens redact_next [] = []"
| "redact_tokens redact_next (token # rest) =
     (if redact_next then redacted_mark # redact_tokens False rest
      else if CHR ''='' \<in> set token then
        (let key = takeWhile (\<lambda>c. c \<noteq> CHR ''='') token
         in (if looks_sensitive key then key @ ''='' @ redacted_mark else token) # redact_tokens False rest)
      else token # redact_tokens (startswith token ''-'' \<and> looks_sensitive token) rest)"

definition redacted_command :: "string list \<Rightarrow> string list" where
  "redacted_command command = redact_tokens False command"

text \<open>The configuration as it is logged; a record of the same fields stands for the JSON view.\<close>

definition redacted_job :: "job_config \<Rightarrow> job_config" where
  "redacted_job job = job\<lparr>jc_command := redacted_command (jc_command job), jc_env := redacted_env (jc_env job)\<rparr>"

definition redacted_runner_config :: "runner_config \<Rightarrow> runner_config" where
  "redacted_runner_config config = config\<lparr>rn_jobs := map redacted_job (rn_jobs config)\<rparr>"

end
