(* ===== verification/Cron_Run.thy ===== *)
theory Cron_Run
  imports Cron_Config
begin

text \<open>
  Running the jobs of \<open>pk-cron-runner\<close> and reporting them. What the operating system does with a
  job is the parameter \<open>proc\<close>: it answers with the outcome of starting the command and waiting for
  it under its timeout. The three regular expressions that redact output are the parameter
  \<open>scrub\<close>; output is text.
\<close>

section \<open>One job\<close>

definition EXIT_SUCCESS :: int where "EXIT_SUCCESS = 0"

definition EXIT_JOB_FAILED :: int where "EXIT_JOB_FAILED = 1"

definition EXIT_CONFIG_ERROR :: int where "EXIT_CONFIG_ERROR = 2"

definition EXIT_LOCKED :: int where "EXIT_LOCKED = 3"

definition EXIT_TIMEOUT :: int where "EXIT_TIMEOUT = 4"

record job_result =
  jr_name :: string
  jr_returncode :: int
  jr_stdout :: string
  jr_stderr :: string
  jr_timed_out :: bool

definition job_ok :: "job_result \<Rightarrow> bool" where
  "job_ok r \<longleftrightarrow> jr_returncode r = 0 \<and> \<not> jr_timed_out r"

text \<open>
  The command could not be started; it ended with a code and its output; or it ran into its timeout,
  was terminated, and left its output.
\<close>

datatype proc_outcome =
    Spawn_failed string
  | Exited int string string
  | Expired string string

definition MAX_CAPTURED_OUTPUT_BYTES :: nat where
  "MAX_CAPTURED_OUTPUT_BYTES = 200000"

definition read_captured_output :: "string \<Rightarrow> string" where
  "read_captured_output output =
     (let start = length output - MAX_CAPTURED_OUTPUT_BYTES
      in if start > 0 then ''... output truncated ...'' @ [CHR 0x0A] @ drop start output else output)"

definition result_of :: "job_config \<Rightarrow> proc_outcome \<Rightarrow> job_result" where
  "result_of job oc =
     (case oc of
        Spawn_failed e \<Rightarrow>
          \<lparr>jr_name = jc_name job, jr_returncode = EXIT_JOB_FAILED, jr_stdout = [], jr_stderr = e, jr_timed_out = False\<rparr>
      | Exited code out err \<Rightarrow>
          \<lparr>jr_name = jc_name job, jr_returncode = code, jr_stdout = read_captured_output out,
           jr_stderr = read_captured_output err, jr_timed_out = False\<rparr>
      | Expired out err \<Rightarrow>
          \<lparr>jr_name = jc_name job, jr_returncode = EXIT_TIMEOUT, jr_stdout = read_captured_output out,
           jr_stderr = read_captured_output err, jr_timed_out = True\<rparr>)"

definition run_job :: "(job_config \<Rightarrow> 'w \<Rightarrow> 'w \<times> proc_outcome) \<Rightarrow> job_config \<Rightarrow> 'w \<Rightarrow> 'w \<times> job_result" where
  "run_job proc job w = (case proc job w of (w', oc) \<Rightarrow> (w', result_of job oc))"

section \<open>All jobs\<close>

fun run_loop ::
  "(job_config \<Rightarrow> 'w \<Rightarrow> 'w \<times> proc_outcome) \<Rightarrow> bool \<Rightarrow> job_config list \<Rightarrow> 'w \<Rightarrow> 'w \<times> job_result list" where
  "run_loop proc stop [] w = (w, [])"
| "run_loop proc stop (job # jobs) w =
     (case run_job proc job w of
        (w1, r) \<Rightarrow>
          if \<not> job_ok r \<and> stop then (w1, [r])
          else (case run_loop proc stop jobs w1 of (w2, rs) \<Rightarrow> (w2, r # rs)))"

definition results_exit_code :: "job_result list \<Rightarrow> int" where
  "results_exit_code results =
     (if list_ex jr_timed_out results then EXIT_TIMEOUT
      else if list_ex (\<lambda>r. \<not> job_ok r) results then EXIT_JOB_FAILED
      else EXIT_SUCCESS)"

definition run_jobs ::
  "(job_config \<Rightarrow> 'w \<Rightarrow> 'w \<times> proc_outcome) \<Rightarrow> runner_config \<Rightarrow> string list \<Rightarrow> bool \<Rightarrow> ('w, int \<times> job_result list) action" where
  "run_jobs proc config selected include_disabled w =
     (case select_jobs (rn_jobs config) selected include_disabled of
        Inl e \<Rightarrow> (w, Inl e)
      | Inr jobs \<Rightarrow>
          if jobs = [] then (w, Inl (RunnerConfigError ''no jobs selected'' []))
          else (case run_loop proc (stop_on_first_failure config) jobs w of
                  (w', results) \<Rightarrow> (w', Inr (results_exit_code results, results))))"

section \<open>The summary\<close>

definition newline :: string where
  "newline = [CHR 0x0A]"

definition bounded_output :: "(string \<Rightarrow> string) \<Rightarrow> job_result \<Rightarrow> string" where
  "bounded_output scrub r =
     (let parts = (if jr_stderr r \<noteq> [] then [''stderr:'' @ newline @ strip (jr_stderr r)] else []) @
                  (if jr_stdout r \<noteq> [] then [''stdout:'' @ newline @ strip (jr_stdout r)] else []);
          output = scrub (join newline parts)
      in if length output > 1500 then take 1500 output @ newline @ ''... output truncated ...'' else output)"

definition failure_lines :: "(string \<Rightarrow> string) \<Rightarrow> bool \<Rightarrow> job_result \<Rightarrow> string list" where
  "failure_lines scrub include_output r =
     [''- '' @ jr_name r @ '': '' @
        (if jr_timed_out r then ''timeout'' else ''exit '' @ show_int (jr_returncode r))] @
     (if include_output \<and> bounded_output scrub r \<noteq> [] then [bounded_output scrub r] else [])"

definition failure_summary :: "(string \<Rightarrow> string) \<Rightarrow> int \<Rightarrow> job_result list \<Rightarrow> runner_config \<Rightarrow> string" where
  "failure_summary scrub exit_code results config =
     join newline
       ((''runner failed ('' @ show_nat (length results) @ '' job(s), exit '' @ show_int exit_code @ '')'') #
        concat (map (failure_lines scrub (include_output_in_slack config)) (filter (\<lambda>r. \<not> job_ok r) results)))"

text \<open>The level (critical or not) and text of the summary that is logged.\<close>

definition log_summary :: "(string \<Rightarrow> string) \<Rightarrow> runner_config \<Rightarrow> int \<Rightarrow> job_result list \<Rightarrow> bool \<times> string" where
  "log_summary scrub config exit_code results =
     (let context = (case rn_context config of None \<Rightarrow> [] | Some c \<Rightarrow> if c = [] then [] else c @ '': '')
      in if exit_code = EXIT_SUCCESS then
           (notify_success config,
            context @ ''runner completed successfully ('' @ show_nat (length results) @ '' job(s))'')
         else (True, context @ failure_summary scrub exit_code results config))"

section \<open>The command\<close>

text \<open>
  \<open>with LockFile(...)\<close> around the jobs: \<open>acquire\<close> and \<open>release\<close> are the operations of the lock
  (theory \<open>Cron_Lock\<close>); the lock is released whether or not the body raises. Errors become the
  exit codes of their class.
\<close>

definition with_lock :: "('w, unit) action \<Rightarrow> ('w \<Rightarrow> 'w) \<Rightarrow> ('w, 'a) action \<Rightarrow> ('w, 'a) action" where
  "with_lock acquire release body w =
     (case acquire w of
        (w1, Inl e) \<Rightarrow> (w1, Inl e)
      | (w1, Inr _) \<Rightarrow> (case body w1 of (w2, r) \<Rightarrow> (release w2, r)))"

definition exit_code_of :: "exn \<Rightarrow> int option" where
  "exit_code_of e =
     (case e of
        LockUnavailable _ \<Rightarrow> Some EXIT_LOCKED
      | RunnerConfigError _ _ \<Rightarrow> Some EXIT_CONFIG_ERROR
      | ConfigError _ _ _ \<Rightarrow> Some EXIT_CONFIG_ERROR
      | _ \<Rightarrow> None)"

definition runner_main ::
  "(job_config \<Rightarrow> 'w \<Rightarrow> 'w \<times> proc_outcome) \<Rightarrow> (lock_config \<Rightarrow> ('w, unit) action) \<Rightarrow> ('w \<Rightarrow> 'w) \<Rightarrow>
   (bool \<times> string \<Rightarrow> 'w \<Rightarrow> 'w) \<Rightarrow> (string \<Rightarrow> string) \<Rightarrow> runner_config res \<Rightarrow> cli_args \<Rightarrow> ('w, int) action" where
  "runner_main proc acquire release emit scrub loaded args w =
     (let prog =
        bind_act (pure_act (bind_res loaded (\<lambda>c. apply_cli_overrides c args))) (\<lambda>config.
        let config = (if arg_continue_on_failure args then config\<lparr>stop_on_first_failure := False\<rparr> else config)
        in bind_act (with_lock (acquire (rn_lock config)) release
             (run_jobs proc config (arg_jobs args) (arg_include_disabled args))) (\<lambda>(code, results).
           (\<lambda>w. (emit (log_summary scrub config code results) w, Inr code))))
      in case prog w of
           (w', Inr code) \<Rightarrow> (w', Inr code)
         | (w', Inl e) \<Rightarrow> (w', (case exit_code_of e of None \<Rightarrow> Inl e | Some code \<Rightarrow> Inr code)))"

end
