(* ===== verification/Cron_Lock.thy ===== *)
theory Cron_Lock
  imports Cron_Run
begin

text \<open>
  The single-instance lock of \<open>pk-cron-runner\<close>. First as sequential operations on the lock file;
  then as a step relation between runner processes that run \<open>acquire\<close> and \<open>release\<close>
  concurrently, one system call at a time, with crashes and the passage of time. A runner is
  identified by the token it writes into the file. Parameters: \<open>ptime\<close> and \<open>fmt\<close> read and print a
  time stamp (\<open>datetime.fromisoformat\<close>, \<open>isoformat\<close>) in microseconds, \<open>info\<close> is what a process writes about itself.
\<close>

section \<open>The lock file\<close>

text \<open>
  A file at the lock path was created by some runner; its content is a JSON object or cannot be
  read as one (it is still empty, or corrupt).
\<close>

datatype lock_file = Lock (creator: string) (contents: "mapping_value option")

record process_info =
  pi_host :: string
  pi_pid :: int
  pi_command :: "string list"
  pi_timeout :: pyval

definition lock_metadata :: "(int \<Rightarrow> string) \<Rightarrow> (string \<Rightarrow> process_info) \<Rightarrow> string \<Rightarrow> int \<Rightarrow> mapping_value" where
  "lock_metadata fmt info r start =
     [(''host'', PStr (pi_host (info r))), (''pid'', PInt (pi_pid (info r))),
      (''command'', PList (map PStr (redacted_command (pi_command (info r))))),
      (''start_time'', PStr (fmt start)), (''timeout'', pi_timeout (info r)), (''token'', PStr r)]"

definition read_lock_metadata :: "lock_file option \<Rightarrow> mapping_value" where
  "read_lock_metadata f = (case f of Some (Lock _ (Some m)) \<Rightarrow> m | _ \<Rightarrow> [])"

definition is_lock_stale :: "(string \<Rightarrow> int option) \<Rightarrow> int \<Rightarrow> mapping_value \<Rightarrow> rat option \<Rightarrow> bool" where
  "is_lock_stale ptime now metadata after =
     (case after of
        None \<Rightarrow> False
      | Some a \<Rightarrow>
          (case dget_none metadata ''start_time'' of
             PStr s \<Rightarrow> (case ptime s of None \<Rightarrow> True | Some start \<Rightarrow> of_int (now - start) > a * 1000000)
           | _ \<Rightarrow> True))"

text \<open>What to do about an existing lock: refuse with an error, or remove it.\<close>

definition lock_verdict :: "(string \<Rightarrow> int option) \<Rightarrow> lock_config \<Rightarrow> int \<Rightarrow> mapping_value \<Rightarrow> exn option" where
  "lock_verdict ptime cfg now metadata =
     (if metadata = [] then Some (LockUnavailable ''runner lock metadata is unavailable'')
      else if \<not> is_lock_stale ptime now metadata (stale_after cfg) then Some (LockUnavailable ''runner lock is active'')
      else if stale_action cfg = ''remove-and-continue'' then None
      else if stale_action cfg = ''fail-closed'' then Some (LockUnavailable ''runner lock is stale; failing closed'')
      else Some (LockUnavailable ''runner lock is stale''))"

section \<open>Sequential operations\<close>

definition handle_existing_lock ::
  "(string \<Rightarrow> int option) \<Rightarrow> lock_config \<Rightarrow> int \<Rightarrow> (lock_file option, unit) action" where
  "handle_existing_lock ptime cfg now f =
     (case lock_verdict ptime cfg now (read_lock_metadata f) of Some e \<Rightarrow> (f, Inl e) | None \<Rightarrow> (None, Inr ()))"

definition acquire ::
  "(string \<Rightarrow> int option) \<Rightarrow> (int \<Rightarrow> string) \<Rightarrow> (string \<Rightarrow> process_info) \<Rightarrow> lock_config \<Rightarrow> string \<Rightarrow> int \<Rightarrow>
   (lock_file option, unit) action" where
  "acquire ptime fmt info cfg r now f =
     (let create = (\<lambda>_. (Some (Lock r (Some (lock_metadata fmt info r now))), Inr ()))
      in if f = None then create f
         else (case handle_existing_lock ptime cfg now f of
                 (f', Inl e) \<Rightarrow> (f', Inl e)
               | (f', Inr _) \<Rightarrow> create f'))"

definition release :: "string \<Rightarrow> lock_file option \<Rightarrow> lock_file option" where
  "release r f = (if dget_none (read_lock_metadata f) ''token'' = PStr r then None else f)"

section \<open>Concurrent runners\<close>

text \<open>
  Where a runner is: before \<open>acquire\<close>; waiting for the recovery guard; at the first \<open>os.open\<close>; in
  \<open>_handle_existing_lock\<close> before the first read, before the second read, before the unlink; at the
  second \<open>os.open\<close>; before writing the metadata; running its jobs; in \<open>release\<close> after its token was
  read; or done.
\<close>

datatype pc =
    Idle | Waiting | Opening | Handling | Rechecking mapping_value | Unlinking | Reopening | Writing
  | Running | Releasing | Finished | Refused | Crashed

record lock_state =
  disk :: "lock_file option"
  guard :: "string option"
  pcs :: "string \<Rightarrow> pc"
  starts :: "string \<Rightarrow> int"
  clock :: int

definition at_pc :: "lock_state \<Rightarrow> string \<Rightarrow> pc \<Rightarrow> lock_state" where
  "at_pc s r p = s\<lparr>pcs := (pcs s)(r := p)\<rparr>"

definition leave :: "lock_state \<Rightarrow> string \<Rightarrow> pc \<Rightarrow> lock_state" where
  "leave s r p = s\<lparr>pcs := (pcs s)(r := p), guard := None\<rparr>"

inductive lock_step ::
  "(string \<Rightarrow> int option) \<Rightarrow> (int \<Rightarrow> string) \<Rightarrow> (string \<Rightarrow> process_info) \<Rightarrow> lock_config \<Rightarrow> lock_state \<Rightarrow> lock_state \<Rightarrow> bool"
  for ptime fmt info cfg where
  start: "pcs s r = Idle \<Longrightarrow> lock_step ptime fmt info cfg s (at_pc (s\<lparr>starts := (starts s)(r := clock s)\<rparr>) r Waiting)"
| enter: "pcs s r = Waiting \<Longrightarrow> guard s = None \<Longrightarrow> lock_step ptime fmt info cfg s (at_pc (s\<lparr>guard := Some r\<rparr>) r Opening)"
| create: "pcs s r = Opening \<Longrightarrow> disk s = None \<Longrightarrow>
    lock_step ptime fmt info cfg s (at_pc (s\<lparr>disk := Some (Lock r None)\<rparr>) r Writing)"
| present: "pcs s r = Opening \<Longrightarrow> disk s = Some f \<Longrightarrow> lock_step ptime fmt info cfg s (at_pc s r Handling)"
| refuse: "pcs s r = Handling \<Longrightarrow> lock_verdict ptime cfg (clock s) (read_lock_metadata (disk s)) = Some e \<Longrightarrow>
    lock_step ptime fmt info cfg s (leave s r Refused)"
| stale: "pcs s r = Handling \<Longrightarrow> lock_verdict ptime cfg (clock s) (read_lock_metadata (disk s)) = None \<Longrightarrow>
    lock_step ptime fmt info cfg s (at_pc s r (Rechecking (read_lock_metadata (disk s))))"
| changed: "pcs s r = Rechecking m \<Longrightarrow> read_lock_metadata (disk s) \<noteq> m \<Longrightarrow> lock_step ptime fmt info cfg s (leave s r Refused)"
| confirmed: "pcs s r = Rechecking m \<Longrightarrow> read_lock_metadata (disk s) = m \<Longrightarrow>
    lock_step ptime fmt info cfg s (at_pc s r Unlinking)"
| unlink: "pcs s r = Unlinking \<Longrightarrow> lock_step ptime fmt info cfg s (at_pc (s\<lparr>disk := None\<rparr>) r Reopening)"
| recreate: "pcs s r = Reopening \<Longrightarrow> disk s = None \<Longrightarrow>
    lock_step ptime fmt info cfg s (at_pc (s\<lparr>disk := Some (Lock r None)\<rparr>) r Writing)"
| lost: "pcs s r = Reopening \<Longrightarrow> disk s = Some f \<Longrightarrow> lock_step ptime fmt info cfg s (leave s r Refused)"
| written: "pcs s r = Writing \<Longrightarrow>
    d = (case disk s of
           Some f \<Rightarrow> if creator f = r then Some (Lock r (Some (lock_metadata fmt info r (starts s r)))) else Some f
         | None \<Rightarrow> None) \<Longrightarrow>
    lock_step ptime fmt info cfg s (leave (s\<lparr>disk := d\<rparr>) r Running)"
| write_failed: "pcs s r = Writing \<Longrightarrow> lock_step ptime fmt info cfg s (leave (s\<lparr>disk := None\<rparr>) r Refused)"
| read_own: "pcs s r = Running \<Longrightarrow> dget_none (read_lock_metadata (disk s)) ''token'' = PStr r \<Longrightarrow>
    lock_step ptime fmt info cfg s (at_pc s r Releasing)"
| read_other: "pcs s r = Running \<Longrightarrow> dget_none (read_lock_metadata (disk s)) ''token'' \<noteq> PStr r \<Longrightarrow>
    lock_step ptime fmt info cfg s (at_pc s r Finished)"
| unlink_own: "pcs s r = Releasing \<Longrightarrow> lock_step ptime fmt info cfg s (at_pc (s\<lparr>disk := None\<rparr>) r Finished)"
| crash: "pcs s r \<notin> {Idle, Finished, Refused, Crashed} \<Longrightarrow>
    lock_step ptime fmt info cfg s (at_pc (s\<lparr>guard := if guard s = Some r then None else guard s\<rparr>) r Crashed)"
| tick: "clock s \<le> t \<Longrightarrow> lock_step ptime fmt info cfg s (s\<lparr>clock := t\<rparr>)"

definition lock_init :: "lock_file option \<Rightarrow> lock_state" where
  "lock_init f = \<lparr>disk = f, guard = None, pcs = (\<lambda>_. Idle), starts = (\<lambda>_. 0), clock = 0\<rparr>"

section \<open>Mutual exclusion\<close>

definition holding :: "pc \<Rightarrow> bool" where
  "holding p \<longleftrightarrow> p \<in> {Writing, Running, Releasing}"

definition guarded :: "pc \<Rightarrow> bool" where
  "guarded p \<longleftrightarrow> p \<in> {Opening, Handling, Unlinking, Reopening, Writing} \<or> (\<exists>m. p = Rechecking m)"

text \<open>
  A run is timely when, under \<open>remove-and-continue\<close>, no runner that still works or releases has
  become stale.
\<close>

definition timely :: "lock_config \<Rightarrow> lock_state \<Rightarrow> bool" where
  "timely cfg s \<longleftrightarrow>
     (stale_action cfg = ''remove-and-continue'' \<longrightarrow>
      (\<forall>r a. stale_after cfg = Some a \<longrightarrow> pcs s r \<in> {Running, Releasing} \<longrightarrow> of_int (clock s - starts s r) \<le> a * 1000000))"

inductive timely_reach ::
  "(string \<Rightarrow> int option) \<Rightarrow> (int \<Rightarrow> string) \<Rightarrow> (string \<Rightarrow> process_info) \<Rightarrow> lock_config \<Rightarrow> lock_file option \<Rightarrow> lock_state \<Rightarrow> bool"
  for ptime fmt info cfg f where
  init: "timely_reach ptime fmt info cfg f (lock_init f)"
| step: "timely_reach ptime fmt info cfg f s \<Longrightarrow> lock_step ptime fmt info cfg s s' \<Longrightarrow> timely cfg s' \<Longrightarrow>
    timely_reach ptime fmt info cfg f s'"

definition lock_inv :: "(int \<Rightarrow> string) \<Rightarrow> (string \<Rightarrow> process_info) \<Rightarrow> lock_state \<Rightarrow> bool" where
  "lock_inv fmt info s \<longleftrightarrow>
     (\<forall>r. guarded (pcs s r) \<longleftrightarrow> guard s = Some r) \<and>
     (\<forall>r. pcs s r = Writing \<longrightarrow> disk s = Some (Lock r None)) \<and>
     (\<forall>r. pcs s r \<in> {Running, Releasing} \<longrightarrow> disk s = Some (Lock r (Some (lock_metadata fmt info r (starts s r))))) \<and>
     (\<forall>r q. pcs s r \<in> {Unlinking, Reopening} \<or> (\<exists>m. pcs s r = Rechecking m) \<longrightarrow> \<not> holding (pcs s q))"

lemma lock_metadata_fields [simp]:
  "dget_none (lock_metadata fmt info r t) ''token'' = PStr r"
  "dget_none (lock_metadata fmt info r t) ''start_time'' = PStr (fmt t)"
  "lock_metadata fmt info r t \<noteq> []"
  by (simp_all add: lock_metadata_def dget_def)

lemma pc_sets [simp]:
  "guarded Idle = False" "guarded Waiting = False" "guarded Opening = True" "guarded Handling = True"
  "guarded (Rechecking m) = True" "guarded Unlinking = True" "guarded Reopening = True" "guarded Writing = True"
  "guarded Running = False" "guarded Releasing = False" "guarded Finished = False" "guarded Refused = False"
  "guarded Crashed = False"
  "holding Idle = False" "holding Waiting = False" "holding Opening = False" "holding Handling = False"
  "holding (Rechecking m) = False" "holding Unlinking = False" "holding Reopening = False" "holding Writing = True"
  "holding Running = True" "holding Releasing = True" "holding Finished = False" "holding Refused = False"
  "holding Crashed = False"
  by (simp_all add: guarded_def holding_def)

lemma lock_inv_init: "lock_inv fmt info (lock_init f)"
  by (simp add: lock_inv_def lock_init_def)

lemma lock_invD:
  assumes "lock_inv fmt info s"
  shows "guarded (pcs s r) \<longleftrightarrow> guard s = Some r"
    and "pcs s r = Writing \<Longrightarrow> disk s = Some (Lock r None)"
    and "pcs s r \<in> {Running, Releasing} \<Longrightarrow> disk s = Some (Lock r (Some (lock_metadata fmt info r (starts s r))))"
    and "pcs s r \<in> {Unlinking, Reopening} \<or> (\<exists>m. pcs s r = Rechecking m) \<Longrightarrow> \<not> holding (pcs s q)"
  using assms unfolding lock_inv_def by blast+

lemma holding_creator:
  assumes "lock_inv fmt info s" and "holding (pcs s r)"
  shows "\<exists>c. disk s = Some (Lock r c)"
  using assms(2) lock_invD(2,3) [OF assms(1), of r] by (auto simp: holding_def)

lemma one_holder:
  assumes "lock_inv fmt info s" and "holding (pcs s r)" "holding (pcs s q)"
  shows "r = q"
  using holding_creator [OF assms(1,2)] holding_creator [OF assms(1,3)] by auto

text \<open>A lock that is judged stale in a timely state belongs to no runner that still holds it.\<close>

lemma stale_not_held:
  assumes inv: "lock_inv fmt info s" and tm: "timely cfg s" and pt: "\<forall>t. ptime (fmt t) = Some t"
    and r: "pcs s r = Handling" and v: "lock_verdict ptime cfg (clock s) (read_lock_metadata (disk s)) = None"
  shows "\<not> holding (pcs s q)"
proof
  assume h: "holding (pcs s q)"
  have "guard s = Some r" using lock_invD(1) [OF inv, of r] r by simp
  then have "pcs s q \<noteq> Writing" using lock_invD(1) [OF inv, of q] r by auto
  with h have q: "pcs s q \<in> {Running, Releasing}" by (simp add: holding_def)
  from v have act: "stale_action cfg = ''remove-and-continue''"
    and st: "is_lock_stale ptime (clock s) (read_lock_metadata (disk s)) (stale_after cfg)"
    by (auto simp: lock_verdict_def split: if_splits)
  obtain a where a: "stale_after cfg = Some a" using st by (auto simp: is_lock_stale_def split: option.splits)
  have "read_lock_metadata (disk s) = lock_metadata fmt info q (starts s q)"
    using lock_invD(3) [OF inv q] by (simp add: read_lock_metadata_def)
  with st a pt have "a * 1000000 < of_int (clock s - starts s q)" by (simp add: is_lock_stale_def)
  moreover have "of_int (clock s - starts s q) \<le> a * 1000000" using tm act a q unfolding timely_def by blast
  ultimately show False by simp
qed

lemmas step_simps = at_pc_def leave_def

lemma one_guarded:
  assumes "lock_inv fmt info s" and "guarded (pcs s r)" and "q \<noteq> r"
  shows "pcs s q \<noteq> Unlinking \<and> pcs s q \<noteq> Reopening \<and> (\<forall>m. pcs s q \<noteq> Rechecking m)"
  using lock_invD(1) [OF assms(1), of r] lock_invD(1) [OF assms(1), of q] assms(2,3)
  by (auto simp: guarded_def)

definition in_check :: "pc \<Rightarrow> bool" where
  "in_check p \<longleftrightarrow> p = Unlinking \<or> p = Reopening \<or> (\<exists>m. p = Rechecking m)"

text \<open>The invariant after a step that moves only runner \<open>r\<close>.\<close>

lemma lock_inv_move:
  assumes inv: "lock_inv fmt info s"
    and s': "pcs s' = (pcs s)(r := p)" "\<And>q. q \<noteq> r \<Longrightarrow> starts s' q = starts s q"
    and dsk: "disk s' = disk s \<or> (\<forall>q. q \<noteq> r \<longrightarrow> \<not> holding (pcs s q))"
    and grd: "guarded p \<longleftrightarrow> guard s' = Some r" "\<And>q. q \<noteq> r \<Longrightarrow> guard s' = Some q \<longleftrightarrow> guard s = Some q"
    and own: "p = Writing \<Longrightarrow> disk s' = Some (Lock r None)"
      "p \<in> {Running, Releasing} \<Longrightarrow> disk s' = Some (Lock r (Some (lock_metadata fmt info r (starts s' r))))"
    and chk: "in_check p \<Longrightarrow> \<forall>q. q \<noteq> r \<longrightarrow> \<not> holding (pcs s q)"
    and new: "holding p \<Longrightarrow> \<forall>q. q \<noteq> r \<longrightarrow> \<not> in_check (pcs s q)"
  shows "lock_inv fmt info s'"
proof -
  have "guarded (pcs s' q) \<longleftrightarrow> guard s' = Some q" for q
    using s'(1) grd lock_invD(1) [OF inv, of q] by (cases "q = r") auto
  moreover have "disk s' = Some (Lock q None)" if "pcs s' q = Writing" for q
    using that s'(1) own(1) dsk lock_invD(2) [OF inv, of q] by (cases "q = r") auto
  moreover have "disk s' = Some (Lock q (Some (lock_metadata fmt info q (starts s' q))))"
    if "pcs s' q \<in> {Running, Releasing}" for q
    using that s' own(2) dsk lock_invD(3) [OF inv, of q] by (cases "q = r") auto
  moreover have "\<not> holding (pcs s' b)" if a: "in_check (pcs s' a)" for a b
  proof (cases "a = r"; cases "b = r")
    assume "a = r" "b = r"
    then show ?thesis using a s'(1) by (auto simp: in_check_def)
  next
    assume "a = r" "b \<noteq> r"
    then show ?thesis using a s'(1) chk by simp
  next
    assume "a \<noteq> r" "b = r"
    then show ?thesis using a s'(1) new by auto
  next
    assume "a \<noteq> r" "b \<noteq> r"
    then show ?thesis using a s'(1) lock_invD(4) [OF inv, of a b] by (auto simp: in_check_def)
  qed
  ultimately show ?thesis unfolding lock_inv_def in_check_def by blast
qed

lemma guarded_alone:
  assumes "lock_inv fmt info s" and "guarded (pcs s r)"
  shows "guard s = Some r" and "\<forall>q. q \<noteq> r \<longrightarrow> \<not> in_check (pcs s q)"
  using lock_invD(1) [OF assms(1)] assms(2) one_guarded [OF assms] by (auto simp: in_check_def)

lemma held_alone:
  assumes "lock_inv fmt info s" and "holding (pcs s r)"
  shows "\<forall>q. q \<noteq> r \<longrightarrow> \<not> holding (pcs s q)"
  using one_holder [OF assms] by blast

lemma unlocked_alone:
  assumes "lock_inv fmt info s" and "disk s = None"
  shows "\<forall>q. q \<noteq> r \<longrightarrow> \<not> holding (pcs s q)"
  using holding_creator [OF assms(1)] assms(2) by force

lemma check_alone:
  assumes "lock_inv fmt info s" and "in_check (pcs s r)"
  shows "\<forall>q. q \<noteq> r \<longrightarrow> \<not> holding (pcs s q)"
  using lock_invD(4) [OF assms(1), of r] assms(2) by (auto simp: in_check_def)

lemma check_simps [simp]:
  "in_check Idle = False" "in_check Waiting = False" "in_check Opening = False" "in_check Handling = False"
  "in_check (Rechecking m)" "in_check Unlinking" "in_check Reopening" "in_check Writing = False"
  "in_check Running = False" "in_check Releasing = False" "in_check Finished = False" "in_check Refused = False"
  "in_check Crashed = False"
  by (simp_all add: in_check_def)

lemma lock_inv_step:
  assumes inv: "lock_inv fmt info s" and tm: "timely cfg s" and pt: "\<forall>t. ptime (fmt t) = Some t"
    and step: "lock_step ptime fmt info cfg s s'"
  shows "lock_inv fmt info s'"
  using step
proof cases
  case (start r)
  note g = lock_invD(1) [OF inv, of r]
  show ?thesis by (rule lock_inv_move [OF inv, of s' r Waiting]) (use start g in \<open>auto simp: step_simps\<close>)
next
  case (enter r)
  show ?thesis by (rule lock_inv_move [OF inv, of s' r Opening]) (use enter in \<open>auto simp: step_simps\<close>)
next
  case (create r)
  then have "guarded (pcs s r)" by simp
  note alone = guarded_alone [OF inv this] unlocked_alone [OF inv create(3), of r]
  show ?thesis by (rule lock_inv_move [OF inv, of s' r Writing]) (use create alone in \<open>auto simp: step_simps\<close>)
next
  case (present r)
  then have "guarded (pcs s r)" by simp
  note alone = guarded_alone [OF inv this]
  show ?thesis by (rule lock_inv_move [OF inv, of s' r Handling]) (use present alone in \<open>auto simp: step_simps\<close>)
next
  case (refuse r)
  then have "guarded (pcs s r)" by simp
  note alone = guarded_alone [OF inv this]
  show ?thesis by (rule lock_inv_move [OF inv, of s' r Refused]) (use refuse alone in \<open>auto simp: step_simps\<close>)
next
  case (stale r)
  then have "guarded (pcs s r)" by simp
  note alone = guarded_alone [OF inv this] stale_not_held [OF inv tm pt stale(2,3)]
  show ?thesis
    by (rule lock_inv_move [OF inv, of s' r "Rechecking (read_lock_metadata (disk s))"])
      (use stale alone in \<open>auto simp: step_simps\<close>)
next
  case (changed r)
  then have "guarded (pcs s r)" by simp
  note alone = guarded_alone [OF inv this]
  show ?thesis by (rule lock_inv_move [OF inv, of s' r Refused]) (use changed alone in \<open>auto simp: step_simps\<close>)
next
  case (confirmed r)
  then have "guarded (pcs s r)" "in_check (pcs s r)" by simp_all
  note alone = guarded_alone [OF inv this(1)] check_alone [OF inv this(2)]
  show ?thesis by (rule lock_inv_move [OF inv, of s' r Unlinking]) (use confirmed alone in \<open>auto simp: step_simps\<close>)
next
  case (unlink r)
  then have "guarded (pcs s r)" "in_check (pcs s r)" by simp_all
  note alone = guarded_alone [OF inv this(1)] check_alone [OF inv this(2)]
  show ?thesis by (rule lock_inv_move [OF inv, of s' r Reopening]) (use unlink alone in \<open>auto simp: step_simps\<close>)
next
  case (recreate r)
  then have "guarded (pcs s r)" by simp
  note alone = guarded_alone [OF inv this] unlocked_alone [OF inv recreate(3), of r]
  show ?thesis by (rule lock_inv_move [OF inv, of s' r Writing]) (use recreate alone in \<open>auto simp: step_simps\<close>)
next
  case (lost r)
  then have "guarded (pcs s r)" by simp
  note alone = guarded_alone [OF inv this]
  show ?thesis by (rule lock_inv_move [OF inv, of s' r Refused]) (use lost alone in \<open>auto simp: step_simps\<close>)
next
  case (written r d)
  then have "guarded (pcs s r)" "holding (pcs s r)" by simp_all
  note alone = guarded_alone [OF inv this(1)] held_alone [OF inv this(2)] lock_invD(2) [OF inv written(2)]
  show ?thesis by (rule lock_inv_move [OF inv, of s' r Running]) (use written alone in \<open>auto simp: step_simps\<close>)
next
  case (write_failed r)
  then have "guarded (pcs s r)" "holding (pcs s r)" by simp_all
  note alone = guarded_alone [OF inv this(1)] held_alone [OF inv this(2)]
  show ?thesis by (rule lock_inv_move [OF inv, of s' r Refused]) (use write_failed alone in \<open>auto simp: step_simps\<close>)
next
  case (read_own r)
  then have h: "holding (pcs s r)" by simp
  have "\<forall>q. q \<noteq> r \<longrightarrow> \<not> in_check (pcs s q)" using check_alone [OF inv] h by metis
  then show ?thesis
    by (intro lock_inv_move [OF inv, of s' r Releasing])
      (use read_own lock_invD(1,3) [OF inv, of r] in \<open>auto simp: step_simps\<close>)
next
  case (read_other r)
  show ?thesis
    by (rule lock_inv_move [OF inv, of s' r Finished])
      (use read_other lock_invD(1) [OF inv, of r] in \<open>auto simp: step_simps\<close>)
next
  case (unlink_own r)
  then have "holding (pcs s r)" by simp
  note alone = held_alone [OF inv this]
  show ?thesis
    by (rule lock_inv_move [OF inv, of s' r Finished])
      (use unlink_own alone lock_invD(1) [OF inv, of r] in \<open>auto simp: step_simps\<close>)
next
  case (crash r)
  show ?thesis
    by (rule lock_inv_move [OF inv, of s' r Crashed])
      (use crash lock_invD(1) [OF inv, of r] in \<open>auto simp: step_simps\<close>)
next
  case (tick t)
  then show ?thesis using inv by (simp add: lock_inv_def)
qed

end
