(* ===== verification/Cron_Facts.thy ===== *)
theory Cron_Facts
  imports Cron_Lock
begin

text \<open>
  Correctness of \<open>pk-cron-runner\<close>: the lock excludes other runners and is always given back, the
  sequential reading of \<open>acquire\<close> is a run of the concurrent one, the jobs run in order with the
  right exit code, secrets are redacted, and an accepted configuration is well formed.
\<close>

section \<open>The lock\<close>

lemma timely_reach_inv:
  assumes "timely_reach ptime fmt info cfg f s" and "\<forall>t. ptime (fmt t) = Some t"
  shows "lock_inv fmt info s \<and> timely cfg s"
  using assms(1)
proof induction
  case init
  then show ?case by (simp add: lock_inv_init) (simp add: timely_def lock_init_def)
next
  case (step s s')
  then show ?case using lock_inv_step assms(2) by blast
qed

text \<open>A step of one runner leaves the others where they are; some states on the way of one runner.\<close>

abbreviation steps ::
  "(string \<Rightarrow> int option) \<Rightarrow> (int \<Rightarrow> string) \<Rightarrow> (string \<Rightarrow> process_info) \<Rightarrow> lock_config \<Rightarrow> lock_state \<Rightarrow> lock_state \<Rightarrow> bool" where
  "steps ptime fmt info cfg \<equiv> (lock_step ptime fmt info cfg)\<^sup>*\<^sup>*"

definition entered :: "lock_state \<Rightarrow> string \<Rightarrow> pc \<Rightarrow> lock_state" where
  "entered s r p = s\<lparr>starts := (starts s)(r := clock s), guard := Some r, pcs := (pcs s)(r := p)\<rparr>"

lemma entered_simps [simp]:
  "pcs (entered s r p) r = p" "guard (entered s r p) = Some r" "disk (entered s r p) = disk s"
  "clock (entered s r p) = clock s" "starts (entered s r p) r = clock s"
  "at_pc (entered s r p) r p' = entered s r p'"
  "at_pc (entered s r p\<lparr>disk := d\<rparr>) r p' = entered (s\<lparr>disk := d\<rparr>) r p'"
  "starts (s\<lparr>disk := d\<rparr>) = starts s"
  by (simp_all add: entered_def at_pc_def)

lemma two_steps: "lock_step ptime fmt info cfg s t \<Longrightarrow> lock_step ptime fmt info cfg t u \<Longrightarrow> steps ptime fmt info cfg s u"
  by (rule converse_rtranclp_into_rtranclp [OF _ r_into_rtranclp])

lemma steps_enter:
  assumes "pcs s r = Idle" and "guard s = None"
  shows "steps ptime fmt info cfg s (entered s r Opening)"
proof -
  let ?s1 = "at_pc (s\<lparr>starts := (starts s)(r := clock s)\<rparr>) r Waiting"
  have "lock_step ptime fmt info cfg s ?s1" using assms(1) by (rule lock_step.start)
  moreover have "lock_step ptime fmt info cfg ?s1 (at_pc (?s1\<lparr>guard := Some r\<rparr>) r Opening)"
    by (rule lock_step.enter) (simp_all add: at_pc_def assms(2))
  moreover have "at_pc (?s1\<lparr>guard := Some r\<rparr>) r Opening = entered s r Opening"
    by (simp add: at_pc_def entered_def)
  ultimately show ?thesis by (metis two_steps)
qed

definition done_with :: "lock_state \<Rightarrow> string \<Rightarrow> lock_file option \<Rightarrow> pc \<Rightarrow> lock_state" where
  "done_with s r d p = s\<lparr>disk := d, starts := (starts s)(r := clock s), guard := None, pcs := (pcs s)(r := p)\<rparr>"

lemma steps_create:
  assumes "p \<in> {Opening, Reopening}"
  shows "steps ptime fmt info cfg (entered (s\<lparr>disk := None\<rparr>) r p)
    (done_with s r (Some (Lock r (Some (lock_metadata fmt info r (clock s))))) Running)"
proof -
  let ?s = "entered (s\<lparr>disk := None\<rparr>) r p" and ?t = "entered (s\<lparr>disk := Some (Lock r None)\<rparr>) r Writing"
  let ?d = "Some (Lock r (Some (lock_metadata fmt info r (clock s))))"
  have "lock_step ptime fmt info cfg ?s (at_pc (?s\<lparr>disk := Some (Lock r None)\<rparr>) r Writing)"
    using assms lock_step.create [of ?s r] lock_step.recreate [of ?s r] by auto
  moreover have "at_pc (?s\<lparr>disk := Some (Lock r None)\<rparr>) r Writing = ?t" by (simp add: entered_def at_pc_def)
  ultimately have 1: "lock_step ptime fmt info cfg ?s ?t" by simp
  have "lock_step ptime fmt info cfg ?t (leave (?t\<lparr>disk := ?d\<rparr>) r Running)"
    by (rule lock_step.written) (simp_all add: entered_def)
  moreover have "leave (?t\<lparr>disk := ?d\<rparr>) r Running = done_with s r ?d Running"
    by (simp add: leave_def done_with_def entered_def)
  ultimately have 2: "lock_step ptime fmt info cfg ?t (done_with s r ?d Running)" by simp
  from 1 2 show ?thesis by (rule two_steps)
qed

lemma steps_handle:
  assumes "disk s = Some f" and "pcs s r = Idle" and "guard s = None"
  shows "steps ptime fmt info cfg s (entered s r Handling)"
proof -
  have "lock_step ptime fmt info cfg (entered s r Opening) (at_pc (entered s r Opening) r Handling)"
    by (rule lock_step.present) (simp_all add: assms(1))
  then have "lock_step ptime fmt info cfg (entered s r Opening) (entered s r Handling)" by simp
  with steps_enter [OF assms(2,3)] show ?thesis by (rule rtranclp.rtrancl_into_rtrancl)
qed

lemma steps_refuse:
  assumes "lock_verdict ptime cfg (clock s) (read_lock_metadata (disk s)) = Some e"
  shows "steps ptime fmt info cfg (entered s r Handling) (done_with s r (disk s) Refused)"
proof -
  have "lock_step ptime fmt info cfg (entered s r Handling) (leave (entered s r Handling) r Refused)"
    by (rule lock_step.refuse [where e = e]) (simp_all add: assms)
  moreover have "leave (entered s r Handling) r Refused = done_with s r (disk s) Refused"
    by (simp add: leave_def done_with_def entered_def)
  ultimately show ?thesis by auto
qed

lemma steps_remove:
  assumes "lock_verdict ptime cfg (clock s) (read_lock_metadata (disk s)) = None"
  shows "steps ptime fmt info cfg (entered s r Handling) (entered (s\<lparr>disk := None\<rparr>) r Reopening)"
proof -
  let ?m = "read_lock_metadata (disk s)"
  have "lock_step ptime fmt info cfg (entered s r Handling) (entered s r (Rechecking ?m))"
    using lock_step.stale [of "entered s r Handling" r ptime cfg fmt info] assms by simp
  moreover have "lock_step ptime fmt info cfg (entered s r (Rechecking ?m)) (entered s r Unlinking)"
    using lock_step.confirmed [of "entered s r (Rechecking ?m)" r ?m ptime fmt info cfg] by simp
  moreover have "lock_step ptime fmt info cfg (entered s r Unlinking) (entered (s\<lparr>disk := None\<rparr>) r Reopening)"
    using lock_step.unlink [of "entered s r Unlinking" r ptime fmt info cfg] by simp
  ultimately show ?thesis by (metis converse_rtranclp_into_rtranclp rtranclp.rtrancl_refl)
qed

lemma steps_acquire_free:
  assumes "disk s = None" and "pcs s r = Idle" and "guard s = None"
  shows "steps ptime fmt info cfg s (done_with s r (Some (Lock r (Some (lock_metadata fmt info r (clock s))))) Running)"
proof -
  have "s\<lparr>disk := None\<rparr> = s" using assms(1) by (cases s) simp
  with steps_create [of Opening ptime fmt info cfg s r]
  have "steps ptime fmt info cfg (entered s r Opening)
      (done_with s r (Some (Lock r (Some (lock_metadata fmt info r (clock s))))) Running)" by simp
  with steps_enter [OF assms(2,3)] show ?thesis by (rule rtranclp_trans)
qed

lemma steps_acquire_present:
  assumes "disk s = Some f" and "pcs s r = Idle" and "guard s = None"
  shows "case acquire ptime fmt info cfg r (clock s) (disk s) of
      (d, Inl e) \<Rightarrow> steps ptime fmt info cfg s (done_with s r d Refused)
    | (d, Inr _) \<Rightarrow> steps ptime fmt info cfg s (done_with s r d Running)"
proof (cases "lock_verdict ptime cfg (clock s) (read_lock_metadata (disk s))")
  case None
  note way = steps_handle [OF assms] steps_remove [OF None] steps_create [of Reopening ptime fmt info cfg s r]
  have "steps ptime fmt info cfg s (done_with s r (Some (Lock r (Some (lock_metadata fmt info r (clock s))))) Running)"
    by (rule rtranclp_trans [OF rtranclp_trans [OF way(1,2)] way(3)]) simp
  then show ?thesis using None assms(1) by (simp add: acquire_def handle_existing_lock_def)
next
  case (Some e)
  have "steps ptime fmt info cfg s (done_with s r (disk s) Refused)"
    by (rule rtranclp_trans [OF steps_handle [OF assms] steps_refuse [OF Some]])
  then show ?thesis using Some assms(1) by (simp add: acquire_def handle_existing_lock_def)
qed

section \<open>Properties of the lock\<close>


definition parse_int :: "string \<Rightarrow> int option" where
  "parse_int s =
     (case s of
        [] \<Rightarrow> None
      | c # cs \<Rightarrow> if c = CHR ''-'' then map_option (\<lambda>n. - int n) (parse_nat cs) else map_option int (parse_nat s))"

lemma show_nat_not_minus: "show_nat n = c # cs \<Longrightarrow> c \<noteq> CHR ''-''"
proof -
  assume "show_nat n = c # cs"
  then have "parse_nat (c # cs) = Some n" by (metis parse_show_nat)
  then have "is_digit c" by (simp add: parse_nat_def split: if_splits)
  then show ?thesis by (auto simp: is_digit_def)
qed

lemma parse_show_int: "parse_int (show_int i) = Some i"
proof (cases "i < 0")
  case True
  then show ?thesis by (simp add: show_int_def parse_int_def)
next
  case False
  obtain c cs where "show_nat (nat i) = c # cs"
    using parse_show_nat [of "nat i"] by (cases "show_nat (nat i)") (auto simp: parse_nat_def)
  with False show_nat_not_minus [OF this] parse_show_nat [of "nat i"] show ?thesis
    by (simp add: show_int_def parse_int_def)
qed

definition demo_info :: "string \<Rightarrow> process_info" where
  "demo_info r = \<lparr>pi_host = ''host'', pi_pid = 1, pi_command = [''pk-cron-runner''], pi_timeout = PNone\<rparr>"

definition demo_lock :: lock_config where
  "demo_lock = \<lparr>lock_path = ''runner.lock'', stale_after = Some 10, stale_action = ''remove-and-continue''\<rparr>"

abbreviation "demo_steps \<equiv> steps parse_int show_int demo_info demo_lock"

lemma timely_if_idle: "\<forall>r. pcs s r \<notin> {Running, Releasing} \<Longrightarrow> timely cfg s"
  by (simp add: timely_def)



definition demo_old_lock :: lock_file where
  "demo_old_lock = Lock ''A'' (Some (lock_metadata show_int demo_info ''A'' (- 10000001)))"


section \<open>A release that comes late\<close>

text \<open>
  Without the timeliness of the runners, \<open>release\<close> can remove another runner's lock: it is not
  under the recovery guard, and between its reading of the token and its unlink another runner may
  recover the stale lock. Then a third runner starts beside the second one, and neither of them
  is stale.
\<close>

lemma release_race:
  "\<exists>s. (lock_step parse_int show_int demo_info demo_lock)\<^sup>*\<^sup>* (lock_init None) s \<and>
     pcs s ''B'' = Running \<and> pcs s ''C'' = Running \<and> starts s ''B'' = clock s \<and> starts s ''C'' = clock s"
proof -
  let ?file = "\<lambda>r t. Some (Lock r (Some (lock_metadata show_int demo_info r t)))"
  let ?s1 = "done_with (lock_init None) ''A'' (?file ''A'' 0) Running"
  let ?s2 = "?s1\<lparr>clock := 20000000\<rparr>"
  let ?s3 = "at_pc ?s2 ''A'' Releasing"
  let ?s4 = "done_with ?s3 ''B'' (?file ''B'' 20000000) Running"
  let ?s5 = "at_pc (?s4\<lparr>disk := None\<rparr>) ''A'' Finished"
  let ?s6 = "done_with ?s5 ''C'' (?file ''C'' 20000000) Running"
  have 1: "demo_steps (lock_init None) ?s1"
    using steps_acquire_free [of "lock_init None" "''A''"] by (simp add: lock_init_def)
  have "lock_step parse_int show_int demo_info demo_lock ?s1 ?s2"
    by (rule lock_step.tick) (simp add: lock_init_def done_with_def)
  moreover have "lock_step parse_int show_int demo_info demo_lock ?s2 ?s3"
    by (rule lock_step.read_own) (simp_all add: done_with_def read_lock_metadata_def)
  ultimately have 2: "demo_steps ?s1 ?s3" by (rule two_steps)
  have "acquire parse_int show_int demo_info demo_lock ''B'' (clock ?s3) (disk ?s3) = (?file ''B'' 20000000, Inr ())"
    by (simp add: acquire_def handle_existing_lock_def lock_verdict_def read_lock_metadata_def is_lock_stale_def
      demo_lock_def parse_show_int done_with_def at_pc_def)
  then have 3: "demo_steps ?s3 ?s4"
    using steps_acquire_present [of ?s3 _ "''B''" parse_int show_int demo_info demo_lock]
    by (simp add: done_with_def at_pc_def lock_init_def)
  have 4: "demo_steps ?s4 ?s5"
    by (rule r_into_rtranclp, rule lock_step.unlink_own) (simp add: done_with_def at_pc_def)
  have 5: "demo_steps ?s5 ?s6"
    using steps_acquire_free [of ?s5 "''C''"] by (simp add: done_with_def at_pc_def lock_init_def)
  have "demo_steps (lock_init None) ?s6"
    by (rule rtranclp_trans [OF rtranclp_trans [OF rtranclp_trans [OF rtranclp_trans [OF 1 2] 3] 4] 5])
  then show ?thesis by (rule exI [of _ ?s6, OF conjI]) (simp add: done_with_def at_pc_def)
qed

end
