(* ===== verification/Cron_Run_Facts.thy ===== *)
theory Cron_Run_Facts
  imports Cron_Lock
begin

text \<open>
  What a run of \<open>pk-cron-runner\<close> does. The selected jobs run in order up to the first failure that
  stops them, the exit code tells how they ended, an accepted configuration is well formed, and the
  whole command holds the lock exactly while it runs jobs: the contract of the lock is the
  locale \<open>held_lock\<close>, which the lock of theory \<open>Cron_Lock\<close> fulfils.
\<close>

section \<open>The whole command\<close>

text \<open>
  The world of a command is the lock file and the rest. Jobs and log messages act on the rest,
  the lock on the file; \<open>r\<close> is the token of the process and \<open>now\<close> the time it starts.
\<close>

definition on_lock :: "(lock_file option, 'a) action \<Rightarrow> (lock_file option \<times> 'w, 'a) action" where
  "on_lock act x = (case act (fst x) of (f, out) \<Rightarrow> ((f, snd x), out))"

definition on_jobs ::
  "(job_config \<Rightarrow> 'w \<Rightarrow> 'w \<times> proc_outcome) \<Rightarrow> job_config \<Rightarrow> lock_file option \<times> 'w \<Rightarrow> (lock_file option \<times> 'w) \<times> proc_outcome" where
  "on_jobs proc job x = (case proc job (snd x) of (w, oc) \<Rightarrow> ((fst x, w), oc))"

definition cron_main ::
  "(string \<Rightarrow> int option) \<Rightarrow> (int \<Rightarrow> string) \<Rightarrow> (string \<Rightarrow> process_info) \<Rightarrow> string \<Rightarrow> int \<Rightarrow>
   (job_config \<Rightarrow> 'w \<Rightarrow> 'w \<times> proc_outcome) \<Rightarrow> (bool \<times> string \<Rightarrow> 'w \<Rightarrow> 'w) \<Rightarrow> (string \<Rightarrow> string) \<Rightarrow>
   runner_config res \<Rightarrow> cli_args \<Rightarrow> (lock_file option \<times> 'w, int) action" where
  "cron_main ptime fmt info r now proc emit scrub loaded args =
     runner_main (on_jobs proc) (\<lambda>cfg. on_lock (acquire ptime fmt info cfg r now)) (apfst (release r))
       (\<lambda>msg. apsnd (emit msg)) scrub loaded args"

section \<open>The contract of the lock\<close>

locale held_lock =
  fixes lock_it :: "('w, unit) action" and unlock :: "'w \<Rightarrow> 'w" and held free :: "'w \<Rightarrow> bool" and rest :: "'w \<Rightarrow> 'o"
  assumes acquired: "lock_it w = (w', Inr u) \<Longrightarrow> held w' \<and> rest w' = rest w"
    and refused: "lock_it w = (w', Inl e) \<Longrightarrow> w' = w \<and> (\<exists>m. e = LockUnavailable m)"
    and released: "held w \<Longrightarrow> free (unlock w) \<and> rest (unlock w) = rest w"
begin

text \<open>
  A body that does not touch the lock either does not run at all, and nothing has changed, or runs
  once while the lock is held; then the lock is free, whatever the body returned.
\<close>

lemma with_lock_outcome:
  assumes run: "with_lock lock_it unlock body w = (w', out)" and keeps: "\<And>x. held x \<Longrightarrow> held (fst (body x))"
  obtains (refuse) m where "w' = w" and "out = Inl (LockUnavailable m)"
  | (ran) w1 w2 where "held w1" and "rest w1 = rest w" and "body w1 = (w2, out)" and "free w'" and "rest w' = rest w2"
proof (cases "lock_it w")
  case (Pair w1 a)
  show thesis
  proof (cases a)
    case (Inl e)
    then show thesis using run Pair refused [of w w1 e] refuse by (auto simp: with_lock_def)
  next
    case (Inr u)
    obtain w2 b where b: "body w1 = (w2, b)" by fastforce
    have "held w1" "rest w1 = rest w" using acquired [of w w1 u] Pair Inr by auto
    moreover from keeps [OF this(1)] b have "held w2" by simp
    ultimately show thesis using run Pair Inr b released [of w2] ran [of w1 w2] by (auto simp: with_lock_def)
  qed
qed

end

lemma acquire_Inr:
  "acquire ptime fmt info cfg r now f = (f', Inr u) \<Longrightarrow> f' = Some (Lock r (Some (lock_metadata fmt info r now)))"
  by (auto simp: acquire_def Let_def split: if_splits prod.splits sum.splits)

lemma acquire_Inl:
  "acquire ptime fmt info cfg r now f = (f', Inl e) \<Longrightarrow> f' = f \<and> (\<exists>m. e = LockUnavailable m)"
  by (auto simp: acquire_def handle_existing_lock_def lock_verdict_def Let_def split: if_splits prod.splits sum.splits option.splits)

lemma release_own: "release r (Some (Lock r (Some (lock_metadata fmt info r now)))) = None"
  by (simp add: release_def read_lock_metadata_def)

interpretation cron_lock: held_lock
  "on_lock (acquire ptime fmt info cfg r now)" "apfst (release r)"
  "\<lambda>x. fst x = Some (Lock r (Some (lock_metadata fmt info r now)))" "\<lambda>x. fst x = None" snd
  for ptime fmt info cfg r now
  by unfold_locales
    (auto simp: on_lock_def release_own split: prod.splits dest: acquire_Inr acquire_Inl)

section \<open>Running jobs\<close>

lemma run_loop_Cons:
  "run_loop proc stop (job # jobs) w =
     (let (w1, r) = run_job proc job w
      in if \<not> job_ok r \<and> stop then (w1, [r])
         else (let (w2, rs) = run_loop proc stop jobs w1 in (w2, r # rs)))"
  by (simp add: Let_def split: prod.splits)

lemma run_job_name: "run_job proc job w = (w', r) \<Longrightarrow> jr_name r = jc_name job"
  by (auto simp: run_job_def result_of_def split: prod.splits proc_outcome.splits)

lemma run_loop_names: "map jr_name (snd (run_loop proc False jobs w)) = map jc_name jobs"
proof (induction jobs arbitrary: w)
  case (Cons job jobs)
  obtain w1 r where r: "run_job proc job w = (w1, r)" by fastforce
  then show ?case using Cons.IH [of w1] run_job_name [OF r] by (auto split: prod.splits)
qed simp

text \<open>The loop that stops is the loop that does not, on a prefix of the jobs.\<close>

lemma run_loop_prefix:
  assumes "run_loop proc stop jobs w = (w', results)"
  shows "run_loop proc False (take (length results) jobs) w = (w', results) \<and> length results \<le> length jobs \<and>
    (length results < length jobs \<longrightarrow> stop \<and> results \<noteq> [] \<and> \<not> job_ok (last results)) \<and>
    (stop \<longrightarrow> (\<forall>r\<in>set (butlast results). job_ok r))"
  using assms
proof (induction jobs arbitrary: w w' results)
  case (Cons job jobs)
  obtain w1 r where r: "run_job proc job w = (w1, r)" by fastforce
  show ?case
  proof (cases "\<not> job_ok r \<and> stop")
    case True
    with Cons.prems r show ?thesis by auto
  next
    case False
    obtain w2 rs where rs: "run_loop proc stop jobs w1 = (w2, rs)" by fastforce
    with Cons.prems r False have "results = r # rs" "w' = w2" by auto
    with Cons.IH [OF rs] r False show ?thesis by auto
  qed
qed simp

lemma results_exit_code_iff:
  "results_exit_code results = EXIT_SUCCESS \<longleftrightarrow> (\<forall>r\<in>set results. job_ok r)"
  "results_exit_code results = EXIT_TIMEOUT \<longleftrightarrow> (\<exists>r\<in>set results. jr_timed_out r)"
  "results_exit_code results \<in> {EXIT_SUCCESS, EXIT_JOB_FAILED, EXIT_TIMEOUT}"
  by (auto simp: results_exit_code_def list_ex_iff EXIT_SUCCESS_def EXIT_JOB_FAILED_def EXIT_TIMEOUT_def job_ok_def)

lemma run_jobs_Inr:
  assumes "run_jobs proc config selected incl w = (w', Inr (code, results))"
  obtains jobs where "select_jobs (rn_jobs config) selected incl = Inr jobs" and "jobs \<noteq> []"
    and "run_loop proc (stop_on_first_failure config) jobs w = (w', results)" and "code = results_exit_code results"
  using assms by (auto simp: run_jobs_def split: sum.splits if_splits prod.splits)


definition demo_job :: "string \<Rightarrow> job_config" where
  "demo_job name = \<lparr>jc_name = name, jc_command = [name], jc_enabled = True, jc_cwd = None, jc_env = [], jc_timeout = None\<rparr>"

definition demo_runner :: runner_config where
  "demo_runner = \<lparr>rn_lock = \<lparr>lock_path = ''runner.lock'', stale_after = None, stale_action = ''fail-closed''\<rparr>,
     rn_jobs = [demo_job ''a'', demo_job ''b'', demo_job ''c''], stop_on_first_failure = True,
     notify_success = False, rn_context = None, include_output_in_slack = False\<rparr>"

text \<open>The world is the log of the commands run; command \<open>b\<close> fails.\<close>

definition demo_proc :: "job_config \<Rightarrow> string list \<Rightarrow> string list \<times> proc_outcome" where
  "demo_proc job w = (w @ [jc_name job], Exited (if jc_name job = ''b'' then 7 else 0) [] [])"

lemma demo_run:
  "run_jobs demo_proc demo_runner [] False [] =
     ([''a'', ''b''], Inr (1, [\<lparr>jr_name = ''a'', jr_returncode = 0, jr_stdout = [], jr_stderr = [], jr_timed_out = False\<rparr>,
        \<lparr>jr_name = ''b'', jr_returncode = 7, jr_stdout = [], jr_stderr = [], jr_timed_out = False\<rparr>]))"
  by (simp add: run_jobs_def select_jobs_def demo_runner_def demo_job_def run_job_def demo_proc_def result_of_def
    read_captured_output_def job_ok_def results_exit_code_def EXIT_JOB_FAILED_def)


section \<open>Configuration\<close>

text \<open>Reading a configuration fails with a configuration error or not at all.\<close>

definition config_errors :: "'a res \<Rightarrow> bool" where
  "config_errors r \<longleftrightarrow> (\<forall>e. r = Inl e \<longrightarrow> exit_code_of e = Some EXIT_CONFIG_ERROR)"

named_theorems config_intro \<open>computations that fail with configuration errors only\<close>

lemma config_errors_bind [config_intro]:
  "config_errors m \<Longrightarrow> (\<And>x. config_errors (k x)) \<Longrightarrow> config_errors (bind_res m k)"
  by (auto simp: config_errors_def bind_res_eq_Inl)

lemma config_errors_Inr [config_intro, simp]: "config_errors (Inr x)"
  by (simp add: config_errors_def)

lemma config_errors_Inl [config_intro, simp]: "config_errors (Inl (ConfigError m ss is))"
  by (simp add: config_errors_def exit_code_of_def)

lemma config_errors_if [config_intro]: "config_errors m \<Longrightarrow> config_errors n \<Longrightarrow> config_errors (if b then m else n)"
  by simp

lemma config_errors_map_res [config_intro]: "(\<And>x. config_errors (f x)) \<Longrightarrow> config_errors (map_res f xs)"
  by (induction xs) (auto intro!: config_intro)

lemma config_errors_readers [config_intro]:
  "config_errors (as_mapping v name)" "config_errors (as_list v name)" "config_errors (reject_unknown_keys d ks name)"
  "config_errors (parse_duration v)" "config_errors (read_path expand v name)" "config_errors (read_string_list v name)"
  "config_errors (bool_value v name b)" "config_errors (optional_string v name)" "config_errors (choice v name cs c)"
  "config_errors (validate_unique_job_names jobs)"
  by (simp_all add: as_mapping_def as_list_def reject_unknown_keys_def parse_duration_def read_path_def
    read_string_list_def bool_value_def optional_string_def choice_def validate_unique_job_names_def Let_def
    split: pyval.split prod.split option.split)

lemma config_errors_section [config_intro]: "config_errors (section_of d name ks)"
  unfolding section_of_def by (intro config_intro)

lemma config_errors_parse_job [config_intro]: "config_errors (parse_job expand in_dir raw)"
  unfolding parse_job_def by (cases raw) (auto intro!: config_intro split: pyval.split)

lemma config_errors_parse_runner: "config_errors (parse_runner_config expand in_dir path data)"
  unfolding parse_runner_config_def by (intro config_intro)

lemma config_errors_overrides: "config_errors (apply_cli_overrides config args)"
  unfolding apply_cli_overrides_def by (intro config_intro)

text \<open>The values the readers accept.\<close>

lemma parse_duration_Inr:
  "parse_duration v = Inr (Some q) \<Longrightarrow> 0 \<le> q"
  by (auto simp: parse_duration_def split: pyval.splits if_splits option.splits prod.splits)

lemma choice_Inr: "choice v key cs d = Inr c \<Longrightarrow> d \<in> set cs \<Longrightarrow> c \<in> set cs"
  by (auto simp: choice_def split: pyval.splits if_splits)

lemma read_string_list_Inr: "read_string_list v key = Inr ss \<Longrightarrow> ss \<noteq> []"
  by (auto simp: read_string_list_def split: pyval.splits if_splits)

lemma duplicate_names_iff: "duplicate_names ns seen = {} \<longleftrightarrow> distinct ns \<and> set ns \<inter> seen = {}"
  by (induction ns arbitrary: seen) auto

lemma finite_duplicate_names [simp]: "finite (duplicate_names ns seen)"
  by (induction ns arbitrary: seen) auto

lemma validate_unique_Inr: "validate_unique_job_names jobs = Inr u \<longleftrightarrow> distinct (map jc_name jobs)"
  by (simp add: validate_unique_job_names_def duplicate_names_iff Let_def)

definition job_wf :: "job_config \<Rightarrow> bool" where
  "job_wf job \<longleftrightarrow> jc_name job \<noteq> [] \<and> jc_command job \<noteq> [] \<and> (\<forall>t. jc_timeout job = Some t \<longrightarrow> 0 \<le> t)"

lemma parse_job_wf:
  assumes "parse_job expand in_dir raw = Inr job"
  shows "job_wf job"
proof -
  obtain d where raw: "raw = PDict d" using assms by (cases raw) (simp_all add: parse_job_def)
  obtain name command timeout
    where name: "(case dget_none d ''name'' of
        PStr n \<Rightarrow> if n = [] then Inl (ConfigError ''job.name must be a non-empty string'' [] []) else Inr n
      | _ \<Rightarrow> Inl (ConfigError ''job.name must be a non-empty string'' [] [])) = Inr name"
      and command: "read_string_list (dget_none d ''command'') (''job '' @ name @ ''.command'') = Inr command"
      and timeout: "parse_duration (dget_none d ''timeout'') = Inr timeout"
      and job: "jc_name job = name" "jc_command job = command" "jc_timeout job = timeout"
    using assms unfolding raw parse_job_def pyval.case by (elim bind_resE) (rule that, assumption+, auto)
  have "name \<noteq> []" using name by (cases "dget_none d ''name''") (auto split: if_splits)
  then show ?thesis
    using job read_string_list_Inr [OF command] parse_duration_Inr timeout by (auto simp: job_wf_def)
qed

lemma positive_duration_Some: "positive_duration d = Some q \<longleftrightarrow> d = Some q \<and> q \<noteq> 0"
  by (auto simp: positive_duration_def)

text \<open>
  An accepted runner configuration is well formed. Job names are distinct and non-empty, every
  job has a command and no negative timeout, the age at which a lock is stale is positive, and the
  stale action is one of the three documented ones. A configuration that is not accepted is
  rejected with a configuration error, for which the command exits with 2.
\<close>

theorem parse_runner_config_ok:
  "case parse_runner_config expand in_dir path data of
     Inl e \<Rightarrow> exit_code_of e = Some EXIT_CONFIG_ERROR
   | Inr config \<Rightarrow>
       distinct (map jc_name (rn_jobs config)) \<and> list_all job_wf (rn_jobs config) \<and>
       stale_action (rn_lock config) \<in> {''exit-and-alert'', ''remove-and-continue'', ''fail-closed''} \<and>
       (case stale_after (rn_lock config) of None \<Rightarrow> True | Some a \<Rightarrow> 0 < a)"
proof (cases "parse_runner_config expand in_dir path data")
  case (Inl e)
  then show ?thesis using config_errors_parse_runner by (auto simp: config_errors_def)
next
  case (Inr config)
  then obtain after act ld jobs_raw
    where act: "choice (dget_none ld ''stale_action'') ''lock.stale_action'' STALE_ACTIONS ''exit-and-alert'' = Inr (stale_action (rn_lock config))"
      and after: "parse_duration (dget_none ld ''stale_after'') = Inr after" "stale_after (rn_lock config) = positive_duration after"
      and jobs: "map_res (parse_job expand in_dir) jobs_raw = Inr (rn_jobs config)" "validate_unique_job_names (rn_jobs config) = Inr ()"
    unfolding parse_runner_config_def by (elim bind_resE) (rule that, auto)
  have "list_all job_wf (rn_jobs config)"
    using map_res_Inr_set [OF jobs(1)] parse_job_wf by (fastforce simp: list_all_iff)
  moreover have "stale_action (rn_lock config) \<in> set STALE_ACTIONS"
    using choice_Inr [OF act] by (simp add: STALE_ACTIONS_def)
  moreover have "case stale_after (rn_lock config) of None \<Rightarrow> True | Some a \<Rightarrow> 0 < a"
    using after parse_duration_Inr [of "dget_none ld ''stale_after''"]
    by (auto simp: positive_duration_Some order_less_le split: option.split)
  ultimately show ?thesis using Inr jobs(2) by (simp add: STALE_ACTIONS_def validate_unique_Inr)
qed

section \<open>The command and its lock\<close>

lemma run_loop_on_jobs:
  "run_loop (on_jobs proc) stop jobs (f, w) = apfst (Pair f) (run_loop proc stop jobs w)"
proof (induction jobs arbitrary: w)
  case (Cons job jobs)
  obtain w1 oc where p: "proc job w = (w1, oc)" by fastforce
  obtain w2 rs where l: "run_loop proc stop jobs w1 = (w2, rs)" by fastforce
  have "run_job (on_jobs proc) job (f, w) = ((f, w1), result_of job oc)" "run_job proc job w = (w1, result_of job oc)"
    using p by (simp_all add: run_job_def on_jobs_def)
  then show ?case using Cons.IH [of w1] l by auto
qed simp

lemma run_jobs_on_jobs:
  "run_jobs (on_jobs proc) config sel incl (f, w) = apfst (Pair f) (run_jobs proc config sel incl w)"
  by (simp add: run_jobs_def run_loop_on_jobs split: sum.split prod.split)

lemma run_jobs_cases:
  assumes "run_jobs proc config sel incl w = (w', out)"
  obtains (rejected) e where "out = Inl e" and "exit_code_of e = Some EXIT_CONFIG_ERROR" and "w' = w"
  | (ran) code results where "out = Inr (code, results)" and "code \<in> {EXIT_SUCCESS, EXIT_JOB_FAILED, EXIT_TIMEOUT}"
proof (cases "select_jobs (rn_jobs config) sel incl")
  case (Inl e)
  then have "exit_code_of e = Some EXIT_CONFIG_ERROR"
    by (auto simp: select_jobs_def exit_code_of_def Let_def split: if_splits)
  then show thesis using assms Inl rejected [of e] by (simp add: run_jobs_def)
next
  case (Inr jobs)
  then show thesis using assms rejected ran results_exit_code_iff(3)
    by (auto simp: run_jobs_def exit_code_of_def split: if_splits prod.splits)
qed

text \<open>The effective configuration, after the command line.\<close>

definition effective_config :: "runner_config \<Rightarrow> cli_args \<Rightarrow> runner_config res" where
  "effective_config config args =
     bind_res (apply_cli_overrides config args) (\<lambda>c.
       Inr (if arg_continue_on_failure args then c\<lparr>stop_on_first_failure := False\<rparr> else c))"

lemma cron_main_eq:
  assumes "bind_res loaded (\<lambda>c. effective_config c args) = Inr config"
  shows "cron_main ptime fmt info r now proc emit scrub loaded args x =
    (case with_lock (on_lock (acquire ptime fmt info (rn_lock config) r now)) (apfst (release r))
        (run_jobs (on_jobs proc) config (arg_jobs args) (arg_include_disabled args)) x of
       (x', Inl e) \<Rightarrow> (x', (case exit_code_of e of None \<Rightarrow> Inl e | Some code \<Rightarrow> Inr code))
     | (x', Inr (code, results)) \<Rightarrow> (apsnd (emit (log_summary scrub config code results)) x', Inr code))"
proof -
  obtain c0 c where "loaded = Inr c0" "apply_cli_overrides c0 args = Inr c"
    and c: "config = (if arg_continue_on_failure args then c\<lparr>stop_on_first_failure := False\<rparr> else c)"
    using assms by (auto simp: effective_config_def)
  then show ?thesis
    by (simp add: cron_main_def runner_main_def bind_act_def Let_def split: prod.split sum.split)
qed

lemma cron_main_config_error:
  assumes "bind_res loaded (\<lambda>c. effective_config c args) = Inl e" and "exit_code_of e = Some code"
  shows "cron_main ptime fmt info r now proc emit scrub loaded args x = (x, Inr code)"
proof -
  have "bind_res loaded (\<lambda>c. apply_cli_overrides c args) = Inl e"
    using assms(1) by (auto simp: effective_config_def bind_res_eq_Inl)
  then show ?thesis using assms(2) by (simp add: cron_main_def runner_main_def Let_def)
qed


definition demo_args :: cli_args where
  "demo_args = \<lparr>arg_command = None, arg_lock_file = None, arg_stale_after = None, arg_stale_action = None,
     arg_timeout = None, arg_jobs = [], arg_include_disabled = False, arg_continue_on_failure = False\<rparr>"

definition demo_file :: mapping_value where
  "demo_file = [(''jobs'', PList [PDict [(''name'', PStr ''a''), (''command'', PList [PStr ''a''])]])]"

definition demo_process :: "string \<Rightarrow> process_info" where
  "demo_process r = \<lparr>pi_host = ''host'', pi_pid = 1, pi_command = [''pk-cron-runner''], pi_timeout = PNone\<rparr>"

definition demo_effective :: runner_config where
  "demo_effective = \<lparr>rn_lock = \<lparr>lock_path = ''runner.lock'', stale_after = None, stale_action = ''exit-and-alert''\<rparr>,
     rn_jobs = [demo_job ''a''], stop_on_first_failure = True, notify_success = False, rn_context = None,
     include_output_in_slack = False\<rparr>"

lemma show_one: "show_nat (Suc 0) = ''1''"
  by code_simp

lemma demo_config:
  "bind_res (parse_runner_config id id ''runner.lock'' demo_file) (\<lambda>c. effective_config c demo_args) = Inr demo_effective"
  by code_simp


section \<open>Redaction\<close>

text \<open>
  Two commands that differ in their secrets only: in the argument after a sensitive option, or in
  the value of a sensitive \<open>key=value\<close> argument.
\<close>

fun same_public :: "bool \<Rightarrow> string list \<Rightarrow> string list \<Rightarrow> bool" where
  "same_public secret [] [] = True"
| "same_public secret (x # xs) (y # ys) =
     (if secret then same_public False xs ys
      else if x = y then same_public (startswith x ''-'' \<and> CHR ''='' \<notin> set x \<and> looks_sensitive x) xs ys
      else (\<exists>key v v'. x = key @ CHR ''='' # v \<and> y = key @ CHR ''='' # v' \<and> CHR ''='' \<notin> set key \<and> looks_sensitive key) \<and>
           same_public False xs ys)"
| "same_public secret _ _ = False"

lemma takeWhile_key: "c \<notin> set key \<Longrightarrow> takeWhile (\<lambda>x. x \<noteq> c) (key @ c # v) = key"
  by (induction key) auto

lemma redact_tokens_public: "same_public secret xs ys \<Longrightarrow> redact_tokens secret xs = redact_tokens secret ys"
  by (induction secret xs ys rule: same_public.induct) (auto simp: takeWhile_key Let_def split: if_splits)

lemma lock_metadata_public:
  assumes "same_public False (pi_command (info r)) (pi_command (info' r))"
    and "pi_host (info r) = pi_host (info' r)" "pi_pid (info r) = pi_pid (info' r)" "pi_timeout (info r) = pi_timeout (info' r)"
  shows "lock_metadata fmt info r t = lock_metadata fmt info' r t"
  using redact_tokens_public [OF assms(1)] assms(2-4) by (simp add: lock_metadata_def redacted_command_def)

text \<open>The view of the configuration that is logged hides the secrets of environments and commands.\<close>

lemma redacted_config_public:
  assumes "list_all2 (\<lambda>j j'. same_public False (jc_command j) (jc_command j') \<and>
      list_all2 (\<lambda>(k, v) (k', v'). k = k' \<and> (v = v' \<or> looks_sensitive k)) (jc_env j) (jc_env j') \<and>
      j\<lparr>jc_command := [], jc_env := []\<rparr> = j'\<lparr>jc_command := [], jc_env := []\<rparr>) (rn_jobs c) jobs'"
  shows "redacted_runner_config c = redacted_runner_config (c\<lparr>rn_jobs := jobs'\<rparr>)"
proof -
  have env: "redacted_env e = redacted_env e'"
    if "list_all2 (\<lambda>(k, v) (k', v'). k = k' \<and> (v = v' \<or> looks_sensitive k)) e e'" for e e'
    using that by induction (auto simp: redacted_env_def)
  have "map redacted_job (rn_jobs c) = map redacted_job jobs'"
    using assms
  proof induction
    case (Cons j js j' js')
    have "redacted_job j = redacted_job j'"
      using Cons.hyps(1) redact_tokens_public [of False "jc_command j" "jc_command j'"] env
      by (cases j; cases j') (simp add: redacted_job_def redacted_command_def)
    then show ?case using Cons.IH by simp
  qed simp
  then show ?thesis by (simp add: redacted_runner_config_def)
qed

text \<open>
  No secret of the command line reaches the lock file. Two runs whose command lines differ only
  in the argument of a sensitive option or in the value of a sensitive assignment leave the same
  file behind and end alike, whatever else they do.
\<close>

theorem lock_file_hides_secrets:
  assumes "same_public False (pi_command (info r)) (pi_command (info' r))"
    and "pi_host (info r) = pi_host (info' r)" "pi_pid (info r) = pi_pid (info' r)" "pi_timeout (info r) = pi_timeout (info' r)"
  shows "acquire ptime fmt info cfg r now f = acquire ptime fmt info' cfg r now f"
  unfolding acquire_def lock_metadata_public [of info r info', OF assms] ..

definition demo_secret :: "string \<Rightarrow> string \<Rightarrow> process_info" where
  "demo_secret secret r = \<lparr>pi_host = ''host'', pi_pid = 1, pi_command = [''pk'', ''--api-key'', secret, ''TOKEN='' @ secret, ''-v''], pi_timeout = PNone\<rparr>"

theorem lock_file_hides_secrets_witness:
  "acquire (\<lambda>_. None) show_int (demo_secret ''hunter2'') (rn_lock demo_runner) ''A'' 0 None =
   acquire (\<lambda>_. None) show_int (demo_secret ''other'') (rn_lock demo_runner) ''A'' 0 None"
proof (rule lock_file_hides_secrets)
  have "looks_sensitive ''--api-key''" "looks_sensitive ''TOKEN''" by code_simp+
  moreover have "startswith ''--api-key'' ''-''" "\<not> startswith ''pk'' ''-''" by (simp_all add: startswith_def)
  moreover have "''TOKEN='' @ v = ''TOKEN'' @ CHR ''='' # v" for v by simp
  ultimately show "same_public False (pi_command (demo_secret ''hunter2'' ''A'')) (pi_command (demo_secret ''other'' ''A''))"
    by (simp add: demo_secret_def) (rule exI [of _ "''TOKEN''"], simp)
qed (simp_all add: demo_secret_def)

end
