(* ===== verification/Calendar.thy ===== *)
theory Calendar
  imports Google_API
begin

text \<open>
  \<open>pk_validate_gcalendar_reservations.py\<close> and \<open>google/calendar.py\<close>: accepting and declining pending
  reservations of room calendars. Events are records of the fields the code reads, \<open>None\<close> for an
  absent one; times are microseconds. What Python knows about time stamps and zones is the
  parameter \<^term>\<open>lib\<close>: the two ISO readers, the known zones and their UTC offsets.
\<close>

section \<open>Data\<close>

record reservation_calendar =
  rc_name :: string
  calendar_id :: string
  check_conflicts :: bool

record reservation_config =
  acceptable_domains :: "string list"
  rc_calendars :: "reservation_calendar list"
  rc_timezone :: string
  lookback_days :: int
  lookahead_days :: int

record event_when =
  ew_dateTime :: "string option"
  ew_timeZone :: "string option"
  ew_date :: "string option"

text \<open>An entry of the attendee list that is not a mapping has no address and no status.\<close>

record attendee =
  at_email :: "string option"
  at_status :: "string option"

record event =
  ev_id :: "string option"
  ev_summary :: "string option"
  ev_created :: "string option"
  ev_creator :: "string option"
  ev_transparency :: "string option"
  ev_attendees :: "attendee list"
  ev_start :: "event_when option"
  ev_end :: "event_when option"

record event_decision =
  ed_event :: event
  response :: string
  reason :: "string option"
  attendee_email :: string

section \<open>Configuration\<close>

definition res_string_list :: "pyval \<Rightarrow> string \<Rightarrow> string list res" where
  "res_string_list v name =
     bind_res (as_string_list v name) (\<lambda>ss.
     if ss = [] then Inl (ConfigError ''must not be empty'' [name] []) else Inr ss)"

definition nonempty_string :: "pyval \<Rightarrow> exn \<Rightarrow> string res" where
  "nonempty_string v e = (case v of PStr s \<Rightarrow> if s = [] then Inl e else Inr s | _ \<Rightarrow> Inl e)"

definition calendar_of :: "nat \<times> pyval \<Rightarrow> reservation_calendar res" where
  "calendar_of entry =
     (case entry of (i, raw) \<Rightarrow>
        let name = indexed ''calendars.calendars'' i in
        bind_res (as_mapping raw name) (\<lambda>item.
        bind_res (reject_unknown_keys item [''name'', ''calendar_id'', ''id'', ''check_conflicts''] name) (\<lambda>_.
        bind_res (nonempty_string (dget_none item ''name'')
                    (ConfigError ''name must be a non-empty string'' [name] [])) (\<lambda>cname.
        bind_res (nonempty_string (dget item ''calendar_id'' (dget_none item ''id''))
                    (ConfigError ''calendar_id must be a non-empty string'' [name, cname] [])) (\<lambda>cid.
        case dget item ''check_conflicts'' (PBool True) of
          PBool b \<Rightarrow> Inr \<lparr>rc_name = cname, calendar_id = cid, check_conflicts = b\<rparr>
        | _ \<Rightarrow> Inl (ConfigError ''check_conflicts must be a boolean'' [name, cname] []))))))"

definition calendars_of :: "pyval \<Rightarrow> reservation_calendar list res" where
  "calendars_of v =
     (case v of
        PList (x # xs) \<Rightarrow> map_res calendar_of (enumerate 0 (x # xs))
      | _ \<Rightarrow> Inl (ConfigError ''calendars.calendars must be a non-empty list'' [] []))"

record time_library =
  iso_datetime :: "string \<Rightarrow> (int \<times> int option) option"
  iso_date :: "string \<Rightarrow> int option"
  known_zone :: "string \<Rightarrow> bool"
  utcoffset :: "string \<Rightarrow> int \<Rightarrow> int"

definition calendar_reservation_config :: "time_library \<Rightarrow> string \<Rightarrow> mapping_value \<Rightarrow> reservation_config res" where
  "calendar_reservation_config lib default_timezone config =
     bind_res (as_mapping (dget config ''calendars'' (PDict [])) ''calendars'') (\<lambda>section.
     bind_res (reject_unknown_keys section
       [''acceptable_domains'', ''calendars'', ''timezone'', ''lookback_days'', ''lookahead_days''] ''calendars'') (\<lambda>_.
     bind_res (res_string_list (dget_none section ''acceptable_domains'') ''calendars.acceptable_domains'') (\<lambda>domains.
     bind_res (calendars_of (dget_none section ''calendars'')) (\<lambda>cals.
     bind_res (case dget section ''timezone'' (PStr default_timezone) of
                 PStr z \<Rightarrow> if known_zone lib z then Inr z
                           else Inl (ConfigError ''calendars.timezone is unknown'' [z] [])
               | _ \<Rightarrow> Inl (ConfigError ''calendars.timezone must be a string'' [] [])) (\<lambda>zone.
     bind_res (as_positive_int (dget section ''lookback_days'' (PInt 31)) ''calendars.lookback_days'') (\<lambda>back.
     bind_res (as_positive_int (dget section ''lookahead_days'' (PInt 547)) ''calendars.lookahead_days'') (\<lambda>ahead.
     Inr \<lparr>acceptable_domains = map casefold domains, rc_calendars = cals, rc_timezone = zone,
          lookback_days = back, lookahead_days = ahead\<rparr>)))))))"

text \<open>Which credential file is loaded: a service account with an optional subject, or a user token.\<close>

datatype credential_choice =
    Service_account string "string option"
  | User_token string

definition load_calendar_credentials :: "(string \<Rightarrow> string) \<Rightarrow> mapping_value \<Rightarrow> credential_choice res" where
  "load_calendar_credentials path_of config =
     bind_res (as_mapping (dget config ''google'' (PDict [])) ''google'') (\<lambda>google.
     bind_res (reject_unknown_keys google [''service_account_file'', ''user_token_file'', ''delegated_subject''] ''google'') (\<lambda>_.
     let account = dget_none google ''service_account_file''; token = dget_none google ''user_token_file'';
         subject = dget_none google ''delegated_subject''
     in bind_res (guard_res (\<not> (truthy account \<and> truthy token))
          (ConfigError ''google configuration must not set both service_account_file and user_token_file'' [] [])) (\<lambda>_.
        bind_res (guard_res (subject = PNone \<or> is_str subject)
          (ConfigError ''google.delegated_subject must be a string'' [] [])) (\<lambda>_.
        case account of
          PStr a \<Rightarrow> if a = [] then Inl (ConfigError ''must be a path string'' [''google.service_account_file''] [])
                    else Inr (Service_account (path_of a) (if subject = PNone then None else Some (str_of subject)))
        | _ \<Rightarrow>
            (case token of
               PStr t \<Rightarrow> if t = [] then Inl (ConfigError ''must be a path string'' [''google.user_token_file''] [])
                         else Inr (User_token (path_of t))
             | _ \<Rightarrow> Inl (ConfigError ''google.service_account_file or google.user_token_file is required'' [] []))))))"

section \<open>Times\<close>

text \<open>
  An aware \<open>datetime\<close>: its wall-clock time and its zone. Comparing two of them compares the wall
  clocks when they have the same zone, and the instants otherwise.
\<close>

datatype zone = Offset int | Zone string

record stamp =
  wall :: int
  tz :: zone

definition utc_of :: "time_library \<Rightarrow> stamp \<Rightarrow> int" where
  "utc_of lib t = wall t - (case tz t of Offset off \<Rightarrow> off | Zone z \<Rightarrow> utcoffset lib z (wall t))"

definition stamp_le :: "time_library \<Rightarrow> stamp \<Rightarrow> stamp \<Rightarrow> bool" where
  "stamp_le lib a b = (if tz a = tz b then wall a \<le> wall b else utc_of lib a \<le> utc_of lib b)"

definition event_time :: "time_library \<Rightarrow> string \<Rightarrow> event_when \<Rightarrow> stamp option" where
  "event_time lib timezone v =
     (case ew_dateTime v of
        Some s \<Rightarrow>
          (case iso_datetime lib s of
             None \<Rightarrow> None
           | Some (w, Some off) \<Rightarrow> Some \<lparr>wall = w, tz = Offset off\<rparr>
           | Some (w, None) \<Rightarrow>
               (case ew_timeZone v of
                  None \<Rightarrow> Some \<lparr>wall = w, tz = Zone timezone\<rparr>
                | Some z \<Rightarrow> if z = [] then Some \<lparr>wall = w, tz = Zone timezone\<rparr>
                            else if known_zone lib z then Some \<lparr>wall = w, tz = Zone z\<rparr> else None))
      | None \<Rightarrow>
          (case ew_date v of
             None \<Rightarrow> None
           | Some d \<Rightarrow> map_option (\<lambda>w. \<lparr>wall = w, tz = Zone timezone\<rparr>) (iso_date lib d)))"

definition one_second :: int where
  "one_second = 1000000"

definition event_interval_or_none :: "time_library \<Rightarrow> string \<Rightarrow> event \<Rightarrow> (stamp \<times> stamp) option" where
  "event_interval_or_none lib timezone ev =
     Option.bind (ev_start ev) (\<lambda>vs. Option.bind (ev_end ev) (\<lambda>ve.
     Option.bind (event_time lib timezone vs) (\<lambda>s. Option.bind (event_time lib timezone ve) (\<lambda>e.
       Some (s\<lparr>wall := wall s + one_second\<rparr>, e\<lparr>wall := wall e - one_second\<rparr>)))))"

definition intervals_overlap :: "time_library \<Rightarrow> stamp \<times> stamp \<Rightarrow> stamp \<times> stamp \<Rightarrow> bool" where
  "intervals_overlap lib l r \<longleftrightarrow> stamp_le lib (fst l) (snd r) \<and> stamp_le lib (fst r) (snd l)"

section \<open>Decisions\<close>

definition calendar_attendee :: "event \<Rightarrow> string \<Rightarrow> attendee option" where
  "calendar_attendee ev cal_id =
     find (\<lambda>a. case at_email a of None \<Rightarrow> False | Some e \<Rightarrow> casefold e = casefold cal_id) (ev_attendees ev)"

definition attendee_status :: "event \<Rightarrow> string \<Rightarrow> string option" where
  "attendee_status ev cal_id = (case calendar_attendee ev cal_id of None \<Rightarrow> None | Some a \<Rightarrow> at_status a)"

definition creator_domain :: "string \<Rightarrow> string" where
  "creator_domain email =
     (if CHR ''@'' \<in> set email then casefold (rev (takeWhile (\<lambda>c. c \<noteq> CHR ''@'') (rev email))) else [])"

definition creator_email :: "event \<Rightarrow> string" where
  "creator_email ev = (case ev_creator ev of None \<Rightarrow> [] | Some e \<Rightarrow> e)"

definition event_is_transparent :: "event \<Rightarrow> bool" where
  "event_is_transparent ev \<longleftrightarrow> ev_transparency ev = Some ''transparent''"

definition malformed_time_decision :: "event \<Rightarrow> string \<Rightarrow> event_decision" where
  "malformed_time_decision ev email =
     \<lparr>ed_event = ev, response = ''declined'', reason = Some ''event start/end time is malformed'', attendee_email = email\<rparr>"

definition accepted_decision :: "event \<Rightarrow> string \<Rightarrow> event_decision" where
  "accepted_decision ev email = \<lparr>ed_event = ev, response = ''accepted'', reason = None, attendee_email = email\<rparr>"

definition domain_decision :: "event \<Rightarrow> string \<Rightarrow> event_decision" where
  "domain_decision ev email =
     \<lparr>ed_event = ev, response = ''declined'',
      reason = Some (''creator '' @ creator_email ev @ '' is not in an acceptable domain''), attendee_email = email\<rparr>"

definition conflict_decision :: "event \<Rightarrow> string \<Rightarrow> event \<Rightarrow> event_decision" where
  "conflict_decision ev email conflict =
     \<lparr>ed_event = ev, response = ''declined'',
      reason = Some (''conflicts with existing event '' @ repr_str (case ev_summary conflict of None \<Rightarrow> [] | Some s \<Rightarrow> s) @
        '' (ID: '' @ (case ev_id conflict of None \<Rightarrow> ''None'' | Some i \<Rightarrow> i) @ '')''),
      attendee_email = email\<rparr>"

text \<open>One event of the first loop: pending, existing, or decided at once.\<close>

record screened =
  sc_pending :: "(event \<times> string) list"
  sc_existing :: "event list"
  sc_decisions :: "event_decision list"

definition attendee_address :: "event \<Rightarrow> string \<Rightarrow> string" where
  "attendee_address ev cal_id =
     (case calendar_attendee ev cal_id of
        None \<Rightarrow> cal_id
      | Some a \<Rightarrow> (case at_email a of None \<Rightarrow> cal_id | Some e \<Rightarrow> e))"

definition screen_event :: "reservation_calendar \<Rightarrow> reservation_config \<Rightarrow> screened \<Rightarrow> event \<Rightarrow> screened" where
  "screen_event cal cfg sc ev =
     (let status = attendee_status ev (calendar_id cal); email = attendee_address ev (calendar_id cal)
      in if status = Some ''needsAction'' then
           (if creator_domain (creator_email ev) \<notin> set (acceptable_domains cfg)
            then sc\<lparr>sc_decisions := sc_decisions sc @ [domain_decision ev email]\<rparr>
            else sc\<lparr>sc_pending := sc_pending sc @ [(ev, email)]\<rparr>)
         else if status \<noteq> Some ''declined'' \<and> \<not> event_is_transparent ev
         then sc\<lparr>sc_existing := sc_existing sc @ [ev]\<rparr>
         else sc)"

text \<open>The second loop: accept a pending event that overlaps nothing accepted before it.\<close>

fun decide_pending ::
  "time_library \<Rightarrow> string \<Rightarrow> (event \<times> stamp \<times> stamp) list \<Rightarrow> (event \<times> string) list \<Rightarrow> event_decision list" where
  "decide_pending lib timezone accepted [] = []"
| "decide_pending lib timezone accepted ((ev, email) # rest) =
     (case event_interval_or_none lib timezone ev of
        None \<Rightarrow> malformed_time_decision ev email # decide_pending lib timezone accepted rest
      | Some iv \<Rightarrow>
          (case find (\<lambda>x. intervals_overlap lib iv (snd x)) accepted of
             Some (conflict, _) \<Rightarrow> conflict_decision ev email conflict # decide_pending lib timezone accepted rest
           | None \<Rightarrow>
               accepted_decision ev email #
               decide_pending lib timezone (if event_is_transparent ev then accepted else accepted @ [(ev, iv)]) rest))"

definition accepted_intervals :: "time_library \<Rightarrow> string \<Rightarrow> event list \<Rightarrow> (event \<times> stamp \<times> stamp) list" where
  "accepted_intervals lib timezone evs =
     List.map_filter (\<lambda>ev. map_option (Pair ev) (event_interval_or_none lib timezone ev)) evs"

definition created_key :: "event \<times> string \<Rightarrow> string" where
  "created_key p = (case ev_created (fst p) of None \<Rightarrow> [] | Some s \<Rightarrow> s)"

definition reservation_decisions ::
  "time_library \<Rightarrow> reservation_config \<Rightarrow> reservation_calendar \<Rightarrow> event list \<Rightarrow> event_decision list" where
  "reservation_decisions lib cfg cal events =
     (let sc = foldl (screen_event cal cfg) \<lparr>sc_pending = [], sc_existing = [], sc_decisions = []\<rparr> events;
          timezone = rc_timezone cfg
      in if \<not> check_conflicts cal then
           sc_decisions sc @
           map (\<lambda>(ev, email). if event_interval_or_none lib timezone ev = None
                               then malformed_time_decision ev email else accepted_decision ev email) (sc_pending sc)
         else sc_decisions sc @
           decide_pending lib timezone (accepted_intervals lib timezone (sc_existing sc))
             (sort_key created_key (sc_pending sc)))"

section \<open>The Calendar service\<close>

text \<open>Listing takes the calendar, the window and a page token; patching sets one attendee's response.\<close>

record 'w calendar_service =
  cs_list :: "string \<Rightarrow> int \<Rightarrow> int \<Rightarrow> string option \<Rightarrow> ('w, event list \<times> string option) action"
  cs_patch :: "string \<Rightarrow> string \<Rightarrow> string \<Rightarrow> string \<Rightarrow> ('w, unit) action"

definition NOTIFICATION_WRITE_POLICY :: retry_policy where
  "NOTIFICATION_WRITE_POLICY = \<lparr>attempts = 5, initial_delay = 2, backoff = 2, max_delay = 30, jitter = 1\<rparr>"

definition events_page :: "'w calendar_service \<Rightarrow> string \<Rightarrow> int \<Rightarrow> int \<Rightarrow> (string option, event, 'w) fetcher" where
  "events_page svc cal_id tmin tmax page_token w =
     (case execute_default (cs_list svc cal_id tmin tmax page_token) w of
        (w', Inl e) \<Rightarrow> (w', Inl e)
      | (w', Inr (items, token)) \<Rightarrow>
          (w', Inr (items, (case token of None \<Rightarrow> None | Some t \<Rightarrow> if t = [] then None else Some (Some t)))))"

definition list_events :: "'w calendar_service \<Rightarrow> string \<Rightarrow> int \<Rightarrow> int \<Rightarrow> ('w, event list) action" where
  "list_events svc cal_id tmin tmax = fetch_all (events_page svc cal_id tmin tmax) None"

definition patch_attendee_response ::
  "'w calendar_service \<Rightarrow> string \<Rightarrow> string \<Rightarrow> string \<Rightarrow> string \<Rightarrow> ('w, unit) action" where
  "patch_attendee_response svc cal_id event_id status email =
     execute_google_request (Some NOTIFICATION_WRITE_POLICY) (Some {429}) (Some TRANSIENT_GOOGLE_REASONS) False
       (cs_patch svc cal_id event_id (if email = [] then cal_id else email) status)"

definition respond_to_decision ::
  "'w calendar_service \<Rightarrow> bool \<Rightarrow> reservation_calendar \<Rightarrow> event_decision \<Rightarrow> ('w, unit) action" where
  "respond_to_decision svc dry_run cal d =
     (case ev_id (ed_event d) of
        None \<Rightarrow> pure_act (Inr ())
      | Some i \<Rightarrow>
          if i = [] \<or> dry_run then pure_act (Inr ())
          else patch_attendee_response svc (calendar_id cal) i (response d) (attendee_email d))"

definition respond_to_decisions ::
  "'w calendar_service \<Rightarrow> bool \<Rightarrow> reservation_calendar \<Rightarrow> event_decision list \<Rightarrow> ('w, unit) action" where
  "respond_to_decisions svc dry_run cal decisions = run_actions (respond_to_decision svc dry_run cal) decisions"

definition day :: int where
  "day = 86400 * one_second"

fun plan_calendars ::
  "'w calendar_service \<Rightarrow> time_library \<Rightarrow> reservation_config \<Rightarrow> int \<Rightarrow> reservation_calendar list \<Rightarrow>
   ('w, (reservation_calendar \<times> event_decision list) list) action" where
  "plan_calendars svc lib cfg now [] = pure_act (Inr [])"
| "plan_calendars svc lib cfg now (cal # cals) =
     bind_act (list_events svc (calendar_id cal) (now - lookback_days cfg * day) (now + lookahead_days cfg * day)) (\<lambda>events.
     bind_act (plan_calendars svc lib cfg now cals) (\<lambda>plans.
     pure_act (Inr ((cal, reservation_decisions lib cfg cal events) # plans))))"

definition process_calendars ::
  "'w calendar_service \<Rightarrow> time_library \<Rightarrow> reservation_config \<Rightarrow> bool \<Rightarrow> int \<Rightarrow> ('w, unit) action" where
  "process_calendars svc lib cfg dry_run now =
     bind_act (plan_calendars svc lib cfg now (rc_calendars cfg)) (\<lambda>plans.
     run_actions (\<lambda>(cal, decisions). respond_to_decisions svc dry_run cal decisions) plans)"

end
