(* ===== verification/Calendar_Facts.thy ===== *)
theory Calendar_Facts
  imports Calendar "HOL-Library.Multiset"
begin

text \<open>
  Correctness of the reservation tool: every pending reservation gets exactly one decision, no two
  accepted bookings collide, a declined request lost to an earlier one, and nothing is written
  before every calendar was read.
\<close>

section \<open>Overlap\<close>

lemma stamp_le_utc:
  assumes "\<forall>z w. utcoffset lib z w = off z"
  shows "stamp_le lib a b \<longleftrightarrow> utc_of lib a \<le> utc_of lib b"
  using assms by (auto simp: stamp_le_def utc_of_def split: zone.split)

lemma intervals_overlap_sym: "intervals_overlap lib i j \<longleftrightarrow> intervals_overlap lib j i"
  by (auto simp: intervals_overlap_def)

text \<open>
  When zones have fixed offsets, two events overlap iff each ends two seconds or more after the
  other begins. So events that follow each other never do.
\<close>

lemma intervals_overlap_shared:
  assumes "\<forall>z w. utcoffset lib z w = off z"
  shows "intervals_overlap lib (s\<lparr>wall := wall s + one_second\<rparr>, e\<lparr>wall := wall e - one_second\<rparr>)
      (s'\<lparr>wall := wall s' + one_second\<rparr>, e'\<lparr>wall := wall e' - one_second\<rparr>) \<longleftrightarrow>
    2 * one_second \<le> utc_of lib e' - utc_of lib s \<and> 2 * one_second \<le> utc_of lib e - utc_of lib s'"
proof -
  have "utc_of lib (t\<lparr>wall := wall t + k\<rparr>) = utc_of lib t + k" for t k
    using assms by (simp add: utc_of_def split: zone.split)
  from this [of _ one_second] this [of _ "- one_second"] show ?thesis
    by (auto simp: intervals_overlap_def stamp_le_utc [OF assms])
qed

section \<open>The first loop\<close>

definition asks :: "reservation_calendar \<Rightarrow> event \<Rightarrow> bool" where
  "asks cal ev \<longleftrightarrow> attendee_status ev (calendar_id cal) = Some ''needsAction''"

definition may_book :: "reservation_config \<Rightarrow> event \<Rightarrow> bool" where
  "may_book cfg ev \<longleftrightarrow> creator_domain (creator_email ev) \<in> set (acceptable_domains cfg)"

definition blocks :: "reservation_calendar \<Rightarrow> event \<Rightarrow> bool" where
  "blocks cal ev \<longleftrightarrow> attendee_status ev (calendar_id cal) \<notin> {Some ''needsAction'', Some ''declined''} \<and> \<not> event_is_transparent ev"

abbreviation with_address :: "reservation_calendar \<Rightarrow> event \<Rightarrow> event \<times> string" where
  "with_address cal ev \<equiv> (ev, attendee_address ev (calendar_id cal))"

lemma screen_events:
  "foldl (screen_event cal cfg) sc events =
     \<lparr>sc_pending = sc_pending sc @ map (with_address cal) (filter (\<lambda>ev. asks cal ev \<and> may_book cfg ev) events),
      sc_existing = sc_existing sc @ filter (blocks cal) events,
      sc_decisions = sc_decisions sc @
        map (\<lambda>ev. domain_decision ev (attendee_address ev (calendar_id cal))) (filter (\<lambda>ev. asks cal ev \<and> \<not> may_book cfg ev) events)\<rparr>"
proof (induction events arbitrary: sc)
  case (Cons ev events)
  show ?case unfolding foldl_Cons Cons.IH
    by (auto simp: screen_event_def Let_def asks_def may_book_def blocks_def [abs_def])
qed simp

definition pending_of :: "reservation_config \<Rightarrow> reservation_calendar \<Rightarrow> event list \<Rightarrow> (event \<times> string) list" where
  "pending_of cfg cal events = map (with_address cal) (filter (\<lambda>ev. asks cal ev \<and> may_book cfg ev) events)"

lemma reservation_decisions_eq:
  "reservation_decisions lib cfg cal events =
     map (\<lambda>ev. domain_decision ev (attendee_address ev (calendar_id cal))) (filter (\<lambda>ev. asks cal ev \<and> \<not> may_book cfg ev) events) @
     (if check_conflicts cal then
        decide_pending lib (rc_timezone cfg) (accepted_intervals lib (rc_timezone cfg) (filter (blocks cal) events))
          (sort_key created_key (pending_of cfg cal events))
      else map (\<lambda>(ev, email). if event_interval_or_none lib (rc_timezone cfg) ev = None
        then malformed_time_decision ev email else accepted_decision ev email) (pending_of cfg cal events))"
  by (simp add: reservation_decisions_def screen_events pending_of_def Let_def)

section \<open>The second loop\<close>

lemma decision_fields [simp]:
  "ed_event (malformed_time_decision ev email) = ev" "response (malformed_time_decision ev email) = ''declined''"
  "ed_event (accepted_decision ev email) = ev" "response (accepted_decision ev email) = ''accepted''"
  "ed_event (domain_decision ev email) = ev" "response (domain_decision ev email) = ''declined''"
  "ed_event (conflict_decision ev email c) = ev" "response (conflict_decision ev email c) = ''declined''"
  by (simp_all add: malformed_time_decision_def accepted_decision_def domain_decision_def conflict_decision_def)

lemma decide_pending_events: "map ed_event (decide_pending lib z acc ps) = map fst ps"
  by (induction lib z acc ps rule: decide_pending.induct) (auto split: option.split)

text \<open>A decision that blocks the calendar from then on.\<close>

definition books :: "event_decision \<Rightarrow> bool" where
  "books d \<longleftrightarrow> response d = ''accepted'' \<and> \<not> event_is_transparent (ed_event d)"

lemma decide_pending_accepted:
  assumes "d \<in> set (decide_pending lib z acc ps)" and "response d = ''accepted''"
  shows "\<exists>iv. event_interval_or_none lib z (ed_event d) = Some iv \<and> (\<forall>x\<in>set acc. \<not> intervals_overlap lib iv (snd x))"
  using assms
proof (induction lib z acc ps rule: decide_pending.induct)
  case (2 lib z acc ev email rest)
  show ?case
  proof (cases "event_interval_or_none lib z ev")
    case None
    then show ?thesis using 2 by auto
  next
    case (Some iv)
    show ?thesis
    proof (cases "find (\<lambda>x. intervals_overlap lib iv (snd x)) acc")
      case None
      then have "\<forall>x\<in>set acc. \<not> intervals_overlap lib iv (snd x)" by (auto simp: find_None_iff)
      then show ?thesis using 2(2) [OF Some None] 2(4,5) Some None
        by (cases iv) (auto split: if_splits)
    next
      case found: (Some c)
      then show ?thesis using 2(3) [OF Some found] 2(4,5) Some by (cases c) auto
    qed
  qed
qed simp

lemma decide_pending_pairwise:
  "sorted_wrt (\<lambda>d d'. books d \<longrightarrow> response d' = ''accepted'' \<longrightarrow>
     (\<forall>iv iv'. event_interval_or_none lib z (ed_event d) = Some iv \<longrightarrow> event_interval_or_none lib z (ed_event d') = Some iv' \<longrightarrow>
        \<not> intervals_overlap lib iv iv')) (decide_pending lib z acc ps)"
proof (induction lib z acc ps rule: decide_pending.induct)
  case (2 lib z acc ev email rest)
  show ?case
  proof (cases "event_interval_or_none lib z ev")
    case None
    then show ?thesis using 2(1) by (auto simp: books_def)
  next
    case (Some iv)
    show ?thesis
    proof (cases "find (\<lambda>x. intervals_overlap lib iv (snd x)) acc")
      case None
      let ?acc = "if event_is_transparent ev then acc else acc @ [(ev, iv)]"
      have "\<not> intervals_overlap lib iv iv'"
        if "\<not> event_is_transparent ev" "d \<in> set (decide_pending lib z ?acc rest)" "response d = ''accepted''"
          "event_interval_or_none lib z (ed_event d) = Some iv'" for d iv'
        using decide_pending_accepted [OF that(2,3)] that(1,4) by (auto simp: intervals_overlap_sym)
      then show ?thesis using 2(2) [OF Some None] Some None by (auto simp: books_def)
    next
      case found: (Some c)
      then show ?thesis using 2(3) [OF Some found] Some by (cases c) (auto simp: books_def)
    qed
  qed
qed simp

text \<open>A request that is not accepted has no readable time or lost to a booking that was there before.\<close>

lemma decide_pending_declined:
  assumes "decide_pending lib z acc ps = pre @ d # post" and "response d \<noteq> ''accepted''"
    and "event_interval_or_none lib z (ed_event d) = Some iv"
  shows "(\<exists>x\<in>set acc. intervals_overlap lib iv (snd x)) \<or>
    (\<exists>d'\<in>set pre. books d' \<and> (\<exists>iv'. event_interval_or_none lib z (ed_event d') = Some iv' \<and> intervals_overlap lib iv iv'))"
  using assms
proof (induction lib z acc ps arbitrary: pre rule: decide_pending.induct)
  case (2 lib z acc ev email rest)
  note hyps = 2(4-6)
  show ?case
  proof (cases "event_interval_or_none lib z ev")
    case None
    then show ?thesis using 2(1) [OF None _ hyps(2,3)] hyps by (cases pre) auto
  next
    case iv: (Some iv1)
    show ?thesis
    proof (cases "find (\<lambda>x. intervals_overlap lib iv1 (snd x)) acc")
      case None
      let ?acc = "if event_is_transparent ev then acc else acc @ [(ev, iv1)]"
      obtain pre' where pre: "pre = accepted_decision ev email # pre'" "decide_pending lib z ?acc rest = pre' @ d # post"
        using hyps iv None by (cases pre) auto
      have "books (accepted_decision ev email) \<longleftrightarrow> \<not> event_is_transparent ev" by (simp add: books_def)
      then show ?thesis using 2(2) [OF iv None pre(2) hyps(2,3)] iv unfolding pre(1)
        by (cases iv1; cases "event_is_transparent ev") auto
    next
      case found: (Some c)
      then have hit: "\<exists>x\<in>set acc. intervals_overlap lib iv1 (snd x)" by (metis find_None_iff option.distinct(1))
      obtain cv civ where c: "c = (cv, civ)" by (cases c)
      show ?thesis
      proof (cases pre)
        case Nil
        then have "d = conflict_decision ev email cv" using hyps(1) iv found c by simp
        then show ?thesis using hyps(3) iv hit Nil by simp
      next
        case (Cons d0 pre')
        then have "decide_pending lib z acc rest = pre' @ d # post" using hyps(1) iv found c by simp
        from 2(3) [OF iv found c [symmetric] this hyps(2,3)] show ?thesis unfolding Cons by auto
      qed
    qed
  qed
qed simp

section \<open>Every decision has its reason\<close>

text \<open>The reasons for which a reservation may be declined.\<close>

definition declined_for ::
  "time_library \<Rightarrow> reservation_config \<Rightarrow> reservation_calendar \<Rightarrow> event list \<Rightarrow> event_decision list \<Rightarrow> event_decision \<Rightarrow> bool" where
  "declined_for lib cfg cal events ds d \<longleftrightarrow>
     \<not> may_book cfg (ed_event d) \<or>
     (case event_interval_or_none lib (rc_timezone cfg) (ed_event d) of
        None \<Rightarrow> True
      | Some iv \<Rightarrow> check_conflicts cal \<and>
          (\<exists>ev iv'. event_interval_or_none lib (rc_timezone cfg) ev = Some iv' \<and> intervals_overlap lib iv iv' \<and>
             (ev \<in> set events \<and> blocks cal ev \<or>
              ev \<in> ed_event ` set (filter books ds) \<and> created_key (ev, []) \<le> created_key (ed_event d, []))))"

lemma mset_filter_split: "mset (filter (\<lambda>x. p x \<and> \<not> q x) xs) + mset (filter (\<lambda>x. p x \<and> q x) xs) = mset (filter p xs)"
  by (induction xs) auto

lemma decided_events: "mset (map ed_event (reservation_decisions lib cfg cal events)) = mset (filter (asks cal) events)"
proof -
  let ?early = "filter (\<lambda>ev. asks cal ev \<and> \<not> may_book cfg ev) events"
  let ?ps = "pending_of cfg cal events"
  have ps: "map fst ?ps = filter (\<lambda>ev. asks cal ev \<and> may_book cfg ev) events"
    by (simp add: pending_of_def comp_def)
  have sorted: "mset (map fst (sort_key created_key ?ps)) = mset (map fst ?ps)" by simp
  have "ed_event (case x of (ev, email) \<Rightarrow> if event_interval_or_none lib (rc_timezone cfg) ev = None
      then malformed_time_decision ev email else accepted_decision ev email) = fst x" for x :: "event \<times> string"
    by (cases x) simp
  then have "mset (map ed_event (reservation_decisions lib cfg cal events)) = mset ?early + mset (map fst ?ps)"
    unfolding reservation_decisions_eq map_append mset_append map_map comp_def decision_fields map_ident if_distrib [of "map ed_event"]
      if_distrib [of mset] decide_pending_events sorted by simp
  then show ?thesis unfolding ps mset_filter_split .
qed

lemma decide_pending_responses:
  "d \<in> set (decide_pending lib z acc ps) \<Longrightarrow> response d = ''accepted'' \<or> response d = ''declined''"
  by (induction lib z acc ps rule: decide_pending.induct) (auto split: option.splits)

lemma decide_pending_sorted:
  assumes "sorted (map created_key ps)" and "decide_pending lib z acc ps = pre @ d # post" and "d' \<in> set pre"
  shows "created_key (ed_event d', []) \<le> created_key (ed_event d, [])"
proof -
  have "map created_key ps = map (\<lambda>ev. created_key (ev, [])) (map fst ps)" by (simp add: created_key_def)
  also have "\<dots> = map (\<lambda>d. created_key (ed_event d, [])) (pre @ d # post)"
    unfolding decide_pending_events [of lib z acc ps, unfolded assms(2), symmetric] by simp
  finally show ?thesis using assms(1,3) by (auto simp: sorted_append)
qed

lemma decided_reasons:
  assumes "d \<in> set (reservation_decisions lib cfg cal events)"
  shows "response d = ''accepted'' \<or>
    response d = ''declined'' \<and> declined_for lib cfg cal events (reservation_decisions lib cfg cal events) d"
proof -
  let ?z = "rc_timezone cfg" and ?ds = "reservation_decisions lib cfg cal events"
  let ?acc = "accepted_intervals lib ?z (filter (blocks cal) events)"
  let ?late = "decide_pending lib ?z ?acc (sort_key created_key (pending_of cfg cal events))"
  have reason: "declined_for lib cfg cal events ?ds d"
    if cc: "check_conflicts cal" and d: "d \<in> set ?late" "response d \<noteq> ''accepted''"
  proof (cases "event_interval_or_none lib ?z (ed_event d)")
    case None
    then show ?thesis by (simp add: declined_for_def)
  next
    case (Some iv)
    from split_list [OF d(1)] obtain pre post where split: "?late = pre @ d # post" by blast
    from decide_pending_declined [OF split d(2) Some] show ?thesis
    proof
      assume "\<exists>x\<in>set ?acc. intervals_overlap lib iv (snd x)"
      then obtain ev iv' where "ev \<in> set events" "blocks cal ev" "event_interval_or_none lib ?z ev = Some iv'" "intervals_overlap lib iv iv'"
        by (auto simp: accepted_intervals_def List.map_filter_def)
      then show ?thesis using cc unfolding declined_for_def Some option.case by blast
    next
      assume "\<exists>d'\<in>set pre. books d' \<and> (\<exists>iv'. event_interval_or_none lib ?z (ed_event d') = Some iv' \<and> intervals_overlap lib iv iv')"
      then obtain d' iv' where d': "d' \<in> set pre" "books d'" "event_interval_or_none lib ?z (ed_event d') = Some iv'"
        "intervals_overlap lib iv iv'" by blast
      have "d' \<in> set (filter books ?ds)" using cc split d'(1,2) by (simp add: reservation_decisions_eq)
      moreover have "created_key (ed_event d', []) \<le> created_key (ed_event d, [])"
        using decide_pending_sorted [OF _ split d'(1)] by simp
      ultimately show ?thesis using cc d'(3,4) unfolding declined_for_def Some option.case by blast
    qed
  qed
  from assms consider (early) "response d = ''declined''" "\<not> may_book cfg (ed_event d)"
    | (late) "check_conflicts cal" "d \<in> set ?late"
    | (free) ev email where "d = (if event_interval_or_none lib ?z ev = None then malformed_time_decision ev email else accepted_decision ev email)"
    unfolding reservation_decisions_eq by (auto split: if_splits)
  then show ?thesis
  proof cases
    case late
    then show ?thesis using decide_pending_responses [OF late(2)] reason by blast
  next
    case (free ev email)
    then show ?thesis by (cases "event_interval_or_none lib ?z ev = None") (simp_all add: declined_for_def)
  qed (simp add: declined_for_def)
qed

section \<open>Properties\<close>

text \<open>
  C10: no double booking. On a calendar that checks conflicts, an accepted reservation overlaps
  neither an event that already blocks the calendar nor, when both block it, another accepted one.
\<close>

theorem no_double_booking:
  assumes "check_conflicts cal" and "ds = reservation_decisions lib cfg cal events"
    and "i < length ds" and "response (ds ! i) = ''accepted''"
  shows "\<exists>iv. event_interval_or_none lib (rc_timezone cfg) (ed_event (ds ! i)) = Some iv \<and>
    (\<forall>ev\<in>set events. \<forall>iv'. blocks cal ev \<longrightarrow> event_interval_or_none lib (rc_timezone cfg) ev = Some iv' \<longrightarrow>
       \<not> intervals_overlap lib iv iv') \<and>
    (\<forall>j iv'. j < length ds \<longrightarrow> j \<noteq> i \<longrightarrow> books (ds ! i) \<longrightarrow> books (ds ! j) \<longrightarrow>
       event_interval_or_none lib (rc_timezone cfg) (ed_event (ds ! j)) = Some iv' \<longrightarrow> \<not> intervals_overlap lib iv iv')"
proof -
  let ?z = "rc_timezone cfg"
  let ?acc = "accepted_intervals lib ?z (filter (blocks cal) events)"
  let ?late = "decide_pending lib ?z ?acc (sort_key created_key (pending_of cfg cal events))"
  let ?R = "\<lambda>d d'. books d \<longrightarrow> response d' = ''accepted'' \<longrightarrow>
     (\<forall>iv iv'. event_interval_or_none lib ?z (ed_event d) = Some iv \<longrightarrow> event_interval_or_none lib ?z (ed_event d') = Some iv' \<longrightarrow>
        \<not> intervals_overlap lib iv iv')"
  obtain early where ds: "ds = early @ ?late" and early: "\<forall>d\<in>set early. response d = ''declined''"
    using assms(1,2) by (auto simp: reservation_decisions_eq)
  have "ds ! i \<in> set ?late" using assms(3,4) early nth_mem [OF assms(3)] unfolding ds by auto
  then obtain iv where iv: "event_interval_or_none lib ?z (ed_event (ds ! i)) = Some iv"
    and free: "\<forall>x\<in>set ?acc. \<not> intervals_overlap lib iv (snd x)"
    using decide_pending_accepted assms(4) by blast
  have sorted: "sorted_wrt ?R ds"
    unfolding ds sorted_wrt_append using decide_pending_pairwise early
    by (auto simp: books_def sorted_wrt_iff_nth_less)
  have "\<not> intervals_overlap lib iv iv'"
    if "j < length ds" "j \<noteq> i" "books (ds ! i)" "books (ds ! j)" "event_interval_or_none lib ?z (ed_event (ds ! j)) = Some iv'" for j iv'
    using sorted_wrt_nth_less [OF sorted, of i j] sorted_wrt_nth_less [OF sorted, of j i] that iv assms(3)
    by (cases "i < j") (auto simp: books_def intervals_overlap_sym)
  moreover have "\<not> intervals_overlap lib iv iv'"
    if "ev \<in> set events" "blocks cal ev" "event_interval_or_none lib ?z ev = Some iv'" for ev iv'
  proof -
    have "(ev, iv') \<in> set ?acc" using that by (force simp: accepted_intervals_def List.map_filter_def)
    then show ?thesis using free by auto
  qed
  ultimately show ?thesis using iv by blast
qed

text \<open>A concrete calendar: events from \<open>s\<close> to \<open>e\<close> seconds, the creation stamp as key.\<close>

definition demo_lib :: time_library where
  "demo_lib = \<lparr>iso_datetime = (\<lambda>s. map_option (\<lambda>n. (int n * one_second, Some 0)) (parse_nat s)), iso_date = (\<lambda>_. None),
     known_zone = (\<lambda>z. z = ''UTC''), utcoffset = (\<lambda>_ _. 0)\<rparr>"

definition demo_when :: "string \<Rightarrow> event_when option" where
  "demo_when s = Some \<lparr>ew_dateTime = Some s, ew_timeZone = None, ew_date = None\<rparr>"

definition demo_event :: "string \<Rightarrow> string \<Rightarrow> string \<Rightarrow> string \<Rightarrow> string \<Rightarrow> event" where
  "demo_event status eid created s e =
     \<lparr>ev_id = Some eid, ev_summary = None, ev_created = Some created, ev_creator = Some ''a@parish.org'', ev_transparency = None,
      ev_attendees = [\<lparr>at_email = Some ''Room@x.org'', at_status = Some status\<rparr>], ev_start = demo_when s, ev_end = demo_when e\<rparr>"

definition demo_room :: reservation_calendar where
  "demo_room = \<lparr>rc_name = ''Room'', calendar_id = ''room@x.org'', check_conflicts = True\<rparr>"

definition demo_reservations :: reservation_config where
  "demo_reservations = \<lparr>acceptable_domains = [''parish.org''], rc_calendars = [demo_room], rc_timezone = ''UTC'',
     lookback_days = 31, lookahead_days = 547\<rparr>"

definition demo_events :: "event list" where
  "demo_events = [demo_event ''accepted'' ''x'' ''1'' ''100'' ''200'', demo_event ''needsAction'' ''late'' ''9'' ''250'' ''350'',
     demo_event ''needsAction'' ''early'' ''2'' ''200'' ''300'']"

definition demo_decisions :: "event_decision list" where
  "demo_decisions = reservation_decisions demo_lib demo_reservations demo_room demo_events"

lemma demo_decisions_eq: "map (\<lambda>d. (ev_id (ed_event d), response d)) demo_decisions = [(Some ''early'', ''accepted''), (Some ''late'', ''declined'')]"
  by code_simp

theorem no_double_booking_witness:
  "response (demo_decisions ! 0) = ''accepted'' \<and>
   (\<exists>iv. event_interval_or_none demo_lib ''UTC'' (ed_event (demo_decisions ! 0)) = Some iv \<and>
     \<not> intervals_overlap demo_lib iv (\<lparr>wall = 101000000, tz = Offset 0\<rparr>, \<lparr>wall = 199000000, tz = Offset 0\<rparr>))"
proof -
  have len: "length demo_decisions = 2" using arg_cong [OF demo_decisions_eq, of length] by simp
  have acc: "response (demo_decisions ! 0) = ''accepted''" by code_simp
  have cc: "check_conflicts demo_room" by (simp add: demo_room_def)
  have z: "rc_timezone demo_reservations = ''UTC''" by (simp add: demo_reservations_def)
  let ?ev = "demo_event ''accepted'' ''x'' ''1'' ''100'' ''200''"
  have ev: "?ev \<in> set demo_events" "blocks demo_room ?ev"
    "event_interval_or_none demo_lib ''UTC'' ?ev = Some (\<lparr>wall = 101000000, tz = Offset 0\<rparr>, \<lparr>wall = 199000000, tz = Offset 0\<rparr>)"
    by (simp add: demo_events_def) code_simp+
  from no_double_booking [OF cc demo_decisions_def, of 0] len acc ev show ?thesis unfolding z by auto
qed



section \<open>Reading before writing\<close>

definition listing_preserves :: "('w \<Rightarrow> 'o) \<Rightarrow> 'w calendar_service \<Rightarrow> bool" where
  "listing_preserves obs svc \<longleftrightarrow> (\<forall>c a b t w. obs (fst (cs_list svc c a b t w)) = obs w)"

lemma preserves_list_events [frame]:
  assumes "listing_preserves obs svc"
  shows "preserves obs (list_events svc c a b)"
  unfolding preserves_def list_events_def
proof (rule allI, rule fetch_all_preserves, intro allI)
  fix t w
  have "obs (fst (execute_default (cs_list svc c a b t) w)) = obs w"
    by (rule execute_preserves) (use assms in \<open>simp add: listing_preserves_def\<close>)
  then show "obs (fst (events_page svc c a b t w)) = obs w"
    by (auto simp: events_page_def split: prod.splits sum.splits)
qed

lemma preserves_plan_calendars [frame]:
  assumes "listing_preserves obs svc"
  shows "preserves obs (plan_calendars svc lib cfg now cals)"
proof (induction cals)
  case Nil
  show ?case unfolding plan_calendars.simps by (rule preserves_pure)
next
  case (Cons cal cals)
  show ?case unfolding plan_calendars.simps by (intro frame assms Cons)
qed

lemma preserves_respond_dry [frame]: "preserves obs (respond_to_decisions svc True cal ds)"
  unfolding respond_to_decisions_def respond_to_decision_def by (intro frame) (simp_all split: option.split)

text \<open>
  Nothing is written before every calendar was read and decided. A dry run writes nothing at
  all; when reading any calendar fails, the run fails with that exception and has written nothing,
  on any calendar.
\<close>

theorem reservations_read_first:
  assumes "listing_preserves obs svc" and "process_calendars svc lib cfg dry_run now w = (w', r)"
  shows "(dry_run \<longrightarrow> obs w' = obs w) \<and>
    (case plan_calendars svc lib cfg now (rc_calendars cfg) w of (w1, Inl e) \<Rightarrow> r = Inl e \<and> obs w' = obs w | _ \<Rightarrow> True)"
proof -
  have plan: "preserves obs (plan_calendars svc lib cfg now (rc_calendars cfg))"
    by (rule preserves_plan_calendars [OF assms(1)])
  have "preserves obs (process_calendars svc lib cfg True now)"
    unfolding process_calendars_def by (intro frame plan) (simp add: preserves_respond_dry split: prod.split)
  moreover have "r = Inl e \<and> obs w' = obs w"
    if "plan_calendars svc lib cfg now (rc_calendars cfg) w = (w1, Inl e)" for w1 e
    using preservesD [OF plan that]
      assms(2) [unfolded process_calendars_def bind_act_Inl [of "plan_calendars svc lib cfg now (rc_calendars cfg)", OF that]]
    by simp
  ultimately show ?thesis using assms(2) by (auto split: prod.split sum.split dest: preservesD)
qed

text \<open>A service whose world is the list of patches; the second calendar cannot be read.\<close>

definition demo_service :: "(string \<times> string) list calendar_service" where
  "demo_service = \<lparr>cs_list = (\<lambda>c _ _ _ w. (w, if c = ''room@x.org'' then Inr (demo_events, None) else Inl (HttpError 404 ''gone'' []))),
     cs_patch = (\<lambda>_ i _ st w. (w @ [(i, st)], Inr ()))\<rparr>"

definition demo_two :: reservation_config where
  "demo_two = demo_reservations\<lparr>rc_calendars := [demo_room, demo_room\<lparr>calendar_id := ''other@x.org''\<rparr>]\<rparr>"

lemma demo_read: "list_events demo_service ''room@x.org'' a b w = (w, Inr demo_events)"
proof -
  have "execute_default (cs_list demo_service ''room@x.org'' a b None) w = (w, Inr (demo_events, None))"
    by (rule execute_success) (simp_all add: demo_service_def)
  then show ?thesis unfolding list_events_def by (intro fetch_all_pages pages.last_page) (simp add: events_page_def)
qed

lemma demo_unread: "list_events demo_service ''other@x.org'' a b w = (w, Inl (GoogleAPIError 404 ''gone''))"
proof -
  have "[0..<nat (attempts default_policy)] = [0, 1, 2]" by (simp add: default_policy_def upt_rec)
  then have "execute_default (cs_list demo_service ''other@x.org'' a b None) w = (w, Inl (GoogleAPIError 404 ''gone''))"
    by (simp add: demo_service_def execute_google_request_def Let_def retry_call_def google_execute_once_def
        default_retry_exceptions_def TRANSIENT_GOOGLE_STATUSES_def)
  then show ?thesis by (simp add: list_events_def fetch_all_def page_loop.simps events_page_def)
qed

theorem reservations_read_first_witness:
  "process_calendars demo_service demo_lib demo_two False 0 [] = ([], Inl (GoogleAPIError 404 ''gone'')) \<and>
   process_calendars demo_service demo_lib demo_reservations True 0 [] = ([], Inr ())"
proof -
  let ?run = "process_calendars demo_service demo_lib demo_two False 0 []"
  let ?dry = "process_calendars demo_service demo_lib demo_reservations True 0 []"
  have obs: "listing_preserves id demo_service" by (simp add: listing_preserves_def demo_service_def)
  have "plan_calendars demo_service demo_lib demo_two 0 (rc_calendars demo_two) [] = ([], Inl (GoogleAPIError 404 ''gone''))"
    by (simp add: demo_two_def demo_reservations_def demo_room_def bind_act_def demo_read demo_unread)
  with reservations_read_first [OF obs, of demo_lib demo_two False 0 "[]" "fst ?run" "snd ?run"]
  have run: "?run = ([], Inl (GoogleAPIError 404 ''gone''))" by (simp add: prod_eq_iff)
  have "snd (run_actions (respond_to_decision demo_service True demo_room) ds w) = Inr ()" for ds w
    by (induction ds) (simp_all add: bind_act_def respond_to_decision_def split: option.split)
  then have "snd ?dry = Inr ()"
    by (simp add: process_calendars_def bind_act_def demo_reservations_def demo_room_def demo_read respond_to_decisions_def
      split: prod.split sum.split) (metis Inl_Inr_False snd_conv)
  with reservations_read_first [OF obs, of demo_lib demo_reservations True 0 "[]" "fst ?dry" "snd ?dry"]
  have "?dry = ([], Inr ())" by (simp add: prod_eq_iff)
  with run show ?thesis by simp
qed

text \<open>
  The notification that patching sends is repeated only when Google rejected the request before
  applying it, at most four times.
\<close>

lemma patch_attempts:
  assumes "patch_attendee_response svc c i st email w = (w', r)"
  shows "\<exists>k < 5. w' = state_after (cs_patch svc c i (if email = [] then c else email) st) (Suc k) w \<and>
    (\<forall>j < k. \<exists>status msg rs. outcome (cs_patch svc c i (if email = [] then c else email) st) j w = Inl (HttpError status msg rs) \<and>
       (status = 429 \<or> set rs \<inter> TRANSIENT_GOOGLE_REASONS \<noteq> {}) \<or>
       (\<exists>status msg. outcome (cs_patch svc c i (if email = [] then c else email) st) j w = Inl (TransientGoogleAPIError status msg)))"
proof -
  let ?req = "cs_patch svc c i (if email = [] then c else email) st"
  let ?f = "google_execute_once {429} TRANSIENT_GOOGLE_REASONS ?req"
  have same: "state_after ?f n v = state_after ?req n v" for n v
    by (induction n arbitrary: v) (simp_all add: fst_google_execute_once)
  obtain w1 dl q where call: "retry_call (Some NOTIFICATION_WRITE_POLICY) only_transient_google (\<lambda>_. 0) ?f w = (w1, dl, q)"
    by (metis prod_cases3)
  have "policy_ok NOTIFICATION_WRITE_POLICY" by (simp add: policy_ok_def NOTIFICATION_WRITE_POLICY_def)
  from retry_call_spec [OF this call] obtain k where k: "k < 5" "w1 = state_after ?f (Suc k) w"
      "\<forall>j<k. retryable only_transient_google (outcome ?f j w)"
    by (auto simp: NOTIFICATION_WRITE_POLICY_def)
  have "w' = w1"
    using assms call fst_execute [of "Some NOTIFICATION_WRITE_POLICY" "Some {429}" "Some TRANSIENT_GOOGLE_REASONS" False ?req w]
    by (simp add: patch_attendee_response_def)
  moreover have "(\<exists>status msg rs. outcome ?req j w = Inl (HttpError status msg rs) \<and>
       (status = 429 \<or> set rs \<inter> TRANSIENT_GOOGLE_REASONS \<noteq> {})) \<or>
       (\<exists>status msg. outcome ?req j w = Inl (TransientGoogleAPIError status msg))" if "j < k" for j
  proof -
    from k(3) that have "retryable only_transient_google (outcome ?f j w)" by blast
    then have "retryable only_transient_google (snd (?f (state_after ?req j w)))" by (simp add: outcome_def same)
    then show ?thesis by (cases "?req (state_after ?req j w)")
      (auto simp: google_execute_once_def retryable_def outcome_def only_transient_google_def split: sum.splits exn.splits if_splits)
  qed
  ultimately show ?thesis using k same by blast
qed

end
