(* ===== verification/PS_Rules_Facts.thy ===== *)
theory PS_Rules_Facts
  imports PS_Rules
begin

text \<open>
  The layered search for the addresses of a family returns the first layer that has any, without
  repetitions.
\<close>

section \<open>Ordered sets of addresses\<close>

lemma add_emails_Cons: "add_emails es (x # xs) = add_emails (if x \<in> set es then es else es @ [x]) xs"
  by (simp add: add_emails_def)

lemma add_emails_append: "add_emails es (xs @ ys) = add_emails (add_emails es xs) ys"
  by (simp add: add_emails_def)

lemma add_emails_Nil [simp]: "add_emails es [] = es"
  by (simp add: add_emails_def)

lemma set_add_emails [simp]: "set (add_emails es xs) = set es \<union> set xs"
  by (induction xs arbitrary: es) (auto simp: add_emails_Cons)

lemma distinct_add_emails [simp]: "distinct es \<Longrightarrow> distinct (add_emails es xs)"
  by (induction xs arbitrary: es) (auto simp: add_emails_Cons)

section \<open>Layers\<close>

definition has_mail :: "member \<Rightarrow> bool" where
  "has_mail m \<longleftrightarrow> member_email_addresses m \<noteq> []"

abbreviation layer_emails :: "member list \<Rightarrow> string list" where
  "layer_emails ms \<equiv> concat (map member_email_addresses ms)"

lemma add_layer:
  "foldl add_layer_member (ms, es) layer = (ms @ filter has_mail layer, add_emails es (layer_emails layer))"
proof (induction layer arbitrary: ms es)
  case (Cons m layer)
  then show ?case by (cases "has_mail m") (simp_all add: add_layer_member_def Let_def has_mail_def add_emails_append)
qed simp

lemma layer_emails_Nil: "layer_emails layer = [] \<longleftrightarrow> filter has_mail layer = []"
  by (auto simp: has_mail_def filter_empty_conv)

lemma add_emails_eq_Nil [simp]: "add_emails [] xs = [] \<longleftrightarrow> xs = []"
  by (metis set_add_emails set_empty Un_empty)

text \<open>The reference: the first layer in which somebody has an address.\<close>

definition first_layer :: "member list list \<Rightarrow> member list" where
  "first_layer layers = (case find (\<lambda>layer. list_ex has_mail layer) layers of None \<Rightarrow> [] | Some layer \<Rightarrow> layer)"

lemma family_workgroup_emails_eq:
  assumes "find (\<lambda>wg. ro_name wg = name) (map snd wgs) = Some target"
    and "rows = workgroup_row_members (dict_of (map (\<lambda>m. (memberDUID m, m)) (family_members ms f)) []) (membership target)"
    and "layer = first_layer [rows, map snd (get_family_heads ms f), family_members ms f]"
  shows "family_workgroup_emails ms f wgs name =
    (filter has_mail layer,
     if list_ex has_mail layer then add_emails [] (layer_emails layer)
     else add_emails [] (map lower (case py_eMailAddresses f of None \<Rightarrow> [] | Some es \<Rightarrow> es)))"
proof -
  have ex: "list_ex has_mail l \<longleftrightarrow> layer_emails l \<noteq> []" for l
    by (auto simp: has_mail_def list_ex_iff)
  have none: "filter has_mail l = []" if "layer_emails l = []" for l using that by (simp only: layer_emails_Nil)
  show ?thesis
    unfolding family_workgroup_emails_def assms(1) option.case Let_def add_layer assms(2) [symmetric]
    by (cases "layer_emails rows = []"; cases "layer_emails (map snd (get_family_heads ms f)) = []";
        cases "layer_emails (family_members ms f) = []")
      (simp_all only: assms(3) first_layer_def find.simps ex none add_emails_eq_Nil add_emails_Nil snd_conv fst_conv append_Nil
        option.case if_True if_False not_True_eq_False not_False_eq_True simp_thms concat.simps list.map)
qed

text \<open>
  The addresses of a family for a workgroup. They come from the first of these layers in which
  anybody has an address: the family's members on the roster, its heads, all its members; failing
  all, from the family record. Every address of that layer is returned, once, and the members
  returned are exactly those of the layer that have one. An unknown workgroup has no addresses.
\<close>

theorem family_workgroup_emails_correct:
  assumes "rows = (case find (\<lambda>wg. ro_name wg = name) (map snd wgs) of
        None \<Rightarrow> []
      | Some target \<Rightarrow> workgroup_row_members (dict_of (map (\<lambda>m. (memberDUID m, m)) (family_members ms f)) []) (membership target))"
    and "layer = first_layer [rows, map snd (get_family_heads ms f), family_members ms f]"
  shows "case family_workgroup_emails ms f wgs name of (members, emails) \<Rightarrow>
    distinct emails \<and>
    (if find (\<lambda>wg. ro_name wg = name) (map snd wgs) = None then members = [] \<and> emails = []
     else members = filter (\<lambda>m. member_email_addresses m \<noteq> []) layer \<and>
       set emails = (if members \<noteq> [] then (\<Union>m\<in>set layer. set (member_email_addresses m))
                     else lower ` set (case py_eMailAddresses f of None \<Rightarrow> [] | Some es \<Rightarrow> es)))"
proof (cases "find (\<lambda>wg. ro_name wg = name) (map snd wgs)")
  case None
  then show ?thesis by (simp add: family_workgroup_emails_def)
next
  case (Some target)
  have "filter has_mail layer = [] \<longleftrightarrow> \<not> list_ex has_mail layer"
    by (auto simp: filter_empty_conv list_ex_iff)
  then show ?thesis
    using family_workgroup_emails_eq [OF Some, of rows ms f layer] assms Some
    by (auto simp: has_mail_def [abs_def])
qed

text \<open>A family of two: the member on the roster has no address, the head has one.\<close>

definition demo_kin :: "int \<Rightarrow> string \<Rightarrow> string option \<Rightarrow> member" where
  "demo_kin k typ email =
     \<lparr>memberDUID = k, m_familyDUID = 1, firstName = ''F'', lastName = ''L'', emailAddress = email,
      py_emailAddresses = map_option (\<lambda>e. [e]) email, memberStatus = Some ''Active'', memberType = Some typ,
      family_PublishPhone = True, family_PublishEMail = True, mobilePhone = None, homePhone = None, py_family = Some 1,
      py_contactInfo = None, py_member_workgroups = [], py_workgroups = [], py_ministries = [], py_friendly_FL = None,
      py_friendly_LF = None, py_active = True\<rparr>"

definition demo_kinsfolk :: members where
  "demo_kinsfolk = [(1, demo_kin 1 ''Child'' None), (2, demo_kin 2 ''Head'' (Some ''head@x.org''))]"

definition demo_home :: family where
  "demo_home =
     \<lparr>f_familyDUID = 1, eMailAddress = None, py_eMailAddresses = Some [''Home@x.org''], registeredOrganizationID = Some 1,
      famGroupID = None, familyGroupID = None, py_family_group = None, py_members = [1, 2], py_family_workgroups = [],
      f_py_workgroups = [], py_pledges = [], py_contributions = []\<rparr>"

definition demo_list_row :: membership_row where
  "demo_list_row = \<lparr>row_memberDUID = Some 1, row_memberId = None, row_familyDUID = None, row_familyId = None, py_member_duid = Some 1,
     py_family_duid = None, row_role = None, row_start = None, row_end = None\<rparr>"

definition demo_rosters :: rosters where
  "demo_rosters = [(7, \<lparr>ro_id = 7, ro_name = ''Business Logistics Email'', membership = [demo_list_row]\<rparr>)]"

theorem family_workgroup_emails_correct_witness:
  "distinct (snd (family_workgroup_emails demo_kinsfolk demo_home demo_rosters ''Business Logistics Email'')) \<and>
   set (snd (family_workgroup_emails demo_kinsfolk demo_home demo_rosters ''Business Logistics Email'')) = {''head@x.org''}"
proof -
  let ?name = "''Business Logistics Email''"
  let ?rows = "case find (\<lambda>wg. ro_name wg = ?name) (map snd demo_rosters) of
        None \<Rightarrow> []
      | Some target \<Rightarrow> workgroup_row_members (dict_of (map (\<lambda>m. (memberDUID m, m)) (family_members demo_kinsfolk demo_home)) []) (membership target)"
  let ?layer = "first_layer [?rows, map snd (get_family_heads demo_kinsfolk demo_home), family_members demo_kinsfolk demo_home]"
  have layer: "?layer = [demo_kin 2 ''Head'' (Some ''head@x.org'')]" by code_simp
  have mail: "member_email_addresses (demo_kin 2 ''Head'' (Some ''head@x.org'')) = [''head@x.org'']" by code_simp
  have found: "find (\<lambda>wg. ro_name wg = ?name) (map snd demo_rosters) \<noteq> None" by (simp add: demo_rosters_def)
  from family_workgroup_emails_correct [OF refl refl, where ms = demo_kinsfolk and f = demo_home and wgs = demo_rosters and name = ?name] found mail
  show ?thesis unfolding layer by (auto split: prod.splits)
qed

end
