(* ===== verification/Civil_Days.thy ===== *)
theory Civil_Days
  imports Dates
begin

text \<open>
  Stepping from day to day, as \<open>date + timedelta(days=1)\<close> does: the next day of the Gregorian
  calendar, an error after the last representable one. Days are numbered by \<open>toordinal\<close>, and
  going to the next day is a well-founded descent towards the last one.
\<close>

definition next_day :: "date \<Rightarrow> date" where
  "next_day d =
     (if day d < days_in_month (year d) (month d) then Date (year d) (month d) (day d + 1)
      else if month d < 12 then Date (year d) (month d + 1) 1
      else Date (year d + 1) 1 1)"

definition add_day :: "date \<Rightarrow> date res" where
  "add_day d = (if year (next_day d) > 9999 then Inl (OtherException ''OverflowError'') else Inr (next_day d))"

definition date_max :: date where
  "date_max = Date 9999 12 31"

definition date_min :: date where
  "date_min = Date 1 1 1"

section \<open>The order of days\<close>

lemmas date_order = less_eq_date_def less_date_def

lemma next_day_greater: "d < next_day d"
  by (auto simp: next_day_def less_date_def)

lemma valid_next_day: "valid_date d \<Longrightarrow> year (next_day d) \<le> 9999 \<Longrightarrow> valid_date (next_day d)"
  using days_in_month_ge_28 [of "year d" "month d + 1"] days_in_month_ge_28 [of "year d + 1" 1]
  by (auto simp: valid_date_def next_day_def split: if_splits)

lemma next_day_least:
  assumes "valid_date e" and "d < e"
  shows "next_day d \<le> e"
  using assms days_in_month_ge_28 [of "year d" "month d"]
  by (cases d; cases e) (auto simp: valid_date_def next_day_def date_order split: if_splits)

lemma add_day_Inr: "add_day d = Inr e \<longleftrightarrow> e = next_day d \<and> year e \<le> 9999"
  by (auto simp: add_day_def)

lemma valid_le_max: "valid_date d \<Longrightarrow> d \<le> date_max"
  using days_in_month_le_31 [of "year d" "month d"] by (auto simp: valid_date_def date_max_def date_order)

text \<open>Only the last representable day has no next day.\<close>

lemma add_day_total:
  assumes "valid_date d" and "d < date_max"
  shows "add_day d = Inr (next_day d) \<and> valid_date (next_day d)"
proof -
  have "year (next_day d) \<le> 9999"
    using assms by (auto simp: valid_date_def date_max_def next_day_def date_order days_in_month_def split: if_splits)
  with assms(1) show ?thesis by (simp add: add_day_def valid_next_day)
qed

lemma add_day_max: "add_day date_max = Inl (OtherException ''OverflowError'')"
  by (simp add: add_day_def date_max_def next_day_def days_in_month_def)

section \<open>Descent\<close>

text \<open>Going to a later day that is not after \<open>e\<close> decreases this measure.\<close>

definition day_rank :: "date \<Rightarrow> (nat \<times> nat \<times> nat)" where
  "day_rank d = (nat (10000 - year d), nat (12 - month d), nat (31 - day d))"

abbreviation rank_less :: "((nat \<times> nat \<times> nat) \<times> (nat \<times> nat \<times> nat)) set" where
  "rank_less \<equiv> less_than <*lex*> (less_than <*lex*> less_than)"

lemma add_day_rank: "add_day d = Inr e \<Longrightarrow> (day_rank e, day_rank d) \<in> rank_less"
  using days_in_month_le_31 [of "year d" "month d"]
  by (auto simp: add_day_Inr next_day_def day_rank_def split: if_splits)

lemma wf_day_rank: "wf (inv_image rank_less day_rank)"
  by (intro wf_inv_image wf_lex_prod wf_less_than)

section \<open>Days of the week within a month\<close>

lemma weekday_in_month: "weekday (Date y m k) = weekday (Date y m d) \<longleftrightarrow> k mod 7 = d mod 7"
proof -
  define c where "c = days_before_year y + days_before_month y m + 6"
  have "weekday (Date y m j) = (j + c) mod 7" for j by (simp add: weekday_def toordinal_def c_def algebra_simps)
  moreover have "(k + c) mod 7 = (d + c) mod 7 \<longleftrightarrow> k mod 7 = d mod 7" by (simp add: mod_eq_dvd_iff)
  ultimately show ?thesis by simp
qed

text \<open>The number of days up to the \<open>d\<close>th of the month that fall on the weekday of the \<open>d\<close>th.\<close>

lemma card_same_weekday:
  assumes "1 \<le> d"
  shows "int (card {k. 1 \<le> k \<and> k \<le> d \<and> weekday (Date y m k) = weekday (Date y m d)}) = (d + 6) div 7"
proof -
  have "{k. 1 \<le> k \<and> k \<le> d \<and> k mod 7 = d mod 7} = (\<lambda>i. d - 7 * i) ` {0..<(d + 6) div 7}"
  proof (intro equalityI subsetI)
    fix k assume k: "k \<in> {k. 1 \<le> k \<and> k \<le> d \<and> k mod 7 = d mod 7}"
    then have "7 dvd d - k" by (metis (mono_tags, lifting) mem_Collect_eq mod_eq_dvd_iff)
    then obtain i where "d - k = 7 * i" by (rule dvdE)
    then have "k = d - 7 * i" by simp
    with k show "k \<in> (\<lambda>i. d - 7 * i) ` {0..<(d + 6) div 7}" by auto
  next
    fix k assume "k \<in> (\<lambda>i. d - 7 * i) ` {0..<(d + 6) div 7}"
    then obtain i where "0 \<le> i" "i < (d + 6) div 7" "k = d - 7 * i" by auto
    then show "k \<in> {k. 1 \<le> k \<and> k \<le> d \<and> k mod 7 = d mod 7}" using assms
      by (auto simp: mod_eq_dvd_iff)
  qed
  moreover have "inj_on (\<lambda>i. d - 7 * i) {0..<(d + 6) div 7}" by (auto simp: inj_on_def)
  ultimately show ?thesis using assms by (simp add: weekday_in_month card_image)
qed

section \<open>Numbering days\<close>

lemma div_step: "0 < k \<Longrightarrow> (y :: int) div k - (y - 1) div k = (if y mod k = 0 then 1 else 0)"
proof -
  assume k: "0 < k"
  have "y - 1 = y div k * k + (y mod k - 1)" by (simp add: mult_div_mod_eq)
  then have "(y - 1) div k = y div k + (y mod k - 1) div k" using k by (metis div_mult_self3 less_irrefl add.commute)
  moreover have "(y mod k - 1) div k = (if y mod k = 0 then - 1 else 0)"
    using k pos_mod_bound [OF k, of y] pos_mod_sign [OF k, of y] by (auto simp: div_pos_pos_trivial zdiv_eq_0_iff div_eq_minus1)
  ultimately show ?thesis by simp
qed

lemma days_before_next_year: "days_before_year (y + 1) = days_before_year y + (if leap_year y then 366 else 365)"
proof -
  have "days_before_year (y + 1) - days_before_year y =
      365 + (y div 4 - (y - 1) div 4) - (y div 100 - (y - 1) div 100) + (y div 400 - (y - 1) div 400)"
    by (simp add: days_before_year_def)
  also have "\<dots> = 365 + (if y mod 4 = 0 then 1 else 0) - (if y mod 100 = 0 then 1 else 0) + (if y mod 400 = 0 then 1 else 0)"
    by (subst (1 2 3) div_step) (simp_all only: zero_less_numeral)
  also have "\<dots> = (if leap_year y then 366 else 365)"
    using mod_mod_cancel [of 4 100 y] mod_mod_cancel [of 100 400 y] unfolding leap_year_def
    by (cases "y mod 4 = 0"; cases "y mod 100 = 0"; cases "y mod 400 = 0") (simp_all only: simp_thms if_True if_False mod_0, simp_all)
  finally show ?thesis by simp
qed

lemma days_before_next_month: "1 \<le> m \<Longrightarrow> days_before_month y (m + 1) = days_before_month y m + days_in_month y m"
proof -
  assume "1 \<le> m"
  then have "[1..<nat (m + 1)] = [1..<nat m] @ [nat m]" "int (nat m) = m" by (simp_all add: nat_add_distrib)
  then show ?thesis by (simp add: days_before_month_def)
qed

lemma days_before_december: "days_before_month y 12 = (if leap_year y then 335 else 334)"
proof -
  have "[1..<nat 12] = [1, 2, 3, 4, 5, 6, 7, 8, 9, 10, 11]" by (simp add: upt_rec)
  then show ?thesis by (simp add: days_before_month_def days_in_month_def)
qed

lemma toordinal_next_day:
  assumes "valid_date d"
  shows "toordinal (next_day d) = toordinal d + 1"
proof -
  consider "day d < days_in_month (year d) (month d)"
    | "day d = days_in_month (year d) (month d)" "month d < 12"
    | "day d = 31" "month d = 12"
  proof -
    have "day d < days_in_month (year d) (month d) \<or> day d = days_in_month (year d) (month d)"
      "month d < 12 \<or> month d = 12" using assms by (auto simp: valid_date_def)
    moreover have "days_in_month (year d) 12 = 31" by (simp add: days_in_month_def)
    ultimately show thesis using that by metis
  qed
  then show ?thesis
  proof cases
    case 2
    then show ?thesis using assms days_before_next_month [of "month d" "year d"]
      by (simp add: toordinal_def next_day_def valid_date_def)
  next
    case 3
    then show ?thesis using days_before_next_year [of "year d"] days_before_december [of "year d"]
      by (simp add: toordinal_def next_day_def days_in_month_def days_before_month_def)
  qed (simp add: toordinal_def next_day_def)
qed

text \<open>Later days have greater numbers, and every number between those of two days is that of a day.\<close>

lemma toordinal_less:
  assumes "valid_date d" and "valid_date x" and "d < x"
  shows "toordinal d < toordinal x"
  using assms
proof (induction d rule: wf_induct_rule [OF wf_day_rank])
  case (1 d)
  have le: "next_day d \<le> x" by (rule next_day_least [OF 1(3,4)])
  have "d < date_max" using 1(4) valid_le_max [OF 1(3)] by simp
  note nd = add_day_total [OF 1(2) this]
  show ?case
  proof (cases "next_day d = x")
    case True
    then show ?thesis using toordinal_next_day [OF 1(2)] by simp
  next
    case False
    then have "toordinal (next_day d) < toordinal x"
      using 1(1) [of "next_day d"] nd add_day_rank [of d "next_day d"] 1(3) le by (simp add: in_inv_image)
    then show ?thesis using toordinal_next_day [OF 1(2)] by simp
  qed
qed

lemma day_between:
  assumes "valid_date d" and "valid_date x" and "d \<le> x" and "int j \<le> toordinal x - toordinal d"
  shows "valid_date ((next_day ^^ j) d) \<and> toordinal ((next_day ^^ j) d) = toordinal d + int j \<and> d \<le> (next_day ^^ j) d \<and> (next_day ^^ j) d \<le> x"
  using assms(4)
proof (induction j)
  case (Suc j)
  let ?y = "(next_day ^^ j) d"
  have IH: "valid_date ?y" "toordinal ?y = toordinal d + int j" "d \<le> ?y" "?y \<le> x" using Suc by auto
  have "?y \<noteq> x" using IH(2) Suc.prems by auto
  then have less: "?y < x" using IH(4) by simp
  then have "?y < date_max" using valid_le_max [OF assms(2)] by simp
  from add_day_total [OF IH(1) this] toordinal_next_day [OF IH(1)] IH next_day_greater [of ?y] next_day_least [OF assms(2) less]
  show ?case by (auto intro: order_trans less_imp_le)
qed (use assms in simp)

lemma weekday_next: "valid_date d \<Longrightarrow> valid_date x \<Longrightarrow> (toordinal x - toordinal d) mod 7 = 0 \<Longrightarrow> weekday x = weekday d"
  by (simp add: weekday_def mod_eq_dvd_iff algebra_simps flip: mod_eq_0_iff_dvd)

end
