(* ===== verification/Recurrence.thy ===== *)
theory Recurrence
  imports Civil_Days Config
begin

text \<open>
  \<open>stewardship/campaigns/recurrence.py\<close>: repeating reminder rules as campaign-local dates. A rule
  arrives as an untyped mapping; \<open>checked_rule\<close> is the validation at the beginning of \<open>expand\<close>, in
  the order of its error codes, and \<open>expand_loop\<close> its loop over the days. The loop adds a day
  after the last one it examined, which fails at the end of the calendar.
\<close>

section \<open>Rules\<close>

datatype cadence =
    Daily
  | Weekly "int list"
  | Monthly_day int
  | Monthly_weekday int int

definition SPAN_DAYS :: int where
  "SPAN_DAYS = 366"

definition ORDINALS :: "int list" where
  "ORDINALS = [1, 2, 3, 4, -1]"

text \<open>
  \<open>date.fromisoformat\<close> followed by the comparison with \<open>isoformat\<close> accepts exactly the ISO text of
  the valid dates.
\<close>

definition day_of :: "pyval \<Rightarrow> date option" where
  "day_of v =
     (case v of
        PStr s \<Rightarrow>
          (case map parse_nat (split_on CHR ''-'' s) of
             [Some y, Some m, Some d] \<Rightarrow>
               (let e = Date (int y) (int m) (int d)
                in if valid_date e \<and> isoformat e = s then Some e else None)
           | _ \<Rightarrow> None)
      | _ \<Rightarrow> None)"

definition index_ok :: "pyval \<Rightarrow> int \<Rightarrow> int \<Rightarrow> bool" where
  "index_ok v low high \<longleftrightarrow> (case v of PInt i \<Rightarrow> low \<le> i \<and> i \<le> high | _ \<Rightarrow> False)"

fun int_of :: "pyval \<Rightarrow> int" where
  "int_of (PInt i) = i"
| "int_of _ = 0"

definition weekdays_ok :: "pyval \<Rightarrow> bool" where
  "weekdays_ok v \<longleftrightarrow> (case v of PList vs \<Rightarrow> vs \<noteq> [] \<and> list_all (\<lambda>x. index_ok x 0 6) vs | _ \<Rightarrow> False)"

definition weekdays_of :: "pyval \<Rightarrow> int list" where
  "weekdays_of v = (case v of PList vs \<Rightarrow> map int_of vs | _ \<Rightarrow> [])"

definition monthly_of :: "pyval \<Rightarrow> mapping_value" where
  "monthly_of v = (case v of PDict d \<Rightarrow> d | _ \<Rightarrow> [])"

definition has_key :: "mapping_value \<Rightarrow> string \<Rightarrow> bool" where
  "has_key d k \<longleftrightarrow> map_of d k \<noteq> None"

definition by_day :: "mapping_value \<Rightarrow> bool" where
  "by_day monthly \<longleftrightarrow> index_ok (dget_none monthly ''day'') 1 31"

definition by_weekday :: "mapping_value \<Rightarrow> bool" where
  "by_weekday monthly \<longleftrightarrow>
     (case dget_none monthly ''ordinal'' of PInt i \<Rightarrow> i \<in> set ORDINALS | _ \<Rightarrow> False) \<and>
     index_ok (dget_none monthly ''weekday'') 0 6"

definition mixed :: "mapping_value \<Rightarrow> bool" where
  "mixed monthly \<longleftrightarrow> has_key monthly ''day'' \<and> (has_key monthly ''ordinal'' \<or> has_key monthly ''weekday'')"

definition cadence_of :: "mapping_value \<Rightarrow> string + cadence" where
  "cadence_of rule =
     (let frequency = dget_none rule ''frequency''; weekdays = dget_none rule ''weekdays'';
          monthly = monthly_of (dget_none rule ''monthly'')
      in if frequency = PStr ''weekly'' \<and> \<not> weekdays_ok weekdays then Inl ''weekdays''
         else if frequency = PStr ''monthly'' \<and> (mixed monthly \<or> \<not> (by_day monthly \<or> by_weekday monthly)) then Inl ''monthly''
         else if frequency = PStr ''daily'' then Inr Daily
         else if frequency = PStr ''weekly'' then Inr (Weekly (weekdays_of weekdays))
         else if frequency = PStr ''monthly'' then
           Inr (if by_day monthly then Monthly_day (int_of (dget_none monthly ''day''))
                else Monthly_weekday (int_of (dget_none monthly ''ordinal'')) (int_of (dget_none monthly ''weekday'')))
         else Inl ''frequency'')"

definition rule_mapping :: "pyval \<Rightarrow> mapping_value" where
  "rule_mapping rule = (case rule of PDict d \<Rightarrow> d | _ \<Rightarrow> [])"

definition checked_rule :: "pyval \<Rightarrow> string + (date \<times> date \<times> cadence)" where
  "checked_rule rule =
     (let d = rule_mapping rule
      in case (day_of (dget_none d ''start''), day_of (dget_none d ''end'')) of
           (Some s, Some e) \<Rightarrow>
             if e < s then Inl ''order''
             else if toordinal e - toordinal s \<ge> SPAN_DAYS then Inl ''span''
             else bind_res (cadence_of d) (\<lambda>c. Inr (s, e, c))
         | _ \<Rightarrow> Inl ''dates'')"

section \<open>Expansion\<close>

definition on_day :: "cadence \<Rightarrow> date \<Rightarrow> bool" where
  "on_day c d =
     (case c of
        Daily \<Rightarrow> True
      | Weekly chosen \<Rightarrow> weekday d \<in> set chosen
      | Monthly_day k \<Rightarrow> day d = k
      | Monthly_weekday ord wd \<Rightarrow>
          weekday d = wd \<and>
          (if ord = -1 then day d + 7 > days_in_month (year d) (month d) else (day d + 6) div 7 = ord))"

text \<open>The last day of a month stands for a chosen day the month does not have.\<close>

definition stands_for_missing :: "cadence \<Rightarrow> date \<Rightarrow> bool" where
  "stands_for_missing c d =
     (case c of
        Monthly_day k \<Rightarrow> day d = days_in_month (year d) (month d) \<and> k > days_in_month (year d) (month d)
      | _ \<Rightarrow> False)"

function expand_loop :: "cadence \<Rightarrow> date \<Rightarrow> date \<Rightarrow> (date list \<times> string list) res" where
  "expand_loop c e d =
     (if d \<le> e then
        bind_res (add_day d) (\<lambda>d'.
        bind_res (expand_loop c e d') (\<lambda>(ds, ms).
        Inr (if on_day c d then d # ds else ds,
             if stands_for_missing c d then take 7 (isoformat d) # ms else ms)))
      else Inr ([], []))"
  by pat_completeness auto
termination
  by (relation "inv_image rank_less (\<lambda>(c, e, d). day_rank d)")
    (auto intro: wf_inv_image add_day_rank simp: in_inv_image)

declare expand_loop.simps [simp del]

datatype expansion =
    Rule_error string
  | Expanded "string list" "string list"

definition expand :: "pyval \<Rightarrow> expansion res" where
  "expand rule =
     (case checked_rule rule of
        Inl code \<Rightarrow> Inr (Rule_error code)
      | Inr (s, e, c) \<Rightarrow>
          bind_res (expand_loop c e s) (\<lambda>(ds, ms). Inr (Expanded (map isoformat ds) ms)))"

section \<open>The stored form\<close>

definition canonical_form :: "mapping_value \<Rightarrow> mapping_value" where
  "canonical_form d =
     (let frequency = dget_none d ''frequency'';
          base = [(''frequency'', frequency), (''start'', dget_none d ''start''), (''end'', dget_none d ''end'')];
          monthly = monthly_of (dget_none d ''monthly'')
      in if frequency = PStr ''weekly'' then
           base @ [(''weekdays'', PList (map PInt (sorted_list_of_set (set (weekdays_of (dget_none d ''weekdays''))))))]
         else if frequency = PStr ''monthly'' then
           base @ [(''monthly'', PDict
             (if has_key monthly ''day'' then [(''day'', dget_none monthly ''day'')]
              else [(''ordinal'', dget_none monthly ''ordinal''), (''weekday'', dget_none monthly ''weekday'')]))]
         else base)"

definition canonical_rule :: "pyval \<Rightarrow> mapping_value option res" where
  "canonical_rule rule =
     (case rule of
        PDict d \<Rightarrow>
          bind_res (expand rule) (\<lambda>x. Inr (case x of Rule_error _ \<Rightarrow> None | Expanded _ _ \<Rightarrow> Some (canonical_form d)))
      | _ \<Rightarrow> Inr None)"

end
