(* ===== verification/Recurrence_Facts.thy ===== *)
theory Recurrence_Facts
  imports Recurrence
begin

text \<open>
  The expansion of a repeat rule is exactly the set of calendar days the rule describes, in order
  and at most a year's worth, and the stored form of a rule means the same as the rule.
\<close>

section \<open>The loop\<close>

abbreviation days_between :: "date \<Rightarrow> date \<Rightarrow> date set" where
  "days_between s e \<equiv> {x. valid_date x \<and> s \<le> x \<and> x \<le> e}"

lemma days_between_step:
  assumes "valid_date d" and "d \<le> e"
  shows "days_between d e = insert d (days_between (next_day d) e)"
  using assms next_day_least [of _ d] next_day_greater [of d] by (auto simp: order_le_less)

lemma expand_loop_spec:
  assumes "valid_date d" and "valid_date e" and "e < date_max"
  shows "\<exists>ds ms. expand_loop c e d = Inr (ds, ms) \<and> sorted_wrt (<) ds \<and>
    set ds = {x \<in> days_between d e. on_day c x} \<and>
    set ms = (take 7 \<circ> isoformat) ` {x \<in> days_between d e. stands_for_missing c x} \<and>
    int (length ds) \<le> (if d \<le> e then toordinal e - toordinal d + 1 else 0)"
  using assms
proof (induction c e d rule: expand_loop.induct)
  case (1 c e d)
  show ?case
  proof (cases "d \<le> e")
    case True
    have next_ok: "add_day d = Inr (next_day d)" "valid_date (next_day d)"
      using add_day_total [OF 1(2)] True 1(4) by auto
    obtain ds ms where IH: "expand_loop c e (next_day d) = Inr (ds, ms)" "sorted_wrt (<) ds"
      "set ds = {x \<in> days_between (next_day d) e. on_day c x}"
      "set ms = (take 7 \<circ> isoformat) ` {x \<in> days_between (next_day d) e. stands_for_missing c x}"
      "int (length ds) \<le> (if next_day d \<le> e then toordinal e - toordinal (next_day d) + 1 else 0)"
      using 1(1) [OF True next_ok(1) next_ok(2) 1(3,4)] by blast
    have "\<forall>x\<in>set ds. d < x" using IH(3) next_day_greater [of d] by auto
    moreover have "toordinal d \<le> toordinal e" if "\<not> next_day d \<le> e"
      using that True next_day_least [OF 1(3), of d] by (auto simp: order_le_less)
    ultimately show ?thesis
      using IH True toordinal_next_day [OF 1(2)] unfolding days_between_step [OF 1(2) True]
      by (subst expand_loop.simps) (auto simp: next_ok split: if_splits)
  next
    case False
    then show ?thesis by (subst expand_loop.simps) auto
  qed
qed

lemma expand_loop_overflow:
  assumes "valid_date d"
  shows "expand_loop c date_max d = Inl (OtherException ''OverflowError'')"
  using assms
proof (induction c date_max d rule: expand_loop.induct)
  case (1 c d)
  have le: "d \<le> date_max" by (rule valid_le_max [OF 1(2)])
  show ?case
  proof (cases "d = date_max")
    case True
    then show ?thesis by (subst expand_loop.simps) (simp add: add_day_max)
  next
    case False
    then have "d < date_max" using le by simp
    note nd = add_day_total [OF 1(2) this]
    then have "expand_loop c date_max (next_day d) = Inl (OtherException ''OverflowError'')" using 1(1) [OF le] by blast
    then show ?thesis using nd le by (subst expand_loop.simps) simp
  qed
qed

section \<open>What a rule describes\<close>

text \<open>
  The days of a rule, in calendar terms: the first, second, third or fourth Monday is the Monday
  that many Mondays of the month reach up to, and the last one is followed by no other.
\<close>

definition falls_on :: "cadence \<Rightarrow> date \<Rightarrow> bool" where
  "falls_on c d \<longleftrightarrow>
     (case c of
        Daily \<Rightarrow> True
      | Weekly chosen \<Rightarrow> weekday d \<in> set chosen
      | Monthly_day k \<Rightarrow> day d = k
      | Monthly_weekday ord wd \<Rightarrow>
          weekday d = wd \<and>
          (if ord = -1
           then {k. day d < k \<and> k \<le> days_in_month (year d) (month d) \<and> weekday (Date (year d) (month d) k) = wd} = {}
           else int (card {k. 1 \<le> k \<and> k \<le> day d \<and> weekday (Date (year d) (month d) k) = wd}) = ord))"

lemma last_weekday:
  assumes "1 \<le> d" and "d \<le> n"
  shows "{k. d < k \<and> k \<le> n \<and> weekday (Date y m k) = weekday (Date y m d)} = {} \<longleftrightarrow> d + 7 > (n :: int)"
proof
  assume none: "{k. d < k \<and> k \<le> n \<and> weekday (Date y m k) = weekday (Date y m d)} = {}"
  have "weekday (Date y m (d + 7)) = weekday (Date y m d)" by (simp add: weekday_in_month)
  then have "d + 7 \<in> {k. d < k \<and> k \<le> n \<and> weekday (Date y m k) = weekday (Date y m d)}" if "d + 7 \<le> n" using that by simp
  then show "d + 7 > n" unfolding none by fastforce
next
  assume "d + 7 > n"
  then show "{k. d < k \<and> k \<le> n \<and> weekday (Date y m k) = weekday (Date y m d)} = {}"
    by (auto simp: weekday_in_month mod_eq_dvd_iff dest!: zdvd_imp_le)
qed

lemma on_day_falls: "valid_date d \<Longrightarrow> on_day c d \<longleftrightarrow> falls_on c d"
proof (cases c)
  case (Monthly_weekday ord wd)
  assume v: "valid_date d"
  have d: "Date (year d) (month d) (day d) = d" by simp
  have "1 \<le> day d" "day d \<le> days_in_month (year d) (month d)" using v by (simp_all add: valid_date_def)
  note count = card_same_weekday [OF this(1), of "year d" "month d"] and final = last_weekday [OF this, of "year d" "month d"]
  show ?thesis
  proof (cases "weekday d = wd")
    case True
    then show ?thesis using count final unfolding d Monthly_weekday on_day_def falls_on_def cadence.case by simp
  qed (simp add: on_day_def falls_on_def Monthly_weekday)
qed (simp_all add: on_day_def falls_on_def)

lemma day_of_Some: "day_of v = Some d \<Longrightarrow> valid_date d \<and> v = PStr (isoformat d)"
  by (auto simp: day_of_def Let_def split: pyval.splits list.splits option.splits if_splits)

lemma day_of_isoformat:
  assumes "valid_date d"
  shows "day_of (PStr (isoformat d)) = Some d"
proof -
  have "Date (int (nat (year d))) (int (nat (month d))) (int (nat (day d))) = d"
    using assms by (cases d) (simp add: valid_date_def)
  then show ?thesis using assms by (simp add: day_of_def isoformat_fields)
qed

lemma checked_rule_Inr:
  assumes "checked_rule rule = Inr (s, e, c)"
  shows "valid_date s" "valid_date e" "s \<le> e" "toordinal e - toordinal s < SPAN_DAYS" "cadence_of (rule_mapping rule) = Inr c"
    "dget_none (rule_mapping rule) ''start'' = PStr (isoformat s)" "dget_none (rule_mapping rule) ''end'' = PStr (isoformat e)"
  using assms by (auto simp: checked_rule_def Let_def dest!: day_of_Some split: option.splits if_splits)

section \<open>Properties\<close>

text \<open>
  C35: the expansion of an accepted repeat rule that ends before the last representable day. The
  loop ends and the dates are, in strictly increasing order and without repetition, exactly
  the valid calendar days between the bounds that the rule describes, at most 366; the months
  named as missing are those whose last day lies in the range and that lack the chosen day.
\<close>

theorem expand_correct:
  assumes "checked_rule rule = Inr (s, e, c)" and "e < date_max"
  shows "\<exists>ds ms. expand rule = Inr (Expanded (map isoformat ds) ms) \<and> sorted_wrt (<) ds \<and> length ds \<le> 366 \<and>
    set ds = {d. valid_date d \<and> s \<le> d \<and> d \<le> e \<and> falls_on c d} \<and>
    set ms = {take 7 (isoformat d) | d k. valid_date d \<and> s \<le> d \<and> d \<le> e \<and> c = Monthly_day k \<and>
      day d = days_in_month (year d) (month d) \<and> days_in_month (year d) (month d) < k}"
proof -
  note r = checked_rule_Inr [OF assms(1)]
  obtain ds ms where loop: "expand_loop c e s = Inr (ds, ms)" "sorted_wrt (<) ds"
    "set ds = {x \<in> days_between s e. on_day c x}"
    "set ms = (take 7 \<circ> isoformat) ` {x \<in> days_between s e. stands_for_missing c x}"
    "int (length ds) \<le> (if s \<le> e then toordinal e - toordinal s + 1 else 0)"
    using expand_loop_spec [OF r(1,2) assms(2), of c] by blast
  have "set ds = {d. valid_date d \<and> s \<le> d \<and> d \<le> e \<and> falls_on c d}" using loop(3) on_day_falls by auto
  moreover have "length ds \<le> 366" using loop(5) r(3,4) by (simp add: SPAN_DAYS_def)
  moreover have "set ms = {take 7 (isoformat d) | d k. valid_date d \<and> s \<le> d \<and> d \<le> e \<and> c = Monthly_day k \<and>
      day d = days_in_month (year d) (month d) \<and> days_in_month (year d) (month d) < k}"
    unfolding loop(4) by (cases c) (auto simp: stands_for_missing_def image_iff)
  ultimately show ?thesis using loop(1,2) assms(1) by (intro exI [of _ ds] exI [of _ ms]) (simp add: expand_def)
qed

text \<open>
  A rule that ends on the last representable day is accepted, but its expansion raises: the loop
  adds a day to the last one it examined.
\<close>

lemma expand_overflow:
  "checked_rule rule = Inr (s, date_max, c) \<Longrightarrow> expand rule = Inl (OtherException ''OverflowError'')"
  using checked_rule_Inr(1) expand_loop_overflow by (simp add: expand_def)

text \<open>The last Friday of each month of a quarter, and the 31st.\<close>

definition demo_rule :: "string \<Rightarrow> mapping_value \<Rightarrow> pyval" where
  "demo_rule freq monthly = PDict [(''frequency'', PStr freq), (''start'', PStr ''2026-01-15''), (''end'', PStr ''2026-03-31''),
     (''weekdays'', PList [PInt 2, PInt 0, PInt 2]), (''monthly'', PDict monthly)]"

abbreviation "demo_last_friday \<equiv> demo_rule ''monthly'' [(''ordinal'', PInt (- 1)), (''weekday'', PInt 4)]"

theorem expand_correct_witness:
  "checked_rule demo_last_friday = Inr (Date 2026 1 15, Date 2026 3 31, Monthly_weekday (- 1) 4) \<and>
   (\<exists>ds ms. expand demo_last_friday = Inr (Expanded (map isoformat ds) ms) \<and> Date 2026 2 27 \<in> set ds)"
proof -
  have rule: "checked_rule demo_last_friday = Inr (Date 2026 1 15, Date 2026 3 31, Monthly_weekday (- 1) 4)" by code_simp
  have "on_day (Monthly_weekday (- 1) 4) (Date 2026 2 27)" "valid_date (Date 2026 2 27)" by code_simp+
  moreover have "Date 2026 3 31 < date_max" by code_simp
  ultimately show ?thesis using expand_correct [OF rule] rule on_day_falls by (force simp: date_order)
qed

section \<open>The stored form\<close>

lemma expand_loop_cong:
  assumes "\<And>d. on_day c d = on_day c' d" and "\<And>d. stands_for_missing c d = stands_for_missing c' d"
  shows "expand_loop c e d = expand_loop c' e d"
  using assms
proof (induction c e d rule: expand_loop.induct)
  case (1 c e d)
  then have "bind_res (add_day d) (\<lambda>x. bind_res (expand_loop c e x) k) = bind_res (add_day d) (\<lambda>x. bind_res (expand_loop c' e x) k)"
    if "d \<le> e" for k :: "date list \<times> string list \<Rightarrow> (date list \<times> string list) res"
    using that by (intro bind_res_cong refl) simp
  with 1 show ?case by (subst (1 2) expand_loop.simps) simp
qed

text \<open>The cadence of the stored form: weekdays are sorted, nothing else changes.\<close>

definition sorted_cadence :: "cadence \<Rightarrow> cadence" where
  "sorted_cadence c = (case c of Weekly ws \<Rightarrow> Weekly (sorted_list_of_set (set ws)) | _ \<Rightarrow> c)"

lemma sorted_cadence_idem: "sorted_cadence (sorted_cadence c) = sorted_cadence c"
  by (cases c) (simp_all add: sorted_cadence_def)

lemma expand_loop_sorted: "expand_loop (sorted_cadence c) e d = expand_loop c e d"
  by (rule expand_loop_cong) (cases c; simp add: sorted_cadence_def on_day_def stands_for_missing_def)+

lemma canonical_form_dates:
  "dget_none (canonical_form d) ''start'' = dget_none d ''start''" "dget_none (canonical_form d) ''end'' = dget_none d ''end''"
  "dget_none (canonical_form d) ''frequency'' = dget_none d ''frequency''"
  by (simp_all add: canonical_form_def Let_def dget_def)

lemma index_ok_int: "index_ok x a b \<Longrightarrow> index_ok (PInt (int_of x)) a b"
  by (cases x) (simp_all add: index_ok_def)

lemma weekdays_ok_canonical:
  assumes "weekdays_ok v"
  shows "weekdays_ok (PList (map PInt (sorted_list_of_set (set (weekdays_of v)))))"
proof -
  obtain vs where v: "v = PList vs" "vs \<noteq> []" "list_all (\<lambda>x. index_ok x 0 6) vs"
    using assms by (auto simp: weekdays_ok_def split: pyval.splits)
  have "\<forall>x\<in>set vs. index_ok (PInt (int_of x)) 0 6"
    using v(3) by (auto simp: list_all_iff intro: index_ok_int)
  then show ?thesis using v by (auto simp: weekdays_ok_def weekdays_of_def list_all_iff sorted_list_of_set_eq_Nil_iff)
qed

lemma dget_key: "dget_none d k \<noteq> PNone \<Longrightarrow> has_key d k"
  by (auto simp: dget_def has_key_def split: option.splits)

lemma monthly_canonical:
  assumes "\<not> mixed m" and "by_day m \<or> by_weekday m"
    and "m' = (if has_key m ''day'' then [(''day'', dget_none m ''day'')]
      else [(''ordinal'', dget_none m ''ordinal''), (''weekday'', dget_none m ''weekday'')])"
  shows "\<not> mixed m'" "by_day m' \<longleftrightarrow> by_day m" "by_weekday m' \<or> by_day m'"
    "by_day m \<Longrightarrow> dget_none m' ''day'' = dget_none m ''day''"
    "\<not> by_day m \<Longrightarrow> dget_none m' ''ordinal'' = dget_none m ''ordinal'' \<and> dget_none m' ''weekday'' = dget_none m ''weekday''"
    "has_key m' ''day'' \<longleftrightarrow> has_key m ''day''"
proof -
  have k: "by_day m \<Longrightarrow> has_key m ''day''"
    by (rule dget_key) (auto simp: by_day_def index_ok_def)
  have w: "by_weekday m \<Longrightarrow> has_key m ''ordinal''"
    by (rule dget_key) (auto simp: by_weekday_def)
  have nd: "has_key m ''day'' \<longleftrightarrow> by_day m" using assms(1,2) k w by (auto simp: mixed_def)
  have eq: "dget_none m' ''day'' = (if by_day m then dget_none m ''day'' else PNone)"
    "\<not> by_day m \<Longrightarrow> dget_none m' ''ordinal'' = dget_none m ''ordinal'' \<and> dget_none m' ''weekday'' = dget_none m ''weekday''"
    by (auto simp: assms(3) nd dget_def)
  show "\<not> mixed m'" "has_key m' ''day'' \<longleftrightarrow> has_key m ''day''" by (auto simp: assms(3) mixed_def has_key_def)
  show "by_day m' \<longleftrightarrow> by_day m" using eq(1) by (auto simp: by_day_def index_ok_def)
  then show "by_weekday m' \<or> by_day m'" using assms(2) eq(2) by (auto simp: by_weekday_def)
  show "by_day m \<Longrightarrow> dget_none m' ''day'' = dget_none m ''day''" using eq(1) by simp
  show "\<not> by_day m \<Longrightarrow> dget_none m' ''ordinal'' = dget_none m ''ordinal'' \<and> dget_none m' ''weekday'' = dget_none m ''weekday''"
    by (rule eq(2))
qed

lemma cadence_canonical:
  assumes "cadence_of d = Inr c"
  shows "cadence_of (canonical_form d) = Inr (sorted_cadence c) \<and> canonical_form (canonical_form d) = canonical_form d"
proof -
  let ?m = "monthly_of (dget_none d ''monthly'')"
  consider (daily) "dget_none d ''frequency'' = PStr ''daily''" "c = Daily"
    | (weekly) "dget_none d ''frequency'' = PStr ''weekly''" "weekdays_ok (dget_none d ''weekdays'')"
        "c = Weekly (weekdays_of (dget_none d ''weekdays''))"
    | (monthly) "dget_none d ''frequency'' = PStr ''monthly''" "\<not> mixed ?m" "by_day ?m \<or> by_weekday ?m"
        "c = (if by_day ?m then Monthly_day (int_of (dget_none ?m ''day''))
              else Monthly_weekday (int_of (dget_none ?m ''ordinal'')) (int_of (dget_none ?m ''weekday'')))"
    using assms by (auto simp: cadence_of_def Let_def split: if_splits)
  then show ?thesis
  proof cases
    case daily
    then show ?thesis by (simp add: cadence_of_def canonical_form_def sorted_cadence_def dget_def Let_def)
  next
    case weekly
    have "weekdays_of (PList (map PInt ws)) = ws" for ws by (simp add: weekdays_of_def comp_def)
    then show ?thesis using weekly weekdays_ok_canonical [OF weekly(2)]
      by (simp add: cadence_of_def canonical_form_def sorted_cadence_def dget_def [of "_ # _"] Let_def)
  next
    case monthly
    let ?m' = "if has_key ?m ''day'' then [(''day'', dget_none ?m ''day'')]
      else [(''ordinal'', dget_none ?m ''ordinal''), (''weekday'', dget_none ?m ''weekday'')]"
    note canon = monthly_canonical [OF monthly(2,3) refl]
    have get: "monthly_of (dget_none (canonical_form d) ''monthly'') = ?m'"
      using monthly(1) by (simp add: canonical_form_def dget_def [of "_ # _"] monthly_of_def Let_def)
    have "canonical_form (canonical_form d) = canonical_form d"
      using monthly(1) by (simp add: canonical_form_def dget_def [of "_ # _"] monthly_of_def has_key_def Let_def)
    moreover have "cadence_of (canonical_form d) = Inr c"
      unfolding cadence_of_def Let_def get canonical_form_dates monthly(1)
      using canon monthly(4) by auto
    moreover have "sorted_cadence c = c" using monthly(4) by (simp add: sorted_cadence_def)
    ultimately show ?thesis by simp
  qed
qed

lemma expand_canonical:
  assumes "checked_rule (PDict d) = Inr (s, e, c)"
  shows "expand (PDict (canonical_form d)) = expand (PDict d)"
proof -
  note r = checked_rule_Inr [OF assms, unfolded rule_mapping_def pyval.case]
  have "checked_rule (PDict (canonical_form d)) = Inr (s, e, sorted_cadence c)"
    using cadence_canonical [OF r(5)] r(1-4)
    by (simp add: checked_rule_def rule_mapping_def canonical_form_dates r(6,7) day_of_isoformat)
  then show ?thesis using assms by (simp add: expand_def expand_loop_sorted)
qed

text \<open>
  The stored form of a rule. It expands to the same dates as the rule, and storing it again
  does not change it.
\<close>

theorem canonical_rule_roundtrip:
  assumes "canonical_rule rule = Inr (Some stored)"
  shows "expand (PDict stored) = expand rule \<and> canonical_rule (PDict stored) = Inr (Some stored)"
proof -
  obtain d where rule: "rule = PDict d" using assms by (cases rule) (simp_all add: canonical_rule_def)
  obtain x where x: "expand rule = Inr x" using assms by (auto simp: canonical_rule_def rule)
  then obtain ds ms where ex: "expand rule = Inr (Expanded ds ms)" and stored: "stored = canonical_form d"
    using assms by (cases x) (simp_all add: canonical_rule_def rule)
  obtain s e c where checked: "checked_rule (PDict d) = Inr (s, e, c)"
    using ex rule by (auto simp: expand_def split: sum.splits)
  have same: "expand (PDict stored) = expand rule"
    unfolding stored rule by (rule expand_canonical [OF checked])
  moreover have "canonical_form stored = stored"
    unfolding stored using cadence_canonical [OF checked_rule_Inr(5) [OF checked]] by (simp add: rule_mapping_def)
  ultimately show ?thesis using ex by (simp add: canonical_rule_def)
qed

definition demo_weekly :: "string \<Rightarrow> int list \<Rightarrow> mapping_value" where
  "demo_weekly fin days = [(''frequency'', PStr ''weekly''), (''start'', PStr ''2026-01-15''), (''end'', PStr fin),
     (''weekdays'', PList (map PInt days))]"

theorem canonical_rule_roundtrip_witness:
  "canonical_rule (PDict (demo_weekly ''2026-01-16'' [4, 0, 4])) = Inr (Some (demo_weekly ''2026-01-16'' [0, 4])) \<and>
   expand (PDict (demo_weekly ''2026-01-16'' [0, 4])) = expand (PDict (demo_weekly ''2026-01-16'' [4, 0, 4]))"
proof -
  have r: "canonical_rule (PDict (demo_weekly ''2026-01-16'' [4, 0, 4])) = Inr (Some (demo_weekly ''2026-01-16'' [0, 4]))"
    by code_simp
  from canonical_rule_roundtrip [OF r] r show ?thesis by simp
qed

text \<open>A rule of one day at the end of the calendar raises.\<close>

lemma isoformat_max: "isoformat date_max = ''9999-12-31''"
proof -
  have "show_digit 9 = CHR ''9''" "show_digit 1 = CHR ''1''" "show_digit 2 = CHR ''2''" "show_digit 3 = CHR ''3''" by code_simp+
  then show ?thesis by (simp add: isoformat_def date_max_def show_nat.simps pad_zero_def)
qed

lemma expand_overflow_instance:
  "expand (PDict [(''frequency'', PStr ''daily''), (''start'', PStr ''9999-12-31''), (''end'', PStr ''9999-12-31'')]) =
     Inl (OtherException ''OverflowError'')"
proof (rule expand_overflow)
  have "valid_date date_max" by (simp add: valid_date_def date_max_def days_in_month_def)
  from day_of_isoformat [OF this] show "checked_rule (PDict [(''frequency'', PStr ''daily''), (''start'', PStr ''9999-12-31''),
      (''end'', PStr ''9999-12-31'')]) = Inr (date_max, date_max, Daily)"
    by (simp add: isoformat_max checked_rule_def rule_mapping_def dget_def SPAN_DAYS_def cadence_of_def)
qed

end
