(* ===== verification/Intervals.thy ===== *)
theory Intervals
  imports Civil_Days
begin

text \<open>
  \<open>stewardship/campaigns/intervals.py\<close> and the intervals of \<open>domain.py\<close>: wall times, instants and
  half-open UTC intervals. Instants and wall times are microseconds; a time zone is the parameter
  \<open>zone_info\<close>: the wall time of an instant, the instant of a wall time with either \<open>fold\<close>,
  and the local date of an instant. \<open>zones\<close> maps the name of a zone to it.
\<close>

record zone_info =
  to_wall :: "int \<Rightarrow> int"
  from_wall :: "bool \<Rightarrow> int \<Rightarrow> int"
  wall_date :: "int \<Rightarrow> date"

record utc_interval =
  iv_start :: int
  iv_end :: int

definition utc_interval_of :: "int \<Rightarrow> int \<Rightarrow> utc_interval res" where
  "utc_interval_of s e =
     (if e < s then Inl (ValueError ''interval end must not precede its start'') else Inr \<lparr>iv_start = s, iv_end = e\<rparr>)"

definition iv_contains :: "utc_interval \<Rightarrow> int \<Rightarrow> bool" where
  "iv_contains iv t \<longleftrightarrow> iv_start iv \<le> t \<and> t < iv_end iv"

section \<open>Resolving a wall time\<close>

text \<open>The binary search for the first instant after a gap.\<close>

function gap_search :: "(int \<Rightarrow> int) \<Rightarrow> int \<Rightarrow> int \<Rightarrow> int \<Rightarrow> int" where
  "gap_search wall local low high =
     (if high - low > 1 then
        (let middle = low + (high - low) div 2
         in if wall middle < local then gap_search wall local middle high else gap_search wall local low middle)
      else high)"
  by pat_completeness auto
termination
  by (relation "measure (\<lambda>(wall, local, low, high). nat (high - low))") auto

declare gap_search.simps [simp del]

definition unresolved :: exn where
  "unresolved = ValueError ''Local time cannot be resolved in the supplied timezone.''"

definition resolve_local :: "(string \<Rightarrow> zone_info option) \<Rightarrow> int \<Rightarrow> string \<Rightarrow> int res" where
  "resolve_local zones local timezone =
     (case zones timezone of
        None \<Rightarrow> Inl unresolved
      | Some z \<Rightarrow>
          (let candidates = sorted_list_of_set {from_wall z False local, from_wall z True local};
               valid = filter (\<lambda>i. to_wall z i = local) candidates
           in case valid of
                v # _ \<Rightarrow> Inr v
              | [] \<Rightarrow> (case candidates of [low, high] \<Rightarrow> Inr (gap_search (to_wall z) local low high) | _ \<Rightarrow> Inl unresolved)))"

section \<open>Days and campaigns\<close>

definition day_length :: int where
  "day_length = 86400 * 1000000"

text \<open>\<open>datetime.combine\<close>: the wall time of a day and a time of day.\<close>

definition combine :: "date \<Rightarrow> int \<Rightarrow> int" where
  "combine d t = toordinal d * day_length + t"

definition local_day :: "(string \<Rightarrow> zone_info option) \<Rightarrow> date \<Rightarrow> string \<Rightarrow> utc_interval res" where
  "local_day zones d timezone =
     (if d = date_max then Inl (ValueError ''A date with a representable following day is required.'')
      else bind_res (resolve_local zones (combine d 0) timezone) (\<lambda>s.
           bind_res (add_day d) (\<lambda>d'.
           bind_res (resolve_local zones (combine d' 0) timezone) (\<lambda>e. utc_interval_of s e))))"

definition campaign_interval :: "(string \<Rightarrow> zone_info option) \<Rightarrow> date \<Rightarrow> date \<Rightarrow> string \<Rightarrow> utc_interval res" where
  "campaign_interval zones s e timezone =
     (if e \<le> s then Inl (ValueError ''Campaign end date must be after its start date.'')
      else bind_res (local_day zones s timezone) (\<lambda>first.
           bind_res (local_day zones e timezone) (\<lambda>final. utc_interval_of (iv_start first) (iv_end final))))"

definition prev_day :: "date \<Rightarrow> date" where
  "prev_day d =
     (if day d > 1 then Date (year d) (month d) (day d - 1)
      else if month d > 1 then Date (year d) (month d - 1) (days_in_month (year d) (month d - 1))
      else Date (year d - 1) 12 31)"

definition financial_period_end :: "date \<Rightarrow> date res" where
  "financial_period_end s =
     (if year s = 9999 then Inl (ValueError ''A date with a representable first anniversary is required.'')
      else let same = Date (year s + 1) (month s) (day s)
           in Inr (prev_day (if valid_date same then same else Date (year s + 1) (month s) 28)))"

section \<open>The search\<close>

lemma gap_search_spec:
  assumes "low < t" and "t \<le> high" and "\<forall>i. low \<le> i \<and> i \<le> high \<longrightarrow> (wall i < local \<longleftrightarrow> i < t)"
  shows "gap_search wall local low high = t"
  using assms
proof (induction wall local low high rule: gap_search.induct)
  case (1 wall local low high)
  show ?case
  proof (cases "high - low > 1")
    case True
    define middle where "middle = low + (high - low) div 2"
    have m: "low < middle" "middle < high" using True by (simp_all add: middle_def)
    show ?thesis
    proof (cases "wall middle < local")
      case below: True
      then have "middle < t" using 1(5) m by simp
      then have "gap_search wall local middle high = t"
        using 1(1) [OF True refl, folded middle_def, OF below] 1(4,5) m by simp
      then show ?thesis using True below by (subst gap_search.simps) (simp add: middle_def Let_def)
    next
      case above: False
      then have "t \<le> middle" using 1(5) m by (meson not_le_imp_less order_less_imp_le)
      then have "gap_search wall local low middle = t"
        using 1(2) [OF True refl, folded middle_def, OF above] 1(3,5) m by simp
      then show ?thesis using True above by (subst gap_search.simps) (simp add: middle_def Let_def)
    qed
  next
    case False
    then have "high = t" using 1(3,4) by simp
    then show ?thesis using False by (subst gap_search.simps) simp
  qed
qed

text \<open>
  What a time zone promises (PEP 495): every instant that shows a wall time is one of its two
  readings; when none shows it, the two readings enclose the instant at which the clock jumps
  over it.
\<close>

definition zone_laws :: "zone_info \<Rightarrow> bool" where
  "zone_laws z \<longleftrightarrow>
     (\<forall>i. i \<in> {from_wall z False (to_wall z i), from_wall z True (to_wall z i)}) \<and>
     (\<forall>local. (\<nexists>i. to_wall z i = local) \<longrightarrow>
        (let low = min (from_wall z False local) (from_wall z True local);
             high = max (from_wall z False local) (from_wall z True local)
         in \<exists>t. low < t \<and> t \<le> high \<and> (\<forall>i. low \<le> i \<and> i \<le> high \<longrightarrow> (to_wall z i < local \<longleftrightarrow> i < t))))"

lemma sorted_pair: "sorted_list_of_set {a, b :: int} = (if a = b then [a] else [min a b, max a b])"
  by (auto simp: min_def max_def)

lemma resolve_shown:
  assumes z: "zones name = Some z" "zone_laws z" and i: "to_wall z i = local"
  shows "\<exists>t. resolve_local zones local name = Inr t \<and> to_wall z t = local \<and> t \<le> i"
proof -
  let ?cs = "sorted_list_of_set {from_wall z False local, from_wall z True local}"
  let ?valid = "filter (\<lambda>i. to_wall z i = local) ?cs"
  have "i \<in> {from_wall z False (to_wall z i), from_wall z True (to_wall z i)}" using z(2) unfolding zone_laws_def by blast
  then have "i \<in> set ?valid" unfolding i by (simp add: i del: sorted_list_of_set_insert_remove)
  then have "?valid \<noteq> []" by (metis empty_iff empty_set)
  then obtain v vs where v: "?valid = v # vs" by (meson neq_Nil_conv)
  have "sorted ?valid" by (rule sorted_wrt_filter) (rule sorted_list_of_set(2))
  then have "v \<le> i" using \<open>i \<in> set ?valid\<close> unfolding v by auto
  moreover have "to_wall z v = local"
    using arg_cong [OF v, of set] by (auto simp del: sorted_list_of_set_insert_remove)
  ultimately show ?thesis using z(1) v by (simp add: resolve_local_def Let_def)
qed

lemma resolve_gap:
  assumes z: "zones name = Some z" "zone_laws z" and none: "\<nexists>i. to_wall z i = local"
  shows "\<exists>t. resolve_local zones local name = Inr t \<and> local < to_wall z t \<and> to_wall z (t - 1) < local"
proof -
  let ?low = "min (from_wall z False local) (from_wall z True local)"
  let ?high = "max (from_wall z False local) (from_wall z True local)"
  obtain t where t: "?low < t" "t \<le> ?high" and jump: "\<forall>i. ?low \<le> i \<and> i \<le> ?high \<longrightarrow> (to_wall z i < local \<longleftrightarrow> i < t)"
    using z(2) none unfolding zone_laws_def Let_def by blast
  have ne: "from_wall z False local \<noteq> from_wall z True local" using t by auto
  have "filter (\<lambda>i. to_wall z i = local) xs = []" for xs using none by (auto simp: filter_empty_conv)
  then have "resolve_local zones local name = Inr (gap_search (to_wall z) local ?low ?high)"
    using z(1) ne by (simp add: resolve_local_def sorted_pair Let_def del: sorted_list_of_set_insert_remove)
  moreover have "\<not> to_wall z t < local" "to_wall z (t - 1) < local"
    using jump t by (auto dest!: spec)
  moreover have "to_wall z t \<noteq> local" using none by blast
  ultimately show ?thesis using gap_search_spec [OF t jump] by (intro exI [of _ t]) auto
qed

section \<open>Neighbouring days\<close>

lemma prev_day_ok:
  assumes "valid_date d" and "date_min < d"
  shows "valid_date (prev_day d) \<and> next_day (prev_day d) = d \<and> prev_day d < d"
proof -
  have "1 < year d \<or> 1 < month d \<or> 1 < day d" using assms by (auto simp: date_min_def less_date_def)
  moreover have "days_in_month y 12 = 31" for y by (simp add: days_in_month_def)
  ultimately show ?thesis
    using assms(1) days_in_month_ge_28 [of "year d" "month d - 1"]
    by (cases d) (auto simp: valid_date_def prev_day_def next_day_def less_date_def split: if_splits)
qed

lemma toordinal_prev_day:
  "valid_date d \<Longrightarrow> date_min < d \<Longrightarrow> toordinal (prev_day d) = toordinal d - 1"
  using prev_day_ok [of d] toordinal_next_day [of "prev_day d"] by auto

lemma valid_ge_min: "valid_date d \<Longrightarrow> date_min \<le> d"
  by (auto simp: valid_date_def date_min_def less_eq_date_def)

section \<open>Properties\<close>

text \<open>
  C36: resolving a wall time in a known zone always ends with an instant. When the clock shows the
  wall time at all, it is the first instant at which it does; when the clock jumps over it, it is
  the microsecond of the jump.
\<close>

theorem resolve_local_correct:
  assumes "zones name = Some z" and "zone_laws z"
  shows "\<exists>t. resolve_local zones local name = Inr t \<and>
    (if \<exists>i. to_wall z i = local then to_wall z t = local \<and> (\<forall>i. to_wall z i = local \<longrightarrow> t \<le> i)
     else local < to_wall z t \<and> to_wall z (t - 1) < local)"
proof (cases "\<exists>i. to_wall z i = local")
  case True
  then obtain i where i: "to_wall z i = local" by blast
  obtain t where t: "resolve_local zones local name = Inr t" "to_wall z t = local" using resolve_shown [of zones name z i local, OF assms i] by blast
  have "t \<le> j" if "to_wall z j = local" for j using resolve_shown [of zones name z j local, OF assms that] t by auto
  then show ?thesis using t True by auto
next
  case False
  then show ?thesis using resolve_gap [of zones name z local, OF assms False] by auto
qed

text \<open>A zone that jumps one hour ahead at instant 0.\<close>

definition hour :: int where
  "hour = 3600 * 1000000"

definition demo_zone :: zone_info where
  "demo_zone = \<lparr>to_wall = (\<lambda>i. if i < 0 then i else i + hour),
     from_wall = (\<lambda>fold w. if w < 0 then w else if w \<ge> hour then w - hour else if fold then w - hour else w),
     wall_date = (\<lambda>_. Date 2026 1 1)\<rparr>"

lemma demo_zone_gap: "\<nexists>i. to_wall demo_zone i = w \<Longrightarrow> 0 \<le> w \<and> w < hour"
proof -
  assume "\<nexists>i. to_wall demo_zone i = w"
  then have "to_wall demo_zone w \<noteq> w" "to_wall demo_zone (w - hour) \<noteq> w" by auto
  then show ?thesis by (auto simp: demo_zone_def split: if_splits)
qed

lemma demo_zone_laws: "zone_laws demo_zone"
proof -
  have "\<exists>t. min (from_wall demo_zone False w) (from_wall demo_zone True w) < t \<and>
      t \<le> max (from_wall demo_zone False w) (from_wall demo_zone True w) \<and>
      (\<forall>i. min (from_wall demo_zone False w) (from_wall demo_zone True w) \<le> i \<and>
         i \<le> max (from_wall demo_zone False w) (from_wall demo_zone True w) \<longrightarrow> (to_wall demo_zone i < w \<longleftrightarrow> i < t))"
    if "\<nexists>i. to_wall demo_zone i = w" for w
    using demo_zone_gap [OF that] by (intro exI [of _ 0]) (auto simp: demo_zone_def hour_def)
  moreover have "i \<in> {from_wall demo_zone False (to_wall demo_zone i), from_wall demo_zone True (to_wall demo_zone i)}" for i
    by (simp add: demo_zone_def hour_def)
  ultimately show ?thesis unfolding zone_laws_def Let_def by blast
qed

theorem resolve_local_correct_witness:
  "\<exists>t. resolve_local (\<lambda>_. Some demo_zone) 1000000 ''Zone'' = Inr t \<and> 1000000 < to_wall demo_zone t \<and> to_wall demo_zone (t - 1) < 1000000"
proof -
  have "\<nexists>i. to_wall demo_zone i = 1000000" by (auto simp: demo_zone_def hour_def)
  then show ?thesis using resolve_local_correct [of "\<lambda>_. Some demo_zone" "''Zone''" demo_zone 1000000] demo_zone_laws by auto
qed

end
