(* ===== verification/Schedule_Eval.thy ===== *)
theory Schedule_Eval
  imports Intervals
begin

text \<open>
  \<open>stewardship/campaigns/schedule_evaluation.py\<close>: the slots of a campaign's mailings. A Family
  mailing sends once; a report email sends once or repeats, less skipped dates, pauses and civil
  days without moments. Evaluation examines candidate send dates in order; \<open>zones\<close> is the
  parameter of theory \<open>Intervals\<close>.
\<close>

section \<open>Data\<close>

record schedule_slot =
  sl_key :: string
  sl_date :: date
  sl_due :: int

record schedule_page =
  pg_slots :: "schedule_slot list"
  pg_cursor :: "date option"
  pg_exhausted :: bool

record schedule_plan =
  one_time_due :: int
  one_time_date :: date

text \<open>The one-time date, or the frequency, weekdays and bounds of a repeating report.\<close>

datatype send_rule =
    Once date
  | Repeat string "int list" date "date option"

record report_plan =
  rp_timezone :: string
  rp_time :: int
  rp_rule :: send_rule
  rp_offset :: nat
  rp_skipped :: "date list"
  rp_pauses :: "(int \<times> int option) list"

section \<open>One-time mailings\<close>

definition check_page :: "int \<Rightarrow> unit res" where
  "check_page limit =
     guard_res (1 \<le> limit \<and> limit \<le> 1000) (ValueError ''Schedule evaluation requires a UTC cutoff and bounded cursor.'')"

definition once_slot :: "schedule_plan \<Rightarrow> schedule_slot" where
  "once_slot p = \<lparr>sl_key = ''once'', sl_date = one_time_date p, sl_due = one_time_due p\<rparr>"

definition once_page :: "schedule_plan \<Rightarrow> int \<Rightarrow> date option \<Rightarrow> int \<Rightarrow> schedule_page res" where
  "once_page p through after limit =
     bind_res (check_page limit) (\<lambda>_. Inr
       (if (case after of None \<Rightarrow> False | Some a \<Rightarrow> one_time_date p \<le> a) \<or> one_time_due p > through
        then \<lparr>pg_slots = [], pg_cursor = after, pg_exhausted = True\<rparr>
        else \<lparr>pg_slots = [once_slot p], pg_cursor = Some (one_time_date p), pg_exhausted = True\<rparr>))"

definition once_next_slot :: "schedule_plan \<Rightarrow> int \<Rightarrow> schedule_slot option" where
  "once_next_slot p after = (if one_time_due p \<le> after then None else Some (once_slot p))"

section \<open>Candidates of a report\<close>

definition past_last :: "date option \<Rightarrow> date \<Rightarrow> bool" where
  "past_last final d \<longleftrightarrow> (case final of None \<Rightarrow> False | Some l \<Rightarrow> l < d)"

definition candidate :: "report_plan \<Rightarrow> date \<Rightarrow> bool" where
  "candidate p send =
     (case rp_rule p of
        Once d \<Rightarrow> send = d
      | Repeat freq ws first final \<Rightarrow>
          if send < first \<or> past_last final send then False
          else freq = ''daily'' \<or> weekday send \<in> set ws)"

text \<open>The days after \<open>d\<close>, at most \<open>n\<close> of them, until the calendar or the rule ends.\<close>

fun search_candidate :: "report_plan \<Rightarrow> date option \<Rightarrow> nat \<Rightarrow> date \<Rightarrow> date option" where
  "search_candidate p final 0 d = None"
| "search_candidate p final (Suc n) d =
     (case add_day d of
        Inl _ \<Rightarrow> None
      | Inr d' \<Rightarrow>
          if past_last final d' then None
          else if candidate p d' then Some d'
          else search_candidate p final n d')"

definition next_send :: "report_plan \<Rightarrow> date \<Rightarrow> date option" where
  "next_send p send =
     (case rp_rule p of
        Once d \<Rightarrow> if send < d then Some d else None
      | Repeat freq ws first final \<Rightarrow> search_candidate p final 7 (if send < first then prev_day first else send))"

definition slot_date :: "report_plan \<Rightarrow> date \<Rightarrow> date" where
  "slot_date p send = (prev_day ^^ rp_offset p) send"

definition due :: "(string \<Rightarrow> zone_info option) \<Rightarrow> report_plan \<Rightarrow> date \<Rightarrow> int res" where
  "due zones p send = resolve_local zones (combine send (rp_time p)) (rp_timezone p)"

definition report_one_time_due :: "(string \<Rightarrow> zone_info option) \<Rightarrow> report_plan \<Rightarrow> int option res" where
  "report_one_time_due zones p =
     (case rp_rule p of Once d \<Rightarrow> bind_res (due zones p d) (\<lambda>t. Inr (Some t)) | Repeat _ _ _ _ \<Rightarrow> Inr None)"

definition paused :: "report_plan \<Rightarrow> int \<Rightarrow> bool" where
  "paused p t \<longleftrightarrow> list_ex (\<lambda>(s, e). s \<le> t \<and> (case e of None \<Rightarrow> True | Some x \<Rightarrow> t < x)) (rp_pauses p)"

definition paused_for_good :: "report_plan \<Rightarrow> int \<Rightarrow> bool" where
  "paused_for_good p t \<longleftrightarrow> list_ex (\<lambda>(s, e). e = None \<and> s \<le> t) (rp_pauses p)"

definition is_daily :: "report_plan \<Rightarrow> bool" where
  "is_daily p \<longleftrightarrow> (case rp_rule p of Once _ \<Rightarrow> False | Repeat freq _ _ _ \<Rightarrow> freq = ''daily'')"

definition sends :: "(string \<Rightarrow> zone_info option) \<Rightarrow> report_plan \<Rightarrow> date \<Rightarrow> int \<Rightarrow> bool res" where
  "sends zones p send t =
     (let slot = slot_date p send
      in if slot \<in> set (rp_skipped p) \<or> paused p t then Inr False
         else if is_daily p then bind_res (local_day zones slot (rp_timezone p)) (\<lambda>iv. Inr (iv_start iv < iv_end iv))
         else Inr True)"

definition slot_of :: "report_plan \<Rightarrow> date \<Rightarrow> int \<Rightarrow> schedule_slot" where
  "slot_of p send t = \<lparr>sl_key = isoformat (slot_date p send), sl_date = slot_date p send, sl_due = t\<rparr>"

section \<open>Pages\<close>

fun page_slots ::
  "(string \<Rightarrow> zone_info option) \<Rightarrow> report_plan \<Rightarrow> int \<Rightarrow> nat \<Rightarrow> date option \<Rightarrow> date option \<Rightarrow> schedule_page res" where
  "page_slots zones p through 0 send cursor = Inr \<lparr>pg_slots = [], pg_cursor = cursor, pg_exhausted = (send = None)\<rparr>"
| "page_slots zones p through (Suc n) send cursor =
     (case send of
        None \<Rightarrow> Inr \<lparr>pg_slots = [], pg_cursor = cursor, pg_exhausted = True\<rparr>
      | Some s \<Rightarrow>
          bind_res (due zones p s) (\<lambda>t.
          if t > through then Inr \<lparr>pg_slots = [], pg_cursor = cursor, pg_exhausted = True\<rparr>
          else bind_res (sends zones p s t) (\<lambda>ok.
               bind_res (page_slots zones p through n (next_send p s) (Some (slot_date p s))) (\<lambda>pg.
               Inr (if ok then pg\<lparr>pg_slots := slot_of p s t # pg_slots pg\<rparr> else pg)))))"

definition start_from :: "report_plan \<Rightarrow> date option \<Rightarrow> date" where
  "start_from p after = (case after of None \<Rightarrow> date_min | Some a \<Rightarrow> (next_day ^^ rp_offset p) a)"

definition report_page ::
  "(string \<Rightarrow> zone_info option) \<Rightarrow> report_plan \<Rightarrow> int \<Rightarrow> date option \<Rightarrow> int \<Rightarrow> schedule_page res" where
  "report_page zones p through after limit =
     bind_res (check_page limit) (\<lambda>_. page_slots zones p through (nat limit) (next_send p (start_from p after)) after)"

section \<open>The next slot\<close>

definition before_rule :: "report_plan \<Rightarrow> date \<Rightarrow> bool" where
  "before_rule p send = (case rp_rule p of Once d \<Rightarrow> send < d | Repeat _ _ first _ \<Rightarrow> send < first)"

lemma rank_less_trans: "(a, b) \<in> rank_less \<Longrightarrow> (b, c) \<in> rank_less \<Longrightarrow> (a, c) \<in> rank_less"
  by (cases a; cases b; cases c) auto

lemma search_candidate_Some:
  "search_candidate p final n d = Some s \<Longrightarrow> candidate p s \<and> (day_rank s, day_rank d) \<in> rank_less"
  by (induction n arbitrary: d)
    (auto split: sum.splits if_splits dest: add_day_rank intro: rank_less_trans)

lemma next_send_rank:
  assumes "next_send p d = Some s"
  shows "\<not> before_rule p s \<and> (before_rule p d \<or> (day_rank s, day_rank d) \<in> rank_less)"
proof (cases "rp_rule p")
  case (Once x)
  then show ?thesis using assms by (auto simp: next_send_def before_rule_def split: if_splits)
next
  case (Repeat freq ws first final)
  then have "search_candidate p final 7 (if d < first then prev_day first else d) = Some s"
    using assms by (simp add: next_send_def)
  from search_candidate_Some [OF this] Repeat show ?thesis
    by (auto simp: before_rule_def candidate_def split: if_splits)
qed

function next_slot_loop ::
  "(string \<Rightarrow> zone_info option) \<Rightarrow> report_plan \<Rightarrow> int \<Rightarrow> date \<Rightarrow> schedule_slot option res" where
  "next_slot_loop zones p after s =
     bind_res (due zones p s) (\<lambda>t.
     if paused_for_good p t then Inr None
     else bind_res (if t > after then sends zones p s t else Inr False) (\<lambda>ok.
          if ok then Inr (Some (slot_of p s t))
          else (case next_send p s of None \<Rightarrow> Inr None | Some s' \<Rightarrow> next_slot_loop zones p after s')))"
  by pat_completeness auto
termination
  by (relation "inv_image (less_than <*lex*> rank_less) (\<lambda>(zones, p, after, s). (if before_rule p s then 1 else 0, day_rank s))")
    (auto dest: next_send_rank)

declare next_slot_loop.simps [simp del]

definition report_next_slot ::
  "(string \<Rightarrow> zone_info option) \<Rightarrow> report_plan \<Rightarrow> int \<Rightarrow> schedule_slot option res" where
  "report_next_slot zones p after =
     (case zones (rp_timezone p) of
        None \<Rightarrow> Inl (OtherException ''ZoneInfoNotFoundError'')
      | Some z \<Rightarrow>
          (let local = wall_date z after;
               back = (prev_day ^^ nat (min (toordinal local - toordinal date_min) 2)) local
           in case next_send p back of None \<Rightarrow> Inr None | Some s \<Rightarrow> next_slot_loop zones p after s))"

end
