(* ===== verification/Schedule_Facts.thy ===== *)
theory Schedule_Facts
  imports Schedule_Eval
begin

text \<open>
  The schedule of a report: searching at most seven days ahead finds the next candidate or none
  exists; the next slot is the first send due after a moment; pages resume where the last one ended.
\<close>

section \<open>Candidates\<close>

definition later :: "report_plan \<Rightarrow> date \<Rightarrow> date set" where
  "later p d = {x. valid_date x \<and> d < x \<and> candidate p x}"

definition plan_ok :: "report_plan \<Rightarrow> bool" where
  "plan_ok p \<longleftrightarrow> rp_offset p \<le> 1 \<and>
     (case rp_rule p of Once d \<Rightarrow> valid_date d | Repeat freq ws first final \<Rightarrow> valid_date first \<and> date_min < first)"

lemma later_step:
  assumes "add_day d = Inr d'" and "\<not> candidate p d'"
  shows "later p d = later p d'"
  using assms next_day_least [of _ d] next_day_greater [of d]
  by (auto simp: later_def add_day_Inr order_le_less)

lemma search_candidate_least:
  assumes "valid_date d" and "search_candidate p final n d = Some s"
  shows "s \<in> later p d \<and> (\<forall>x\<in>later p d. s \<le> x)"
  using assms
proof (induction n arbitrary: d)
  case (Suc n)
  obtain d' where d': "add_day d = Inr d'" using Suc.prems(2) by (auto split: sum.splits)
  have v: "valid_date d'" using d' Suc.prems(1) by (auto simp: add_day_Inr valid_next_day)
  show ?case
  proof (cases "candidate p d'")
    case True
    then have "s = d'" using Suc.prems(2) d' by (auto split: if_splits)
    then show ?thesis using True v d' next_day_least [of _ d] next_day_greater [of d]
      by (auto simp: later_def add_day_Inr)
  next
    case False
    then show ?thesis using Suc.IH [OF v] Suc.prems(2) d' later_step [OF d' False] by (auto split: if_splits)
  qed
qed simp

lemma later_past_last:
  assumes "rp_rule p = Repeat freq ws first final" and "add_day d = Inr d'" and "past_last final d'"
  shows "later p d = {}"
proof -
  have "past_last final x" if "d' \<le> x" for x
    using assms(3) that by (auto simp: past_last_def split: option.splits)
  then show ?thesis using assms(1,2) next_day_least [of _ d]
    by (auto simp: later_def candidate_def add_day_Inr)
qed

lemma search_candidate_none:
  assumes "rp_rule p = Repeat freq ws first final" and "valid_date d" and "search_candidate p final n d = None" and "x \<in> later p d"
  shows "int n < toordinal x - toordinal d"
  using assms(2-)
proof (induction n arbitrary: d)
  case 0
  then show ?case using toordinal_less [of d x] by (simp add: later_def)
next
  case (Suc n)
  have "d < date_max" using Suc.prems(3) valid_le_max [of x] by (auto simp: later_def)
  then have d': "add_day d = Inr (next_day d)" "valid_date (next_day d)" using add_day_total Suc.prems(1) by blast+
  have "\<not> past_last final (next_day d)" using later_past_last [OF assms(1) d'(1)] Suc.prems(3) by auto
  then have none: "\<not> candidate p (next_day d)" "search_candidate p final n (next_day d) = None"
    using Suc.prems(2) d'(1) by (auto split: if_splits)
  then have "int n < toordinal x - toordinal (next_day d)"
    using Suc.IH [OF d'(2)] Suc.prems(3) later_step [OF d'(1)] by simp
  then show ?case using toordinal_next_day [OF Suc.prems(1)] by simp
qed

text \<open>Candidates recur every seven days, so a week without one is followed by none.\<close>

lemma week_without_candidate:
  assumes rule: "rp_rule p = Repeat freq ws first final" and d: "valid_date d" "\<forall>x. d < x \<longrightarrow> valid_date x \<longrightarrow> first \<le> x"
    and x: "x \<in> later p d"
  shows "\<exists>y\<in>later p d. toordinal y - toordinal d \<le> 7"
proof -
  have vx: "valid_date x" "d < x" "candidate p x" using x by (auto simp: later_def)
  define k where "k = toordinal x - toordinal d"
  have k: "0 < k" using toordinal_less [OF d(1) vx(1,2)] by (simp add: k_def)
  define j where "j = (k - 1) mod 7 + 1"
  have j: "1 \<le> j" "j \<le> 7" "j \<le> k" "7 dvd k - j"
    using k zmod_le_nonneg_dividend [of "k - 1" 7] by (auto simp: j_def) (metis diff_diff_eq add.commute dvd_minus_mod)
  let ?y = "(next_day ^^ nat j) d"
  have y: "valid_date ?y" "toordinal ?y = toordinal d + j" "d \<le> ?y" "?y \<le> x"
    using day_between [OF d(1) vx(1) less_imp_le [OF vx(2)], of "nat j"] j by (auto simp: k_def)
  have "?y \<noteq> d" using y(2) j(1) by auto
  then have "d < ?y" using y(3) by simp
  moreover have "weekday x = weekday ?y"
    by (rule weekday_next [OF y(1) vx(1)]) (use y(2) j(4) in \<open>simp add: k_def mod_eq_0_iff_dvd algebra_simps\<close>)
  moreover have "\<not> past_last final ?y" using vx(3) y(4) rule by (auto simp: candidate_def past_last_def split: option.splits if_splits)
  ultimately have "candidate p ?y" using vx(3) rule d(2) y(1) by (auto simp: candidate_def not_less split: if_splits)
  then show ?thesis using y j(2) \<open>d < ?y\<close> by (auto simp: later_def intro!: bexI [of _ ?y])
qed

lemma next_send_correct:
  assumes ok: "plan_ok p" and v: "valid_date d"
  shows "case next_send p d of None \<Rightarrow> later p d = {} | Some s \<Rightarrow> s \<in> later p d \<and> (\<forall>x\<in>later p d. s \<le> x)"
proof (cases "rp_rule p")
  case (Once x)
  then show ?thesis using ok by (auto simp: next_send_def later_def candidate_def plan_ok_def)
next
  case (Repeat freq ws first final)
  define b where "b = (if d < first then prev_day first else d)"
  have f: "valid_date first" "date_min < first" using ok Repeat by (simp_all add: plan_ok_def)
  note prev = prev_day_ok [OF f]
  have b: "valid_date b" "\<forall>x. b < x \<longrightarrow> valid_date x \<longrightarrow> first \<le> x"
    using prev v next_day_least [of _ "prev_day first"] by (auto simp: b_def split: if_splits)
  have same: "later p d = later p b"
    using prev Repeat next_day_least [of _ "prev_day first"] by (auto simp: later_def b_def candidate_def split: if_splits)
  have search: "next_send p d = search_candidate p final 7 b" by (simp add: next_send_def Repeat b_def)
  show ?thesis
  proof (cases "search_candidate p final 7 b")
    case None
    have "later p b = {}"
    proof (rule ccontr)
      assume "later p b \<noteq> {}"
      then obtain x where x: "x \<in> later p b" by blast
      from week_without_candidate [OF Repeat b x] obtain y where "y \<in> later p b" "toordinal y - toordinal b \<le> 7" by blast
      with search_candidate_none [OF Repeat b(1) None this(1)] show False by simp
    qed
    then show ?thesis using None search same by simp
  next
    case (Some s)
    then show ?thesis using search same search_candidate_least [OF b(1) Some] by simp
  qed
qed

section \<open>The next slot\<close>

text \<open>A send that is due after a moment; and the law that later dates are due later.\<close>

definition sent_after :: "(string \<Rightarrow> zone_info option) \<Rightarrow> report_plan \<Rightarrow> int \<Rightarrow> date \<Rightarrow> int \<Rightarrow> bool" where
  "sent_after zones p after y t \<longleftrightarrow>
     valid_date y \<and> candidate p y \<and> due zones p y = Inr t \<and> after < t \<and> sends zones p y t = Inr True"

definition due_ordered :: "(string \<Rightarrow> zone_info option) \<Rightarrow> report_plan \<Rightarrow> bool" where
  "due_ordered zones p \<longleftrightarrow>
     (\<forall>x y t u. valid_date x \<and> valid_date y \<and> x \<le> y \<and> due zones p x = Inr t \<and> due zones p y = Inr u \<longrightarrow> t \<le> u)"

lemma sends_paused: "paused p t \<Longrightarrow> sends zones p d t = Inr False"
  by (simp add: sends_def Let_def)

lemma paused_for_good_later:
  assumes "paused_for_good p t" and "t \<le> u"
  shows "paused p u"
proof -
  obtain s where "(s, None) \<in> set (rp_pauses p)" "s \<le> t" using assms(1) by (auto simp: paused_for_good_def list_ex_iff)
  then show ?thesis using assms(2) by (auto simp: paused_def list_ex_iff intro!: bexI [of _ "(s, None)"])
qed

lemma next_slot_loop_correct:
  assumes ok: "plan_ok p" and mono: "due_ordered zones p"
    and "valid_date s" "candidate p s" and "next_slot_loop zones p after s = Inr r"
  shows "case r of
      None \<Rightarrow> (\<forall>y t. s \<le> y \<longrightarrow> \<not> sent_after zones p after y t)
    | Some sl \<Rightarrow> \<exists>x t. sl = slot_of p x t \<and> s \<le> x \<and> sent_after zones p after x t \<and> (\<forall>y u. s \<le> y \<longrightarrow> sent_after zones p after y u \<longrightarrow> x \<le> y)"
  using assms
proof (induction zones p after s rule: next_slot_loop.induct)
  case (1 zones p after s)
  note ok = 1(2) and mono = 1(3) and v = 1(4,5)
  let ?none = "\<forall>y t. s \<le> y \<longrightarrow> \<not> sent_after zones p after y t"
  have loop: "bind_res (due zones p s) (\<lambda>t.
     if paused_for_good p t then Inr None
     else bind_res (if t > after then sends zones p s t else Inr False) (\<lambda>ok.
          if ok then Inr (Some (slot_of p s t))
          else (case next_send p s of None \<Rightarrow> Inr None | Some s' \<Rightarrow> next_slot_loop zones p after s'))) = Inr r"
    using 1(6) by (simp only: next_slot_loop.simps [of zones p after s])
  then obtain t where t: "due zones p s = Inr t" by (elim bind_resE)
  show ?case
  proof (cases "paused_for_good p t")
    case True
    have "\<not> sent_after zones p after y u" if "s \<le> y" for y u
    proof
      assume y: "sent_after zones p after y u"
      then have "t \<le> u" using mono v(1) t that unfolding due_ordered_def sent_after_def by blast
      then show False using paused_for_good_later [OF True] sends_paused y by (simp add: sent_after_def)
    qed
    then show ?thesis using loop t True by auto
  next
    case False
    then obtain b where b: "(if t > after then sends zones p s t else Inr False) = Inr b"
      and rest: "(if b then Inr (Some (slot_of p s t))
          else (case next_send p s of None \<Rightarrow> Inr None | Some s' \<Rightarrow> next_slot_loop zones p after s')) = Inr r"
      using loop unfolding t bind_res_Inr if_not_P [OF False] by (elim bind_resE)
    show ?thesis
    proof (cases b)
      case True
      then have "sent_after zones p after s t" using b t v by (auto simp: sent_after_def split: if_splits)
      then show ?thesis using rest True by (auto intro!: exI [of _ s] exI [of _ t])
    next
      case nb: False
      have s_not: "\<not> sent_after zones p after s u" for u using b nb t by (auto simp: sent_after_def split: if_splits)
      have beyond: "y \<in> later p s" if "s \<le> y" "sent_after zones p after y u" for y u
        using that s_not by (auto simp: later_def sent_after_def order_le_less)
      show ?thesis
      proof (cases "next_send p s")
        case None
        then have "later p s = {}" using next_send_correct [OF ok v(1)] by simp
        then show ?thesis using rest nb None beyond by auto
      next
        case (Some s')
        have s': "s' \<in> later p s" "\<forall>x\<in>later p s. s' \<le> x" using next_send_correct [OF ok v(1)] Some by simp_all
        then have "valid_date s'" "candidate p s'" "s < s'" by (simp_all add: later_def)
        moreover have "next_slot_loop zones p after s' = Inr r" using rest nb Some by simp
        ultimately have *: "case r of
            None \<Rightarrow> (\<forall>y t. s' \<le> y \<longrightarrow> \<not> sent_after zones p after y t)
          | Some sl \<Rightarrow> \<exists>x t. sl = slot_of p x t \<and> s' \<le> x \<and> sent_after zones p after x t \<and> (\<forall>y u. s' \<le> y \<longrightarrow> sent_after zones p after y u \<longrightarrow> x \<le> y)"
          using 1(1) [OF t False b nb Some ok mono] by blast
        then show ?thesis
        proof (cases r)
          case None
          then show ?thesis using * beyond s'(2) by auto
        next
          case (Some sl)
          then obtain x t where x: "sl = slot_of p x t" "s' \<le> x" "sent_after zones p after x t"
            "\<forall>y u. s' \<le> y \<longrightarrow> sent_after zones p after y u \<longrightarrow> x \<le> y" using * by auto
          have "x \<le> y" if "s \<le> y" "sent_after zones p after y u" for y u
            using beyond [OF that] s'(2) x(4) that(2) by blast
          moreover have "s \<le> x" using \<open>s < s'\<close> x(2) by simp
          ultimately show ?thesis using x(1,3) unfolding Some option.case by blast
        qed
      qed
    qed
  qed
qed

lemma back_two_days:
  assumes "valid_date local" and "toordinal date_min + 2 \<le> toordinal local"
  shows "valid_date (prev_day (prev_day local)) \<and> toordinal (prev_day (prev_day local)) = toordinal local - 2"
proof -
  have gt: "date_min < d" if "valid_date d" "toordinal date_min < toordinal d" for d
    using that valid_ge_min [of d] by (auto simp: order_le_less)
  have 1: "date_min < local" using gt assms by simp
  note p1 = prev_day_ok [OF assms(1) 1] toordinal_prev_day [OF assms(1) 1]
  then have 2: "date_min < prev_day local" using gt assms(2) by simp
  then show ?thesis using p1 prev_day_ok [of "prev_day local"] toordinal_prev_day [of "prev_day local"] by simp
qed


text \<open>A weekly report in UTC, on Mondays and Thursdays from 2026, one date skipped.\<close>

definition utc_zone :: "date \<Rightarrow> zone_info" where
  "utc_zone today = \<lparr>to_wall = (\<lambda>i. i), from_wall = (\<lambda>_ w. w), wall_date = (\<lambda>_. today)\<rparr>"

definition demo_report :: report_plan where
  "demo_report = \<lparr>rp_timezone = ''UTC'', rp_time = 8, rp_rule = Repeat ''weekly'' [0, 3] (Date 2026 1 1) None,
     rp_offset = 0, rp_skipped = [Date 2026 1 15], rp_pauses = []\<rparr>"

abbreviation "demo_zones \<equiv> \<lambda>_ :: string. Some (utc_zone (Date 2026 1 14))"

lemma demo_due: "due demo_zones demo_report y = Inr (combine y 8)"
  by (simp add: due_def resolve_local_def utc_zone_def demo_report_def)

lemma combine_mono:
  assumes "valid_date x" "valid_date y" "x \<le> y"
  shows "combine x t \<le> combine y t"
proof -
  have "toordinal x \<le> toordinal y" using toordinal_less [OF assms(1,2)] assms(3) by (auto simp: order_le_less)
  then show ?thesis by (simp add: combine_def day_length_def)
qed

lemma demo_report_ok: "plan_ok demo_report"
  by (simp add: plan_ok_def demo_report_def valid_date_def days_in_month_def date_min_def less_date_def)

lemma demo_next: "report_next_slot demo_zones demo_report (combine (Date 2026 1 14) 0) =
    Inr (Some (slot_of demo_report (Date 2026 1 19) (combine (Date 2026 1 19) 8)))"
  by code_simp


section \<open>Pages\<close>

lemma start_from_slot:
  assumes "rp_offset p \<le> 1" and "valid_date s" and "date_min < s"
  shows "start_from p (Some (slot_date p s)) = s"
proof -
  have "rp_offset p = 0 \<or> rp_offset p = 1" using assms(1) by linarith
  then show ?thesis using prev_day_ok [OF assms(2,3)] by (auto simp: start_from_def slot_date_def)
qed

lemma next_send_valid:
  assumes "plan_ok p" and "valid_date d" and "next_send p d = Some s"
  shows "valid_date s \<and> date_min < s"
proof -
  have "s \<in> later p d" using next_send_correct [OF assms(1,2)] assms(3) by simp
  then show ?thesis using valid_ge_min [OF assms(2)] by (auto simp: later_def)
qed

lemma page_slots_append:
  assumes "plan_ok p" and "send = next_send p (start_from p cursor)" and "valid_date (start_from p cursor)"
    and "page_slots zones p through a send cursor = Inr pg" and "\<not> pg_exhausted pg"
    and "page_slots zones p through b (next_send p (start_from p (pg_cursor pg))) (pg_cursor pg) = Inr pg'"
  shows "page_slots zones p through (a + b) send cursor = Inr (pg'\<lparr>pg_slots := pg_slots pg @ pg_slots pg'\<rparr>)"
  using assms(2-)
proof (induction a arbitrary: send cursor pg)
  case 0
  then show ?case by auto
next
  case (Suc a)
  obtain s where send: "send = Some s" using Suc.prems(3,4) by (cases send) auto
  obtain t where t: "due zones p s = Inr t"
    and rest: "(if t > through then Inr \<lparr>pg_slots = [], pg_cursor = cursor, pg_exhausted = True\<rparr>
      else bind_res (sends zones p s t) (\<lambda>ok.
           bind_res (page_slots zones p through a (next_send p s) (Some (slot_date p s))) (\<lambda>pg.
           Inr (if ok then pg\<lparr>pg_slots := slot_of p s t # pg_slots pg\<rparr> else pg)))) = Inr pg"
    using Suc.prems(3) unfolding send page_slots.simps option.case by (elim bind_resE)
  have nt: "\<not> through < t" using rest Suc.prems(4) by auto
  obtain ok pg1 where step: "sends zones p s t = Inr ok"
    "page_slots zones p through a (next_send p s) (Some (slot_date p s)) = Inr pg1"
    "pg = (if ok then pg1\<lparr>pg_slots := slot_of p s t # pg_slots pg1\<rparr> else pg1)"
    using rest unfolding if_not_P [OF nt] by (elim bind_resE) (rule that, auto)
  have s: "valid_date s" "date_min < s" using next_send_valid [OF assms(1) Suc.prems(2)] Suc.prems(1) send by auto
  have start: "start_from p (Some (slot_date p s)) = s"
    using start_from_slot [OF _ s] assms(1) by (simp add: plan_ok_def)
  have "pg_cursor pg = pg_cursor pg1" "\<not> pg_exhausted pg1" using step(3) Suc.prems(4) by (auto split: if_splits)
  then have "page_slots zones p through (a + b) (next_send p s) (Some (slot_date p s)) = Inr (pg'\<lparr>pg_slots := pg_slots pg1 @ pg_slots pg'\<rparr>)"
    using Suc.IH [of "next_send p s" "Some (slot_date p s)" pg1] start s(1) step(2) Suc.prems(5) by simp
  then show ?case using send t nt step by (cases ok) simp_all
qed

text \<open>
  Pages resume. When a page of at most \<open>a\<close> sends is not exhausted, continuing from its cursor
  with a page of at most \<open>b\<close> gives, together, the page of at most \<open>a + b\<close>: the same
  slots in the same order, none lost or repeated, the same cursor and the same exhaustion.
\<close>

theorem report_page_resume:
  assumes "plan_ok p" and "valid_date (start_from p after)" and "1 \<le> a" and "1 \<le> b" and "a + b \<le> 1000"
    and "report_page zones p through after a = Inr pg" and "\<not> pg_exhausted pg"
    and "report_page zones p through (pg_cursor pg) b = Inr pg'"
  shows "report_page zones p through after (a + b) =
    Inr \<lparr>pg_slots = pg_slots pg @ pg_slots pg', pg_cursor = pg_cursor pg', pg_exhausted = pg_exhausted pg'\<rparr>"
proof -
  have checks: "check_page a = Inr ()" "check_page b = Inr ()" "check_page (a + b) = Inr ()"
    using assms(3-5) by (simp_all add: check_page_def)
  have "page_slots zones p through (nat a) (next_send p (start_from p after)) after = Inr pg"
    "page_slots zones p through (nat b) (next_send p (start_from p (pg_cursor pg))) (pg_cursor pg) = Inr pg'"
    using assms(6,8) checks by (simp_all add: report_page_def)
  from page_slots_append [OF assms(1) refl assms(2) this(1) assms(7) this(2)]
  show ?thesis using checks assms(3,4) by (simp add: report_page_def nat_add_distrib)
qed

theorem report_page_resume_witness:
  "\<exists>pg pg'. report_page demo_zones demo_report (combine (Date 2026 1 20) 0) None 1 = Inr pg \<and>
     report_page demo_zones demo_report (combine (Date 2026 1 20) 0) (pg_cursor pg) 2 = Inr pg' \<and>
     report_page demo_zones demo_report (combine (Date 2026 1 20) 0) None (1 + 2) =
       Inr \<lparr>pg_slots = pg_slots pg @ pg_slots pg', pg_cursor = pg_cursor pg', pg_exhausted = pg_exhausted pg'\<rparr>"
proof -
  let ?slot = "\<lambda>d. slot_of demo_report (Date 2026 1 d) (combine (Date 2026 1 d) 8)"
  let ?pg = "\<lparr>pg_slots = [?slot 1], pg_cursor = Some (Date 2026 1 1), pg_exhausted = False\<rparr>"
  let ?pg' = "\<lparr>pg_slots = [?slot 5, ?slot 8], pg_cursor = Some (Date 2026 1 8), pg_exhausted = False\<rparr>"
  have 1: "report_page demo_zones demo_report (combine (Date 2026 1 20) 0) None 1 = Inr ?pg" by code_simp
  have 2: "report_page demo_zones demo_report (combine (Date 2026 1 20) 0) (pg_cursor ?pg) 2 = Inr ?pg'" by code_simp
  have 3: "valid_date (start_from demo_report None)" by code_simp
  from report_page_resume [OF demo_report_ok 3 _ _ _ 1 _ 2] 1 2 show ?thesis by auto
qed

end
