(* ===== verification/Lifecycle.thy ===== *)
theory Lifecycle
  imports Intervals
begin

text \<open>
  \<open>stewardship/campaigns/lifecycle.py\<close> with the vocabulary of \<open>domain.py\<close>: the states and modes of
  a campaign, the registry of transitions, and the decisions that admit visitors, work, drafts and
  edits. Instants are integers, so the checks that reject untyped values have no counterpart.
\<close>

section \<open>Vocabulary\<close>

datatype campaign_state =
    DRAFT | SCHEDULED | ACTIVE | CLOSED | ARCHIVED | PURGING | PURGE_CLEANUP_FAILED | PURGED

datatype system_mode = TESTING | PRODUCTION

datatype lifecycle_action =
    Activate | Start | Close | Withdraw | Reopen | Archive | Unarchive | Return_testing
  | Purge | Purge_abort | Purge_complete | Purge_cleanup_failed

datatype work_kind = LIVE_PREPARATION | LIVE_DELIVERY | REHEARSAL | PREVIEW | READINESS_TEST

record transition =
  tr_sources :: "campaign_state list"
  tr_targets :: "campaign_state list"
  tr_actor :: string
  tr_guards :: "string list"
  tr_modes :: "system_mode list"
  tr_confirmation :: bool

definition mk_transition ::
  "campaign_state list \<Rightarrow> campaign_state list \<Rightarrow> string \<Rightarrow> string list \<Rightarrow> system_mode list \<Rightarrow> transition" where
  "mk_transition sources targets actor guards modes =
     \<lparr>tr_sources = sources, tr_targets = targets, tr_actor = actor,
      tr_guards = guards @ (if actor = ''purge_worker'' then [''no_current_campaign'', ''fenced_owner''] else []),
      tr_modes = modes, tr_confirmation = (actor = ''administrator'')\<rparr>"

abbreviation "both_modes \<equiv> [TESTING, PRODUCTION]"

fun TRANSITIONS :: "lifecycle_action \<Rightarrow> transition" where
  "TRANSITIONS Activate = mk_transition [DRAFT] [SCHEDULED, ACTIVE] ''administrator''
     [''current'', ''readiness'', ''configuration_coherent'', ''cleanup_complete'', ''token_generation'',
      ''catch_up_demand'', ''no_restore'', ''no_purge''] [TESTING]"
| "TRANSITIONS Start = mk_transition [SCHEDULED] [ACTIVE] ''boundary_worker''
     [''current'', ''boundary_current'', ''no_restore'', ''no_purge'', ''fenced_owner''] [PRODUCTION]"
| "TRANSITIONS Close = mk_transition [ACTIVE] [CLOSED] ''boundary_worker''
     [''current'', ''boundary_current'', ''invalidate_family_access'', ''no_restore'', ''no_purge'', ''fenced_owner''] [PRODUCTION]"
| "TRANSITIONS Withdraw = mk_transition [SCHEDULED] [DRAFT] ''administrator''
     [''current'', ''quiescent'', ''cancel_future_work'', ''invalidate_readiness'', ''no_restore'', ''no_purge'', ''reason''] [PRODUCTION]"
| "TRANSITIONS Reopen = mk_transition [CLOSED] [ACTIVE] ''administrator''
     [''current'', ''readiness'', ''configuration_coherent'', ''token_generation'', ''extended_end'', ''no_restore'',
      ''no_purge'', ''quiescent''] both_modes"
| "TRANSITIONS Archive = mk_transition [CLOSED] [ARCHIVED] ''administrator''
     [''current'', ''quiescent'', ''post_close_resolved'', ''no_restore'', ''no_purge''] both_modes"
| "TRANSITIONS Unarchive = mk_transition [ARCHIVED] [CLOSED] ''administrator''
     [''current'', ''no_other_current'', ''quiescent'', ''no_restore'', ''no_purge''] both_modes"
| "TRANSITIONS Return_testing = mk_transition [ARCHIVED] [ARCHIVED] ''administrator''
     [''current'', ''quiescent'', ''post_close_resolved'', ''no_restore'', ''no_purge'', ''clear_current_pointer''] both_modes"
| "TRANSITIONS Purge = mk_transition [ARCHIVED] [PURGING] ''purge_worker''
     [''purge_request'', ''purge_window'', ''no_current_campaign'', ''fresh_backup'', ''quiescent''] [TESTING]"
| "TRANSITIONS Purge_abort = mk_transition [PURGING] [ARCHIVED] ''purge_worker'' [''no_deletion_committed''] [TESTING]"
| "TRANSITIONS Purge_complete = mk_transition [PURGING, PURGE_CLEANUP_FAILED] [PURGED] ''purge_worker''
     [''database_deleted'', ''files_deleted'', ''fenced_owner''] [TESTING]"
| "TRANSITIONS Purge_cleanup_failed = mk_transition [PURGING] [PURGE_CLEANUP_FAILED] ''purge_worker''
     [''database_deleted'', ''fenced_owner''] [TESTING]"

record campaign_facts =
  cf_state :: campaign_state
  cf_mode :: system_mode
  cf_interval :: utc_interval
  cf_current :: bool
  cf_restore_required :: bool
  cf_delivery_paused :: bool
  cf_catch_up_pending :: bool

section \<open>Admission\<close>

definition portal_admitted :: "campaign_facts \<Rightarrow> int \<Rightarrow> bool" where
  "portal_admitted facts now =
     (if \<not> cf_current facts \<or> cf_restore_required facts \<or> \<not> iv_contains (cf_interval facts) now then False
      else if cf_mode facts = TESTING then cf_state facts = DRAFT
      else cf_state facts \<in> {SCHEDULED, ACTIVE})"

definition staff_entry_admitted :: "campaign_facts \<Rightarrow> int \<Rightarrow> bool" where
  "staff_entry_admitted facts now =
     (if portal_admitted facts now then True
      else cf_current facts \<and> \<not> cf_restore_required facts \<and> cf_mode facts = PRODUCTION \<and>
        cf_state facts \<in> {SCHEDULED, ACTIVE, CLOSED} \<and> iv_start (cf_interval facts) \<le> now)"

definition campaign_work_admitted :: "campaign_facts \<Rightarrow> int \<Rightarrow> work_kind \<Rightarrow> bool" where
  "campaign_work_admitted facts now kind =
     (if \<not> cf_current facts \<or> cf_restore_required facts then False
      else if kind \<in> {PREVIEW, READINESS_TEST} then cf_state facts \<in> {DRAFT, SCHEDULED, ACTIVE, CLOSED, ARCHIVED}
      else if \<not> portal_admitted facts now then False
      else if kind = REHEARSAL then cf_mode facts = TESTING
      else if cf_mode facts \<noteq> PRODUCTION \<or> cf_catch_up_pending facts then False
      else kind \<noteq> LIVE_DELIVERY \<or> \<not> cf_delivery_paused facts)"

definition transition_target ::
  "lifecycle_action \<Rightarrow> campaign_facts \<Rightarrow> int \<Rightarrow> utc_interval option \<Rightarrow> campaign_state option" where
  "transition_target action facts now proposed =
     (let rule = TRANSITIONS action; iv = cf_interval facts
      in if cf_state facts \<notin> set (tr_sources rule) \<or> cf_mode facts \<notin> set (tr_modes rule) then None
         else if ''current'' \<in> set (tr_guards rule) \<and> \<not> cf_current facts then None
         else if ''no_restore'' \<in> set (tr_guards rule) \<and> cf_restore_required facts then None
         else if ''no_current_campaign'' \<in> set (tr_guards rule) \<and> cf_current facts then None
         else if action = Activate then
           (if now \<ge> iv_end iv then None else Some (if iv_contains iv now then ACTIVE else SCHEDULED))
         else if action = Start \<and> now < iv_start iv then None
         else if action = Close \<and> now < iv_end iv then None
         else if action = Withdraw \<and> now \<ge> iv_start iv then None
         else if action = Reopen \<and>
           (case proposed of
              None \<Rightarrow> True
            | Some pr \<Rightarrow> iv_start pr \<noteq> iv_start iv \<or> iv_end pr \<le> iv_end iv \<or> \<not> iv_contains pr now) then None
         else Some (hd (tr_targets rule)))"

definition draft_creation_admitted :: "system_mode \<Rightarrow> 'i option \<Rightarrow> campaign_state list \<Rightarrow> bool \<Rightarrow> bool" where
  "draft_creation_admitted mode current_id states nonterminal_purge \<longleftrightarrow>
     mode = TESTING \<and> current_id = None \<and> \<not> nonterminal_purge \<and> list_all (\<lambda>s. s \<in> {ARCHIVED, PURGED}) states"

definition structural_edit_admitted :: "campaign_state \<Rightarrow> bool \<Rightarrow> bool \<Rightarrow> bool" where
  "structural_edit_admitted state ever_active locked \<longleftrightarrow> state = DRAFT \<and> \<not> ever_active \<and> \<not> locked"

fun action_value :: "lifecycle_action \<Rightarrow> string" where
  "action_value Activate = ''activate''"
| "action_value Start = ''start''"
| "action_value Close = ''close''"
| "action_value Withdraw = ''withdraw''"
| "action_value Reopen = ''reopen''"
| "action_value Archive = ''archive''"
| "action_value Unarchive = ''unarchive''"
| "action_value Return_testing = ''return_testing''"
| "action_value Purge = ''purge''"
| "action_value Purge_abort = ''purge_abort''"
| "action_value Purge_complete = ''purge_complete''"
| "action_value Purge_cleanup_failed = ''purge_cleanup_failed''"

definition transition_audit_event :: "lifecycle_action \<Rightarrow> string" where
  "transition_audit_event action = ''campaign_'' @ action_value action"

section \<open>Due boundaries\<close>

text \<open>
  \<open>apply_due_boundaries\<close> of \<open>boundaries.py\<close>, on the facts of the campaign: the overdue start and then
  the overdue close, each when its stored occurrence is still pending (\<open>pending\<close>) and the
  campaign is in the state it starts from. The stored occurrences themselves, their task fences and
  the audit record belong to the database.
\<close>

definition apply_boundary :: "(lifecycle_action \<Rightarrow> bool) \<Rightarrow> int \<Rightarrow> campaign_facts \<Rightarrow> lifecycle_action \<times> int \<times> campaign_state \<Rightarrow> campaign_facts" where
  "apply_boundary pending now facts b =
     (case b of (kind, due_at, source) \<Rightarrow>
        if due_at > now then facts
        else if \<not> pending kind then facts
        else if cf_state facts \<noteq> source \<or> cf_mode facts \<noteq> PRODUCTION then facts
        else facts\<lparr>cf_state := hd (tr_targets (TRANSITIONS kind))\<rparr>)"

definition apply_due_boundaries :: "(lifecycle_action \<Rightarrow> bool) \<Rightarrow> int \<Rightarrow> campaign_facts \<Rightarrow> campaign_facts res" where
  "apply_due_boundaries pending now facts =
     bind_res (guard_res (\<not> cf_restore_required facts) (OtherException ''Campaign boundaries are held for restore review.'')) (\<lambda>_.
     bind_res (guard_res (cf_current facts) (OtherException ''Campaign boundaries are held.'')) (\<lambda>_.
     Inr (foldl (apply_boundary pending now) facts
       [(Start, iv_start (cf_interval facts), SCHEDULED), (Close, iv_end (cf_interval facts), ACTIVE)])))"

section \<open>Runs\<close>

text \<open>
  A campaign's history: transitions whose target is eligible, and between them anything the owners
  of the other facts may do (time passes; the mode, the current pointer, restore, pauses and the
  interval change).
\<close>

record history =
  h_facts :: campaign_facts
  h_now :: int
  h_ever_active :: bool

inductive lifecycle_step :: "history \<Rightarrow> history \<Rightarrow> bool" where
  act: "transition_target action (h_facts h) (h_now h) proposed = Some s \<Longrightarrow>
    lifecycle_step h (h\<lparr>h_facts := (h_facts h)\<lparr>cf_state := s\<rparr>, h_ever_active := h_ever_active h \<or> s = ACTIVE\<rparr>)"
| env: "cf_state facts = cf_state (h_facts h) \<Longrightarrow> h_now h \<le> t \<Longrightarrow>
    lifecycle_step h (h\<lparr>h_facts := facts, h_now := t\<rparr>)"

inductive_cases lifecycle_stepE: "lifecycle_step h h'"

section \<open>Transitions\<close>

lemma transition_target_Some:
  assumes "transition_target action facts now proposed = Some s"
  shows "cf_state facts \<in> set (tr_sources (TRANSITIONS action)) \<and> s \<in> set (tr_targets (TRANSITIONS action)) \<and>
    cf_mode facts \<in> set (tr_modes (TRANSITIONS action))"
  using assms by (cases action) (auto simp: transition_target_def mk_transition_def Let_def split: if_splits)

lemma transition_edges:
  assumes "transition_target action facts now proposed = Some s"
  shows "(cf_state facts, s) \<in> {(DRAFT, SCHEDULED), (DRAFT, ACTIVE), (SCHEDULED, ACTIVE), (ACTIVE, CLOSED), (SCHEDULED, DRAFT),
    (CLOSED, ACTIVE), (CLOSED, ARCHIVED), (ARCHIVED, CLOSED), (ARCHIVED, ARCHIVED), (ARCHIVED, PURGING), (PURGING, ARCHIVED),
    (PURGING, PURGED), (PURGE_CLEANUP_FAILED, PURGED), (PURGING, PURGE_CLEANUP_FAILED)}"
  using transition_target_Some [OF assms] by (cases action) (auto simp: mk_transition_def)

section \<open>Properties\<close>

text \<open>What a step keeps: a campaign that was active is past drafting, and purging is final.\<close>

definition past_drafting :: "history \<Rightarrow> bool" where
  "past_drafting h \<longleftrightarrow> cf_state (h_facts h) \<notin> {DRAFT, SCHEDULED}"

lemma step_keeps:
  assumes "lifecycle_step h h'"
  shows "past_drafting h \<Longrightarrow> past_drafting h'"
    and "h_ever_active h = past_drafting h \<Longrightarrow> h_ever_active h' = past_drafting h'"
    and "h_ever_active h \<Longrightarrow> h_ever_active h'"
    and "cf_state (h_facts h) = PURGED \<Longrightarrow> cf_state (h_facts h') = PURGED"
    and "cf_state (h_facts h) \<in> {PURGE_CLEANUP_FAILED, PURGED} \<Longrightarrow> cf_state (h_facts h') \<in> {PURGE_CLEANUP_FAILED, PURGED}"
  using assms by (auto elim!: lifecycle_stepE dest!: transition_edges simp: past_drafting_def)

lemma run_keeps:
  assumes "lifecycle_step\<^sup>*\<^sup>* h h'"
  shows "past_drafting h \<Longrightarrow> past_drafting h'"
    and "h_ever_active h = past_drafting h \<Longrightarrow> h_ever_active h' = past_drafting h'"
    and "cf_state (h_facts h) = PURGED \<Longrightarrow> cf_state (h_facts h') = PURGED"
    and "cf_state (h_facts h) \<in> {PURGE_CLEANUP_FAILED, PURGED} \<Longrightarrow> cf_state (h_facts h') \<in> {PURGE_CLEANUP_FAILED, PURGED}"
  using assms by (induction rule: rtranclp_induct) (auto dest: step_keeps)

text \<open>
  C38: the history of a campaign that began as a draft. At any time it was active at some point iff it
  is neither a draft nor scheduled; from then on it never returns to either, so its structure can
  never be edited again; and a campaign whose purge was completed, or has deleted the database,
  stays purged or on its way there.
\<close>

theorem lifecycle_no_return:
  assumes "lifecycle_step\<^sup>*\<^sup>* h0 h" and "cf_state (h_facts h0) = DRAFT" and "\<not> h_ever_active h0"
    and "lifecycle_step\<^sup>*\<^sup>* h h'"
  shows "(h_ever_active h \<longleftrightarrow> cf_state (h_facts h) \<notin> {DRAFT, SCHEDULED}) \<and>
    (h_ever_active h \<longrightarrow> cf_state (h_facts h') \<notin> {DRAFT, SCHEDULED} \<and>
       \<not> structural_edit_admitted (cf_state (h_facts h')) (h_ever_active h') locked) \<and>
    (cf_state (h_facts h) = PURGED \<longrightarrow> cf_state (h_facts h') = PURGED) \<and>
    (cf_state (h_facts h) = PURGE_CLEANUP_FAILED \<longrightarrow> cf_state (h_facts h') \<in> {PURGE_CLEANUP_FAILED, PURGED})"
proof -
  have "h_ever_active h0 = past_drafting h0" using assms(2,3) by (simp add: past_drafting_def)
  then have ever: "h_ever_active h = past_drafting h" by (rule run_keeps(2) [OF assms(1)])
  then have "h_ever_active h \<Longrightarrow> past_drafting h'" using run_keeps(1) [OF assms(4)] by simp
  then show ?thesis using ever run_keeps(3,4) [OF assms(4)]
    by (auto simp: past_drafting_def structural_edit_admitted_def)
qed

definition demo_facts :: "campaign_state \<Rightarrow> system_mode \<Rightarrow> campaign_facts" where
  "demo_facts s m = \<lparr>cf_state = s, cf_mode = m, cf_interval = \<lparr>iv_start = 10, iv_end = 20\<rparr>, cf_current = True,
     cf_restore_required = False, cf_delivery_paused = False, cf_catch_up_pending = False\<rparr>"

definition demo_history :: "campaign_state \<Rightarrow> bool \<Rightarrow> history" where
  "demo_history s ever = \<lparr>h_facts = demo_facts s TESTING, h_now = 15, h_ever_active = ever\<rparr>"

theorem lifecycle_no_return_witness:
  "lifecycle_step\<^sup>*\<^sup>* (demo_history DRAFT False) (demo_history ACTIVE True) \<and>
   \<not> structural_edit_admitted (cf_state (h_facts (demo_history ACTIVE True))) True False"
proof -
  have "transition_target Activate (h_facts (demo_history DRAFT False)) (h_now (demo_history DRAFT False)) None = Some ACTIVE"
    by code_simp
  from lifecycle_step.act [OF this]
  have "lifecycle_step (demo_history DRAFT False) (demo_history ACTIVE True)"
    by (simp add: demo_history_def demo_facts_def)
  then have run: "lifecycle_step\<^sup>*\<^sup>* (demo_history DRAFT False) (demo_history ACTIVE True)" by (rule r_into_rtranclp)
  have "cf_state (h_facts (demo_history DRAFT False)) = DRAFT" "\<not> h_ever_active (demo_history DRAFT False)"
    "h_ever_active (demo_history ACTIVE True)" by (simp_all add: demo_history_def demo_facts_def)
  with lifecycle_no_return [OF run _ _ rtranclp.rtrancl_refl, of False] run show ?thesis by auto
qed

text \<open>Boundary processing changes the state only.\<close>

definition boundary_state :: "(lifecycle_action \<Rightarrow> bool) \<Rightarrow> int \<Rightarrow> campaign_facts \<Rightarrow> campaign_state" where
  "boundary_state pending now facts =
     (let s = (if iv_start (cf_interval facts) \<le> now \<and> pending Start \<and> cf_state facts = SCHEDULED \<and> cf_mode facts = PRODUCTION
               then ACTIVE else cf_state facts)
      in if iv_end (cf_interval facts) \<le> now \<and> pending Close \<and> s = ACTIVE \<and> cf_mode facts = PRODUCTION then CLOSED else s)"

lemma apply_boundary_eq:
  "apply_boundary pending now facts (kind, due_at, source) =
     facts\<lparr>cf_state := if due_at \<le> now \<and> pending kind \<and> cf_state facts = source \<and> cf_mode facts = PRODUCTION
       then hd (tr_targets (TRANSITIONS kind)) else cf_state facts\<rparr>"
  by (cases facts) (auto simp: apply_boundary_def)

lemma apply_due_boundaries_eq:
  "apply_due_boundaries pending now facts = Inr facts' \<longleftrightarrow>
     cf_current facts \<and> \<not> cf_restore_required facts \<and> facts' = facts\<lparr>cf_state := boundary_state pending now facts\<rparr>"
proof -
  have "hd (tr_targets (TRANSITIONS Start)) = ACTIVE" "hd (tr_targets (TRANSITIONS Close)) = CLOSED"
    by (simp_all add: mk_transition_def)
  then show ?thesis
    by (auto simp: apply_due_boundaries_def apply_boundary_eq boundary_state_def Let_def simp del: TRANSITIONS.simps)
qed

text \<open>
  C39: boundary processing. It never changes whether visitors are admitted, so lag in it is
  invisible to them. One call brings a campaign in production that is scheduled or active, with both
  boundaries still pending, to exactly the state its dates ask for, however late it runs;
  a second call changes nothing.
\<close>

theorem boundaries_catch_up:
  assumes "apply_due_boundaries pending now facts = Inr facts'" and "iv_start (cf_interval facts) \<le> iv_end (cf_interval facts)"
  shows "portal_admitted facts' now = portal_admitted facts now \<and>
    apply_due_boundaries pending now facts' = Inr facts' \<and>
    (pending Start \<and> pending Close \<and> cf_mode facts = PRODUCTION \<and> cf_state facts = SCHEDULED \<longrightarrow>
       facts' = facts\<lparr>cf_state :=
         if now < iv_start (cf_interval facts) then SCHEDULED else if now < iv_end (cf_interval facts) then ACTIVE else CLOSED\<rparr>) \<and>
    (pending Close \<and> cf_mode facts = PRODUCTION \<and> cf_state facts = ACTIVE \<longrightarrow>
       facts' = facts\<lparr>cf_state := if now < iv_end (cf_interval facts) then ACTIVE else CLOSED\<rparr>)"
proof -
  have f: "cf_current facts" "\<not> cf_restore_required facts" "facts' = facts\<lparr>cf_state := boundary_state pending now facts\<rparr>"
    using assms(1) unfolding apply_due_boundaries_eq by auto
  have "portal_admitted facts' now = portal_admitted facts now"
    using assms(2) by (auto simp: f(3) portal_admitted_def iv_contains_def boundary_state_def Let_def)
  moreover have "boundary_state pending now facts' = boundary_state pending now facts"
    using assms(2) by (auto simp: f(3) boundary_state_def Let_def)
  then have "apply_due_boundaries pending now facts' = Inr facts'"
    using f(1,2) by (simp add: apply_due_boundaries_eq f(3))
  ultimately show ?thesis using assms(2) unfolding f(3) by (auto simp: boundary_state_def Let_def)
qed

theorem boundaries_catch_up_witness:
  "apply_due_boundaries (\<lambda>_. True) 25 (demo_facts SCHEDULED PRODUCTION) = Inr (demo_facts CLOSED PRODUCTION) \<and>
   apply_due_boundaries (\<lambda>_. True) 25 (demo_facts CLOSED PRODUCTION) = Inr (demo_facts CLOSED PRODUCTION)"
proof -
  have run: "apply_due_boundaries (\<lambda>_. True) 25 (demo_facts SCHEDULED PRODUCTION) = Inr (demo_facts CLOSED PRODUCTION)" by code_simp
  have "iv_start (cf_interval (demo_facts SCHEDULED PRODUCTION)) \<le> iv_end (cf_interval (demo_facts SCHEDULED PRODUCTION))"
    by (simp add: demo_facts_def)
  from boundaries_catch_up [OF run this] run show ?thesis by blast
qed

end
