(* ===== verification/Source_Pages.thy ===== *)
theory Source_Pages
  imports Config
begin

text \<open>
  \<open>parishsoft_pagination.py\<close>: the strict page reader of the coherent source loads. A collection is
  read page by page; every row, total and ordinal is checked before the row is kept, and anything
  that does not prove a complete collection is an error. The HTTP request is the parameter
  \<open>fetch\<close>, which gets the two paging fields and acts on the world; the identity of a row is
  the parameter \<open>identify\<close>, which may refuse a row.
\<close>

section \<open>Errors\<close>

text \<open>
  \<open>Shifted\<close> is \<open>ShiftedSourceScan\<close>, \<open>Incomplete\<close> the other \<open>IncompleteSourceCollection\<close> errors, and
  \<open>Request_failed\<close> whatever the request raised.
\<close>

datatype source_error =
    Incomplete string
  | Shifted string
  | Invalid_bounds
  | Budget_exceeded
  | Organization_mismatch
  | Request_failed exn

type_synonym 'a src = "source_error + 'a"

section \<open>The collection\<close>

record page_contract =
  size_field :: string
  position_field :: string
  envelope :: bool
  zero_probe :: bool
  total_field :: "string option"
  ordinal_field :: "string option"

record 'k collection =
  co_rows :: "mapping_value list"
  identities :: "'k list"
  received :: int
  expected_total :: "int option"
  ordinal_origin :: "int option"

definition new_collection :: "'k collection" where
  "new_collection = \<lparr>co_rows = [], identities = [], received = 0, expected_total = None, ordinal_origin = None\<rparr>"

definition check_total :: "page_contract \<Rightarrow> int \<Rightarrow> 'k collection \<Rightarrow> mapping_value \<Rightarrow> 'k collection src" where
  "check_total contract maximum c row =
     (case total_field contract of
        None \<Rightarrow> Inr c
      | Some field \<Rightarrow>
          (case int_value (dget_none row field) of
             None \<Rightarrow> Inl (Incomplete ''Source total is unavailable.'')
           | Some tot \<Rightarrow>
               if \<not> (1 \<le> tot \<and> tot \<le> maximum) then Inl (Incomplete ''Source total is unavailable.'')
               else if expected_total c \<noteq> None \<and> expected_total c \<noteq> Some tot
                 then Inl (Shifted ''Source total changed during read.'')
               else Inr (c\<lparr>expected_total := Some tot\<rparr>)))"

definition check_ordinal :: "page_contract \<Rightarrow> 'k collection \<Rightarrow> mapping_value \<Rightarrow> 'k collection src" where
  "check_ordinal contract c row =
     (case ordinal_field contract of
        None \<Rightarrow> Inr c
      | Some field \<Rightarrow>
          (case int_value (dget_none row field) of
             None \<Rightarrow> Inl (Incomplete ''Source ordinal is unavailable.'')
           | Some ordinal \<Rightarrow>
               if ordinal_origin c = None \<and> ordinal \<notin> {0, 1} then Inl (Incomplete ''Source first row is missing.'')
               else (let origin = (case ordinal_origin c of None \<Rightarrow> ordinal | Some i \<Rightarrow> i)
                     in if ordinal \<noteq> received c + origin then Inl (Shifted ''Source row order is discontinuous.'')
                        else Inr (c\<lparr>ordinal_origin := Some origin\<rparr>))))"

text \<open>One row of \<open>_Collection.add\<close>; \<open>page\<close> holds the rows of this page by identity.\<close>

definition add_row ::
  "page_contract \<Rightarrow> (mapping_value \<Rightarrow> 'k src) \<Rightarrow> int \<Rightarrow> 'k collection \<times> ('k, mapping_value) dict \<Rightarrow> mapping_value \<Rightarrow>
   ('k collection \<times> ('k, mapping_value) dict) src" where
  "add_row contract identify maximum cp row =
     (case cp of (c, page) \<Rightarrow>
        bind_res (identify row) (\<lambda>identity.
          let repeat = (case map_of page identity of None \<Rightarrow> False | Some r \<Rightarrow> row_eq r row)
          in if identity \<in> set (identities c) \<and> \<not> repeat then
               Inl (if map_of page identity = None then Shifted ''Source collection repeats an identity.''
                    else Incomplete ''Source collection repeats an identity.'')
             else
               bind_res (check_total contract maximum c row) (\<lambda>c.
               bind_res (check_ordinal contract c row) (\<lambda>c.
               let c = c\<lparr>received := received c + 1\<rparr>
               in Inr (if repeat then (c, page)
                       else (c\<lparr>identities := identities c @ [identity], co_rows := co_rows c @ [row]\<rparr>,
                             AList.update identity row page))))))"

definition add_rows ::
  "page_contract \<Rightarrow> (mapping_value \<Rightarrow> 'k src) \<Rightarrow> int \<Rightarrow> 'k collection \<Rightarrow> mapping_value list \<Rightarrow> 'k collection src" where
  "add_rows contract identify maximum c rows =
     (if received c + int (length rows) > maximum then Inl (Incomplete ''Source collection exceeds its row bound.'')
      else bind_res (foldM_res (add_row contract identify maximum) (c, []) rows) (\<lambda>cp. Inr (fst cp)))"

definition finish :: "'k collection \<Rightarrow> mapping_value list src" where
  "finish c =
     (if expected_total c \<noteq> None \<and> expected_total c \<noteq> Some (received c)
      then Inl (Shifted ''Source collection does not match its total.'') else Inr (co_rows c))"

section \<open>Pages\<close>

definition array_of :: "pyval \<Rightarrow> int \<Rightarrow> mapping_value list src" where
  "array_of v psize =
     (case v of
        PList vs \<Rightarrow>
          if int (length vs) > psize then Inl (Incomplete ''Source page has an invalid array shape.'')
          else (case those (map dict_value vs) of
                  None \<Rightarrow> Inl (Incomplete ''Source page contains an invalid record.'')
                | Some rows \<Rightarrow> Inr rows)
      | _ \<Rightarrow> Inl (Incomplete ''Source page has an invalid array shape.''))"

definition keys_are :: "mapping_value \<Rightarrow> string list \<Rightarrow> bool" where
  "keys_are d ks \<longleftrightarrow> set (map fst d) = set ks"

definition envelope_of :: "pyval \<Rightarrow> int \<Rightarrow> int \<Rightarrow> int \<Rightarrow> (mapping_value list \<times> int \<times> bool) src" where
  "envelope_of v position psize maximum =
     (case v of
        PDict d \<Rightarrow>
          if \<not> keys_are d [''data'', ''pagingInfo''] then Inl (Incomplete ''Source paging envelope is unavailable.'')
          else (case dget_none d ''pagingInfo'' of
                  PDict info \<Rightarrow>
                    (case (int_value (dget_none info ''totalRecords''), int_value (dget_none info ''totalPages''),
                           int_value (dget_none info ''pageSize''), int_value (dget_none info ''pageNumber'')) of
                       (Some tot, Some total_pages, Some page_size, Some page_number) \<Rightarrow>
                         if \<not> keys_are info [''totalRecords'', ''totalPages'', ''pageSize'', ''pageNumber'']
                         then Inl (Incomplete ''Source paging metadata is invalid.'')
                         else (let pages = (tot + psize - 1) div psize
                               in if \<not> (0 \<le> tot \<and> tot \<le> maximum) \<or> page_size \<noteq> psize \<or> page_number \<noteq> position \<or>
                                     total_pages \<notin> (if tot = 0 then {0, 1} else {pages}) \<or> position > max pages 1
                                  then Inl (Incomplete ''Source paging metadata is inconsistent.'')
                                  else bind_res (array_of (if dget_none d ''data'' = PNone \<and> tot = 0 then PList []
                                                           else dget_none d ''data'') psize) (\<lambda>rows.
                                       if int (length rows) \<noteq> min psize (max 0 (tot - (position - 1) * psize))
                                       then Inl (Incomplete ''Source page is incomplete.'')
                                       else Inr (rows, tot, position \<ge> max pages 1)))
                     | _ \<Rightarrow> Inl (Incomplete ''Source paging metadata is invalid.''))
                | _ \<Rightarrow> Inl (Incomplete ''Source paging metadata is invalid.''))
      | _ \<Rightarrow> Inl (Incomplete ''Source paging envelope is unavailable.''))"

text \<open>
  The rows of one response, the collection with the total the envelope announces, and whether it is
  the last page.
\<close>

definition page_rows ::
  "page_contract \<Rightarrow> int \<Rightarrow> int \<Rightarrow> int \<Rightarrow> 'k collection \<Rightarrow> pyval \<Rightarrow> (mapping_value list \<times> 'k collection \<times> bool) src" where
  "page_rows contract psize maximum position c response =
     (if envelope contract then
        bind_res (envelope_of response position psize maximum) (\<lambda>(rows, tot, done).
        if expected_total c \<noteq> None \<and> expected_total c \<noteq> Some tot
        then Inl (Shifted ''Source total changed during read.'')
        else Inr (rows, c\<lparr>expected_total := Some tot\<rparr>, done))
      else bind_res (array_of response psize) (\<lambda>rows. Inr (rows, c, rows = [])))"

section \<open>The zero-origin probe\<close>

definition total_moved :: "page_contract \<Rightarrow> 'k collection \<Rightarrow> mapping_value list \<Rightarrow> bool" where
  "total_moved contract c rows \<longleftrightarrow>
     (case total_field contract of
        None \<Rightarrow> False
      | Some field \<Rightarrow> list_ex (\<lambda>row. case int_value (dget_none row field) of
          None \<Rightarrow> False | Some t \<Rightarrow> expected_total c \<noteq> Some t) rows)"

definition probe ::
  "page_contract \<Rightarrow> (mapping_value \<Rightarrow> 'k src) \<Rightarrow> int \<Rightarrow> int \<Rightarrow> 'k collection \<Rightarrow>
   mapping_value list \<Rightarrow> mapping_value list \<Rightarrow> ((int \<times> int \<times> bool) \<times> 'k collection) src" where
  "probe contract identify psize maximum c fst_page snd_page =
     bind_res (add_rows contract identify maximum c fst_page) (\<lambda>c.
     if fst_page = [] then
       bind_res (add_rows contract identify maximum c snd_page) (\<lambda>c. Inr ((2, 1, snd_page = []), c))
     else if list_all2 row_eq fst_page snd_page then Inr ((2, 1, False), c)
     else if total_moved contract c snd_page then Inl (Shifted ''Source total changed during read.'')
     else
       bind_res (map_res identify fst_page) (\<lambda>first_ids.
       bind_res (map_res identify snd_page) (\<lambda>second_ids.
       if \<not> distinct second_ids then Inl (Incomplete ''Source probe repeats an identity.'')
       else if set first_ids \<inter> set second_ids \<noteq> {} then
         if length fst_page > 1 \<and> length snd_page \<ge> length fst_page - 1 \<and>
            list_all2 row_eq (drop 1 fst_page) (take (length fst_page - 1) snd_page)
         then Inr ((int (length fst_page), psize, False), c)
         else Inl (Incomplete ''Source zero-origin probe is ambiguous.'')
       else bind_res (add_rows contract identify maximum c snd_page) (\<lambda>c. Inr ((2, 1, snd_page = []), c)))))"

section \<open>Reading all pages\<close>

type_synonym 'w source_fetch = "mapping_value \<Rightarrow> 'w \<Rightarrow> 'w \<times> pyval src"

definition paging_fields :: "page_contract \<Rightarrow> int \<Rightarrow> int \<Rightarrow> mapping_value" where
  "paging_fields contract psize position =
     [(size_field contract, PInt psize), (position_field contract, PInt position)]"

text \<open>One request under the page bound; the number of requests made is part of the state.\<close>

definition read_page :: "page_contract \<Rightarrow> 'w source_fetch \<Rightarrow> int \<Rightarrow> int \<Rightarrow> int \<Rightarrow> int \<times> 'w \<Rightarrow> (int \<times> 'w) \<times> pyval src" where
  "read_page contract fetch psize maximum_pages position rw =
     (case rw of (reqs, w) \<Rightarrow>
        if reqs \<ge> maximum_pages then (rw, Inl (Incomplete ''Source collection exceeds its page bound.''))
        else (case fetch (paging_fields contract psize position) w of (w', r) \<Rightarrow> ((reqs + 1, w'), r)))"

function page_scan ::
  "page_contract \<Rightarrow> (mapping_value \<Rightarrow> 'k src) \<Rightarrow> 'w source_fetch \<Rightarrow> int \<Rightarrow> int \<Rightarrow> int \<Rightarrow> int \<Rightarrow> int \<Rightarrow>
   'k collection \<Rightarrow> int \<times> 'w \<Rightarrow> (int \<times> 'w) \<times> mapping_value list src" where
  "page_scan contract identify fetch psize maximum maximum_pages step position c rw =
     (case read_page contract fetch psize maximum_pages position rw of
        (rw', Inl e) \<Rightarrow> (rw', Inl e)
      | (rw', Inr response) \<Rightarrow>
          (case page_rows contract psize maximum position c response of
             Inl e \<Rightarrow> (rw', Inl e)
           | Inr (rows, c1, done) \<Rightarrow>
               (case add_rows contract identify maximum c1 rows of
                  Inl e \<Rightarrow> (rw', Inl e)
                | Inr c2 \<Rightarrow>
                    if done then (rw', finish c2)
                    else page_scan contract identify fetch psize maximum maximum_pages step
                           (position + (if step = psize \<and> zero_probe contract then int (length rows) else step))
                           c2 rw')))"
  by pat_completeness auto
termination
  by (relation "measure (\<lambda>(contract, identify, fetch, psize, maximum, maximum_pages, step, position, c, rw).
        nat (maximum_pages - fst rw))")
    (auto simp: read_page_def split: if_splits prod.splits)

declare page_scan.simps [simp del]

definition bounds_ok :: "page_contract \<Rightarrow> int \<Rightarrow> int \<Rightarrow> int \<Rightarrow> bool" where
  "bounds_ok contract psize maximum maximum_pages \<longleftrightarrow>
     1 \<le> psize \<and> psize \<le> 500 \<and> 1 \<le> maximum \<and> maximum \<le> 1000000 \<and> 1 \<le> maximum_pages \<and> maximum_pages \<le> 10000 \<and>
     \<not> (envelope contract \<and> zero_probe contract)"

definition read_array :: "page_contract \<Rightarrow> 'w source_fetch \<Rightarrow> int \<Rightarrow> int \<Rightarrow> int \<Rightarrow> int \<times> 'w \<Rightarrow> (int \<times> 'w) \<times> mapping_value list src" where
  "read_array contract fetch psize maximum_pages position rw =
     (case read_page contract fetch psize maximum_pages position rw of
        (rw', r) \<Rightarrow> (rw', bind_res r (\<lambda>response. array_of response psize)))"

definition read_pages ::
  "'w source_fetch \<Rightarrow> page_contract \<Rightarrow> (mapping_value \<Rightarrow> 'k src) \<Rightarrow> int \<Rightarrow> int \<Rightarrow> int \<Rightarrow> 'w \<Rightarrow>
   (int \<times> 'w) \<times> mapping_value list src" where
  "read_pages fetch contract identify psize maximum maximum_pages w =
     (if \<not> bounds_ok contract psize maximum maximum_pages then ((0, w), Inl Invalid_bounds)
      else if zero_probe contract then
        (case read_array contract fetch psize maximum_pages 0 (0, w) of
           (rw, Inl e) \<Rightarrow> (rw, Inl e)
         | (rw, Inr fst_page) \<Rightarrow>
             (case read_array contract fetch psize maximum_pages 1 rw of
                (rw, Inl e) \<Rightarrow> (rw, Inl e)
              | (rw, Inr snd_page) \<Rightarrow>
                  (case probe contract identify psize maximum new_collection fst_page snd_page of
                     Inl e \<Rightarrow> (rw, Inl e)
                   | Inr ((position, step, done), c) \<Rightarrow>
                       if done then (rw, finish c)
                       else page_scan contract identify fetch psize maximum maximum_pages step position c rw)))
      else page_scan contract identify fetch psize maximum maximum_pages 1 1 new_collection (0, w))"

end
