(* ===== verification/Source_Pages_Facts.thy ===== *)
theory Source_Pages_Facts
  imports Source_Pages
begin

text \<open>
  The strict page reader. A collection that it returns was received completely and without
  repetition; and every server that answers consistently, in any of the supported page numberings,
  is read to the end.
\<close>

section \<open>Equality of values\<close>

text \<open>Values whose mappings have distinct keys, at every depth, as JSON decoding builds them.\<close>

fun json_ok :: "pyval \<Rightarrow> bool" where
  "json_ok (PList vs) \<longleftrightarrow> list_all json_ok vs"
| "json_ok (PDict d) \<longleftrightarrow> distinct (map fst d) \<and> list_all (\<lambda>(k, v). json_ok v) d"
| "json_ok _ \<longleftrightarrow> True"

lemma py_eq_refl: "json_ok v \<Longrightarrow> py_eq v v"
proof (induction v rule: json_ok.induct)
  case (1 vs)
  then show ?case by (auto simp: list_all_iff list.rel_refl_strong)
next
  case (2 d)
  then show ?case by (fastforce simp: list_all_iff)
qed auto

section \<open>A consistent server\<close>

text \<open>
  The numberings of pages a server may use: envelopes and plain arrays counted from one, arrays
  counted from zero, arrays counted from one that also answer to zero, and row offsets.
\<close>

datatype dialect = Enveloped | One_based | Zero_based | Aliased | Offsets

fun first_row :: "dialect \<Rightarrow> int \<Rightarrow> int \<Rightarrow> int" where
  "first_row Enveloped psize p = (p - 1) * psize"
| "first_row One_based psize p = (p - 1) * psize"
| "first_row Zero_based psize p = p * psize"
| "first_row Aliased psize p = max 0 (p - 1) * psize"
| "first_row Offsets psize p = p"

definition chunk :: "mapping_value list \<Rightarrow> int \<Rightarrow> int \<Rightarrow> mapping_value list" where
  "chunk db psize k = take (nat psize) (drop (nat k) db)"

definition served :: "dialect \<Rightarrow> mapping_value list \<Rightarrow> int \<Rightarrow> int \<Rightarrow> pyval" where
  "served d db psize p =
     (let rows = PList (map PDict (chunk db psize (first_row d psize p)))
      in if d = Enveloped then
           PDict [(''data'', rows), (''pagingInfo'', PDict
             [(''totalRecords'', PInt (int (length db))), (''totalPages'', PInt ((int (length db) + psize - 1) div psize)),
              (''pageSize'', PInt psize), (''pageNumber'', PInt p)])]
         else rows)"

text \<open>The server reads the two paging fields of the request and leaves the world alone.\<close>

definition server :: "page_contract \<Rightarrow> dialect \<Rightarrow> mapping_value list \<Rightarrow> 'w source_fetch" where
  "server contract d db req w =
     (case (dget_none req (size_field contract), dget_none req (position_field contract)) of
        (PInt psize, PInt p) \<Rightarrow> (w, Inr (served d db psize p))
      | _ \<Rightarrow> (w, Inl (Request_failed (ValueError ''paging''))))"

definition speaks :: "page_contract \<Rightarrow> dialect \<Rightarrow> bool" where
  "speaks contract d \<longleftrightarrow>
     size_field contract \<noteq> position_field contract \<and> (envelope contract \<longleftrightarrow> d = Enveloped) \<and>
     (zero_probe contract \<longleftrightarrow> d \<in> {Zero_based, Aliased, Offsets})"

text \<open>What the rows of the collection must be: identified, distinct, with correct totals and ordinals.\<close>

definition table_ok ::
  "page_contract \<Rightarrow> (mapping_value \<Rightarrow> 'k src) \<Rightarrow> int \<Rightarrow> mapping_value list \<Rightarrow> 'k list \<Rightarrow> bool" where
  "table_ok contract identify origin db ids \<longleftrightarrow>
     map_res identify db = Inr ids \<and> distinct ids \<and> list_all (\<lambda>r. json_ok (PDict r)) db \<and> origin \<in> {0, 1} \<and>
     (\<forall>r \<in> set db. \<forall>q \<in> set db. row_eq r q \<longrightarrow> identify r = identify q) \<and>
     (\<forall>f. total_field contract = Some f \<longrightarrow> list_all (\<lambda>r. int_value (dget_none r f) = Some (int (length db))) db) \<and>
     (\<forall>f. ordinal_field contract = Some f \<longrightarrow>
        (\<forall>i < length db. int_value (dget_none (db ! i) f) = Some (int i + origin)))"

text \<open>The collection after the first \<open>n\<close> rows.\<close>

definition holds_rows ::
  "page_contract \<Rightarrow> int \<Rightarrow> mapping_value list \<Rightarrow> 'k list \<Rightarrow> nat \<Rightarrow> 'k collection \<Rightarrow> bool" where
  "holds_rows contract origin db ids n c \<longleftrightarrow>
     n \<le> length db \<and> co_rows c = take n db \<and> identities c = take n ids \<and> received c = int n \<and>
     expected_total c \<in> {None, Some (int (length db))} \<and> (total_field contract \<noteq> None \<and> 0 < n \<longrightarrow> expected_total c \<noteq> None) \<and>
     ordinal_origin c \<in> {None, Some origin} \<and> (ordinal_field contract \<noteq> None \<and> 0 < n \<longrightarrow> ordinal_origin c \<noteq> None)"

lemma holds_new: "holds_rows contract origin db ids 0 new_collection"
  by (simp add: holds_rows_def new_collection_def)

lemma table_row:
  assumes "table_ok contract identify origin db ids" and "n < length db"
  shows "identify (db ! n) = Inr (ids ! n)" and "length ids = length db" and "ids ! n \<notin> set (take n ids)"
proof -
  have l: "list_all2 (\<lambda>x y. identify x = Inr y) db ids" using assms(1) by (simp add: table_ok_def map_res_eq_Inr)
  show len: "length ids = length db" using list_all2_lengthD [OF l] by simp
  show "identify (db ! n) = Inr (ids ! n)" using list_all2_nthD [OF l assms(2)] .
  have "distinct ids" using assms(1) by (simp add: table_ok_def)
  then show "ids ! n \<notin> set (take n ids)" using assms(2) len
    by (metis id_take_nth_drop not_distinct_conv_prefix distinct_append distinct.simps(2) disjoint_insert(1) list.simps(15) take_Suc_conv_app_nth)
qed

lemma check_total_holds:
  assumes t: "table_ok contract identify origin db ids" and n: "n < length db" "int (length db) \<le> maximum"
    and c: "holds_rows contract origin db ids n c"
  shows "\<exists>e. check_total contract maximum c (db ! n) = Inr (c\<lparr>expected_total := e\<rparr>) \<and>
    e \<in> {None, Some (int (length db))} \<and> (total_field contract \<noteq> None \<longrightarrow> e \<noteq> None)"
proof (cases "total_field contract")
  case None
  then show ?thesis using c by (intro exI [of _ "expected_total c"]) (simp add: check_total_def holds_rows_def)
next
  case (Some f)
  then have "int_value (dget_none (db ! n) f) = Some (int (length db))" using t n by (simp add: table_ok_def list_all_length)
  then show ?thesis using c n Some by (intro exI [of _ "Some (int (length db))"]) (auto simp: check_total_def holds_rows_def)
qed

lemma check_ordinal_holds:
  assumes t: "table_ok contract identify origin db ids" and n: "n < length db"
    and c: "holds_rows contract origin db ids n c"
  shows "\<exists>i. check_ordinal contract (c\<lparr>expected_total := e\<rparr>) (db ! n) = Inr (c\<lparr>expected_total := e, ordinal_origin := i\<rparr>) \<and>
    i \<in> {None, Some origin} \<and> (ordinal_field contract \<noteq> None \<longrightarrow> i \<noteq> None)"
proof (cases "ordinal_field contract")
  case None
  then show ?thesis using c by (intro exI [of _ "ordinal_origin c"]) (cases c, simp add: check_ordinal_def holds_rows_def)
next
  case (Some f)
  then have "int_value (dget_none (db ! n) f) = Some (int n + origin)" "origin \<in> {0, 1}" using t n by (auto simp: table_ok_def)
  then show ?thesis using c Some
    by (intro exI [of _ "Some origin"]) (auto simp: check_ordinal_def holds_rows_def Let_def)
qed

lemma add_row_holds:
  assumes t: "table_ok contract identify origin db ids" and n: "n < length db" "int (length db) \<le> maximum"
    and c: "holds_rows contract origin db ids n c" and p: "fst ` set page \<subseteq> set (take n ids)"
  shows "\<exists>c' page'. add_row contract identify maximum (c, page) (db ! n) = Inr (c', page') \<and>
    holds_rows contract origin db ids (Suc n) c' \<and> fst ` set page' \<subseteq> set (take (Suc n) ids)"
proof -
  note r = table_row [OF t n(1)]
  have page: "map_of page (ids ! n) = None" using p r(3) by (auto simp: map_of_eq_None_iff)
  have new: "ids ! n \<notin> set (identities c)" using c r(3) by (simp add: holds_rows_def)
  obtain e where e: "check_total contract maximum c (db ! n) = Inr (c\<lparr>expected_total := e\<rparr>)"
      "e \<in> {None, Some (int (length db))}" "total_field contract \<noteq> None \<longrightarrow> e \<noteq> None"
    using check_total_holds [OF t n c] by blast
  obtain i where i: "check_ordinal contract (c\<lparr>expected_total := e\<rparr>) (db ! n) = Inr (c\<lparr>expected_total := e, ordinal_origin := i\<rparr>)"
      "i \<in> {None, Some origin}" "ordinal_field contract \<noteq> None \<longrightarrow> i \<noteq> None"
    using check_ordinal_holds [OF t n(1) c] by blast
  let ?c = "c\<lparr>co_rows := co_rows c @ [db ! n], identities := identities c @ [ids ! n], received := received c + 1,
    expected_total := e, ordinal_origin := i\<rparr>"
  have "add_row contract identify maximum (c, page) (db ! n) = Inr (?c, AList.update (ids ! n) (db ! n) page)"
    using r(1) page new e(1) i(1) by (simp add: add_row_def Let_def)
  moreover have "holds_rows contract origin db ids (Suc n) ?c"
    using c e(2,3) i(2,3) n r(2) by (simp add: holds_rows_def take_Suc_conv_app_nth)
  moreover have "fst ` set (AList.update (ids ! n) (db ! n) page) \<subseteq> set (take (Suc n) ids)"
    using p n r(2) by (auto simp: dom_update take_Suc_conv_app_nth)
  ultimately show ?thesis by blast
qed

lemma add_rows_holds:
  assumes t: "table_ok contract identify origin db ids" and m: "int (length db) \<le> maximum"
    and c: "holds_rows contract origin db ids n c" and k: "n + length rows \<le> length db" "rows = take (length rows) (drop n db)"
  shows "\<exists>c'. add_rows contract identify maximum c rows = Inr c' \<and> holds_rows contract origin db ids (n + length rows) c'"
proof -
  have fold: "\<exists>c' page'. foldM_res (add_row contract identify maximum) (c, page) rows = Inr (c', page') \<and>
      holds_rows contract origin db ids (n + length rows) c'"
    if "holds_rows contract origin db ids n c" "fst ` set page \<subseteq> set (take n ids)"
      "n + length rows \<le> length db" "rows = take (length rows) (drop n db)" for n c page
    using that
  proof (induction rows arbitrary: n c page)
    case (Cons r rows)
    then have n: "n < length db" by simp
    have d: "drop n db = db ! n # drop (Suc n) db" by (rule Cons_nth_drop_Suc [OF n, symmetric])
    have r: "r = db ! n" "rows = take (length rows) (drop (Suc n) db)" using Cons.prems(4) d by simp_all
    obtain c1 page1 where 1: "add_row contract identify maximum (c, page) r = Inr (c1, page1)"
        "holds_rows contract origin db ids (Suc n) c1" "fst ` set page1 \<subseteq> set (take (Suc n) ids)"
      using add_row_holds [OF t n m Cons.prems(1,2)] r(1) by blast
    from Cons.IH [OF 1(2,3) _ r(2)] Cons.prems(3) 1(1) show ?case by simp
  qed simp
  have "received c + int (length rows) \<le> maximum" using c m k(1) by (simp add: holds_rows_def)
  then show ?thesis using fold [OF c _ k, of "[]"] by (auto simp: add_rows_def)
qed

lemma finish_holds: "holds_rows contract origin db ids (length db) c \<Longrightarrow> finish c = Inr db"
  by (auto simp: finish_def holds_rows_def)

section \<open>Reading a consistent server\<close>

lemma chunk_length: "0 \<le> k \<Longrightarrow> 0 \<le> psize \<Longrightarrow> int (length (chunk db psize k)) = min psize (max 0 (int (length db) - k))"
  by (auto simp: chunk_def)

lemma chunk_take: "0 \<le> k \<Longrightarrow> chunk db psize k = take (length (chunk db psize k)) (drop (nat (min k (int (length db)))) db)"
  by (cases "k \<le> int (length db)") (simp_all add: chunk_def min_def)

lemma chunk_Nil: "0 \<le> k \<Longrightarrow> 1 \<le> psize \<Longrightarrow> chunk db psize k = [] \<longleftrightarrow> int (length db) \<le> k"
  by (auto simp: chunk_def)

lemma those_dicts [simp]: "those (map (dict_value \<circ> PDict) rows) = Some rows"
  by (induction rows) simp_all

lemma array_of_rows: "int (length rows) \<le> psize \<Longrightarrow> array_of (PList (map PDict rows)) psize = Inr rows"
  by (simp add: array_of_def)

lemma array_of_chunk: "0 \<le> k \<Longrightarrow> 0 \<le> psize \<Longrightarrow> array_of (PList (map PDict (chunk db psize k))) psize = Inr (chunk db psize k)"
  by (rule array_of_rows) (simp add: chunk_def)

text \<open>Requests still needed for the rows from the \<open>n\<close>th on, the empty page that ends the scan included.\<close>

definition needed :: "mapping_value list \<Rightarrow> int \<Rightarrow> int \<Rightarrow> int" where
  "needed db psize n = (if n \<ge> int (length db) then 1 else (int (length db) - n - 1) div psize + 2)"

lemma needed_step:
  assumes "1 \<le> psize" and "0 \<le> n" and "n < int (length db)"
  shows "needed db psize (n + int (length (chunk db psize n))) + 1 \<le> needed db psize n"
proof (cases "n + psize < int (length db)")
  case True
  then have len: "int (length (chunk db psize n)) = psize" using assms chunk_length [of n psize db] by simp
  have "(int (length db) - (n + psize) - 1) div psize = (int (length db) - n - 1 - psize) div psize" by (simp add: algebra_simps)
  also have "\<dots> = (int (length db) - n - 1) div psize - 1" using assms(1) div_add_self2 [of psize "int (length db) - n - 1 - psize"] by simp
  finally show ?thesis using True assms by (simp add: needed_def len)
next
  case False
  then have len: "n + int (length (chunk db psize n)) = int (length db)" using assms chunk_length [of n psize db] by simp
  show ?thesis using assms by (simp add: needed_def len pos_imp_zdiv_nonneg_iff)
qed

lemma needed_pos: "1 \<le> psize \<Longrightarrow> 1 \<le> needed db psize n"
  by (auto simp: needed_def pos_imp_zdiv_nonneg_iff)

lemma read_page_server:
  assumes "speaks contract d" and "reqs < maximum_pages"
  shows "read_page contract (server contract d db) psize maximum_pages p (reqs, w) = ((reqs + 1, w), Inr (served d db psize p))"
  using assms by (auto simp: read_page_def server_def paging_fields_def dget_def speaks_def)

lemma scan_arrays:
  assumes t: "table_ok contract identify origin db ids" and m: "int (length db) \<le> maximum"
    and s: "speaks contract d" "d \<noteq> Enveloped" and psize: "1 \<le> psize"
    and adv: "\<And>p rows. 1 \<le> p \<Longrightarrow> rows = chunk db psize (first_row d psize p) \<Longrightarrow> rows \<noteq> [] \<Longrightarrow>
      1 \<le> p + (if step = psize \<and> zero_probe contract then int (length rows) else step) \<and>
      min (first_row d psize (p + (if step = psize \<and> zero_probe contract then int (length rows) else step))) (int (length db)) =
      first_row d psize p + int (length rows)"
    and c: "holds_rows contract origin db ids (nat (min (first_row d psize p) (int (length db)))) c"
    and p: "1 \<le> p" and reqs: "reqs + needed db psize (min (first_row d psize p) (int (length db))) \<le> maximum_pages"
  shows "snd (page_scan contract identify (server contract d db) psize maximum maximum_pages step p c (reqs, w)) = Inr db"
  using c p reqs
proof (induction "nat (maximum_pages - reqs)" arbitrary: reqs p c rule: less_induct)
  case less
  let ?st = "first_row d psize p" and ?N = "int (length db)"
  let ?rows = "chunk db psize ?st"
  define p' where "p' = p + (if step = psize \<and> zero_probe contract then int (length ?rows) else step)"
  have st: "0 \<le> ?st" using less.prems(2) psize by (cases d) simp_all
  have more: "reqs < maximum_pages" using less.prems(3) needed_pos [OF psize, of db "min ?st ?N"] by simp
  have page: "page_rows contract psize maximum p c (served d db psize p) = Inr (?rows, c, ?rows = [])"
    using s st psize array_of_chunk [of ?st psize db] by (auto simp: page_rows_def served_def speaks_def Let_def)
  have len: "nat (min ?st ?N) + length ?rows \<le> length db" using chunk_length [OF st, of psize db] psize st by auto
  obtain c2 where c2: "add_rows contract identify maximum c ?rows = Inr c2"
      "holds_rows contract origin db ids (nat (min ?st ?N) + length ?rows) c2"
    using add_rows_holds [OF t m less.prems(1) len chunk_take [OF st]] by blast
  show ?case
  proof (cases "?rows = []")
    case True
    then have "?N \<le> ?st" using chunk_Nil [OF st psize] by simp
    then have "holds_rows contract origin db ids (length db) c2" using c2(2) True by (simp add: min_absorb2)
    then show ?thesis using True page c2(1)
      by (simp add: page_scan.simps [of contract] read_page_server [OF s(1) more] finish_holds)
  next
    case False
    then have lt: "?st < ?N" using chunk_Nil [OF st psize] by simp
    note a = adv [OF less.prems(2) refl False, folded p'_def]
    have n': "nat (min (first_row d psize p') ?N) = nat (min ?st ?N) + length ?rows" using a lt st by (simp add: nat_add_distrib)
    have h: "holds_rows contract origin db ids (nat (min (first_row d psize p') ?N)) c2" using c2(2) by (simp only: n')
    have r: "reqs + 1 + needed db psize (min (first_row d psize p') ?N) \<le> maximum_pages"
      using less.prems(3) needed_step [OF psize st lt] a lt by simp
    have "nat (maximum_pages - (reqs + 1)) < nat (maximum_pages - reqs)" using more by simp
    from less.hyps [OF this h _ r] a
    have "snd (page_scan contract identify (server contract d db) psize maximum maximum_pages step p' c2 (reqs + 1, w)) = Inr db"
      by blast
    then show ?thesis using False page c2(1)
      by (simp add: page_scan.simps [of contract _ _ _ _ _ _ p] read_page_server [OF s(1) more] flip: p'_def)
  qed
qed

lemma envelope_of_served:
  assumes psize: "1 \<le> psize" and m: "int (length db) \<le> maximum"
    and p: "1 \<le> p" "p \<le> max ((int (length db) + psize - 1) div psize) 1"
  shows "envelope_of (served Enveloped db psize p) p psize maximum =
    Inr (chunk db psize ((p - 1) * psize), int (length db), p \<ge> max ((int (length db) + psize - 1) div psize) 1)"
proof -
  have k: "0 \<le> (p - 1) * psize" using p psize by simp
  have zero: "(psize - 1) div psize = 0" using psize by (simp add: div_pos_pos_trivial)
  have p1: "db = [] \<Longrightarrow> p = 1" using p zero by simp
  have p2: "(int (length db) + psize - 1) div psize < p \<Longrightarrow> p = 1" using p by (simp add: max_def split: if_splits)
  show ?thesis using array_of_chunk [OF k, of psize db] chunk_length [OF k, of psize db] psize m p1 p2 p(1) zero
    by (simp add: envelope_of_def served_def Let_def keys_are_def dget_def insert_commute)
qed

lemma last_envelope:
  assumes "1 \<le> psize" and "1 \<le> p" and "p = max ((int n + psize - 1) div psize) 1"
  shows "int n \<le> (p - 1) * psize + psize \<and> (p - 1) * psize \<le> int n"
proof (cases "n = 0")
  case True
  have "(psize - 1) div psize = 0" using assms(1) by (simp add: div_pos_pos_trivial)
  then show ?thesis using assms True by simp
next
  case False
  let ?q = "(int n + psize - 1) div psize"
  have "psize \<le> int n + psize - 1" using False by simp
  then have "1 \<le> ?q" using assms(1) by (simp add: pos_imp_zdiv_pos_iff int_one_le_iff_zero_less)
  then have q: "p = ?q" using assms(3) by simp
  define r where "r = (int n + psize - 1) mod psize"
  have "p * psize + r = int n + psize - 1" unfolding q r_def by (rule div_mult_mod_eq)
  moreover have "0 \<le> r" "r < psize" using assms(1) by (simp_all add: r_def)
  moreover have "(p - 1) * psize = p * psize - psize" by (simp add: algebra_simps)
  ultimately show ?thesis by linarith
qed

lemma inner_envelope:
  assumes "1 \<le> psize" and "1 \<le> p" and "p < max ((int n + psize - 1) div psize) 1"
  shows "(p - 1) * psize + psize \<le> int n"
proof -
  have "p + 1 \<le> (int n + psize - 1) div psize" using assms by simp
  then have "(p + 1) * psize \<le> (int n + psize - 1) div psize * psize" using assms(1) by (simp add: mult_right_mono)
  also have "\<dots> \<le> int n + psize - 1"
    using div_mult_mod_eq [of "int n + psize - 1" psize] pos_mod_sign [of psize "int n + psize - 1"] assms(1) by linarith
  finally show ?thesis using assms(1) by (simp add: algebra_simps)
qed

lemma scan_envelopes:
  assumes t: "table_ok contract identify origin db ids" and m: "int (length db) \<le> maximum"
    and s: "speaks contract Enveloped" and psize: "1 \<le> psize"
    and c: "holds_rows contract origin db ids (nat ((p - 1) * psize)) c"
    and p: "1 \<le> p" "p \<le> max ((int (length db) + psize - 1) div psize) 1"
    and reqs: "reqs + max ((int (length db) + psize - 1) div psize) 1 - p < maximum_pages"
  shows "snd (page_scan contract identify (server contract Enveloped db) psize maximum maximum_pages 1 p c (reqs, w)) = Inr db"
  using c p reqs
proof (induction "nat (max ((int (length db) + psize - 1) div psize) 1 - p)" arbitrary: reqs p c rule: less_induct)
  case less
  let ?N = "int (length db)" and ?last = "max ((int (length db) + psize - 1) div psize) 1"
  let ?rows = "chunk db psize ((p - 1) * psize)"
  have k: "0 \<le> (p - 1) * psize" using less.prems(2) psize by simp
  have more: "reqs < maximum_pages" using less.prems(3,4) by simp
  have env: "envelope contract" "\<not> zero_probe contract" using s by (simp_all add: speaks_def)
  let ?c1 = "c\<lparr>expected_total := Some ?N\<rparr>"
  have page: "page_rows contract psize maximum p c (served Enveloped db psize p) = Inr (?rows, ?c1, ?last \<le> p)"
    using env envelope_of_served [OF psize m less.prems(2,3)] less.prems(1) by (auto simp: page_rows_def holds_rows_def)
  have c1: "holds_rows contract origin db ids (nat ((p - 1) * psize)) ?c1" using less.prems(1) by (simp add: holds_rows_def)
  have kN: "(p - 1) * psize \<le> ?N" using less.prems(1) k by (simp add: holds_rows_def nat_le_iff)
  have len: "nat ((p - 1) * psize) + length ?rows \<le> length db" using chunk_length [OF k, of psize db] psize k kN by simp
  have take: "?rows = take (length ?rows) (drop (nat ((p - 1) * psize)) db)" using chunk_take [OF k, of db psize] kN by (simp add: min_absorb1)
  obtain c2 where c2: "add_rows contract identify maximum ?c1 ?rows = Inr c2"
      "holds_rows contract origin db ids (nat ((p - 1) * psize) + length ?rows) c2"
    using add_rows_holds [OF t m c1 len take] by blast
  show ?case
  proof (cases "?last \<le> p")
    case True
    then have "p = ?last" using less.prems(3) by (rule antisym [rotated])
    from last_envelope [OF psize less.prems(2) this] chunk_length [OF k, of psize db] psize k
    have "nat ((p - 1) * psize) + length ?rows = length db" by simp
    then show ?thesis using True page c2
      by (simp add: page_scan.simps [of contract] read_page_server [OF s more] finish_holds)
  next
    case False
    then have "p < ?last" by (rule not_le_imp_less)
    from inner_envelope [OF psize less.prems(2) this] chunk_length [OF k, of psize db] psize k
    have "int (length ?rows) = psize" by simp
    moreover have "(p + 1 - 1) * psize = (p - 1) * psize + psize" by (simp add: algebra_simps)
    ultimately have "nat ((p - 1) * psize) + length ?rows = nat ((p + 1 - 1) * psize)" using k by linarith
    then have h: "holds_rows contract origin db ids (nat ((p + 1 - 1) * psize)) c2" using c2(2) by simp
    have "snd (page_scan contract identify (server contract Enveloped db) psize maximum maximum_pages 1 (p + 1) c2 (reqs + 1, w)) = Inr db"
      by (rule less.hyps [OF _ h]) (use False less.prems in auto)
    moreover have "page_rows contract psize maximum p c (served Enveloped db psize p) = Inr (?rows, ?c1, False)"
      by (simp only: page False)
    ultimately show ?thesis using c2(1) env
      by (simp add: page_scan.simps [of contract _ _ _ _ _ _ p] read_page_server [OF s more])
  qed
qed

section \<open>The probe\<close>

lemma chunk_ids:
  assumes "table_ok contract identify origin db ids"
  shows "map_res identify (chunk db psize k) = Inr (take (nat psize) (drop (nat k) ids))"
  using assms by (auto simp: table_ok_def map_res_eq_Inr chunk_def intro: list_all2_takeI list_all2_dropI)

lemma different_rows:
  assumes t: "table_ok contract identify origin db ids" and "i < length db" and "j < length db" and "i \<noteq> j"
  shows "\<not> row_eq (db ! i) (db ! j)"
proof
  assume "row_eq (db ! i) (db ! j)"
  then have "identify (db ! i) = identify (db ! j)" using t assms(2,3) unfolding table_ok_def by (meson nth_mem)
  then have "ids ! i = ids ! j" using table_row(1) [OF t assms(2)] table_row(1) [OF t assms(3)] by simp
  moreover have "distinct ids" "length ids = length db" using t table_row(2) [OF t assms(2)] by (simp_all add: table_ok_def)
  ultimately show False using assms by (simp add: nth_eq_iff_index_eq)
qed

lemma chunk_nth: "0 \<le> k \<Longrightarrow> i < length (chunk db psize k) \<Longrightarrow> chunk db psize k ! i = db ! (nat k + i)"
  by (auto simp: chunk_def intro!: nth_drop)

text \<open>Different windows on the table are different pages.\<close>

lemma chunks_differ:
  assumes t: "table_ok contract identify origin db ids" and "1 \<le> psize" and "db \<noteq> []" and "0 < k"
  shows "\<not> list_all2 row_eq (chunk db psize 0) (chunk db psize k)"
proof
  assume eq: "list_all2 row_eq (chunk db psize 0) (chunk db psize k)"
  have ne: "0 < length (chunk db psize 0)" using assms(2,3) by (simp add: chunk_def)
  then have ne': "0 < length (chunk db psize k)" using list_all2_lengthD [OF eq] by simp
  then have lt: "nat k < length db" by (simp add: chunk_def)
  have "row_eq (chunk db psize 0 ! 0) (chunk db psize k ! 0)" using list_all2_nthD [OF eq ne] .
  moreover have "chunk db psize 0 ! 0 = db ! 0" "chunk db psize k ! 0 = db ! nat k"
    using ne ne' assms(4) by (simp_all add: chunk_nth)
  ultimately show False using different_rows [OF t _ lt, of 0] assms(3,4) by simp
qed

lemma total_stays:
  assumes t: "table_ok contract identify origin db ids" and c: "holds_rows contract origin db ids n c" "0 < n"
  shows "\<not> total_moved contract c (chunk db psize k)"
proof (cases "total_field contract")
  case (Some f)
  then have "expected_total c = Some (int (length db))" using c by (auto simp: holds_rows_def)
  moreover have "\<forall>r\<in>set (chunk db psize k). int_value (dget_none r f) = Some (int (length db))"
    using t Some set_take_subset [of "nat psize" "drop (nat k) db"] set_drop_subset [of "nat k" db]
    unfolding table_ok_def list_all_iff chunk_def by blast
  ultimately show ?thesis using Some by (simp add: total_moved_def list_ex_iff)
qed (simp add: total_moved_def)

lemma distinct_windows:
  assumes "distinct ids" and "i + a \<le> j"
  shows "set (take a (drop i ids)) \<inter> set (take b (drop j ids)) = {}"
proof -
  have "set (take a (drop i ids)) \<subseteq> set (take j ids)" using assms(2)
    by (metis drop_take min.absorb1 set_drop_subset set_take_subset_set_take take_drop take_take add.commute order_trans)
  moreover have "set (take b (drop j ids)) \<subseteq> set (drop j ids)" by (rule set_take_subset)
  moreover have "set (take j ids) \<inter> set (drop j ids) = {}" using assms(1) by (simp add: set_take_disj_set_drop_if_distinct)
  ultimately show ?thesis by blast
qed

text \<open>Two further pages that do not overlap are both kept.\<close>

lemma probe_disjoint:
  assumes t: "table_ok contract identify origin db ids" and m: "int (length db) \<le> maximum" and psize: "1 \<le> psize"
    and k: "0 < k" "int (length (chunk db psize 0)) = min k (int (length db))" and ne: "db \<noteq> []"
  shows "\<exists>c. probe contract identify psize maximum new_collection (chunk db psize 0) (chunk db psize k) =
      Inr ((2, 1, int (length db) \<le> k), c) \<and> holds_rows contract origin db ids (nat (min (k + psize) (int (length db)))) c"
proof -
  let ?f = "chunk db psize 0" and ?s = "chunk db psize k"
  have f: "?f \<noteq> []" using ne psize by (simp add: chunk_def)
  have lf: "0 + length ?f \<le> length db" by (simp add: chunk_def)
  obtain c1 where c1: "add_rows contract identify maximum new_collection ?f = Inr c1" "holds_rows contract origin db ids (length ?f) c1"
    using add_rows_holds [OF t m holds_new lf] chunk_take [of 0 db psize] by auto
  have n: "length ?f = nat (min k (int (length db)))" using k(2) by linarith
  have take: "?s = take (length ?s) (drop (length ?f) db)" using chunk_take [of k db psize] k(1) by (simp add: n)
  have ls: "length ?f + length ?s \<le> length db" using chunk_length [of k psize db] k psize by simp
  obtain c2 where c2: "add_rows contract identify maximum c1 ?s = Inr c2" "holds_rows contract origin db ids (length ?f + length ?s) c2"
    using add_rows_holds [OF t m c1(2) ls take] by blast
  have "length ?f + length ?s = nat (min (k + psize) (int (length db)))" using chunk_length [of k psize db] k psize by simp
  moreover have "?s = [] \<longleftrightarrow> int (length db) \<le> k" using chunk_Nil [of k psize db] k psize by simp
  moreover have "set (take (nat psize) (drop (nat 0) ids)) \<inter> set (take (nat psize) (drop (nat k) ids)) = {}"
  proof (cases "psize \<le> k")
    case True
    then show ?thesis using distinct_windows [of ids "nat 0" "nat psize" "nat k" "nat psize"] t psize by (simp add: table_ok_def)
  next
    case False
    then have "int (length db) \<le> k" using k chunk_length [of 0 psize db] psize by (simp add: min_def max_def split: if_splits)
    moreover have "length ids = length db" using t table_row(2) [OF t, of 0] ne by simp
    ultimately show ?thesis by simp
  qed
  moreover have "distinct (take (nat psize) (drop (nat k) ids))" using t by (simp add: table_ok_def)
  ultimately show ?thesis
    using f c1 c2 chunks_differ [OF t psize ne k(1)] total_stays [OF t c1(2), of psize k] chunk_ids [OF t]
    by (simp add: probe_def)
qed

lemma probe_first:
  assumes t: "table_ok contract identify origin db ids" and m: "int (length db) \<le> maximum"
  shows "\<exists>c. add_rows contract identify maximum new_collection (chunk db psize 0) = Inr c \<and>
    holds_rows contract origin db ids (length (chunk db psize 0)) c"
proof -
  have "0 + length (chunk db psize 0) \<le> length db" by (simp add: chunk_def)
  from add_rows_holds [OF t m holds_new this] chunk_take [of 0 db psize] show ?thesis by auto
qed

lemma probe_empty:
  assumes "table_ok contract identify origin db ids" and "db = []" and "1 \<le> maximum"
  shows "probe contract identify psize maximum new_collection [] [] = Inr ((2, 1, True), new_collection)"
  using assms by (simp add: probe_def add_rows_def new_collection_def)

lemma probe_aliased:
  assumes t: "table_ok contract identify origin db ids" and m: "int (length db) \<le> maximum" and psize: "1 \<le> psize" and ne: "db \<noteq> []"
  shows "\<exists>c. probe contract identify psize maximum new_collection (chunk db psize 0) (chunk db psize 0) = Inr ((2, 1, False), c) \<and>
    holds_rows contract origin db ids (nat (min psize (int (length db)))) c"
proof -
  obtain c where c: "add_rows contract identify maximum new_collection (chunk db psize 0) = Inr c"
      "holds_rows contract origin db ids (length (chunk db psize 0)) c" using probe_first [OF t m] by blast
  have "list_all (\<lambda>r. json_ok (PDict r)) (chunk db psize 0)"
    using t unfolding table_ok_def list_all_iff chunk_def by (meson in_set_takeD in_set_dropD)
  then have "list_all2 row_eq (chunk db psize 0) (chunk db psize 0)"
    by (auto simp: list_all_iff simp del: py_eq.simps json_ok.simps intro: list.rel_refl_strong py_eq_refl)
  moreover have "chunk db psize 0 \<noteq> []" "length (chunk db psize 0) = nat (min psize (int (length db)))" using ne psize by (simp_all add: chunk_def)
  ultimately show ?thesis using c by (simp add: probe_def)
qed

lemma probe_offsets:
  assumes t: "table_ok contract identify origin db ids" and m: "int (length db) \<le> maximum" and psize: "2 \<le> psize" and ne: "2 \<le> length db"
  shows "\<exists>c. probe contract identify psize maximum new_collection (chunk db psize 0) (chunk db psize 1) =
      Inr ((min psize (int (length db)), psize, False), c) \<and> holds_rows contract origin db ids (nat (min psize (int (length db)))) c"
proof -
  let ?f = "chunk db psize 0" and ?s = "chunk db psize 1"
  obtain c where c: "add_rows contract identify maximum new_collection ?f = Inr c" "holds_rows contract origin db ids (length ?f) c"
    using probe_first [OF t m] by blast
  have lf: "int (length ?f) = min psize (int (length db))" "length ?f > 1" using ne psize by (auto simp: chunk_def)
  have ids: "length ids = length db" using table_row(2) [OF t, of 0] ne by fastforce
  have overlap: "drop 1 ?f = take (length ?f - 1) ?s" by (simp add: chunk_def drop_take min_def)
  moreover have "list_all2 row_eq (drop 1 ?f) (drop 1 ?f)"
  proof -
    have "list_all (\<lambda>r. json_ok (PDict r)) (drop 1 ?f)"
      using t unfolding table_ok_def list_all_iff chunk_def by (meson in_set_takeD in_set_dropD)
    then show ?thesis by (auto simp: list_all_iff simp del: py_eq.simps json_ok.simps intro: list.rel_refl_strong py_eq_refl)
  qed
  moreover have "length ?s \<ge> length ?f - 1" by (auto simp: chunk_def)
  moreover have "take (nat psize) ids ! 1 = ids ! 1" "1 < length (take (nat psize) ids)"
      "take (nat psize) (drop 1 ids) ! 0 = ids ! 1" "0 < length (take (nat psize) (drop 1 ids))" using psize ne ids by auto
  then have "ids ! 1 \<in> set (take (nat psize) ids)" "ids ! 1 \<in> set (take (nat psize) (drop 1 ids))" by (metis nth_mem)+
  then have "set (take (nat psize) (drop (nat 0) ids)) \<inter> set (take (nat psize) (drop (nat 1) ids)) \<noteq> {}" by auto
  moreover have "distinct (take (nat psize) (drop (nat 1) ids))" using t by (simp add: table_ok_def)
  moreover have "db \<noteq> []" "?f \<noteq> []" using ne lf by auto
  ultimately show ?thesis
    using c lf chunks_differ [OF t _ _, of psize 1] total_stays [OF t c(2), of psize 1] chunk_ids [OF t, of psize 0] chunk_ids [OF t, of psize 1] psize
    by (simp add: probe_def flip: lf(1))
qed

section \<open>Completeness\<close>

text \<open>After the probe the scan can go on: the rows so far and the way to the next ones agree.\<close>

lemma probe_served:
  assumes t: "table_ok contract identify origin db ids" and m: "int (length db) \<le> maximum" "1 \<le> maximum" and psize: "1 \<le> psize"
    and d: "d \<in> {Zero_based, Aliased, Offsets}"
  shows "\<exists>p step done c. probe contract identify psize maximum new_collection
      (chunk db psize (first_row d psize 0)) (chunk db psize (first_row d psize 1)) = Inr ((p, step, done), c) \<and> 1 \<le> p \<and>
    holds_rows contract origin db ids (if done then length db else nat (min (first_row d psize p) (int (length db)))) c \<and>
    (done \<or> step = (if d = Offsets then psize else 1))"
proof (cases "db = []")
  case True
  then have "chunk db psize k = []" for k by (simp add: chunk_def)
  moreover have "holds_rows contract origin db ids (length db) new_collection" using holds_new True by simp
  ultimately show ?thesis using probe_empty [OF t True m(2), of psize] by (intro exI [of _ 2] exI [of _ 1] exI [of _ True]) auto
next
  case ne: False
  have f: "int (length (chunk db psize 0)) = min psize (int (length db))" using chunk_length [of 0 psize db] psize by simp
  consider (zero) "d = Zero_based" | (aliased) "d = Aliased" | (wide) "d = Offsets" "2 \<le> psize" "2 \<le> length db"
    | (narrow) "d = Offsets" "psize = 1 \<or> length db = 1" 
  proof -
    have "2 \<le> psize \<or> psize = 1" "2 \<le> length db \<or> length db = 1"
      using psize length_greater_0_conv [of db] ne by linarith+
    then show thesis using d that by auto
  qed
  then show ?thesis
  proof cases
    case zero
    obtain c where "probe contract identify psize maximum new_collection (chunk db psize 0) (chunk db psize psize) =
        Inr ((2, 1, int (length db) \<le> psize), c)" "holds_rows contract origin db ids (nat (min (psize + psize) (int (length db)))) c"
      using probe_disjoint [OF t m(1) psize _ f ne] psize by auto
    then show ?thesis using zero psize by (intro exI [of _ 2] exI [of _ 1] exI [of _ "int (length db) \<le> psize"] exI [of _ c]) (auto simp: min_absorb2)
  next
    case aliased
    then show ?thesis using probe_aliased [OF t m(1) psize ne] by (intro exI [of _ 2] exI [of _ 1] exI [of _ False]) auto
  next
    case wide
    then show ?thesis using probe_offsets [OF t m(1) wide(2,3)] psize
      by (intro exI [of _ "min psize (int (length db))"] exI [of _ psize] exI [of _ False]) auto
  next
    case narrow
    then have "int (length (chunk db psize 0)) = min 1 (int (length db))" using f ne psize by (auto simp: min_def Suc_le_eq)
    then obtain c where "probe contract identify psize maximum new_collection (chunk db psize 0) (chunk db psize 1) =
        Inr ((2, 1, int (length db) \<le> 1), c)" "holds_rows contract origin db ids (nat (min (1 + psize) (int (length db)))) c"
      using probe_disjoint [OF t m(1) psize _ _ ne, of 1] by auto
    then show ?thesis using narrow psize ne by (intro exI [of _ 2] exI [of _ 1] exI [of _ "int (length db) \<le> 1"] exI [of _ c]) (auto simp: min_def)
  qed
qed

lemma advances:
  assumes "1 \<le> psize" and "speaks contract d" and "d \<noteq> Enveloped" and "step = (if d = Offsets then psize else 1)"
    and "1 \<le> p" and "rows = chunk db psize (first_row d psize p)" and "rows \<noteq> []"
  shows "1 \<le> p + (if step = psize \<and> zero_probe contract then int (length rows) else step) \<and>
    min (first_row d psize (p + (if step = psize \<and> zero_probe contract then int (length rows) else step))) (int (length db)) =
    first_row d psize p + int (length rows)"
proof -
  have st: "0 \<le> first_row d psize p" using assms(1,5) by (cases d) simp_all
  have len: "int (length rows) = min psize (int (length db) - first_row d psize p)" "first_row d psize p < int (length db)"
    using chunk_length [OF st, of psize db] chunk_Nil [OF st assms(1)] assms by auto
  show ?thesis
  proof (cases "d = Offsets")
    case True
    then show ?thesis using assms len by (auto simp: speaks_def)
  next
    case False
    have "(if step = psize \<and> zero_probe contract then int (length rows) else step) = 1"
      using False assms(1,4) len by auto
    moreover have "first_row d psize (p + 1) = first_row d psize p + psize" using False assms(1,3,5) by (cases d) (simp_all add: algebra_simps max_def)
    ultimately show ?thesis using len assms(5) by auto
  qed
qed

lemma needed_bound: "1 \<le> psize \<Longrightarrow> 0 \<le> n \<Longrightarrow> needed db psize n \<le> int (length db) div psize + 2"
  by (auto simp: needed_def zdiv_mono1 pos_imp_zdiv_nonneg_iff intro: order_trans [of _ "0 div psize + 2"])

lemma read_array_server:
  assumes "speaks contract d" and "d \<noteq> Enveloped" and "reqs < maximum_pages" and "1 \<le> psize" and "0 \<le> p" and "first_row d psize p \<ge> 0"
  shows "read_array contract (server contract d db) psize maximum_pages p (reqs, w) = ((reqs + 1, w), Inr (chunk db psize (first_row d psize p)))"
  using read_page_server [OF assms(1,3), of db psize p w] array_of_chunk [OF assms(6), of psize db] assms(2,4)
  by (simp add: read_array_def served_def Let_def)

lemma read_pages_probed:
  assumes t: "table_ok contract identify origin db ids" and s: "speaks contract d"
    and b: "bounds_ok contract psize maximum maximum_pages" and m: "int (length db) \<le> maximum"
    and pages: "int (length db) div psize + 4 \<le> maximum_pages" and zero: "d \<in> {Zero_based, Aliased, Offsets}"
  shows "snd (read_pages (server contract d db) contract identify psize maximum maximum_pages w) = Inr db"
proof -
  let ?N = "int (length db)"
  have bounds: "1 \<le> psize" "1 \<le> maximum" using b by (simp_all add: bounds_ok_def)
  have need: "needed db psize (min k ?N) \<le> ?N div psize + 2" if "0 \<le> k" for k using needed_bound [OF bounds(1), of "min k ?N" db] that by simp
  have div0: "0 \<le> ?N div psize" using bounds by (simp add: pos_imp_zdiv_nonneg_iff)
  have d: "d \<noteq> Enveloped" using zero by auto
  have st: "0 \<le> first_row d psize 0" "0 \<le> first_row d psize 1" using zero bounds by auto
  obtain p step dn c where pr: "probe contract identify psize maximum new_collection (chunk db psize (first_row d psize 0))
        (chunk db psize (first_row d psize 1)) = Inr ((p, step, dn), c)" "1 \<le> p"
      "holds_rows contract origin db ids (if dn then length db else nat (min (first_row d psize p) ?N)) c"
      "dn \<or> step = (if d = Offsets then psize else 1)"
    using probe_served [OF t m bounds(2,1) zero] by blast
  have more: "0 < maximum_pages" "1 < maximum_pages" using pages div0 by simp_all
  have read: "read_pages (server contract d db) contract identify psize maximum maximum_pages w =
      (if dn then ((2, w), finish c) else page_scan contract identify (server contract d db) psize maximum maximum_pages step p c (2, w))"
    using zero s b pr(1) read_array_server [OF s d more(1) bounds(1) _ st(1), of db w] read_array_server [OF s d more(2) bounds(1) _ st(2), of db w]
    by (auto simp: read_pages_def speaks_def)
  show ?thesis
  proof (cases dn)
    case True
    then show ?thesis using read pr(3) by (simp add: finish_holds)
  next
    case False
    have "0 \<le> first_row d psize p" using pr(2) bounds zero by auto
    then have "2 + needed db psize (min (first_row d psize p) ?N) \<le> maximum_pages" using need [of "first_row d psize p"] pages by simp
    then have "snd (page_scan contract identify (server contract d db) psize maximum maximum_pages step p c (2, w)) = Inr db"
      by (rule scan_arrays [OF t m s d bounds(1) advances [OF bounds(1) s d] _ pr(2), rotated -1]) (use pr False in auto)
    then show ?thesis using read False by simp
  qed
qed

text \<open>
  C27: completeness. A server that answers consistently about an unchanging collection, in any of the
  five page numberings the contract admits, is read to the end within the bounds: the result is
  exactly its rows in order, none missing and none repeated.
\<close>

theorem read_pages_complete:
  assumes t: "table_ok contract identify origin db ids" and s: "speaks contract d"
    and b: "bounds_ok contract psize maximum maximum_pages" and m: "int (length db) \<le> maximum"
    and pages: "int (length db) div psize + 4 \<le> maximum_pages"
  shows "snd (read_pages (server contract d db) contract identify psize maximum maximum_pages w) = Inr db"
proof -
  let ?N = "int (length db)"
  have bounds: "1 \<le> psize" "1 \<le> maximum" using b by (simp_all add: bounds_ok_def)
  have need: "needed db psize (min k ?N) \<le> ?N div psize + 2" if "0 \<le> k" for k using needed_bound [OF bounds(1), of "min k ?N" db] that by simp
  have div0: "0 \<le> ?N div psize" using bounds by (simp add: pos_imp_zdiv_nonneg_iff)
  consider (env) "d = Enveloped" | (one) "d = One_based" | (zero) "d \<in> {Zero_based, Aliased, Offsets}" by (cases d) auto
  then show ?thesis
  proof cases
    case env
    have "(?N + psize - 1) div psize \<le> (?N + psize) div psize" using bounds by (intro zdiv_mono1) simp_all
    also have "\<dots> = ?N div psize + 1" using bounds by simp
    finally have "0 + max ((?N + psize - 1) div psize) 1 - 1 < maximum_pages" using pages div0 by simp
    then show ?thesis using scan_envelopes [OF t m s [unfolded env] bounds(1), of 1 new_collection 0] holds_new [of contract origin db ids] env s b
      by (simp add: read_pages_def speaks_def)
  next
    case one
    have "snd (page_scan contract identify (server contract d db) psize maximum maximum_pages 1 1 new_collection (0, w)) = Inr db"
      by (rule scan_arrays [OF t m s _ bounds(1) advances [OF bounds(1) s]]) (use one holds_new need [of 0] pages in auto)
    then show ?thesis using one s b by (simp add: read_pages_def speaks_def)
  next
    case zero
    show ?thesis by (rule read_pages_probed [OF t s b m pages zero])
  qed
qed

text \<open>Two rows of a list that is counted by row offset, read two at a time.\<close>

definition demo_contract :: page_contract where
  "demo_contract = \<lparr>size_field = ''maximumRows'', position_field = ''startRowIndex'', envelope = False, zero_probe = True,
     total_field = Some ''recordCount'', ordinal_field = Some ''rowNum''\<rparr>"

definition demo_rows :: "mapping_value list" where
  "demo_rows = map (\<lambda>i. [(''memberDUID'', PInt (7 + i)), (''recordCount'', PInt 3), (''rowNum'', PInt (i + 1))]) [0, 1, 2]"

definition demo_identify :: "mapping_value \<Rightarrow> int src" where
  "demo_identify row = (case int_value (dget_none row ''memberDUID'') of None \<Rightarrow> Inl (Incomplete []) | Some i \<Rightarrow> Inr i)"

theorem read_pages_complete_witness:
  "snd (read_pages (server demo_contract Offsets demo_rows) demo_contract demo_identify 2 100 10 ()) = Inr demo_rows"
proof -
  have "table_ok demo_contract demo_identify 1 demo_rows [7, 8, 9]"
    unfolding table_ok_def
    by (auto simp: demo_contract_def demo_rows_def demo_identify_def dget_def less_Suc_eq numeral_3_eq_3)
  then show ?thesis
    by (rule read_pages_complete) (simp_all add: speaks_def bounds_ok_def demo_contract_def demo_rows_def)
qed

end
