(* ===== verification/Source_Safety.thy ===== *)
theory Source_Safety
  imports Source_Pages_Facts "HOL-Library.Sublist"
begin

text \<open>
  What the strict page reader never does: return a collection that is not complete by the server's
  own evidence. The server is arbitrary here; \<open>logged\<close> keeps its responses.
\<close>

definition logged :: "'w source_fetch \<Rightarrow> (pyval list \<times> 'w) source_fetch" where
  "logged fetch req lw =
     (case lw of (lg, w) \<Rightarrow>
        (case fetch req w of
           (w', Inl e) \<Rightarrow> ((lg, w'), Inl e)
         | (w', Inr v) \<Rightarrow> ((lg @ [v], w'), Inr v)))"

text \<open>The records of a response, and the total its envelope announces.\<close>

definition list_of :: "pyval \<Rightarrow> pyval list" where
  "list_of v = (case v of PList vs \<Rightarrow> vs | _ \<Rightarrow> [])"

definition rows_in :: "page_contract \<Rightarrow> pyval \<Rightarrow> mapping_value list" where
  "rows_in contract v =
     List.map_filter dict_value (list_of (if envelope contract then dget_none (case dict_value v of None \<Rightarrow> [] | Some d \<Rightarrow> d) ''data'' else v))"

definition announced :: "pyval \<Rightarrow> int option" where
  "announced v =
     (case dict_value v of
        None \<Rightarrow> None
      | Some d \<Rightarrow> (case dict_value (dget_none d ''pagingInfo'') of
                    None \<Rightarrow> None | Some info \<Rightarrow> int_value (dget_none info ''totalRecords'')))"

section \<open>The evidence in a collection\<close>

text \<open>\<open>recv\<close> are the rows received so far, repeats included.\<close>

definition evidence ::
  "page_contract \<Rightarrow> (mapping_value \<Rightarrow> 'k src) \<Rightarrow> mapping_value list \<Rightarrow> 'k collection \<Rightarrow> bool" where
  "evidence contract identify recv c \<longleftrightarrow>
     received c = int (length recv) \<and>
     map_res identify (co_rows c) = Inr (identities c) \<and> distinct (identities c) \<and>
     set (co_rows c) \<subseteq> set recv \<and>
     (\<forall>r\<in>set recv. \<exists>q\<in>set (co_rows c). (q = r \<or> row_eq q r) \<and> identify q = identify r) \<and>
     (\<forall>f. total_field contract = Some f \<longrightarrow> (\<forall>r\<in>set recv. expected_total c \<noteq> None \<and> int_value (dget_none r f) = expected_total c)) \<and>
     (\<forall>origin. ordinal_origin c = Some origin \<longrightarrow> origin \<in> {0, 1}) \<and>
     (\<forall>f. ordinal_field contract = Some f \<longrightarrow>
        (\<forall>i < length recv. \<exists>origin. ordinal_origin c = Some origin \<and> int_value (dget_none (recv ! i) f) = Some (int i + origin)))"

text \<open>The rows of the page being added, by identity.\<close>

definition page_evidence ::
  "(mapping_value \<Rightarrow> 'k src) \<Rightarrow> 'k collection \<Rightarrow> ('k, mapping_value) dict \<Rightarrow> bool" where
  "page_evidence identify c page \<longleftrightarrow> (\<forall>(k, r) \<in> set page. r \<in> set (co_rows c) \<and> identify r = Inr k)"

lemma evidence_new: "evidence contract identify [] new_collection"
  by (simp add: evidence_def new_collection_def)

lemma check_total_Inr:
  "check_total contract maximum c row = Inr c' \<Longrightarrow>
    \<exists>e. c' = c\<lparr>expected_total := e\<rparr> \<and> (expected_total c \<noteq> None \<longrightarrow> e = expected_total c) \<and>
      (\<forall>f. total_field contract = Some f \<longrightarrow> e \<noteq> None \<and> int_value (dget_none row f) = e)"
  by (auto simp: check_total_def split: option.splits if_splits intro: exI [of _ "expected_total c"])

lemma check_ordinal_Inr:
  "check_ordinal contract c row = Inr c' \<Longrightarrow>
    \<exists>i. c' = c\<lparr>ordinal_origin := i\<rparr> \<and> (ordinal_origin c \<noteq> None \<longrightarrow> i = ordinal_origin c) \<and>
      (\<forall>origin. i = Some origin \<longrightarrow> ordinal_origin c = Some origin \<or> origin \<in> {0, 1}) \<and>
      (\<forall>f. ordinal_field contract = Some f \<longrightarrow>
         (\<exists>origin. i = Some origin \<and> int_value (dget_none row f) = Some (received c + origin)))"
  by (auto simp: check_ordinal_def Let_def split: option.splits if_splits intro: exI [of _ "ordinal_origin c"])

lemma set_update_subset: "set (AList.update k v d) \<subseteq> insert (k, v) (set d)"
  by (induction d) auto

lemma add_row_evidence:
  assumes e: "evidence contract identify recv c" and p: "page_evidence identify c page"
    and add: "add_row contract identify maximum (c, page) row = Inr (c', page')"
  shows "evidence contract identify (recv @ [row]) c' \<and> page_evidence identify c' page'"
proof -
  obtain k where k: "identify row = Inr k" using add by (auto simp: add_row_def)
  define rep where "rep = (case map_of page k of None \<Rightarrow> False | Some r \<Rightarrow> row_eq r row)"
  have fresh: "k \<notin> set (identities c) \<or> rep"
    using add k by (auto simp: add_row_def rep_def Let_def split: if_splits)
  obtain c1 where c1: "check_total contract maximum c row = Inr c1"
    using add k fresh by (auto simp: add_row_def rep_def [symmetric] Let_def split: if_splits)
  obtain c2 where c2: "check_ordinal contract c1 row = Inr c2"
    using add k fresh c1 by (auto simp: add_row_def rep_def [symmetric] Let_def split: if_splits)
  obtain ex where ex: "c1 = c\<lparr>expected_total := ex\<rparr>" "expected_total c \<noteq> None \<longrightarrow> ex = expected_total c"
      "\<forall>f. total_field contract = Some f \<longrightarrow> ex \<noteq> None \<and> int_value (dget_none row f) = ex"
    using check_total_Inr [OF c1] by blast
  obtain oi where oi: "c2 = c1\<lparr>ordinal_origin := oi\<rparr>" "ordinal_origin c \<noteq> None \<longrightarrow> oi = ordinal_origin c"
      "\<forall>origin. oi = Some origin \<longrightarrow> ordinal_origin c = Some origin \<or> origin \<in> {0, 1}"
      "\<forall>f. ordinal_field contract = Some f \<longrightarrow> (\<exists>origin. oi = Some origin \<and>
         int_value (dget_none row f) = Some (received c + origin))"
    using check_ordinal_Inr [OF c2] ex(1) by auto
  have res: "(c', page') = (if rep then (c2\<lparr>received := received c + 1\<rparr>, page)
      else (c2\<lparr>received := received c + 1, identities := identities c @ [k], co_rows := co_rows c @ [row]\<rparr>, AList.update k row page))"
    using add k fresh c1 c2 ex(1) oi(1) by (auto simp: add_row_def rep_def [symmetric] Let_def split: if_splits)
  have f: "received c' = received c + 1" "expected_total c' = ex" "ordinal_origin c' = oi"
    "co_rows c' = (if rep then co_rows c else co_rows c @ [row])" "identities c' = (if rep then identities c else identities c @ [k])"
    "page' = (if rep then page else AList.update k row page)"
    using res oi(1) ex(1) by (auto split: if_splits)
  have old: "\<exists>q\<in>set (co_rows c'). (q = r \<or> row_eq q r) \<and> identify q = identify r" if "r \<in> set recv" for r
    using that e by (fastforce simp: evidence_def f simp del: py_eq.simps)
  have new: "\<exists>q\<in>set (co_rows c'). (q = row \<or> row_eq q row) \<and> identify q = identify row"
  proof (cases rep)
    case True
    then obtain q where "map_of page k = Some q" "row_eq q row" by (auto simp: rep_def simp del: py_eq.simps split: option.splits)
    then show ?thesis using p k True by (auto simp: page_evidence_def f simp del: py_eq.simps dest!: map_of_SomeD intro: bexI [of _ q])
  qed (simp add: f)
  have ids: "map_res identify (co_rows c') = Inr (identities c')" "distinct (identities c')" "set (co_rows c') \<subseteq> set (recv @ [row])"
    using e k fresh by (auto simp: evidence_def f map_res_eq_Inr intro: list_all2_appendI)
  have tot: "\<forall>r\<in>set (recv @ [row]). ex \<noteq> None \<and> int_value (dget_none r g) = ex" if "total_field contract = Some g" for g
    using that e ex(2,3) by (auto simp: evidence_def)
  have origin: "\<forall>origin. oi = Some origin \<longrightarrow> origin \<in> {0, 1}" using e oi(3) by (auto simp: evidence_def)
  have ord: "\<exists>origin. oi = Some origin \<and> int_value (dget_none ((recv @ [row]) ! i) g) = Some (int i + origin)"
    if "ordinal_field contract = Some g" "i < length (recv @ [row])" for g i
  proof (cases "i < length recv")
    case True
    then show ?thesis using that e oi(2) by (force simp: evidence_def nth_append)
  next
    case False
    then have "i = length recv" using that by simp
    then show ?thesis using that e oi(4) by (auto simp: evidence_def)
  qed
  have "page_evidence identify c' page'"
    using p k set_update_subset [of k row page] by (auto simp: page_evidence_def f split: if_splits)
  then show ?thesis using e old new ids tot origin ord
    by (auto simp: evidence_def f simp del: py_eq.simps)
qed

lemma add_rows_evidence:
  assumes e: "evidence contract identify recv c" and add: "add_rows contract identify maximum c rows = Inr c'"
  shows "evidence contract identify (recv @ rows) c' \<and> int (length recv + length rows) \<le> maximum"
proof -
  have fold: "evidence contract identify (recv @ rows) c'"
    if "foldM_res (add_row contract identify maximum) (c, page) rows = Inr (c', page')" "evidence contract identify recv c"
      "page_evidence identify c page" for recv c page page'
    using that
  proof (induction rows arbitrary: recv c page)
    case (Cons r rows)
    then obtain c1 page1 where 1: "add_row contract identify maximum (c, page) r = Inr (c1, page1)"
        "foldM_res (add_row contract identify maximum) (c1, page1) rows = Inr (c', page')" by auto
    from add_row_evidence [OF Cons.prems(2,3) 1(1)] Cons.IH [OF 1(2), of "recv @ [r]"] show ?case by simp
  qed simp
  have "page_evidence identify c []" by (simp add: page_evidence_def)
  then show ?thesis using add e fold [of c "[]" _ recv] by (auto simp: add_rows_def evidence_def split: if_splits)
qed

section \<open>Responses\<close>

lemma those_rows: "those (map dict_value vs) = Some rows \<Longrightarrow> List.map_filter dict_value vs = rows"
  by (induction vs arbitrary: rows) (auto simp: map_filter_simps split: option.splits)

lemma array_of_rows_in: "array_of v psize = Inr rows \<Longrightarrow> List.map_filter dict_value (list_of v) = rows"
  by (auto simp: array_of_def list_of_def those_rows split: pyval.splits if_splits option.splits)

lemma envelope_of_rows_in:
  assumes "envelope_of v position psize maximum = Inr (rows, tot, dn)"
  shows "List.map_filter dict_value (list_of (dget_none (case dict_value v of None \<Rightarrow> [] | Some d \<Rightarrow> d) ''data'')) = rows \<and> announced v = Some tot"
proof -
  obtain d where v: "v = PDict d" using assms by (auto simp: envelope_of_def split: pyval.splits)
  obtain info where info: "dget_none d ''pagingInfo'' = PDict info" using assms
    by (auto simp: envelope_of_def v split: pyval.splits if_splits)
  obtain a where a: "array_of a psize = Inr rows" "a = (if dget_none d ''data'' = PNone \<and> tot = 0 then PList [] else dget_none d ''data'')"
    using assms by (auto simp: envelope_of_def v info Let_def split: option.splits if_splits)
  have "int_value (dget_none info ''totalRecords'') = Some tot"
    using assms by (auto simp: envelope_of_def v info Let_def split: option.splits if_splits)
  moreover have "List.map_filter dict_value (list_of (dget_none d ''data'')) = rows"
    using array_of_rows_in [OF a(1)] a(2) by (auto simp: list_of_def map_filter_simps split: if_splits)
  ultimately show ?thesis by (simp add: v info announced_def)
qed

lemma page_rows_in:
  assumes "page_rows contract psize maximum position c v = Inr (rows, c1, dn)"
  shows "rows = rows_in contract v \<and> (\<exists>e. c1 = c\<lparr>expected_total := e\<rparr> \<and> (expected_total c \<noteq> None \<longrightarrow> e = expected_total c) \<and>
    (envelope contract \<longrightarrow> announced v = e \<and> e \<noteq> None))"
proof (cases "envelope contract")
  case True
  then obtain tot where "envelope_of v position psize maximum = Inr (rows, tot, dn)" "c1 = c\<lparr>expected_total := Some tot\<rparr>"
      "expected_total c = None \<or> expected_total c = Some tot"
    using assms by (auto simp: page_rows_def split: if_splits)
  then show ?thesis using True envelope_of_rows_in [of v position psize maximum rows tot dn] by (auto simp: rows_in_def)
next
  case False
  then show ?thesis using assms array_of_rows_in [of v psize rows]
    by (auto simp: page_rows_def rows_in_def intro: exI [of _ "expected_total c"])
qed

section \<open>The scan\<close>

text \<open>Every envelope so far announced the total the collection expects.\<close>

definition same_total :: "page_contract \<Rightarrow> pyval list \<Rightarrow> 'k collection \<Rightarrow> bool" where
  "same_total contract lg c \<longleftrightarrow> (envelope contract \<longrightarrow> (\<forall>v\<in>set lg. expected_total c \<noteq> None \<and> announced v = expected_total c))"

lemma read_page_logged:
  assumes "read_page contract (logged fetch) psize maximum_pages p (reqs, lg, w) = (rw, Inr v)"
  shows "\<exists>w'. rw = (reqs + 1, lg @ [v], w') \<and> reqs < maximum_pages"
  using assms by (auto simp: read_page_def logged_def split: if_splits prod.splits sum.splits)

lemma add_row_keeps_total: "add_row contract identify maximum (c, page) row = Inr (c', page') \<Longrightarrow> expected_total c \<noteq> None \<Longrightarrow>
  expected_total c' = expected_total c"
  by (auto simp: add_row_def Let_def split: if_splits dest!: check_total_Inr check_ordinal_Inr)

lemma add_rows_keeps_total:
  assumes "add_rows contract identify maximum c rows = Inr c'" and "expected_total c \<noteq> None"
  shows "expected_total c' = expected_total c"
proof -
  have "expected_total c' = expected_total c"
    if "foldM_res (add_row contract identify maximum) (c, page) rows = Inr (c', page')" "expected_total c \<noteq> None" for c page page'
    using that
  proof (induction rows arbitrary: c page)
    case (Cons r rows)
    then obtain c1 page1 where 1: "add_row contract identify maximum (c, page) r = Inr (c1, page1)"
        "foldM_res (add_row contract identify maximum) (c1, page1) rows = Inr (c', page')" by auto
    then have "expected_total c1 = expected_total c" using add_row_keeps_total Cons.prems(2) by blast
    then show ?case using Cons.IH [OF 1(2)] Cons.prems(2) by simp
  qed simp
  then show ?thesis using assms by (fastforce simp: add_rows_def split: if_splits)
qed

lemma page_step_evidence:
  assumes page: "page_rows contract psize maximum p c v = Inr (rows, c1, dn)"
    and add: "add_rows contract identify maximum c1 rows = Inr c2"
    and e: "evidence contract identify recv c" and t: "same_total contract lg c"
  shows "evidence contract identify (recv @ rows_in contract v) c2 \<and> same_total contract (lg @ [v]) c2 \<and>
    int (length (recv @ rows_in contract v)) \<le> maximum \<and> rows = rows_in contract v"
proof -
  obtain ex where ex: "rows = rows_in contract v" "c1 = c\<lparr>expected_total := ex\<rparr>" "expected_total c \<noteq> None \<longrightarrow> ex = expected_total c"
      "envelope contract \<longrightarrow> announced v = ex \<and> ex \<noteq> None" using page_rows_in [OF page] by blast
  have "evidence contract identify recv c1" using e ex(2,3) by (fastforce simp: evidence_def simp del: py_eq.simps)
  from add_rows_evidence [OF this add] ex(1) have 1: "evidence contract identify (recv @ rows_in contract v) c2"
    "int (length (recv @ rows_in contract v)) \<le> maximum" by simp_all
  have "same_total contract (lg @ [v]) c2"
  proof (cases "envelope contract")
    case True
    then have "expected_total c2 = ex" using add_rows_keeps_total [OF add] ex(2,4) by simp
    then show ?thesis using True t ex(3,4) by (auto simp: same_total_def)
  qed (simp add: same_total_def)
  then show ?thesis using 1 ex(1) by blast
qed

lemma page_scan_evidence:
  assumes "page_scan contract identify (logged fetch) psize maximum maximum_pages step p c (reqs, lg, w) = ((reqs', lg', w'), Inr rows)"
    and "evidence contract identify recv c" and "same_total contract lg c"
  shows "\<exists>new c'. lg' = lg @ new \<and> reqs' = reqs + int (length new) \<and> reqs' \<le> maximum_pages \<and> finish c' = Inr rows \<and>
    evidence contract identify (recv @ concat (map (rows_in contract) new)) c' \<and> same_total contract lg' c' \<and>
    int (length (recv @ concat (map (rows_in contract) new))) \<le> maximum"
  using assms
proof (induction "nat (maximum_pages - reqs)" arbitrary: reqs p c lg w recv rule: less_induct)
  case less
  obtain rw v where v: "read_page contract (logged fetch) psize maximum_pages p (reqs, lg, w) = (rw, Inr v)"
    using less.prems(1) by (auto simp: page_scan.simps [of contract _ _ _ _ _ _ p] split: prod.splits sum.splits)
  obtain w1 where rw: "rw = (reqs + 1, lg @ [v], w1)" "reqs < maximum_pages" using read_page_logged [OF v] by auto
  obtain rows1 c1 dn where page: "page_rows contract psize maximum p c v = Inr (rows1, c1, dn)"
    using less.prems(1) v by (auto simp: page_scan.simps [of contract _ _ _ _ _ _ p] split: sum.splits)
  obtain c2 where add: "add_rows contract identify maximum c1 rows1 = Inr c2"
    using less.prems(1) v page by (auto simp: page_scan.simps [of contract _ _ _ _ _ _ p] split: sum.splits)
  note step = page_step_evidence [OF page add less.prems(2,3)]
  show ?case
  proof (cases dn)
    case True
    then have "finish c2 = Inr rows" "reqs' = reqs + 1" "lg' = lg @ [v]"
      using less.prems(1) v page add rw by (auto simp: page_scan.simps [of contract _ _ _ _ _ _ p])
    then show ?thesis using step rw(2) by (intro exI [of _ "[v]"] exI [of _ c2]) simp
  next
    case False
    define p' where "p' = p + (if step = psize \<and> zero_probe contract then int (length rows1) else step)"
    have "page_scan contract identify (logged fetch) psize maximum maximum_pages step p' c2 (reqs + 1, lg @ [v], w1) = ((reqs', lg', w'), Inr rows)"
      using less.prems(1) v page add rw False by (simp add: page_scan.simps [of contract _ _ _ _ _ _ p] flip: p'_def)
    from less.hyps [OF _ this conjunct1 [OF step] conjunct1 [OF conjunct2 [OF step]]] rw(2)
    obtain new c' where "lg' = (lg @ [v]) @ new" "reqs' = reqs + 1 + int (length new)" "reqs' \<le> maximum_pages" "finish c' = Inr rows"
      "evidence contract identify ((recv @ rows_in contract v) @ concat (map (rows_in contract) new)) c'" "same_total contract lg' c'"
      "int (length ((recv @ rows_in contract v) @ concat (map (rows_in contract) new))) \<le> maximum" by auto
    then show ?thesis by (intro exI [of _ "v # new"] exI [of _ c']) simp
  qed
qed

lemma probe_evidence:
  assumes pr: "probe contract identify psize maximum new_collection xs ys = Inr ((p, step, dn), c)"
  shows "\<exists>recv. recv \<in> {xs, xs @ ys} \<and> evidence contract identify recv c \<and> int (length recv) \<le> maximum"
proof -
  obtain c1 where c1: "add_rows contract identify maximum new_collection xs = Inr c1" using pr by (auto simp: probe_def)
  note e1 = add_rows_evidence [OF evidence_new c1]
  consider "c = c1" | "add_rows contract identify maximum c1 ys = Inr c"
    using pr c1 by (auto simp: probe_def simp del: py_eq.simps split: if_splits)
  then show ?thesis
  proof cases
    case 1
    then show ?thesis using e1 by (intro exI [of _ xs]) simp
  next
    case 2
    then show ?thesis using add_rows_evidence [OF _ 2, of xs] e1 by (intro exI [of _ "xs @ ys"]) simp
  qed
qed

text \<open>What the evidence of a finished collection amounts to.\<close>

lemma finish_evidence:
  assumes e: "evidence contract identify recv c" and f: "finish c = Inr rows" and t: "same_total contract lg c"
  shows "(\<exists>ids. map_res identify rows = Inr ids \<and> distinct ids) \<and> set rows \<subseteq> set recv \<and>
    (\<forall>r\<in>set recv. \<exists>q\<in>set rows. (q = r \<or> row_eq q r) \<and> identify q = identify r) \<and>
    (envelope contract \<longrightarrow> (\<forall>v\<in>set lg. announced v = Some (int (length recv)))) \<and>
    (\<forall>f. total_field contract = Some f \<longrightarrow> (\<forall>r\<in>set recv. int_value (dget_none r f) = Some (int (length recv)))) \<and>
    (\<forall>f. ordinal_field contract = Some f \<longrightarrow>
       (\<exists>origin\<in>{0, 1}. \<forall>i < length recv. int_value (dget_none (recv ! i) f) = Some (int i + origin)))"
proof -
  have rows: "rows = co_rows c" "expected_total c = None \<or> expected_total c = Some (int (length recv))"
    using f e by (auto simp: finish_def evidence_def split: if_splits)
  have "\<exists>origin\<in>{0, 1}. \<forall>i < length recv. int_value (dget_none (recv ! i) g) = Some (int i + origin)"
    if g: "ordinal_field contract = Some g" for g
  proof (cases "ordinal_origin c")
    case None
    then have "recv = []" using e g by (auto simp: evidence_def)
    then show ?thesis by auto
  next
    case (Some origin)
    then have "origin \<in> {0, 1}" using e by (simp add: evidence_def)
    moreover have "\<forall>i < length recv. int_value (dget_none (recv ! i) g) = Some (int i + origin)"
      using e g Some by (fastforce simp: evidence_def)
    ultimately show ?thesis by blast
  qed
  moreover have "map_res identify rows = Inr (identities c)" "distinct (identities c)" "set rows \<subseteq> set recv"
    "\<forall>r\<in>set recv. \<exists>q\<in>set rows. (q = r \<or> row_eq q r) \<and> identify q = identify r"
    using e rows(1) by (simp_all add: evidence_def del: py_eq.simps)
  moreover have "envelope contract \<longrightarrow> (\<forall>v\<in>set lg. announced v = Some (int (length recv)))"
    using t rows(2) by (auto simp: same_total_def)
  moreover have "\<forall>f. total_field contract = Some f \<longrightarrow> (\<forall>r\<in>set recv. int_value (dget_none r f) = Some (int (length recv)))"
    using e rows(2) by (auto simp: evidence_def)
  ultimately show ?thesis by blast
qed

lemma read_array_logged:
  assumes "read_array contract (logged fetch) psize maximum_pages p (reqs, lg, w) = (rw, Inr rows)" and "\<not> envelope contract"
  shows "\<exists>v w'. rw = (reqs + 1, lg @ [v], w') \<and> reqs < maximum_pages \<and> rows = rows_in contract v"
proof -
  obtain v where v: "read_page contract (logged fetch) psize maximum_pages p (reqs, lg, w) = (rw, Inr v)" "array_of v psize = Inr rows"
    using assms(1) by (auto simp: read_array_def split: prod.splits sum.splits)
  then show ?thesis using read_page_logged [OF v(1)] array_of_rows_in [OF v(2)] assms(2) by (auto simp: rows_in_def)
qed

text \<open>The evidence behind a successful read.\<close>

lemma read_pages_evidence:
  assumes r: "read_pages (logged fetch) contract identify psize maximum maximum_pages ([], w) = ((reqs, lg, w'), Inr rows)"
  shows "\<exists>counted c. subseq counted lg \<and> (\<not> zero_probe contract \<longrightarrow> counted = lg) \<and> reqs = int (length lg) \<and> reqs \<le> maximum_pages \<and>
    evidence contract identify (concat (map (rows_in contract) counted)) c \<and> finish c = Inr rows \<and> same_total contract lg c \<and>
    int (length (concat (map (rows_in contract) counted))) \<le> maximum"
proof (cases "zero_probe contract")
  case False
  then have "page_scan contract identify (logged fetch) psize maximum maximum_pages 1 1 new_collection (0, [], w) = ((reqs, lg, w'), Inr rows)"
    using r by (simp add: read_pages_def split: if_splits)
  from page_scan_evidence [OF this evidence_new] False show ?thesis by (auto simp: same_total_def intro!: exI [of _ lg])
next
  case True
  then have env: "\<not> envelope contract" using r by (auto simp: read_pages_def bounds_ok_def split: if_splits)
  then have st: "same_total contract l (c :: 'b collection)" for l c by (simp add: same_total_def)
  obtain rw0 f where f: "read_array contract (logged fetch) psize maximum_pages 0 (0, [], w) = (rw0, Inr f)"
    using r True by (auto simp: read_pages_def split: if_splits prod.splits sum.splits)
  obtain rw1 s where s: "read_array contract (logged fetch) psize maximum_pages 1 rw0 = (rw1, Inr s)"
    using r True f by (auto simp: read_pages_def split: if_splits prod.splits sum.splits)
  obtain p step dn c where pr: "probe contract identify psize maximum new_collection f s = Inr ((p, step, dn), c)"
    using r True f s by (auto simp: read_pages_def split: if_splits prod.splits sum.splits)
  obtain v0 w0 where v0: "rw0 = (1, [v0], w0)" "f = rows_in contract v0" using read_array_logged [OF f env] by auto
  obtain v1 w1 where v1: "rw1 = (2, [v0, v1], w1)" "s = rows_in contract v1" "1 < maximum_pages"
    using read_array_logged [OF s [unfolded v0] env] by auto
  obtain cnt where cnt: "cnt \<in> {[v0], [v0, v1]}" "evidence contract identify (concat (map (rows_in contract) cnt)) c"
      "int (length (concat (map (rows_in contract) cnt))) \<le> maximum"
  proof -
    from probe_evidence [OF pr] obtain recv where recv: "recv \<in> {f, f @ s}" "evidence contract identify recv c" "int (length recv) \<le> maximum" by blast
    then consider "recv = f" | "recv = f @ s" by blast
    then show thesis using recv v0(2) v1(2) by cases (auto intro: that [of "[v0]"] that [of "[v0, v1]"])
  qed
  show ?thesis
  proof (cases dn)
    case d: True
    then have "finish c = Inr rows" "reqs = 2" "lg = [v0, v1]" using r True f s pr v1 by (auto simp: read_pages_def split: if_splits)
    then show ?thesis using cnt v1(3) True st by (intro exI [of _ cnt] exI [of _ c]) auto
  next
    case d: False
    then have "page_scan contract identify (logged fetch) psize maximum maximum_pages step p c (2, [v0, v1], w1) = ((reqs, lg, w'), Inr rows)"
      using r True f s pr v1 by (auto simp: read_pages_def split: if_splits)
    from page_scan_evidence [OF this cnt(2) st] obtain new c' where n: "lg = [v0, v1] @ new" "reqs = 2 + int (length new)"
      "reqs \<le> maximum_pages" "finish c' = Inr rows" "evidence contract identify (concat (map (rows_in contract) (cnt @ new))) c'"
      "int (length (concat (map (rows_in contract) (cnt @ new)))) \<le> maximum" by auto
    moreover have "subseq (cnt @ new) lg" using cnt(1) n(1) by (auto intro: list_emb_append_mono)
    ultimately show ?thesis using True st by (intro exI [of _ "cnt @ new"] exI [of _ c']) auto
  qed
qed

text \<open>
  C28: soundness, for any server. A successful read made at most the allowed number of requests, and
  its rows have different identities. Let \<open>recv\<close> be the rows of all responses (of the probe, those
  that count). Every returned row was received and every received row is returned, itself or one
  equal to it with the same identity. The number received is exactly the total that every
  envelope, or every row, declares; the ordinals of the rows, where they have them, count up
  from zero or one without a gap.
\<close>

theorem read_pages_sound:
  assumes "read_pages (logged fetch) contract identify psize maximum maximum_pages ([], w) = ((reqs, lg, w'), Inr rows)"
  shows "reqs = int (length lg) \<and> reqs \<le> maximum_pages \<and> (\<exists>ids. map_res identify rows = Inr ids \<and> distinct ids) \<and>
    (\<exists>counted recv. subseq counted lg \<and> (\<not> zero_probe contract \<longrightarrow> counted = lg) \<and> recv = concat (map (rows_in contract) counted) \<and>
      int (length recv) \<le> maximum \<and> set rows \<subseteq> set recv \<and>
      (\<forall>r\<in>set recv. \<exists>q\<in>set rows. (q = r \<or> row_eq q r) \<and> identify q = identify r) \<and>
      (envelope contract \<longrightarrow> (\<forall>v\<in>set lg. announced v = Some (int (length recv)))) \<and>
      (\<forall>f. total_field contract = Some f \<longrightarrow> (\<forall>r\<in>set recv. int_value (dget_none r f) = Some (int (length recv)))) \<and>
      (\<forall>f. ordinal_field contract = Some f \<longrightarrow>
         (\<exists>origin\<in>{0, 1}. \<forall>i < length recv. int_value (dget_none (recv ! i) f) = Some (int i + origin))))"
proof -
  obtain counted c where c: "subseq counted lg" "\<not> zero_probe contract \<longrightarrow> counted = lg" "reqs = int (length lg)" "reqs \<le> maximum_pages"
      "evidence contract identify (concat (map (rows_in contract) counted)) c" "finish c = Inr rows" "same_total contract lg c"
      "int (length (concat (map (rows_in contract) counted))) \<le> maximum"
    using read_pages_evidence [OF assms] by blast
  from finish_evidence [OF c(5-7)] c show ?thesis by blast
qed

lemma pages_demo_run:
  "read_pages (logged (server demo_contract Offsets demo_rows)) demo_contract demo_identify 2 100 10 ([], ()) =
    ((4, map (served Offsets demo_rows 2) [0, 1, 2, 3], ()), Inr demo_rows)"
  by code_simp

theorem read_pages_sound_witness:
  "\<exists>reqs lg w' rows. read_pages (logged (server demo_contract Offsets demo_rows)) demo_contract demo_identify 2 100 10 ([], ()) = ((reqs, lg, w'), Inr rows) \<and>
    rows = demo_rows \<and> reqs = int (length lg) \<and> reqs \<le> 10 \<and>
    (\<exists>counted. subseq counted lg \<and> set rows \<subseteq> set (concat (map (rows_in demo_contract) counted)))"
proof -
  note s = read_pages_sound [OF pages_demo_run]
  then obtain counted where "subseq counted (map (served Offsets demo_rows 2) [0, 1, 2, 3])"
      "set demo_rows \<subseteq> set (concat (map (rows_in demo_contract) counted))" by blast
  with s pages_demo_run show ?thesis by blast
qed

end
