(* ===== verification/PS_Client.thy ===== *)
theory PS_Client
  imports Paging
begin

text \<open>
  The ParishSoft client of \<open>parishsoft.py\<close>: requests under the retry policy, the choice of the
  organization, the filter that drops the records of other organizations, paginated reads, and the
  cache of responses. The \<open>requests\<close> session and the cache directory are parameters that act on
  the world; the SHA-256 fingerprint of a key and \<open>urlencode\<close> are the parameters \<open>fingerprint\<close> and
  \<open>encode\<close>. The client's own fields are the record \<open>client\<close>, threaded beside the world.
\<close>

section \<open>Configuration\<close>

text \<open>
  \<open>PNonFinite\<close> stands here for positive infinity or NaN: such a limit never makes a file stale.
\<close>

definition cache_unit :: "char \<Rightarrow> nat option" where
  "cache_unit c = map_of [(CHR ''s'', 1), (CHR ''m'', 60), (CHR ''h'', 3600), (CHR ''d'', 86400)] c"

definition parse_cache_limit :: "pyval \<Rightarrow> rat option res" where
  "parse_cache_limit cache_limit =
     (case cache_limit of
        PNone \<Rightarrow> Inr None
      | PBool _ \<Rightarrow> Inl (ConfigError ''cache limit must be a duration string or seconds'' [] [])
      | PInt i \<Rightarrow> if i < 0 then Inl (ConfigError ''cache limit must be non-negative'' [] []) else Inr (Some (of_int i))
      | PFloat q \<Rightarrow> if q < 0 then Inl (ConfigError ''cache limit must be non-negative'' [] []) else Inr (Some q)
      | PNonFinite \<Rightarrow> Inr None
      | PStr s \<Rightarrow>
          (let v = strip s
           in if v = [] then Inr None
              else (case (cache_unit (last v), parse_nat (butlast v)) of
                      (Some m, Some n) \<Rightarrow> Inr (Some (of_nat (n * m)))
                    | _ \<Rightarrow> Inl (ConfigError ''cache limit must look like 24s, 15m, 7h, or 2d'' [] [])))
      | _ \<Rightarrow> Inl (ConfigError ''cache limit must be a duration string or seconds'' [] []))"

record ps_config =
  api_key :: string
  expected_organization :: "string option"
  cache_limit :: "rat option"
  organization_id :: "int option"
  api_base_url :: string
  timeout :: rat
  cache_enabled :: bool

text \<open>\<open>ParishSoftConfig.__post_init__\<close>; the cache directory is a path by its type.\<close>

definition ps_config_of :: "pyval \<Rightarrow> pyval \<Rightarrow> rat option \<Rightarrow> pyval \<Rightarrow> pyval \<Rightarrow> pyval \<Rightarrow> pyval \<Rightarrow> ps_config res" where
  "ps_config_of key org limit org_id base tmo enabled =
     bind_res (case key of PStr s \<Rightarrow> if s = [] then Inl (ConfigError ''ParishSoft api_key is required'' [] []) else Inr s
               | _ \<Rightarrow> Inl (ConfigError ''ParishSoft api_key is required'' [] [])) (\<lambda>key.
     bind_res (case org of PNone \<Rightarrow> Inr None | PStr s \<Rightarrow> Inr (Some s)
               | _ \<Rightarrow> Inl (ConfigError ''ParishSoft expected_organization must be a string'' [] [])) (\<lambda>org.
     bind_res (case org_id of PNone \<Rightarrow> Inr None
               | PInt i \<Rightarrow> if 1 \<le> i \<and> i < 2 ^ 31 then Inr (Some i)
                           else Inl (ConfigError ''ParishSoft organization_id must be a positive integer'' [] [])
               | _ \<Rightarrow> Inl (ConfigError ''ParishSoft organization_id must be a positive integer'' [] [])) (\<lambda>org_id.
     bind_res (case base of PStr s \<Rightarrow> Inr s | _ \<Rightarrow> Inl (ConfigError ''ParishSoft api_base_url must be a string'' [] [])) (\<lambda>base.
     bind_res (case tmo of PInt i \<Rightarrow> Inr (of_int i) | PFloat q \<Rightarrow> Inr q
               | _ \<Rightarrow> Inl (ConfigError ''ParishSoft timeout must be a number'' [] [])) (\<lambda>tmo.
     bind_res (guard_res (tmo > 0) (ConfigError ''ParishSoft timeout must be positive'' [] [])) (\<lambda>_.
     bind_res (case enabled of PBool b \<Rightarrow> Inr b
               | _ \<Rightarrow> Inl (ConfigError ''ParishSoft cache_enabled must be boolean'' [] [])) (\<lambda>enabled.
     Inr \<lparr>api_key = key, expected_organization = org, cache_limit = limit, organization_id = org_id,
          api_base_url = base, timeout = tmo, cache_enabled = enabled\<rparr>)))))))"

section \<open>One request\<close>

definition ps_call :: "('w, http_response) action \<Rightarrow> ('w, http_response) action" where
  "ps_call func =
     bind_act func (\<lambda>response.
       if hr_status response \<in> {429, 500, 502, 503, 504} then
         pure_act (Inl (TransientParishSoftAPIError (hr_status response) (hr_url response) (hr_text response)))
       else if \<not> (200 \<le> hr_status response \<and> hr_status response \<le> 299) then
         pure_act (Inl (ParishSoftAPIError (hr_status response) (hr_url response) (hr_text response)))
       else pure_act (Inr response))"

definition PS_RETRY_POLICY :: retry_policy where
  "PS_RETRY_POLICY = default_policy\<lparr>attempts := 3, initial_delay := 1 / 5\<rparr>"

definition ps_request :: "retry_policy \<Rightarrow> ('w, http_response) action \<Rightarrow> ('w, http_response) action" where
  "ps_request policy func w =
     (case retry_call (Some policy) default_retry_exceptions (\<lambda>_. 0) (ps_call func) w of
        (w', _, Inl (RetryError (TransientParishSoftAPIError status endpoint text))) \<Rightarrow>
          (w', Inl (ParishSoftAPIError status endpoint text))
      | (w', _, r) \<Rightarrow> (w', r))"

definition response_json :: "http_response \<Rightarrow> string \<Rightarrow> pyval res" where
  "response_json response endpoint =
     (if hr_text response = [] then Inr (PList [])
      else (case hr_json response of
              None \<Rightarrow> Inl (ParishSoftAPIError (hr_status response) endpoint ''invalid JSON response from ParishSoft'')
            | Some v \<Rightarrow> Inr v))"

definition ps_url :: "ps_config \<Rightarrow> string \<Rightarrow> string" where
  "ps_url cfg endpoint =
     rev (dropWhile (\<lambda>c. c = CHR ''/'') (rev (api_base_url cfg))) @ ''/'' @ dropWhile (\<lambda>c. c = CHR ''/'') endpoint"

section \<open>The client\<close>

record 'w ps_session =
  ps_get :: "string \<Rightarrow> mapping_value \<Rightarrow> ('w, http_response) action"
  ps_post :: "string \<Rightarrow> mapping_value \<Rightarrow> ('w, http_response) action"
  ps_policy :: retry_policy

record client =
  cl_organization :: "int option"
  organizations_reached :: "int option"
  other_skipped :: "(string, int) dict"
  kept_members :: "pyval list option"
  other_families :: "pyval list"
  families_without_members :: int

type_synonym ('w, 'a) ps_action = "('w \<times> client, 'a) action"

definition ps_world :: "('w, 'a) action \<Rightarrow> ('w, 'a) ps_action" where
  "ps_world act s = (case act (fst s) of (w', r) \<Rightarrow> ((w', snd s), r))"

definition get_uncached :: "ps_config \<Rightarrow> 'w ps_session \<Rightarrow> string \<Rightarrow> mapping_value \<Rightarrow> ('w, pyval) ps_action" where
  "get_uncached cfg ss endpoint params =
     bind_act (ps_world (ps_request (ps_policy ss) (ps_get ss (ps_url cfg endpoint) params))) (\<lambda>response.
     pure_act (response_json response endpoint))"

definition post_uncached :: "ps_config \<Rightarrow> 'w ps_session \<Rightarrow> string \<Rightarrow> mapping_value \<Rightarrow> ('w, pyval) ps_action" where
  "post_uncached cfg ss endpoint payload =
     bind_act (ps_world (ps_request (ps_policy ss) (ps_post ss (ps_url cfg endpoint) payload))) (\<lambda>response.
     pure_act (response_json response endpoint))"

section \<open>The organization\<close>

definition select_organization :: "pyval \<Rightarrow> int option \<Rightarrow> string option \<Rightarrow> mapping_value res" where
  "select_organization organizations org_id report_name =
     (case (case organizations of PList vs \<Rightarrow> those (map dict_value vs) | _ \<Rightarrow> None) of
        None \<Rightarrow> Inl (ConfigError ''the ParishSoft organization response is invalid'' [] [])
      | Some rows \<Rightarrow>
          (case org_id of
             Some i \<Rightarrow>
               (case filter (\<lambda>row. py_eq (dget_none row ''organizationID'') (PInt i)) rows of
                  [row] \<Rightarrow> Inr row
                | _ \<Rightarrow> Inl (ConfigError ''the ParishSoft key does not reach organization'' [] [i]))
           | None \<Rightarrow>
               (case rows of
                  [row] \<Rightarrow> Inr row
                | [] \<Rightarrow> Inl (ConfigError ''expected one ParishSoft organization, got 0'' [] [])
                | _ \<Rightarrow>
                    (case (case report_name of
                             None \<Rightarrow> []
                           | Some n \<Rightarrow> if n = [] then [] else filter (\<lambda>row. dget_none row ''organizationReportName'' = PStr n) rows) of
                       [row] \<Rightarrow> Inr row
                     | _ \<Rightarrow> Inl (ConfigError ''the ParishSoft key reaches several organizations'' [] [int (length rows)])))))"

definition validate_organization :: "ps_config \<Rightarrow> 'w ps_session \<Rightarrow> ('w, int) ps_action" where
  "validate_organization cfg ss =
     bind_act (post_uncached cfg ss ''organizations/search'' []) (\<lambda>organizations.
     bind_act (pure_act (select_organization organizations (organization_id cfg) (expected_organization cfg))) (\<lambda>row.
     let name = dget_none row ''organizationReportName''
     in if expected_organization cfg \<notin> {None, Some []} \<and> name \<noteq> PStr (the (expected_organization cfg))
        then pure_act (Inl (ConfigError ''unexpected ParishSoft organization'' [] []))
        else
          bind_act (pure_act (case map_of row ''organizationID'' of
                                None \<Rightarrow> Inl (KeyError ''organizationID'')
                              | Some v \<Rightarrow> (case py_int v of None \<Rightarrow> Inl (ValueError ''organizationID'') | Some i \<Rightarrow> Inr i))) (\<lambda>i s.
          ((fst s, \<lparr>cl_organization = Some i,
                    organizations_reached = Some (case organizations of PList vs \<Rightarrow> int (length vs) | _ \<Rightarrow> 0),
                    other_skipped = [], kept_members = None, other_families = [], families_without_members = 0\<rparr>),
           Inr i))))"

section \<open>Records of other organizations\<close>

definition ORGANIZATION_FIELDS :: "(string \<times> string \<times> string) list" where
  "ORGANIZATION_FIELDS =
     [(''members/search'', ''organizationID'', ''members''),
      (''ministry/type/list'', ''organizationId'', ''ministry_types''),
      (''members/workgroup/lookup/list'', ''ownerOrganizationId'', ''member_workgroups''),
      (''families/workgroup/list'', ''ownerOrganizationID'', ''family_workgroups''),
      (''offering/pledge/list'', ''organizationID'', ''pledges''),
      (''offering/contributiondetail/list'', ''organizationId'', ''contributions'')]"

definition record_organization :: "pyval \<Rightarrow> string \<Rightarrow> int res" where
  "record_organization row field =
     (case (case row of PDict d \<Rightarrow> dget_none d field | _ \<Rightarrow> PNone) of
        PInt i \<Rightarrow> if 1 \<le> i \<and> i < 2 ^ 31 then Inr i
                  else Inl (ConfigError ''a ParishSoft record has no valid organization ID'' [] [])
      | _ \<Rightarrow> Inl (ConfigError ''a ParishSoft record has no valid organization ID'' [] []))"

definition skipped :: "string \<Rightarrow> client \<Rightarrow> client" where
  "skipped name cl =
     (let counts = other_skipped cl
      in cl\<lparr>other_skipped := AList.update name (1 + (case map_of counts name of None \<Rightarrow> 0 | Some n \<Rightarrow> n)) counts\<rparr>)"

text \<open>\<open>row.get(field)\<close>, and a value as an element of a set: mappings and lists have no hash.\<close>

definition row_get :: "pyval \<Rightarrow> string \<Rightarrow> pyval res" where
  "row_get row field = (case row of PDict d \<Rightarrow> Inr (dget_none d field) | _ \<Rightarrow> Inl (OtherException ''AttributeError''))"

definition set_element :: "pyval \<Rightarrow> pyval res" where
  "set_element v = (case v of PList _ \<Rightarrow> Inl (TypeError ''unhashable'') | PDict _ \<Rightarrow> Inl (TypeError ''unhashable'') | _ \<Rightarrow> Inr v)"

definition in_set :: "pyval list \<Rightarrow> pyval \<Rightarrow> bool" where
  "in_set s v \<longleftrightarrow> list_ex (py_eq v) s"

text \<open>Contact rows: only those of the members kept, each owned by the loaded organization.\<close>

fun own_contacts :: "int option \<Rightarrow> pyval list \<Rightarrow> client \<Rightarrow> pyval list \<Rightarrow> client \<times> pyval list res" where
  "own_contacts organization members cl [] = (cl, Inr [])"
| "own_contacts organization members cl (row # rows) =
     (case bind_res (row_get row ''memberDUID'') set_element of
        Inl e \<Rightarrow> (cl, Inl e)
      | Inr m \<Rightarrow>
          if \<not> in_set members m then own_contacts organization members (skipped ''member_contactinfos'' cl) rows
          else (case record_organization row ''ownerOrganizationID'' of
                  Inl e \<Rightarrow> (cl, Inl e)
                | Inr i \<Rightarrow>
                    if Some i \<noteq> organization
                    then (cl, Inl (ConfigError ''a ParishSoft Member contact row belongs to another organization'' [] []))
                    else (case own_contacts organization members cl rows of
                            (cl', r) \<Rightarrow> (cl', bind_res r (\<lambda>kept. Inr (row # kept))))))"

fun own_rows :: "int option \<Rightarrow> bool \<Rightarrow> string \<Rightarrow> string \<Rightarrow> client \<Rightarrow> pyval list \<Rightarrow> client \<times> pyval list res" where
  "own_rows organization is_members field name cl [] = (cl, Inr [])"
| "own_rows organization is_members field name cl (row # rows) =
     (case record_organization row field of
        Inl e \<Rightarrow> (cl, Inl e)
      | Inr i \<Rightarrow>
          if Some i = organization then
            (case own_rows organization is_members field name cl rows of
               (cl', r) \<Rightarrow> (cl', bind_res r (\<lambda>kept. Inr (row # kept))))
          else if is_members then
            (case bind_res (row_get row ''familyDUID'') set_element of
               Inl e \<Rightarrow> (skipped name cl, Inl e)
             | Inr f \<Rightarrow>
                 own_rows organization is_members field name
                   (let cl1 = skipped name cl
                    in if in_set (other_families cl1) f then cl1 else cl1\<lparr>other_families := other_families cl1 @ [f]\<rparr>) rows)
          else own_rows organization is_members field name (skipped name cl) rows)"

definition own_organization :: "string \<Rightarrow> pyval list \<Rightarrow> ('w, pyval list) ps_action" where
  "own_organization endpoint rows s =
     (case s of (w, cl) \<Rightarrow>
        if (case organizations_reached cl of None \<Rightarrow> 0 | Some n \<Rightarrow> n) < 2 then (s, Inr rows)
        else if endpoint = ''members/contact/list'' then
          (case kept_members cl of
             None \<Rightarrow> (s, Inl (ConfigError ''ParishSoft Member contact rows must be read after the Members'' [] []))
           | Some members \<Rightarrow>
               (case own_contacts (cl_organization cl) members cl rows of (cl', r) \<Rightarrow> ((w, cl'), r)))
        else (case map_of ORGANIZATION_FIELDS endpoint of
                None \<Rightarrow> (s, Inr rows)
              | Some (field, name) \<Rightarrow>
                  (case own_rows (cl_organization cl) (endpoint = ''members/search'') field name cl rows of
                     (cl1, Inl e) \<Rightarrow> ((w, cl1), Inl e)
                   | (cl1, Inr kept) \<Rightarrow>
                       if endpoint = ''members/search'' then
                         (case map_res (\<lambda>row. bind_res (row_get row ''memberDUID'') set_element) kept of
                            Inl e \<Rightarrow> ((w, cl1), Inl e)
                          | Inr ms \<Rightarrow> ((w, cl1\<lparr>kept_members := Some ms\<rparr>), Inr kept))
                       else ((w, cl1), Inr kept))))"

section \<open>The cache\<close>

text \<open>
  A cache file has a modification time and the JSON value it holds, when it is valid JSON.
\<close>

record 'w cache_store =
  cache_file :: "string \<Rightarrow> 'w \<Rightarrow> (rat \<times> pyval option) option"
  cache_now :: "'w \<Rightarrow> rat"
  cache_write :: "string \<Rightarrow> pyval \<Rightarrow> ('w, unit) action"

definition cache_scope :: "(string \<Rightarrow> string) \<Rightarrow> ps_config \<Rightarrow> client \<Rightarrow> string" where
  "cache_scope fingerprint cfg cl =
     fingerprint (api_base_url cfg @ [CHR 0x00] @ api_key cfg) @ ''-'' @
     (case cl_organization cl of Some i \<Rightarrow> ''org-'' @ show_int i | None \<Rightarrow> ''org-unvalidated'')"

definition cache_path ::
  "(string \<Rightarrow> string) \<Rightarrow> (mapping_value \<Rightarrow> string) \<Rightarrow> ps_config \<Rightarrow> client \<Rightarrow> string \<Rightarrow> mapping_value \<Rightarrow> string" where
  "cache_path fingerprint encode cfg cl endpoint params =
     map (\<lambda>c. if c = CHR ''/'' then CHR ''-'' else c)
       (''cache-v2-'' @ cache_scope fingerprint cfg cl @ ''-'' @ endpoint @
        (if params = [] then [] else ''-'' @ encode (sort_key fst params)) @ ''.json'')"

definition load_cache :: "'w cache_store \<Rightarrow> ps_config \<Rightarrow> string \<Rightarrow> 'w \<Rightarrow> pyval option" where
  "load_cache cs cfg path w =
     (if \<not> cache_enabled cfg then None
      else (case cache_file cs path w of
              None \<Rightarrow> None
            | Some (mtime, content) \<Rightarrow>
                if (case cache_limit cfg of None \<Rightarrow> False | Some l \<Rightarrow> mtime < cache_now cs w - l) then None
                else if content = Some PNone then None else content))"

definition save_cache :: "'w cache_store \<Rightarrow> ps_config \<Rightarrow> string \<Rightarrow> pyval \<Rightarrow> ('w, unit) action" where
  "save_cache cs cfg path data = (if \<not> cache_enabled cfg then pure_act (Inr ()) else cache_write cs path data)"

text \<open>A read through the cache: \<open>fresh\<close> is only run, and its result only written, on a miss.\<close>

definition cached_read ::
  "'w cache_store \<Rightarrow> ps_config \<Rightarrow> (client \<Rightarrow> string) \<Rightarrow> ('w, pyval) ps_action \<Rightarrow> ('w, pyval) ps_action" where
  "cached_read cs cfg path fresh s =
     (case load_cache cs cfg (path (snd s)) (fst s) of
        Some v \<Rightarrow> (s, Inr v)
      | None \<Rightarrow>
          bind_act fresh (\<lambda>data s1.
          bind_act (ps_world (save_cache cs cfg (path (snd s1)) data)) (\<lambda>_. pure_act (Inr data)) s1) s)"

definition get_cached ::
  "'w cache_store \<Rightarrow> (string \<Rightarrow> string) \<Rightarrow> (mapping_value \<Rightarrow> string) \<Rightarrow> ps_config \<Rightarrow> 'w ps_session \<Rightarrow>
   string \<Rightarrow> mapping_value \<Rightarrow> ('w, pyval) ps_action" where
  "get_cached cs fingerprint encode cfg ss endpoint params =
     cached_read cs cfg (\<lambda>cl. cache_path fingerprint encode cfg cl endpoint params) (get_uncached cfg ss endpoint params)"

definition post_cached ::
  "'w cache_store \<Rightarrow> (string \<Rightarrow> string) \<Rightarrow> (mapping_value \<Rightarrow> string) \<Rightarrow> ps_config \<Rightarrow> 'w ps_session \<Rightarrow>
   string \<Rightarrow> mapping_value \<Rightarrow> ('w, pyval) ps_action" where
  "post_cached cs fingerprint encode cfg ss endpoint payload =
     cached_read cs cfg (\<lambda>cl. cache_path fingerprint encode cfg cl endpoint payload) (post_uncached cfg ss endpoint payload)"

section \<open>Pages\<close>

text \<open>\<open>a >= b\<close> for the page numbers of an envelope.\<close>

definition py_ge :: "pyval \<Rightarrow> pyval \<Rightarrow> bool res" where
  "py_ge a b =
     (case (num_of a, num_of b) of
        (Some x, Some y) \<Rightarrow> Inr (x \<ge> y)
      | _ \<Rightarrow> (case (a, b) of (PStr s, PStr t) \<Rightarrow> Inr (s \<ge> t) | _ \<Rightarrow> Inl (TypeError ''>='')))"

definition extract_page :: "pyval \<Rightarrow> (pyval list \<times> bool) res" where
  "extract_page data =
     (case data of
        PList items \<Rightarrow> Inr (items, items = [])
      | PDict d \<Rightarrow>
          (case dget_none d ''data'' of
             PList items \<Rightarrow>
               (let info = dget_none d ''pagingInfo''
                in bind_res (if \<not> truthy info then Inr [] else (case info of PDict i \<Rightarrow> Inr i | _ \<Rightarrow> Inl (OtherException ''AttributeError''))) (\<lambda>i.
                   bind_res (py_ge (dget i ''pageNumber'' (PInt 1)) (dget i ''totalPages'' (PInt 1))) (\<lambda>done. Inr (items, done))))
           | _ \<Rightarrow> Inl (ParishSoftAPIError 500 ''pagination'' ''unexpected page shape''))
      | _ \<Rightarrow> Inl (ParishSoftAPIError 500 ''pagination'' ''unexpected page shape''))"

text \<open>
  One page of a paginated read. The token is the number of items so far and the page number;
  \<open>by_index\<close> says which of the two is sent as the offset.
\<close>

definition ps_page ::
  "ps_config \<Rightarrow> 'w ps_session \<Rightarrow> bool \<Rightarrow> string \<Rightarrow> mapping_value \<Rightarrow> string \<Rightarrow> int \<Rightarrow> string \<Rightarrow> bool \<Rightarrow>
   (nat \<times> int, pyval, 'w \<times> client) fetcher" where
  "ps_page cfg ss is_post endpoint params limit_name limit offset_name by_index np =
     (let request = AList.update offset_name (PInt (if by_index then int (fst np) else snd np))
                      (AList.update limit_name (PInt limit) params)
      in bind_act (ps_world (ps_request (ps_policy ss) ((if is_post then ps_post ss else ps_get ss) (ps_url cfg endpoint) request))) (\<lambda>response.
         bind_act (pure_act (bind_res (response_json response endpoint) extract_page)) (\<lambda>(items, done).
         pure_act (Inr (items, if done then None else Some (fst np + length items, snd np + 1))))))"

definition collection_list :: "pyval \<Rightarrow> pyval list res" where
  "collection_list v = (case v of PList vs \<Rightarrow> Inr vs | _ \<Rightarrow> Inl (TypeError ''cached collection''))"

text \<open>
  \<open>get_paginated\<close> and \<open>post_paginated\<close>. The records of other organizations are dropped from what
  the cache returns and, before anything is written, from what was fetched. A cache file of a
  collection holds a list.
\<close>

definition collection_path ::
  "(string \<Rightarrow> string) \<Rightarrow> (mapping_value \<Rightarrow> string) \<Rightarrow> ps_config \<Rightarrow> string \<Rightarrow> mapping_value \<Rightarrow> string \<Rightarrow> int \<Rightarrow> string \<Rightarrow> bool \<Rightarrow>
   client \<Rightarrow> string" where
  "collection_path fingerprint encode cfg endpoint params limit_name limit offset_name by_index cl =
     cache_path fingerprint encode cfg cl endpoint
       (AList.update offset_name (PStr (if by_index then ''index'' else ''page''))
          (AList.update limit_name (PInt limit) params))"

definition read_paginated ::
  "'w cache_store \<Rightarrow> (string \<Rightarrow> string) \<Rightarrow> (mapping_value \<Rightarrow> string) \<Rightarrow> ps_config \<Rightarrow> 'w ps_session \<Rightarrow> bool \<Rightarrow>
   string \<Rightarrow> mapping_value \<Rightarrow> string \<Rightarrow> int \<Rightarrow> string \<Rightarrow> bool \<Rightarrow> ('w, pyval list) ps_action" where
  "read_paginated cs fingerprint encode cfg ss is_post endpoint params limit_name limit offset_name by_index s =
     (let path = collection_path fingerprint encode cfg endpoint params limit_name limit offset_name by_index
      in case load_cache cs cfg (path (snd s)) (fst s) of
           Some v \<Rightarrow> bind_act (pure_act (collection_list v)) (own_organization endpoint) s
         | None \<Rightarrow>
             bind_act (fetch_all (ps_page cfg ss is_post endpoint params limit_name limit offset_name by_index) (0, 1)) (\<lambda>items.
             bind_act (own_organization endpoint items) (\<lambda>items s1.
             bind_act (ps_world (save_cache cs cfg (path (snd s1)) (PList items))) (\<lambda>_. pure_act (Inr items)) s1)) s)"

end
