(* ===== verification/PS_Client_Facts.thy ===== *)
theory PS_Client_Facts
  imports PS_Client
begin

text \<open>
  The ParishSoft client: a key that reaches several organizations yields only the records of the
  loaded one, the cache returns what was read, and the cache files of different tenants differ.
\<close>

section \<open>Records of other organizations\<close>

text \<open>The number of records of a collection that were dropped.\<close>

definition skip_count :: "string \<Rightarrow> client \<Rightarrow> int" where
  "skip_count name cl = (case map_of (other_skipped cl) name of None \<Rightarrow> 0 | Some n \<Rightarrow> n)"

lemma skip_count_skipped [simp]: "skip_count name (skipped name cl) = skip_count name cl + 1"
  by (simp add: skip_count_def skipped_def Let_def update_conv' split: option.splits)

lemma skip_count_families [simp]: "skip_count name (cl\<lparr>other_families := fs\<rparr>) = skip_count name cl"
  by (simp add: skip_count_def)

lemma skip_count_kept [simp]: "skip_count name (cl\<lparr>kept_members := ms\<rparr>) = skip_count name cl"
  by (simp add: skip_count_def)

definition belongs :: "int \<Rightarrow> string \<Rightarrow> pyval \<Rightarrow> bool" where
  "belongs org field row \<longleftrightarrow> record_organization row field = Inr org"

lemma own_rows_correct:
  assumes "own_rows (Some org) is_members field name cl rows = (cl', Inr kept)"
  shows "kept = filter (belongs org field) rows \<and> (\<forall>row\<in>set rows. \<exists>i. record_organization row field = Inr i) \<and>
    skip_count name cl' = skip_count name cl + int (length rows - length kept)"
  using assms
proof (induction rows arbitrary: cl kept)
  case (Cons row rows)
  then obtain i where i: "record_organization row field = Inr i" by (auto split: sum.splits)
  show ?case
  proof (cases "i = org")
    case True
    with Cons.prems i obtain ks where ks: "own_rows (Some org) is_members field name cl rows = (cl', Inr ks)" "kept = row # ks"
      by (auto split: prod.splits)
    from Cons.IH [OF ks(1)] ks(2) i True show ?thesis by (auto simp: belongs_def)
  next
    case False
    with Cons.prems i obtain cl1 where cl1: "own_rows (Some org) is_members field name cl1 rows = (cl', Inr kept)"
        "skip_count name cl1 = skip_count name cl + 1"
      by (auto simp: Let_def split: if_splits sum.splits)
    from Cons.IH [OF cl1(1)] cl1(2) i False show ?thesis
      by (auto simp: belongs_def Suc_diff_le length_filter_le)
  qed
qed simp

lemma set_element_Inr: "set_element v = Inr u \<Longrightarrow> u = v"
  by (cases v) (auto simp: set_element_def)

lemma own_contacts_correct:
  assumes "own_contacts (Some org) members cl rows = (cl', Inr kept)"
  shows "kept = filter (\<lambda>row. \<exists>m. row_get row ''memberDUID'' = Inr m \<and> in_set members m) rows \<and>
    (\<forall>row\<in>set kept. belongs org ''ownerOrganizationID'' row)"
  using assms
proof (induction rows arbitrary: cl kept)
  case (Cons row rows)
  then obtain m where m: "row_get row ''memberDUID'' = Inr m" "set_element m = Inr m"
    by (auto split: sum.splits dest: set_element_Inr)
  show ?case
  proof (cases "in_set members m")
    case True
    with Cons.prems m obtain ks where ks: "own_contacts (Some org) members cl rows = (cl', Inr ks)" "kept = row # ks"
        "record_organization row ''ownerOrganizationID'' = Inr org"
      by (auto split: sum.splits prod.splits if_splits)
    from Cons.IH [OF ks(1)] ks(2,3) m True show ?thesis by (auto simp: belongs_def)
  next
    case False
    with Cons.prems m Cons.IH [of "skipped ''member_contactinfos'' cl" kept] show ?thesis by simp
  qed
qed simp

section \<open>Paginated reads\<close>

lemma own_organization_world: "own_organization endpoint rows (w, cl) = ((w', cl'), r) \<Longrightarrow> w' = w"
  by (auto simp: own_organization_def split: if_splits option.splits prod.splits sum.splits)

lemma own_organization_filters:
  assumes "own_organization endpoint rows (w, cl) = ((w', cl'), Inr kept)"
    and "organizations_reached cl = Some n" and "2 \<le> n" and "cl_organization cl = Some org"
    and "map_of ORGANIZATION_FIELDS endpoint = Some (field, name)"
  shows "kept = filter (belongs org field) rows \<and> (\<forall>row\<in>set rows. \<exists>i. record_organization row field = Inr i) \<and>
    skip_count name cl' = skip_count name cl + int (length rows - length kept) \<and>
    (endpoint = ''members/search'' \<longrightarrow> (\<exists>ms. kept_members cl' = Some ms \<and> map_res (\<lambda>row. row_get row ''memberDUID'') kept = Inr ms))"
proof -
  have "endpoint \<noteq> ''members/contact/list''" using assms(5) by (auto simp: ORGANIZATION_FIELDS_def)
  with assms obtain cl1 where cl1: "own_rows (Some org) (endpoint = ''members/search'') field name cl rows = (cl1, Inr kept)"
      "if endpoint = ''members/search'' then
         (\<exists>ms. map_res (\<lambda>row. bind_res (row_get row ''memberDUID'') set_element) kept = Inr ms \<and> cl' = cl1\<lparr>kept_members := Some ms\<rparr>)
       else cl' = cl1"
    by (auto simp: own_organization_def split: prod.splits sum.splits if_splits)
  have "map_res (\<lambda>row. bind_res (row_get row ''memberDUID'') set_element) kept = Inr ms \<Longrightarrow>
      map_res (\<lambda>row. row_get row ''memberDUID'') kept = Inr ms" for ms
    by (auto simp: map_res_eq_Inr elim!: list_all2_mono dest: set_element_Inr)
  then show ?thesis using own_rows_correct [OF cl1(1)] cl1(2) by (auto split: if_splits)
qed

lemma own_organization_keeps:
  assumes "own_organization endpoint rows (w, cl) = ((w', cl'), Inr kept)"
    and "organizations_reached cl = Some n" and "2 \<le> n" and "cl_organization cl = Some org"
    and "endpoint = ''members/contact/list''"
  shows "\<exists>members. kept_members cl = Some members \<and>
    kept = filter (\<lambda>row. \<exists>m. row_get row ''memberDUID'' = Inr m \<and> in_set members m) rows \<and>
    (\<forall>row\<in>set kept. belongs org ''ownerOrganizationID'' row)"
proof -
  obtain members where m: "kept_members cl = Some members"
    using assms by (auto simp: own_organization_def split: option.splits)
  then have "own_contacts (Some org) members cl rows = (cl', Inr kept)"
    using assms by (auto simp: own_organization_def split: prod.splits)
  from own_contacts_correct [OF this] m show ?thesis by blast
qed

section \<open>What is written to the cache\<close>

text \<open>\<open>obs\<close> records the writes to the cache, and requests leave it alone.\<close>

definition records_writes :: "('w \<Rightarrow> (string \<times> pyval) list) \<Rightarrow> 'w cache_store \<Rightarrow> 'w ps_session \<Rightarrow> bool" where
  "records_writes obs cs ss \<longleftrightarrow>
     (\<forall>path v w. obs (fst (cache_write cs path v w)) = obs w @ [(path, v)]) \<and>
     (\<forall>url p. preserves obs (ps_get ss url p)) \<and> (\<forall>url p. preserves obs (ps_post ss url p))"

lemma preserves_ps_world [frame]: "preserves obs act \<Longrightarrow> preserves (\<lambda>s. (obs (fst s), snd s)) (ps_world act)"
  by (auto simp: preserves_def ps_world_def split: prod.splits) (metis fst_conv)

lemma preserves_ps_request [frame]:
  assumes "preserves obs func"
  shows "preserves obs (ps_request p func)"
proof -
  have "obs (fst (ps_call func w)) = obs w" for w
    using assms by (cases "func w") (auto simp: preserves_def ps_call_def bind_act_def split: sum.splits, (metis fst_conv)+)
  then have "obs (fst (retry_call (Some p) default_retry_exceptions (\<lambda>_. 0) (ps_call func) w)) = obs w" for w
    unfolding retry_call_def Let_def by (intro retry_loop_preserves) simp
  moreover have "fst (ps_request p func w) = fst (retry_call (Some p) default_retry_exceptions (\<lambda>_. 0) (ps_call func) w)" for w
    by (simp add: ps_request_def split: prod.splits sum.splits exn.splits)
  ultimately show ?thesis by (simp add: preserves_def)
qed

lemma preserves_ps_page [frame]:
  assumes "\<And>url p. preserves obs (ps_get ss url p)" and "\<And>url p. preserves obs (ps_post ss url p)"
  shows "preserves (\<lambda>s. (obs (fst s), snd s)) (ps_page cfg ss is_post endpoint params lname l onm bi np)"
  unfolding ps_page_def Let_def using assms by (cases is_post) (auto intro!: frame split: prod.splits)

lemma fetch_items_preserves:
  assumes "records_writes obs cs ss"
    and "fetch_all (ps_page cfg ss is_post endpoint params lname l onm bi) t s = (s', r)"
  shows "obs (fst s') = obs (fst s) \<and> snd s' = snd s"
proof -
  have "\<forall>t s. (\<lambda>s. (obs (fst s), snd s)) (fst (ps_page cfg ss is_post endpoint params lname l onm bi t s)) = (obs (fst s), snd s)"
    using preserves_ps_page [of obs ss] assms(1) unfolding records_writes_def preserves_def by blast
  from fetch_all_preserves [of "\<lambda>s. (obs (fst s), snd s)", OF this, of t s] assms(2) show ?thesis by simp
qed

lemma fresh_read_own:
  fixes w :: 'w
  assumes R: "bind_act (fetch_all (ps_page cfg ss is_post endpoint params lname l onm bi) (0, 1)) (\<lambda>items.
      bind_act (own_organization endpoint items) (\<lambda>items s1.
      bind_act (ps_world (save_cache cs cfg (path (snd s1)) (PList items))) (\<lambda>_. pure_act (Inr items)) s1)) (w, cl) = ((w', cl'), r)"
    and own: "\<And>rows (v :: 'w) v' cl2 kept. own_organization endpoint rows (v, cl) = ((v', cl2), Inr kept) \<Longrightarrow> \<forall>row\<in>set kept. good row"
    and obs: "records_writes obs cs ss"
  shows "(\<forall>items. r = Inr items \<longrightarrow> (\<forall>row\<in>set items. good row)) \<and>
    (\<exists>ws. obs w' = obs w @ ws \<and> (\<forall>(path, v)\<in>set ws. \<exists>vs. v = PList vs \<and> (\<forall>row\<in>set vs. good row)))"
proof -
  obtain w1 cl1 r1 where f: "fetch_all (ps_page cfg ss is_post endpoint params lname l onm bi) (0, 1) (w, cl) = ((w1, cl1), r1)"
    by (metis prod.exhaust)
  have w1: "obs w1 = obs w" "cl1 = cl" using fetch_items_preserves [OF obs f] by simp_all
  show ?thesis
  proof (cases r1)
    case (Inl e)
    then have "w' = w1" "r = Inl e" using R f by (auto simp: bind_act_def)
    then show ?thesis using w1 by (intro conjI exI [of _ "[]"]) auto
  next
    case (Inr items)
    obtain w2 cl2 r2 where o: "own_organization endpoint items (w1, cl) = ((w2, cl2), r2)" by (metis prod.exhaust)
    have w2: "w2 = w1" using own_organization_world [OF o] .
    show ?thesis
    proof (cases r2)
      case e: (Inl e)
      then have "w' = w1" "r = Inl e" using R f Inr o w1 w2 by (auto simp: bind_act_def)
      then show ?thesis using w1 by (intro conjI exI [of _ "[]"]) auto
    next
      case k: (Inr kept)
      note gd = own [OF o [unfolded k]]
      obtain w3 r3 where s: "save_cache cs cfg (path cl2) (PList kept) w1 = (w3, r3)" by (metis prod.exhaust)
      have "w' = w3 \<and> (r = Inr kept \<or> (\<exists>e. r = Inl e))"
        using R f Inr o w1 w2 k s by (auto simp: bind_act_def ps_world_def split: sum.splits)
      moreover have "obs w3 = obs w \<or> obs w3 = obs w @ [(path cl2, PList kept)]"
        using s obs w1(1) by (cases "cache_enabled cfg") (auto simp: save_cache_def records_writes_def dest: arg_cong [of _ _ fst], metis fst_conv)
      ultimately show ?thesis using gd by fastforce
    qed
  qed
qed


text \<open>A world with a cache and a server that answers with two records of different organizations.\<close>

definition demo_key_config :: ps_config where
  "demo_key_config = \<lparr>api_key = ''k'', expected_organization = None, cache_limit = None, organization_id = Some 7,
     api_base_url = ''https://x'', timeout = 30, cache_enabled = True\<rparr>"

definition demo_cache :: "(string \<times> pyval) list cache_store" where
  "demo_cache = \<lparr>cache_file = (\<lambda>path w. map_option (\<lambda>v. (0, Some v)) (map_of (rev w) path)), cache_now = (\<lambda>_. 0),
     cache_write = (\<lambda>path v w. (w @ [(path, v)], Inr ()))\<rparr>"

definition demo_pledges :: "pyval list" where
  "demo_pledges = map (\<lambda>(p, i). PDict [(''pledgeID'', PInt p), (''organizationID'', PInt i)]) [(1, 7), (2, 8)]"

definition demo_session :: "(string \<times> pyval) list ps_session" where
  "demo_session = \<lparr>ps_get = (\<lambda>url p w. (w, Inr \<lparr>hr_status = 200, hr_text = ''x'', hr_url = url, hr_json = Some (PDict [(''data'', PList demo_pledges)])\<rparr>)),
     ps_post = (\<lambda>url p w. (w, Inl TimeoutError)), ps_policy = PS_RETRY_POLICY\<rparr>"

definition demo_client :: client where
  "demo_client = \<lparr>cl_organization = Some 7, organizations_reached = Some 2, other_skipped = [], kept_members = None,
     other_families = [], families_without_members = 0\<rparr>"

lemma ps_request_ok:
  assumes "func w = (w', Inr response)" and "200 \<le> hr_status response" and "hr_status response \<le> 299" and "1 \<le> attempts p"
  shows "ps_request p func w = (w', Inr response)"
proof -
  have "[0..<nat (attempts p)] = 0 # [1..<nat (attempts p)]" using assms(4) by (simp add: upt_conv_Cons)
  then show ?thesis using assms by (auto simp: ps_request_def retry_call_def ps_call_def bind_act_def)
qed

lemma demo_page:
  "ps_page demo_key_config demo_session False ''offering/pledge/list'' [] ''PageSize'' 500 ''PageNumber'' False (0, 1) (w, cl) =
    ((w, cl), Inr (demo_pledges, None))"
proof -
  have "ps_request PS_RETRY_POLICY (ps_get demo_session url ps) w =
      (w, Inr \<lparr>hr_status = 200, hr_text = ''x'', hr_url = url, hr_json = Some (PDict [(''data'', PList demo_pledges)])\<rparr>)" for url ps
    by (rule ps_request_ok) (simp_all add: demo_session_def PS_RETRY_POLICY_def)
  moreover have "ps_policy demo_session = PS_RETRY_POLICY" by (simp add: demo_session_def)
  ultimately show ?thesis
    by (simp add: ps_page_def Let_def bind_act_def ps_world_def response_json_def extract_page_def dget_def truthy_def py_ge_def)
qed

lemma pledges_read:
  "\<exists>s. read_paginated demo_cache (\<lambda>_. ''f'') (\<lambda>_. ''e'') demo_key_config demo_session False ''offering/pledge/list'' [] ''PageSize'' 500
     ''PageNumber'' False ([], demo_client) = (s, Inr [hd demo_pledges])"
proof -
  have "fetch_all (ps_page demo_key_config demo_session False ''offering/pledge/list'' [] ''PageSize'' 500 ''PageNumber'' False) (0, 1) ([], demo_client) =
      (([], demo_client), Inr demo_pledges)"
    by (rule fetch_all_pages, rule last_page, rule demo_page)
  then show ?thesis
    by (simp add: read_paginated_def Let_def load_cache_def demo_cache_def bind_act_def own_organization_def demo_client_def ORGANIZATION_FIELDS_def
      demo_pledges_def record_organization_def dget_def skipped_def ps_world_def save_cache_def split: prod.splits)
qed


section \<open>The cache\<close>

text \<open>A file just written has the current time and the value written.\<close>

definition cache_reads_back :: "'w cache_store \<Rightarrow> bool" where
  "cache_reads_back cs \<longleftrightarrow>
     (\<forall>path v w w'. cache_write cs path v w = (w', Inr ()) \<longrightarrow> cache_file cs path w' = Some (cache_now cs w', Some v))"

lemma ps_world_snd: "ps_world act s = (s', r) \<Longrightarrow> snd s' = snd s"
  by (auto simp: ps_world_def split: prod.splits)

lemma get_uncached_snd: "get_uncached cfg ss endpoint params s = (s', r) \<Longrightarrow> snd s' = snd s"
  by (auto simp: get_uncached_def bind_act_def dest: ps_world_snd split: prod.splits sum.splits)

text \<open>
  Reading again through the cache. After a successful read the same request is answered from
  the cache with the same value, without a request and without any change.
\<close>

theorem get_cached_again:
  assumes "cache_reads_back cs" and "cache_enabled cfg" and "case cache_limit cfg of None \<Rightarrow> True | Some l \<Rightarrow> 0 \<le> l"
    and read: "get_cached cs fp enc cfg ss endpoint params s = (s1, Inr v)" and "v \<noteq> PNone"
  shows "get_cached cs fp enc cfg ss endpoint params s1 = (s1, Inr v)"
proof -
  let ?path = "\<lambda>cl. cache_path fp enc cfg cl endpoint params"
  have "load_cache cs cfg (?path (snd s1)) (fst s1) = Some v"
  proof (cases "load_cache cs cfg (?path (snd s)) (fst s)")
    case (Some u)
    then show ?thesis using read by (simp add: get_cached_def cached_read_def)
  next
    case None
    obtain s2 where s2: "get_uncached cfg ss endpoint params s = (s2, Inr v)"
        "ps_world (save_cache cs cfg (?path (snd s2)) v) s2 = (s1, Inr ())"
      using read None by (auto simp: get_cached_def cached_read_def bind_act_def split: prod.splits sum.splits)
    have "cache_write cs (?path (snd s1)) v (fst s2) = (fst s1, Inr ())"
      using s2(2) ps_world_snd [OF s2(2)] assms(2) by (auto simp: ps_world_def save_cache_def split: prod.splits)
    then have "cache_file cs (?path (snd s1)) (fst s1) = Some (cache_now cs (fst s1), Some v)"
      using assms(1) unfolding cache_reads_back_def by blast
    then show ?thesis using assms(2,3,5) by (auto simp: load_cache_def split: option.splits)
  qed
  then show ?thesis by (simp add: get_cached_def cached_read_def)
qed

lemma demo_get:
  "get_cached demo_cache (\<lambda>_. ''f'') (\<lambda>_. ''e'') demo_key_config demo_session ''families/group/lookup/list'' [] ([], demo_client) =
    (([(cache_path (\<lambda>_. ''f'') (\<lambda>_. ''e'') demo_key_config demo_client ''families/group/lookup/list'' [], PDict [(''data'', PList demo_pledges)])], demo_client),
     Inr (PDict [(''data'', PList demo_pledges)]))"
proof -
  have "ps_request PS_RETRY_POLICY (ps_get demo_session url ps) w =
      (w, Inr \<lparr>hr_status = 200, hr_text = ''x'', hr_url = url, hr_json = Some (PDict [(''data'', PList demo_pledges)])\<rparr>)" for url ps w
    by (rule ps_request_ok) (simp_all add: demo_session_def PS_RETRY_POLICY_def)
  moreover have "ps_policy demo_session = PS_RETRY_POLICY" by (simp add: demo_session_def)
  ultimately show ?thesis
    by (simp add: get_cached_def cached_read_def load_cache_def demo_cache_def get_uncached_def bind_act_def ps_world_def response_json_def
      save_cache_def demo_key_config_def)
qed

theorem get_cached_again_witness:
  "\<exists>s. get_cached demo_cache (\<lambda>_. ''f'') (\<lambda>_. ''e'') demo_key_config demo_session ''families/group/lookup/list'' [] s =
    (s, Inr (PDict [(''data'', PList demo_pledges)]))"
proof -
  have "cache_reads_back demo_cache" by (auto simp: cache_reads_back_def demo_cache_def)
  from get_cached_again [OF this _ _ demo_get] show ?thesis
    by (auto simp: demo_key_config_def)
qed

section \<open>Tenants\<close>

lemma show_nat_digits: "list_all is_digit (show_nat n)"
  using parse_show_nat [of n] by (auto simp: parse_nat_def split: if_splits)

lemma cache_path_tenant:
  assumes fp: "\<forall>x. length (fp x) = 16 \<and> CHR ''/'' \<notin> set (fp x)"
    and orgs: "cl_organization cl1 = Some i" "cl_organization cl2 = Some j" "0 \<le> i" "0 \<le> j"
    and same: "cache_path fp enc cfg1 cl1 ep1 ps1 = cache_path fp enc cfg2 cl2 ep2 ps2"
  shows "i = j \<and> fp (api_base_url cfg1 @ [CHR 0x00] @ api_key cfg1) = fp (api_base_url cfg2 @ [CHR 0x00] @ api_key cfg2)"
proof -
  let ?m = "map (\<lambda>c. if c = CHR ''/'' then CHR ''-'' else c)"
  let ?f1 = "fp (api_base_url cfg1 @ [CHR 0x00] @ api_key cfg1)" and ?f2 = "fp (api_base_url cfg2 @ [CHR 0x00] @ api_key cfg2)"
  have id: "CHR ''/'' \<notin> set x \<Longrightarrow> ?m x = x" for x by (induction x) auto
  have "\<not> is_digit CHR ''/''" "\<not> is_digit CHR ''-''" by (simp_all add: is_digit_def Let_def)
  then have slash: "list_all is_digit x \<Longrightarrow> CHR ''/'' \<notin> set x \<and> CHR ''-'' \<notin> set x" for x by (auto simp: list_all_iff)
  note d1 = slash [OF show_nat_digits [of "nat i"]] and d2 = slash [OF show_nat_digits [of "nat j"]]
  have p: "cache_path fp enc cfg cl ep ps = ''cache-v2-'' @ fp (api_base_url cfg @ [CHR 0x00] @ api_key cfg) @ ''-org-'' @
      show_nat (nat k) @ CHR ''-'' # ?m (ep @ (if ps = [] then [] else ''-'' @ enc (sort_key fst ps)) @ ''.json'')"
    if "cl_organization cl = Some k" "0 \<le> k" for cfg cl ep ps k
  proof -
    have "?m (fp (api_base_url cfg @ [CHR 0x00] @ api_key cfg)) = fp (api_base_url cfg @ [CHR 0x00] @ api_key cfg)" using fp by (intro id) blast
    moreover have "?m (show_nat (nat k)) = show_nat (nat k)" using slash [OF show_nat_digits] by (intro id) blast
    ultimately show ?thesis using that by (simp add: cache_path_def cache_scope_def show_int_def)
  qed
  obtain r1 r2 where eq: "?f1 @ ''-org-'' @ show_nat (nat i) @ CHR ''-'' # r1 = ?f2 @ ''-org-'' @ show_nat (nat j) @ CHR ''-'' # r2"
    using same unfolding p [OF orgs(1,3)] p [OF orgs(2,4)] by simp
  moreover have "length ?f1 = length ?f2" using fp by simp
  ultimately have f: "?f1 = ?f2" and r: "show_nat (nat i) @ CHR ''-'' # r1 = show_nat (nat j) @ CHR ''-'' # r2" by simp_all
  have tw: "takeWhile (\<lambda>c. c \<noteq> CHR ''-'') (x @ CHR ''-'' # y) = x" if "CHR ''-'' \<notin> set x" for x y
    using that by (induction x) auto
  have "show_nat (nat i) = show_nat (nat j)" using arg_cong [OF r, of "takeWhile (\<lambda>c. c \<noteq> CHR ''-'')"] d1 d2 by (simp add: tw)
  then have "nat i = nat j" by (metis option.inject parse_show_nat)
  then show ?thesis using f orgs by simp
qed

text \<open>
  Tenants do not share cache files. With fingerprints of a fixed length and without
  slashes, requests for different organizations, or with different fingerprints of base address
  and key, never use the same file, whatever they ask for.
\<close>

theorem cache_tenants_separate:
  assumes "\<forall>x. length (fp x) = 16 \<and> CHR ''/'' \<notin> set (fp x)"
    and "cl_organization cl1 = Some i" and "cl_organization cl2 = Some j" and "0 \<le> i" and "0 \<le> j"
    and "i \<noteq> j \<or> fp (api_base_url cfg1 @ [CHR 0x00] @ api_key cfg1) \<noteq> fp (api_base_url cfg2 @ [CHR 0x00] @ api_key cfg2)"
  shows "cache_path fp enc cfg1 cl1 ep1 ps1 \<noteq> cache_path fp enc cfg2 cl2 ep2 ps2"
  using cache_path_tenant [OF assms(1-5), of enc cfg1 ep1 ps1 cfg2 ep2 ps2] assms(6) by blast

theorem cache_tenants_separate_witness:
  "cache_path (\<lambda>_. replicate 16 CHR ''a'') (\<lambda>_. ''e'') demo_key_config demo_client ''members/search'' [] \<noteq>
   cache_path (\<lambda>_. replicate 16 CHR ''a'') (\<lambda>_. ''e'') demo_key_config (demo_client\<lparr>cl_organization := Some 8\<rparr>) ''members/search'' []"
  by (rule cache_tenants_separate [where i = 7 and j = 8]) (simp_all add: demo_client_def)

end
