(* ===== verification/Comparison.thy ===== *)
theory Comparison
  imports Dates
begin

text \<open>
  \<open>stewardship/responses/comparison.py\<close>: the typed keys under which census answers are compared.
  A value is what a form or the source holds; \<open>canonical_value\<close> maps it to a key, and every input that has
  no key is refused with one error that does not mention the value. Text is ASCII, on which the
  Unicode normalisation of the source is the identity. \<open>Decimal\<close>, \<open>UUID\<close> and the regular expressions
  are written out.
\<close>

section \<open>Values and keys\<close>

text \<open>A finite decimal is its sign, coefficient and exponent (\<open>as_tuple\<close>).\<close>

datatype decimal =
    Dec bool nat int
  | Dec_special

datatype field_value =
    VNone
  | VBool bool
  | VInt int
  | VStr string
  | VDecimal decimal
  | VDate date
  | VUUID string
  | VDict "(string \<times> field_value) list"
  | VOther

datatype value_kind =
    TEXT | EMAIL | PHONE | DATE | BOOLEAN | IDENTIFIER | MONEY | ENUM | ADDRESS | MEMBER

datatype phone_key =
    Opaque string
  | International string string
  | National string string

datatype canon =
    KNone
  | KText string
  | KBool bool
  | KMoney int
  | KInteger int
  | KUuid string
  | KPhone phone_key
  | KTuple "(string \<times> canon) list"

definition ADDRESS_COMPONENTS :: "string list" where
  "ADDRESS_COMPONENTS = [''line1'', ''line2'', ''city'', ''region'', ''postal_code'', ''country'']"

text \<open>\<open>_invalid\<close>: a \<open>ComparisonValueError\<close> without the private value.\<close>

definition invalid :: exn where
  "invalid = ValueError ''The field has no valid canonical comparison value.''"

definition text_key :: "field_value \<Rightarrow> string res" where
  "text_key v =
     (case v of
        VStr s \<Rightarrow> if length s > 8192 \<or> CHR 0x00 \<in> set s then Inl invalid else Inr (strip s)
      | _ \<Rightarrow> Inl invalid)"

section \<open>Money\<close>

text \<open>The sign of a number, and what follows it.\<close>

definition take_sign :: "string \<Rightarrow> bool \<times> string" where
  "take_sign s =
     (case s of
        c # rest \<Rightarrow> if c = CHR ''-'' then (True, rest) else if c = CHR ''+'' then (False, rest) else (False, s)
      | [] \<Rightarrow> (False, []))"

text \<open>The exponent part: nothing, or \<open>E\<close> with a signed number.\<close>

definition parse_exponent :: "string \<Rightarrow> int option" where
  "parse_exponent s =
     (case s of
        [] \<Rightarrow> Some 0
      | c # rest \<Rightarrow>
          if lower_char c \<noteq> CHR ''e'' then None
          else (case take_sign rest of (neg, ds) \<Rightarrow>
                  map_option (\<lambda>n. if neg then - int n else int n) (parse_nat ds)))"

text \<open>\<open>Decimal(value)\<close> of a string; \<open>None\<close> is \<open>InvalidOperation\<close>.\<close>

definition is_special :: "string \<Rightarrow> bool" where
  "is_special s \<longleftrightarrow>
     (let t = lower s; nan = (if startswith t ''snan'' then drop 4 t else if startswith t ''nan'' then drop 3 t else ''x'')
      in t = ''inf'' \<or> t = ''infinity'' \<or> list_all is_digit nan)"

definition parse_decimal :: "string \<Rightarrow> decimal option" where
  "parse_decimal s =
     (case take_sign (filter (\<lambda>c. c \<noteq> CHR ''_'') (strip s)) of (neg, body) \<Rightarrow>
        (let ipart = takeWhile is_digit body; rest = dropWhile is_digit body;
             (fpart, rest') = (case rest of
                                 c # r \<Rightarrow> if c = CHR ''.'' then (takeWhile is_digit r, dropWhile is_digit r) else ([], rest)
                               | [] \<Rightarrow> ([], []))
         in if ipart @ fpart = [] then (if is_special body then Some Dec_special else None)
            else map_option (\<lambda>e. Dec neg (digits_value (ipart @ fpart)) (e - int (length fpart))) (parse_exponent rest')))"

definition decimal_cents :: "decimal \<Rightarrow> int res" where
  "decimal_cents d =
     (case d of
        Dec_special \<Rightarrow> Inl invalid
      | Dec neg coefficient e \<Rightarrow>
          if \<not> (-18 \<le> e \<and> e \<le> 18) \<or> length (show_nat coefficient) > 40 then Inl invalid
          else (let (cents, remainder) =
                      (if e \<ge> -2 then (int coefficient * 10 ^ nat (e + 2), 0)
                       else (int coefficient div 10 ^ nat (- e - 2), int coefficient mod 10 ^ nat (- e - 2)))
                in if remainder \<noteq> 0 \<or> cents \<ge> 10 ^ 20 then Inl invalid else Inr (if neg then - cents else cents)))"

definition money :: "field_value \<Rightarrow> int res" where
  "money v =
     (case v of
        VInt i \<Rightarrow> if \<bar>i\<bar> \<ge> 10 ^ 18 then Inl invalid else decimal_cents (Dec (i < 0) (nat \<bar>i\<bar>) 0)
      | VStr s \<Rightarrow>
          if length s > 40 then Inl invalid
          else (case parse_decimal s of None \<Rightarrow> Inl invalid | Some d \<Rightarrow> decimal_cents d)
      | VDecimal d \<Rightarrow> decimal_cents d
      | _ \<Rightarrow> Inl invalid)"

section \<open>Identifiers\<close>

definition is_hex :: "char \<Rightarrow> bool" where
  "is_hex c \<longleftrightarrow> is_digit c \<or> (let n = (of_char (lower_char c) :: nat) in 97 \<le> n \<and> n \<le> 102)"

definition hex_digit :: "char \<Rightarrow> nat" where
  "hex_digit c = (if is_digit c then of_char c - 48 else of_char (lower_char c) - 87)"

text \<open>\<open>int(hex, 16)\<close> of a string without minus signs: outer blanks, a plus sign, \<open>0x\<close>, single underscores.\<close>

definition parse_hex :: "string \<Rightarrow> nat option" where
  "parse_hex s =
     (let t = strip s; t = (if startswith t ''+'' then drop 1 t else t);
          t = (if startswith (lower t) ''0x'' then (let u = drop 2 t in if startswith u ''_'' then drop 1 u else u) else t);
          groups = split_on CHR ''_'' t
      in if list_all (\<lambda>g. g \<noteq> [] \<and> list_all is_hex g) groups
         then Some (foldl (\<lambda>acc c. 16 * acc + hex_digit c) 0 (concat groups)) else None)"

text \<open>\<open>str.replace\<close>: every occurrence from the left, not rescanned.\<close>

function replace :: "string \<Rightarrow> string \<Rightarrow> string \<Rightarrow> string" where
  "replace old new s =
     (if old = [] \<or> s = [] then s
      else if startswith s old then new @ replace old new (drop (length old) s)
      else hd s # replace old new (tl s))"
  by pat_completeness auto
termination
  by (relation "measure (\<lambda>(old, new, s). length s)") (auto simp: length_greater_0_conv [symmetric] simp del: length_greater_0_conv)

declare replace.simps [simp del]

definition hex_char :: "nat \<Rightarrow> char" where
  "hex_char n = (if n < 10 then char_of (48 + n) else char_of (87 + n))"

fun hex_text :: "nat \<Rightarrow> nat \<Rightarrow> string" where
  "hex_text 0 n = []"
| "hex_text (Suc k) n = hex_text k (n div 16) @ [hex_char (n mod 16)]"

definition uuid_text :: "nat \<Rightarrow> string" where
  "uuid_text n =
     (let h = hex_text 32 n
      in take 8 h @ ''-'' @ take 4 (drop 8 h) @ ''-'' @ take 4 (drop 12 h) @ ''-'' @ take 4 (drop 16 h) @ ''-'' @ drop 20 h)"

definition uuid_of :: "string \<Rightarrow> string option" where
  "uuid_of s =
     (let h = filter (\<lambda>c. c \<noteq> CHR ''-'')
                (strip_by (\<lambda>c. c = CHR ''{'' \<or> c = CHR ''}'') (replace ''uuid:'' [] (replace ''urn:'' [] s)))
      in if length h \<noteq> 32 then None else map_option uuid_text (parse_hex h))"

definition identifier_int :: "int \<Rightarrow> canon res" where
  "identifier_int i = (if 0 < i \<and> i < 2 ^ 63 then Inr (KInteger i) else Inl invalid)"

definition identifier_key :: "field_value \<Rightarrow> canon res" where
  "identifier_key v =
     (case v of
        VUUID u \<Rightarrow> Inr (KUuid u)
      | VInt i \<Rightarrow> identifier_int i
      | VStr s \<Rightarrow>
          if length s > 36 then Inl invalid
          else if s \<noteq> [] \<and> list_all is_digit s \<and> hd s \<noteq> CHR ''0'' \<and> length s \<le> 19 then identifier_int (int (digits_value s))
          else (case uuid_of s of Some u \<Rightarrow> Inr (KUuid u) | None \<Rightarrow> Inl invalid)
      | _ \<Rightarrow> Inl invalid)"

section \<open>Telephone numbers\<close>

definition number_char :: "char \<Rightarrow> bool" where
  "number_char c \<longleftrightarrow> is_digit c \<or> c \<in> set '' ().-''"

text \<open>
  The regular expression: a number that starts with a digit, \<open>+\<close> and a digit, or \<open>(\<close> and a digit, and
  perhaps an extension. The number takes all characters it can, since an extension starts with a
  character no number has.
\<close>

definition extension_body :: "string \<Rightarrow> string option" where
  "extension_body s =
     (let t = lower (dropWhile is_space s)
      in if startswith t ''ext'' then Some (let u = drop 3 t in if startswith u ''.'' then drop 1 u else u)
         else if startswith t ''x'' \<or> startswith t ''#'' then Some (drop 1 t)
         else if startswith t '';ext='' then Some (drop 5 t) else None)"

definition match_extension :: "string \<Rightarrow> string option" where
  "match_extension s =
     (case extension_body s of
        None \<Rightarrow> None
      | Some b \<Rightarrow>
          (let ds = dropWhile is_space b
           in if ds \<noteq> [] \<and> length ds \<le> 12 \<and> list_all is_digit ds then Some ds else None))"

definition match_phone :: "string \<Rightarrow> (bool \<times> string \<times> string) option" where
  "match_phone s =
     (let intl = startswith s ''+''; rest = (if intl \<or> startswith s ''('' then drop 1 s else s)
      in if rest = [] \<or> \<not> is_digit (hd rest) then None
         else (let number = takeWhile number_char rest; tail = dropWhile number_char rest;
                   digits = filter is_digit number
               in if tail = [] then Some (intl, digits, [])
                  else map_option (\<lambda>e. (intl, digits, e)) (match_extension tail)))"

definition phone_text :: "string \<Rightarrow> bool \<Rightarrow> phone_key res" where
  "phone_text s us =
     bind_res (text_key (VStr s)) (\<lambda>s.
       if length s > 256 then Inl invalid
       else Inr (case match_phone s of
                   None \<Rightarrow> Opaque s
                 | Some (intl, digits, ext) \<Rightarrow>
                     if \<not> (1 \<le> length digits \<and> length digits \<le> 15) then Opaque s
                     else if intl then International digits ext
                     else if us \<and> length digits = 10 then International (CHR ''1'' # digits) ext
                     else if us \<and> length digits = 11 \<and> startswith digits ''1'' then International digits ext
                     else National digits ext))"

record phone_record =
  pr_normalized :: "string option"
  pr_display :: string

definition phone_record_of :: "string \<Rightarrow> phone_record res" where
  "phone_record_of s =
     bind_res (text_key (VStr s)) (\<lambda>display.
     bind_res (phone_text display True) (\<lambda>key.
     Inr \<lparr>pr_normalized = (case key of
             International digits ext \<Rightarrow> Some (''+'' @ digits @ (if ext = [] then [] else '';ext='' @ ext))
           | _ \<Rightarrow> None),
          pr_display = display\<rparr>))"

definition record_value :: "phone_record \<Rightarrow> (string \<times> field_value) list" where
  "record_value r = [(''normalized'', case pr_normalized r of None \<Rightarrow> VNone | Some n \<Rightarrow> VStr n), (''display'', VStr (pr_display r))]"

definition keys_of :: "(string \<times> field_value) list \<Rightarrow> string set" where
  "keys_of d = set (map fst d)"

text \<open>A stored record must be the record of its own display text.\<close>

definition phone :: "field_value \<Rightarrow> bool \<Rightarrow> phone_key res" where
  "phone v us =
     (case v of
        VStr s \<Rightarrow> phone_text s us
      | VDict d \<Rightarrow>
          if keys_of d \<noteq> {''normalized'', ''display''} then Inl invalid
          else (case map_of d ''display'' of
                  Some (VStr display) \<Rightarrow>
                    bind_res (phone_record_of display) (\<lambda>r.
                      if map_of d ''normalized'' \<noteq> map_of (record_value r) ''normalized'' \<or> pr_display r \<noteq> display then Inl invalid
                      else phone_text (case pr_normalized r of Some n \<Rightarrow> n | None \<Rightarrow> display) us)
                | _ \<Rightarrow> Inl invalid)
      | _ \<Rightarrow> Inl invalid)"

section \<open>Canonical values\<close>

definition iso_date :: "string \<Rightarrow> string option" where
  "iso_date s =
     (case map parse_nat (split_on CHR ''-'' s) of
        [Some y, Some m, Some d] \<Rightarrow>
          (let e = Date (int y) (int m) (int d) in if valid_date e \<and> isoformat e = s then Some s else None)
      | _ \<Rightarrow> None)"

definition lower_text :: "field_value \<Rightarrow> string res" where
  "lower_text v = bind_res (text_key v) (\<lambda>s. Inr (casefold s))"

text \<open>The keys of all kinds but \<open>MEMBER\<close>; \<open>us\<close> says that the dialing region is the US.\<close>

definition scalar_value :: "value_kind \<Rightarrow> field_value \<Rightarrow> bool \<Rightarrow> canon res" where
  "scalar_value kind v us =
     (if v = VNone then Inr KNone
      else case kind of
        TEXT \<Rightarrow> bind_res (text_key v) (\<lambda>s. Inr (KText s))
      | ENUM \<Rightarrow> bind_res (text_key v) (\<lambda>s. Inr (KText s))
      | EMAIL \<Rightarrow> bind_res (lower_text v) (\<lambda>s. Inr (KText s))
      | PHONE \<Rightarrow> bind_res (phone v us) (\<lambda>k. Inr (KPhone k))
      | BOOLEAN \<Rightarrow> (case v of VBool b \<Rightarrow> Inr (KBool b) | _ \<Rightarrow> Inl invalid)
      | DATE \<Rightarrow> (case v of
                   VDate d \<Rightarrow> Inr (KText (isoformat d))
                 | VStr s \<Rightarrow> (case iso_date s of Some t \<Rightarrow> Inr (KText t) | None \<Rightarrow> Inl invalid)
                 | _ \<Rightarrow> Inl invalid)
      | IDENTIFIER \<Rightarrow> identifier_key v
      | MONEY \<Rightarrow> bind_res (money v) (\<lambda>c. Inr (KMoney c))
      | ADDRESS \<Rightarrow>
          (case v of
             VDict d \<Rightarrow>
               if keys_of d \<noteq> set ADDRESS_COMPONENTS then Inl invalid
               else bind_res (map_res (\<lambda>c. bind_res (lower_text (the (map_of d c))) (\<lambda>s. Inr (c, KText s))) ADDRESS_COMPONENTS)
                      (\<lambda>t. Inr (KTuple t))
           | _ \<Rightarrow> Inl invalid)
      | MEMBER \<Rightarrow> Inl invalid)"

text \<open>The fields of a member and their kinds (\<open>member_census.MEMBER_FIELDS\<close>).\<close>

definition MEMBER_FIELDS :: "(string \<times> value_kind) list" where
  "MEMBER_FIELDS =
     [(''prefix'', TEXT), (''first_name'', TEXT), (''middle_name'', TEXT), (''last_name'', TEXT), (''suffix'', TEXT),
      (''nickname'', TEXT), (''maiden_name'', TEXT), (''birth_date'', DATE), (''gender'', ENUM), (''email'', EMAIL),
      (''home_phone'', PHONE), (''mobile_phone'', PHONE), (''work_phone'', PHONE), (''marital_status'', ENUM), (''language'', TEXT)]"

definition canonical_value :: "value_kind \<Rightarrow> field_value \<Rightarrow> bool \<Rightarrow> canon res" where
  "canonical_value kind v us =
     (if kind = MEMBER \<and> v \<noteq> VNone then
        (case v of
           VDict d \<Rightarrow>
             if keys_of d \<noteq> fst ` set MEMBER_FIELDS then Inl invalid
             else bind_res (map_res (\<lambda>(name, k). bind_res (scalar_value k (the (map_of d name)) False) (\<lambda>c. Inr (name, c))) MEMBER_FIELDS)
                    (\<lambda>t. Inr (KTuple t))
         | _ \<Rightarrow> Inl invalid)
      else scalar_value kind v us)"

end
