(* ===== verification/Merge.thy ===== *)
theory Merge
  imports Comparison
begin

text \<open>
  \<open>stewardship/responses/merge.py\<close>: the three-way merge of a source value, the value the Family was shown
  and the value it submitted, with an administrator's edit as a fourth. Values are compared by
  their canonical keys.
\<close>

datatype merge_state =
    CURRENT | SOURCE_CHANGED | FAMILY_CHANGED | UPSTREAM_CAUGHT_UP | ADMIN_RESOLVED | CONFLICT | UNAVAILABLE

record known_value =
  available :: bool
  kv_value :: field_value

text \<open>\<open>KnownValue.__post_init__\<close>: an unavailable value carries no value.\<close>

definition known_value_of :: "bool \<Rightarrow> field_value \<Rightarrow> known_value res" where
  "known_value_of b v =
     (if \<not> b \<and> v \<noteq> VNone then Inl (ValueError ''Invalid source availability metadata.'')
      else Inr \<lparr>available = b, kv_value = v\<rparr>)"

abbreviation known :: "field_value \<Rightarrow> known_value" where
  "known v \<equiv> \<lparr>available = True, kv_value = v\<rparr>"

abbreviation unknown :: known_value where
  "unknown \<equiv> \<lparr>available = False, kv_value = VNone\<rparr>"

record prior_change =
  baseline :: known_value
  submitted :: field_value
  resolved_admin_edit :: known_value

record effective_value =
  ev_value :: known_value
  ev_state :: merge_state
  changed :: bool
  conflict :: bool

definition result :: "known_value \<Rightarrow> merge_state \<Rightarrow> bool \<Rightarrow> bool \<Rightarrow> effective_value" where
  "result v state chg con = \<lparr>ev_value = v, ev_state = state, changed = chg, conflict = con\<rparr>"

text \<open>The key of a value that is only compared when it is available.\<close>

definition known_key :: "value_kind \<Rightarrow> bool \<Rightarrow> known_value \<Rightarrow> canon option res" where
  "known_key kind us k =
     (if available k then bind_res (canonical_value kind (kv_value k) us) (\<lambda>c. Inr (Some c)) else Inr None)"

definition merge_unchanged :: "value_kind \<Rightarrow> bool \<Rightarrow> known_value \<Rightarrow> canon option \<Rightarrow> effective_value res" where
  "merge_unchanged kind us current base =
     bind_res (known_key kind us current) (\<lambda>cur.
       Inr (result current (if cur = None then UNAVAILABLE else if cur = base then CURRENT else SOURCE_CHANGED) False False))"

definition merge_changed :: "value_kind \<Rightarrow> bool \<Rightarrow> known_value \<Rightarrow> prior_change \<Rightarrow> canon \<Rightarrow> canon option \<Rightarrow> effective_value res" where
  "merge_changed kind us current prior sub base =
     (if \<not> available current then Inr (result (known (submitted prior)) UNAVAILABLE True False)
      else bind_res (canonical_value kind (kv_value current) us) (\<lambda>cur.
           if cur = sub then Inr (result current UPSTREAM_CAUGHT_UP False False)
           else bind_res (known_key kind us (resolved_admin_edit prior)) (\<lambda>adm.
                Inr (if adm = Some cur then result current ADMIN_RESOLVED False False
                     else if base = Some cur then result (known (submitted prior)) FAMILY_CHANGED True False
                     else result (known (submitted prior)) CONFLICT True True))))"

definition merge_value :: "value_kind \<Rightarrow> known_value \<Rightarrow> prior_change option \<Rightarrow> bool \<Rightarrow> effective_value res" where
  "merge_value kind current prior us =
     (case prior of
        None \<Rightarrow>
          bind_res (known_key kind us current) (\<lambda>_.
            Inr (result current (if available current then CURRENT else UNAVAILABLE) False False))
      | Some p \<Rightarrow>
          bind_res (canonical_value kind (submitted p) us) (\<lambda>sub.
          bind_res (known_key kind us (baseline p)) (\<lambda>base.
          if base = Some sub then merge_unchanged kind us current base
          else merge_changed kind us current p sub base)))"

section \<open>Properties\<close>

definition same_key :: "value_kind \<Rightarrow> bool \<Rightarrow> field_value \<Rightarrow> field_value \<Rightarrow> bool" where
  "same_key kind us v w \<longleftrightarrow> (\<exists>k. canonical_value kind v us = Inr k \<and> canonical_value kind w us = Inr k)"

lemma known_key_Inr:
  "known_key kind us k = Inr c \<longleftrightarrow> (if available k then \<exists>x. c = Some x \<and> canonical_value kind (kv_value k) us = Inr x else c = None)"
  by (auto simp: known_key_def)

text \<open>
  C30: the merge of a Family's proposal. The value shown is the current source value or the one the
  Family submitted, and \<open>changed\<close> says which. The Family's value is shown exactly when it differs from what
  it was shown and the source has neither caught up with it nor taken the administrator's edit. A
  conflict is reported exactly when, in addition, the source value is not the one the Family was
  shown. An answer equal to what was shown never overrides the source.
\<close>

theorem merge_value_three_way:
  assumes "merge_value kind current (Some p) us = Inr e"
  shows "ev_value e = (if changed e then known (submitted p) else current) \<and>
    (changed e \<longleftrightarrow>
       \<not> (available (baseline p) \<and> same_key kind us (kv_value (baseline p)) (submitted p)) \<and>
       \<not> (available current \<and> same_key kind us (kv_value current) (submitted p)) \<and>
       \<not> (available current \<and> available (resolved_admin_edit p) \<and> same_key kind us (kv_value current) (kv_value (resolved_admin_edit p)))) \<and>
    (conflict e \<longleftrightarrow>
       changed e \<and> available current \<and> \<not> (available (baseline p) \<and> same_key kind us (kv_value current) (kv_value (baseline p))))"
proof -
  obtain sub base where k: "canonical_value kind (submitted p) us = Inr sub" "known_key kind us (baseline p) = Inr base"
    using assms by (auto simp: merge_value_def)
  have base: "available (baseline p) \<and> same_key kind us (kv_value (baseline p)) v \<longleftrightarrow> (\<exists>c. base = Some c \<and> canonical_value kind v us = Inr c)" for v
    using k(2) by (auto simp: known_key_Inr same_key_def split: if_splits)
  show ?thesis
  proof (cases "base = Some sub")
    case True
    then have "merge_unchanged kind us current base = Inr e" using assms k by (simp add: merge_value_def)
    then show ?thesis using True k base [of "submitted p"] by (auto simp: merge_unchanged_def result_def)
  next
    case False
    then have e: "merge_changed kind us current p sub base = Inr e" using assms k by (simp add: merge_value_def)
    then show ?thesis using False k base [of "submitted p"] base [of "kv_value current"]
      by (auto simp: merge_changed_def result_def known_key_Inr same_key_def split: if_splits)
  qed
qed

theorem merge_value_three_way_witness:
  "\<exists>e. merge_value EMAIL (known (VStr ''c@x.org'')) (Some \<lparr>baseline = known (VStr ''a@x.org''), submitted = VStr ''b@x.org'', resolved_admin_edit = unknown\<rparr>) False = Inr e \<and>
    conflict e \<and> ev_value e = known (VStr ''b@x.org'')"
proof -
  let ?p = "\<lparr>baseline = known (VStr ''a@x.org''), submitted = VStr ''b@x.org'', resolved_admin_edit = unknown\<rparr>"
  have keys: "canonical_value EMAIL (VStr ''a@x.org'') False = Inr (KText ''a@x.org'')" "canonical_value EMAIL (VStr ''b@x.org'') False = Inr (KText ''b@x.org'')"
    "canonical_value EMAIL (VStr ''c@x.org'') False = Inr (KText ''c@x.org'')" by code_simp+
  then obtain e where e: "merge_value EMAIL (known (VStr ''c@x.org'')) (Some ?p) False = Inr e"
    by (simp add: merge_value_def merge_changed_def known_key_def)
  from merge_value_three_way [OF e] keys e show ?thesis by (auto simp: same_key_def)
qed

end
