(* ===== verification/Comparison_Facts.thy ===== *)
theory Comparison_Facts
  imports Comparison
begin

text \<open>
  Amounts are compared exactly: two have the same key just when they are the same number. A stored
  telephone record is accepted again and compares like the text it was made from.
\<close>

section \<open>Money\<close>

fun decimal_value :: "decimal \<Rightarrow> rat" where
  "decimal_value (Dec neg n e) = (if neg then - 1 else 1) * of_nat n * 10 powi e"
| "decimal_value Dec_special = 0"

fun admitted :: "decimal \<Rightarrow> bool" where
  "admitted (Dec neg n e) \<longleftrightarrow> -18 \<le> e \<and> e \<le> 18 \<and> length (show_nat n) \<le> 40"
| "admitted Dec_special \<longleftrightarrow> False"

text \<open>The decimal a form or source value stands for.\<close>

definition decimal_of :: "field_value \<Rightarrow> decimal option" where
  "decimal_of v =
     (case v of
        VInt i \<Rightarrow> if \<bar>i\<bar> \<ge> 10 ^ 18 then None else Some (Dec (i < 0) (nat \<bar>i\<bar>) 0)
      | VStr s \<Rightarrow> if length s > 40 then None else parse_decimal s
      | VDecimal d \<Rightarrow> Some d
      | _ \<Rightarrow> None)"

lemma scaled_up: "e \<ge> -2 \<Longrightarrow> (100 :: rat) * 10 powi e = of_int (10 ^ nat (e + 2))"
proof -
  assume "e \<ge> -2"
  then have "(10 :: rat) powi (e + 2) = 10 ^ nat (e + 2)" by (simp add: power_int_def)
  moreover have "(10 :: rat) powi (e + 2) = 10 powi e * 100" by (simp add: power_int_add)
  ultimately show ?thesis by simp
qed

lemma scaled_down: "e < -2 \<Longrightarrow> (100 :: rat) * 10 powi e = 1 / of_int (10 ^ nat (- e - 2))"
proof -
  assume "e < -2"
  then have "(10 :: rat) powi (e + 2) = inverse (10 ^ nat (- (e + 2)))" by (simp add: power_int_def power_one_over inverse_eq_divide)
  moreover have "(10 :: rat) powi (e + 2) = 10 powi e * 100" by (simp add: power_int_add)
  moreover have "- (e + 2) = - e - 2" by simp
  ultimately show ?thesis by (simp add: divide_inverse)
qed

lemma exact_quotient:
  fixes n m c :: int
  assumes "0 < m"
  shows "(of_int c :: rat) = of_int n / of_int m \<longleftrightarrow> n mod m = 0 \<and> c = n div m"
proof -
  have "(of_int c :: rat) = of_int n / of_int m \<longleftrightarrow> of_int (c * m) = (of_int n :: rat)" using assms by (simp add: field_simps)
  also have "\<dots> \<longleftrightarrow> c * m = n" by (simp only: of_int_eq_iff)
  also have "\<dots> \<longleftrightarrow> n mod m = 0 \<and> c = n div m" using assms by auto
  finally show ?thesis .
qed

lemma decimal_cents_iff:
  "decimal_cents d = Inr c \<longleftrightarrow> admitted d \<and> of_int c = 100 * decimal_value d \<and> \<bar>c\<bar> < 10 ^ 20"
proof (cases d)
  case (Dec neg n e)
  show ?thesis
  proof (cases "admitted d")
    case adm: True
    define s where "s = (if neg then - 1 else 1 :: int)"
    have s: "s \<in> {-1, 1}" "(if neg then - x else x) = s * x" for x by (simp_all add: s_def)
    have val: "100 * decimal_value d = of_int s * (of_nat n * (100 * 10 powi e))" by (simp add: Dec s_def)
    show ?thesis
    proof (cases "e \<ge> -2")
      case True
      have "100 * decimal_value d = of_int (s * (int n * 10 ^ nat (e + 2)))" unfolding val scaled_up [OF True] by simp
      then have "of_int c = 100 * decimal_value d \<longleftrightarrow> c = s * (int n * 10 ^ nat (e + 2))" by (simp only: of_int_eq_iff)
      moreover have "\<bar>s * (int n * 10 ^ nat (e + 2))\<bar> = int n * 10 ^ nat (e + 2)" using s(1) by auto
      ultimately show ?thesis using True adm by (auto simp: Dec decimal_cents_def s(2))
    next
      case False
      let ?m = "10 ^ nat (- e - 2) :: int"
      have "100 * decimal_value d = of_int (s * int n) / of_int ?m" using False unfolding val by (simp add: scaled_down)
      then have eq: "of_int c = 100 * decimal_value d \<longleftrightarrow> (s * int n) mod ?m = 0 \<and> c = (s * int n) div ?m"
        using exact_quotient [of ?m c "s * int n"] by simp
      have "(s * int n) mod ?m = 0 \<longleftrightarrow> int n mod ?m = 0" using s(1) by (auto simp flip: dvd_eq_mod_eq_0)
      moreover have "int n mod ?m = 0 \<Longrightarrow> (s * int n) div ?m = s * (int n div ?m)" by (simp flip: dvd_eq_mod_eq_0 add: div_mult_swap)
      moreover have "\<bar>s * (int n div ?m)\<bar> = int n div ?m" using s(1) by (auto simp: pos_imp_zdiv_nonneg_iff)
      ultimately show ?thesis using False adm unfolding eq by (auto simp: Dec decimal_cents_def s(2))
    qed
  qed (auto simp: Dec decimal_cents_def)
qed (simp add: decimal_cents_def)

text \<open>
  Amounts are exact. A value has a money key exactly when it denotes a decimal number within the
  size limits whose hundredfold is an integer of at most twenty digits, and then the key
  is that integer: no rounding, and equal keys just for equal amounts.
\<close>

theorem money_exact:
  "money v = Inr c \<longleftrightarrow>
    (\<exists>d. decimal_of v = Some d \<and> admitted d \<and> of_int c = 100 * decimal_value d \<and> \<bar>c\<bar> < 10 ^ 20)"
  by (auto simp: money_def decimal_of_def decimal_cents_iff split: field_value.splits option.splits if_splits)

text \<open>Dollars and cents, as amounts are written, are read back to the cent.\<close>

lemma money_of_text:
  assumes "length (show_nat a) \<le> 30" and "c < 100" and "length (show_nat (100 * a + c)) \<le> 40"
    and "100 * int a + int c < 10 ^ 20"
  shows "money (VStr (show_nat a @ ''.'' @ [show_digit (c div 10), show_digit (c mod 10)])) = Inr (100 * int a + int c)"
proof -
  let ?d = "[show_digit (c div 10), show_digit (c mod 10)]"
  let ?s = "show_nat a @ CHR ''.'' # ?d"
  have "parse_nat (show_nat a) = Some a" by simp
  then have a: "show_nat a \<noteq> []" "list_all is_digit (show_nat a)" "digits_value (show_nat a) = a" by (auto simp: parse_nat_def split: if_splits)
  have d: "is_digit (show_digit k)" "(of_char (show_digit k) :: nat) = 48 + k" if "k < 10" for k using that by (simp_all add: is_digit_def show_digit_value)
  have dd: "list_all is_digit ?d" using assms(2) by (simp add: d)
  have nd: "\<not> is_digit CHR ''.''" "\<not> is_digit CHR ''_''" "\<not> is_digit CHR ''-''" "\<not> is_digit CHR ''+''" by (simp_all add: is_digit_def)
  have sp: "is_digit x \<Longrightarrow> \<not> is_space x" for x by (auto simp: is_digit_def is_space_def Let_def)
  have hd: "is_digit (hd ?s)" "is_digit (last ?s)" using a(1,2) dd by (auto simp: list_all_iff)
  have "strip ?s = ?s" using hd sp by (intro strip_by_id) blast+
  moreover have "filter (\<lambda>x. x \<noteq> CHR ''_'') ?s = ?s" using a(2) dd nd(2) by (auto simp: list_all_iff intro!: filter_True)
  moreover have "take_sign ?s = (False, ?s)" using hd(1) nd a(1) by (cases "show_nat a") (auto simp: take_sign_def)
  moreover have "takeWhile is_digit ?s = show_nat a" "dropWhile is_digit ?s = CHR ''.'' # ?d"
    using a(2) nd(1) by (simp_all add: list_all_iff takeWhile_append2 dropWhile_append2)
  moreover have "takeWhile is_digit ?d = ?d" "dropWhile is_digit ?d = []" using dd by simp_all
  moreover have "digits_value (show_nat a @ ?d) = 100 * a + c"
    using a(3) assms(2) by (simp add: digits_value_def d)
  ultimately have "parse_decimal ?s = Some (Dec False (100 * a + c) (-2))"
    using a(1) by (simp add: parse_decimal_def parse_exponent_def)
  then show ?thesis using assms by (simp add: money_def decimal_cents_def)
qed

section \<open>Telephone numbers\<close>

lemma digit_facts:
  assumes "is_digit c"
  shows "\<not> is_space c" "lower_char c = c" "number_char c" "c \<noteq> CHR 0x00" "c \<noteq> CHR ''+''" "c \<noteq> CHR ''(''" "c \<noteq> CHR '';''"
  using assms by (auto simp: is_digit_def is_space_def lower_char_def number_char_def Let_def)

lemma match_extension_digits:
  assumes "list_all is_digit e" and "e \<noteq> []" and "length e \<le> 12"
  shows "match_extension ('';ext='' @ e) = Some e"
proof -
  have "lower e = e" using assms(1) by (induction e) (auto simp: lower_Cons digit_facts)
  moreover have "dropWhile is_space e = e" using assms(1,2) by (cases e) (auto simp: digit_facts)
  moreover have "\<not> is_space CHR '';''" "lower_char CHR '';'' = CHR '';''" by (simp_all add: is_space_def lower_char_def)
  moreover have "lower ''ext='' = ''ext=''" by code_simp
  ultimately show ?thesis using assms by (simp add: match_extension_def extension_body_def startswith_def lower_Cons Let_def)
qed

lemma match_extension_Some: "match_extension s = Some e \<Longrightarrow> list_all is_digit e \<and> e \<noteq> [] \<and> length e \<le> 12"
  by (auto simp: match_extension_def Let_def split: option.splits if_splits)

lemma match_phone_Some:
  "match_phone s = Some (intl, ds, e) \<Longrightarrow> list_all is_digit ds \<and> list_all is_digit e \<and> length e \<le> 12"
  by (auto simp: match_phone_def Let_def list_all_iff split: if_splits dest!: match_extension_Some)

lemma match_phone_normal:
  assumes "list_all is_digit ds" and "ds \<noteq> []" and "list_all is_digit e" and "length e \<le> 12"
  shows "match_phone (''+'' @ ds @ (if e = [] then [] else '';ext='' @ e)) = Some (True, ds, e)"
proof -
  have nc: "\<not> number_char CHR '';''" by (simp add: number_char_def is_digit_def)
  have all: "\<forall>c\<in>set ds. number_char c" using assms(1) by (auto simp: list_all_iff digit_facts)
  have "takeWhile number_char (ds @ (if e = [] then [] else '';ext='' @ e)) = ds"
    "dropWhile number_char (ds @ (if e = [] then [] else '';ext='' @ e)) = (if e = [] then [] else '';ext='' @ e)"
    using all nc by (simp_all add: takeWhile_append2 dropWhile_append2)
  moreover have "filter is_digit ds = ds" using assms(1) by (auto simp: list_all_iff intro: filter_True)
  moreover have "is_digit (hd (ds @ x))" for x using assms(1,2) by (cases ds) auto
  ultimately show ?thesis using assms match_extension_digits [of e] by (simp add: match_phone_def startswith_def Let_def)
qed

lemma phone_text_International:
  assumes "phone_text s us = Inr (International ds e)"
  shows "list_all is_digit ds \<and> ds \<noteq> [] \<and> length ds \<le> 15 \<and> list_all is_digit e \<and> length e \<le> 12"
proof -
  have one: "is_digit CHR ''1''" by (simp add: is_digit_def)
  obtain t intl ds' e' where m: "match_phone t = Some (intl, ds', e')" "e = e'" "ds = ds' \<or> ds = CHR ''1'' # ds' \<and> length ds' = 10"
      "1 \<le> length ds'" "length ds' \<le> 15"
    using assms by (auto simp: phone_text_def split: if_splits option.splits)
  from match_phone_Some [OF m(1)] m one show ?thesis by auto
qed

lemma normal_is_text:
  assumes "list_all is_digit ds" and "ds \<noteq> []" and "length ds \<le> 15" and "list_all is_digit e" and "length e \<le> 12"
  shows "text_key (VStr (''+'' @ ds @ (if e = [] then [] else '';ext='' @ e))) = Inr (''+'' @ ds @ (if e = [] then [] else '';ext='' @ e)) \<and>
    length (''+'' @ ds @ (if e = [] then [] else '';ext='' @ e)) \<le> 256"
proof -
  let ?n = "''+'' @ ds @ (if e = [] then [] else '';ext='' @ e)"
  have "is_digit (last ?n)" using assms by (auto simp: list_all_iff)
  moreover have "\<not> is_space CHR ''+''" by (simp add: is_space_def)
  ultimately have "strip ?n = ?n" by (intro strip_by_id) (simp_all add: digit_facts)
  moreover have "CHR 0x00 \<notin> set ?n" using assms(1,4) by (auto simp: list_all_iff dest: digit_facts(4))
  ultimately show ?thesis using assms by (simp add: text_key_def)
qed

text \<open>The normal form of a number denotes the number, in any dialing region.\<close>

lemma phone_text_normal:
  assumes "phone_text s us = Inr (International ds e)"
  shows "phone_text (''+'' @ ds @ (if e = [] then [] else '';ext='' @ e)) us' = Inr (International ds e)"
proof -
  note i = phone_text_International [OF assms]
  have "1 \<le> length ds" using i by (cases ds) auto
  then show ?thesis using i normal_is_text [of ds e] match_phone_normal [of ds e]
    by (simp add: phone_text_def del: append.simps)
qed

lemma phone_text_display:
  assumes "text_key (VStr s) = Inr t" and "phone_text t us = Inr key"
  shows "text_key (VStr t) = Inr t"
proof -
  obtain t' where t': "text_key (VStr t) = Inr t'" using assms(2) by (auto simp: phone_text_def)
  have "t = strip s" using assms(1) by (auto simp: text_key_def split: if_splits)
  moreover have "t' = strip t" using t' by (auto simp: text_key_def split: if_splits)
  ultimately show ?thesis using t' strip_by_idem [of is_space s] by simp
qed

text \<open>
  A stored telephone record. It is made from any accepted text, is accepted again wherever a
  telephone value is compared, and has the key of its display text in the US: the same number
  and extension, in every dialing region when it has a normal form.
\<close>

theorem phone_record_roundtrip:
  assumes "phone_record_of s = Inr r"
  shows "phone_record_of (pr_display r) = Inr r \<and>
    phone (VDict (record_value r)) us = (if pr_normalized r = None then phone (VStr (pr_display r)) us else phone (VStr (pr_display r)) True)"
proof -
  obtain key where k: "text_key (VStr s) = Inr (pr_display r)" "phone_text (pr_display r) True = Inr key"
    and n: "pr_normalized r = (case key of International ds e \<Rightarrow> Some (''+'' @ ds @ (if e = [] then [] else '';ext='' @ e)) | _ \<Rightarrow> None)"
    using assms by (auto simp: phone_record_of_def)
  have "text_key (VStr (pr_display r)) = Inr (pr_display r)" using k by (rule phone_text_display)
  then have again: "phone_record_of (pr_display r) = Inr r" using k(2) n by (simp add: phone_record_of_def)
  have "phone (VDict (record_value r)) us = phone_text (case pr_normalized r of Some m \<Rightarrow> m | None \<Rightarrow> pr_display r) us"
    using again by (auto simp: phone_def record_value_def keys_of_def)
  also have "\<dots> = (if pr_normalized r = None then phone_text (pr_display r) us else Inr key)"
    using n k(2) by (cases key) (auto dest: phone_text_normal)
  finally show ?thesis using again k(2) by (simp add: phone_def)
qed

theorem phone_record_roundtrip_witness:
  "\<exists>r. phone_record_of '' (502) 555-0100 ext. 7'' = Inr r \<and> pr_normalized r = Some ''+15025550100;ext=7'' \<and>
    phone (VDict (record_value r)) False = phone (VStr ''(502) 555-0100 ext. 7'') True"
proof -
  have "phone_record_of '' (502) 555-0100 ext. 7'' = Inr \<lparr>pr_normalized = Some ''+15025550100;ext=7'', pr_display = ''(502) 555-0100 ext. 7''\<rparr>"
    by code_simp
  from phone_record_roundtrip [OF this] this show ?thesis by simp
qed

end
