(* ===== verification/Refresh_Rules.thy ===== *)
theory Refresh_Rules
  imports Config
begin

text \<open>
  \<open>stewardship/source/refresh_rules.py\<close> with the stored settings of \<open>cadence.py\<close> it reads: rules, single
  times and skips of the daily refresh schedule, the times they give, and the check of a schedule
  before it is saved. A stored document is a \<open>pyval\<close>; the text of a field is read after the closed
  shape was checked, so the default of \<open>row_text\<close> is never used on a valid document.
\<close>

section \<open>Wall times\<close>

text \<open>\<open>wall_clock.HHMM_PATTERN\<close>, written out.\<close>

definition hhmm_text :: "string \<Rightarrow> bool" where
  "hhmm_text s =
     (case s of
        [a, b, c, d, e] \<Rightarrow>
          (a \<in> set ''01'' \<and> is_digit b \<or> a = CHR ''2'' \<and> b \<in> set ''0123'') \<and>
          c = CHR '':'' \<and> d \<in> set ''012345'' \<and> is_digit e
      | _ \<Rightarrow> False)"

definition is_hhmm :: "pyval \<Rightarrow> bool" where
  "is_hhmm v = (case v of PStr s \<Rightarrow> hhmm_text s | _ \<Rightarrow> False)"

definition minutes :: "string \<Rightarrow> nat" where
  "minutes s = digits_value (take 2 s) * 60 + digits_value (drop 3 s)"

definition two_digits :: "nat \<Rightarrow> string" where
  "two_digits n = (if n < 10 then ''0'' @ show_nat n else show_nat n)"

definition clock :: "nat \<Rightarrow> string" where
  "clock v = two_digits (v div 60) @ '':'' @ two_digits (v mod 60)"

section \<open>The closed shape\<close>

definition STEPS :: "int list" where
  "STEPS = [15, 30, 60, 120, 180, 240, 360, 480, 720]"

definition SPACING :: nat where
  "SPACING = 15"

definition DAY :: nat where
  "DAY = 24 * 60"

definition MAX_DAILY_TIMES :: nat where
  "MAX_DAILY_TIMES = 96"

definition MAX_RULES :: nat where
  "MAX_RULES = 64"

definition MAX_SKIPS :: nat where
  "MAX_SKIPS = 16"

definition row_text :: "mapping_value \<Rightarrow> string \<Rightarrow> string" where
  "row_text d k = (case dget_none d k of PStr s \<Rightarrow> s | _ \<Rightarrow> [])"

definition rule_ok :: "string list \<Rightarrow> pyval \<Rightarrow> bool" where
  "rule_ok kinds rule =
     (case rule of
        PDict d \<Rightarrow>
          dget_none d ''kind'' \<in> PStr ` set kinds \<and>
          (if has_keys d [''kind'', ''at''] then is_hhmm (dget_none d ''at'')
           else has_keys d [''kind'', ''every'', ''from'', ''to''] \<and>
                dget_none d ''every'' \<in> PInt ` set STEPS \<and>
                is_hhmm (dget_none d ''from'') \<and> is_hhmm (dget_none d ''to'') \<and>
                row_text d ''from'' \<le> row_text d ''to'')
      | _ \<Rightarrow> False)"

definition skip_ok :: "pyval \<Rightarrow> bool" where
  "skip_ok skip =
     (case skip of
        PDict d \<Rightarrow>
          if has_keys d [''at''] then is_hhmm (dget_none d ''at'')
          else has_keys d [''from'', ''to''] \<and> is_hhmm (dget_none d ''from'') \<and> is_hhmm (dget_none d ''to'') \<and>
               row_text d ''from'' < row_text d ''to''
      | _ \<Rightarrow> False)"

definition list_ok :: "nat \<Rightarrow> (pyval \<Rightarrow> bool) \<Rightarrow> pyval \<Rightarrow> bool" where
  "list_ok most ok v = (case v of PList rows \<Rightarrow> length rows \<le> most \<and> list_all ok rows | _ \<Rightarrow> False)"

definition valid_shape :: "bool \<Rightarrow> pyval \<Rightarrow> bool" where
  "valid_shape stored v =
     (case v of
        PDict d \<Rightarrow>
          has_keys d [''rules'', ''skips'', ''skip_around_family_emails''] \<and>
          list_ok (if stored then MAX_DAILY_TIMES else MAX_RULES)
            (rule_ok (if stored then [''full'', ''quick''] else [''full''])) (dget_none d ''rules'') \<and>
          dget_none d ''rules'' \<noteq> PList [] \<and>
          list_ok (if stored then MAX_DAILY_TIMES else MAX_SKIPS) skip_ok (dget_none d ''skips'') \<and>
          dget_none d ''skip_around_family_emails'' \<in> {PBool False, PBool True}
      | _ \<Rightarrow> False)"

section \<open>The times of a day\<close>

text \<open>The rows of a field, of a document of the closed shape.\<close>

definition rows_of :: "mapping_value \<Rightarrow> string \<Rightarrow> mapping_value list" where
  "rows_of d k = (case dget_none d k of PList vs \<Rightarrow> List.map_filter dict_value vs | _ \<Rightarrow> [])"

definition row_has :: "mapping_value \<Rightarrow> string \<Rightarrow> bool" where
  "row_has d k \<longleftrightarrow> k \<in> set (map fst d)"

definition skip_matches :: "mapping_value \<Rightarrow> nat \<Rightarrow> bool" where
  "skip_matches skip v =
     (if row_has skip ''at'' then v = minutes (row_text skip ''at'')
      else minutes (row_text skip ''from'') \<le> v \<and> v < minutes (row_text skip ''to''))"

text \<open>\<open>range(a, b + 1, step)\<close>.\<close>

definition py_range :: "nat \<Rightarrow> nat \<Rightarrow> nat \<Rightarrow> nat list" where
  "py_range a b step = (if b < a then [] else map (\<lambda>k. a + k * step) [0..<(b - a) div step + 1])"

definition row_every :: "mapping_value \<Rightarrow> nat" where
  "row_every d = (case dget_none d ''every'' of PInt i \<Rightarrow> nat i | _ \<Rightarrow> 0)"

definition rule_times :: "mapping_value \<Rightarrow> nat list" where
  "rule_times rule =
     (if row_has rule ''at'' then [minutes (row_text rule ''at'')]
      else py_range (minutes (row_text rule ''from'')) (minutes (row_text rule ''to'')) (row_every rule))"

definition times_of_kind :: "mapping_value list \<Rightarrow> string \<Rightarrow> nat set" where
  "times_of_kind rules kind =
     foldl (\<lambda>found rule. if row_text rule ''kind'' \<noteq> kind then found else found \<union> set (rule_times rule)) {} rules"

record daily =
  full :: "string list"
  unmatched_skips :: "nat list"

text \<open>The loop over the skips: the times left and the skips that matched none of the generated ones.\<close>

definition apply_skip :: "nat set \<Rightarrow> nat set \<times> nat list \<Rightarrow> nat \<times> mapping_value \<Rightarrow> nat set \<times> nat list" where
  "apply_skip generated acc row =
     (case (acc, row) of ((left, unmatched), (index, skip)) \<Rightarrow>
        let removed = Set.filter (skip_matches skip) generated
        in (left - removed, if removed = {} then unmatched @ [index] else unmatched))"

definition daily_times :: "pyval \<Rightarrow> daily res" where
  "daily_times refresh_rules =
     (if \<not> valid_shape True refresh_rules then Inl (ValueError ''Refresh rules require the closed rule shape.'')
      else case refresh_rules of
        PDict d \<Rightarrow>
          (let generated = times_of_kind (rows_of d ''rules'') ''full'';
               (left, unmatched) = foldl (apply_skip generated) (generated, []) (enumerate 0 (rows_of d ''skips''))
           in Inr \<lparr>full = map clock (sorted_list_of_set left), unmatched_skips = unmatched\<rparr>)
      | _ \<Rightarrow> Inl (ValueError ''Refresh rules require the closed rule shape.''))"

definition full_rules :: "mapping_value \<Rightarrow> mapping_value" where
  "full_rules d =
     (let rules = rows_of d ''rules''
      in if list_all (\<lambda>r. row_text r ''kind'' = ''full'') rules then d
         else (let full = times_of_kind rules ''full''; quick = times_of_kind rules ''quick''
               in AList.update ''skips''
                    (PList (map PDict (filter (\<lambda>s. (\<exists>v\<in>full. skip_matches s v) \<or> \<not> (\<exists>v\<in>quick. skip_matches s v)) (rows_of d ''skips''))))
                    (AList.update ''rules'' (PList (map PDict (filter (\<lambda>r. row_text r ''kind'' = ''full'') rules))) d)))"

section \<open>Checking a schedule\<close>

definition spacing_conflicts :: "string list \<Rightarrow> (string \<times> string) list" where
  "spacing_conflicts ts =
     (let values = sorted_list_of_set (set (map minutes ts));
          pairs = zip values (tl values) @ (if length values > 1 then [(last values, hd values + DAY)] else [])
      in map (\<lambda>(a, b). (clock a, clock (b mod DAY))) (filter (\<lambda>(a, b). b - a < SPACING) pairs))"

datatype problem =
    No_full
  | Too_many
  | Too_close "string \<times> string"
  | Off_quarter string
  | Unmatched_skip nat
  | Rules_mismatch

definition STORED :: "string list" where
  "STORED = [''full_refresh'', ''nightly_time'', ''full_refresh_times'', ''delta_refresh'', ''quick_refresh_times'']"

definition stored_settings :: "pyval \<Rightarrow> mapping_value res" where
  "stored_settings rules =
     bind_res (daily_times rules) (\<lambda>r.
       case full r of
         [] \<Rightarrow> Inl (ValueError ''A refresh schedule needs at least one full refresh.'')
       | first # _ \<Rightarrow>
           Inr [(''full_refresh'', PStr ''daily''), (''nightly_time'', PStr first),
                (''full_refresh_times'', PList (map PStr (full r))), (''delta_refresh'', PStr ''off''),
                (''refresh_rules'', rules)])"

definition stored_part :: "mapping_value \<Rightarrow> mapping_value" where
  "stored_part d = filter (\<lambda>(k, v). k \<in> set STORED) d"

definition check_schedule :: "mapping_value \<Rightarrow> string set \<Rightarrow> problem list res" where
  "check_schedule settings kept =
     (let rules = dget_none settings ''refresh_rules''
      in bind_res (daily_times rules) (\<lambda>r.
           bind_res (if full r = [] then Inr False
                     else bind_res (stored_settings rules) (\<lambda>st. Inr (\<not> row_eq (stored_part settings) (stored_part st)))) (\<lambda>mismatch.
           Inr ((if full r = [] then [No_full] else []) @
                (if length (full r) > MAX_DAILY_TIMES then [Too_many] else []) @
                map Too_close (spacing_conflicts (full r)) @
                map Off_quarter (filter (\<lambda>t. minutes t mod SPACING \<noteq> 0 \<and> t \<notin> kept) (full r)) @
                map Unmatched_skip (unmatched_skips r) @
                (if mismatch then [Rules_mismatch] else [])))))"

section \<open>Stored settings of older schedules\<close>

record refresh_inputs =
  ri_nightly :: pyval
  ri_frequency :: pyval
  ri_times :: "pyval list"
  ri_rules :: bool

text \<open>\<open>cadence.refresh_settings\<close>: the elements of the stored list, or the nightly time alone.\<close>

definition listed_times :: "pyval \<Rightarrow> pyval \<Rightarrow> pyval list res" where
  "listed_times listed nightly =
     (if \<not> truthy listed then Inr [nightly]
      else case listed of
        PList vs \<Rightarrow> Inr vs
      | PStr s \<Rightarrow> Inr (map (\<lambda>c. PStr [c]) s)
      | PDict d \<Rightarrow> Inr (map (\<lambda>(k, v). PStr k) d)
      | _ \<Rightarrow> Inl (TypeError ''object is not iterable''))"

definition refresh_settings :: "mapping_value \<Rightarrow> refresh_inputs res" where
  "refresh_settings settings =
     (let nightly = dget settings ''nightly_time'' (PStr ''02:00'')
      in bind_res (listed_times (dget_none settings ''full_refresh_times'') nightly) (\<lambda>ts.
           Inr \<lparr>ri_nightly = nightly, ri_frequency = dget settings ''full_refresh'' (PStr ''daily''),
                ri_times = ts, ri_rules = row_has settings ''refresh_rules''\<rparr>))"

definition every_rule :: "pyval \<Rightarrow> mapping_value res" where
  "every_rule frequency =
     (if frequency = PStr ''hourly'' then Inr [(''every'', PInt 60), (''from'', PStr ''00:00''), (''to'', PStr ''23:00'')]
      else if frequency = PStr ''quarter_hour'' then Inr [(''every'', PInt 15), (''from'', PStr ''00:00''), (''to'', PStr ''23:45'')]
      else case frequency of
        PList _ \<Rightarrow> Inl (TypeError ''unhashable type'')
      | PDict _ \<Rightarrow> Inl (TypeError ''unhashable type'')
      | _ \<Rightarrow> Inl (KeyError ''frequency''))"

definition legacy_rules :: "refresh_inputs \<Rightarrow> mapping_value list res" where
  "legacy_rules schedule =
     (if ri_frequency schedule = PStr ''daily''
      then Inr (map (\<lambda>v. [(''kind'', PStr ''full''), (''at'', v)]) (ri_times schedule))
      else bind_res (every_rule (ri_frequency schedule)) (\<lambda>e. Inr [(''kind'', PStr ''full'') # e]))"

text \<open>A stored \<open>refresh_rules\<close> document has the closed shape; anything but a mapping is refused by the first subscript.\<close>

definition converted_rules :: "mapping_value \<Rightarrow> mapping_value res" where
  "converted_rules settings =
     (case dget_none settings ''refresh_rules'' of
        PNone \<Rightarrow>
          bind_res (refresh_settings settings) (\<lambda>schedule.
          bind_res (legacy_rules schedule) (\<lambda>rules.
          Inr [(''rules'', PList (map PDict rules)), (''skips'', PList []), (''skip_around_family_emails'', PBool False)]))
      | PDict d \<Rightarrow> Inr (full_rules d)
      | _ \<Rightarrow> Inl (TypeError ''object is not subscriptable''))"

end
