(* ===== verification/Canonical.thy ===== *)
theory Canonical
  imports Json_Text Config Comparison
begin

text \<open>
  \<open>stewardship/source/canonical.py\<close>: source payloads in a canonical JSON text and its digest. A payload is
  a value of \<open>payload\<close>; an aware time stamp is the ISO text of its UTC form, a naive one has
  none. A normalised payload is a \<open>pyval\<close> made of JSON's values. \<open>sha\<close> is the SHA-256 digest
  of a text.
\<close>

section \<open>Payloads\<close>

datatype payload =
    JNull
  | JBool bool
  | JInt int
  | JText string
  | JStamp "string option"
  | JDate date
  | JDecimal decimal
  | JDict "(string \<times> payload) list"
  | JOddDict
  | JList "payload list"
  | JOther

definition bad_payload :: "string \<Rightarrow> exn" where
  "bad_payload msg = ValueError msg"

text \<open>\<open>format(value, "f")\<close> and the removal of trailing zeros.\<close>

definition fixed_text :: "bool \<Rightarrow> nat \<Rightarrow> int \<Rightarrow> string" where
  "fixed_text neg coefficient e =
     (if neg then ''-'' else []) @
     (if 0 \<le> e then show_nat (coefficient * 10 ^ nat e)
      else (let k = nat (- e); ds = show_nat coefficient; padded = replicate (k + 1 - length ds) CHR ''0'' @ ds
            in take (length padded - k) padded @ ''.'' @ drop (length padded - k) padded))"

definition rstrip_char :: "char \<Rightarrow> string \<Rightarrow> string" where
  "rstrip_char c s = rev (dropWhile (\<lambda>x. x = c) (rev s))"

definition decimal_text :: "decimal \<Rightarrow> string res" where
  "decimal_text d =
     (case d of
        Dec_special \<Rightarrow> Inl (bad_payload ''Source amount is not finite or is out of range.'')
      | Dec neg coefficient e \<Rightarrow>
          if \<bar>e\<bar> > 30 \<or> coefficient * 10 ^ nat e \<ge> 10 ^ (20 + nat (- e))
          then Inl (bad_payload ''Source amount is not finite or is out of range.'')
          else if coefficient = 0 then Inr ''0''
          else (let text = fixed_text neg coefficient e
                in Inr (if CHR ''.'' \<in> set text then rstrip_char CHR ''.'' (rstrip_char CHR ''0'' text) else text)))"

definition normal_text :: "string \<Rightarrow> string res" where
  "normal_text s =
     (if CHR 0x00 \<in> set s then Inl (bad_payload ''Source text contains unsupported characters.'') else Inr s)"

definition too_deep :: "nat \<Rightarrow> 'a res \<Rightarrow> 'a res" where
  "too_deep depth r = (if depth > 16 then Inl (bad_payload ''Source payload nesting exceeds its bound.'') else r)"

text \<open>\<open>_normalize\<close>, with the comprehensions over a mapping and an array.\<close>

fun normalize_payload :: "nat \<Rightarrow> payload \<Rightarrow> pyval res"
  and normalize_items :: "nat \<Rightarrow> (string \<times> payload) list \<Rightarrow> mapping_value res"
  and normalize_list :: "nat \<Rightarrow> payload list \<Rightarrow> pyval list res" where
  "normalize_payload depth v = too_deep depth
     (case v of
        JNull \<Rightarrow> Inr PNone
      | JBool b \<Rightarrow> Inr (PBool b)
      | JInt i \<Rightarrow>
          if - (2 ^ 63) \<le> i \<and> i < 2 ^ 63 then Inr (PInt i)
          else Inl (bad_payload ''Source integer exceeds its supported range.'')
      | JText s \<Rightarrow> bind_res (normal_text s) (\<lambda>t. Inr (PStr t))
      | JStamp None \<Rightarrow> Inl (bad_payload ''Source timestamps require an explicit timezone.'')
      | JStamp (Some t) \<Rightarrow> Inr (PStr t)
      | JDate d \<Rightarrow> Inr (PStr (isoformat d))
      | JDecimal d \<Rightarrow> bind_res (decimal_text d) (\<lambda>t. Inr (PStr t))
      | JDict d \<Rightarrow>
          if length d > 10000 then Inl (bad_payload ''Source mappings require bounded string keys.'')
          else bind_res (normalize_items (depth + 1) d) (\<lambda>e. Inr (PDict e))
      | JOddDict \<Rightarrow> Inl (bad_payload ''Source mappings require bounded string keys.'')
      | JList vs \<Rightarrow>
          if length vs > 10000 then Inl (bad_payload ''Source array exceeds its bound.'')
          else bind_res (normalize_list (depth + 1) vs) (\<lambda>ws. Inr (PList ws))
      | JOther \<Rightarrow> Inl (bad_payload ''Source payload contains an unsupported value type.''))"
| "normalize_items depth [] = Inr []"
| "normalize_items depth ((k, v) # d) =
     bind_res (too_deep depth (normal_text k)) (\<lambda>k'.
     bind_res (normalize_payload depth v) (\<lambda>v'.
     bind_res (normalize_items depth d) (\<lambda>d'. Inr ((k', v') # d'))))"
| "normalize_list depth [] = Inr []"
| "normalize_list depth (v # vs) =
     bind_res (normalize_payload depth v) (\<lambda>v'.
     bind_res (normalize_list depth vs) (\<lambda>vs'. Inr (v' # vs')))"

section \<open>JSON text\<close>

text \<open>\<open>sort_keys\<close>: the items of every mapping in the order of their keys.\<close>

fun sort_keys :: "pyval \<Rightarrow> pyval" where
  "sort_keys (PList vs) = PList (map sort_keys vs)"
| "sort_keys (PDict d) = PDict (sort_key fst (map (\<lambda>(k, v). (k, sort_keys v)) d))"
| "sort_keys v = v"

text \<open>The text of a value with the separators \<open>","\<close> and \<open>":"\<close>; normalised values are the only ones printed.\<close>

fun json_text :: "pyval \<Rightarrow> string" where
  "json_text PNone = ''null''"
| "json_text (PBool b) = (if b then ''true'' else ''false'')"
| "json_text (PInt i) = show_int i"
| "json_text (PStr s) = json_string False s"
| "json_text (PList vs) = ''['' @ join '','' (map json_text vs) @ '']''"
| "json_text (PDict d) = ''{'' @ join '','' (map (\<lambda>(k, v). json_string False k @ '':'' @ json_text v) d) @ ''}''"
| "json_text _ = []"

definition canonical_payload :: "(string \<Rightarrow> string) \<Rightarrow> payload \<Rightarrow> (string \<times> string) res" where
  "canonical_payload sha p =
     (case p of
        JDict _ \<Rightarrow>
          bind_res (normalize_payload 0 p) (\<lambda>n.
            let text = json_text (sort_keys n)
            in if length text > 1024 * 1024 then Inl (bad_payload ''Source entity payload exceeds its byte limit.'')
               else Inr (text, sha text))
      | JOddDict \<Rightarrow> Inl (bad_payload ''Source mappings require bounded string keys.'')
      | _ \<Rightarrow> Inl (bad_payload ''Source entity payload must be a mapping.''))"

end
