(* ===== verification/Cadence.thy ===== *)
theory Cadence
  imports Refresh_Rules Canonical Intervals "HOL-Library.Product_Lexorder"
begin

text \<open>
  \<open>stewardship/source/cadence.py\<close>: which refresh of the source is due. Instants are microseconds as
  in \<open>Intervals\<close>; \<open>iso\<close> is the ISO text of an instant in UTC, \<open>sha\<close> the digest of a
  text and \<open>uuid5\<close> the identifier of a name in the namespace of slots. An instant argument is an option: \<open>None\<close>
  is anything but an aware \<open>datetime\<close>.
\<close>

section \<open>Stored settings\<close>

definition FREQUENCIES :: "string list" where
  "FREQUENCIES = [''daily'', ''hourly'', ''quarter_hour'']"

definition MAX_LEGACY_FULL_TIMES :: nat where
  "MAX_LEGACY_FULL_TIMES = 8"

definition MINUTE :: int where
  "MINUTE = 60 * 1000000"

definition QUARTER_HOUR :: int where
  "QUARTER_HOUR = 15 * MINUTE"

definition HOUR :: int where
  "HOUR = 60 * MINUTE"

definition value_text :: "pyval \<Rightarrow> string" where
  "value_text v = (case v of PStr s \<Rightarrow> s | _ \<Rightarrow> [])"

definition canonical_list :: "pyval list \<Rightarrow> bool" where
  "canonical_list values \<longleftrightarrow>
     1 \<le> length values \<and> length values \<le> MAX_DAILY_TIMES \<and> list_all is_hhmm values \<and>
     map value_text values = sorted_list_of_set (set (map value_text values))"

definition canonical_times :: "pyval \<Rightarrow> pyval list \<Rightarrow> bool" where
  "canonical_times nightly values \<longleftrightarrow> canonical_list values \<and> hd values = nightly"

definition schedule_identity :: "mapping_value \<Rightarrow> (refresh_inputs \<times> pyval \<times> pyval list) res" where
  "schedule_identity settings =
     bind_res (refresh_settings settings) (\<lambda>r.
     bind_res (let quick = dget_none settings ''quick_refresh_times'' in if truthy quick then listed_times quick PNone else Inr []) (\<lambda>quick.
     Inr (r, dget settings ''delta_refresh'' (PStr ''quarter_hour''), quick)))"

definition skips_around_emails :: "mapping_value \<Rightarrow> bool" where
  "skips_around_emails settings =
     (case dget_none settings ''refresh_rules'' of
        PDict d \<Rightarrow> dget_none d ''skip_around_family_emails'' = PBool True
      | _ \<Rightarrow> False)"

record cadence_inputs =
  ci_nightly :: pyval
  ci_frequency :: pyval
  ci_times :: "pyval list option"
  ci_rules :: bool

definition validate_cadence :: "cadence_inputs \<Rightarrow> string list res" where
  "validate_cadence c =
     (let values = (case ci_times c of None \<Rightarrow> [ci_nightly c] | Some vs \<Rightarrow> vs)
      in if \<not> is_hhmm (ci_nightly c) \<or> \<not> canonical_times (ci_nightly c) values \<or>
            \<not> ci_rules c \<and> length values > MAX_LEGACY_FULL_TIMES \<or>
            ci_frequency c \<notin> PStr ` set FREQUENCIES
         then Inl (ValueError ''Refresh scheduling requires canonical cadence inputs.'')
         else Inr (map value_text values))"

section \<open>Occurrences of a wall time\<close>

definition overflow :: exn where
  "overflow = OtherException ''OverflowError''"

definition local_instant :: "(string \<Rightarrow> zone_info option) \<Rightarrow> date \<Rightarrow> string \<Rightarrow> string \<Rightarrow> int res" where
  "local_instant zones d value timezone = resolve_local zones (combine d (int (minutes value) * MINUTE)) timezone"

text \<open>\<open>day + timedelta(days=offset)\<close> for the offsets -1, 0 and 1.\<close>

definition day_before :: "date \<Rightarrow> date res" where
  "day_before d = (if d \<le> date_min then Inl overflow else Inr (prev_day d))"

definition occurrences :: "(string \<Rightarrow> zone_info option) \<Rightarrow> date \<Rightarrow> string \<Rightarrow> string \<Rightarrow> (int \<times> int \<times> int) res" where
  "occurrences zones d value timezone =
     bind_res (day_before d) (\<lambda>d1.
     bind_res (local_instant zones d1 value timezone) (\<lambda>a.
     bind_res (local_instant zones d value timezone) (\<lambda>b.
     bind_res (add_day d) (\<lambda>d2.
     bind_res (local_instant zones d2 value timezone) (\<lambda>c. Inr (a, b, c))))))"

definition precedence :: "int \<Rightarrow> string \<Rightarrow> string \<Rightarrow> int \<times> bool \<times> string" where
  "precedence due value nightly = (due, value = nightly, value)"

definition floor_to :: "int \<Rightarrow> int \<Rightarrow> int" where
  "floor_to now step = now - now mod step"

definition local_date :: "(string \<Rightarrow> zone_info option) \<Rightarrow> string \<Rightarrow> int \<Rightarrow> date res" where
  "local_date zones timezone now =
     (case zones timezone of None \<Rightarrow> Inl (KeyError timezone) | Some z \<Rightarrow> Inr (wall_date z now))"

definition latest_candidates ::
  "(string \<Rightarrow> zone_info option) \<Rightarrow> int \<Rightarrow> string \<Rightarrow> date \<Rightarrow> string \<Rightarrow> string \<Rightarrow> (int \<times> bool \<times> string) list res" where
  "latest_candidates zones now timezone d nightly value =
     bind_res (occurrences zones d value timezone) (\<lambda>(a, b, c).
       Inr (map (\<lambda>due. precedence due value nightly) (filter (\<lambda>due. due \<le> now) [a, b])))"

definition latest :: "(string \<Rightarrow> zone_info option) \<Rightarrow> int \<Rightarrow> string \<Rightarrow> string list \<Rightarrow> string \<Rightarrow> (int \<times> string) res" where
  "latest zones now timezone values nightly =
     bind_res (local_date zones timezone now) (\<lambda>d.
     bind_res (map_res (latest_candidates zones now timezone d nightly) values) (\<lambda>cs.
       if concat cs = [] then Inl (ValueError ''max() iterable argument is empty'')
       else (case Max (set (concat cs)) of (due, _, value) \<Rightarrow> Inr (due, value))))"

section \<open>Slots\<close>

record refresh_slot =
  rs_cause :: string
  rs_due_at :: int
  rs_slot_key :: string
  rs_command_id :: string
  rs_nightly_time :: "string option"

record slot_codes =
  sc_iso :: "int \<Rightarrow> string"
  sc_sha :: "string \<Rightarrow> string"
  sc_uuid5 :: "string \<Rightarrow> string"

definition bad_scope :: exn where
  "bad_scope = ValueError ''Refresh scheduling requires canonical scope and time inputs.''"

definition check_scope :: "string \<Rightarrow> unit res" where
  "check_scope scope_fingerprint =
     (if length scope_fingerprint = 64 \<and> list_all (\<lambda>c. is_digit c \<or> c \<in> set ''abcdef'') scope_fingerprint
      then Inr () else Inl bad_scope)"

definition refresh_slot_of :: "slot_codes \<Rightarrow> string \<Rightarrow> int \<Rightarrow> string option \<Rightarrow> string \<Rightarrow> string \<Rightarrow> refresh_slot res" where
  "refresh_slot_of codes cause due value timezone scope_fingerprint =
     bind_res (canonical_payload (sc_sha codes)
        (JDict [(''schema'', JText ''source-refresh-slot-v1''), (''scope_fingerprint'', JText scope_fingerprint),
                (''timezone'', JText timezone), (''nightly_time'', case value of None \<Rightarrow> JNull | Some v \<Rightarrow> JText v),
                (''cause'', JText cause), (''due_at'', JText (sc_iso codes due))])) (\<lambda>(_, key).
       Inr \<lparr>rs_cause = cause, rs_due_at = due, rs_slot_key = key, rs_command_id = sc_uuid5 codes key, rs_nightly_time = value\<rparr>)"

definition due_slots ::
  "slot_codes \<Rightarrow> (string \<Rightarrow> zone_info option) \<Rightarrow> int option \<Rightarrow> string \<Rightarrow> cadence_inputs \<Rightarrow> string \<Rightarrow> refresh_slot list res" where
  "due_slots codes zones now timezone c scope_fingerprint =
     (case now of
        None \<Rightarrow> Inl bad_scope
      | Some t \<Rightarrow>
          bind_res (check_scope scope_fingerprint) (\<lambda>_.
          bind_res (validate_cadence c) (\<lambda>values.
          bind_res (if ci_frequency c = PStr ''daily'' then latest zones t timezone values (value_text (ci_nightly c))
                    else Inr (floor_to t (if ci_frequency c = PStr ''hourly'' then HOUR else QUARTER_HOUR), value_text (ci_nightly c)))
             (\<lambda>(due, chosen).
          bind_res (refresh_slot_of codes ''nightly'' due (Some chosen) timezone scope_fingerprint) (\<lambda>slot. Inr [slot])))))"

definition add_slot :: "slot_codes \<Rightarrow> string \<Rightarrow> string \<Rightarrow> (string, refresh_slot) dict \<Rightarrow> int \<times> string \<Rightarrow> (string, refresh_slot) dict res" where
  "add_slot codes timezone scope_fingerprint slots dv =
     bind_res (refresh_slot_of codes ''nightly'' (fst dv) (Some (snd dv)) timezone scope_fingerprint) (\<lambda>slot.
       Inr (AList.update (rs_slot_key slot) slot slots))"

definition listed_times_due :: "(string \<Rightarrow> zone_info option) \<Rightarrow> int \<Rightarrow> string \<Rightarrow> date \<Rightarrow> string \<Rightarrow> (int \<times> string) list res" where
  "listed_times_due zones now timezone d value =
     bind_res (occurrences zones d value timezone) (\<lambda>(a, b, c).
       Inr (map (\<lambda>due. (due, value)) (filter (\<lambda>due. due \<le> now) [a, b])))"

text \<open>The loop over the listed times; a slot with the identity of an earlier one replaces it.\<close>

definition listed_due_slots ::
  "slot_codes \<Rightarrow> (string \<Rightarrow> zone_info option) \<Rightarrow> int option \<Rightarrow> string \<Rightarrow> cadence_inputs \<Rightarrow> string \<Rightarrow> refresh_slot list res" where
  "listed_due_slots codes zones now timezone c scope_fingerprint =
     (case now of
        None \<Rightarrow> Inl bad_scope
      | Some t \<Rightarrow>
          bind_res (check_scope scope_fingerprint) (\<lambda>_.
          bind_res (validate_cadence (c\<lparr>ci_frequency := PStr ''daily'', ci_rules := True\<rparr>)) (\<lambda>values.
          bind_res (local_date zones timezone t) (\<lambda>d.
          bind_res (foldM_res (\<lambda>slots value.
                      bind_res (listed_times_due zones t timezone d value)
                        (\<lambda>dvs. foldM_res (add_slot codes timezone scope_fingerprint) slots dvs)) [] values) (\<lambda>slots.
          Inr (sort_key (\<lambda>s. (rs_due_at s, rs_cause s)) (map snd slots)))))))"

definition catch_up_slot :: "slot_codes \<Rightarrow> int option \<Rightarrow> string \<Rightarrow> string \<Rightarrow> refresh_slot res" where
  "catch_up_slot codes effective_at timezone scope_fingerprint =
     (case effective_at of
        None \<Rightarrow> Inl bad_scope
      | Some t \<Rightarrow>
          bind_res (check_scope scope_fingerprint) (\<lambda>_.
            refresh_slot_of codes ''catch_up'' (t - t mod 1000000) None timezone scope_fingerprint))"

definition next_candidates :: "(string \<Rightarrow> zone_info option) \<Rightarrow> int \<Rightarrow> string \<Rightarrow> date \<Rightarrow> string \<Rightarrow> int list res" where
  "next_candidates zones now timezone d value =
     bind_res (occurrences zones d value timezone) (\<lambda>(a, b, c). Inr (filter (\<lambda>due. due > now) [b, c]))"

definition next_full_at :: "(string \<Rightarrow> zone_info option) \<Rightarrow> int \<Rightarrow> string \<Rightarrow> cadence_inputs \<Rightarrow> int res" where
  "next_full_at zones now timezone c =
     bind_res (validate_cadence c) (\<lambda>values.
       if ci_frequency c \<noteq> PStr ''daily'' then
         (let step = (if ci_frequency c = PStr ''hourly'' then HOUR else QUARTER_HOUR) in Inr (floor_to now step + step))
       else
         bind_res (local_date zones timezone now) (\<lambda>d.
         bind_res (map_res (next_candidates zones now timezone d) values) (\<lambda>cs.
           if concat cs = [] then Inl (ValueError ''min() iterable argument is empty'') else Inr (Min (set (concat cs))))))"

text \<open>In minutes. The listed times are those of an accepted schedule: at least one.\<close>

definition longest_gap :: "string \<Rightarrow> string list \<Rightarrow> nat res" where
  "longest_gap frequency values =
     (if frequency = ''quarter_hour'' then Inr 15
      else if frequency = ''hourly'' then Inr 60
      else (let ms = sort (map minutes values)
            in if ms = [] then Inl IndexError
               else Inr (Max (set (map (\<lambda>(a, b). b - a) (zip ms (tl ms)) @ [24 * 60 - last ms + hd ms])))))"

end
