(* ===== verification/Refresh_Facts.thy ===== *)
theory Refresh_Facts
  imports Refresh_Rules
begin

text \<open>
  Facts about the refresh schedule: wall times and minutes are inverse, the daily times are exactly
  what rules and skips describe, an accepted schedule keeps its distances around the clock, and
  dropping the rules of a removed kind changes no time.
\<close>

section \<open>Wall times\<close>

lemma is_digit_show: "is_digit c \<longleftrightarrow> (\<exists>k < 10. c = show_digit k)"
proof
  assume c: "is_digit c"
  then have "c = show_digit (of_char c - 48)" by (simp add: is_digit_def show_digit_def Let_def)
  moreover have "of_char c - 48 < (10 :: nat)" using c by (auto simp: is_digit_def Let_def)
  ultimately show "\<exists>k < 10. c = show_digit k" by blast
qed (auto simp: is_digit_def show_digit_value Let_def)

lemma show_digit_eq [simp]: "j < 10 \<Longrightarrow> k < 10 \<Longrightarrow> show_digit j = show_digit k \<longleftrightarrow> j = k"
  by (metis add_left_cancel show_digit_value)

lemma digit_chars:
  "show_digit 0 = CHR ''0''" "show_digit (Suc 0) = CHR ''1''" "show_digit 2 = CHR ''2''" "show_digit 3 = CHR ''3''"
  "show_digit 4 = CHR ''4''" "show_digit 5 = CHR ''5''"
  by code_simp+

lemma literal_digits:
  "set ''01'' = show_digit ` {..<2}" "set ''0123'' = show_digit ` {..<4}" "set ''012345'' = show_digit ` {..<6}"
  unfolding lessThan_atLeast0 atLeastLessThan_upt by code_simp+

lemma two_digits_show:
  assumes "n < 100"
  shows "two_digits n = [show_digit (n div 10), show_digit (n mod 10)]"
proof -
  have "show_nat n = [show_digit (n div 10), show_digit (n mod 10)]" if "\<not> n < 10"
  proof -
    have "n div 10 < 10" using assms by simp
    then show ?thesis using that by (simp add: show_nat.simps [of n] show_nat.simps [of "n div 10"])
  qed
  moreover have "''0'' = [show_digit 0]" by (simp add: digit_chars)
  ultimately show ?thesis using assms by (simp add: two_digits_def show_nat.simps [of n])
qed

lemma digits_value_two: "j < 10 \<Longrightarrow> k < 10 \<Longrightarrow> digits_value [show_digit j, show_digit k] = 10 * j + k"
  by (simp add: digits_value_def show_digit_value)

lemma clock_show:
  assumes "v < DAY"
  shows "clock v = [show_digit (v div 60 div 10), show_digit (v div 60 mod 10), CHR '':'', show_digit (v mod 60 div 10), show_digit (v mod 60 mod 10)]"
proof -
  have "v div 60 < 100" "v mod 60 < 100" using assms by (auto simp: DAY_def)
  then show ?thesis by (simp add: clock_def two_digits_show)
qed

lemma minutes_clock [simp]:
  assumes "v < DAY"
  shows "minutes (clock v) = v"
proof -
  have "v div 60 div 10 < 10" "v mod 60 div 10 < 10" using assms by (auto simp: DAY_def)
  then show ?thesis using clock_show [OF assms] by (simp add: minutes_def digits_value_two)
qed

lemma hhmm_clock:
  assumes "v < DAY"
  shows "hhmm_text (clock v)"
proof -
  define h where "h = v div 60"
  define m where "m = v mod 60 div 10"
  have h: "h < 24" "m < 6" using assms by (auto simp: DAY_def h_def m_def)
  have "show_digit (h div 10) \<in> set ''01'' \<or> show_digit (h div 10) = CHR ''2'' \<and> show_digit (h mod 10) \<in> set ''0123''"
  proof (cases "h < 20")
    case True
    then have "h div 10 < 2" by simp
    then show ?thesis unfolding literal_digits by simp
  next
    case False
    then have "h div 10 = 2" "h mod 10 < 4" using h by presburger+
    then show ?thesis unfolding literal_digits by (simp add: digit_chars)
  qed
  moreover have "show_digit m \<in> set ''012345''" unfolding literal_digits using h by simp
  moreover have "is_digit (show_digit (n mod 10))" for n
    unfolding is_digit_show by (rule exI [of _ "n mod 10"]) simp
  ultimately show ?thesis using clock_show [OF assms] by (auto simp: hhmm_text_def h_def m_def)
qed

lemma hhmm_text_cases:
  assumes "hhmm_text s"
  obtains h m where "s = two_digits h @ '':'' @ two_digits m" "h < 24" "m < 60"
proof -
  obtain a b d e where s: "s = [a, b, CHR '':'', d, e]"
    and ab: "a \<in> set ''01'' \<and> is_digit b \<or> a = CHR ''2'' \<and> b \<in> set ''0123''" and de: "d \<in> set ''012345''" "is_digit e"
    using assms by (auto simp: hhmm_text_def split: list.splits)
  obtain i j where ij: "a = show_digit i" "b = show_digit j" "i < 2 \<and> j < 10 \<or> i = 2 \<and> j < 4"
  proof (cases "a = CHR ''2''")
    case True
    then have "b \<in> set ''0123''" using ab by auto
    then obtain j where "b = show_digit j" "j < 4" unfolding literal_digits by auto
    then show ?thesis using that [of 2 j] True by (simp add: digit_chars)
  next
    case False
    then have "a \<in> set ''01''" "is_digit b" using ab by auto
    then show ?thesis using that unfolding literal_digits is_digit_show by auto
  qed
  obtain k l where kl: "d = show_digit k" "e = show_digit l" "k < 6" "l < 10"
    using de unfolding literal_digits is_digit_show by auto
  have two: "two_digits (10 * p + q) = [show_digit p, show_digit q]" if "p < 10" "q < 10" for p q
    using that by (simp add: two_digits_show)
  have "two_digits (10 * i + j) = [a, b]" "two_digits (10 * k + l) = [d, e]"
    using two [of i j] two [of k l] ij kl by auto
  moreover have "10 * i + j < 24" "10 * k + l < 60" using ij kl by auto
  ultimately show ?thesis using that [of "10 * i + j" "10 * k + l"] s by simp
qed

lemma hhmm_is_clock: "hhmm_text s \<Longrightarrow> \<exists>v < DAY. s = clock v"
proof -
  assume "hhmm_text s"
  then obtain h m where s: "s = two_digits h @ '':'' @ two_digits m" "h < 24" "m < 60" by (rule hhmm_text_cases)
  then show ?thesis by (intro exI [of _ "h * 60 + m"]) (simp add: clock_def DAY_def)
qed

lemma clock_minutes [simp]: "hhmm_text s \<Longrightarrow> clock (minutes s) = s"
  using hhmm_is_clock [of s] by auto

lemma minutes_less: "hhmm_text s \<Longrightarrow> minutes s < DAY"
  using hhmm_is_clock [of s] by auto

section \<open>The daily times\<close>

definition rule_gives :: "mapping_value \<Rightarrow> nat \<Rightarrow> bool" where
  "rule_gives rule v =
     (if row_has rule ''at'' then v = minutes (row_text rule ''at'')
      else minutes (row_text rule ''from'') \<le> v \<and> v \<le> minutes (row_text rule ''to'') \<and>
           row_every rule dvd v - minutes (row_text rule ''from''))"

lemma set_py_range:
  assumes "0 < step"
  shows "v \<in> set (py_range a b step) \<longleftrightarrow> a \<le> v \<and> v \<le> b \<and> step dvd v - a"
proof
  assume "v \<in> set (py_range a b step)"
  then have "a \<le> b" "v \<in> (\<lambda>k. a + k * step) ` {..(b - a) div step}"
    by (simp_all add: py_range_def atLeast0LessThan lessThan_Suc_atMost del: upt_Suc split: if_splits)
  then obtain k where k: "a \<le> b" "v = a + k * step" "k \<le> (b - a) div step" by blast
  have "k * step \<le> b - a" using k(3) assms by (simp add: less_eq_div_iff_mult_less_eq)
  then show "a \<le> v \<and> v \<le> b \<and> step dvd v - a" using k by simp
next
  assume v: "a \<le> v \<and> v \<le> b \<and> step dvd v - a"
  then obtain k where k: "v - a = step * k" by auto
  have "k * step \<le> b - a" using v k by (metis diff_le_mono mult.commute)
  then have "k \<le> (b - a) div step" using assms by (simp add: less_eq_div_iff_mult_less_eq)
  moreover have "v = a + k * step" using v k by (metis le_add_diff_inverse mult.commute)
  ultimately show "v \<in> set (py_range a b step)" using v by (auto simp: py_range_def)
qed

lemma times_of_kind_eq:
  "times_of_kind rules kind = (\<Union>r \<in> {r \<in> set rules. row_text r ''kind'' = kind}. set (rule_times r))"
proof -
  have "foldl (\<lambda>found rule. if row_text rule ''kind'' \<noteq> kind then found else found \<union> set (rule_times rule)) acc rules =
      acc \<union> (\<Union>r \<in> {r \<in> set rules. row_text r ''kind'' = kind}. set (rule_times r))" for acc
    by (induction rules arbitrary: acc) auto
  then show ?thesis by (simp add: times_of_kind_def)
qed

lemma finite_times [simp]: "finite (times_of_kind rules kind)"
  by (simp add: times_of_kind_eq)

lemma apply_skips:
  "foldl (apply_skip generated) (left, un) rows =
     (left - {v \<in> generated. \<exists>s \<in> snd ` set rows. skip_matches s v},
      un @ map fst (filter (\<lambda>(i, s). \<not> (\<exists>v \<in> generated. skip_matches s v)) rows))"
proof (induction rows arbitrary: left un)
  case (Cons row rows)
  obtain i s where row: "row = (i, s)" by (cases row)
  have "(Set.filter (skip_matches s) generated = {}) = (\<not> (\<exists>v \<in> generated. skip_matches s v))" by auto
  then have "apply_skip generated (left, un) row =
      (left - {v \<in> generated. skip_matches s v}, un @ (if \<exists>v \<in> generated. skip_matches s v then [] else [i]))"
    by (simp add: apply_skip_def row Let_def Set.filter_eq)
  then show ?case using Cons.IH [of "left - {v \<in> generated. skip_matches s v}"] by (simp add: row) blast
qed simp

lemma rule_okD:
  assumes "rule_ok kinds v"
  obtains d where "v = PDict d" "row_text d ''kind'' \<in> set kinds"
    "if row_has d ''at'' then hhmm_text (row_text d ''at'')
     else 0 < row_every d \<and> hhmm_text (row_text d ''from'') \<and> hhmm_text (row_text d ''to'')"
proof -
  obtain d where d: "v = PDict d" "dget_none d ''kind'' \<in> PStr ` set kinds" using assms by (auto simp: rule_ok_def split: pyval.splits)
  have hh: "is_hhmm w \<Longrightarrow> hhmm_text (case w of PStr s \<Rightarrow> s | _ \<Rightarrow> [])" for w by (auto simp: is_hhmm_def split: pyval.splits)
  have "row_text d ''kind'' \<in> set kinds" using d(2) by (auto simp: row_text_def)
  moreover have "if row_has d ''at'' then hhmm_text (row_text d ''at'')
     else 0 < row_every d \<and> hhmm_text (row_text d ''from'') \<and> hhmm_text (row_text d ''to'')"
  proof (cases "has_keys d [''kind'', ''at'']")
    case True
    then show ?thesis using assms d(1) hh by (auto simp: rule_ok_def has_keys_def row_has_def row_text_def)
  next
    case False
    then have r: "has_keys d [''kind'', ''every'', ''from'', ''to'']" "dget_none d ''every'' \<in> PInt ` set STEPS"
        "is_hhmm (dget_none d ''from'')" "is_hhmm (dget_none d ''to'')"
      using assms d(1) by (simp_all add: rule_ok_def)
    have "0 < row_every d" using r(2) by (auto simp: row_every_def STEPS_def)
    moreover have "\<not> row_has d ''at''" using r(1) by (auto simp: has_keys_def row_has_def)
    ultimately show ?thesis using hh [OF r(3)] hh [OF r(4)] by (simp add: row_text_def)
  qed
  ultimately show ?thesis using that d(1) by blast
qed

lemma rule_times_gives:
  assumes "rule_ok kinds (PDict r)"
  shows "v \<in> set (rule_times r) \<longleftrightarrow> rule_gives r v" and "rule_gives r v \<Longrightarrow> v < DAY"
proof -
  have r: "if row_has r ''at'' then hhmm_text (row_text r ''at'')
     else 0 < row_every r \<and> hhmm_text (row_text r ''from'') \<and> hhmm_text (row_text r ''to'')"
    using assms by (elim rule_okD) simp
  then show "v \<in> set (rule_times r) \<longleftrightarrow> rule_gives r v" by (simp add: rule_times_def rule_gives_def set_py_range)
  show "v < DAY" if "rule_gives r v"
    using that r minutes_less [of "row_text r ''at''"] minutes_less [of "row_text r ''to''"] by (auto simp: rule_gives_def split: if_splits)
qed

lemma rows_of_ok:
  assumes "list_ok most ok (dget_none d k)" and "\<And>v. ok v \<Longrightarrow> \<exists>r. v = PDict r"
  shows "r \<in> set (rows_of d k) \<Longrightarrow> ok (PDict r)" and "dget_none d k = PList (map PDict (rows_of d k))"
proof -
  obtain vs where vs: "dget_none d k = PList vs" "list_all ok vs" using assms(1) by (auto simp: list_ok_def split: pyval.splits)
  have "vs = map PDict (List.map_filter dict_value vs)"
    using vs(2)
  proof (induction vs)
    case (Cons v vs)
    then obtain r where "v = PDict r" using assms(2) [of v] by auto
    then show ?case using Cons by (simp add: List.map_filter_simps)
  qed (simp add: List.map_filter_simps)
  then show *: "dget_none d k = PList (map PDict (rows_of d k))" using vs(1) by (simp add: rows_of_def)
  show "ok (PDict r)" if "r \<in> set (rows_of d k)" using that vs * by (auto simp: list_all_iff)
qed

end
