(* ===== verification/Cadence_Facts.thy ===== *)
theory Cadence_Facts
  imports Cadence Refresh_Facts
begin

text \<open>
  The scheduler looks at three days around the local date. In a zone whose local date never goes back
  that is enough: the slot it selects is the latest of all occurrences of the configured times up to
  now, and the announced one is the first after now.
\<close>

section \<open>Zones and days\<close>

definition day_no :: "zone_info \<Rightarrow> int \<Rightarrow> int" where
  "day_no z i = to_wall z i div day_length"

text \<open>
  What the scheduler needs of a zone beyond PEP 495: the local date never goes back, and
  \<open>date()\<close> of a local time is the date its wall time falls on.
\<close>

definition civil_zone :: "zone_info \<Rightarrow> bool" where
  "civil_zone z \<longleftrightarrow>
     zone_laws z \<and> (\<forall>i j. i \<le> j \<longrightarrow> day_no z i \<le> day_no z j) \<and>
     (\<forall>i. toordinal date_min \<le> day_no z i \<and> day_no z i \<le> toordinal date_max \<longrightarrow>
        valid_date (wall_date z i) \<and> toordinal (wall_date z i) = day_no z i)"

definition civil :: "(string \<Rightarrow> zone_info option) \<Rightarrow> string \<Rightarrow> zone_info \<Rightarrow> bool" where
  "civil zones timezone z \<longleftrightarrow> zones timezone = Some z \<and> civil_zone z"

definition occ :: "(string \<Rightarrow> zone_info option) \<Rightarrow> string \<Rightarrow> string \<Rightarrow> date \<Rightarrow> int" where
  "occ zones timezone value d = (case local_instant zones d value timezone of Inr t \<Rightarrow> t | Inl _ \<Rightarrow> 0)"

lemma wall_of_day:
  assumes "hhmm_text tm"
  shows "combine d (int (minutes tm) * MINUTE) div day_length = toordinal d"
proof -
  have "int (minutes tm) * MINUTE < day_length" "0 \<le> int (minutes tm) * MINUTE"
    using minutes_less [OF assms] by (simp_all add: DAY_def MINUTE_def day_length_def)
  then show ?thesis by (simp add: combine_def div_add1_eq)
qed

lemma occ_days:
  assumes z: "civil zones timezone z" and h: "hhmm_text tm"
  shows "local_instant zones d tm timezone = Inr (occ zones timezone tm d)"
    and "toordinal d \<le> day_no z (occ zones timezone tm d)"
    and "day_no z (occ zones timezone tm d) = toordinal d \<or> day_no z (occ zones timezone tm d - 1) \<le> toordinal d"
proof -
  let ?t = "occ zones timezone tm d"
  let ?L = "combine d (int (minutes tm) * MINUTE)"
  have zt: "zones timezone = Some z" using z by (simp add: civil_def)
  have laws: "zone_laws z" using z by (simp add: civil_def civil_zone_def)
  obtain t where t: "resolve_local zones ?L timezone = Inr t" "to_wall z t = ?L \<or> ?L < to_wall z t \<and> to_wall z (t - 1) < ?L"
    using resolve_shown [of zones timezone z _ ?L, OF zt laws] resolve_gap [of zones timezone z ?L, OF zt laws] by metis
  have o: "?t = t" using t(1) by (simp add: occ_def local_instant_def)
  show "local_instant zones d tm timezone = Inr ?t" using t(1) o by (simp add: local_instant_def)
  have dl: "0 < day_length" by (simp add: day_length_def)
  have "?L \<le> to_wall z t" using t(2) by auto
  then show "toordinal d \<le> day_no z ?t" unfolding o day_no_def wall_of_day [OF h, of d, symmetric] by (rule zdiv_mono1) (rule dl)
  show "day_no z ?t = toordinal d \<or> day_no z (?t - 1) \<le> toordinal d"
  proof (cases "to_wall z t = ?L")
    case True
    then show ?thesis unfolding o day_no_def by (simp add: wall_of_day [OF h])
  next
    case False
    then have "to_wall z (t - 1) \<le> ?L" using t(2) by auto
    then have "day_no z (t - 1) \<le> toordinal d"
      unfolding day_no_def wall_of_day [OF h, of d, symmetric] by (rule zdiv_mono1) (rule dl)
    then show ?thesis unfolding o by simp
  qed
qed

lemma day_no_mono: "civil zones timezone z \<Longrightarrow> i \<le> j \<Longrightarrow> day_no z i \<le> day_no z j"
  by (simp add: civil_def civil_zone_def)

lemma occ_past:
  assumes z: "civil zones timezone z" and h: "hhmm_text tm" and "toordinal d < day_no z now"
  shows "occ zones timezone tm d \<le> now"
proof (rule ccontr)
  assume "\<not> occ zones timezone tm d \<le> now"
  then have "day_no z now \<le> day_no z (occ zones timezone tm d)" "day_no z now \<le> day_no z (occ zones timezone tm d - 1)"
    using day_no_mono [OF z] by simp_all
  then show False using occ_days(3) [OF z h, of d] assms(3) by linarith
qed

lemma occ_future:
  assumes z: "civil zones timezone z" and h: "hhmm_text tm" and "day_no z now < toordinal d"
  shows "now < occ zones timezone tm d"
proof (rule ccontr)
  assume "\<not> now < occ zones timezone tm d"
  then have "day_no z (occ zones timezone tm d) \<le> day_no z now" using day_no_mono [OF z] by simp
  then show False using occ_days(2) [OF z h, of d] assms(3) by linarith
qed

lemma occ_mono:
  assumes z: "civil zones timezone z" and h: "hhmm_text tm" and "toordinal d \<le> toordinal d'"
  shows "occ zones timezone tm d \<le> occ zones timezone tm d'"
proof (cases "toordinal d = toordinal d'")
  case True
  then have "combine d x = combine d' x" for x by (simp add: combine_def)
  then show ?thesis by (simp add: occ_def local_instant_def)
next
  case False
  then have "toordinal d < day_no z (occ zones timezone tm d')" using occ_days(2) [OF z h, of d'] assms(3) by linarith
  then show ?thesis by (rule occ_past [OF z h])
qed

section \<open>The three days\<close>

lemma valid_toordinal_le:
  assumes "valid_date d" "valid_date e"
  shows "d \<le> e \<longleftrightarrow> toordinal d \<le> toordinal e" and "d < e \<longleftrightarrow> toordinal d < toordinal e"
  using toordinal_less [OF assms] toordinal_less [OF assms(2,1)] by (metis linorder_neqE not_less order_le_less)+

lemma date_ends: "valid_date date_min" "valid_date date_max"
  by (simp_all add: date_min_def date_max_def valid_date_def days_in_month_def)

definition mid_range :: "zone_info \<Rightarrow> int \<Rightarrow> bool" where
  "mid_range z now \<longleftrightarrow> toordinal date_min < day_no z now \<and> day_no z now < toordinal date_max"

lemma today:
  assumes "civil zones timezone z" and "mid_range z now"
  shows "valid_date (wall_date z now)" "toordinal (wall_date z now) = day_no z now"
    "toordinal (prev_day (wall_date z now)) = day_no z now - 1" "toordinal (next_day (wall_date z now)) = day_no z now + 1"
    "valid_date (prev_day (wall_date z now))" "valid_date (next_day (wall_date z now))"
    "day_before (wall_date z now) = Inr (prev_day (wall_date z now))" "add_day (wall_date z now) = Inr (next_day (wall_date z now))"
proof -
  let ?d = "wall_date z now"
  show d: "valid_date ?d" "toordinal ?d = day_no z now" using assms by (auto simp: civil_def civil_zone_def mid_range_def)
  have r: "date_min < ?d" "?d < date_max"
    using assms(2) d valid_toordinal_le(2) [OF date_ends(1) d(1)] valid_toordinal_le(2) [OF d(1) date_ends(2)] by (simp_all add: mid_range_def)
  show "toordinal (prev_day ?d) = day_no z now - 1" "valid_date (prev_day ?d)"
    using toordinal_prev_day [OF d(1) r(1)] prev_day_ok [OF d(1) r(1)] d(2) by simp_all
  show "toordinal (next_day ?d) = day_no z now + 1" using toordinal_next_day [OF d(1)] d(2) by simp
  show "valid_date (next_day ?d)" "add_day ?d = Inr (next_day ?d)" using add_day_total [OF d(1) r(2)] by auto
  show "day_before ?d = Inr (prev_day ?d)" using r(1) by (simp add: day_before_def)
qed

lemma occurrences_today:
  assumes "civil zones timezone z" "mid_range z now" "hhmm_text tm"
  shows "occurrences zones (wall_date z now) tm timezone =
    Inr (occ zones timezone tm (prev_day (wall_date z now)), occ zones timezone tm (wall_date z now), occ zones timezone tm (next_day (wall_date z now)))"
  using occ_days(1) [OF assms(1,3)] today(7,8) [OF assms(1,2)] by (simp add: occurrences_def)

definition occurs :: "(string \<Rightarrow> zone_info option) \<Rightarrow> string \<Rightarrow> string list \<Rightarrow> int \<Rightarrow> bool" where
  "occurs zones timezone vals t \<longleftrightarrow>
     (\<exists>d tm. valid_date d \<and> tm \<in> set vals \<and> local_instant zones d tm timezone = Inr t)"

lemma occurs_occ:
  assumes "civil zones timezone z" "list_all hhmm_text vals"
  shows "occurs zones timezone vals t \<longleftrightarrow> (\<exists>d tm. valid_date d \<and> tm \<in> set vals \<and> t = occ zones timezone tm d)"
proof -
  have "local_instant zones d tm timezone = Inr t \<longleftrightarrow> t = occ zones timezone tm d" if "tm \<in> set vals" for d tm
    using occ_days(1) [OF assms(1), of tm d] assms(2) that by (auto simp: list_all_iff)
  then show ?thesis unfolding occurs_def by blast
qed

section \<open>The latest and the next\<close>

text \<open>Every occurrence is one of the three days, or an earlier or later one of the same time.\<close>

lemma occurs_near:
  assumes z: "civil zones timezone z" "mid_range z now" and v: "list_all hhmm_text vals"
    and t: "occurs zones timezone vals t"
  defines "oc \<equiv> occ zones timezone" and "d \<equiv> wall_date z now"
  shows "\<exists>tm\<in>set vals. t \<le> oc tm (prev_day d) \<and> oc tm (prev_day d) \<le> now \<or> t = oc tm d \<or> oc tm (next_day d) \<le> t \<and> now < oc tm (next_day d)"
proof -
  obtain e tm where e: "valid_date e" "tm \<in> set vals" "t = oc tm e"
    using t occurs_occ [OF z(1) v] unfolding oc_def by blast
  have h: "hhmm_text tm" using v e(2) by (simp add: list_all_iff)
  note td = today [OF z, folded d_def]
  consider "toordinal e \<le> day_no z now - 1" | "toordinal e = day_no z now" | "day_no z now + 1 \<le> toordinal e" by linarith
  then show ?thesis
  proof cases
    case 1
    then have "t \<le> oc tm (prev_day d)" "oc tm (prev_day d) \<le> now"
      unfolding e(3) oc_def using occ_mono [OF z(1) h, of e "prev_day d"] occ_past [OF z(1) h, of "prev_day d" now] td(3) by auto
    then show ?thesis using e(2) by blast
  next
    case 2
    then have "t = oc tm d" unfolding e(3) oc_def
      using occ_mono [OF z(1) h, of e d] occ_mono [OF z(1) h, of d e] td(2) by simp
    then show ?thesis using e(2) by blast
  next
    case 3
    then have "oc tm (next_day d) \<le> t" "now < oc tm (next_day d)"
      unfolding e(3) oc_def using occ_mono [OF z(1) h, of "next_day d" e] occ_future [OF z(1) h, of now "next_day d"] td(4) by auto
    then show ?thesis using e(2) by blast
  qed
qed

lemma latest_eq:
  fixes nightly :: string
  assumes z: "civil zones timezone z" "mid_range z now" and v: "list_all hhmm_text vals" "vals \<noteq> []"
  defines "oc \<equiv> occ zones timezone" and "d \<equiv> wall_date z now"
  defines "C \<equiv> {precedence t tm nightly | t tm. tm \<in> set vals \<and> t \<in> {oc tm (prev_day d), oc tm d} \<and> t \<le> now}"
  shows "finite C" and "C \<noteq> {}" and "latest zones now timezone vals nightly = Inr (fst (Max C), snd (snd (Max C)))"
proof -
  let ?f = "\<lambda>tm. map (\<lambda>t. precedence t tm nightly) (filter (\<lambda>t. t \<le> now) [oc tm (prev_day d), oc tm d])"
  have "latest_candidates zones now timezone d nightly tm = Inr (?f tm)" if "tm \<in> set vals" for tm
    using occurrences_today [OF z] that v(1) by (simp add: latest_candidates_def oc_def d_def list_all_iff)
  then have m: "map_res (latest_candidates zones now timezone d nightly) vals = Inr (map ?f vals)" by (rule map_res_total)
  have C: "C = set (concat (map ?f vals))" unfolding C_def by (auto simp: precedence_def split: if_splits)
  then show "finite C" by simp
  obtain tm where tm: "tm \<in> set vals" using v(2) by (cases vals) auto
  have "oc tm (prev_day d) \<le> now"
    using occ_past [OF z(1), of tm "prev_day d" now] today(3) [OF z] v(1) tm by (simp add: oc_def d_def list_all_iff)
  then show ne: "C \<noteq> {}" using tm unfolding C_def by blast
  then have "concat (map ?f vals) \<noteq> []" unfolding C by (metis empty_set)
  then show "latest zones now timezone vals nightly = Inr (fst (Max C), snd (snd (Max C)))"
    using m z(1) unfolding C civil_def by (simp add: latest_def local_date_def d_def split_def)
qed

lemma next_eq:
  assumes z: "civil zones timezone z" "mid_range z now" and v: "list_all hhmm_text vals" "vals \<noteq> []"
    and c: "validate_cadence c = Inr vals" "ci_frequency c = PStr ''daily''"
  defines "oc \<equiv> occ zones timezone" and "d \<equiv> wall_date z now"
  defines "C \<equiv> {t. \<exists>tm\<in>set vals. t \<in> {oc tm d, oc tm (next_day d)} \<and> now < t}"
  shows "finite C" and "C \<noteq> {}" and "next_full_at zones now timezone c = Inr (Min C)"
proof -
  let ?f = "\<lambda>tm. filter (\<lambda>t. t > now) [oc tm d, oc tm (next_day d)]"
  have "next_candidates zones now timezone d tm = Inr (?f tm)" if "tm \<in> set vals" for tm
    using occurrences_today [OF z] that v(1) by (simp add: next_candidates_def oc_def d_def list_all_iff)
  then have m: "map_res (next_candidates zones now timezone d) vals = Inr (map ?f vals)" by (rule map_res_total)
  have C: "C = set (concat (map ?f vals))" unfolding C_def by (auto split: if_splits)
  then show "finite C" by simp
  obtain tm where tm: "tm \<in> set vals" using v(2) by (cases vals) auto
  have "now < oc tm (next_day d)"
    using occ_future [OF z(1), of tm now "next_day d"] today(4) [OF z] v(1) tm by (simp add: oc_def d_def list_all_iff)
  then show ne: "C \<noteq> {}" using tm unfolding C_def by blast
  then have "concat (map ?f vals) \<noteq> []" unfolding C by (metis empty_set)
  then show "next_full_at zones now timezone c = Inr (Min C)"
    using m z(1) c unfolding C civil_def by (simp add: next_full_at_def local_date_def d_def)
qed

lemma validate_values:
  assumes "validate_cadence c = Inr vals"
  shows "list_all hhmm_text vals" and "vals \<noteq> []" and "value_text (ci_nightly c) = hd vals"
proof -
  obtain vs where vs: "vals = map value_text vs" "canonical_times (ci_nightly c) vs"
    using assms by (auto simp: validate_cadence_def Let_def split: if_splits)
  then show "list_all hhmm_text vals" by (auto simp: canonical_times_def canonical_list_def list_all_iff is_hhmm_def value_text_def split: pyval.splits)
  have "vs \<noteq> []" using vs(2) by (auto simp: canonical_times_def canonical_list_def)
  then show "vals \<noteq> []" "value_text (ci_nightly c) = hd vals" using vs by (auto simp: canonical_times_def hd_map)
qed

lemma precedence_le: "precedence t v n \<le> (a, b, c) \<Longrightarrow> t \<le> a"
  by (auto simp: precedence_def less_eq_prod_def)

lemma latest_greatest:
  assumes z: "civil zones timezone z" "mid_range z now" and v: "list_all hhmm_text vals" "vals \<noteq> []"
  shows "\<exists>t tm. latest zones now timezone vals nightly = Inr (t, tm) \<and> occurs zones timezone vals t \<and> tm \<in> set vals \<and> t \<le> now \<and>
    (\<forall>u. occurs zones timezone vals u \<and> u \<le> now \<longrightarrow> u \<le> t) \<and>
    (nightly \<in> set vals \<and> (\<exists>d. valid_date d \<and> local_instant zones d nightly timezone = Inr t) \<longrightarrow> tm = nightly)"
proof -
  define oc where "oc = occ zones timezone"
  define d where "d = wall_date z now"
  define C where "C = {precedence t tm nightly | t tm. tm \<in> set vals \<and> t \<in> {oc tm (prev_day d), oc tm d} \<and> t \<le> now}"
  note eq = latest_eq [OF z v, of nightly, folded oc_def d_def, folded C_def]
  obtain t b tm where M: "Max C = (t, b, tm)" by (cases "Max C") auto
  have "(t, b, tm) \<in> C" using Max_in [OF eq(1,2)] unfolding M .
  then have tm: "tm \<in> set vals" "t \<in> {oc tm (prev_day d), oc tm d}" "t \<le> now" "b \<longleftrightarrow> tm = nightly"
    unfolding C_def by (auto simp: precedence_def)
  note td = today [OF z, folded d_def]
  have occ: "occurs zones timezone vals t" unfolding occurs_occ [OF z(1) v(1)] using tm(1,2) td(1,5) by (auto simp: oc_def)
  have cand: "u \<le> t" if "w \<in> set vals" "u \<in> {oc w (prev_day d), oc w d}" "u \<le> now" for u w
  proof -
    have "precedence u w nightly \<in> C" unfolding C_def using that by blast
    then have "precedence u w nightly \<le> Max C" by (rule Max_ge [OF eq(1)])
    then show ?thesis unfolding M by (rule precedence_le)
  qed
  have great: "u \<le> t" if u: "occurs zones timezone vals u" "u \<le> now" for u
    using occurs_near [OF z v(1) u(1), folded oc_def d_def] u(2) cand by force
  have tie: "tm = nightly" if n: "nightly \<in> set vals" "valid_date e" "local_instant zones e nightly timezone = Inr t" for e
  proof -
    have h: "hhmm_text nightly" using n(1) v(1) by (simp add: list_all_iff)
    have e: "t = oc nightly e" using occ_days(1) [OF z(1) h, of e] n(3) by (simp add: oc_def)
    have "toordinal e \<le> toordinal d" using occ_future [OF z(1) h, of now e] tm(3) td(2) e unfolding oc_def by linarith
    then have "t \<in> {oc nightly (prev_day d), oc nightly d}"
    proof (cases "toordinal e = toordinal d")
      case True
      then show ?thesis using occ_mono [OF z(1) h, of e d] occ_mono [OF z(1) h, of d e] e unfolding oc_def by simp
    next
      case False
      then have "t \<le> oc nightly (prev_day d)" using occ_mono [OF z(1) h, of e "prev_day d"] e td(2,3) \<open>toordinal e \<le> toordinal d\<close> unfolding oc_def by simp
      moreover have "oc nightly (prev_day d) \<le> now" using occ_past [OF z(1) h, of "prev_day d" now] td(3) unfolding oc_def by simp
      ultimately show ?thesis using cand [OF n(1), of "oc nightly (prev_day d)"] by force
    qed
    then have "precedence t nightly nightly \<in> C" unfolding C_def using n(1) tm(3) by blast
    then have "precedence t nightly nightly \<le> (t, b, tm)" using Max_ge [OF eq(1)] M by metis
    then show ?thesis using tm(4) by (auto simp: precedence_def less_eq_prod_def)
  qed
  show ?thesis using eq(3) M tm occ great tie by (intro exI [of _ t] exI [of _ tm]) auto
qed

lemma next_first:
  assumes z: "civil zones timezone z" "mid_range z now" and c: "validate_cadence c = Inr vals" "ci_frequency c = PStr ''daily''"
  shows "\<exists>n. next_full_at zones now timezone c = Inr n \<and> occurs zones timezone vals n \<and> now < n \<and>
    (\<forall>u. occurs zones timezone vals u \<and> now < u \<longrightarrow> n \<le> u)"
proof -
  note v = validate_values(1,2) [OF c(1)]
  define oc where "oc = occ zones timezone"
  define d where "d = wall_date z now"
  define C where "C = {t. \<exists>tm\<in>set vals. t \<in> {oc tm d, oc tm (next_day d)} \<and> now < t}"
  note eq = next_eq [OF z v c, folded oc_def d_def, folded C_def]
  note td = today [OF z, folded d_def]
  have "Min C \<in> C" by (rule Min_in [OF eq(1,2)])
  then obtain tm where tm: "tm \<in> set vals" "Min C \<in> {oc tm d, oc tm (next_day d)}" "now < Min C" unfolding C_def by blast
  have "occurs zones timezone vals (Min C)" unfolding occurs_occ [OF z(1) v(1)] using tm(1,2) td(1,6) by (auto simp: oc_def)
  moreover have "Min C \<le> u" if u: "occurs zones timezone vals u" "now < u" for u
  proof -
    obtain w where w: "w \<in> set vals" "u = oc w d \<or> oc w (next_day d) \<le> u \<and> now < oc w (next_day d)"
      using occurs_near [OF z v(1) u(1), folded oc_def d_def] u(2) by force
    then have "u \<in> C \<or> oc w (next_day d) \<in> C \<and> oc w (next_day d) \<le> u" using u(2) unfolding C_def by blast
    then show ?thesis using Min_le [OF eq(1)] by (meson order_trans)
  qed
  ultimately show ?thesis using eq(3) tm(3) by blast
qed

text \<open>
  C32: the refreshes of a daily schedule, in a zone whose local date never goes back. At every moment the
  selected slot and the announced one exist, both are occurrences of configured times, and there is
  no occurrence between them: the one selected is the latest that is due and the one
  announced the next to fall due. When the nightly time falls at the selected instant it
  is the time chosen.
\<close>

theorem full_refresh_sequence:
  assumes "civil zones timezone z" and "mid_range z now" and "validate_cadence c = Inr vals" and "ci_frequency c = PStr ''daily''"
  shows "\<exists>due tm nxt. latest zones now timezone vals (value_text (ci_nightly c)) = Inr (due, tm) \<and> next_full_at zones now timezone c = Inr nxt \<and>
    occurs zones timezone vals due \<and> due \<le> now \<and> occurs zones timezone vals nxt \<and> now < nxt \<and>
    (\<forall>t. occurs zones timezone vals t \<longrightarrow> t \<le> due \<or> nxt \<le> t) \<and>
    ((\<exists>d. valid_date d \<and> local_instant zones d (value_text (ci_nightly c)) timezone = Inr due) \<longrightarrow> tm = value_text (ci_nightly c))"
proof -
  note v = validate_values [OF assms(3)]
  have n: "value_text (ci_nightly c) \<in> set vals" using v(2,3) by simp
  obtain due tm where l: "latest zones now timezone vals (value_text (ci_nightly c)) = Inr (due, tm)" "occurs zones timezone vals due" "due \<le> now"
      "\<forall>u. occurs zones timezone vals u \<and> u \<le> now \<longrightarrow> u \<le> due"
      "(\<exists>d. valid_date d \<and> local_instant zones d (value_text (ci_nightly c)) timezone = Inr due) \<longrightarrow> tm = value_text (ci_nightly c)"
    using latest_greatest [OF assms(1,2) v(1,2), of "value_text (ci_nightly c)"] n by blast
  obtain nxt where x: "next_full_at zones now timezone c = Inr nxt" "occurs zones timezone vals nxt" "now < nxt"
      "\<forall>u. occurs zones timezone vals u \<and> now < u \<longrightarrow> nxt \<le> u" using next_first [OF assms] by blast
  have "t \<le> due \<or> nxt \<le> t" if "occurs zones timezone vals t" for t using that l(4) x(4) by (meson not_le)
  then show ?thesis using l x by blast
qed

section \<open>A zone\<close>

text \<open>The date with a number, and UTC as a zone.\<close>

definition fromordinal :: "int \<Rightarrow> date" where
  "fromordinal n = (next_day ^^ nat (n - toordinal date_min)) date_min"

definition utc_zone :: zone_info where
  "utc_zone = \<lparr>to_wall = (\<lambda>i. i), from_wall = (\<lambda>_ w. w), wall_date = (\<lambda>i. fromordinal (i div day_length))\<rparr>"

lemma fromordinal_ok:
  assumes "toordinal date_min \<le> n" "n \<le> toordinal date_max"
  shows "valid_date (fromordinal n) \<and> toordinal (fromordinal n) = n"
proof -
  have "date_min \<le> date_max" by (simp add: date_min_def date_max_def less_eq_date_def)
  from day_between [OF date_ends this, of "nat (n - toordinal date_min)"] assms show ?thesis by (simp add: fromordinal_def)
qed

lemma utc_civil: "civil (\<lambda>_. Some utc_zone) name utc_zone"
proof -
  have "zone_laws utc_zone" by (simp add: zone_laws_def utc_zone_def)
  moreover have "i div day_length \<le> j div day_length" if "i \<le> j" for i j
    using that by (intro zdiv_mono1) (simp_all add: day_length_def)
  ultimately show ?thesis using fromordinal_ok by (simp add: civil_def civil_zone_def day_no_def utc_zone_def)
qed

definition demo_cadence :: cadence_inputs where
  "demo_cadence = \<lparr>ci_nightly = PStr ''02:00'', ci_frequency = PStr ''daily'', ci_times = Some [PStr ''02:00'', PStr ''14:00''], ci_rules = True\<rparr>"

lemma demo_cadence_ok: "validate_cadence demo_cadence = Inr [''02:00'', ''14:00'']"
  by code_simp

theorem full_refresh_sequence_witness:
  "\<exists>due tm nxt. latest (\<lambda>_. Some utc_zone) (700000 * day_length + 12 * HOUR) ''UTC'' [''02:00'', ''14:00''] ''02:00'' = Inr (due, tm) \<and>
     next_full_at (\<lambda>_. Some utc_zone) (700000 * day_length + 12 * HOUR) ''UTC'' demo_cadence = Inr nxt \<and> due < nxt"
proof -
  have "toordinal date_min < 700000" "700000 < toordinal date_max" by code_simp+
  then have "mid_range utc_zone (700000 * day_length + 12 * HOUR)"
    by (simp add: mid_range_def day_no_def utc_zone_def day_length_def HOUR_def MINUTE_def)
  moreover have "ci_frequency demo_cadence = PStr ''daily''" "value_text (ci_nightly demo_cadence) = ''02:00''"
    by (simp_all add: demo_cadence_def value_text_def)
  ultimately show ?thesis using full_refresh_sequence [OF utc_civil _ demo_cadence_ok, of "700000 * day_length + 12 * HOUR" "''UTC''"] by force
qed

end
