(* ===== verification/Canonical_Facts.thy ===== *)
theory Canonical_Facts
  imports Canonical
begin

text \<open>
  The canonical text of a payload determines the payload: JSON text can be split in only one way.
\<close>

section \<open>Splitting JSON text\<close>

fun json :: "pyval \<Rightarrow> bool" where
  "json (PFloat _) = False"
| "json PNonFinite = False"
| "json (POther _) = False"
| "json (PList vs) = list_all json vs"
| "json (PDict d) = list_all (\<lambda>(k, v). json v) d"
| "json _ = True"

text \<open>What may follow a value.\<close>

definition delimited :: "string \<Rightarrow> bool" where
  "delimited s \<longleftrightarrow> s = [] \<or> hd s \<in> {CHR '','', CHR '']'', CHR ''}''}"

definition splits :: "pyval \<Rightarrow> bool" where
  "splits v \<longleftrightarrow> (\<forall>w s t. json w \<longrightarrow> delimited s \<longrightarrow> delimited t \<longrightarrow> json_text v @ s = json_text w @ t \<longrightarrow> v = w \<and> s = t)"

lemma join_Cons: "join sep (x # xs) = x @ concat (map (\<lambda>y. sep @ y) xs)"
  by (induction xs arbitrary: x) auto

definition digit_end :: "string \<Rightarrow> bool" where
  "digit_end s \<longleftrightarrow> s = [] \<or> \<not> is_digit (hd s)"

lemma delimited_end: "delimited s \<Longrightarrow> digit_end s"
  by (auto simp: delimited_def digit_end_def is_digit_def)

lemma digits_split:
  assumes "list_all is_digit a" "list_all is_digit b" "digit_end s" "digit_end t" "a @ s = b @ t"
  shows "a = b \<and> s = t"
proof -
  have tw: "takeWhile is_digit (a @ s) = a" if "list_all is_digit a" "digit_end s" for a s
  proof -
    have "takeWhile is_digit s = []" using that(2) by (cases s) (auto simp: digit_end_def)
    then show ?thesis using that(1) by (simp add: takeWhile_append2 list_all_iff)
  qed
  have "a = b" using tw [OF assms(1,3)] tw [OF assms(2,4)] assms(5) by simp
  then show ?thesis using assms(5) by simp
qed

lemma show_nat_all_digits: "list_all is_digit (show_nat n)" "show_nat n \<noteq> []"
  using parse_show_nat [of n] by (auto simp: parse_nat_def split: if_splits)

lemma show_nat_inj: "show_nat m = show_nat n \<Longrightarrow> m = n"
  by (metis option.inject parse_show_nat)

lemma show_int_split:
  assumes "digit_end s" "digit_end t" "show_int i @ s = show_int j @ t"
  shows "i = j \<and> s = t"
proof -
  have hd: "hd (show_nat n) \<noteq> CHR ''-''" for n
    using show_nat_all_digits [of n] by (cases "show_nat n") (auto simp: is_digit_def)
  have eq: "m = n \<and> s = t" if "show_nat m @ s = show_nat n @ t" for m n
    using digits_split [OF show_nat_all_digits(1) show_nat_all_digits(1) assms(1,2) that] show_nat_inj by blast
  have no: "CHR ''-'' # x \<noteq> show_nat n @ y" for x n y
    using hd [of n] show_nat_all_digits(2) [of n] by (cases "show_nat n") auto
  show ?thesis
  proof (cases "i < 0"; cases "j < 0")
    assume "i < 0" "j < 0"
    then show ?thesis using assms(3) eq [of "nat (- i)" "nat (- j)"] by (auto simp: show_int_def)
  next
    assume "i < 0" "\<not> j < 0"
    then show ?thesis using assms(3) no [of "show_nat (nat (- i)) @ s" "nat j" t] by (simp add: show_int_def)
  next
    assume "\<not> i < 0" "j < 0"
    then show ?thesis using assms(3) no [of "show_nat (nat (- j)) @ t" "nat i" s] by (simp add: show_int_def)
  next
    assume "\<not> i < 0" "\<not> j < 0"
    then show ?thesis using assms(3) eq [of "nat i" "nat j"] by (auto simp: show_int_def)
  qed
qed

lemma show_int_inj: "inj show_int"
  by (rule injI) (use show_int_split [of "[]" "[]"] in \<open>simp add: digit_end_def\<close>)

text \<open>Values of different types start differently.\<close>

definition lead :: "pyval \<Rightarrow> nat" where
  "lead v = (case v of PNone \<Rightarrow> 0 | PBool b \<Rightarrow> if b then 1 else 2 | PInt _ \<Rightarrow> 3 | PStr _ \<Rightarrow> 4 | PList _ \<Rightarrow> 5 | PDict _ \<Rightarrow> 6 | _ \<Rightarrow> 7)"

definition lead_char :: "char \<Rightarrow> nat" where
  "lead_char c = (if c = CHR ''n'' then 0 else if c = CHR ''t'' then 1 else if c = CHR ''f'' then 2
     else if c = CHR 0x22 then 4 else if c = CHR ''['' then 5 else if c = CHR ''{'' then 6 else 3)"

lemma show_int_hd: "hd (show_int i) \<noteq> CHR '']''"
proof -
  have "hd (show_nat n) \<noteq> CHR '']''" for n using show_nat_all_digits [of n] by (cases "show_nat n") (auto simp: is_digit_def)
  then show ?thesis by (simp add: show_int_def)
qed

lemma json_text_lead: "json v \<Longrightarrow> json_text v \<noteq> [] \<and> lead_char (hd (json_text v)) = lead v"
proof (cases v)
  case (PInt i)
  have "lead_char (hd (show_nat n)) = 3" for n
    using show_nat_all_digits [of n] by (cases "show_nat n") (auto simp: lead_char_def is_digit_def)
  moreover have "lead_char CHR ''-'' = 3" by code_simp
  ultimately show ?thesis using PInt show_nat_all_digits(2) by (simp add: show_int_def lead_def)
qed (auto simp: lead_def lead_char_def json_string_def)

lemma same_lead:
  assumes "json v" "json w" "json_text v @ s = json_text w @ t"
  shows "lead v = lead w"
  using json_text_lead [OF assms(1)] json_text_lead [OF assms(2)] arg_cong [OF assms(3), of hd] by simp

section \<open>Lists and mappings\<close>

text \<open>The rest of a list after its opening, with a text for each element.\<close>

definition tail_text :: "('a \<Rightarrow> string) \<Rightarrow> char \<Rightarrow> 'a list \<Rightarrow> string" where
  "tail_text f c xs = concat (map (\<lambda>x. '','' @ f x) xs) @ [c]"

definition element_splits :: "('a \<Rightarrow> string) \<Rightarrow> ('a \<Rightarrow> bool) \<Rightarrow> 'a \<Rightarrow> bool" where
  "element_splits f ok x \<longleftrightarrow> (\<forall>y s t. ok y \<longrightarrow> delimited s \<longrightarrow> delimited t \<longrightarrow> f x @ s = f y @ t \<longrightarrow> x = y \<and> s = t)"

lemma element_splitsD:
  "element_splits f ok x \<Longrightarrow> ok y \<Longrightarrow> delimited s \<Longrightarrow> delimited t \<Longrightarrow> f x @ s = f y @ t \<Longrightarrow> x = y \<and> s = t"
  unfolding element_splits_def by blast

lemma tail_delimited: "c \<in> {CHR '']'', CHR ''}''} \<Longrightarrow> delimited (tail_text f c xs @ s)"
  by (cases xs) (auto simp: tail_text_def delimited_def)

lemma tail_split:
  assumes "\<forall>x\<in>set xs. element_splits f ok x" and "\<forall>y\<in>set ys. ok y" and "c \<in> {CHR '']'', CHR ''}''}"
    and "tail_text f c xs @ s = tail_text f c ys @ t"
  shows "xs = ys \<and> s = t"
  using assms(1,2,4)
proof (induction xs arbitrary: ys)
  case Nil
  then show ?case using assms(3) by (cases ys) (auto simp: tail_text_def)
next
  case (Cons x xs)
  show ?case
  proof (cases ys)
    case Nil
    then show ?thesis using Cons.prems(3) assms(3) by (auto simp: tail_text_def)
  next
    case ys: (Cons y ys')
    have "f x @ tail_text f c xs @ s = f y @ tail_text f c ys' @ t" using Cons.prems(3) by (simp add: tail_text_def ys)
    then have "x = y \<and> tail_text f c xs @ s = tail_text f c ys' @ t"
      using Cons.prems(1,2) tail_delimited [OF assms(3)] by (intro element_splitsD [of f ok]) (simp_all add: ys)
    then show ?thesis using Cons.IH [of ys'] Cons.prems(1,2) ys by simp
  qed
qed

lemma join_tail: "join '','' (map f (x # xs)) @ [c] = f x @ tail_text f c xs"
  by (simp only: list.map join_Cons tail_text_def map_map comp_def append_assoc)

lemma join_split:
  assumes "\<forall>x\<in>set xs. element_splits f ok x \<and> f x \<noteq> [] \<and> hd (f x) \<noteq> c"
    and "\<forall>y\<in>set ys. ok y \<and> f y \<noteq> [] \<and> hd (f y) \<noteq> c"
    and c: "c \<in> {CHR '']'', CHR ''}''}"
    and eq: "join '','' (map f xs) @ [c] @ v = join '','' (map f ys) @ [c] @ w"
  shows "xs = ys \<and> v = w"
proof -
  have j: "join '','' (map f (x # xs)) @ [c] @ v = f x @ tail_text f c xs @ v" for x xs v
    using join_tail [of f x xs c] by (metis append_assoc)
  have ne: "c # u \<noteq> f x @ r" if "f x \<noteq> [] \<and> hd (f x) \<noteq> c" for u x r using that by (cases "f x") auto
  show ?thesis
  proof (cases xs; cases ys)
    fix y ys' assume "xs = []" and ys: "ys = y # ys'"
    then have "c # v = f y @ tail_text f c ys' @ w" using eq j [of y ys' w] by simp
    then show ?thesis using ne assms(2) ys by auto
  next
    fix x xs' assume "ys = []" and xs: "xs = x # xs'"
    then have "c # w = f x @ tail_text f c xs' @ v" using eq j [of x xs' v] by simp
    then show ?thesis using ne assms(1) xs by auto
  next
    fix x xs' y ys' assume xs: "xs = x # xs'" and ys: "ys = y # ys'"
    have "f x @ tail_text f c xs' @ v = f y @ tail_text f c ys' @ w" using eq unfolding xs ys j .
    then have "x = y \<and> tail_text f c xs' @ v = tail_text f c ys' @ w"
      using assms(1,2) tail_delimited [OF c] by (intro element_splitsD [of f ok]) (simp_all add: xs ys)
    then show ?thesis using tail_split [of xs' f ok ys' c v w] assms(1,2) c xs ys by simp
  qed (use eq in simp)
qed

section \<open>Injectivity\<close>

lemma splits_element: "splits v \<longleftrightarrow> element_splits json_text json v"
  by (simp add: splits_def element_splits_def)

abbreviation item_text :: "string \<times> pyval \<Rightarrow> string" where
  "item_text \<equiv> \<lambda>(k, v). json_string False k @ '':'' @ json_text v"

lemma splits_item:
  assumes "splits v"
  shows "element_splits item_text (\<lambda>(k, v). json v) (k, v)"
  unfolding element_splits_def
proof (intro allI impI)
  fix y s t assume y: "case y of (k, v) \<Rightarrow> json v" "delimited s" "delimited t" "item_text (k, v) @ s = item_text y @ t"
  obtain k' v' where [simp]: "y = (k', v')" by (cases y)
  have "json_string False k @ '':'' @ json_text v @ s = json_string False k' @ '':'' @ json_text v' @ t" using y(4) by simp
  from json_string_inj [OF this] have "k = k'" "json_text v @ s = json_text v' @ t" by simp_all
  then show "(k, v) = y \<and> s = t" using assms y(1-3) by (auto simp: splits_def)
qed

lemma same_shape:
  assumes "json v" "json w" "json_text v @ s = json_text w @ t"
  shows "v = PNone \<Longrightarrow> w = PNone" and "v = PBool b \<Longrightarrow> w = PBool b" and "v = PInt i \<Longrightarrow> \<exists>j. w = PInt j"
    and "v = PStr x \<Longrightarrow> \<exists>y. w = PStr y" and "v = PList vs \<Longrightarrow> \<exists>ws. w = PList ws" and "v = PDict d \<Longrightarrow> \<exists>e. w = PDict e"
  using same_lead [OF assms] assms(2) by (cases w; auto simp: lead_def split: if_splits)+

lemma splitsI:
  assumes "\<And>w s t. json w \<Longrightarrow> delimited s \<Longrightarrow> delimited t \<Longrightarrow> json_text v @ s = json_text w @ t \<Longrightarrow> v = w \<and> s = t"
  shows "splits v"
  using assms unfolding splits_def by blast

lemma splits_PList:
  assumes "\<And>x. x \<in> set vs \<Longrightarrow> splits x" and j: "json (PList vs)"
  shows "splits (PList vs)"
proof (rule splitsI)
  fix w s t assume w: "json w" "delimited s" "delimited t" "json_text (PList vs) @ s = json_text w @ t"
  then obtain ws where ws [simp]: "w = PList ws" using same_shape(5) [OF j w(1,4)] by blast
  have hd: "json_text x \<noteq> [] \<and> hd (json_text x) \<noteq> CHR '']''" if "json x" for x
    using json_text_lead [OF that] that show_int_hd by (cases x) (auto simp: json_string_def)
  have "vs = ws \<and> s = t"
  proof (rule join_split [of vs json_text json "CHR '']''" ws])
    show "\<forall>x\<in>set vs. element_splits json_text json x \<and> json_text x \<noteq> [] \<and> hd (json_text x) \<noteq> CHR '']''"
      using assms hd by (auto simp: list_all_iff splits_element)
    show "\<forall>y\<in>set ws. json y \<and> json_text y \<noteq> [] \<and> hd (json_text y) \<noteq> CHR '']''" using w(1) hd by (auto simp: list_all_iff)
  qed (use w(4) in simp_all)
  then show "PList vs = w \<and> s = t" by simp
qed

lemma splits_PDict:
  assumes "\<And>k v. (k, v) \<in> set d \<Longrightarrow> splits v" and j: "json (PDict d)"
  shows "splits (PDict d)"
proof (rule splitsI)
  fix w s t assume w: "json w" "delimited s" "delimited t" "json_text (PDict d) @ s = json_text w @ t"
  then obtain e where e [simp]: "w = PDict e" using same_shape(6) [OF j w(1,4)] by blast
  have hd: "item_text x \<noteq> [] \<and> hd (item_text x) \<noteq> CHR ''}''" for x by (cases x) (simp add: json_string_def)
  have "d = e \<and> s = t"
  proof (rule join_split [of d item_text "\<lambda>(k, v). json v" "CHR ''}''" e])
    show "\<forall>x\<in>set d. element_splits item_text (\<lambda>(k, v). json v) x \<and> item_text x \<noteq> [] \<and> hd (item_text x) \<noteq> CHR ''}''"
    proof
      fix x assume "x \<in> set d"
      then have "splits (snd x)" using assms(1) [of "fst x" "snd x"] by simp
      from splits_item [OF this, of "fst x"] hd
      show "element_splits item_text (\<lambda>(k, v). json v) x \<and> item_text x \<noteq> [] \<and> hd (item_text x) \<noteq> CHR ''}''" by simp
    qed
    show "\<forall>y\<in>set e. (case y of (k, v) \<Rightarrow> json v) \<and> item_text y \<noteq> [] \<and> hd (item_text y) \<noteq> CHR ''}''"
      using w(1) hd by (auto simp: list_all_iff)
  qed (use w(4) in simp_all)
  then show "PDict d = w \<and> s = t" by simp
qed

lemma json_splits: "json v \<Longrightarrow> splits v"
proof (induction v)
  case (PList vs)
  then show ?case by (intro splits_PList) (auto simp: list_all_iff)
next
  case (PDict d)
  then have "splits v" if "(k, v) \<in> set d" for k v using that by (fastforce simp: list_all_iff)
  then show ?case using PDict.prems by (rule splits_PDict)
next
  case (PInt i)
  then show ?case using same_shape(3) [OF PInt] delimited_end show_int_split by (intro splitsI) fastforce
next
  case (PStr x)
  show ?case
  proof (rule splitsI)
    fix w s t assume w: "json w" "delimited s" "delimited t" "json_text (PStr x) @ s = json_text w @ t"
    then obtain y where "w = PStr y" using same_shape(4) [OF PStr w(1,4)] by blast
    then show "PStr x = w \<and> s = t" using json_string_inj [of False x s y t] w(4) by simp
  qed
next
  case PNone
  then show ?case using same_shape(1) [OF PNone] by (intro splitsI) fastforce
next
  case (PBool b)
  then show ?case using same_shape(2) [OF PBool] by (intro splitsI) fastforce
qed simp_all

lemma json_text_inj: "json v \<Longrightarrow> json w \<Longrightarrow> json_text v = json_text w \<Longrightarrow> v = w"
  using json_splits [of v] unfolding splits_def by (metis append_Nil2 delimited_def)

section \<open>Normalised payloads\<close>

lemma too_deep_Inr [simp]: "too_deep n r = Inr x \<longleftrightarrow> n \<le> 16 \<and> r = Inr x"
  by (auto simp: too_deep_def)

lemma normalize_json:
  "normalize_payload depth p = Inr n \<Longrightarrow> json n"
  "normalize_items depth d = Inr e \<Longrightarrow> list_all (\<lambda>(k, v). json v) e"
  "normalize_list depth vs = Inr ws \<Longrightarrow> list_all json ws"
proof (induction depth p and depth d and depth vs arbitrary: n and e and ws rule: normalize_payload_normalize_items_normalize_list.induct)
  case (1 depth v)
  then show ?case by (cases v) (auto split: if_splits option.splits elim!: bind_resE)
qed (auto elim!: bind_resE)

lemma sort_keys_json: "json v \<Longrightarrow> json (sort_keys v)"
  by (induction v rule: sort_keys.induct) (auto simp: list_all_iff)

lemma canonical_printed:
  "canonical_payload sha q = Inr (x, y) \<Longrightarrow> \<exists>n. normalize_payload 0 q = Inr n \<and> x = json_text (sort_keys n) \<and> y = sha x"
  by (auto simp: canonical_payload_def Let_def split: payload.splits if_splits simp del: normalize_payload.simps)

text \<open>
  C34: the canonical text of a source payload. Two accepted payloads have the same text exactly
  when they normalise to the same value up to the order of the keys in their mappings, and
  then they have the same digest. Nothing else is lost.
\<close>

theorem canonical_text_exact:
  assumes "canonical_payload sha p = Inr (text, digest)" and "canonical_payload sha p' = Inr (text', digest')"
  shows "\<exists>n n'. normalize_payload 0 p = Inr n \<and> normalize_payload 0 p' = Inr n' \<and>
    (text = text' \<longleftrightarrow> sort_keys n = sort_keys n') \<and> (text = text' \<longrightarrow> digest = digest')"
proof -
  obtain n where n: "normalize_payload 0 p = Inr n" "text = json_text (sort_keys n)" "digest = sha text"
    using canonical_printed [OF assms(1)] by blast
  obtain n' where n': "normalize_payload 0 p' = Inr n'" "text' = json_text (sort_keys n')" "digest' = sha text'"
    using canonical_printed [OF assms(2)] by blast
  have "text = text' \<longleftrightarrow> sort_keys n = sort_keys n'"
    using json_text_inj [OF sort_keys_json [OF normalize_json(1) [OF n(1)]] sort_keys_json [OF normalize_json(1) [OF n'(1)]]] n(2) n'(2) by auto
  then show ?thesis using n n' by blast
qed

theorem canonical_text_exact_witness:
  "\<exists>n n'. normalize_payload 0 (JDict [(''b'', JInt 1), (''a'', JDecimal (Dec False 150 (- 2)))]) = Inr n \<and>
     normalize_payload 0 (JDict [(''a'', JText ''1.5''), (''b'', JInt 1)]) = Inr n' \<and> sort_keys n = sort_keys n'"
proof -
  let ?p = "JDict [(''b'', JInt 1), (''a'', JDecimal (Dec False 150 (- 2)))]" and ?p' = "JDict [(''a'', JText ''1.5''), (''b'', JInt 1)]"
  define t where "t = json_text (sort_keys (PDict [(''a'', PStr ''1.5''), (''b'', PInt 1)]))"
  have "show_nat 150 = ''150''" by code_simp
  then have d: "decimal_text (Dec False 150 (- 2)) = Inr ''1.5''"
    by (simp add: decimal_text_def fixed_text_def rstrip_char_def)
  have n: "normalize_payload 0 ?p = Inr (PDict [(''b'', PInt 1), (''a'', PStr ''1.5'')])"
    "normalize_payload 0 ?p' = Inr (PDict [(''a'', PStr ''1.5''), (''b'', PInt 1)])"
    by (simp_all add: too_deep_def normal_text_def d)
  have "json_text (sort_keys (PDict [(''b'', PInt 1), (''a'', PStr ''1.5'')])) = t" unfolding t_def by code_simp
  moreover have "length t = 17" unfolding t_def by code_simp
  ultimately have "canonical_payload id ?p = Inr (t, t)" "canonical_payload id ?p' = Inr (t, t)"
    unfolding canonical_payload_def payload.case n bind_res_Inr Let_def t_def [symmetric] by simp_all
  from canonical_text_exact [OF this] show ?thesis by blast
qed

end
