(* ===== verification/Refresh_Check.thy ===== *)
theory Refresh_Check
  imports Refresh_Facts
begin

text \<open>
  The properties of the refresh schedule: its daily times, when a schedule is accepted, and the
  removal of the rules of the removed kind.
\<close>

section \<open>The daily times\<close>

lemma shape_rows:
  assumes "valid_shape stored (PDict d)"
  shows "r \<in> set (rows_of d ''rules'') \<Longrightarrow> rule_ok (if stored then [''full'', ''quick''] else [''full'']) (PDict r)"
    and "s \<in> set (rows_of d ''skips'') \<Longrightarrow> skip_ok (PDict s)"
    and "dget_none d ''rules'' = PList (map PDict (rows_of d ''rules''))"
    and "dget_none d ''skips'' = PList (map PDict (rows_of d ''skips''))"
proof -
  have r: "list_ok (if stored then MAX_DAILY_TIMES else MAX_RULES) (rule_ok (if stored then [''full'', ''quick''] else [''full''])) (dget_none d ''rules'')"
    and s: "list_ok (if stored then MAX_DAILY_TIMES else MAX_SKIPS) skip_ok (dget_none d ''skips'')"
    using assms unfolding valid_shape_def by simp_all
  have rd: "\<exists>r. v = PDict r" if "rule_ok (if stored then [''full'', ''quick''] else [''full'']) v" for v using that by (auto simp: rule_ok_def split: pyval.splits)
  have sd: "\<exists>r. v = PDict r" if "skip_ok v" for v using that by (auto simp: skip_ok_def split: pyval.splits)
  show "r \<in> set (rows_of d ''rules'') \<Longrightarrow> rule_ok (if stored then [''full'', ''quick''] else [''full'']) (PDict r)"
    using rows_of_ok(1) [OF r rd] by blast
  show "s \<in> set (rows_of d ''skips'') \<Longrightarrow> skip_ok (PDict s)" using rows_of_ok(1) [OF s sd] by blast
  show "dget_none d ''rules'' = PList (map PDict (rows_of d ''rules''))" using rows_of_ok(2) [OF r rd] by blast
  show "dget_none d ''skips'' = PList (map PDict (rows_of d ''skips''))" using rows_of_ok(2) [OF s sd] by blast
qed

lemma times_of_kind_gives:
  assumes "valid_shape True (PDict d)"
  shows "v \<in> times_of_kind (rows_of d ''rules'') kind \<longleftrightarrow>
           (\<exists>r\<in>set (rows_of d ''rules''). row_text r ''kind'' = kind \<and> rule_gives r v)"
    and "v \<in> times_of_kind (rows_of d ''rules'') kind \<Longrightarrow> v < DAY"
  using rule_times_gives [OF shape_rows(1) [OF assms]] by (auto simp: times_of_kind_eq)

lemma enumerate_map: "enumerate 0 xs = map (\<lambda>i. (i, xs ! i)) [0..<length xs]"
  by (rule nth_equalityI) (simp_all add: nth_enumerate_eq)

definition kept_times :: "mapping_value \<Rightarrow> nat set" where
  "kept_times d =
     {v \<in> times_of_kind (rows_of d ''rules'') ''full''. \<not> (\<exists>s\<in>set (rows_of d ''skips''). skip_matches s v)}"

lemma kept_times_facts [simp]: "finite (kept_times d)"
  by (simp add: kept_times_def)

lemma daily_times_eq:
  assumes "valid_shape True (PDict d)"
  shows "daily_times (PDict d) = Inr
    \<lparr>full = map clock (sorted_list_of_set (kept_times d)),
     unmatched_skips = filter (\<lambda>i. \<not> (\<exists>v\<in>times_of_kind (rows_of d ''rules'') ''full''. skip_matches (rows_of d ''skips'' ! i) v)) [0..<length (rows_of d ''skips'')]\<rparr>"
proof -
  let ?G = "times_of_kind (rows_of d ''rules'') ''full''" and ?S = "rows_of d ''skips''"
  have "?G - {v \<in> ?G. \<exists>s \<in> snd ` set (enumerate 0 ?S). skip_matches s v} = kept_times d"
  proof -
    have "snd ` set (enumerate 0 ?S) = set ?S" by (metis map_snd_enumerate set_map)
    then show ?thesis by (auto simp: kept_times_def)
  qed
  moreover have "map fst (filter (\<lambda>(i, s). \<not> (\<exists>v \<in> ?G. skip_matches s v)) (enumerate 0 ?S)) =
      filter (\<lambda>i. \<not> (\<exists>v\<in>?G. skip_matches (?S ! i) v)) [0..<length ?S]"
    by (simp add: enumerate_map filter_map comp_def)
  ultimately show ?thesis using assms by (simp add: daily_times_def apply_skips Let_def)
qed

lemma kept_less: "valid_shape True (PDict d) \<Longrightarrow> v \<in> kept_times d \<Longrightarrow> v < DAY"
  by (auto simp: kept_times_def dest: times_of_kind_gives(2))

lemma minutes_full:
  assumes "valid_shape True (PDict d)" and "daily_times (PDict d) = Inr r"
  shows "map minutes (full r) = sorted_list_of_set (kept_times d)" and "list_all hhmm_text (full r)"
proof -
  have "full r = map clock (sorted_list_of_set (kept_times d))" using assms daily_times_eq by fastforce
  then show "map minutes (full r) = sorted_list_of_set (kept_times d)" "list_all hhmm_text (full r)"
    using kept_less [OF assms(1)] by (auto simp: list_all_iff hhmm_clock intro: map_idI)
qed

text \<open>
  The daily times of a stored schedule. Every document of the closed shape gives times; they are
  canonical wall times in increasing order, each once, and a minute of the day is among them exactly
  when a full rule gives it and no skip removes it. A skip is reported exactly when
  it matches none of the times the full rules give.
\<close>

theorem daily_times_correct:
  assumes "valid_shape True (PDict d)"
  shows "\<exists>r. daily_times (PDict d) = Inr r \<and> list_all hhmm_text (full r) \<and> sorted_wrt (<) (map minutes (full r)) \<and>
    (\<forall>v. v \<in> minutes ` set (full r) \<longleftrightarrow>
       (\<exists>rule\<in>set (rows_of d ''rules''). row_text rule ''kind'' = ''full'' \<and> rule_gives rule v) \<and>
       \<not> (\<exists>s\<in>set (rows_of d ''skips''). skip_matches s v)) \<and>
    (\<forall>i. i \<in> set (unmatched_skips r) \<longleftrightarrow>
       i < length (rows_of d ''skips'') \<and>
       \<not> (\<exists>rule\<in>set (rows_of d ''rules''). row_text rule ''kind'' = ''full'' \<and> (\<exists>v. rule_gives rule v \<and> skip_matches (rows_of d ''skips'' ! i) v)))"
proof -
  obtain r where r: "daily_times (PDict d) = Inr r" using daily_times_eq [OF assms] by blast
  note m = minutes_full [OF assms r]
  have "minutes ` set (full r) = kept_times d" using arg_cong [OF m(1), of set] by simp
  moreover have "unmatched_skips r = filter (\<lambda>i. \<not> (\<exists>v\<in>times_of_kind (rows_of d ''rules'') ''full''. skip_matches (rows_of d ''skips'' ! i) v)) [0..<length (rows_of d ''skips'')]"
    using r daily_times_eq [OF assms] by auto
  moreover have "sorted_wrt (<) (map minutes (full r))" unfolding m(1) by (rule strict_sorted_list_of_set)
  ultimately show ?thesis using r m(2)
    by (intro exI [of _ r]) (auto simp: kept_times_def times_of_kind_gives(1) [OF assms])
qed

section \<open>Distances around the clock\<close>

definition clock_distance :: "nat \<Rightarrow> nat \<Rightarrow> nat" where
  "clock_distance a b = (let g = (if a \<le> b then b - a else a - b) in min g (DAY - g))"

lemma zip_tl_successively:
  "(\<forall>(a, b) \<in> set (zip xs (tl xs)). P a b) \<longleftrightarrow> successively P xs"
  by (induction P xs rule: successively.induct) auto

lemma spaced_pairs:
  assumes "sorted_wrt (<) vs" and "length vs > 1"
  shows "(\<forall>(a, b) \<in> set (zip vs (tl vs) @ [(last vs, hd vs + DAY)]). SPACING \<le> b - a) \<longleftrightarrow>
    sorted_wrt (\<lambda>a b. a + SPACING \<le> b) vs \<and> SPACING \<le> hd vs + DAY - last vs"
proof -
  have "successively (\<lambda>a b. SPACING \<le> b - a) vs \<longleftrightarrow> successively (\<lambda>a b. a + SPACING \<le> b) vs"
  proof -
    have "SPACING \<le> b - a \<longleftrightarrow> a + SPACING \<le> b" if "a < b" for a b using that by (simp add: le_diff_conv2 add.commute)
    then show ?thesis using successively_if_sorted_wrt [OF assms(1)] by (simp add: successively_conv_nth)
  qed
  also have "\<dots> \<longleftrightarrow> sorted_wrt (\<lambda>a b. a + SPACING \<le> b) vs"
    by (rule successively_conv_sorted_wrt) (auto simp: transp_def)
  finally show ?thesis using zip_tl_successively [of vs "\<lambda>a b. SPACING \<le> b - a"] by auto
qed

lemma sorted_ends:
  assumes "sorted_wrt (<) (vs :: nat list)" and "v \<in> set vs"
  shows "hd vs \<le> v" and "v \<le> last vs"
proof -
  have s: "sorted vs" using assms(1) strict_sorted_iff by blast
  obtain i where i: "i < length vs" "v = vs ! i" using assms(2) by (auto simp: in_set_conv_nth)
  then have "vs \<noteq> []" by auto
  then show "hd vs \<le> v" "v \<le> last vs"
    using i sorted_nth_mono [OF s, of 0 i] sorted_nth_mono [OF s, of i "length vs - 1"]
    by (simp_all add: hd_conv_nth last_conv_nth)
qed

lemma spaced_distances:
  assumes vs: "sorted_wrt (<) vs" "\<forall>v\<in>set vs. v < DAY" "length vs > 1"
  shows "sorted_wrt (\<lambda>a b. a + SPACING \<le> b) vs \<and> SPACING \<le> hd vs + DAY - last vs \<longleftrightarrow>
    (\<forall>a\<in>set vs. \<forall>b\<in>set vs. a \<noteq> b \<longrightarrow> SPACING \<le> clock_distance a b)"
proof
  assume sp: "sorted_wrt (\<lambda>a b. a + SPACING \<le> b) vs \<and> SPACING \<le> hd vs + DAY - last vs"
  show "\<forall>a\<in>set vs. \<forall>b\<in>set vs. a \<noteq> b \<longrightarrow> SPACING \<le> clock_distance a b"
  proof (intro ballI impI)
    fix a b assume ab: "a \<in> set vs" "b \<in> set vs" "a \<noteq> b"
    have "a + SPACING \<le> b \<or> b + SPACING \<le> a"
      using ab sp unfolding sorted_wrt_iff_nth_less in_set_conv_nth by (metis linorder_neq_iff)
    then show "SPACING \<le> clock_distance a b"
      using sp sorted_ends [OF vs(1) ab(1)] sorted_ends [OF vs(1) ab(2)] by (auto simp: clock_distance_def Let_def)
  qed
next
  assume d: "\<forall>a\<in>set vs. \<forall>b\<in>set vs. a \<noteq> b \<longrightarrow> SPACING \<le> clock_distance a b"
  have "a + SPACING \<le> b" if "a \<in> set vs" "b \<in> set vs" "a < b" for a b
    using d that by (force simp: clock_distance_def Let_def)
  then have "sorted_wrt (\<lambda>a b. a + SPACING \<le> b) vs" using vs(1) by (auto intro: sorted_wrt_mono_rel)
  moreover have ends: "hd vs \<in> set vs" "last vs \<in> set vs" "hd vs < last vs"
    using vs(1,3) by (cases vs; auto)+
  then have "SPACING \<le> clock_distance (hd vs) (last vs)" using d by auto
  then have "SPACING \<le> hd vs + DAY - last vs" using ends vs(2) by (auto simp: clock_distance_def Let_def)
  ultimately show "sorted_wrt (\<lambda>a b. a + SPACING \<le> b) vs \<and> SPACING \<le> hd vs + DAY - last vs" by simp
qed

lemma spacing_conflicts_iff:
  assumes "sorted_wrt (<) (map minutes ts)" and "list_all hhmm_text ts"
  shows "spacing_conflicts ts = [] \<longleftrightarrow>
    (\<forall>a\<in>set ts. \<forall>b\<in>set ts. a \<noteq> b \<longrightarrow> SPACING \<le> clock_distance (minutes a) (minutes b))"
proof -
  let ?vs = "map minutes ts"
  have vs: "sorted_list_of_set (set ?vs) = ?vs" using assms(1) by (metis sorted_list_of_set.idem_if_sorted_distinct strict_sorted_iff)
  have less: "\<forall>v\<in>set ?vs. v < DAY" using assms(2) by (auto simp: list_all_iff minutes_less)
  have inj: "minutes a = minutes b \<longleftrightarrow> a = b" if "a \<in> set ts" "b \<in> set ts" for a b
    using that assms(2) by (metis clock_minutes list_all_iff)
  have "spacing_conflicts ts = [] \<longleftrightarrow> (\<forall>(a, b) \<in> set (zip ?vs (tl ?vs) @ (if length ?vs > 1 then [(last ?vs, hd ?vs + DAY)] else [])). SPACING \<le> b - a)"
    unfolding spacing_conflicts_def vs Let_def by (simp only: map_is_Nil_conv filter_empty_conv split_def not_less)
  also have "\<dots> \<longleftrightarrow> (\<forall>a\<in>set ?vs. \<forall>b\<in>set ?vs. a \<noteq> b \<longrightarrow> SPACING \<le> clock_distance a b)"
  proof (cases "length ?vs > 1")
    case True
    then show ?thesis using spaced_pairs [OF assms(1) True] spaced_distances [OF assms(1) less True] by simp
  next
    case False
    then have "ts = [] \<or> (\<exists>t. ts = [t])" by (cases ts) auto
    then show ?thesis by auto
  qed
  also have "\<dots> \<longleftrightarrow> (\<forall>a\<in>set ts. \<forall>b\<in>set ts. a \<noteq> b \<longrightarrow> SPACING \<le> clock_distance (minutes a) (minutes b))"
    using inj by auto
  finally show ?thesis .
qed

lemma spaced_count:
  assumes "sorted_wrt (\<lambda>a b. a + SPACING \<le> b) vs" and "vs \<noteq> []"
  shows "hd vs + SPACING * (length vs - 1) \<le> last vs"
  using assms
proof (induction vs rule: induct_list012)
  case (3 x y zs)
  then have "y + SPACING * (length (y # zs) - 1) \<le> last (y # zs)" by simp
  moreover have "x + SPACING \<le> y" using 3 by simp
  ultimately show ?case by simp
qed simp_all

text \<open>As many times as fit fifteen minutes apart is the limit on their number.\<close>

lemma spacing_bounds_number:
  assumes "sorted_wrt (<) (map minutes ts)" and "list_all hhmm_text ts" and "spacing_conflicts ts = []"
  shows "length ts \<le> MAX_DAILY_TIMES"
proof (cases "length ts > 1")
  case True
  let ?vs = "map minutes ts"
  have less: "\<forall>v\<in>set ?vs. v < DAY" using assms(2) by (auto simp: list_all_iff minutes_less)
  have "\<forall>a\<in>set ?vs. \<forall>b\<in>set ?vs. a \<noteq> b \<longrightarrow> SPACING \<le> clock_distance a b"
    using assms spacing_conflicts_iff by auto
  then have sp: "sorted_wrt (\<lambda>a b. a + SPACING \<le> b) ?vs" "SPACING \<le> hd ?vs + DAY - last ?vs"
    using spaced_distances [OF assms(1) less] True by auto
  have "last ?vs \<in> set ?vs" using True by (intro last_in_set) auto
  then have "last ?vs < DAY" using less by blast
  moreover have "hd ?vs + SPACING * (length ts - 1) \<le> last ?vs" using spaced_count [OF sp(1)] True by (cases ts) auto
  ultimately have "SPACING * (length ts - 1) + SPACING \<le> DAY" using sp(2) by linarith
  then show ?thesis by (simp add: SPACING_def DAY_def MAX_DAILY_TIMES_def)
qed (simp add: MAX_DAILY_TIMES_def)

text \<open>
  C31: when a schedule can be saved. The check accepts exactly the schedules with at least one time, any two of
  whose times are fifteen minutes apart around the clock, on the quarter hour unless kept, without
  a skip that matches nothing, and stored with the lists the rules give. The limit
  of ninety-six times is implied.
\<close>

theorem check_schedule_accepts:
  assumes "daily_times (dget_none settings ''refresh_rules'') = Inr r"
  shows "check_schedule settings kept = Inr [] \<longleftrightarrow>
    full r \<noteq> [] \<and>
    (\<forall>a\<in>set (full r). \<forall>b\<in>set (full r). a \<noteq> b \<longrightarrow> SPACING \<le> clock_distance (minutes a) (minutes b)) \<and>
    (\<forall>t\<in>set (full r). SPACING dvd minutes t \<or> t \<in> kept) \<and>
    unmatched_skips r = [] \<and>
    row_eq (stored_part settings)
      [(''full_refresh'', PStr ''daily''), (''nightly_time'', PStr (hd (full r))),
       (''full_refresh_times'', PList (map PStr (full r))), (''delta_refresh'', PStr ''off'')]"
proof -
  let ?rules = "dget_none settings ''refresh_rules''"
  obtain d where d: "?rules = PDict d" "valid_shape True (PDict d)"
    using assms by (auto simp: daily_times_def split: if_splits pyval.splits)
  have r: "daily_times (PDict d) = Inr r" using assms d(1) by simp
  have srt: "sorted_wrt (<) (map minutes (full r))" unfolding minutes_full(1) [OF d(2) r] by (rule strict_sorted_list_of_set)
  note spacing = spacing_conflicts_iff [OF srt minutes_full(2) [OF d(2) r]]
  note number = spacing_bounds_number [OF srt minutes_full(2) [OF d(2) r]]
  show ?thesis
  proof (cases "full r")
    case Nil
    then show ?thesis using r d(1) by (simp add: check_schedule_def)
  next
    case (Cons t ts)
    let ?st = "[(''full_refresh'', PStr ''daily''), (''nightly_time'', PStr (hd (full r))),
        (''full_refresh_times'', PList (map PStr (full r))), (''delta_refresh'', PStr ''off'')]"
    have st: "stored_settings ?rules = Inr (?st @ [(''refresh_rules'', ?rules)])"
      using Cons r d(1) by (simp add: stored_settings_def)
    have part: "stored_part (?st @ [(''refresh_rules'', ?rules)]) = ?st" by (simp add: stored_part_def STORED_def)
    have "full r \<noteq> []" using Cons by simp
    then have "check_schedule settings kept = Inr [] \<longleftrightarrow>
        length (full r) \<le> MAX_DAILY_TIMES \<and> spacing_conflicts (full r) = [] \<and>
        filter (\<lambda>t. minutes t mod SPACING \<noteq> 0 \<and> t \<notin> kept) (full r) = [] \<and>
        unmatched_skips r = [] \<and> row_eq (stored_part settings) ?st"
      unfolding check_schedule_def Let_def assms st bind_res_Inr part by (simp only: if_False bind_res_Inr part) (simp del: py_eq.simps)
    then show ?thesis unfolding spacing [symmetric] using number \<open>full r \<noteq> []\<close>
      by (auto simp only: filter_empty_conv mod_eq_0_iff_dvd)
  qed
qed

theorem daily_times_correct_witness:
  "\<exists>r. daily_times (PDict [(''rules'', PList [PDict [(''kind'', PStr ''full''), (''every'', PInt 360), (''from'', PStr ''02:00''), (''to'', PStr ''20:00'')]]),
     (''skips'', PList [PDict [(''at'', PStr ''08:00'')]]), (''skip_around_family_emails'', PBool True)]) = Inr r \<and>
     840 \<in> minutes ` set (full r) \<and> 480 \<notin> minutes ` set (full r)"
proof -
  let ?rule = "[(''kind'', PStr ''full''), (''every'', PInt 360), (''from'', PStr ''02:00''), (''to'', PStr ''20:00'')]"
  let ?d = "[(''rules'', PList [PDict ?rule]), (''skips'', PList [PDict [(''at'', PStr ''08:00'')]]), (''skip_around_family_emails'', PBool True)]"
  have v: "valid_shape True (PDict ?d)" by code_simp
  have rows: "rows_of ?d ''rules'' = [?rule]" "rows_of ?d ''skips'' = [[(''at'', PStr ''08:00'')]]" by code_simp+
  have gives: "row_text ?rule ''kind'' = ''full''" "rule_gives ?rule 840" "\<not> skip_matches [(''at'', PStr ''08:00'')] 840"
    "skip_matches [(''at'', PStr ''08:00'')] 480" by code_simp+
  from daily_times_correct [OF v] obtain r where r: "daily_times (PDict ?d) = Inr r"
    "\<forall>v. v \<in> minutes ` set (full r) \<longleftrightarrow> (\<exists>rule\<in>set (rows_of ?d ''rules''). row_text rule ''kind'' = ''full'' \<and> rule_gives rule v) \<and>
       \<not> (\<exists>s\<in>set (rows_of ?d ''skips''). skip_matches s v)" by blast
  show ?thesis
  proof (intro exI [of _ r] conjI)
    show "840 \<in> minutes ` set (full r)" "480 \<notin> minutes ` set (full r)"
      unfolding r(2) [rule_format] rows using gives by simp_all
  qed (rule r(1))
qed

theorem check_schedule_accepts_witness:
  "\<exists>d. check_schedule [(''refresh_rules'', PDict d), (''full_refresh'', PStr ''daily''), (''nightly_time'', PStr ''02:00''),
     (''full_refresh_times'', PList [PStr ''02:00'', PStr ''14:10'']), (''delta_refresh'', PStr ''off'')] {''14:10''} = Inr []"
proof -
  let ?d = "[(''rules'', PList [PDict [(''kind'', PStr ''full''), (''at'', PStr ''14:10'')], PDict [(''kind'', PStr ''full''), (''at'', PStr ''02:00'')]]),
     (''skips'', PList []), (''skip_around_family_emails'', PBool False)]"
  let ?s = "[(''refresh_rules'', PDict ?d), (''full_refresh'', PStr ''daily''), (''nightly_time'', PStr ''02:00''),
     (''full_refresh_times'', PList [PStr ''02:00'', PStr ''14:10'']), (''delta_refresh'', PStr ''off'')]"
  let ?r = "\<lparr>full = [''02:00'', ''14:10''], unmatched_skips = []\<rparr>"
  have r: "daily_times (dget_none ?s ''refresh_rules'') = Inr ?r" by code_simp
  have "SPACING \<le> clock_distance (minutes ''02:00'') (minutes ''14:10'') \<and> SPACING \<le> clock_distance (minutes ''14:10'') (minutes ''02:00'') \<and>
      minutes ''02:00'' mod SPACING = 0" by code_simp
  moreover have "row_eq (stored_part ?s) [(''full_refresh'', PStr ''daily''), (''nightly_time'', PStr ''02:00''),
       (''full_refresh_times'', PList (map PStr [''02:00'', ''14:10''])), (''delta_refresh'', PStr ''off'')]" by code_simp
  ultimately have "check_schedule ?s {''14:10''} = Inr []"
    using check_schedule_accepts [OF r, of "{''14:10''}"] by (simp add: mod_eq_0_iff_dvd del: py_eq.simps)
  then show ?thesis by blast
qed

section \<open>Rules of the removed kind\<close>

lemma map_filter_dicts: "List.map_filter dict_value (map PDict rows) = rows"
  by (induction rows) (simp_all add: List.map_filter_simps)

lemma rows_of_map: "dget_none d k = PList (map PDict rows) \<Longrightarrow> rows_of d k = rows"
  by (simp add: rows_of_def map_filter_dicts)

lemma dget_update: "dget_none (AList.update k v d) k' = (if k' = k then v else dget_none d k')"
  by (simp add: dget_def update_conv')

lemma keys_update: "has_keys d ks \<Longrightarrow> k \<in> set ks \<Longrightarrow> has_keys (AList.update k v d) ks"
  by (auto simp: has_keys_def update_keys)

abbreviation is_full :: "mapping_value \<Rightarrow> bool" where
  "is_full r \<equiv> row_text r ''kind'' = ''full''"

definition skip_stays :: "mapping_value \<Rightarrow> mapping_value \<Rightarrow> bool" where
  "skip_stays d s \<longleftrightarrow>
     (\<exists>v\<in>times_of_kind (rows_of d ''rules'') ''full''. skip_matches s v) \<or>
     \<not> (\<exists>v\<in>times_of_kind (rows_of d ''rules'') ''quick''. skip_matches s v)"

lemma full_rules_rows:
  "rows_of (full_rules d) ''rules'' = filter is_full (rows_of d ''rules'')"
  "rows_of (full_rules d) ''skips'' = filter (skip_stays d) (rows_of d ''skips'')"
proof -
  let ?r = "rows_of d ''rules''"
  have none: "times_of_kind ?r ''quick'' = {}" if "list_all is_full ?r" using that by (auto simp: times_of_kind_eq list_all_iff)
  show "rows_of (full_rules d) ''rules'' = filter is_full ?r"
    by (auto simp: full_rules_def Let_def list_all_iff dget_update intro!: rows_of_map [symmetric] rows_of_map filter_True [symmetric])
  show "rows_of (full_rules d) ''skips'' = filter (skip_stays d) (rows_of d ''skips'')"
  proof (cases "list_all is_full ?r")
    case True
    then show ?thesis using none by (simp add: full_rules_def Let_def skip_stays_def [abs_def])
  next
    case False
    then show ?thesis by (simp add: full_rules_def Let_def dget_update rows_of_map skip_stays_def [abs_def])
  qed
qed

lemma list_ok_filter:
  assumes "list_ok most ok (PList (map PDict rows))"
  shows "list_ok most ok (PList (map PDict (filter P rows)))"
  using assms order_trans [OF length_filter_le [of P rows], of most] by (auto simp: list_ok_def list_all_iff)

lemma full_rules_shape:
  assumes v: "valid_shape True (PDict d)" and "\<exists>r\<in>set (rows_of d ''rules''). is_full r"
  shows "valid_shape True (PDict (full_rules d))"
proof (cases "list_all is_full (rows_of d ''rules'')")
  case True
  then show ?thesis using v by (simp add: full_rules_def Let_def)
next
  case False
  have d: "has_keys d [''rules'', ''skips'', ''skip_around_family_emails'']"
    "list_ok MAX_DAILY_TIMES (rule_ok [''full'', ''quick'']) (PList (map PDict (rows_of d ''rules'')))"
    "list_ok MAX_DAILY_TIMES skip_ok (PList (map PDict (rows_of d ''skips'')))"
    "dget_none d ''skip_around_family_emails'' \<in> {PBool False, PBool True}"
    using v unfolding shape_rows(3,4) [OF v, symmetric] by (simp_all add: valid_shape_def)
  have "filter is_full (rows_of d ''rules'') \<noteq> []" using assms(2) by (auto simp: filter_empty_conv)
  then show ?thesis using False d(4) list_ok_filter [OF d(2)] list_ok_filter [OF d(3)]
    by (simp add: valid_shape_def full_rules_def Let_def dget_update keys_update d(1))
qed

lemma full_rules_times: "times_of_kind (filter is_full rs) ''full'' = times_of_kind rs ''full''"
  by (auto simp: times_of_kind_eq)

lemma full_rules_kept: "kept_times (full_rules d) = kept_times d"
proof -
  have "skip_stays d s" if "v \<in> times_of_kind (rows_of d ''rules'') ''full''" "skip_matches s v" for s v
    using that by (auto simp: skip_stays_def)
  then show ?thesis unfolding kept_times_def full_rules_rows full_rules_times by auto
qed

text \<open>
  A schedule saved with rules of the removed quick kind is shown and saved again without them. The
  daily times stay the same, the result has the closed shape and no further rule to drop,
  and a skip it reports as matching nothing matched no quick time either.
\<close>

theorem full_rules_keep_times:
  assumes "valid_shape True (PDict d)" and "\<exists>r\<in>set (rows_of d ''rules''). row_text r ''kind'' = ''full''"
  shows "\<exists>r r'. daily_times (PDict d) = Inr r \<and> daily_times (PDict (full_rules d)) = Inr r' \<and> full r' = full r \<and>
    full_rules (full_rules d) = full_rules d \<and>
    (\<forall>i\<in>set (unmatched_skips r'). \<forall>v\<in>times_of_kind (rows_of d ''rules'') ''quick''. \<not> skip_matches (rows_of (full_rules d) ''skips'' ! i) v)"
proof -
  let ?f = "full_rules d"
  obtain r where r: "daily_times (PDict d) = Inr r" using daily_times_eq [OF assms(1)] by blast
  note v' = full_rules_shape [OF assms]
  obtain r' where r': "daily_times (PDict ?f) = Inr r'" using daily_times_eq [OF v'] by blast
  have "full r' = full r" using r r' daily_times_eq [OF assms(1)] daily_times_eq [OF v'] full_rules_kept by auto
  moreover have "full_rules ?f = ?f" unfolding full_rules_def [of ?f] full_rules_rows by (simp add: list_all_iff)
  moreover have "\<not> skip_matches (rows_of ?f ''skips'' ! i) v"
    if i: "i \<in> set (unmatched_skips r')" and q: "v \<in> times_of_kind (rows_of d ''rules'') ''quick''" for i v
  proof -
    let ?s = "rows_of ?f ''skips'' ! i"
    have "i < length (rows_of ?f ''skips'')" and no: "\<not> (\<exists>v\<in>times_of_kind (rows_of d ''rules'') ''full''. skip_matches ?s v)"
      using i r' daily_times_eq [OF v'] full_rules_times [of "rows_of d ''rules''"] unfolding full_rules_rows(1) by auto
    then have "skip_stays d ?s" using nth_mem unfolding full_rules_rows(2) by fastforce
    then show ?thesis using no q by (auto simp: skip_stays_def)
  qed
  ultimately show ?thesis using r r' by blast
qed

theorem full_rules_keep_times_witness:
  "\<exists>r'. daily_times (PDict (full_rules [(''rules'', PList [PDict [(''kind'', PStr ''quick''), (''at'', PStr ''03:00'')], PDict [(''kind'', PStr ''full''), (''at'', PStr ''02:00'')]]),
     (''skips'', PList [PDict [(''at'', PStr ''03:00'')]]), (''skip_around_family_emails'', PBool False)])) = Inr r' \<and> full r' = [''02:00'']"
proof -
  let ?d = "[(''rules'', PList [PDict [(''kind'', PStr ''quick''), (''at'', PStr ''03:00'')], PDict [(''kind'', PStr ''full''), (''at'', PStr ''02:00'')]]),
     (''skips'', PList [PDict [(''at'', PStr ''03:00'')]]), (''skip_around_family_emails'', PBool False)]"
  have "valid_shape True (PDict ?d)" "list_ex (\<lambda>r. row_text r ''kind'' = ''full'') (rows_of ?d ''rules'')" by code_simp+
  moreover have "daily_times (PDict ?d) = Inr \<lparr>full = [''02:00''], unmatched_skips = [0]\<rparr>" by code_simp
  ultimately show ?thesis using full_rules_keep_times [of ?d] unfolding list_ex_iff by fastforce
qed

end
