(* ===== verification/Refresh_Slots.thy ===== *)
theory Refresh_Slots
  imports Cadence_Facts Canonical_Facts Refresh_Check
begin

text \<open>
  Slot identities, and the schedules stored before rules existed: shown as rules they keep their times.
\<close>

section \<open>Identities\<close>

definition slot_payload :: "string \<Rightarrow> string \<Rightarrow> string option \<Rightarrow> string \<Rightarrow> string \<Rightarrow> payload" where
  "slot_payload cause inst v timezone scope =
     JDict [(''schema'', JText ''source-refresh-slot-v1''), (''scope_fingerprint'', JText scope),
            (''timezone'', JText timezone), (''nightly_time'', case v of None \<Rightarrow> JNull | Some v \<Rightarrow> JText v),
            (''cause'', JText cause), (''due_at'', JText inst)]"

lemma slot_payload_normal:
  assumes "normalize_payload 0 (slot_payload cause inst v timezone scope) = Inr n"
  shows "n = PDict [(''schema'', PStr ''source-refresh-slot-v1''), (''scope_fingerprint'', PStr scope),
            (''timezone'', PStr timezone), (''nightly_time'', case v of None \<Rightarrow> PNone | Some v \<Rightarrow> PStr v),
            (''cause'', PStr cause), (''due_at'', PStr inst)]"
  using assms by (auto simp: slot_payload_def normal_text_def split: option.splits if_splits)

lemma refresh_slot_payload:
  "refresh_slot_of codes cause inst v timezone scope =
     bind_res (canonical_payload (sc_sha codes) (slot_payload cause (sc_iso codes inst) v timezone scope)) (\<lambda>(_, key).
       Inr \<lparr>rs_cause = cause, rs_due_at = inst, rs_slot_key = key, rs_command_id = sc_uuid5 codes key, rs_nightly_time = v\<rparr>)"
  by (simp add: refresh_slot_of_def slot_payload_def)

text \<open>
  The identity of a slot. Where the digest and the text of an instant are without collisions, slots with the
  same key agree in cause, instant, configured time, zone and source scope.
\<close>

theorem slot_identity:
  assumes "inj (sc_sha codes)" and "inj (sc_iso codes)"
    and s: "refresh_slot_of codes cause inst v timezone scope = Inr s" and s': "refresh_slot_of codes cause' inst' v' timezone' scope' = Inr s'"
    and key: "rs_slot_key s = rs_slot_key s'"
  shows "cause = cause' \<and> inst = inst' \<and> v = v' \<and> timezone = timezone' \<and> scope = scope' \<and> s = s'"
proof -
  let ?p = "slot_payload cause (sc_iso codes inst) v timezone scope" and ?p' = "slot_payload cause' (sc_iso codes inst') v' timezone' scope'"
  obtain x k where k: "canonical_payload (sc_sha codes) ?p = Inr (x, k)" "rs_slot_key s = k" using s by (auto simp: refresh_slot_payload)
  obtain x' k' where k': "canonical_payload (sc_sha codes) ?p' = Inr (x', k')" "rs_slot_key s' = k'" using s' by (auto simp: refresh_slot_payload)
  obtain n where n: "normalize_payload 0 ?p = Inr n" "x = json_text (sort_keys n)" "k = sc_sha codes x" using canonical_printed [OF k(1)] by blast
  obtain n' where n': "normalize_payload 0 ?p' = Inr n'" "x' = json_text (sort_keys n')" "k' = sc_sha codes x'" using canonical_printed [OF k'(1)] by blast
  have "x = x'" using key k(2) k'(2) n(3) n'(3) assms(1) by (simp add: inj_eq)
  then have "sort_keys n = sort_keys n'"
    using json_text_inj [OF sort_keys_json [OF normalize_json(1) [OF n(1)]] sort_keys_json [OF normalize_json(1) [OF n'(1)]]] n(2) n'(2) by simp
  then have same: "cause = cause'" "sc_iso codes inst = sc_iso codes inst'" "v = v'" "timezone = timezone'" "scope = scope'"
    unfolding slot_payload_normal [OF n(1)] slot_payload_normal [OF n'(1)]
    by (auto dest!: arg_cong [of _ _ set] split: option.splits)
  then have "inst = inst'" using assms(2) by (simp add: inj_eq)
  then show ?thesis using same s s' by simp
qed

definition demo_codes :: slot_codes where
  "demo_codes = \<lparr>sc_iso = show_int, sc_sha = id, sc_uuid5 = id\<rparr>"

lemma demo_slot:
  assumes "v = None \<or> v = Some ''02:00''" and "cause = ''nightly'' \<or> cause = ''catch_up''"
  shows "\<exists>s. refresh_slot_of demo_codes cause 5 v ''UTC'' ''ab'' = Inr s"
proof -
  let ?n = "\<lambda>cause v. PDict [(''schema'', PStr ''source-refresh-slot-v1''), (''scope_fingerprint'', PStr ''ab''),
            (''timezone'', PStr ''UTC''), (''nightly_time'', v), (''cause'', PStr cause), (''due_at'', PStr ''5'')]"
  have "show_int 5 = ''5''" by code_simp
  then have n: "normalize_payload 0 (slot_payload cause (sc_iso demo_codes 5) v ''UTC'' ''ab'') = Inr (?n cause (case v of None \<Rightarrow> PNone | Some v \<Rightarrow> PStr v))"
    using assms by (auto simp: slot_payload_def demo_codes_def normal_text_def too_deep_def split: option.splits)
  have "list_all (\<lambda>v. list_all (\<lambda>c. length (json_text (sort_keys (?n c v))) \<le> 200) [''nightly'', ''catch_up'']) [PNone, PStr ''02:00'']" by code_simp
  then have "length (json_text (sort_keys (?n cause (case v of None \<Rightarrow> PNone | Some v \<Rightarrow> PStr v)))) \<le> 200"
    using assms by (auto simp del: json_text.simps sort_keys.simps)
  then show ?thesis
    unfolding refresh_slot_payload canonical_payload_def slot_payload_def payload.case
    unfolding slot_payload_def [symmetric] n by (simp add: Let_def del: json_text.simps sort_keys.simps)
qed

theorem slot_identity_witness:
  "\<exists>s s'. refresh_slot_of demo_codes ''nightly'' 5 (Some ''02:00'') ''UTC'' ''ab'' = Inr s \<and>
     refresh_slot_of demo_codes ''catch_up'' 5 None ''UTC'' ''ab'' = Inr s' \<and> rs_slot_key s \<noteq> rs_slot_key s'"
proof -
  obtain s s' where s: "refresh_slot_of demo_codes ''nightly'' 5 (Some ''02:00'') ''UTC'' ''ab'' = Inr s"
    "refresh_slot_of demo_codes ''catch_up'' 5 None ''UTC'' ''ab'' = Inr s'"
    using demo_slot [of "Some ''02:00''" "''nightly''"] demo_slot [of None "''catch_up''"] by auto
  have "inj (sc_sha demo_codes)" "inj (sc_iso demo_codes)" by (simp_all add: demo_codes_def show_int_inj)
  from slot_identity [OF this s] s show ?thesis by auto
qed

section \<open>Schedules without rules\<close>

lemma show_digit_less: "j < 10 \<Longrightarrow> k < 10 \<Longrightarrow> show_digit j < show_digit k \<longleftrightarrow> j < k"
  by (simp add: less_char_def show_digit_value)

lemma clock_digits:
  assumes "v < DAY"
  obtains a b c d where "v = 600 * a + 60 * b + 10 * c + d" "a < 10" "b < 10" "c < 10" "d < 10" "60 * b + 10 * c + d < 600" "10 * c + d < 60"
    "clock v = [show_digit a, show_digit b, CHR '':'', show_digit c, show_digit d]"
proof
  let ?h = "v div 60" and ?m = "v mod 60"
  have e: "v = 60 * ?h + ?m" "?h = 10 * (?h div 10) + ?h mod 10" "?m = 10 * (?m div 10) + ?m mod 10" by simp_all
  have b: "?h mod 10 < 10" "?m < 60" "?m mod 10 < 10" by simp_all
  show "v = 600 * (?h div 10) + 60 * (?h mod 10) + 10 * (?m div 10) + ?m mod 10" using e by linarith
  show "60 * (?h mod 10) + 10 * (?m div 10) + ?m mod 10 < 600" "10 * (?m div 10) + ?m mod 10 < 60" using e b by linarith+
  show "?h div 10 < 10" "?m div 10 < 10" using assms b(2) by (auto simp: DAY_def)
  show "clock v = [show_digit (?h div 10), show_digit (?h mod 10), CHR '':'', show_digit (?m div 10), show_digit (?m mod 10)]"
    by (rule clock_show [OF assms])
qed simp_all

lemma clock_less:
  assumes "u < v" and "v < DAY"
  shows "clock u < clock v"
proof -
  obtain a b c d where u: "u = 600 * a + 60 * b + 10 * c + d" "a < 10" "b < 10" "c < 10" "d < 10" "60 * b + 10 * c + d < 600" "10 * c + d < 60"
    "clock u = [show_digit a, show_digit b, CHR '':'', show_digit c, show_digit d]" by (rule clock_digits [OF less_trans [OF assms]])
  obtain a' b' c' d' where v: "v = 600 * a' + 60 * b' + 10 * c' + d'" "a' < 10" "b' < 10" "c' < 10" "d' < 10" "60 * b' + 10 * c' + d' < 600" "10 * c' + d' < 60"
    "clock v = [show_digit a', show_digit b', CHR '':'', show_digit c', show_digit d']" by (rule clock_digits [OF assms(2)])
  have "a < a' \<or> a = a' \<and> (b < b' \<or> b = b' \<and> (c < c' \<or> c = c' \<and> d < d'))"
  proof -
    have "a \<le> a'" using assms(1) u(1,6) v(1,6) by linarith
    moreover have "b \<le> b'" if "a = a'" using that assms(1) u(1,7) v(1,7) by linarith
    moreover have "c \<le> c'" if "a = a'" "b = b'" using that assms(1) u(1,5) v(1,5) by linarith
    moreover have "d < d'" if "a = a'" "b = b'" "c = c'" using that assms(1) u(1) v(1) by linarith
    ultimately show ?thesis by linarith
  qed
  then show ?thesis using u(2-5) v(2-5) unfolding u(8) v(8) by (auto simp: show_digit_less)
qed

text \<open>A canonical list is in the order of its minutes.\<close>

lemma canonical_minutes:
  assumes "canonical_list vs"
  shows "sorted_list_of_set (minutes ` value_text ` set vs) = map minutes (map value_text vs)" and "list_all hhmm_text (map value_text vs)"
proof -
  let ?ts = "map value_text vs"
  show h: "list_all hhmm_text ?ts" using assms by (auto simp: canonical_list_def list_all_iff is_hhmm_def value_text_def split: pyval.splits)
  have srt: "sorted_wrt (<) ?ts" using assms strict_sorted_list_of_set unfolding canonical_list_def by metis
  have mono: "minutes s < minutes t" if "s \<in> set ?ts" "t \<in> set ?ts" "s < t" for s t
  proof (rule ccontr)
    assume "\<not> minutes s < minutes t"
    then have le: "minutes t < minutes s \<or> minutes t = minutes s" by linarith
    have hh: "hhmm_text s" "hhmm_text t" using h that(1,2) unfolding list_all_iff by blast+
    have "t < s" if "minutes t < minutes s"
      using clock_less [OF that minutes_less [OF hh(1)]] unfolding clock_minutes [OF hh(1)] clock_minutes [OF hh(2)] .
    moreover have "t = s" if "minutes t = minutes s" using that clock_minutes [OF hh(1)] clock_minutes [OF hh(2)] by simp
    ultimately have "t \<le> s" using le by auto
    then show False using that(3) by simp
  qed
  have "sorted_wrt (\<lambda>s t. minutes s < minutes t) ?ts" by (rule sorted_wrt_mono_rel [OF mono srt])
  then have "sorted_wrt (<) (map minutes ?ts)" by (simp only: sorted_wrt_map)
  then show "sorted_list_of_set (minutes ` value_text ` set vs) = map minutes ?ts"
    by (metis set_map sorted_list_of_set.idem_if_sorted_distinct strict_sorted_iff)
qed

lemma legacy_rows:
  defines "row \<equiv> \<lambda>v. [(''kind'', PStr ''full''), (''at'', v)]"
  assumes "canonical_list vs"
  defines "d \<equiv> [(''rules'', PList (map PDict (map row vs))), (''skips'', PList []), (''skip_around_family_emails'', PBool False)]"
  shows "valid_shape True (PDict d)" and "rows_of d ''rules'' = map row vs" and "rows_of d ''skips'' = []"
    and "times_of_kind (map row vs) ''full'' = minutes ` value_text ` set vs"
proof -
  have ok: "rule_ok [''full'', ''quick''] (PDict (row v))" if "v \<in> set vs" for v
    using assms(2) that by (auto simp: canonical_list_def list_all_iff rule_ok_def row_def dget_def has_keys_def)
  have "vs \<noteq> []" using assms(2) by (auto simp: canonical_list_def)
  then show "valid_shape True (PDict d)"
    using ok assms(2) by (auto simp: valid_shape_def d_def has_keys_def dget_def list_ok_def list_all_iff canonical_list_def)
  show "rows_of d ''rules'' = map row vs" "rows_of d ''skips'' = []"
    by (rule rows_of_map; simp add: d_def dget_def)+
  have "row_text (row v) ''kind'' = ''full''" "rule_times (row v) = [minutes (value_text v)]" for v
    by (simp_all add: row_def row_text_def dget_def rule_times_def row_has_def value_text_def)
  then show "times_of_kind (map row vs) ''full'' = minutes ` value_text ` set vs" by (auto simp: times_of_kind_eq)
qed

text \<open>
  A schedule stored before rules existed is shown as rules that give exactly its times: the shown document
  has the closed shape, its daily times are the stored list, and no skip is left over.
\<close>

theorem converted_rules_keep_times:
  assumes "dget_none settings ''refresh_rules'' = PNone" and "refresh_settings settings = Inr r"
    and "ri_frequency r = PStr ''daily''" and "canonical_list (ri_times r)"
  shows "\<exists>d. converted_rules settings = Inr d \<and> valid_shape True (PDict d) \<and>
    daily_times (PDict d) = Inr \<lparr>full = map value_text (ri_times r), unmatched_skips = []\<rparr>"
proof -
  let ?row = "\<lambda>v. [(''kind'', PStr ''full''), (''at'', v)]"
  let ?d = "[(''rules'', PList (map PDict (map ?row (ri_times r)))), (''skips'', PList []), (''skip_around_family_emails'', PBool False)]"
  note l = legacy_rows [OF assms(4)]
  have c: "converted_rules settings = Inr ?d" using assms(1-3) by (simp add: converted_rules_def legacy_rules_def)
  have "kept_times ?d = minutes ` value_text ` set (ri_times r)" unfolding kept_times_def l(2-4) by simp
  then have "sorted_list_of_set (kept_times ?d) = map minutes (map value_text (ri_times r))" using canonical_minutes(1) [OF assms(4)] by simp
  moreover have "map clock (map minutes ts) = ts" if "list_all hhmm_text ts" for ts using that by (induction ts) simp_all
  ultimately have "daily_times (PDict ?d) = Inr \<lparr>full = map value_text (ri_times r), unmatched_skips = []\<rparr>"
    unfolding daily_times_eq [OF l(1)] l(3) using canonical_minutes(2) [OF assms(4)] by (simp only: list.size upt.simps filter.simps)
  then show ?thesis using c l(1) by blast
qed

theorem converted_rules_keep_times_witness:
  "\<exists>d. converted_rules [(''full_refresh_times'', PList [PStr ''02:00'', PStr ''12:10''])] = Inr d \<and>
     daily_times (PDict d) = Inr \<lparr>full = [''02:00'', ''12:10''], unmatched_skips = []\<rparr>"
proof -
  let ?s = "[(''full_refresh_times'', PList [PStr ''02:00'', PStr ''12:10''])]"
  let ?r = "\<lparr>ri_nightly = PStr ''02:00'', ri_frequency = PStr ''daily'', ri_times = [PStr ''02:00'', PStr ''12:10''], ri_rules = False\<rparr>"
  have "dget_none ?s ''refresh_rules'' = PNone" "refresh_settings ?s = Inr ?r" "canonical_list (ri_times ?r)" by code_simp+
  from converted_rules_keep_times [OF this(1,2) _ this(3)] show ?thesis by (simp add: value_text_def) blast
qed

end
