(* ===== verification/Preview.thy ===== *)
theory Preview
  imports Cadence
begin

text \<open>
  The windows around Family mailings (the pure part of \<open>stewardship/source/send_windows.py\<close>) and the preview
  of a refresh schedule (the pure part of \<open>schedule_preview.py\<close>, with \<open>wall_shift\<close> of
  \<open>occurrence_preview.py\<close>). Instants and lengths are microseconds, shares of a day rationals.
\<close>

section \<open>Windows around mailings\<close>

definition SEND_ALLOWANCE :: int where
  "SEND_ALLOWANCE = 2 * HOUR"

definition PREPARE_AHEAD :: int where
  "PREPARE_AHEAD = 2 * HOUR"

definition MINIMUM_ESTIMATE :: int where
  "MINIMUM_ESTIMATE = HOUR"

datatype mail_kind = Initial | Reminder

definition kind_name :: "mail_kind \<Rightarrow> string" where
  "kind_name k = (case k of Initial \<Rightarrow> ''initial'' | Reminder \<Rightarrow> ''reminder'')"

record mailing =
  ml_kind :: mail_kind
  ml_due_at :: int
  ml_sending :: bool

record window =
  w_start :: int
  w_end :: int
  w_cause :: string

definition estimate :: "int option \<Rightarrow> int" where
  "estimate measured =
     (case measured of
        None \<Rightarrow> MINIMUM_ESTIMATE
      | Some l \<Rightarrow> (let quarters = - ((- l) div QUARTER_HOUR) in min (max (QUARTER_HOUR * quarters) MINIMUM_ESTIMATE) SEND_ALLOWANCE))"

definition email_windows :: "mailing \<Rightarrow> int \<Rightarrow> (mail_kind \<Rightarrow> int) \<Rightarrow> window list" where
  "email_windows m now estimates =
     (let cap = ml_due_at m + SEND_ALLOWANCE;
          stop = (if ml_sending m \<and> now \<ge> ml_due_at m then cap else min (ml_due_at m + estimates (ml_kind m)) cap);
          sending = [\<lparr>w_start = ml_due_at m, w_end = stop, w_cause = kind_name (ml_kind m) @ ''_sending''\<rparr>]
      in if ml_kind m = Reminder
         then \<lparr>w_start = ml_due_at m - PREPARE_AHEAD, w_end = ml_due_at m, w_cause = ''reminder_preparing''\<rparr> # sending
         else sending)"

definition in_window :: "int \<Rightarrow> window \<Rightarrow> bool" where
  "in_window t w \<longleftrightarrow> w_start w \<le> t \<and> t < w_end w"

definition window_cause :: "window list \<Rightarrow> int \<Rightarrow> string option" where
  "window_cause windows t = map_option w_cause (List.find (in_window t) (sort_key (\<lambda>w. (w_start w, w_cause w)) windows))"

definition send_length :: "int \<Rightarrow> int option \<Rightarrow> int" where
  "send_length due final = (case final of None \<Rightarrow> SEND_ALLOWANCE | Some t \<Rightarrow> max (t - due) 0)"

definition estimates_of :: "(mail_kind \<Rightarrow> int option) \<Rightarrow> mail_kind \<Rightarrow> int" where
  "estimates_of measured kind =
     estimate (case measured kind of
                 Some l \<Rightarrow> Some l
               | None \<Rightarrow> measured (case kind of Initial \<Rightarrow> Reminder | Reminder \<Rightarrow> Initial))"

section \<open>One day of the preview\<close>

datatype preview_status = Runs | Skipped | Joined

datatype shift = Forward | Back

record preview_time =
  pt_time :: string
  pt_status :: preview_status
  pt_due_at :: int
  pt_by :: "string option"
  pt_window :: "string option"
  pt_nightly :: bool
  pt_shift :: "shift option"

record preview_day =
  pd_day :: date
  pd_start :: int
  pd_end :: int
  pd_change :: "shift option"
  pd_times :: "preview_time list"

definition zone_of :: "(string \<Rightarrow> zone_info option) \<Rightarrow> string \<Rightarrow> zone_info res" where
  "zone_of zones timezone = (case zones timezone of None \<Rightarrow> Inl (KeyError timezone) | Some z \<Rightarrow> Inr z)"

text \<open>The offset of a wall time with a fold is the wall time less its instant.\<close>

definition wall_shift :: "zone_info \<Rightarrow> date \<Rightarrow> string \<Rightarrow> int \<Rightarrow> shift option" where
  "wall_shift z d tm due =
     (let wall = combine d (int (minutes tm) * MINUTE)
      in if to_wall z due \<noteq> wall then Some Forward
         else if from_wall z False wall \<noteq> from_wall z True wall then Some Back else None)"

definition day_bounds :: "(string \<Rightarrow> zone_info option) \<Rightarrow> date \<Rightarrow> string \<Rightarrow> (int \<times> int) res" where
  "day_bounds zones d timezone =
     bind_res (resolve_local zones (combine d 0) timezone) (\<lambda>s.
     bind_res (add_day d) (\<lambda>d'.
     bind_res (resolve_local zones (combine d' 0) timezone) (\<lambda>e. Inr (s, e))))"

definition clock_change :: "zone_info \<Rightarrow> int \<Rightarrow> int \<Rightarrow> shift option" where
  "clock_change z s e =
     (let before = to_wall z s - s; after = to_wall z e - e
      in if after > before then Some Forward else if after < before then Some Back else None)"

text \<open>The time of the group at an instant that the scheduler runs.\<close>

definition group_winner :: "preview_time list \<Rightarrow> string \<Rightarrow> int \<Rightarrow> string" where
  "group_winner entries nightly due =
     snd (snd (Max (set (map (\<lambda>e. precedence due (pt_time e) nightly) (filter (\<lambda>e. pt_status e = Runs \<and> pt_due_at e = due) entries)))))"

definition join_entry :: "preview_time list \<Rightarrow> string \<Rightarrow> preview_time \<Rightarrow> preview_time" where
  "join_entry entries nightly e =
     (let winner = group_winner entries nightly (pt_due_at e)
      in if pt_status e = Runs \<and> pt_time e \<noteq> winner
         then e\<lparr>pt_status := Joined, pt_by := Some winner, pt_window := None\<rparr> else e)"

definition join_times :: "preview_time list \<Rightarrow> string \<Rightarrow> preview_time list" where
  "join_times entries nightly = map (join_entry entries nightly) entries"

definition preview_entry ::
  "(string \<Rightarrow> zone_info option) \<Rightarrow> string \<Rightarrow> bool \<Rightarrow> window list \<Rightarrow> string \<Rightarrow> date \<Rightarrow> string \<Rightarrow> preview_time res" where
  "preview_entry zones timezone skipping windows nightly d tm =
     bind_res (local_instant zones d tm timezone) (\<lambda>due.
     bind_res (zone_of zones timezone) (\<lambda>z.
       let cause = (if skipping then window_cause windows due else None)
       in Inr \<lparr>pt_time = tm, pt_status = (if cause \<noteq> None \<and> tm \<noteq> nightly then Skipped else Runs), pt_due_at = due,
               pt_by = None, pt_window = cause, pt_nightly = (tm = nightly), pt_shift = wall_shift z d tm due\<rparr>))"

text \<open>The nightly time is the first of the daily times; the loop runs only when there is one.\<close>

definition preview_day_of ::
  "(string \<Rightarrow> zone_info option) \<Rightarrow> string \<Rightarrow> bool \<Rightarrow> window list \<Rightarrow> string list \<Rightarrow> date \<Rightarrow> preview_day res" where
  "preview_day_of zones timezone skipping windows ts d =
     bind_res (day_bounds zones d timezone) (\<lambda>(s, e).
     bind_res (map_res (preview_entry zones timezone skipping windows (hd ts) d) ts) (\<lambda>entries.
     bind_res (zone_of zones timezone) (\<lambda>z.
     Inr \<lparr>pd_day = d, pd_start = s, pd_end = e, pd_change = clock_change z s e, pd_times = join_times entries (hd ts)\<rparr>)))"

fun preview_loop ::
  "(string \<Rightarrow> zone_info option) \<Rightarrow> string \<Rightarrow> bool \<Rightarrow> window list \<Rightarrow> string list \<Rightarrow> date \<Rightarrow> nat \<Rightarrow> preview_day list res" where
  "preview_loop zones timezone skipping windows ts d 0 = Inr []"
| "preview_loop zones timezone skipping windows ts d (Suc n) =
     bind_res (preview_day_of zones timezone skipping windows ts d) (\<lambda>p.
     if n = 0 then Inr [p]
     else bind_res (add_day d) (\<lambda>d'.
          bind_res (preview_loop zones timezone skipping windows ts d' n) (\<lambda>ps. Inr (p # ps))))"

definition skipping_of :: "pyval \<Rightarrow> bool" where
  "skipping_of rules = (case rules of PDict d \<Rightarrow> dget_none d ''skip_around_family_emails'' = PBool True | _ \<Rightarrow> False)"

definition preview_days ::
  "(string \<Rightarrow> zone_info option) \<Rightarrow> pyval \<Rightarrow> string \<Rightarrow> date \<Rightarrow> nat \<Rightarrow> window list \<Rightarrow> preview_day list res" where
  "preview_days zones rules timezone first n windows =
     bind_res (daily_times rules) (\<lambda>r. preview_loop zones timezone (skipping_of rules) windows (full r) first n)"

section \<open>Cost and freshness\<close>

record durations =
  du_full :: int
  du_full_measured :: bool

definition TYPICAL :: int where
  "TYPICAL = 438 * 1000000"

text \<open>Division of a length by a positive number, rounded half to even.\<close>

definition divide_round :: "int \<Rightarrow> int \<Rightarrow> int" where
  "divide_round a b =
     (let q = a div b; r = a mod b in if 2 * r > b \<or> 2 * r = b \<and> odd q then q + 1 else q)"

definition median :: "int list \<Rightarrow> int" where
  "median samples =
     (let s = sort samples; n = length s
      in if odd n then s ! (n div 2) else divide_round (s ! (n div 2 - 1) + s ! (n div 2)) 2)"

definition durations_of :: "int list \<Rightarrow> durations" where
  "durations_of samples =
     (let measured = length samples \<ge> 3
      in \<lparr>du_full = (if measured then median samples else TYPICAL), du_full_measured = measured\<rparr>)"

record cost =
  co_per_day :: "(int \<times> rat) list"
  co_average :: int
  co_share :: rat
  co_warning :: bool

definition day_runs :: "preview_day \<Rightarrow> preview_time list" where
  "day_runs d = filter (\<lambda>t. pt_status t = Runs) (pd_times d)"

definition cost_of :: "preview_day list \<Rightarrow> durations \<Rightarrow> cost res" where
  "cost_of days measured =
     (if days = [] \<or> (\<exists>d\<in>set days. pd_end d = pd_start d) then Inl (OtherException ''ZeroDivisionError'')
      else (let per_day = map (\<lambda>d. let spent = int (length (day_runs d)) * du_full measured
                                   in (spent, of_int spent / of_int (pd_end d - pd_start d))) days;
                share = sum_list (map snd per_day) / of_nat (length per_day)
            in Inr \<lparr>co_per_day = per_day, co_average = divide_round (sum_list (map fst per_day)) (int (length per_day)),
                    co_share = share, co_warning = (share > 1 / 4)\<rparr>))"

text \<open>The longest wait: the greatest length, the earliest of equal ones.\<close>

definition waits :: "preview_day list \<Rightarrow> int option \<Rightarrow> (int \<times> int \<times> int) list" where
  "waits days since =
     (let instants = sorted_list_of_set (set (concat (map (\<lambda>d. map pt_due_at (day_runs d)) days)))
      in filter (\<lambda>(g, a, b). case since of None \<Rightarrow> True | Some s \<Rightarrow> b > s)
           (map (\<lambda>(a, b). (b - a, a, b)) (zip instants (tl instants))))"

definition freshness :: "preview_day list \<Rightarrow> int option \<Rightarrow> (int \<times> int \<times> int) option" where
  "freshness days since =
     (let gaps = waits days since
      in if gaps = [] then None
         else (case Max (set (map (\<lambda>(g, a, b). (g, - a, b)) gaps)) of (g, a, b) \<Rightarrow> Some (g, - a, b)))"

record preview =
  pv_days :: "preview_day list"
  pv_windows :: "window list"
  pv_cost :: cost
  pv_freshness :: "(int \<times> int \<times> int) option"

definition summarize ::
  "(string \<Rightarrow> zone_info option) \<Rightarrow> pyval \<Rightarrow> string \<Rightarrow> date \<Rightarrow> window list \<Rightarrow> durations \<Rightarrow> preview res" where
  "summarize zones rules timezone today windows measured =
     bind_res (day_before today) (\<lambda>first.
     bind_res (preview_days zones rules timezone first 8 windows) (\<lambda>days.
       let shown = tl days; s = pd_start (hd shown); e = pd_end (last shown);
           applied = filter (\<lambda>w. skipping_of rules \<and> w_end w > s \<and> w_start w < e) windows
       in bind_res (cost_of shown measured) (\<lambda>c.
          Inr \<lparr>pv_days = shown, pv_windows = applied, pv_cost = c, pv_freshness = freshness days (Some s)\<rparr>)))"

end
