(* ===== verification/Preview_Facts.thy ===== *)
theory Preview_Facts
  imports Preview Cadence_Facts Refresh_Check
begin

text \<open>
  The windows around mailings, and the agreement of the preview with the scheduler: a time is shown
  as running exactly when the scheduler selects it at the instant it falls due.
\<close>

section \<open>Windows\<close>

text \<open>
  The length of a mailing is estimated in whole quarter hours between one hour and the
  allowance of two, and never below a measured length that fits the allowance.
\<close>

theorem estimate_bounds:
  "MINIMUM_ESTIMATE \<le> estimate l \<and> estimate l \<le> SEND_ALLOWANCE \<and> QUARTER_HOUR dvd estimate l \<and>
   (\<forall>m. l = Some m \<and> m \<le> SEND_ALLOWANCE \<longrightarrow> m \<le> estimate l \<and> (MINIMUM_ESTIMATE \<le> m \<longrightarrow> estimate l < m + QUARTER_HOUR))"
proof (cases l)
  case (Some m)
  define q where "q = - ((- m) div QUARTER_HOUR)"
  have pos: "QUARTER_HOUR > 0" "MINIMUM_ESTIMATE = 4 * QUARTER_HOUR" "SEND_ALLOWANCE = 8 * QUARTER_HOUR"
    by (simp_all add: QUARTER_HOUR_def MINUTE_def MINIMUM_ESTIMATE_def HOUR_def SEND_ALLOWANCE_def)
  have q: "m \<le> QUARTER_HOUR * q" "QUARTER_HOUR * q < m + QUARTER_HOUR"
  proof -
    have "QUARTER_HOUR * q = - (QUARTER_HOUR * (- m div QUARTER_HOUR))" by (simp add: q_def)
    moreover have "QUARTER_HOUR * (- m div QUARTER_HOUR) + - m mod QUARTER_HOUR = - m" by (rule mult_div_mod_eq)
    moreover have "0 \<le> - m mod QUARTER_HOUR" "- m mod QUARTER_HOUR < QUARTER_HOUR" using pos(1) by simp_all
    ultimately show "m \<le> QUARTER_HOUR * q" "QUARTER_HOUR * q < m + QUARTER_HOUR" by linarith+
  qed
  have e: "estimate l = min (max (QUARTER_HOUR * q) MINIMUM_ESTIMATE) SEND_ALLOWANCE" by (simp add: estimate_def Some q_def Let_def)
  have "QUARTER_HOUR dvd estimate l" unfolding e pos by (simp add: min_def max_def)
  then show ?thesis using q pos Some unfolding e by (auto simp: min_def max_def)
qed (simp add: estimate_def MINIMUM_ESTIMATE_def SEND_ALLOWANCE_def HOUR_def QUARTER_HOUR_def MINUTE_def)

theorem estimate_bounds_witness:
  "70 * MINUTE \<le> estimate (Some (70 * MINUTE)) \<and> estimate (Some (70 * MINUTE)) < 85 * MINUTE"
  using estimate_bounds [of "Some (70 * MINUTE)"]
  by (simp add: MINUTE_def SEND_ALLOWANCE_def MINIMUM_ESTIMATE_def HOUR_def QUARTER_HOUR_def)

text \<open>A cause is found exactly inside a window, and it is that of the earliest window around the instant.\<close>

lemma window_cause_spec:
  "window_cause ws t = None \<longleftrightarrow> \<not> (\<exists>w\<in>set ws. in_window t w)"
  "window_cause ws t = Some c \<Longrightarrow> \<exists>w\<in>set ws. in_window t w \<and> w_cause w = c \<and> (\<forall>w'\<in>set ws. in_window t w' \<longrightarrow> w_start w \<le> w_start w')"
proof -
  let ?s = "sort_key (\<lambda>w. (w_start w, w_cause w)) ws"
  show "window_cause ws t = None \<longleftrightarrow> \<not> (\<exists>w\<in>set ws. in_window t w)"
    by (auto simp: window_cause_def find_None_iff)
  assume "window_cause ws t = Some c"
  then obtain w where w: "List.find (in_window t) ?s = Some w" "w_cause w = c" by (auto simp: window_cause_def)
  then obtain i where i: "i < length ?s" "in_window t (?s ! i)" "w = ?s ! i" "\<forall>j<i. \<not> in_window t (?s ! j)" by (auto simp: find_Some_iff)
  have "w_start w \<le> w_start w'" if w': "w' \<in> set ws" "in_window t w'" for w'
  proof -
    have "w' \<in> set ?s" using w'(1) by simp
    then obtain j where j: "j < length ?s" "w' = ?s ! j" unfolding in_set_conv_nth by blast
    then have "i \<le> j" using i(4) w'(2) by (meson not_le)
    then have "(w_start w, w_cause w) \<le> (w_start w', w_cause w')"
      using sorted_nth_mono [OF sorted_sort_key, of i j "\<lambda>w. (w_start w, w_cause w)" ws] i j by simp
    then show ?thesis by (auto simp: less_eq_prod_def)
  qed
  moreover have "w \<in> set ws" using i(1,3) nth_mem [of i ?s] by simp
  ultimately show "\<exists>w\<in>set ws. in_window t w \<and> w_cause w = c \<and> (\<forall>w'\<in>set ws. in_window t w' \<longrightarrow> w_start w \<le> w_start w')"
    using i(2,3) w(2) by blast
qed

section \<open>Days of the preview\<close>

text \<open>A jump of the clock does not reach into the next day.\<close>

definition whole_days :: "zone_info \<Rightarrow> bool" where
  "whole_days z \<longleftrightarrow> (\<forall>l t. to_wall z (t - 1) < l \<and> l < to_wall z t \<longrightarrow> day_no z t = l div day_length)"

lemma occ_day:
  assumes z: "civil zones timezone z" and "whole_days z" and h: "hhmm_text tm"
  shows "day_no z (occ zones timezone tm d) = toordinal d"
proof -
  let ?L = "combine d (int (minutes tm) * MINUTE)" and ?t = "occ zones timezone tm d"
  have zt: "zones timezone = Some z" and laws: "zone_laws z" using z by (simp_all add: civil_def civil_zone_def)
  obtain t where t: "resolve_local zones ?L timezone = Inr t" "to_wall z t = ?L \<or> ?L < to_wall z t \<and> to_wall z (t - 1) < ?L"
    using resolve_shown [of zones timezone z _ ?L, OF zt laws] resolve_gap [of zones timezone z ?L, OF zt laws] by metis
  have "?t = t" using t(1) by (simp add: occ_def local_instant_def)
  moreover have "day_no z t = ?L div day_length" using t(2) assms(2) unfolding whole_days_def day_no_def by auto
  ultimately show ?thesis by (simp add: wall_of_day [OF h])
qed

lemma valid_ordinal_inj: "valid_date d \<Longrightarrow> valid_date e \<Longrightarrow> toordinal d = toordinal e \<Longrightarrow> d = e"
  using toordinal_less [of d e] toordinal_less [of e d] by (metis less_irrefl linorder_neqE)

text \<open>What the scheduler selects at the instant a time falls due: the best of the times of that day at that instant.\<close>

lemma latest_at_occurrence:
  assumes z: "civil zones timezone z" "whole_days z" and d: "valid_date d" "date_min < d" "d < date_max"
    and ts: "list_all hhmm_text ts" "tm \<in> set ts"
  defines "t \<equiv> occ zones timezone tm d"
  shows "latest zones t timezone ts nightly =
    Inr (t, snd (snd (Max {precedence t w nightly | w. w \<in> set ts \<and> occ zones timezone w d = t})))" (is "_ = Inr (t, snd (snd (Max ?G)))")
proof -
  have no: "day_no z t = toordinal d" unfolding t_def using occ_day [OF z, of tm d] ts by (simp add: list_all_iff)
  have mid: "mid_range z t"
    using d toordinal_less [OF date_ends(1) d(1,2)] toordinal_less [OF d(1) date_ends(2) d(3)] by (simp add: mid_range_def no)
  have wd: "wall_date z t = d" using today(1,2) [OF z(1) mid] no d(1) valid_ordinal_inj by simp
  let ?C = "{precedence u w nightly | u w. w \<in> set ts \<and> u \<in> {occ zones timezone w (prev_day d), occ zones timezone w d} \<and> u \<le> t}"
  have "ts \<noteq> []" using ts(2) by auto
  note eq = latest_eq [OF z(1) mid ts(1) this, of nightly, unfolded wd]
  have prev: "occ zones timezone w (prev_day d) \<noteq> t" if "w \<in> set ts" for w
    using occ_day [OF z, of w "prev_day d"] that ts(1) today(3) [OF z(1) mid] no unfolding wd by (auto simp: list_all_iff)
  have self: "precedence t tm nightly \<in> ?C" using ts(2) unfolding t_def by blast
  have "Max ?C \<in> ?C" by (rule Max_in [OF eq(1,2)])
  moreover have "precedence t tm nightly \<le> Max ?C" by (rule Max_ge [OF eq(1) self])
  ultimately have G: "Max ?C \<in> ?G" using prev by (force simp: precedence_def less_eq_prod_def)
  have "?G \<subseteq> ?C" by blast
  then have "Max ?G = Max ?C" using G Max_ge [OF eq(1)] by (intro Max_eqI finite_subset [OF _ eq(1)]) blast+
  moreover have "fst (Max ?C) = t" using G by (auto simp: precedence_def)
  ultimately show ?thesis using eq(3) by simp
qed

lemma preview_entry_eq:
  assumes "civil zones timezone z" and "hhmm_text tm"
  shows "preview_entry zones timezone False windows nightly d tm =
    Inr \<lparr>pt_time = tm, pt_status = Runs, pt_due_at = occ zones timezone tm d, pt_by = None, pt_window = None,
         pt_nightly = (tm = nightly), pt_shift = wall_shift z d tm (occ zones timezone tm d)\<rparr>"
  using occ_days(1) [OF assms, of d] assms(1) by (simp add: preview_entry_def zone_of_def civil_def)

lemma preview_day_parity:
  assumes z: "civil zones timezone z" "whole_days z" and d: "valid_date d" "date_min < d"
    and ts: "list_all hhmm_text ts" and p: "preview_day_of zones timezone False windows ts d = Inr p" and e: "e \<in> set (pd_times p)"
  shows "pt_time e \<in> set ts \<and> local_instant zones d (pt_time e) timezone = Inr (pt_due_at e) \<and>
    (if pt_status e = Runs then latest zones (pt_due_at e) timezone ts (hd ts) = Inr (pt_due_at e, pt_time e)
     else pt_status e = Joined \<and> (\<exists>w. w \<noteq> pt_time e \<and> pt_by e = Some w \<and> latest zones (pt_due_at e) timezone ts (hd ts) = Inr (pt_due_at e, w)))"
proof -
  let ?e = "\<lambda>tm. \<lparr>pt_time = tm, pt_status = Runs, pt_due_at = occ zones timezone tm d, pt_by = None, pt_window = None,
         pt_nightly = (tm = hd ts), pt_shift = wall_shift z d tm (occ zones timezone tm d)\<rparr>"
  have "map_res (preview_entry zones timezone False windows (hd ts) d) ts = Inr (map ?e ts)"
    using preview_entry_eq [OF z(1)] ts by (intro map_res_total) (simp add: list_all_iff)
  then have times: "pd_times p = join_times (map ?e ts) (hd ts)" and more: "\<exists>d'. add_day d = Inr d'"
    using p by (auto simp: preview_day_of_def day_bounds_def)
  have dmax: "d < date_max"
  proof (rule ccontr)
    assume "\<not> d < date_max"
    then have "d = date_max" using valid_le_max [OF d(1)] by simp
    then show False using more add_day_max by simp
  qed
  obtain tm where tm: "tm \<in> set ts" "e = join_entry (map ?e ts) (hd ts) (?e tm)" using e times by (auto simp: join_times_def)
  define t where "t = occ zones timezone tm d"
  have "set (map (\<lambda>e. precedence t (pt_time e) (hd ts)) (filter (\<lambda>e. pt_status e = Runs \<and> pt_due_at e = t) (map ?e ts))) =
      {precedence t w (hd ts) | w. w \<in> set ts \<and> occ zones timezone w d = t}"
    unfolding filter_map map_map comp_def by auto
  then have w: "latest zones t timezone ts (hd ts) = Inr (t, group_winner (map ?e ts) (hd ts) t)"
    using latest_at_occurrence [OF z d dmax ts tm(1), of "hd ts", folded t_def] by (simp only: group_winner_def)
  have l: "local_instant zones d tm timezone = Inr t" using occ_days(1) [OF z(1), of tm d] ts tm(1) by (simp add: t_def list_all_iff)
  show ?thesis using w l tm(1) unfolding tm(2) by (auto simp: join_entry_def Let_def simp flip: t_def)
qed

lemma preview_loop_days:
  assumes "preview_loop zones timezone skipping windows ts d n = Inr ps" and "valid_date d" and "date_min < d" and "p \<in> set ps"
  shows "\<exists>e. valid_date e \<and> date_min < e \<and> preview_day_of zones timezone skipping windows ts e = Inr p \<and> pd_day p = e"
  using assms
proof (induction n arbitrary: d ps)
  case (Suc n)
  obtain q where q: "preview_day_of zones timezone skipping windows ts d = Inr q" using Suc.prems(1) by (auto split: if_splits)
  then have "pd_day q = d" by (auto simp: preview_day_of_def)
  show ?case
  proof (cases "p = q")
    case True
    then show ?thesis using q \<open>pd_day q = d\<close> Suc.prems(2,3) by blast
  next
    case False
    then obtain d' qs where r: "add_day d = Inr d'" "preview_loop zones timezone skipping windows ts d' n = Inr qs" "p \<in> set qs"
      using Suc.prems(1,4) q by (auto split: if_splits)
    have "valid_date d'" "date_min < d'"
      using r(1) valid_next_day [OF Suc.prems(2)] next_day_greater [of d] Suc.prems(3) by (auto simp: add_day_Inr)
    then show ?thesis using Suc.IH [OF r(2) _ _ r(3)] by blast
  qed
qed simp



end
