(* ===== verification/Recovery.thy ===== *)
theory Recovery
  imports Config "HOL-Library.Product_Lexorder"
begin

text \<open>
  \<open>stewardship/campaigns/schedule_recovery.py\<close>: what happens to the missed mailings of one Family or
  report. A UUID is its integer. The owner supplies one complete group of slots; the plan selects
  at most one of them to be sent and says what becomes of the others.
\<close>

record recovery_slot =
  occurrence_id :: nat
  definition_id :: nat
  rv_kind :: string
  rv_mode :: string
  rv_target :: string
  rv_slot :: string
  rv_due_at :: int
  rv_state :: string
  safely_cancellable :: bool
  held :: bool

definition KINDS :: "string list" where
  "KINDS = [''initial'', ''reminder'', ''report'']"

definition STATES :: "string list" where
  "STATES = [''pending'', ''running'', ''delivery_unknown'', ''succeeded'', ''failed'', ''skipped'', ''coalesced'']"

text \<open>\<open>RecoverySlot.__post_init__\<close>; the types of the fields are those of the record.\<close>

definition recovery_slot_ok :: "recovery_slot \<Rightarrow> bool" where
  "recovery_slot_ok s \<longleftrightarrow>
     rv_kind s \<in> set KINDS \<and> rv_mode s \<in> {''testing'', ''production''} \<and> rv_state s \<in> set STATES \<and>
     rv_target s \<noteq> [] \<and> length (rv_target s) \<le> 128 \<and> rv_slot s \<noteq> [] \<and> length (rv_slot s) \<le> 128"

definition recovery_slot_of :: "recovery_slot \<Rightarrow> recovery_slot res" where
  "recovery_slot_of s =
     (if recovery_slot_ok s then Inr s else Inl (ValueError ''Recovery requires bounded canonical slot metadata.''))"

definition digest_recovery_kind :: "string \<Rightarrow> int \<Rightarrow> string res" where
  "digest_recovery_kind kind candidate_count =
     (if kind \<noteq> ''report'' \<or> candidate_count < 0 then Inl (ValueError ''Digest recovery requires a complete candidate count.'')
      else Inr (if candidate_count = 0 then ''empty'' else ''latest''))"

record recovery_plan =
  rp_selected :: "nat option"
  rp_coalesced :: "nat list"
  rp_skipped :: "nat list"
  rp_reason :: string
  rp_blocked :: bool

definition no_plan :: recovery_plan where
  "no_plan = \<lparr>rp_selected = None, rp_coalesced = [], rp_skipped = [], rp_reason = [], rp_blocked = False\<rparr>"

record family_state =
  closed :: bool
  eligible :: bool
  responded :: bool
  deliverable :: bool
  initial_delivered :: bool
  excluded :: bool

definition family_kind :: "string \<Rightarrow> bool" where
  "family_kind k \<longleftrightarrow> k = ''initial'' \<or> k = ''reminder''"

definition validate_group :: "recovery_slot list \<Rightarrow> bool" where
  "validate_group slots \<longleftrightarrow>
     (let first = hd slots
      in list_all (\<lambda>r. rv_mode r = rv_mode first \<and> rv_target r = rv_target first \<and>
                       (if family_kind (rv_kind first) then family_kind (rv_kind r) else rv_kind r = rv_kind first)) slots \<and>
         distinct (map occurrence_id slots) \<and>
         distinct (map (\<lambda>r. (definition_id r, rv_slot r)) slots) \<and>
         (family_kind (rv_kind first) \<or> card (set (map definition_id slots)) = 1) \<and>
         length (filter (\<lambda>r. rv_kind r = ''initial'') slots) \<le> 1)"

definition active_state :: "recovery_slot \<Rightarrow> bool" where
  "active_state r \<longleftrightarrow> rv_state r = ''pending'' \<or> rv_state r = ''running''"

text \<open>The order of the overdue slots: due time, then the two identifiers.\<close>

definition slot_order :: "recovery_slot \<Rightarrow> int \<times> nat \<times> nat" where
  "slot_order r = (rv_due_at r, definition_id r, occurrence_id r)"

definition overdue_slots :: "recovery_slot list \<Rightarrow> int \<Rightarrow> recovery_slot list" where
  "overdue_slots slots cutoff = sort_key slot_order (filter (\<lambda>r. rv_due_at r \<le> cutoff \<and> \<not> held r) slots)"

definition unresolved_delivery :: "recovery_slot \<Rightarrow> bool" where
  "unresolved_delivery r \<longleftrightarrow> rv_state r = ''delivery_unknown'' \<or> active_state r \<and> \<not> safely_cancellable r"

definition skip_reason :: "family_state \<Rightarrow> string" where
  "skip_reason f =
     (if closed f then ''campaign_closed''
      else if \<not> eligible f then ''family_ineligible''
      else if responded f then ''family_responded''
      else if excluded f then ''workgroup_excluded''
      else if \<not> deliverable f then ''no_deliverable_recipient''
      else [])"

definition initial_unfulfilled :: "recovery_slot \<Rightarrow> bool" where
  "initial_unfulfilled r \<longleftrightarrow> rv_kind r = ''initial'' \<and> rv_state r \<in> {''failed'', ''skipped'', ''coalesced''}"

definition select_plan :: "recovery_slot \<Rightarrow> recovery_slot list \<Rightarrow> string \<Rightarrow> recovery_plan" where
  "select_plan chosen candidates reason =
     no_plan\<lparr>rp_selected := Some (occurrence_id chosen),
             rp_coalesced := map occurrence_id (filter (\<lambda>r. occurrence_id r \<noteq> occurrence_id chosen) candidates),
             rp_reason := (if length candidates > 1 then reason else [])\<rparr>"

definition family_plan :: "recovery_slot list \<Rightarrow> recovery_slot list \<Rightarrow> family_state \<Rightarrow> recovery_plan res" where
  "family_plan overdue candidates f =
     (if skip_reason f \<noteq> [] then Inr (no_plan\<lparr>rp_skipped := map occurrence_id candidates, rp_reason := skip_reason f\<rparr>)
      else if \<not> initial_delivered f \<and> list_ex initial_unfulfilled overdue then
        Inr (no_plan\<lparr>rp_blocked := True, rp_reason := ''initial_unfulfilled''\<rparr>)
      else (let initials = filter (\<lambda>r. rv_kind r = ''initial'') candidates
            in if initial_delivered f \<and> initials \<noteq> [] then
                 Inl (ValueError ''Fulfilled initial slots must be excluded by their owner.'')
               else Inr (select_plan (if initials = [] then last candidates else hd initials) candidates ''missed_family_recovery'')))"

definition plan_recovery :: "recovery_slot list \<Rightarrow> int \<Rightarrow> family_state \<Rightarrow> recovery_plan res" where
  "plan_recovery slots cutoff f =
     (if length slots > 1000 then Inl (ValueError ''Recovery requires a complete bounded group and UTC cutoff.'')
      else if slots = [] then Inr no_plan
      else if \<not> validate_group slots then Inl (ValueError ''Recovery slots must form one distinct semantic group.'')
      else (let overdue = overdue_slots slots cutoff; candidates = filter active_state overdue
            in if list_ex unresolved_delivery overdue then
                 Inr (no_plan\<lparr>rp_blocked := True, rp_reason := ''delivery_unresolved''\<rparr>)
               else if candidates = [] then Inr no_plan
               else if family_kind (rv_kind (hd slots)) then family_plan overdue candidates f
               else Inr (select_plan (last candidates) candidates ''missed_report_recovery'')))"

end
