(* ===== verification/Recovery_Facts.thy ===== *)
theory Recovery_Facts
  imports Recovery "HOL-Library.Multiset"
begin

text \<open>
  The plan for missed mailings: at most one is sent, nothing is lost or touched twice, and the order in
  which the owner supplies the slots does not matter.
\<close>

section \<open>Candidates\<close>

definition is_overdue :: "int \<Rightarrow> recovery_slot \<Rightarrow> bool" where
  "is_overdue cutoff r \<longleftrightarrow> rv_due_at r \<le> cutoff \<and> \<not> held r"

abbreviation candidates_of :: "recovery_slot list \<Rightarrow> int \<Rightarrow> recovery_slot list" where
  "candidates_of slots cutoff \<equiv> filter active_state (overdue_slots slots cutoff)"

lemma set_overdue [simp]: "set (overdue_slots slots cutoff) = {r \<in> set slots. is_overdue cutoff r}"
  by (auto simp: overdue_slots_def is_overdue_def)

lemma distinct_overdue:
  assumes "distinct (map occurrence_id slots)"
  shows "distinct (map occurrence_id (overdue_slots slots cutoff))"
proof -
  have "distinct (map occurrence_id (filter P slots))" for P using assms by (simp add: distinct_map_filter)
  moreover have "mset (map occurrence_id (sort_key slot_order xs)) = mset (map occurrence_id xs)" for xs by simp
  ultimately show ?thesis unfolding overdue_slots_def by (metis (no_types, lifting) mset_eq_imp_distinct_iff)
qed

lemma sorted_candidates: "sorted (map slot_order (candidates_of slots cutoff))"
  by (simp add: overdue_slots_def sorted_filter)

lemma validate_groupD:
  assumes "validate_group slots"
  shows "distinct (map occurrence_id slots)" and "r \<in> set slots \<Longrightarrow> family_kind (rv_kind r) \<longleftrightarrow> family_kind (rv_kind (hd slots))"
    and "length (filter (\<lambda>r. rv_kind r = ''initial'') slots) \<le> 1"
  using assms by (auto simp: validate_group_def Let_def list_all_iff split: if_splits)

section \<open>Plans\<close>

definition outcomes :: "recovery_plan \<Rightarrow> nat list" where
  "outcomes p = (case rp_selected p of None \<Rightarrow> [] | Some i \<Rightarrow> [i]) @ rp_coalesced p @ rp_skipped p"

lemma select_plan_outcomes:
  assumes "distinct (map occurrence_id cs)" and "c \<in> set cs"
  shows "distinct (outcomes (select_plan c cs reason))" and "set (outcomes (select_plan c cs reason)) = occurrence_id ` set cs"
    and "rp_skipped (select_plan c cs reason) = []" and "rp_selected (select_plan c cs reason) = Some (occurrence_id c)"
    and "\<not> rp_blocked (select_plan c cs reason)"
  using assms distinct_map_filter [OF assms(1)] by (auto simp: outcomes_def select_plan_def no_plan_def)

text \<open>The four ways a group with candidates is planned.\<close>

lemma plan_cases:
  assumes "plan_recovery slots cutoff f = Inr p"
  obtains (none) "p = no_plan" "candidates_of slots cutoff = []"
  | (blocked) reason where "p = no_plan\<lparr>rp_blocked := True, rp_reason := reason\<rparr>"
      "list_ex unresolved_delivery (overdue_slots slots cutoff) \<or>
       family_kind (rv_kind (hd slots)) \<and> \<not> initial_delivered f \<and> list_ex initial_unfulfilled (overdue_slots slots cutoff)"
  | (skipped) "p = no_plan\<lparr>rp_skipped := map occurrence_id (candidates_of slots cutoff), rp_reason := skip_reason f\<rparr>"
      "skip_reason f \<noteq> []" "family_kind (rv_kind (hd slots))" "candidates_of slots cutoff \<noteq> []" "validate_group slots"
  | (selected) c reason where "p = select_plan c (candidates_of slots cutoff) reason" "c \<in> set (candidates_of slots cutoff)"
      "family_kind (rv_kind (hd slots)) \<longrightarrow> skip_reason f = []" "validate_group slots"
      "\<not> list_ex unresolved_delivery (overdue_slots slots cutoff)"
      "c = (let initials = filter (\<lambda>r. rv_kind r = ''initial'') (candidates_of slots cutoff)
            in if initials = [] then last (candidates_of slots cutoff) else hd initials)"
proof -
  let ?o = "overdue_slots slots cutoff" and ?c = "candidates_of slots cutoff"
  have nonfamily: "filter (\<lambda>r. rv_kind r = ''initial'') ?c = []" if "validate_group slots" "\<not> family_kind (rv_kind (hd slots))"
    using validate_groupD(2) [OF that(1)] that(2) by (auto simp: filter_empty_conv family_kind_def)
  consider "slots = []" "p = no_plan" | "validate_group slots" "list_ex unresolved_delivery ?o" "p = no_plan\<lparr>rp_blocked := True, rp_reason := ''delivery_unresolved''\<rparr>"
    | "validate_group slots" "\<not> list_ex unresolved_delivery ?o" "?c = []" "p = no_plan"
    | "validate_group slots" "\<not> list_ex unresolved_delivery ?o" "?c \<noteq> []" "family_kind (rv_kind (hd slots))" "family_plan ?o ?c f = Inr p"
    | "validate_group slots" "\<not> list_ex unresolved_delivery ?o" "?c \<noteq> []" "\<not> family_kind (rv_kind (hd slots))"
        "p = select_plan (last ?c) ?c ''missed_report_recovery''"
    using assms by (auto simp: plan_recovery_def Let_def split: if_splits)
  then show thesis
  proof cases
    case 1
    then show ?thesis using none by (simp add: overdue_slots_def)
  next
    case 4
    then have i: "hd (filter (\<lambda>r. rv_kind r = ''initial'') ?c) \<in> set ?c" if "filter (\<lambda>r. rv_kind r = ''initial'') ?c \<noteq> []"
      using that hd_in_set by (metis filter_is_subset subsetD)
    have l: "last ?c \<in> set ?c" using 4(3) by (rule last_in_set)
    show ?thesis
      using 4 i l skipped blocked [of "''initial_unfulfilled''"] selected [of _ "''missed_family_recovery''"]
      by (auto simp: family_plan_def Let_def simp del: set_filter set_overdue filter_filter split: if_splits)
  next
    case 5
    have "last ?c \<in> set ?c" using 5(3) by (rule last_in_set)
    then show ?thesis using selected [of "last ?c"] 5 nonfamily by simp
  qed (use none blocked in auto)
qed

lemma chosen_first:
  assumes "sorted (map slot_order cs)" and "c \<in> set cs"
    and "c = (let initials = filter (\<lambda>r. rv_kind r = ''initial'') cs in if initials = [] then last cs else hd initials)"
  shows "rv_kind c = ''initial'' \<or> (\<forall>r\<in>set cs. rv_kind r \<noteq> ''initial'' \<and> slot_order r \<le> slot_order c)"
proof (cases "filter (\<lambda>r. rv_kind r = ''initial'') cs = []")
  case True
  then have c: "c = last cs" using assms(3) by simp
  have "slot_order r \<le> slot_order c" if r: "r \<in> set cs" for r
  proof -
    obtain i where i: "i < length cs" "r = cs ! i" using r by (auto simp: in_set_conv_nth)
    then have "cs \<noteq> []" by auto
    then show ?thesis using sorted_nth_mono [OF assms(1), of i "length cs - 1"] i c by (simp add: last_conv_nth)
  qed
  then show ?thesis using True by (auto simp: filter_empty_conv)
next
  case False
  then have "c \<in> set (filter (\<lambda>r. rv_kind r = ''initial'') cs)" using assms(3) hd_in_set by (metis (mono_tags, lifting))
  then show ?thesis by simp
qed

text \<open>
  C17: the plan for a group of missed mailings. A blocked plan changes nothing. Otherwise the slots the
  plan acts on are exactly the overdue ones that are not held and not finished, each in one
  way: at most one is sent and the others coalesce into it, or all are skipped.
  Nothing is sent while the outcome of an overdue slot is unknown, and no Family message is sent
  after the campaign closed or to a Family that is ineligible, responded, excluded or
  unreachable. An open invitation is sent before any reminder, else the latest slot.
\<close>

theorem plan_recovery_correct:
  assumes "plan_recovery slots cutoff f = Inr p"
  shows "(if rp_blocked p then outcomes p = []
     else distinct (outcomes p) \<and> set (outcomes p) = occurrence_id ` {r \<in> set slots. is_overdue cutoff r \<and> active_state r}) \<and>
    (rp_selected p \<noteq> None \<longrightarrow>
       rp_skipped p = [] \<and> \<not> (\<exists>r\<in>set slots. is_overdue cutoff r \<and> unresolved_delivery r) \<and>
       (family_kind (rv_kind (hd slots)) \<longrightarrow> \<not> closed f \<and> eligible f \<and> \<not> responded f \<and> \<not> excluded f \<and> deliverable f) \<and>
       (\<exists>c\<in>set slots. rp_selected p = Some (occurrence_id c) \<and> is_overdue cutoff c \<and> active_state c \<and>
          (rv_kind c = ''initial'' \<or>
           (\<forall>r\<in>set slots. is_overdue cutoff r \<and> active_state r \<longrightarrow> rv_kind r \<noteq> ''initial'' \<and> slot_order r \<le> slot_order c))))"
  using assms
proof (cases rule: plan_cases)
  case none
  have "{r \<in> set slots. is_overdue cutoff r \<and> active_state r} = {}" using none(2) by (auto simp: filter_empty_conv)
  then show ?thesis using none(1) by (auto simp: no_plan_def outcomes_def)
next
  case (blocked reason)
  then show ?thesis by (simp add: no_plan_def outcomes_def)
next
  case skipped
  have "distinct (map occurrence_id (candidates_of slots cutoff))"
    using distinct_overdue [OF validate_groupD(1) [OF skipped(5)]] by (rule distinct_map_filter)
  then show ?thesis using skipped(1) by (auto simp: no_plan_def outcomes_def)
next
  case (selected c reason)
  let ?c = "candidates_of slots cutoff"
  have d: "distinct (map occurrence_id ?c)" using distinct_overdue [OF validate_groupD(1) [OF selected(4)]] by (rule distinct_map_filter)
  note s = select_plan_outcomes [OF d selected(2), of reason, folded selected(1)]
  have first: "rv_kind c = ''initial'' \<or> (\<forall>r\<in>set ?c. rv_kind r \<noteq> ''initial'' \<and> slot_order r \<le> slot_order c)"
    using selected(6) chosen_first [OF sorted_candidates selected(2)] by simp
  have "skip_reason f = [] \<Longrightarrow> \<not> closed f \<and> eligible f \<and> \<not> responded f \<and> \<not> excluded f \<and> deliverable f"
    by (auto simp: skip_reason_def split: if_splits)
  then show ?thesis using s first selected(2,3,5) by (auto simp: list_ex_iff)
qed

section \<open>The order of the slots\<close>

lemma validate_group_perm:
  assumes "mset slots = mset slots'" and "validate_group slots" and "slots \<noteq> []"
  shows "validate_group slots'"
proof -
  have same: "set slots = set slots'" using assms(1) by (rule mset_eq_setD)
  have "slots' \<noteq> []" using assms(1,3) by auto
  then have h: "hd slots' \<in> set slots" unfolding same by (rule hd_in_set)
  let ?rel = "\<lambda>a b. rv_mode b = rv_mode a \<and> rv_target b = rv_target a \<and> (if family_kind (rv_kind a) then family_kind (rv_kind b) else rv_kind b = rv_kind a)"
  have all: "\<forall>r\<in>set slots. ?rel (hd slots) r" using assms(2) unfolding validate_group_def Let_def list_all_iff by (rule conjunct1)
  then have a: "?rel (hd slots) (hd slots')" using h by blast
  then have "family_kind (rv_kind (hd slots')) \<longleftrightarrow> family_kind (rv_kind (hd slots))" by (cases "family_kind (rv_kind (hd slots))") simp_all
  moreover have "\<forall>r\<in>set slots'. ?rel (hd slots') r"
  proof
    fix r assume "r \<in> set slots'"
    then have "?rel (hd slots) r" using all same by blast
    then show "?rel (hd slots') r" using a by (cases "family_kind (rv_kind (hd slots))") simp_all
  qed
  moreover have "distinct (map occurrence_id slots) \<longleftrightarrow> distinct (map occurrence_id slots')"
    "distinct (map (\<lambda>r. (definition_id r, rv_slot r)) slots) \<longleftrightarrow> distinct (map (\<lambda>r. (definition_id r, rv_slot r)) slots')"
    by (rule mset_eq_imp_distinct_iff; simp add: assms(1))+
  moreover have "length (filter P slots) = length (filter P slots')" for P using assms(1) by (metis mset_filter size_mset)
  ultimately show ?thesis using assms(2) same by (simp add: validate_group_def Let_def list_all_iff)
qed

lemma overdue_perm:
  assumes "mset slots = mset slots'" and "distinct (map occurrence_id slots)"
  shows "overdue_slots slots cutoff = overdue_slots slots' cutoff"
proof -
  have "inj_on slot_order (set slots)" using assms(2) by (auto simp: distinct_map inj_on_def slot_order_def)
  then have "inj_on slot_order (set (filter P slots))" for P by (rule inj_on_subset) auto
  moreover have "mset (filter P slots) = mset (sort_key slot_order (filter P slots'))" for P using assms(1) by (metis mset_filter mset_sort)
  ultimately show ?thesis unfolding overdue_slots_def by (intro sort_key_inj_key_eq) auto
qed

text \<open>
  The plan does not depend on the order in which the slots of a group are supplied.
\<close>

theorem plan_recovery_order:
  assumes "mset slots = mset slots'"
  shows "plan_recovery slots cutoff f = plan_recovery slots' cutoff f"
proof (cases "slots = [] \<or> \<not> validate_group slots")
  case True
  moreover have "\<not> validate_group slots'" if "\<not> validate_group slots" "slots \<noteq> []"
    using validate_group_perm [of slots' slots] that assms by (metis mset_zero_iff)
  moreover have "slots' = [] \<longleftrightarrow> slots = []" using assms by auto
  ultimately show ?thesis using mset_eq_length [OF assms] by (auto simp: plan_recovery_def)
next
  case False
  then have v: "validate_group slots'" "slots' \<noteq> []" using validate_group_perm [OF assms] assms by auto
  have "hd slots' \<in> set slots" using v(2) mset_eq_setD [OF assms] by simp
  then have fam: "family_kind (rv_kind (hd slots')) \<longleftrightarrow> family_kind (rv_kind (hd slots))" using False validate_groupD(2) by blast
  have ov: "overdue_slots slots' cutoff = overdue_slots slots cutoff"
    using False validate_groupD(1) overdue_perm [OF assms] by metis
  show ?thesis unfolding plan_recovery_def Let_def fam ov using False v mset_eq_length [OF assms] by simp
qed

section \<open>An example\<close>

definition demo_slot_at :: "nat \<Rightarrow> string \<Rightarrow> int \<Rightarrow> string \<Rightarrow> recovery_slot" where
  "demo_slot_at i kind due state = \<lparr>occurrence_id = i, definition_id = i, rv_kind = kind, rv_mode = ''production'', rv_target = ''family:1'',
     rv_slot = ''a'', rv_due_at = due, rv_state = state, safely_cancellable = True, held = False\<rparr>"

definition demo_slots :: "recovery_slot list" where
  "demo_slots = [demo_slot_at 3 ''reminder'' 30 ''pending'', demo_slot_at 1 ''initial'' 10 ''pending'', demo_slot_at 2 ''reminder'' 20 ''pending'', demo_slot_at 4 ''reminder'' 90 ''pending'']"

definition demo_family :: family_state where
  "demo_family = \<lparr>closed = False, eligible = True, responded = False, deliverable = True, initial_delivered = False, excluded = False\<rparr>"

theorem plan_recovery_correct_witness:
  "\<exists>p. plan_recovery demo_slots 50 demo_family = Inr p \<and> rp_selected p = Some 1 \<and> set (outcomes p) = {1, 2, 3}"
proof -
  obtain p where p: "plan_recovery demo_slots 50 demo_family = Inr p" "rp_selected p = Some 1" "\<not> rp_blocked p"
  proof
    show "plan_recovery demo_slots 50 demo_family = Inr \<lparr>rp_selected = Some 1, rp_coalesced = [2, 3], rp_skipped = [], rp_reason = ''missed_family_recovery'', rp_blocked = False\<rparr>"
      by code_simp
  qed simp_all
  have "occurrence_id ` {r \<in> set demo_slots. is_overdue 50 r \<and> active_state r} = {1, 2, 3}" by code_simp
  then show ?thesis using plan_recovery_correct [OF p(1)] p by auto
qed

theorem plan_recovery_order_witness:
  "plan_recovery (rev demo_slots) 50 demo_family = plan_recovery demo_slots 50 demo_family"
  using plan_recovery_order [of "rev demo_slots" demo_slots] by simp

end
