(* ===== verification/Authority.thy ===== *)
theory Authority
  imports Canonical
begin

text \<open>
  \<open>stewardship/accounts/authority.py\<close>: versions of the configuration, the store that holds them as files with a
  manifest of the selected one, and the protocol that applies a version to the store and the
  database. A file holds a document, as the YAML library returns it. \<open>sha\<close> is the SHA-256 digest, \<open>validate\<close> the
  schema validator of the owner, and the database side is a record of operations on its state \<open>'d\<close>. An operation that
  writes gives the state it commits or an error; \<open>apply_version\<close> returns the states it passes through, so that
  an interruption at any point is one of them.
\<close>

section \<open>Versions\<close>

definition SCHEMA_VERSION :: int where
  "SCHEMA_VERSION = 1"

definition SECTIONS :: "string list" where
  "SECTIONS = [''parish'', ''integrations'', ''login_rules'', ''campaigns'', ''content'', ''schedules'', ''schedule_series'',
     ''share_options'', ''ministries'', ''funds'']"

definition config_error :: "string \<Rightarrow> exn" where
  "config_error msg = ConfigError msg [] []"

definition uuid_value :: "pyval \<Rightarrow> string res" where
  "uuid_value v =
     (case v of
        PStr s \<Rightarrow> (case uuid_of s of Some u \<Rightarrow> Inr u | None \<Rightarrow> Inl (config_error ''configuration IDs must be UUID strings''))
      | _ \<Rightarrow> Inl (config_error ''configuration IDs must be UUID strings''))"

definition is_digest :: "string \<Rightarrow> bool" where
  "is_digest s \<longleftrightarrow> length s = 64 \<and> list_all (\<lambda>c. is_digit c \<or> c \<in> set ''abcdef'') s"

definition digest_value :: "pyval \<Rightarrow> string res" where
  "digest_value v =
     (case v of PStr s \<Rightarrow> if is_digest s then Inr s else Inl (config_error ''invalid configuration digest'')
              | _ \<Rightarrow> Inl (config_error ''invalid configuration digest''))"

text \<open>\<open>_json_value\<close>: the copy it makes is the value itself, so only the budget left is returned.\<close>

definition spend :: "int \<Rightarrow> nat \<Rightarrow> int res" where
  "spend budget depth =
     (if budget - 1 < 0 \<or> depth > 32 then Inl (config_error ''configuration document exceeds structural limits'') else Inr (budget - 1))"

fun json_value :: "int \<Rightarrow> nat \<Rightarrow> pyval \<Rightarrow> int res"
  and json_values :: "int \<Rightarrow> nat \<Rightarrow> pyval list \<Rightarrow> int res"
  and json_items :: "int \<Rightarrow> nat \<Rightarrow> mapping_value \<Rightarrow> int res" where
  "json_value budget depth v =
     bind_res (spend budget depth) (\<lambda>b.
       case v of
         PNone \<Rightarrow> Inr b
       | PStr _ \<Rightarrow> Inr b
       | PBool _ \<Rightarrow> Inr b
       | PInt _ \<Rightarrow> Inr b
       | PList vs \<Rightarrow> json_values b (depth + 1) vs
       | PDict d \<Rightarrow> json_items b (depth + 1) d
       | _ \<Rightarrow> Inl (config_error ''configuration values must use explicit JSON-compatible types''))"
| "json_values budget depth [] = Inr budget"
| "json_values budget depth (v # vs) = bind_res (json_value budget depth v) (\<lambda>b. json_values b depth vs)"
| "json_items budget depth [] = Inr budget"
| "json_items budget depth ((k, v) # d) = bind_res (json_value budget depth v) (\<lambda>b. json_items b depth d)"

record version =
  version_id :: string
  predecessor_digest :: "string option"
  document :: pyval

definition canonical :: "version \<Rightarrow> string" where
  "canonical v = json_text (document v)"

definition digest :: "(string \<Rightarrow> string) \<Rightarrow> version \<Rightarrow> string" where
  "digest sha v = sha (canonical v)"

definition bad_record :: exn where
  "bad_record = config_error ''configuration records require IDs and value mappings''"

definition normal_record :: "string list \<times> (string \<times> pyval) list \<Rightarrow> pyval \<Rightarrow> (string list \<times> (string \<times> pyval) list) res" where
  "normal_record acc rec =
     (case (acc, rec) of
        ((seen, done), PDict d) \<Rightarrow>
          if \<not> has_keys d [''id'', ''values''] \<or> dict_value (dget_none d ''values'') = None then Inl bad_record
          else bind_res (uuid_value (dget_none d ''id'')) (\<lambda>u.
               if u \<in> set seen then Inl (config_error ''configuration record IDs must be globally unique'')
               else Inr (u # seen, done @ [(u, PDict (AList.update ''id'' (PStr u) d))]))
      | _ \<Rightarrow> Inl bad_record)"

definition normal_section :: "string list \<times> mapping_value \<Rightarrow> string \<times> pyval \<Rightarrow> (string list \<times> mapping_value) res" where
  "normal_section acc section =
     (case (acc, section) of ((seen, done), (name, v)) \<Rightarrow>
        case v of
          PList recs \<Rightarrow>
            bind_res (foldM_res normal_record (seen, []) recs) (\<lambda>(seen', rs).
              Inr (seen', done @ [(name, PList (map snd (sort_key fst rs)))]))
        | _ \<Rightarrow> Inl (config_error ''configuration sections must be record lists''))"

definition normal_predecessor :: "pyval \<Rightarrow> string option res" where
  "normal_predecessor v = (if v = PNone then Inr None else bind_res (digest_value v) (\<lambda>s. Inr (Some s)))"

definition normal_sections :: "pyval \<Rightarrow> mapping_value res" where
  "normal_sections v =
     (case v of
        PDict sections \<Rightarrow>
          if \<not> fst ` set sections \<subseteq> set SECTIONS then Inl (config_error ''unknown configuration section'')
          else bind_res (foldM_res normal_section ([], []) sections) (\<lambda>(_, done). Inr done)
      | _ \<Rightarrow> Inl (config_error ''unknown configuration section''))"

definition envelope :: "pyval \<Rightarrow> mapping_value res" where
  "envelope v =
     (case v of
        PDict d \<Rightarrow>
          if \<not> has_keys d [''schema_version'', ''version_id'', ''predecessor_digest'', ''sections'']
          then Inl (config_error ''invalid configuration version envelope'')
          else if dget_none d ''schema_version'' \<noteq> PInt SCHEMA_VERSION then Inl (config_error ''unsupported configuration schema version'')
          else Inr d
      | _ \<Rightarrow> Inl (config_error ''invalid configuration version envelope''))"

text \<open>The document of a version has the keys of every mapping in order, as \<open>json.loads\<close> of the canonical text has them.\<close>

definition parse_version :: "(pyval \<Rightarrow> unit res) \<Rightarrow> pyval \<Rightarrow> version res" where
  "parse_version validate v =
     bind_res (envelope v) (\<lambda>d.
     bind_res (json_value 100000 0 v) (\<lambda>_.
     bind_res (uuid_value (dget_none d ''version_id'')) (\<lambda>u.
     bind_res (normal_predecessor (dget_none d ''predecessor_digest'')) (\<lambda>predecessor.
     bind_res (normal_sections (dget_none d ''sections'')) (\<lambda>sections.
       let doc = sort_keys (PDict (AList.update ''sections'' (PDict sections) (AList.update ''version_id'' (PStr u) d)))
       in if length (json_text doc) > 2000000 then Inl (config_error ''configuration document exceeds byte limit'')
          else bind_res (validate doc) (\<lambda>_.
            Inr \<lparr>version_id = u, predecessor_digest = predecessor, document = doc\<rparr>))))))"

section \<open>The store\<close>

record store =
  st_files :: "(string, pyval) dict"
  st_manifest :: "pyval option"

text \<open>The handler of \<open>ConfigError\<close>, \<open>OSError\<close> and its subclasses; any other exception of the validator passes.\<close>

definition unreadable :: "string \<Rightarrow> 'a res \<Rightarrow> 'a res" where
  "unreadable msg r =
     (case r of
        Inl (ConfigError _ _ _) \<Rightarrow> Inl (config_error msg)
      | Inl (OSError _) \<Rightarrow> Inl (config_error msg)
      | Inl TimeoutError \<Rightarrow> Inl (config_error msg)
      | Inl ConnectionError \<Rightarrow> Inl (config_error msg)
      | _ \<Rightarrow> r)"

definition read_version :: "(pyval \<Rightarrow> unit res) \<Rightarrow> store \<Rightarrow> string \<Rightarrow> version res" where
  "read_version validate st vid =
     bind_res (unreadable ''configuration version is unreadable or invalid''
        (case map_of (st_files st) vid of
           None \<Rightarrow> Inl (OSError ''no such file'')
         | Some v \<Rightarrow> parse_version validate v)) (\<lambda>version.
       if version_id version \<noteq> vid then Inl (config_error ''configuration version identity mismatch'') else Inr version)"

definition manifest_reference :: "store \<Rightarrow> (string \<times> string) option res" where
  "manifest_reference st =
     (case st_manifest st of
        None \<Rightarrow> Inr None
      | Some m \<Rightarrow>
          unreadable ''active configuration manifest is unreadable or invalid''
            (case m of
               PDict d \<Rightarrow>
                 if \<not> has_keys d [''schema_version'', ''version_id'', ''digest''] \<or> dget_none d ''schema_version'' \<noteq> PInt SCHEMA_VERSION
                 then Inl (config_error ''invalid active manifest schema'')
                 else bind_res (uuid_value (dget_none d ''version_id'')) (\<lambda>u.
                      bind_res (digest_value (dget_none d ''digest'')) (\<lambda>h. Inr (Some (u, h))))
             | _ \<Rightarrow> Inl (config_error ''invalid active manifest schema'')))"

definition active_version :: "(string \<Rightarrow> string) \<Rightarrow> (pyval \<Rightarrow> unit res) \<Rightarrow> store \<Rightarrow> version option res" where
  "active_version sha validate st =
     bind_res (manifest_reference st) (\<lambda>ref.
       case ref of
         None \<Rightarrow> Inr None
       | Some (vid, h) \<Rightarrow>
           unreadable ''active configuration manifest is unreadable or invalid''
             (bind_res (read_version validate st vid) (\<lambda>version.
                if digest sha version \<noteq> h then Inl (config_error ''active manifest digest mismatch'') else Inr (Some version))))"

definition write_version :: "(string \<Rightarrow> string) \<Rightarrow> (pyval \<Rightarrow> unit res) \<Rightarrow> version \<Rightarrow> store \<Rightarrow> store res" where
  "write_version sha validate version st =
     bind_res (parse_version validate (document version)) (\<lambda>validated.
       if validated \<noteq> version then Inl (config_error ''configuration metadata does not match its canonical document'')
       else case map_of (st_files st) (version_id version) of
         None \<Rightarrow> Inr (st\<lparr>st_files := AList.update (version_id version) (document version) (st_files st)\<rparr>)
       | Some _ \<Rightarrow>
           bind_res (read_version validate st (version_id version)) (\<lambda>existing.
             if digest sha existing \<noteq> digest sha version
             then Inl (config_error ''cannot replace an immutable configuration version'') else Inr st))"

definition select_version :: "(string \<Rightarrow> string) \<Rightarrow> (pyval \<Rightarrow> unit res) \<Rightarrow> version \<Rightarrow> store \<Rightarrow> store res" where
  "select_version sha validate version st =
     bind_res (read_version validate st (version_id version)) (\<lambda>existing.
       if digest sha existing \<noteq> digest sha version then Inl (config_error ''cannot select a mismatched configuration version'')
       else Inr (st\<lparr>st_manifest := Some (PDict [(''schema_version'', PInt SCHEMA_VERSION), (''version_id'', PStr (version_id version)),
                                                (''digest'', PStr (digest sha version))])\<rparr>))"

section \<open>The protocol\<close>

record 'd materializer =
  mt_active :: "'d \<Rightarrow> string option"
  mt_prepare :: "version \<Rightarrow> 'd \<Rightarrow> 'd res"
  mt_is_prepared :: "string \<Rightarrow> 'd \<Rightarrow> bool"
  mt_activate :: "string \<Rightarrow> 'd \<Rightarrow> 'd res"

definition activate_step :: "'d materializer \<Rightarrow> string \<Rightarrow> string \<Rightarrow> store \<Rightarrow> 'd \<Rightarrow> (store \<times> 'd) list \<times> unit res" where
  "activate_step mt h msg st db =
     (case mt_activate mt h db of
        Inl e \<Rightarrow> ([], Inl e)
      | Inr db' \<Rightarrow> ([(st, db')], if mt_active mt db' \<noteq> Some h then Inl (config_error msg) else Inr ()))"

definition apply_change ::
  "(string \<Rightarrow> string) \<Rightarrow> (pyval \<Rightarrow> unit res) \<Rightarrow> 'd materializer \<Rightarrow> version \<Rightarrow> store \<Rightarrow> 'd \<Rightarrow> (store \<times> 'd) list \<times> unit res" where
  "apply_change sha validate mt version st db =
     (case write_version sha validate version st of
        Inl e \<Rightarrow> ([], Inl e)
      | Inr st1 \<Rightarrow>
          (case mt_prepare mt version db of
             Inl e \<Rightarrow> ([(st1, db)], Inl e)
           | Inr db1 \<Rightarrow>
               if \<not> mt_is_prepared mt (digest sha version) db1
               then ([(st1, db), (st1, db1)], Inl (config_error ''configuration materialization is incomplete''))
               else (case select_version sha validate version st1 of
                       Inl e \<Rightarrow> ([(st1, db), (st1, db1)], Inl e)
                     | Inr st2 \<Rightarrow>
                         (case activate_step mt (digest sha version) ''configuration activation did not converge'' st2 db1 of
                            (states, r) \<Rightarrow> ([(st1, db), (st1, db1), (st2, db1)] @ states, r)))))"

definition apply_version ::
  "(string \<Rightarrow> string) \<Rightarrow> (pyval \<Rightarrow> unit res) \<Rightarrow> 'd materializer \<Rightarrow> version \<Rightarrow> store \<times> 'd \<Rightarrow> (store \<times> 'd) list \<times> unit res" where
  "apply_version sha validate mt version w =
     (case w of (st, db) \<Rightarrow>
        case active_version sha validate st of
          Inl e \<Rightarrow> ([], Inl e)
        | Inr active \<Rightarrow>
            (let current = map_option (digest sha) active
             in if current \<noteq> mt_active mt db then ([], Inl (config_error ''configuration recovery is required before applying a change''))
                else if current = Some (digest sha version) then
                  ([], if mt_is_prepared mt (digest sha version) db then Inr ()
                       else Inl (config_error ''active configuration materialization is incomplete''))
                else if current \<noteq> predecessor_digest version then ([], Inl (config_error ''configuration change is based on a stale version''))
                else apply_change sha validate mt version st db))"

definition recover_active ::
  "(string \<Rightarrow> string) \<Rightarrow> (pyval \<Rightarrow> unit res) \<Rightarrow> 'd materializer \<Rightarrow> store \<times> 'd \<Rightarrow> (store \<times> 'd) list \<times> unit res" where
  "recover_active sha validate mt w =
     (case w of (st, db) \<Rightarrow>
        case active_version sha validate st of
          Inl e \<Rightarrow> ([], Inl e)
        | Inr None \<Rightarrow> ([], if mt_active mt db \<noteq> None then Inl (config_error ''configuration manifest is missing'') else Inr ())
        | Inr (Some active) \<Rightarrow>
            if \<not> mt_is_prepared mt (digest sha active) db then ([], Inl (config_error ''active configuration has no matching prepared snapshot''))
            else if mt_active mt db = Some (digest sha active) then ([], Inr ())
            else activate_step mt (digest sha active) ''configuration recovery did not converge'' st db)"

text \<open>\<open>authority_mismatch\<close>: whether the error names an activation in progress.\<close>

definition activation_pending :: "(string \<Rightarrow> string) \<Rightarrow> version option \<Rightarrow> string option \<Rightarrow> bool \<Rightarrow> bool" where
  "activation_pending sha selected active_digest bootstrap =
     (case (selected, active_digest) of
        (Some v, Some h) \<Rightarrow> \<not> bootstrap \<and> digest sha v \<noteq> h \<and> predecessor_digest v = Some h
      | _ \<Rightarrow> False)"

end
