(* ===== verification/Authority_Facts.thy ===== *)
theory Authority_Facts
  imports Authority Comparison
begin

text \<open>
  Applying and recovering configuration versions. However changes are interrupted, the manifest selects a
  stored and prepared version, the database is on it or on its predecessor, and recovery brings
  the two together.
\<close>

section \<open>UUIDs\<close>

text \<open>The text of a UUID is the text of the UUID it denotes.\<close>

lemma hex_char_cases: "n < 16 \<Longrightarrow> hex_char n \<in> set ''0123456789abcdef''"
proof -
  assume "n < 16"
  moreover have "list_all (\<lambda>n. hex_char n \<in> set ''0123456789abcdef'') [0..<16]" by code_simp
  ultimately show ?thesis by (simp add: list_all_iff)
qed

lemma hex_char_facts:
  assumes "c \<in> set ''0123456789abcdef''"
  shows "is_hex c" "c \<noteq> CHR ''u''" "c \<noteq> CHR ''-''" "c \<noteq> CHR ''_''" "c \<noteq> CHR ''+''" "c \<noteq> CHR ''x''" "lower_char c = c" "\<not> is_space c"
    "c \<noteq> CHR ''{''" "c \<noteq> CHR ''}''"
proof -
  have "list_all (\<lambda>c. is_hex c \<and> c \<noteq> CHR ''u'' \<and> c \<noteq> CHR ''-'' \<and> c \<noteq> CHR ''_'' \<and> c \<noteq> CHR ''+'' \<and> c \<noteq> CHR ''x'' \<and> lower_char c = c \<and> \<not> is_space c
      \<and> c \<noteq> CHR ''{'' \<and> c \<noteq> CHR ''}'') ''0123456789abcdef''" by code_simp
  then show "is_hex c" "c \<noteq> CHR ''u''" "c \<noteq> CHR ''-''" "c \<noteq> CHR ''_''" "c \<noteq> CHR ''+''" "c \<noteq> CHR ''x''" "lower_char c = c" "\<not> is_space c"
    "c \<noteq> CHR ''{''" "c \<noteq> CHR ''}''" using assms unfolding list_all_iff by blast+
qed

lemma hex_value_char:
  assumes "n < 16"
  shows "hex_digit (hex_char n) = n"
proof (cases "n < 10")
  case False
  then have "(of_char (hex_char n) :: nat) = 87 + n" using assms by (simp add: hex_char_def)
  then show ?thesis using False hex_char_facts(7) [OF hex_char_cases [OF assms]] by (simp add: hex_digit_def is_digit_def)
qed (simp add: hex_char_def hex_digit_def is_digit_def)

lemma hex_text_facts:
  "length (hex_text k n) = k" "set (hex_text k n) \<subseteq> set ''0123456789abcdef''"
  "foldl (\<lambda>acc c. 16 * acc + hex_digit c) 0 (hex_text k n) = n mod 16 ^ k" "hex_text k (n mod 16 ^ k) = hex_text k n"
proof (induction k arbitrary: n)
  case (Suc k)
  { case 1 then show ?case using Suc(1) by simp }
  { case 2 then show ?case using Suc(2) hex_char_cases [of "n mod 16"] by auto }
  { case 3
    have "16 * (n div 16 mod 16 ^ k) + n mod 16 = n mod (16 * 16 ^ k)" by (simp add: mod_mult2_eq)
    then show ?case using Suc(3) by (simp add: hex_value_char) }
  { case 4
    have "n mod (16 * 16 ^ k) div 16 = n div 16 mod 16 ^ k" "n mod (16 * 16 ^ k) mod 16 = n mod 16"
      by (simp_all add: mod_mult2_eq)
    then show ?case using Suc(4) by simp }
qed simp_all

lemma replace_absent:
  assumes "old \<noteq> []" and "hd old \<notin> set s"
  shows "replace old new s = s"
  using assms(2)
proof (induction s)
  case (Cons c s)
  then have "\<not> startswith (c # s) old" using assms(1) by (cases old) (auto simp: startswith_def)
  then show ?case using Cons assms(1) by (subst replace.simps) simp
qed (simp add: replace.simps)

lemma parse_hex_text:
  assumes "0 < k"
  shows "parse_hex (hex_text k n) = Some (n mod 16 ^ k)"
proof -
  let ?h = "hex_text k n"
  note h = hex_text_facts(1-3) [of k n]
  note f = hex_char_facts [OF subsetD [OF h(2)]]
  have ne: "?h \<noteq> []" using h(1) assms by auto
  have strip: "strip ?h = ?h" using ne f(8) by (intro strip_by_id) auto
  have plus: "\<not> startswith ?h ''+''" using ne f(5) by (cases ?h) (auto simp: startswith_def)
  have low: "lower ?h = ?h" using f(7) by (simp add: lower_def map_idI)
  have zx: "\<not> startswith ?h ''0x''"
  proof
    assume "startswith ?h ''0x''"
    then have "CHR ''x'' \<in> set (take (length ''0x'') ?h)" unfolding startswith_def by simp
    then have "CHR ''x'' \<in> set ?h" by (rule in_set_takeD)
    then show False using f(6) by blast
  qed
  have "split_on CHR ''_'' ?h = [?h]" using f(4) by (intro split_on_id) blast
  then show ?thesis using strip plus low zx ne f(1) h(3) by (simp add: parse_hex_def list_all_iff)
qed

lemma uuid_text_idem: "uuid_of (uuid_text n) = Some (uuid_text n)"
proof -
  let ?h = "hex_text 32 n" and ?u = "uuid_text n"
  note h = hex_text_facts(1,2) [of 32 n]
  note f = hex_char_facts [OF subsetD [OF h(2)]]
  have parts: "take 8 ?h @ take 4 (drop 8 ?h) @ take 4 (drop 12 ?h) @ take 4 (drop 16 ?h) @ drop 20 ?h = ?h"
    using append_take_drop_id [of 8 ?h] append_take_drop_id [of 4 "drop 8 ?h"] append_take_drop_id [of 4 "drop 12 ?h"] append_take_drop_id [of 4 "drop 16 ?h"]
    by simp
  have set: "set ?u \<subseteq> insert CHR ''-'' (set ?h)"
    by (auto simp: uuid_text_def Let_def dest: in_set_takeD in_set_dropD)
  have "CHR ''u'' \<notin> set ?u" using set f(2) by blast
  then have r: "replace ''uuid:'' [] (replace ''urn:'' [] ?u) = ?u" by (simp add: replace_absent)
  have "filter (\<lambda>c. c \<noteq> CHR ''-'') ?h = ?h" using f(3) by (intro filter_True) blast
  moreover have "filter (\<lambda>c. c \<noteq> CHR ''-'') ?u = filter (\<lambda>c. c \<noteq> CHR ''-'') (take 8 ?h @ take 4 (drop 8 ?h) @ take 4 (drop 12 ?h) @ take 4 (drop 16 ?h) @ drop 20 ?h)"
    by (simp add: uuid_text_def Let_def)
  ultimately have flt: "filter (\<lambda>c. c \<noteq> CHR ''-'') ?u = ?h" unfolding parts by simp
  have ne: "?u \<noteq> []" by (simp add: uuid_text_def Let_def)
  have braces: "c \<noteq> CHR ''{'' \<and> c \<noteq> CHR ''}''" if "c \<in> set ?u" for c
  proof (cases "c = CHR ''-''")
    case False
    then have "c \<in> set ?h" using that set by blast
    then show ?thesis using f(9,10) by blast
  qed simp
  have mod: "uuid_text (n mod 16 ^ 32) = ?u" by (simp only: uuid_text_def hex_text_facts(4))
  have st: "strip_by (\<lambda>c. c = CHR ''{'' \<or> c = CHR ''}'') ?u = ?u"
    using braces [OF hd_in_set [OF ne]] braces [OF last_in_set [OF ne]] by (intro strip_by_id) blast+
  have "parse_hex ?h = Some (n mod 16 ^ 32)" by (rule parse_hex_text) simp
  then show ?thesis unfolding uuid_of_def Let_def r st flt by (simp only: h(1) mod simp_thms if_False option.map)
qed

lemma uuid_of_idem: "uuid_of s = Some u \<Longrightarrow> uuid_of u = Some u"
proof -
  assume "uuid_of s = Some u"
  then obtain n where "u = uuid_text n" by (auto simp: uuid_of_def Let_def split: if_splits)
  then show ?thesis using uuid_text_idem by simp
qed

section \<open>Contracts\<close>

text \<open>
  What the database side promises (\<open>Materializer\<close>): preparing keeps the active version and what was prepared, activating
  commits the pointer and keeps what was prepared, and a prepared snapshot can be activated.
\<close>

definition materializer_laws :: "'d materializer \<Rightarrow> bool" where
  "materializer_laws mt \<longleftrightarrow>
     (\<forall>v d d'. mt_prepare mt v d = Inr d' \<longrightarrow> mt_active mt d' = mt_active mt d \<and> (\<forall>h. mt_is_prepared mt h d \<longrightarrow> mt_is_prepared mt h d')) \<and>
     (\<forall>h d d'. mt_activate mt h d = Inr d' \<longrightarrow> mt_active mt d' = Some h \<and> (\<forall>x. mt_is_prepared mt x d \<longrightarrow> mt_is_prepared mt x d')) \<and>
     (\<forall>h d. mt_is_prepared mt h d \<longrightarrow> (\<exists>d'. mt_activate mt h d = Inr d'))"

lemma prepareD:
  "materializer_laws mt \<Longrightarrow> mt_prepare mt v d = Inr d' \<Longrightarrow> mt_active mt d' = mt_active mt d \<and> (mt_is_prepared mt h d \<longrightarrow> mt_is_prepared mt h d')"
  unfolding materializer_laws_def by blast

lemma activateD:
  "materializer_laws mt \<Longrightarrow> mt_activate mt h d = Inr d' \<Longrightarrow> mt_active mt d' = Some h \<and> (mt_is_prepared mt x d \<longrightarrow> mt_is_prepared mt x d')"
  unfolding materializer_laws_def by blast

lemma activate_total: "materializer_laws mt \<Longrightarrow> mt_is_prepared mt h d \<Longrightarrow> \<exists>d'. mt_activate mt h d = Inr d'"
  unfolding materializer_laws_def by blast

text \<open>The versions of a deployment: their digests are digests, and no two collide.\<close>

definition versions_ok :: "(string \<Rightarrow> string) \<Rightarrow> version set \<Rightarrow> bool" where
  "versions_ok sha V \<longleftrightarrow> inj_on (digest sha) V \<and> (\<forall>v\<in>V. is_digest (digest sha v))"

section \<open>The invariant\<close>

definition manifest_of :: "(string \<Rightarrow> string) \<Rightarrow> version \<Rightarrow> pyval" where
  "manifest_of sha v = PDict [(''schema_version'', PInt SCHEMA_VERSION), (''version_id'', PStr (version_id v)), (''digest'', PStr (digest sha v))]"

definition stored :: "(pyval \<Rightarrow> unit res) \<Rightarrow> version \<Rightarrow> store \<Rightarrow> bool" where
  "stored validate v st \<longleftrightarrow> map_of (st_files st) (version_id v) = Some (document v) \<and> parse_version validate (document v) = Inr v"

definition authority_inv ::
  "(string \<Rightarrow> string) \<Rightarrow> (pyval \<Rightarrow> unit res) \<Rightarrow> 'd materializer \<Rightarrow> version set \<Rightarrow> store \<times> 'd \<Rightarrow> bool" where
  "authority_inv sha validate mt V w \<longleftrightarrow>
     (case w of (st, db) \<Rightarrow>
        (\<forall>vid doc. map_of (st_files st) vid = Some doc \<longrightarrow> (\<exists>v\<in>V. version_id v = vid \<and> document v = doc \<and> stored validate v st)) \<and>
        (case st_manifest st of
           None \<Rightarrow> mt_active mt db = None
         | Some m \<Rightarrow> \<exists>v\<in>V. m = manifest_of sha v \<and> stored validate v st \<and> mt_is_prepared mt (digest sha v) db \<and>
                      (mt_active mt db = Some (digest sha v) \<or> mt_active mt db = predecessor_digest v)))"

lemma parse_version_id: "parse_version validate p = Inr v \<Longrightarrow> uuid_of (version_id v) = Some (version_id v)"
  by (auto simp: parse_version_def uuid_value_def Let_def split: if_splits pyval.splits option.splits elim!: bind_resE dest: uuid_of_idem)

lemma read_stored: "stored validate v st \<Longrightarrow> read_version validate st (version_id v) = Inr v"
  by (simp add: stored_def read_version_def unreadable_def)

lemma active_stored:
  assumes "stored validate v st" and "st_manifest st = Some (manifest_of sha v)" and "is_digest (digest sha v)"
  shows "active_version sha validate st = Inr (Some v)"
proof -
  have "uuid_of (version_id v) = Some (version_id v)" using assms(1) parse_version_id by (auto simp: stored_def)
  then have "manifest_reference st = Inr (Some (version_id v, digest sha v))"
    using assms(2,3) by (simp add: manifest_reference_def manifest_of_def has_keys_def dget_def uuid_value_def digest_value_def unreadable_def)
  then show ?thesis using read_stored [OF assms(1)] by (simp add: active_version_def unreadable_def)
qed

text \<open>In a state of the invariant the store reads its selected version.\<close>

lemma inv_active:
  assumes "versions_ok sha V" and "authority_inv sha validate mt V (st, db)"
  obtains (empty) "st_manifest st = None" "active_version sha validate st = Inr None" "mt_active mt db = None"
  | (version) v where "v \<in> V" "st_manifest st = Some (manifest_of sha v)" "stored validate v st" "active_version sha validate st = Inr (Some v)"
      "mt_is_prepared mt (digest sha v) db" "mt_active mt db = Some (digest sha v) \<or> mt_active mt db = predecessor_digest v"
proof (cases "st_manifest st")
  case None
  then show ?thesis using empty assms(2) by (simp add: authority_inv_def active_version_def manifest_reference_def)
next
  case (Some m)
  then obtain v where v: "v \<in> V" "m = manifest_of sha v" "stored validate v st" "mt_is_prepared mt (digest sha v) db"
      "mt_active mt db = Some (digest sha v) \<or> mt_active mt db = predecessor_digest v" using assms(2) by (auto simp: authority_inv_def)
  moreover have "active_version sha validate st = Inr (Some v)"
    using v Some assms(1) by (intro active_stored) (auto simp: versions_ok_def)
  ultimately show ?thesis using version Some by blast
qed

lemma inv_files:
  assumes "authority_inv sha validate mt V (st, db)" and "map_of (st_files st) vid = Some doc"
  obtains v where "v \<in> V" "version_id v = vid" "document v = doc" "stored validate v st"
  using assms by (auto simp: authority_inv_def)

section \<open>Writing and selecting\<close>

lemma write_version_ok:
  assumes "versions_ok sha V" and inv: "authority_inv sha validate mt V (st, db)" and "v \<in> V"
    and w: "write_version sha validate v st = Inr st1"
  shows "stored validate v st1" and "st_manifest st1 = st_manifest st"
    and "map_of (st_files st) vid = Some doc \<Longrightarrow> map_of (st_files st1) vid = Some doc"
    and "map_of (st_files st1) vid = Some doc \<Longrightarrow> map_of (st_files st) vid = Some doc \<or> vid = version_id v \<and> doc = document v"
proof -
  have p: "parse_version validate (document v) = Inr v" using w by (auto simp: write_version_def split: if_splits)
  have "stored validate v st1 \<and> st_manifest st1 = st_manifest st \<and>
      (map_of (st_files st) vid = Some doc \<longrightarrow> map_of (st_files st1) vid = Some doc) \<and>
      (map_of (st_files st1) vid = Some doc \<longrightarrow> map_of (st_files st) vid = Some doc \<or> vid = version_id v \<and> doc = document v)" for vid doc
  proof (cases "map_of (st_files st) (version_id v)")
    case None
    then have "st1 = st\<lparr>st_files := AList.update (version_id v) (document v) (st_files st)\<rparr>" using w p by (simp add: write_version_def)
    then show ?thesis using None p by (auto simp: stored_def update_conv')
  next
    case (Some old)
    then obtain u where u: "u \<in> V" "version_id u = version_id v" "stored validate u st" using inv_files [OF inv Some] by blast
    then have "digest sha u = digest sha v" "st1 = st"
      using w p Some read_stored [OF u(3)] by (simp_all add: write_version_def split: if_splits)
    then have "u = v" using assms(1,3) u(1) by (auto simp: versions_ok_def dest: inj_onD)
    then show ?thesis using u(3) \<open>st1 = st\<close> by simp
  qed
  then show "stored validate v st1" "st_manifest st1 = st_manifest st"
    "map_of (st_files st) vid = Some doc \<Longrightarrow> map_of (st_files st1) vid = Some doc"
    "map_of (st_files st1) vid = Some doc \<Longrightarrow> map_of (st_files st) vid = Some doc \<or> vid = version_id v \<and> doc = document v" by blast+
qed

lemma select_version_eq:
  "stored validate v st \<Longrightarrow> select_version sha validate v st = Inr (st\<lparr>st_manifest := Some (manifest_of sha v)\<rparr>)"
  using read_stored by (simp add: select_version_def manifest_of_def)

lemma stored_files: "st_files st = st_files st' \<Longrightarrow> stored validate v st = stored validate v st'"
  by (simp add: stored_def)

definition grows :: "store \<Rightarrow> store \<Rightarrow> bool" where
  "grows st st1 \<longleftrightarrow> (\<forall>vid doc. map_of (st_files st) vid = Some doc \<longrightarrow> map_of (st_files st1) vid = Some doc)"

lemma grows_stored: "grows st st1 \<Longrightarrow> stored validate v st \<Longrightarrow> stored validate v st1"
  by (simp add: grows_def stored_def)

text \<open>Writing a version and preparing it keep the invariant.\<close>

lemma inv_written:
  assumes inv: "authority_inv sha validate mt V (st, db)" and st1: "grows st st1" "st_manifest st1 = st_manifest st"
    and files: "\<And>vid doc. map_of (st_files st1) vid = Some doc \<Longrightarrow> \<exists>v\<in>V. version_id v = vid \<and> document v = doc \<and> stored validate v st1"
    and db: "mt_active mt db1 = mt_active mt db" "\<And>h. mt_is_prepared mt h db \<Longrightarrow> mt_is_prepared mt h db1"
  shows "authority_inv sha validate mt V (st1, db1)"
proof -
  have "case st_manifest st1 of None \<Rightarrow> mt_active mt db1 = None
    | Some m \<Rightarrow> \<exists>v\<in>V. m = manifest_of sha v \<and> stored validate v st1 \<and> mt_is_prepared mt (digest sha v) db1 \<and>
        (mt_active mt db1 = Some (digest sha v) \<or> mt_active mt db1 = predecessor_digest v)"
    using inv st1 db grows_stored [OF st1(1)] by (fastforce simp: authority_inv_def split: option.splits)
  then show ?thesis using files by (simp add: authority_inv_def)
qed

lemma inv_selected:
  assumes "v \<in> V" "stored validate v st" "st_manifest st = Some (manifest_of sha v)" "mt_is_prepared mt (digest sha v) db"
    and "mt_active mt db = Some (digest sha v) \<or> mt_active mt db = predecessor_digest v"
    and "\<And>vid doc. map_of (st_files st) vid = Some doc \<Longrightarrow> \<exists>v\<in>V. version_id v = vid \<and> document v = doc \<and> stored validate v st"
  shows "authority_inv sha validate mt V (st, db)"
  using assms by (auto simp: authority_inv_def)

definition step_ok ::
  "(string \<Rightarrow> string) \<Rightarrow> (pyval \<Rightarrow> unit res) \<Rightarrow> 'd materializer \<Rightarrow> version set \<Rightarrow> version \<Rightarrow> store \<times> 'd \<Rightarrow> store \<times> 'd \<Rightarrow> bool" where
  "step_ok sha validate mt V v w w' \<longleftrightarrow>
     authority_inv sha validate mt V w' \<and> grows (fst w) (fst w') \<and>
     (st_manifest (fst w') = st_manifest (fst w) \<and> mt_active mt (snd w') = mt_active mt (snd w) \<or>
      st_manifest (fst w') = Some (manifest_of sha v) \<and> stored validate v (fst w'))"

lemma activate_step_cases:
  assumes "activate_step mt h msg st db = (ws, r)" and "materializer_laws mt"
  shows "(ws = [] \<and> (\<exists>e. r = Inl e \<and> mt_activate mt h db = Inl e)) \<or>
    (\<exists>db'. mt_activate mt h db = Inr db' \<and> ws = [(st, db')] \<and> mt_active mt db' = Some h \<and> r = Inr ())"
  using assms activateD [OF assms(2), of h db] by (auto simp: activate_step_def split: sum.splits if_splits)

text \<open>The states of a change: the version written, the version prepared, the version selected.\<close>

lemma written:
  assumes "versions_ok sha V" and "authority_inv sha validate mt V (st, db)" and "v \<in> V" and "write_version sha validate v st = Inr st1"
  shows "grows st st1"
    and "map_of (st_files st1) vid = Some doc \<Longrightarrow> \<exists>u\<in>V. version_id u = vid \<and> document u = doc \<and> stored validate u st1"
proof -
  note w = write_version_ok [OF assms]
  show g: "grows st st1" unfolding grows_def using w(3) by blast
  show "\<exists>u\<in>V. version_id u = vid \<and> document u = doc \<and> stored validate u st1" if "map_of (st_files st1) vid = Some doc"
    using w(4) [OF that] inv_files [OF assms(2)] grows_stored [OF g] w(1) assms(3) by metis
qed

lemma step_written:
  assumes "versions_ok sha V" and "authority_inv sha validate mt V (st, db)" and "v \<in> V" and "write_version sha validate v st = Inr st1"
    and "mt_active mt d = mt_active mt db" and "\<And>h. mt_is_prepared mt h db \<Longrightarrow> mt_is_prepared mt h d"
  shows "step_ok sha validate mt V v (st, db) (st1, d)"
  unfolding step_ok_def
  using inv_written [OF assms(2) written(1) [OF assms(1-4)] write_version_ok(2) [OF assms(1-4)] written(2) [OF assms(1-4)] assms(5,6)]
    written(1) [OF assms(1-4)] write_version_ok(2) [OF assms(1-4)] assms(5) by simp

definition selected :: "(string \<Rightarrow> string) \<Rightarrow> version \<Rightarrow> store \<Rightarrow> store" where
  "selected sha v st = st\<lparr>st_manifest := Some (manifest_of sha v)\<rparr>"

lemma step_selected:
  assumes "versions_ok sha V" and "authority_inv sha validate mt V (st, db)" and "v \<in> V" and "write_version sha validate v st = Inr st1"
    and "mt_is_prepared mt (digest sha v) d" and "mt_active mt d = Some (digest sha v) \<or> mt_active mt d = predecessor_digest v"
  shows "step_ok sha validate mt V v (st, db) (selected sha v st1, d)" and "active_version sha validate (selected sha v st1) = Inr (Some v)"
proof -
  have s: "stored validate u (selected sha v st1) = stored validate u st1" for u by (rule stored_files) (simp add: selected_def)
  have v: "stored validate v (selected sha v st1)" using s write_version_ok(1) [OF assms(1-4)] by simp
  have m: "st_manifest (selected sha v st1) = Some (manifest_of sha v)" by (simp add: selected_def)
  have g: "grows st (selected sha v st1)" using written(1) [OF assms(1-4)] by (simp add: grows_def selected_def)
  have f: "\<exists>u\<in>V. version_id u = vid \<and> document u = doc \<and> stored validate u (selected sha v st1)"
    if "map_of (st_files (selected sha v st1)) vid = Some doc" for vid doc
    using written(2) [OF assms(1-4), of vid doc] that s by (simp add: selected_def)
  show "step_ok sha validate mt V v (st, db) (selected sha v st1, d)"
    unfolding step_ok_def using inv_selected [OF assms(3) v m assms(5,6) f] g m v by simp
  show "active_version sha validate (selected sha v st1) = Inr (Some v)"
    using v m assms(1,3) by (intro active_stored) (auto simp: versions_ok_def)
qed

lemma apply_change_cases:
  assumes "stored validate v st1" and "write_version sha validate v st = Inr st1" and "apply_change sha validate mt v st db = (ws, r)"
  obtains (prepare) e where "ws = [(st1, db)]" "r = Inl e"
  | (incomplete) e db1 where "mt_prepare mt v db = Inr db1" "ws = [(st1, db), (st1, db1)]" "r = Inl e"
  | (activate) db1 ws' where "mt_prepare mt v db = Inr db1" "mt_is_prepared mt (digest sha v) db1"
      "activate_step mt (digest sha v) ''configuration activation did not converge'' (selected sha v st1) db1 = (ws', r)"
      "ws = [(st1, db), (st1, db1), (selected sha v st1, db1)] @ ws'"
  using assms select_version_eq [OF assms(1), of sha]
  by (auto simp: apply_change_def selected_def split: sum.splits if_splits prod.splits)

lemma apply_change_ok:
  assumes V: "versions_ok sha V" and laws: "materializer_laws mt" and inv: "authority_inv sha validate mt V (st, db)" and v: "v \<in> V"
    and pre: "mt_active mt db = predecessor_digest v" and run: "apply_change sha validate mt v st db = (ws, r)"
  shows "(\<forall>w'\<in>set ws. step_ok sha validate mt V v (st, db) w') \<and>
    (r = Inr () \<longrightarrow> ws \<noteq> [] \<and> active_version sha validate (fst (last ws)) = Inr (Some v) \<and> mt_active mt (snd (last ws)) = Some (digest sha v))"
proof (cases "write_version sha validate v st")
  case (Inl e)
  then show ?thesis using run by (auto simp: apply_change_def)
next
  case st1: (Inr st1)
  note w = step_written [OF V inv v st1] and s = step_selected [OF V inv v st1]
  have s1: "step_ok sha validate mt V v (st, db) (st1, db)" by (rule w) auto
  have s2: "step_ok sha validate mt V v (st, db) (st1, db1)" if "mt_prepare mt v db = Inr db1" for db1
    using prepareD [OF laws that] by (intro w) auto
  from write_version_ok(1) [OF V inv v st1] st1 run show ?thesis
  proof (cases rule: apply_change_cases)
    case (activate db1 ws')
    have s3: "step_ok sha validate mt V v (st, db) (selected sha v st1, db1)"
      using s(1) [OF activate(2)] pre prepareD [OF laws activate(1)] by simp
    from activate_step_cases [OF activate(3) laws] show ?thesis
    proof (elim disjE exE conjE)
      fix db2
      assume d2: "mt_activate mt (digest sha v) db1 = Inr db2" "ws' = [(selected sha v st1, db2)]"
        "mt_active mt db2 = Some (digest sha v)" "r = Inr ()"
      have "mt_is_prepared mt (digest sha v) db2" using activateD [OF laws d2(1)] activate(2) by blast
      from s [OF this] show ?thesis using activate(4) d2 s1 s2 [OF activate(1)] s3 by simp
    qed (use activate(4) s1 s2 [OF activate(1)] s3 in simp)
  qed (use s1 s2 in simp_all)
qed

section \<open>Applying and recovering\<close>

lemma apply_version_ok:
  assumes V: "versions_ok sha V" and laws: "materializer_laws mt" and inv: "authority_inv sha validate mt V w" and v: "v \<in> V"
    and run: "apply_version sha validate mt v w = (ws, r)"
  shows "(\<forall>w'\<in>set ws. step_ok sha validate mt V v w w') \<and>
    (r = Inr () \<longrightarrow> (case last (w # ws) of (st', db') \<Rightarrow> active_version sha validate st' = Inr (Some v) \<and> mt_active mt db' = Some (digest sha v)))"
proof -
  obtain st db where w: "w = (st, db)" by (cases w)
  obtain active where act: "active_version sha validate st = Inr active"
      and same: "\<And>u. active = Some u \<Longrightarrow> u \<in> V"
    using inv unfolding w by (rule inv_active [OF V]) auto
  consider (stop) e where "ws = []" "r = Inl e"
    | (already) "ws = []" "map_option (digest sha) active = Some (digest sha v)" "mt_active mt db = Some (digest sha v)"
    | (change) "mt_active mt db = predecessor_digest v" "apply_change sha validate mt v st db = (ws, r)"
    using run act by (auto simp: w apply_version_def Let_def split: if_splits)
  then show ?thesis
  proof cases
    case already
    then obtain u where u: "active = Some u" "digest sha u = digest sha v" by auto
    then have "u = v" using V v same by (auto simp: versions_ok_def dest: inj_onD)
    then show ?thesis using already u act by (simp add: w)
  next
    case change
    then show ?thesis using apply_change_ok [OF V laws inv [unfolded w] v] by (auto simp: w case_prod_unfold)
  qed simp
qed

lemma recover_active_ok:
  assumes V: "versions_ok sha V" and laws: "materializer_laws mt" and inv: "authority_inv sha validate mt V (st, db)"
    and run: "recover_active sha validate mt (st, db) = (ws, r)"
  shows "r = Inr () \<and> (\<forall>w'\<in>set ws. authority_inv sha validate mt V w' \<and> fst w' = st) \<and>
    (\<exists>active. active_version sha validate st = Inr active \<and> mt_active mt (snd (last ((st, db) # ws))) = map_option (digest sha) active)"
  using inv
proof (rule inv_active [OF V])
  fix v
  assume v: "v \<in> V" "st_manifest st = Some (manifest_of sha v)" "stored validate v st" "active_version sha validate st = Inr (Some v)"
    "mt_is_prepared mt (digest sha v) db" "mt_active mt db = Some (digest sha v) \<or> mt_active mt db = predecessor_digest v"
  obtain db' where d: "mt_activate mt (digest sha v) db = Inr db'" using activate_total [OF laws v(5)] by blast
  have "authority_inv sha validate mt V (st, db')"
    using inv v activateD [OF laws d] inv_files [OF inv] by (intro inv_selected [of v]) metis+
  then show ?thesis using run v d activateD [OF laws d] by (auto simp: recover_active_def activate_step_def split: if_splits)
qed (use run in \<open>simp add: recover_active_def\<close>)

text \<open>
  The states a deployment can be found in: a fresh one, and any state a change or a recovery passes through, at
  which it may be interrupted.
\<close>

inductive authority_reach ::
  "(string \<Rightarrow> string) \<Rightarrow> (pyval \<Rightarrow> unit res) \<Rightarrow> 'd materializer \<Rightarrow> version set \<Rightarrow> store \<times> 'd \<Rightarrow> bool"
  for sha validate mt V where
  fresh: "mt_active mt db = None \<Longrightarrow> authority_reach sha validate mt V (\<lparr>st_files = [], st_manifest = None\<rparr>, db)"
| changed: "authority_reach sha validate mt V w \<Longrightarrow> v \<in> V \<Longrightarrow> w' \<in> set (fst (apply_version sha validate mt v w)) \<Longrightarrow>
    authority_reach sha validate mt V w'"
| recovered: "authority_reach sha validate mt V w \<Longrightarrow> w' \<in> set (fst (recover_active sha validate mt w)) \<Longrightarrow> authority_reach sha validate mt V w'"

lemma reach_inv:
  assumes "versions_ok sha V" and "materializer_laws mt" and "authority_reach sha validate mt V w"
  shows "authority_inv sha validate mt V w"
  using assms(3)
proof induction
  case (fresh db)
  then show ?case by (simp add: authority_inv_def)
next
  case (changed w v w')
  obtain ws r where run: "apply_version sha validate mt v w = (ws, r)" by fastforce
  then show ?case using apply_version_ok [OF assms(1,2) changed.IH changed.hyps(2) run] changed.hyps(3) by (simp add: step_ok_def)
next
  case (recovered w w')
  obtain st db ws r where run: "recover_active sha validate mt (st, db) = (ws, r)" "w = (st, db)" by (cases w) fastforce
  then show ?case using recover_active_ok [OF assms(1,2) recovered.IH [unfolded run(2)] run(1)] recovered.hyps(2) by simp
qed

lemma active_grows:
  assumes "versions_ok sha V" and inv: "authority_inv sha validate mt V (st, db)" and "grows st st'" and "st_manifest st' = st_manifest st"
  shows "active_version sha validate st' = active_version sha validate st"
  using inv
proof (rule inv_active [OF assms(1)])
  fix v assume v: "v \<in> V" "st_manifest st = Some (manifest_of sha v)" "stored validate v st" "active_version sha validate st = Inr (Some v)"
  have "active_version sha validate st' = Inr (Some v)"
    using v assms(1,4) grows_stored [OF assms(3) v(3)] by (intro active_stored) (auto simp: versions_ok_def)
  then show ?thesis using v(4) by simp
qed (use assms(4) in \<open>simp add: active_version_def manifest_reference_def\<close>)

lemma step_active:
  assumes "versions_ok sha V" and "authority_inv sha validate mt V (st, db)" and "v \<in> V" and "step_ok sha validate mt V v (st, db) (st', db')"
  shows "active_version sha validate st' = active_version sha validate st \<and> mt_active mt db' = mt_active mt db \<or>
    active_version sha validate st' = Inr (Some v)"
  using assms active_grows [OF assms(1,2), of st'] active_stored [of validate v st' sha]
  by (auto simp: step_ok_def versions_ok_def)

text \<open>A change that the files admit and the database can prepare goes through.\<close>

lemma apply_change_succeeds:
  assumes laws: "materializer_laws mt" and "parse_version validate (document v) = Inr v"
    and files: "map_of (st_files st) (version_id v) \<in> {None, Some (document v)}"
    and prep: "mt_prepare mt v db = Inr db1" "mt_is_prepared mt (digest sha v) db1"
  shows "snd (apply_change sha validate mt v st db) = Inr ()"
proof -
  obtain st1 where w: "write_version sha validate v st = Inr st1" and s: "stored validate v st1"
  proof (cases "map_of (st_files st) (version_id v)")
    case None
    then show ?thesis using that assms(2) by (simp add: write_version_def stored_def update_conv')
  next
    case (Some doc)
    then have "stored validate v st" using files assms(2) by (simp add: stored_def)
    then show ?thesis using that [of st] read_stored Some assms(2) by (simp add: write_version_def)
  qed
  obtain db2 where "mt_activate mt (digest sha v) db1 = Inr db2" using activate_total [OF laws prep(2)] by blast
  then show ?thesis
    using w prep select_version_eq [OF s, of sha] activateD [OF laws] by (simp add: apply_change_def activate_step_def)
qed

end
