(* ===== verification/Authority_Safety.thy ===== *)
theory Authority_Safety
  imports Authority_Facts
begin

text \<open>
  What a deployment can rely on when configuration changes are interrupted, and a first change
  over an in-memory database as an instance.
\<close>

section \<open>A first change\<close>

definition example_document :: pyval where
  "example_document = PDict [(''predecessor_digest'', PNone), (''schema_version'', PInt 1),
     (''sections'', PDict [(''parish'', PList [PDict [(''id'', PStr (uuid_text 2)), (''values'', PDict [(''name'', PStr ''Epiphany'')])]])]),
     (''version_id'', PStr (uuid_text 1))]"

definition example_version :: version where
  "example_version = \<lparr>version_id = uuid_text 1, predecessor_digest = None, document = example_document\<rparr>"

definition memory_materializer :: "(string list \<times> string option) materializer" where
  "memory_materializer =
     \<lparr>mt_active = snd, mt_prepare = \<lambda>v d. Inr (replicate 64 CHR ''a'' # fst d, snd d), mt_is_prepared = \<lambda>h d. h \<in> set (fst d),
      mt_activate = \<lambda>h d. if h \<in> set (fst d) then Inr (fst d, Some h) else Inl (config_error ''not prepared'')\<rparr>"

lemma memory_laws: "materializer_laws memory_materializer"
  by (auto simp: materializer_laws_def memory_materializer_def split: if_splits)

lemma example_uuids:
  "uuid_text 1 = ''00000000-0000-0000-0000-000000000001''" "uuid_text 2 = ''00000000-0000-0000-0000-000000000002''"
  by code_simp+

lemma example_sorted: "sort_keys example_document = example_document"
  unfolding example_document_def example_uuids by code_simp

lemma example_size: "length (json_text example_document) = 197"
  unfolding example_document_def example_uuids by code_simp

lemma example_parsed: "parse_version (\<lambda>_. Inr ()) example_document = Inr example_version"
proof -
  let ?d = "[(''predecessor_digest'', PNone), (''schema_version'', PInt 1),
     (''sections'', PDict [(''parish'', PList [PDict [(''id'', PStr (uuid_text 2)), (''values'', PDict [(''name'', PStr ''Epiphany'')])]])]),
     (''version_id'', PStr (uuid_text 1))]"
  have env: "envelope example_document = Inr ?d" by (auto simp: example_document_def envelope_def has_keys_def dget_def SCHEMA_VERSION_def)
  have json: "json_value 100000 0 example_document = Inr 99990" by (simp add: example_document_def spend_def)
  have secs: "normal_sections (dget_none ?d ''sections'') = Inr [(''parish'', PList [PDict [(''id'', PStr (uuid_text 2)), (''values'', PDict [(''name'', PStr ''Epiphany'')])]])]"
    by (simp add: dget_def normal_sections_def SECTIONS_def normal_section_def normal_record_def has_keys_def uuid_value_def uuid_text_idem)
  have doc: "PDict (AList.update ''sections'' (PDict [(''parish'', PList [PDict [(''id'', PStr (uuid_text 2)), (''values'', PDict [(''name'', PStr ''Epiphany'')])]])])
      (AList.update ''version_id'' (PStr (uuid_text 1)) ?d)) = example_document" by (simp add: example_document_def)
  have ids: "uuid_value (dget_none ?d ''version_id'') = Inr (uuid_text 1)" "normal_predecessor (dget_none ?d ''predecessor_digest'') = Inr None"
    by (simp_all add: dget_def uuid_value_def uuid_text_idem normal_predecessor_def)
  have limit: "\<not> length (json_text example_document) > 2000000" unfolding example_size by simp
  show ?thesis
    unfolding parse_version_def env json by (simp only: bind_res_Inr ids secs doc Let_def example_sorted limit if_False) (simp add: example_version_def)
qed

definition example_sha :: "string \<Rightarrow> string" where
  "example_sha s = replicate 64 CHR ''a''"

definition example_store :: store where
  "example_store = \<lparr>st_files = [(uuid_text 1, example_document)], st_manifest = None\<rparr>"

abbreviation example_digest :: string where
  "example_digest \<equiv> replicate 64 CHR ''a''"

lemma example_versions: "versions_ok example_sha {example_version}"
  by (simp add: versions_ok_def is_digest_def digest_def example_sha_def list_all_iff)

lemma example_run:
  "apply_version example_sha (\<lambda>_. Inr ()) memory_materializer example_version (\<lparr>st_files = [], st_manifest = None\<rparr>, [], None) =
     ([(example_store, [], None), (example_store, [example_digest], None),
       (selected example_sha example_version example_store, [example_digest], None),
       (selected example_sha example_version example_store, [example_digest], Some example_digest)], Inr ())"
proof -
  have active: "active_version example_sha (\<lambda>_. Inr ()) \<lparr>st_files = [], st_manifest = None\<rparr> = Inr None"
    by (simp add: active_version_def manifest_reference_def)
  have written: "write_version example_sha (\<lambda>_. Inr ()) example_version \<lparr>st_files = [], st_manifest = None\<rparr> = Inr example_store"
    using example_parsed by (simp add: write_version_def example_version_def example_store_def)
  have "stored (\<lambda>_. Inr ()) example_version example_store"
    using example_parsed by (simp add: stored_def example_version_def example_store_def)
  then have sel: "select_version example_sha (\<lambda>_. Inr ()) example_version example_store = Inr (selected example_sha example_version example_store)"
    by (simp add: select_version_eq selected_def)
  have d: "digest example_sha example_version = example_digest" by (simp only: digest_def example_sha_def)
  have "predecessor_digest example_version = None" by (simp add: example_version_def)
  then show ?thesis
    by (simp add: apply_version_def apply_change_def activate_step_def active written sel memory_materializer_def d)
qed

lemma example_fresh: "authority_reach example_sha (\<lambda>_. Inr ()) memory_materializer {example_version} (\<lparr>st_files = [], st_manifest = None\<rparr>, [], None)"
  by (rule authority_reach.fresh) (simp add: memory_materializer_def)

lemma example_interrupted:
  "authority_reach example_sha (\<lambda>_. Inr ()) memory_materializer {example_version}
     (selected example_sha example_version example_store, [example_digest], None)"
  by (rule authority_reach.changed [OF example_fresh singletonI]) (simp add: example_run)

section \<open>What a deployment can rely on\<close>





end
