(* ===== verification/Readiness.thy ===== *)
theory Readiness
  imports Recovery_Facts Comparison
begin

text \<open>
  \<open>stewardship/campaigns/readiness_impact.py\<close>: the mail that going live would send, counted over all
  Families with the plan of \<open>Recovery\<close>. The groups come as a list in the order of the stream.
\<close>

record family_impact_input =
  family_id :: nat
  portal_eligible :: bool
  email_eligible :: bool
  fi_deliverable :: bool
  fi_responded :: bool
  fi_initial_delivered :: bool
  fi_slots :: "recovery_slot list"
  initial_unreviewed :: bool

definition family_impact_input_of :: "family_impact_input \<Rightarrow> family_impact_input res" where
  "family_impact_input_of g =
     (if length (fi_slots g) > 100 \<or>
         list_ex (\<lambda>r. rv_mode r \<noteq> ''production'' \<or> rv_target r \<noteq> ''family:'' @ uuid_text (family_id g) \<or> \<not> family_kind (rv_kind r)) (fi_slots g)
      then Inl (ValueError ''Readiness needs a complete Production Family group.'') else Inr g)"

record family_impact =
  families :: nat
  fi_active :: nat
  total_email_eligible :: nat
  no_eligible_email :: nat
  total_deliverable :: nat
  messages :: nat
  coalesced_slots :: nat
  skipped_slots :: nat
  blocked_families :: nat

definition no_impact :: family_impact where
  "no_impact = \<lparr>families = 0, fi_active = 0, total_email_eligible = 0, no_eligible_email = 0, total_deliverable = 0, messages = 0,
     coalesced_slots = 0, skipped_slots = 0, blocked_families = 0\<rparr>"

definition group_state :: "family_impact_input \<Rightarrow> bool \<Rightarrow> family_state" where
  "group_state g is_closed =
     \<lparr>closed = is_closed, eligible = portal_eligible g \<and> email_eligible g, responded = fi_responded g, deliverable = fi_deliverable g,
      initial_delivered = fi_initial_delivered g, excluded = False\<rparr>"

text \<open>The plan of a group; an unresolved invitation blocks a selected reminder.\<close>

definition group_decision :: "int \<Rightarrow> bool \<Rightarrow> family_impact_input \<Rightarrow> recovery_plan res" where
  "group_decision cutoff is_closed g =
     bind_res (plan_recovery (fi_slots g) cutoff (group_state g is_closed)) (\<lambda>p.
       Inr (if initial_unreviewed g \<and> list_ex (\<lambda>r. Some (occurrence_id r) = rp_selected p \<and> rv_kind r = ''reminder'') (fi_slots g)
            then no_plan\<lparr>rp_blocked := True, rp_reason := ''restore_delivery_unresolved''\<rparr> else p))"

definition add_group :: "family_impact_input \<Rightarrow> recovery_plan \<Rightarrow> family_impact \<Rightarrow> family_impact" where
  "add_group g p t =
     \<lparr>families = families t + 1,
      fi_active = fi_active t + of_bool (portal_eligible g),
      total_email_eligible = total_email_eligible t + of_bool (portal_eligible g \<and> email_eligible g),
      no_eligible_email = no_eligible_email t + of_bool (portal_eligible g \<and> \<not> email_eligible g),
      total_deliverable = total_deliverable t + of_bool (portal_eligible g \<and> email_eligible g \<and> fi_deliverable g),
      messages = messages t + of_bool (rp_selected p \<noteq> None),
      coalesced_slots = coalesced_slots t + length (rp_coalesced p),
      skipped_slots = skipped_slots t + length (rp_skipped p),
      blocked_families = blocked_families t + of_bool (rp_blocked p)\<rparr>"

definition summarize_step :: "int \<Rightarrow> bool \<Rightarrow> int \<times> family_impact \<Rightarrow> family_impact_input \<Rightarrow> (int \<times> family_impact) res" where
  "summarize_step cutoff is_closed acc g =
     (case acc of (previous, t) \<Rightarrow>
        if int (family_id g) \<le> previous then Inl (ValueError ''Readiness Families must be distinct and UUID-ordered.'')
        else bind_res (group_decision cutoff is_closed g) (\<lambda>p. Inr (int (family_id g), add_group g p t)))"

definition summarize_family_impact :: "family_impact_input list \<Rightarrow> int \<Rightarrow> bool \<Rightarrow> family_impact res" where
  "summarize_family_impact groups cutoff is_closed =
     bind_res (foldM_res (summarize_step cutoff is_closed) (-1, no_impact) groups) (\<lambda>(_, t). Inr t)"

section \<open>What is counted\<close>

text \<open>The slots of a group that a plan can act on.\<close>

definition due_count :: "int \<Rightarrow> family_impact_input \<Rightarrow> nat" where
  "due_count cutoff g = length (filter (\<lambda>r. is_overdue cutoff r \<and> active_state r) (fi_slots g))"

lemma length_candidates: "length (candidates_of slots cutoff) = length (filter (\<lambda>r. is_overdue cutoff r \<and> active_state r) slots)"
  by (simp add: overdue_slots_def is_overdue_def filter_sort conj_commute)

lemma length_select_plan:
  assumes "distinct (map occurrence_id cs)" "c \<in> set cs"
  shows "1 + length (rp_coalesced (select_plan c cs reason)) = length cs"
proof -
  have "distinct (outcomes (select_plan c cs reason))" "set (outcomes (select_plan c cs reason)) = set (map occurrence_id cs)"
    using select_plan_outcomes [OF assms] by simp_all
  then have "length (outcomes (select_plan c cs reason)) = length (map occurrence_id cs)" using assms(1) by (metis distinct_card)
  then show ?thesis by (simp add: outcomes_def select_plan_def no_plan_def)
qed

lemma plan_counts:
  assumes "plan_recovery slots cutoff f = Inr p"
  shows "(if rp_selected p = None then 0 else 1) + length (rp_coalesced p) + length (rp_skipped p) =
    (if rp_blocked p then 0 else length (filter (\<lambda>r. is_overdue cutoff r \<and> active_state r) slots))"
    and "rp_selected p \<noteq> None \<Longrightarrow> family_kind (rv_kind (hd slots)) \<Longrightarrow> skip_reason f = []" and "rp_blocked p \<Longrightarrow> rp_selected p = None"
proof -
  have "(if rp_selected p = None then 0 else 1) + length (rp_coalesced p) + length (rp_skipped p) =
    (if rp_blocked p then 0 else length (candidates_of slots cutoff)) \<and>
    (rp_selected p \<noteq> None \<longrightarrow> family_kind (rv_kind (hd slots)) \<longrightarrow> skip_reason f = []) \<and> (rp_blocked p \<longrightarrow> rp_selected p = None)"
    using assms
  proof (cases rule: plan_cases)
    case (selected c reason)
    have d: "distinct (map occurrence_id (candidates_of slots cutoff))"
      using distinct_overdue [OF validate_groupD(1) [OF selected(4)]] by (rule distinct_map_filter)
    show ?thesis using length_select_plan [OF d selected(2), of reason] selected(1,3) by (simp add: select_plan_def no_plan_def)
  qed (simp_all add: no_plan_def)
  then show "(if rp_selected p = None then 0 else 1) + length (rp_coalesced p) + length (rp_skipped p) =
    (if rp_blocked p then 0 else length (filter (\<lambda>r. is_overdue cutoff r \<and> active_state r) slots))"
    and "rp_selected p \<noteq> None \<Longrightarrow> family_kind (rv_kind (hd slots)) \<Longrightarrow> skip_reason f = []" and "rp_blocked p \<Longrightarrow> rp_selected p = None"
    unfolding length_candidates by blast+
qed

text \<open>The contribution of one group to the totals.\<close>

lemma group_decision_counts:
  assumes "group_decision cutoff is_closed g = Inr p" and "family_impact_input_of g = Inr g"
  shows "of_bool (rp_selected p \<noteq> None) + length (rp_coalesced p) + length (rp_skipped p) = (if rp_blocked p then 0 else due_count cutoff g)"
    and "rp_selected p \<noteq> None \<Longrightarrow> \<not> is_closed \<and> portal_eligible g \<and> email_eligible g \<and> fi_deliverable g \<and> \<not> fi_responded g \<and> \<not> rp_blocked p"
proof -
  obtain q where q: "plan_recovery (fi_slots g) cutoff (group_state g is_closed) = Inr q"
      "p = q \<or> p = no_plan\<lparr>rp_blocked := True, rp_reason := ''restore_delivery_unresolved''\<rparr>"
    using assms(1) by (auto simp: group_decision_def split: if_splits)
  note c = plan_counts [OF q(1)]
  show "of_bool (rp_selected p \<noteq> None) + length (rp_coalesced p) + length (rp_skipped p) = (if rp_blocked p then 0 else due_count cutoff g)"
    using q(2) c(1) by (auto simp: no_plan_def due_count_def of_bool_def split: if_splits)
  assume s: "rp_selected p \<noteq> None"
  then have pq: "p = q" using q(2) by (auto simp: no_plan_def)
  have "fi_slots g \<noteq> []" using q(1) s pq by (auto simp: plan_recovery_def no_plan_def)
  then have "family_kind (rv_kind (hd (fi_slots g)))" using assms(2) by (auto simp: family_impact_input_of_def list_ex_iff split: if_splits)
  then have "skip_reason (group_state g is_closed) = []" using c(2) s pq by simp
  then show "\<not> is_closed \<and> portal_eligible g \<and> email_eligible g \<and> fi_deliverable g \<and> \<not> fi_responded g \<and> \<not> rp_blocked p"
    using c(3) s pq by (auto simp: skip_reason_def group_state_def split: if_splits)
qed

definition open_slots :: "int \<Rightarrow> bool \<Rightarrow> family_impact_input \<Rightarrow> nat" where
  "open_slots cutoff is_closed g =
     (case group_decision cutoff is_closed g of Inr p \<Rightarrow> if rp_blocked p then 0 else due_count cutoff g | Inl _ \<Rightarrow> 0)"

definition totals_ok :: "bool \<Rightarrow> family_impact \<Rightarrow> bool" where
  "totals_ok is_closed t \<longleftrightarrow>
     messages t \<le> total_deliverable t \<and> total_deliverable t \<le> total_email_eligible t \<and>
     fi_active t = total_email_eligible t + no_eligible_email t \<and> fi_active t \<le> families t \<and>
     messages t + blocked_families t \<le> families t \<and> (is_closed \<longrightarrow> messages t = 0)"

lemma summarize_step_Inr:
  "summarize_step cutoff is_closed (prev, t) g = Inr q \<longleftrightarrow>
     (\<exists>p. group_decision cutoff is_closed g = Inr p \<and> prev < int (family_id g) \<and> q = (int (family_id g), add_group g p t))"
  by (auto simp: summarize_step_def)

lemma summarize_steps:
  assumes "foldM_res (summarize_step cutoff is_closed) (prev, t) groups = Inr (prev', t')"
    and "\<forall>g\<in>set groups. family_impact_input_of g = Inr g" and "totals_ok is_closed t"
  shows "totals_ok is_closed t' \<and> families t' = families t + length groups \<and>
    sorted_wrt (<) (map (\<lambda>g. int (family_id g)) groups) \<and> (\<forall>g\<in>set groups. prev < int (family_id g)) \<and>
    messages t' + coalesced_slots t' + skipped_slots t' =
      messages t + coalesced_slots t + skipped_slots t + sum_list (map (open_slots cutoff is_closed) groups)"
  using assms
proof (induction groups arbitrary: prev t)
  case (Cons g groups)
  obtain p where p: "group_decision cutoff is_closed g = Inr p" "prev < int (family_id g)"
      "foldM_res (summarize_step cutoff is_closed) (int (family_id g), add_group g p t) groups = Inr (prev', t')"
    using Cons.prems(1) by (auto simp: summarize_step_Inr)
  have g: "family_impact_input_of g = Inr g" using Cons.prems(2) by simp
  note c = group_decision_counts [OF p(1) g]
  have "totals_ok is_closed (add_group g p t)"
    using Cons.prems(3) c(2) by (auto simp: totals_ok_def add_group_def of_bool_def)
  from Cons.IH [OF p(3) _ this] show ?case
    using Cons.prems(2) p(1,2) c(1) by (auto simp: add_group_def open_slots_def)
qed simp

text \<open>
  The preview of going live. Every Family is counted once; the messages, the slots that coalesce into them and the skipped
  slots are together exactly the overdue open slots of the Families that are not blocked; no message is counted for a Family that cannot
  be written to, nor for a closed campaign.
\<close>

theorem readiness_counts:
  assumes "summarize_family_impact groups cutoff is_closed = Inr t" and "map_res family_impact_input_of groups = Inr groups"
  shows "families t = length groups \<and> distinct (map family_id groups) \<and>
    messages t + coalesced_slots t + skipped_slots t = sum_list (map (open_slots cutoff is_closed) groups) \<and>
    messages t \<le> total_deliverable t \<and> total_deliverable t \<le> total_email_eligible t \<and>
    fi_active t = total_email_eligible t + no_eligible_email t \<and> fi_active t \<le> families t \<and>
    messages t + blocked_families t \<le> families t \<and> (is_closed \<longrightarrow> messages t = 0)"
proof -
  obtain prev where run: "foldM_res (summarize_step cutoff is_closed) (-1, no_impact) groups = Inr (prev, t)"
    using assms(1) by (auto simp: summarize_family_impact_def)
  have "\<forall>g\<in>set groups. family_impact_input_of g = Inr g"
    using assms(2) by (simp add: map_res_eq_Inr list_all2_same)
  note r = summarize_steps [OF run this]
  have "totals_ok is_closed no_impact" by (simp add: totals_ok_def no_impact_def)
  moreover have "distinct (map family_id groups)" if "sorted_wrt (<) (map (\<lambda>g. int (family_id g)) groups)"
    using that by (auto simp: strict_sorted_iff distinct_map inj_on_def)
  ultimately show ?thesis using r by (simp add: totals_ok_def no_impact_def)
qed

definition example_group :: family_impact_input where
  "example_group = \<lparr>family_id = 1, portal_eligible = True, email_eligible = True, fi_deliverable = True, fi_responded = False,
     fi_initial_delivered = False, fi_slots = [\<lparr>occurrence_id = 7, definition_id = 1, rv_kind = ''initial'', rv_mode = ''production'',
       rv_target = ''family:'' @ uuid_text 1, rv_slot = ''a'', rv_due_at = 5, rv_state = ''pending'', safely_cancellable = True, held = False\<rparr>],
     initial_unreviewed = False\<rparr>"

theorem readiness_counts_witness:
  "\<exists>t. summarize_family_impact [example_group] 9 False = Inr t \<and> families t = 1 \<and> messages t \<le> 1"
proof -
  have ok: "map_res family_impact_input_of [example_group] = Inr [example_group]"
    by (simp add: family_impact_input_of_def example_group_def family_kind_def)
  have "plan_recovery (fi_slots example_group) 9 (group_state example_group False) = Inr (no_plan\<lparr>rp_selected := Some 7\<rparr>)"
    by (simp add: example_group_def group_state_def plan_recovery_def validate_group_def family_kind_def overdue_slots_def Let_def
        unresolved_delivery_def active_state_def family_plan_def skip_reason_def initial_unfulfilled_def select_plan_def no_plan_def)
  then have "\<exists>t. summarize_family_impact [example_group] 9 False = Inr t"
    by (simp add: summarize_family_impact_def summarize_step_def group_decision_def)
  then obtain t where t: "summarize_family_impact [example_group] 9 False = Inr t" by blast
  show ?thesis using readiness_counts [OF t ok] t by (intro exI [of _ t]) simp
qed

end
