(* ===== verification/Incidents.thy ===== *)
theory Incidents
  imports Prelude
begin

text \<open>
  \<open>stewardship/jobs/operational_policy.py\<close>: the episodes of an operational incident and the notices
  about them. An instant is its number of microseconds. The constructor of a state checks it, also when
  a copy is made with \<open>replace\<close>.
\<close>

datatype incident_level = WARNING | CRITICAL

datatype alert_phase = OPENED | ESCALATED | REPEATED | RESOLVED

definition MAX_OCCURRENCES :: int where
  "MAX_OCCURRENCES = 9223372036854775807"

definition seconds :: "int \<Rightarrow> int" where
  "seconds n = n * 1000000"

record incident_policy =
  suppression_seconds :: int
  escalation_seconds :: int
  source_stale_seconds :: int

definition incident_policy_ok :: "incident_policy \<Rightarrow> bool" where
  "incident_policy_ok p \<longleftrightarrow> list_all (\<lambda>n. 60 \<le> n \<and> n \<le> 86400) [suppression_seconds p, escalation_seconds p, source_stale_seconds p]"

definition incident_policy_of :: "incident_policy \<Rightarrow> incident_policy res" where
  "incident_policy_of p = (if incident_policy_ok p then Inr p else Inl (ValueError ''Operational incident windows must be 60-86,400 seconds.''))"

record incident_state =
  inc_level :: incident_level
  first_seen :: int
  last_seen :: int
  inc_occurrences :: int
  last_notice_at :: "int option"
  resolved_at :: "int option"

definition incident_end :: "incident_state \<Rightarrow> int" where
  "incident_end s = (case resolved_at s of Some t \<Rightarrow> t | None \<Rightarrow> last_seen s)"

definition ordered_state :: "incident_state \<Rightarrow> bool" where
  "ordered_state s \<longleftrightarrow>
     first_seen s \<le> last_seen s \<and> last_seen s \<le> incident_end s \<and>
     (case last_notice_at s of None \<Rightarrow> True | Some t \<Rightarrow> first_seen s \<le> t \<and> t \<le> incident_end s) \<and>
     \<not> (inc_level s = CRITICAL \<and> last_notice_at s = None) \<and> \<not> (inc_level s = WARNING \<and> last_notice_at s \<noteq> None)"

definition incident_state_of :: "incident_state \<Rightarrow> incident_state res" where
  "incident_state_of s =
     (if \<not> (1 \<le> inc_occurrences s \<and> inc_occurrences s \<le> MAX_OCCURRENCES) then Inl (ValueError ''Invalid operational incident state.'')
      else if \<not> ordered_state s then Inl (ValueError ''Invalid operational incident ordering.'')
      else Inr s)"

definition observe_first :: "incident_level \<Rightarrow> int \<Rightarrow> (incident_state \<times> alert_phase option) res" where
  "observe_first level instant =
     bind_res (incident_state_of
         \<lparr>inc_level = level, first_seen = instant, last_seen = instant, inc_occurrences = 1,
          last_notice_at = (if level = CRITICAL then Some instant else None), resolved_at = None\<rparr>) (\<lambda>s.
       Inr (s, if level = CRITICAL then Some OPENED else None))"

definition is_critical :: "incident_state \<Rightarrow> incident_level \<Rightarrow> int \<Rightarrow> incident_policy \<Rightarrow> bool" where
  "is_critical s level instant p \<longleftrightarrow>
     inc_level s = CRITICAL \<or> level = CRITICAL \<or> instant - first_seen s \<ge> seconds (escalation_seconds p)"

text \<open>A state that is critical has a notice, so the missing one is not reached.\<close>

definition notification :: "incident_state \<Rightarrow> bool \<Rightarrow> int \<Rightarrow> incident_policy \<Rightarrow> alert_phase option res" where
  "notification s critical instant p =
     (if \<not> critical then Inr None
      else if inc_level s = WARNING then Inr (Some ESCALATED)
      else case last_notice_at s of
        None \<Rightarrow> Inl (TypeError ''unsupported operand'')
      | Some t \<Rightarrow> Inr (if instant - t \<ge> seconds (suppression_seconds p) then Some REPEATED else None))"

definition observe_incident ::
  "incident_state option \<Rightarrow> incident_level \<Rightarrow> int \<Rightarrow> incident_policy \<Rightarrow> (incident_state \<times> alert_phase option) res" where
  "observe_incident current level instant p =
     (case current of
        None \<Rightarrow> observe_first level instant
      | Some s \<Rightarrow>
          if resolved_at s \<noteq> None \<or> instant < last_seen s
          then Inl (ValueError ''Incident observations require a current ordered episode.'')
          else let critical = is_critical s level instant p in
            bind_res (notification s critical instant p) (\<lambda>n.
            bind_res (incident_state_of
              (s\<lparr>inc_level := (if critical then CRITICAL else WARNING), last_seen := instant,
                 inc_occurrences := min MAX_OCCURRENCES (inc_occurrences s + 1),
                 last_notice_at := (if n \<noteq> None then Some instant else last_notice_at s)\<rparr>)) (\<lambda>s'. Inr (s', n))))"

definition resolve_incident :: "incident_state \<Rightarrow> int \<Rightarrow> (incident_state \<times> alert_phase option) res" where
  "resolve_incident s instant =
     (if resolved_at s \<noteq> None then Inr (s, None)
      else if instant < last_seen s then Inl (ValueError ''Recovery cannot precede the last incident observation.'')
      else let notified = last_notice_at s \<noteq> None in
        bind_res (incident_state_of (s\<lparr>resolved_at := Some instant, last_notice_at := (if notified then Some instant else None)\<rparr>))
          (\<lambda>s'. Inr (s', if notified then Some RESOLVED else None)))"

section \<open>Episodes\<close>

text \<open>What the storage owner does: open an episode, observe it, resolve it. \<open>n\<close> counts the observations; \<open>sent\<close> has the notices.\<close>

definition notice :: "int \<Rightarrow> alert_phase option \<Rightarrow> (int \<times> alert_phase) list" where
  "notice t n = (case n of None \<Rightarrow> [] | Some p \<Rightarrow> [(t, p)])"

inductive episode :: "incident_policy \<Rightarrow> nat \<Rightarrow> incident_state \<Rightarrow> (int \<times> alert_phase) list \<Rightarrow> bool" for p where
  opened: "observe_incident None level t p = Inr (s, n) \<Longrightarrow> episode p 1 s (notice t n)"
| observed: "episode p k s sent \<Longrightarrow> observe_incident (Some s) level t p = Inr (s', n) \<Longrightarrow> episode p (Suc k) s' (sent @ notice t n)"
| resolved: "episode p k s sent \<Longrightarrow> resolve_incident s t = Inr (s', n) \<Longrightarrow> episode p k s' (sent @ notice t n)"

lemma incident_state_of_Inr [simp]:
  "incident_state_of s = Inr s' \<longleftrightarrow> s' = s \<and> 1 \<le> inc_occurrences s \<and> inc_occurrences s \<le> MAX_OCCURRENCES \<and> ordered_state s"
  by (auto simp: incident_state_of_def)

text \<open>The notices of an episode: opened or escalated, repeated no sooner than the suppression window, resolved at most once.\<close>

definition log_ok :: "incident_policy \<Rightarrow> bool \<Rightarrow> (int \<times> alert_phase) list \<Rightarrow> bool" where
  "log_ok p res sent \<longleftrightarrow>
     (sent = [] \<or> snd (hd sent) \<in> {OPENED, ESCALATED}) \<and>
     (\<forall>i. Suc i < length sent \<longrightarrow>
        (snd (sent ! Suc i) = REPEATED \<and> fst (sent ! Suc i) - fst (sent ! i) \<ge> seconds (suppression_seconds p)) \<or>
        (snd (sent ! Suc i) = RESOLVED \<and> res \<and> Suc (Suc i) = length sent))"

definition episode_ok :: "incident_policy \<Rightarrow> nat \<Rightarrow> incident_state \<Rightarrow> (int \<times> alert_phase) list \<Rightarrow> bool" where
  "episode_ok p k s sent \<longleftrightarrow>
     ordered_state s \<and> inc_occurrences s = min MAX_OCCURRENCES (int k) \<and> 1 \<le> k \<and>
     (inc_level s = CRITICAL) = (sent \<noteq> []) \<and> last_notice_at s = (if sent = [] then None else Some (fst (last sent))) \<and>
     log_ok p (resolved_at s \<noteq> None) sent \<and> (sent \<noteq> [] \<longrightarrow> (snd (last sent) = RESOLVED) = (resolved_at s \<noteq> None)) \<and>
     (last_seen s - first_seen s \<ge> seconds (escalation_seconds p) \<longrightarrow> sent \<noteq> []) \<and>
     (sent \<noteq> [] \<longrightarrow> last_seen s - fst (last sent) < seconds (suppression_seconds p))"

lemma log_ok_Nil [simp]: "log_ok p r []"
  by (simp add: log_ok_def)

lemma log_ok_single: "log_ok p r [(t, n)] \<longleftrightarrow> n \<in> {OPENED, ESCALATED}"
  by (simp add: log_ok_def)

lemma log_ok_snoc:
  assumes "log_ok p False sent" "sent \<noteq> []"
    and "n = REPEATED \<and> t - fst (last sent) \<ge> seconds (suppression_seconds p) \<or> n = RESOLVED \<and> r"
  shows "log_ok p r (sent @ [(t, n)])"
proof -
  have "snd ((sent @ [(t, n)]) ! Suc i) = REPEATED \<and> fst ((sent @ [(t, n)]) ! Suc i) - fst ((sent @ [(t, n)]) ! i) \<ge> seconds (suppression_seconds p) \<or>
      snd ((sent @ [(t, n)]) ! Suc i) = RESOLVED \<and> r \<and> Suc (Suc i) = length (sent @ [(t, n)])" if "Suc i < length (sent @ [(t, n)])" for i
  proof (cases "Suc i = length sent")
    case True
    then have "sent ! i = last sent" using last_conv_nth [OF assms(2)] by (metis diff_Suc_1)
    then show ?thesis using assms(3) True by (simp add: nth_append)
  next
    case False
    then show ?thesis using assms(1) that by (auto simp: log_ok_def nth_append)
  qed
  then show ?thesis using assms(1,2) by (simp add: log_ok_def hd_append)
qed

lemma observe_first_ok: "observe_first level t = Inr (s, n) \<Longrightarrow> incident_policy_ok p \<Longrightarrow> episode_ok p 1 s (notice t n)"
  by (cases level) (auto simp: observe_first_def episode_ok_def notice_def log_ok_single ordered_state_def incident_end_def incident_policy_ok_def seconds_def MAX_OCCURRENCES_def)

lemma observe_ok:
  assumes ok: "episode_ok p k s sent" and run: "observe_incident (Some s) level t p = Inr (s', n)" and p: "incident_policy_ok p"
  shows "episode_ok p (Suc k) s' (sent @ notice t n)"
proof -
  have res: "resolved_at s = None" and t: "last_seen s \<le> t" using run by (auto simp: observe_incident_def split: if_splits)
  have log: "log_ok p False sent" using ok res by (simp add: episode_ok_def)
  have count: "min MAX_OCCURRENCES (min MAX_OCCURRENCES (int k) + 1) = min MAX_OCCURRENCES (int (Suc k))"
    by (simp add: MAX_OCCURRENCES_def)
  define c where "c = is_critical s level t p"
  have n: "notification s c t p = Inr n"
    and s': "s' = s\<lparr>inc_level := (if c then CRITICAL else WARNING), last_seen := t,
       inc_occurrences := min MAX_OCCURRENCES (inc_occurrences s + 1), last_notice_at := (if n \<noteq> None then Some t else last_notice_at s)\<rparr>"
    and os: "ordered_state s'"
    using run res t by (auto simp: observe_incident_def Let_def c_def split: if_splits)
  have pos: "0 < seconds (suppression_seconds p)" using p by (simp add: incident_policy_ok_def seconds_def)
  show ?thesis
  proof (cases "sent = []")
    case True
    then show ?thesis
      using ok n s' os count res pos log_ok_single [of p False t ESCALATED] c_def
      by (cases "inc_level s") (auto simp: episode_ok_def notification_def notice_def is_critical_def split: if_splits)
  next
    case False
    then have l: "inc_level s = CRITICAL" "last_notice_at s = Some (fst (last sent))" "c" "snd (last sent) \<noteq> RESOLVED"
      using ok res by (auto simp: episode_ok_def c_def is_critical_def)
    show ?thesis
      using ok n s' os count res pos l False log log_ok_snoc [OF log False, of REPEATED t False]
      by (auto simp: episode_ok_def notification_def notice_def split: if_splits)
  qed
qed

lemma resolve_ok:
  assumes ok: "episode_ok p k s sent" and run: "resolve_incident s t = Inr (s', n)" and p: "incident_policy_ok p"
  shows "episode_ok p k s' (sent @ notice t n)"
proof (cases "resolved_at s")
  case None
  have pos: "0 < seconds (suppression_seconds p)" using p by (simp add: incident_policy_ok_def seconds_def)
  have log: "log_ok p False sent" using ok None by (simp add: episode_ok_def)
  show ?thesis
    using ok run None pos log_ok_snoc [OF log, of RESOLVED t True]
    by (auto simp: episode_ok_def resolve_incident_def notice_def Let_def split: if_splits)
next
  case (Some r)
  then show ?thesis using ok run by (simp add: resolve_incident_def notice_def)
qed

lemma episode_invariant: "episode p k s sent \<Longrightarrow> incident_policy_ok p \<Longrightarrow> episode_ok p k s sent"
proof (induction rule: episode.induct)
  case (opened level t s n)
  then show ?case using observe_first_ok by (simp add: observe_incident_def)
qed (blast intro: observe_ok resolve_ok)+

lemma observe_total:
  assumes ok: "episode_ok p k s sent" and "resolved_at s = None" "last_seen s \<le> t"
  shows "\<exists>s' n. observe_incident (Some s) level t p = Inr (s', n)"
proof -
  have critical: "inc_level s = WARNING \<or> last_notice_at s \<noteq> None"
    using ok by (cases "inc_level s") (auto simp: episode_ok_def ordered_state_def)
  then have "\<exists>n. notification s (is_critical s level t p) t p = Inr n" by (auto simp: notification_def)
  then obtain n where n: "notification s (is_critical s level t p) t p = Inr n" by blast
  let ?c = "is_critical s level t p"
  have "ordered_state (s\<lparr>inc_level := (if ?c then CRITICAL else WARNING), last_seen := t,
       inc_occurrences := min MAX_OCCURRENCES (inc_occurrences s + 1), last_notice_at := (if n \<noteq> None then Some t else last_notice_at s)\<rparr>)"
    using ok assms(2,3) n
    by (cases "inc_level s"; cases "last_notice_at s")
      (auto simp: episode_ok_def ordered_state_def incident_end_def notification_def is_critical_def split: if_splits)
  moreover have "1 \<le> inc_occurrences s" using ok by (auto simp: episode_ok_def MAX_OCCURRENCES_def)
  ultimately show ?thesis using n assms(2,3) by (auto simp: observe_incident_def Let_def MAX_OCCURRENCES_def)
qed

lemma resolve_total:
  assumes ok: "episode_ok p k s sent" and "resolved_at s \<noteq> None \<or> last_seen s \<le> t"
  shows "\<exists>s' n. resolve_incident s t = Inr (s', n)"
proof -
  have "1 \<le> inc_occurrences s" "inc_occurrences s \<le> MAX_OCCURRENCES" using ok by (auto simp: episode_ok_def MAX_OCCURRENCES_def)
  then show ?thesis
    using ok assms(2)
    by (cases "resolved_at s") (auto simp: episode_ok_def resolve_incident_def Let_def ordered_state_def incident_end_def split: option.splits)
qed

text \<open>
  C20: The notices of an incident. Every episode starts with at most one opening or escalation, repeats it no sooner than the
  suppression window, and ends with one recovery notice exactly when it was told about and is resolved. An incident that
  lasts as long as the escalation window has been told about, and the last notice before an observation is never older than
  the suppression window. Observations are counted up to the largest number. An observation in order of
  time of a current episode is always accepted, any other is refused.
\<close>

theorem incident_notices:
  assumes "episode p k s sent" and "incident_policy_ok p"
  shows "(sent = [] \<or> snd (hd sent) \<in> {OPENED, ESCALATED}) \<and>
    (\<forall>i. Suc i < length sent \<longrightarrow>
       (snd (sent ! Suc i) = REPEATED \<and> fst (sent ! Suc i) - fst (sent ! i) \<ge> seconds (suppression_seconds p)) \<or>
       (snd (sent ! Suc i) = RESOLVED \<and> Suc (Suc i) = length sent)) \<and>
    (sent \<noteq> [] \<longrightarrow> (snd (last sent) = RESOLVED) = (resolved_at s \<noteq> None)) \<and>
    (last_seen s - first_seen s \<ge> seconds (escalation_seconds p) \<longrightarrow> sent \<noteq> []) \<and>
    (sent \<noteq> [] \<longrightarrow> last_seen s - fst (last sent) < seconds (suppression_seconds p)) \<and>
    inc_occurrences s = min MAX_OCCURRENCES (int k) \<and>
    ((\<exists>s' n. observe_incident (Some s) level t p = Inr (s', n)) = (resolved_at s = None \<and> last_seen s \<le> t)) \<and>
    ((\<exists>s' n. resolve_incident s t = Inr (s', n)) = (resolved_at s \<noteq> None \<or> last_seen s \<le> t))"
proof -
  note ok = episode_invariant [OF assms]
  have "(\<exists>s' n. observe_incident (Some s) level t p = Inr (s', n)) = (resolved_at s = None \<and> last_seen s \<le> t)"
    using observe_total [OF ok] by (auto simp: observe_incident_def split: if_splits)
  moreover have "(\<exists>s' n. resolve_incident s t = Inr (s', n)) = (resolved_at s \<noteq> None \<or> last_seen s \<le> t)"
    using resolve_total [OF ok] by (auto simp: resolve_incident_def split: if_splits)
  ultimately show ?thesis using ok by (auto simp: episode_ok_def log_ok_def)
qed

theorem incident_notices_witness:
  "\<exists>s. episode \<lparr>suppression_seconds = 900, escalation_seconds = 900, source_stale_seconds = 1800\<rparr> 2 s [(900000000, ESCALATED)] \<and>
     (\<exists>s' n. resolve_incident s 900000000 = Inr (s', n)) \<and> inc_occurrences s = 2"
proof -
  let ?p = "\<lparr>suppression_seconds = 900, escalation_seconds = 900, source_stale_seconds = 1800\<rparr>"
  let ?s = "\<lparr>inc_level = WARNING, first_seen = 0, last_seen = 0, inc_occurrences = 1, last_notice_at = None, resolved_at = None\<rparr>"
  let ?t = "\<lparr>inc_level = CRITICAL, first_seen = 0, last_seen = 900000000, inc_occurrences = 2, last_notice_at = Some 900000000, resolved_at = None\<rparr>"
  have "observe_incident None WARNING 0 ?p = Inr (?s, None)"
    by (simp add: observe_incident_def observe_first_def ordered_state_def incident_end_def incident_state_of_def MAX_OCCURRENCES_def)
  then have "episode ?p 1 ?s (notice 0 None)" by (rule episode.opened)
  moreover have "observe_incident (Some ?s) WARNING 900000000 ?p = Inr (?t, Some ESCALATED)"
    by (simp add: observe_incident_def Let_def is_critical_def notification_def ordered_state_def incident_end_def incident_state_of_def MAX_OCCURRENCES_def seconds_def)
  ultimately have "episode ?p (Suc 1) ?t (notice 0 None @ notice 900000000 (Some ESCALATED))" by (rule episode.observed)
  then have ep: "episode ?p 2 ?t [(900000000, ESCALATED)]" by (simp add: notice_def numeral_2_eq_2)
  have "incident_policy_ok ?p" by (simp add: incident_policy_ok_def)
  from incident_notices [OF ep this, of _ 900000000] ep show ?thesis by (intro exI [of _ ?t]) simp
qed

end
