(* ===== verification/Delivery.thy ===== *)
theory Delivery
  imports Prelude
begin

text \<open>
  \<open>stewardship/jobs/delivery_states.py\<close> and \<open>stewardship/campaigns/production_states.py\<close>: the closed transition
  tables of an outgoing message and of the cleanup before a campaign goes live. A journal is the sequence of its actions.
\<close>

section \<open>Messages\<close>

datatype delivery_state = PENDING | SUBMITTING | RETRY_WAIT | UNKNOWN | DELIVERED | FAILED | CANCELLED

datatype delivery_action =
  SUBMIT | ACCEPT | RETRY_UNACCEPTED | FAIL_UNACCEPTED | MARK_UNKNOWN | CANCEL_UNSENT | RETRY_FAILED | AUTHORIZE_RESEND | RETRY_IDEMPOTENT

definition TERMINAL_DELIVERY_STATES :: "delivery_state list" where
  "TERMINAL_DELIVERY_STATES = [DELIVERED, FAILED, CANCELLED]"

fun delivery_transition :: "delivery_action \<Rightarrow> delivery_state list \<times> delivery_state" where
  "delivery_transition SUBMIT = ([PENDING, RETRY_WAIT], SUBMITTING)"
| "delivery_transition ACCEPT = ([SUBMITTING, UNKNOWN], DELIVERED)"
| "delivery_transition RETRY_UNACCEPTED = ([SUBMITTING, UNKNOWN], RETRY_WAIT)"
| "delivery_transition FAIL_UNACCEPTED = ([SUBMITTING, UNKNOWN], FAILED)"
| "delivery_transition MARK_UNKNOWN = ([SUBMITTING], UNKNOWN)"
| "delivery_transition CANCEL_UNSENT = ([PENDING, RETRY_WAIT], CANCELLED)"
| "delivery_transition RETRY_FAILED = ([FAILED], PENDING)"
| "delivery_transition AUTHORIZE_RESEND = ([UNKNOWN], PENDING)"
| "delivery_transition RETRY_IDEMPOTENT = ([SUBMITTING, UNKNOWN], RETRY_WAIT)"

definition delivery_target :: "delivery_state \<Rightarrow> delivery_action \<Rightarrow> delivery_state res" where
  "delivery_target s a =
     (case delivery_transition a of (sources, target) \<Rightarrow>
        if s \<in> set sources then Inr target else Inl (ValueError ''Delivery transition is not permitted.''))"

section \<open>Cleanup before going live\<close>

datatype production_state = Queued | Running | Retry_Wait | Complete | Failed | Activated | Cancelled

datatype production_action = Start | Recover | Retry_Later | Fail | Recovery_Fail | Retry_Failed | Complete_Cleanup | Activate | Cancel

definition GATE_OWNING_PRODUCTION_STATES :: "production_state list" where
  "GATE_OWNING_PRODUCTION_STATES = filter (\<lambda>s. s \<noteq> Activated \<and> s \<noteq> Cancelled) [Queued, Running, Retry_Wait, Complete, Failed, Activated, Cancelled]"

fun production_transition :: "production_action \<Rightarrow> production_state list \<times> production_state" where
  "production_transition Start = ([Queued, Retry_Wait], Running)"
| "production_transition Recover = ([Running], Running)"
| "production_transition Retry_Later = ([Running], Retry_Wait)"
| "production_transition Fail = ([Running], Failed)"
| "production_transition Recovery_Fail = ([Queued, Running, Retry_Wait], Failed)"
| "production_transition Retry_Failed = ([Failed], Queued)"
| "production_transition Complete_Cleanup = ([Running], Complete)"
| "production_transition Activate = ([Complete], Activated)"
| "production_transition Cancel = (GATE_OWNING_PRODUCTION_STATES, Cancelled)"

definition production_target :: "production_state \<Rightarrow> production_action \<Rightarrow> production_state res" where
  "production_target s a =
     (case production_transition a of (sources, target) \<Rightarrow>
        if s \<in> set sources then Inr target else Inl (ValueError ''Production transition is not permitted.''))"

section \<open>Journals\<close>

lemma delivery_targetE:
  assumes "delivery_target s a = Inr t"
  obtains "s \<in> set (fst (delivery_transition a))" "t = snd (delivery_transition a)"
  using assms by (auto simp: delivery_target_def split: prod.splits if_splits)

lemma foldM_res_snoc: "foldM_res f s (xs @ [x]) = bind_res (foldM_res f s xs) (\<lambda>t. f t x)"
  by (induction xs arbitrary: s) (auto simp: bind_res_def split: sum.splits)

lemma foldM_res_append: "foldM_res f s (xs @ ys) = bind_res (foldM_res f s xs) (\<lambda>t. foldM_res f t ys)"
  by (induction xs arbitrary: s) (auto simp: bind_res_def split: sum.splits)

text \<open>What says that an earlier submission was not accepted, or that sending again is meant.\<close>

definition resend_evidence :: "delivery_action \<Rightarrow> bool" where
  "resend_evidence a \<longleftrightarrow> a \<in> {RETRY_UNACCEPTED, FAIL_UNACCEPTED, AUTHORIZE_RESEND, RETRY_IDEMPOTENT}"

lemma unsettled:
  "foldM_res delivery_target s as = Inr t \<Longrightarrow> \<not> list_ex resend_evidence as \<Longrightarrow> s \<in> {SUBMITTING, UNKNOWN, DELIVERED} \<Longrightarrow>
     t \<in> {SUBMITTING, UNKNOWN, DELIVERED}"
proof (induction as arbitrary: s)
  case (Cons a as)
  then obtain u where u: "delivery_target s a = Inr u" "foldM_res delivery_target u as = Inr t" by auto
  have "u \<in> {SUBMITTING, UNKNOWN, DELIVERED}"
    using u(1) Cons.prems(2,3) by (cases a) (auto simp: resend_evidence_def elim!: delivery_targetE)
  then show ?case using Cons.IH [OF u(2)] Cons.prems(2) by simp
qed simp

lemma final_delivery:
  assumes "s \<in> {DELIVERED, CANCELLED}" and "foldM_res delivery_target s as = Inr t"
  shows "as = []"
proof (cases as)
  case (Cons a as')
  then obtain u where "delivery_target s a = Inr u" using assms(2) by auto
  then show ?thesis using assms(1) by (cases a) (auto elim!: delivery_targetE)
qed



text \<open>Going live only after a completed cleanup, and an activated or cancelled request accepts nothing more.\<close>

lemma production_activation:
  assumes "foldM_res production_target Queued (as @ [a]) = Inr t" and "t = Activated"
  shows "a = Activate \<and> as \<noteq> [] \<and> last as = Complete_Cleanup \<and> Cancel \<notin> set as"
proof -
  have snocE: "\<exists>u. foldM_res production_target Queued bs = Inr u \<and> production_target u b = Inr v"
    if "foldM_res production_target Queued (bs @ [b]) = Inr v" for bs b v using that by (simp add: foldM_res_append)
  obtain u where u: "foldM_res production_target Queued as = Inr u" "production_target u a = Inr Activated" using snocE assms by blast
  have a: "a = Activate" "u = Complete" using u(2) by (cases a; auto simp: production_target_def split: if_splits)+
  have "as \<noteq> []" using u(1) a(2) by auto
  then obtain bs b where as: "as = bs @ [b]" by (cases as rule: rev_cases) auto
  then obtain v where v: "production_target v b = Inr Complete" using snocE u(1) a(2) by blast
  then have b: "b = Complete_Cleanup" by (cases b) (auto simp: production_target_def split: if_splits)
  have "Cancel \<notin> set as"
  proof
    assume "Cancel \<in> set as"
    then obtain xs ys where "as = xs @ Cancel # ys" by (auto dest: split_list)
    then obtain w where w: "foldM_res production_target Cancelled ys = Inr Complete" "as = xs @ Cancel # ys"
      using u(1) a(2) by (auto simp: foldM_res_append production_target_def split: if_splits)
    then obtain y ys' x where "ys = y # ys'" "production_target Cancelled y = Inr x" by (cases ys) auto
    then show False by (cases y) (auto simp: production_target_def GATE_OWNING_PRODUCTION_STATES_def)
  qed
  then show ?thesis using a as b by simp
qed

end
