(* ===== verification/Load_Progress.thy ===== *)
theory Load_Progress
  imports Prelude
begin

text \<open>
  \<open>stewardship/source/load_progress.py\<close>: the progress of a source load in two counters that only grow, and the lines of the page
  read back from their history.
\<close>

definition BEFORE_ROSTERS :: "string list" where
  "BEFORE_ROSTERS = [''families'', ''family_groups'', ''members'', ''member_contactinfos'', ''ministry_types'']"

definition AFTER_ROSTERS :: "string list" where
  "AFTER_ROSTERS = [''funds'']"

definition ROSTER :: string where
  "ROSTER = ''ministry_roster''"

definition KNOWN :: "string list" where
  "KNOWN = BEFORE_ROSTERS @ [ROSTER] @ AFTER_ROSTERS"

section \<open>Reporting\<close>

text \<open>The reports that were persisted are the third field.\<close>

record download_progress =
  dp_units :: int
  dp_records :: int
  dp_reported :: "(int \<times> int) list"

definition new_progress :: download_progress where
  "new_progress = \<lparr>dp_units = 0, dp_records = 0, dp_reported = []\<rparr>"

definition progress_base :: "download_progress \<Rightarrow> int" where
  "progress_base d = dp_units d + dp_records d"

definition progress_call :: "download_progress \<Rightarrow> string \<times> int \<Rightarrow> download_progress" where
  "progress_call d r =
     (case r of (collection, count) \<Rightarrow>
        if collection \<notin> set KNOWN \<or> count < 0 then d
        else let d' = d\<lparr>dp_units := dp_units d + 1, dp_records := dp_records d + count\<rparr>
             in d'\<lparr>dp_reported := dp_reported d @ [(dp_units d', progress_base d')]\<rparr>)"

section \<open>Reading back\<close>

record download_line =
  dl_key :: string
  dl_count :: int
  dl_done :: bool
  dl_finished :: "int option"
  dl_expected :: "int option"

definition records_of :: "(int \<times> int) list \<Rightarrow> (int, int) dict" where
  "records_of observations = foldl (\<lambda>d (current, total). AList.update current (total - current) d) [(0, 0)] observations"

definition unit_count :: "(int, int) dict \<Rightarrow> int \<Rightarrow> int" where
  "unit_count records i =
     (case (map_of records i, map_of records (i - 1)) of (Some a, Some b) \<Rightarrow> a - b | _ \<Rightarrow> 0)"

definition plain_line :: "string \<Rightarrow> int \<Rightarrow> bool \<Rightarrow> download_line" where
  "plain_line key n is_done = \<lparr>dl_key = key, dl_count = n, dl_done = is_done, dl_finished = None, dl_expected = None\<rparr>"

definition collections :: "(int \<times> int) list \<Rightarrow> download_line list" where
  "collections observations =
     (let records = records_of observations;
          finished = Max (fst ` set records);
          before = int (length BEFORE_ROSTERS);
          ministries = (if finished \<ge> before then Some (unit_count records before) else None);
          expected = (case ministries of Some m \<Rightarrow> m | None \<Rightarrow> 0);
          rosters_done = max 0 (min (finished - before) expected);
          after = before + expected
      in map (\<lambda>(i, key). plain_line key (unit_count records (int i)) (int i \<le> finished)) (enumerate 1 BEFORE_ROSTERS) @
         [\<lparr>dl_key = ROSTER, dl_count = sum_list (map (\<lambda>i. unit_count records (before + i)) [1..rosters_done]),
           dl_done = (ministries = Some rosters_done), dl_finished = Some rosters_done, dl_expected = ministries\<rparr>] @
         map (\<lambda>(i, key). plain_line key (unit_count records (after + int i)) (ministries \<noteq> None \<and> after + int i \<le> finished))
           (enumerate 1 AFTER_ROSTERS))"

section \<open>What the page shows\<close>

text \<open>The history of a load that finished collections with these counts.\<close>

definition history :: "int list \<Rightarrow> (int \<times> int) list" where
  "history counts = map (\<lambda>j. (int j, int j + sum_list (take j counts))) [1..<Suc (length counts)]"

lemma history_snoc: "history (counts @ [c]) = history counts @ [(int (length counts) + 1, int (length counts) + 1 + sum_list counts + c)]"
  by (auto simp: history_def)

lemma reported_history:
  assumes "list_all (\<lambda>(name, c). name \<in> set KNOWN \<and> 0 \<le> c) reports"
  shows "foldl progress_call new_progress reports =
    \<lparr>dp_units = int (length reports), dp_records = sum_list (map snd reports), dp_reported = history (map snd reports)\<rparr>"
  using assms
proof (induction reports rule: rev_induct)
  case Nil
  then show ?case by (simp add: new_progress_def history_def)
next
  case (snoc r reports)
  then show ?case by (cases r) (auto simp: progress_call_def progress_base_def Let_def history_snoc)
qed

lemma records_history:
  "map_of (records_of (history counts)) i = (if 0 \<le> i \<and> i \<le> int (length counts) then Some (sum_list (take (nat i) counts)) else None)"
proof (induction counts arbitrary: i rule: rev_induct)
  case Nil
  then show ?case by (auto simp: records_of_def history_def)
next
  case (snoc c counts)
  have "records_of (history (counts @ [c])) = AList.update (int (length counts) + 1) (sum_list counts + c) (records_of (history counts))"
    by (simp add: records_of_def history_snoc)
  then show ?case using snoc by (auto simp: update_conv' nat_add_distrib)
qed

lemma keys_history: "fst ` set (records_of (history counts)) = {0..int (length counts)}"
proof -
  have "fst ` set (records_of (history counts)) = dom (map_of (records_of (history counts)))" by (simp add: dom_map_of_conv_image_fst)
  also have "\<dots> = {0..int (length counts)}" by (auto simp: dom_def records_history)
  finally show ?thesis .
qed

lemma unit_history: "unit_count (records_of (history counts)) (int i) = (if 1 \<le> i \<and> i \<le> length counts then counts ! (i - 1) else 0)"
proof (cases "1 \<le> i \<and> i \<le> length counts")
  case True
  then obtain k where i: "i = Suc k" "k < length counts" by (cases i) auto
  then show ?thesis by (simp add: unit_count_def records_history nat_add_distrib take_Suc_conv_app_nth)
next
  case False
  then consider "i = 0" | "length counts < i" by linarith
  then show ?thesis
  proof cases
    case 1
    then have "map_of (records_of (history counts)) (int i - 1) = None" by (simp add: records_history)
    then show ?thesis using False unfolding unit_count_def by (auto split: option.splits)
  next
    case 2
    then have "map_of (records_of (history counts)) (int i) = None" by (simp add: records_history)
    then show ?thesis using False unfolding unit_count_def by auto
  qed
qed

lemma list_all_take: "list_all P xs \<Longrightarrow> list_all P (take k xs)"
  by (auto simp: list_all_iff dest: in_set_takeD)

lemma five: "length counts = 5 \<Longrightarrow> \<exists>a b c d e. counts = [a, b, c, d, e]"
proof -
  assume "length counts = 5"
  then have "length counts = Suc (Suc (Suc (Suc (Suc 0))))" by simp
  then show ?thesis by (auto simp: length_Suc_conv)
qed

lemma roster_sum:
  assumes "d \<le> length rosters" and "length counts = 5" and "5 + d \<le> k"
  shows "sum_list (map (\<lambda>i. unit_count (records_of (history (take k (counts @ rosters @ [f])))) (5 + i)) [1..int d]) = sum_list (take d rosters)"
  using assms
proof (induction d)
  case (Suc d)
  have "unit_count (records_of (history (take k (counts @ rosters @ [f])))) (5 + int (Suc d)) = rosters ! d"
    using unit_history [of "take k (counts @ rosters @ [f])" "5 + Suc d"] Suc.prems by (auto simp: nth_append)
  moreover have "[1..int (Suc d)] = [1..int d] @ [int (Suc d)]" using upto_rec2 [of 1 "int (Suc d)"] by simp
  ultimately show ?case using Suc by (simp add: take_Suc_conv_app_nth)
qed simp

text \<open>
  What a load reports is read back. At every point of a load that brings the five collections, one roster for each ministry and
  the funds, the page shows the count of each finished collection, the rosters so far with their number, and which lines are done.
\<close>

theorem load_progress_roundtrip:
  fixes counts rosters :: "int list"
  assumes "length counts = 5" and "counts ! 4 = int (length rosters)" and "list_all (\<lambda>c. 0 \<le> c) (counts @ rosters @ [f])"
    and "k \<le> 6 + length rosters"
  shows "collections (dp_reported (foldl progress_call new_progress (take k (zip BEFORE_ROSTERS counts @ map (Pair ROSTER) rosters @ [(''funds'', f)])))) =
    map (\<lambda>i. plain_line (BEFORE_ROSTERS ! i) (if i < k then counts ! i else 0) (i < k)) [0..<5] @
    [\<lparr>dl_key = ROSTER, dl_count = sum_list (take (k - 5) rosters), dl_done = (5 + length rosters \<le> k),
      dl_finished = Some (int (min (k - 5) (length rosters))), dl_expected = (if 5 \<le> k then Some (int (length rosters)) else None)\<rparr>] @
    [plain_line ''funds'' (if k = 6 + length rosters then f else 0) (k = 6 + length rosters)]"
proof -
  let ?all = "counts @ rosters @ [f]" and ?reports = "zip BEFORE_ROSTERS counts @ map (Pair ROSTER) rosters @ [(''funds'', f)]"
  let ?h = "take k ?all"
  have snd: "map snd ?reports = ?all" using assms(1) by (simp add: BEFORE_ROSTERS_def comp_def)
  have "list_all (\<lambda>(name, c). name \<in> set KNOWN \<and> 0 \<le> c) ?reports"
    using assms(1,3) by (auto simp: list_all_iff KNOWN_def AFTER_ROSTERS_def dest: set_zip_leftD set_zip_rightD)
  from reported_history [OF list_all_take [OF this]]
  have rep: "dp_reported (foldl progress_call new_progress (take k ?reports)) = history ?h"
    by (simp only: download_progress.select_convs take_map [symmetric] snd)
  have len: "length ?h = k" using assms(1,4) by simp
  have fin: "Max (fst ` set (records_of (history ?h))) = int k" unfolding keys_history len by (rule Max_eqI) auto
  note u = unit_history [of ?h, unfolded len]
  obtain a b c d where counts: "counts = [a, b, c, d, int (length rosters)]" using five [OF assms(1)] assms(2) by auto
  have u5: "unit_count (records_of (history ?h)) 5 = (if 5 \<le> k then int (length rosters) else 0)" using u [of 5] by (auto simp: counts)
  have lines: "map (\<lambda>(i, key). plain_line key (unit_count (records_of (history ?h)) (int i)) (int i \<le> int k)) (enumerate 1 BEFORE_ROSTERS) =
      map (\<lambda>i. plain_line (BEFORE_ROSTERS ! i) (if i < k then counts ! i else 0) (i < k)) [0..<5]"
    using u [of 1] u [of 2] u [of 3] u [of 4] u [of 5] by (auto simp: BEFORE_ROSTERS_def upt_rec counts)
  have funds: "unit_count (records_of (history ?h)) (5 + int (length rosters) + 1) = (if k = 6 + length rosters then f else 0)"
    using u [of "6 + length rosters"] assms(4) by (auto simp: counts add.commute add.left_commute)
  have before: "int (length BEFORE_ROSTERS) = 5" by (simp add: BEFORE_ROSTERS_def)
  show ?thesis
  proof (cases "5 \<le> k")
    case True
    let ?d = "min (k - 5) (length rosters)"
    have d: "max 0 (min (int k - 5) (int (length rosters))) = int ?d" using True by simp
    have "sum_list (map (\<lambda>i. unit_count (records_of (history ?h)) (5 + i)) [1..int ?d]) = sum_list (take ?d rosters)"
      using True by (intro roster_sum [OF _ assms(1)]) auto
    then show ?thesis
      unfolding rep collections_def Let_def fin before lines u5 using True d funds assms(4)
      by (auto simp: AFTER_ROSTERS_def enumerate_eq_zip min_def)
  next
    case False
    have "unit_count (records_of (history ?h)) (5 + int 1) = 0" using u [of 6] False by simp
    then show ?thesis
      unfolding rep collections_def Let_def fin before lines using False
      by (simp add: AFTER_ROSTERS_def enumerate_eq_zip)
  qed
qed

theorem load_progress_roundtrip_witness:
  "map dl_count (collections (dp_reported (foldl progress_call new_progress
     (take 7 (zip BEFORE_ROSTERS [2, 1, 5, 5, 2] @ map (Pair ROSTER) [3, 4] @ [(''funds'', 7)]))))) = [2, 1, 5, 5, 2, 7, 0]"
  using load_progress_roundtrip [of "[2, 1, 5, 5, 2]" "[3, 4]" 7 7] by (simp add: plain_line_def upt_rec)

end
