(* ===== verification/Financial.thy ===== *)
theory Financial
  imports Config Dates
begin

text \<open>
  \<open>stewardship/reports/money.py\<close>: exact amounts in cents, and \<open>stewardship/responses/financial.py\<close>: the financial answers of a
  Family. The regular expressions of both are written out. \<open>clean_text\<close> is the one of \<open>stewardship/responses/census.py\<close>.
\<close>

section \<open>Amounts\<close>

datatype money_amount = MoneyAmount (money_cents: "int option")

definition available :: "money_amount \<Rightarrow> bool" where
  "available m \<longleftrightarrow> money_cents m \<noteq> None"

definition cents_digits :: "nat \<Rightarrow> string" where
  "cents_digits n = pad_zero 2 (show_nat n)"

definition cents_text :: "int \<Rightarrow> string" where
  "cents_text c =
     (let a = nat (abs c) in (if c < 0 then ''-'' else []) @ show_nat (a div 100) @ ''.'' @ cents_digits (a mod 100))"

definition money_canonical :: "money_amount \<Rightarrow> string option" where
  "money_canonical m = map_option cents_text (money_cents m)"

text \<open>The format \<open>{:,}\<close>: groups of three from the right.\<close>

fun grouped_rev :: "string \<Rightarrow> string" where
  "grouped_rev (a # b # c # d # r) = a # b # c # CHR '','' # grouped_rev (d # r)"
| "grouped_rev s = s"

definition grouped :: "nat \<Rightarrow> string" where
  "grouped n = rev (grouped_rev (rev (show_nat n)))"

definition cents_display :: "int \<Rightarrow> string" where
  "cents_display c =
     (let a = nat (abs c) in (if c < 0 then ''-'' else []) @ ''$'' @ grouped (a div 100) @ ''.'' @ cents_digits (a mod 100))"

definition money_display :: "money_amount \<Rightarrow> string" where
  "money_display m = (case money_cents m of None \<Rightarrow> ''Unavailable'' | Some c \<Rightarrow> cents_display c)"

definition family_display :: "money_amount \<Rightarrow> string" where
  "family_display m =
     (let t = money_display m
      in case money_cents m of Some c \<Rightarrow> if c mod 100 = 0 then take (length t - 3) t else t | None \<Rightarrow> t)"

definition whole_display :: "money_amount \<Rightarrow> string" where
  "whole_display m =
     (case money_cents m of
        None \<Rightarrow> money_display m
      | Some c \<Rightarrow> let dollars = (nat (abs c) + 50) div 100 in (if c < 0 \<and> dollars \<noteq> 0 then ''-'' else []) @ ''$'' @ grouped dollars)"

definition bad_source :: exn where
  "bad_source = ValueError ''Source money must contain canonical exact USD cents.''"

text \<open>\<open>-?(?:0|[1-9][0-9]{0,19})\.[0-9]{2}\<close>: the sign, the whole part and the fraction of a match.\<close>

definition canonical_whole :: "string \<Rightarrow> bool" where
  "canonical_whole w \<longleftrightarrow> w = ''0'' \<or> (w \<noteq> [] \<and> hd w \<noteq> CHR ''0'' \<and> length w \<le> 20 \<and> list_all is_digit w)"

definition match_source :: "string \<Rightarrow> (bool \<times> string \<times> string) option" where
  "match_source s =
     (let negative = startswith s ''-''; body = (if negative then drop 1 s else s)
      in case split_on CHR ''.'' body of
           [w, f] \<Rightarrow> if canonical_whole w \<and> length f = 2 \<and> list_all is_digit f then Some (negative, w, f) else None
         | _ \<Rightarrow> None)"

definition source_cents :: "pyval \<Rightarrow> int res" where
  "source_cents v =
     (case v of
        PStr s \<Rightarrow>
          (case match_source s of
             None \<Rightarrow> Inl bad_source
           | Some (negative, w, f) \<Rightarrow>
               let cents = int (digits_value w * 100 + digits_value f)
               in if negative \<and> cents = 0 then Inl bad_source else Inr (if negative then - cents else cents))
      | _ \<Rightarrow> Inl bad_source)"

definition source_total :: "pyval list \<Rightarrow> bool \<Rightarrow> money_amount res" where
  "source_total amounts is_available =
     (if \<not> is_available then Inr (MoneyAmount None)
      else bind_res (map_res source_cents amounts) (\<lambda>cs. Inr (MoneyAmount (Some (sum_list cs)))))"

section \<open>Pledges\<close>

definition MAX_PLEDGE_CENTS :: int where
  "MAX_PLEDGE_CENTS = 99999999999"

definition SHARE_TEXT_LIMIT :: nat where
  "SHARE_TEXT_LIMIT = 2000"

definition PLEDGE_FREQUENCIES :: "(string \<times> int) list" where
  "PLEDGE_FREQUENCIES = [(''weekly'', 52), (''monthly'', 12), (''quarterly'', 4), (''annual'', 1)]"

definition printable :: "char \<Rightarrow> bool" where
  "printable c \<longleftrightarrow> (let n = (of_char c :: nat) in (32 \<le> n \<or> n \<in> {10, 13, 9}) \<and> n \<noteq> 127)"

text \<open>ASCII text is in normal form C, so stripping is all that is left.\<close>

definition clean_text :: "pyval \<Rightarrow> nat \<Rightarrow> string option" where
  "clean_text v limit =
     (case v of PStr s \<Rightarrow> if length s > limit \<or> \<not> list_all printable s then None else Some (strip s) | _ \<Rightarrow> None)"

text \<open>\<open>(?:[0-9]{1,9}|[0-9]{1,3}(?:,[0-9]{3}){1,2})(?:\.[0-9]{1,2})?\<close>\<close>

definition pledge_whole :: "string \<Rightarrow> bool" where
  "pledge_whole w \<longleftrightarrow>
     (w \<noteq> [] \<and> length w \<le> 9 \<and> list_all is_digit w) \<or>
     (case split_on CHR '','' w of
        g # gs \<Rightarrow> g \<noteq> [] \<and> length g \<le> 3 \<and> list_all is_digit g \<and> (length gs = 1 \<or> length gs = 2) \<and>
                  list_all (\<lambda>h. length h = 3 \<and> list_all is_digit h) gs
      | [] \<Rightarrow> False)"

definition pledge_input :: "string \<Rightarrow> bool" where
  "pledge_input s \<longleftrightarrow>
     (case split_on CHR ''.'' s of
        [w] \<Rightarrow> pledge_whole w
      | [w, f] \<Rightarrow> pledge_whole w \<and> (length f = 1 \<or> length f = 2) \<and> list_all is_digit f
      | _ \<Rightarrow> False)"

definition no_commas :: "string \<Rightarrow> string" where
  "no_commas s = filter (\<lambda>c. c \<noteq> CHR '','') s"

text \<open>\<open>str.partition\<close> at the first point.\<close>

definition partition_point :: "string \<Rightarrow> string \<times> string" where
  "partition_point s = (takeWhile (\<lambda>c. c \<noteq> CHR ''.'') s, drop 1 (dropWhile (\<lambda>c. c \<noteq> CHR ''.'') s))"

definition ljust2 :: "string \<Rightarrow> string" where
  "ljust2 f = f @ replicate (2 - length f) CHR ''0''"

definition pledge_amount :: "pyval \<Rightarrow> int res" where
  "pledge_amount v =
     (case clean_text v 24 of
        Some s \<Rightarrow>
          if \<not> pledge_input s then Inl (ValueError ''Enter a nonnegative annual USD pledge with up to two decimals.'')
          else (case partition_point (no_commas s) of (whole, fraction) \<Rightarrow>
            let cents = int (digits_value whole) * 100 + int (digits_value (ljust2 fraction))
            in if cents > MAX_PLEDGE_CENTS then Inl (ValueError ''The annual pledge exceeds the supported maximum.'') else Inr cents)
      | None \<Rightarrow> Inl (ValueError ''Enter a nonnegative annual USD pledge with up to two decimals.''))"

text \<open>\<open>[1-9][0-9,]*(?:\.[0-9]{1,2})?\<close>\<close>

definition large_pledge :: "string \<Rightarrow> bool" where
  "large_pledge s \<longleftrightarrow>
     (let whole_ok = (\<lambda>w. w \<noteq> [] \<and> is_digit (hd w) \<and> hd w \<noteq> CHR ''0'' \<and> list_all (\<lambda>c. is_digit c \<or> c = CHR '','') w)
      in case split_on CHR ''.'' s of
           [w] \<Rightarrow> whole_ok w
         | [w, f] \<Rightarrow> whole_ok w \<and> (length f = 1 \<or> length f = 2) \<and> list_all is_digit f
         | _ \<Rightarrow> False)"

definition pledge_error :: "pyval \<Rightarrow> string" where
  "pledge_error v =
     (case v of
        PStr s \<Rightarrow>
          let t = strip s
          in if t = [] then ''Enter an annual pledge.''
             else if large_pledge t \<and> length (fst (partition_point (no_commas t))) \<ge> 10
                  then ''Enter an annual pledge under $1,000,000,000.''
                  else ''Enter a dollar amount, like 1200 or 1200.50.''
      | _ \<Rightarrow> ''Enter a dollar amount, like 1200 or 1200.50.'')"

definition installment :: "money_amount \<Rightarrow> string \<Rightarrow> money_amount res" where
  "installment annual frequency =
     (case (money_cents annual, map_of PLEDGE_FREQUENCIES frequency) of
        (Some c, Some periods) \<Rightarrow>
          if 0 \<le> c \<and> c \<le> MAX_PLEDGE_CENTS then Inr (MoneyAmount (Some ((c + periods div 2) div periods)))
          else Inl (ValueError ''A valid annual pledge and frequency are required.'')
      | _ \<Rightarrow> Inl (ValueError ''A valid annual pledge and frequency are required.''))"

definition household_pronoun :: "int \<Rightarrow> string res" where
  "household_pronoun count =
     (if count < 0 then Inl (ValueError ''An effective household count is required.'')
      else Inr (if count = 0 then ''This household'' else if count = 1 then ''I'' else ''We''))"

section \<open>The financial answers\<close>

record share_option =
  share_id :: string
  share_label :: string
  free_text :: bool

datatype answers_error =
    BadOptions string
  | InvalidFinancialAnswers "(string \<times> string) list"

record financial_answers =
  annual_pledge :: string
  pledge_frequency :: string
  pledge_shares :: "(string \<times> string) list"
  cannot_give :: bool

definition cannot_give_answers :: "mapping_value \<Rightarrow> answers_error + financial_answers" where
  "cannot_give_answers d =
     (if dget_none d ''annual_pledge'' \<notin> {PStr [], PStr ''0'', PStr ''0.00''} \<or> dget_none d ''frequency'' \<noteq> PStr [] \<or> dget_none d ''shares'' \<noteq> PDict []
      then Inl (InvalidFinancialAnswers [(''financial'', ''A Family that cannot contribute enters no pledge.'')])
      else Inr \<lparr>annual_pledge = ''0.00'', pledge_frequency = [], pledge_shares = [], cannot_give = True\<rparr>)"

definition frequency_error :: "int option \<Rightarrow> pyval \<Rightarrow> bool" where
  "frequency_error amount v =
     (case v of
        PStr f \<Rightarrow> f \<notin> set ([] # map fst PLEDGE_FREQUENCIES) \<or> (case amount of Some c \<Rightarrow> c > 0 \<and> f = [] | None \<Rightarrow> False)
      | _ \<Rightarrow> True)"

text \<open>One share method: its text, or the message for it.\<close>

definition share_text :: "share_option \<Rightarrow> pyval \<Rightarrow> string + string" where
  "share_text opt v =
     (case clean_text v SHARE_TEXT_LIMIT of
        Some t \<Rightarrow>
          if (free_text opt \<and> t = []) \<or> (\<not> free_text opt \<and> t \<noteq> [])
          then Inl (if free_text opt then ''Provide the requested text within the displayed length limit.''
                    else ''This share method does not accept additional text.'')
          else Inr t
      | None \<Rightarrow> Inl (if free_text opt then ''Provide the requested text within the displayed length limit.''
                     else ''This share method does not accept additional text.''))"

fun check_shares :: "(string \<Rightarrow> share_option option) \<Rightarrow> mapping_value \<Rightarrow> (string \<times> string) list \<times> (string \<times> string) list" where
  "check_shares allowed [] = ([], [])"
| "check_shares allowed ((k, v) # rest) =
     (case (check_shares allowed rest, allowed k) of
        ((errors, normalized), Some opt) \<Rightarrow>
          (case share_text opt v of
             Inl msg \<Rightarrow> ((''financial.shares.'' @ k, msg) # errors, normalized)
           | Inr t \<Rightarrow> (errors, (k, t) # normalized))
      | (r, None) \<Rightarrow> r)"

definition share_answers ::
  "share_option list \<Rightarrow> int option \<Rightarrow> pyval \<Rightarrow> (string \<times> string) list \<times> (string \<times> string) list" where
  "share_answers options amount v =
     (let allowed = map_of (map (\<lambda>o'. (share_id o', o')) options) in
      case v of
        PDict shares \<Rightarrow>
          if \<not> fst ` set shares \<subseteq> share_id ` set options
          then ([(''financial.shares'', ''Select from the currently offered share methods.'')], [])
          else (case check_shares allowed (sort_key fst shares) of (errors, normalized) \<Rightarrow>
            if (case amount of Some c \<Rightarrow> c > 0 | None \<Rightarrow> False) \<and> options \<noteq> [] \<and> shares = []
            then (errors @ [(''financial.shares'', ''Choose at least one way you would like to share your pledge.'')], normalized)
            else (errors, normalized))
      | _ \<Rightarrow> ([(''financial.shares'', ''Select from the currently offered share methods.'')], []))"

definition pledge_answers :: "share_option list \<Rightarrow> mapping_value \<Rightarrow> answers_error + financial_answers" where
  "pledge_answers options d =
     (let pledge = dget_none d ''annual_pledge'';
          amount = (case pledge_amount pledge of Inr c \<Rightarrow> Some c | Inl _ \<Rightarrow> None);
          pledge_errors = (if amount = None then [(''financial.annual_pledge'', pledge_error pledge)] else []);
          frequency = dget_none d ''frequency'';
          frequency_errors = (if frequency_error amount frequency
             then [(''financial.frequency'', ''Select weekly, monthly, quarterly or annual for a positive pledge.'')] else [])
      in case share_answers options amount (dget_none d ''shares'') of (share_errors, normalized) \<Rightarrow>
           (case (pledge_errors @ frequency_errors @ share_errors, amount) of
              ([], Some c) \<Rightarrow>
                Inr \<lparr>annual_pledge = cents_text c, pledge_frequency = str_of frequency, pledge_shares = normalized, cannot_give = False\<rparr>
            | (errors, _) \<Rightarrow> Inl (InvalidFinancialAnswers errors)))"

definition validate_financial_answers :: "pyval \<Rightarrow> share_option list \<Rightarrow> answers_error + financial_answers" where
  "validate_financial_answers payload options =
     (if \<not> distinct (map share_id options) then Inl (BadOptions ''Financial share option identities must be unique.'')
      else case payload of
        PDict d0 \<Rightarrow>
          (let d = (if map_of d0 ''cannot_give'' = None then (''cannot_give'', PBool False) # d0 else d0)
           in if \<not> has_keys d [''annual_pledge'', ''frequency'', ''shares'', ''cannot_give'']
              then Inl (InvalidFinancialAnswers [(''financial'', ''Review the financial fields.'')])
              else case dget_none d ''cannot_give'' of
                PBool True \<Rightarrow> cannot_give_answers d
              | PBool False \<Rightarrow> pledge_answers options d
              | _ \<Rightarrow> Inl (InvalidFinancialAnswers [(''financial'', ''Review the financial fields.'')]))
      | _ \<Rightarrow> Inl (InvalidFinancialAnswers [(''financial'', ''Review the financial fields.'')]))"

end
