(* ===== verification/Numerals.thy ===== *)
theory Numerals
  imports Prelude
begin

text \<open>Decimal numerals: a number without leading zeros is the text of its value, and the length of the text bounds it.\<close>

lemma digits_value_Nil [simp]: "digits_value [] = 0"
  by (simp add: digits_value_def)

lemma digits_value_snoc [simp]: "digits_value (s @ [c]) = 10 * digits_value s + (of_char c - 48)"
  by (simp add: digits_value_def)

lemma digits_value_single [simp]: "digits_value [c] = of_char c - 48"
  by (simp add: digits_value_def)

lemma show_digit_zero [simp]: "show_digit 0 = CHR ''0''"
  by code_simp

lemma digit_show: "is_digit c \<Longrightarrow> show_digit (of_char c - 48) = c"
  by (auto simp: show_digit_def is_digit_def Let_def)

lemma is_digit_show_digit: "n < 10 \<Longrightarrow> is_digit (show_digit n)"
  by (simp add: is_digit_def show_digit_value)

lemma digit_value_less: "is_digit c \<Longrightarrow> (of_char c :: nat) - 48 < 10"
  by (auto simp: is_digit_def Let_def)

lemma numeral_digits: "list_all is_digit (show_nat n)" "digits_value (show_nat n) = n" "show_nat n \<noteq> []"
  using parse_show_nat [of n] by (auto simp: parse_nat_def split: if_splits)

lemma show_nat_step: "0 < m \<Longrightarrow> d < 10 \<Longrightarrow> show_nat (10 * m + d) = show_nat m @ [show_digit d]"
  by (subst show_nat.simps) simp

lemma show_nat_small: "d < 10 \<Longrightarrow> show_nat d = [show_digit d]"
  by (subst show_nat.simps) simp

lemma digits_value_pos: "s \<noteq> [] \<Longrightarrow> list_all is_digit s \<Longrightarrow> hd s \<noteq> CHR ''0'' \<Longrightarrow> 0 < digits_value s"
proof (induction s rule: rev_induct)
  case (snoc c s)
  show ?case
  proof (cases "s = []")
    case True
    have "(of_char c :: nat) \<noteq> of_char (CHR ''0'')" using snoc.prems True by (simp del: of_char_Char)
    then have "(of_char c :: nat) \<noteq> 48" by simp
    then show ?thesis using snoc.prems True by (simp add: is_digit_def Let_def)
  qed (use snoc in simp)
qed simp

lemma show_digits:
  assumes "w \<noteq> []" "list_all is_digit w" "hd w \<noteq> CHR ''0''"
  shows "show_nat (digits_value w) = w"
  using assms
proof (induction w rule: rev_induct)
  case (snoc c w)
  note d = digit_value_less [of c] digit_show [of c]
  show ?case
  proof (cases "w = []")
    case True
    then show ?thesis using snoc.prems d show_nat_small [of "of_char c - 48"] by simp
  next
    case False
    then have "0 < digits_value w" using snoc.prems by (intro digits_value_pos) simp_all
    then show ?thesis using snoc False d show_nat_step by simp
  qed
qed simp

lemma show_nat_hd: "0 < n \<Longrightarrow> hd (show_nat n) \<noteq> CHR ''0''"
proof (induction n rule: show_nat.induct)
  case (1 n)
  show ?case
  proof (cases "n < 10")
    case True
    then have "(of_char (show_digit n) :: nat) \<noteq> of_char (CHR ''0'')" using 1(2) by (simp add: show_digit_value)
    then show ?thesis using True by (auto simp: show_nat_small)
  next
    case False
    then have "show_nat n = show_nat (n div 10) @ [show_digit (n mod 10)]" by (subst show_nat.simps) simp
    then show ?thesis using False 1(1) numeral_digits(3) by (simp add: hd_append)
  qed
qed

lemma show_nat_length: "n < 10 ^ k \<Longrightarrow> 0 < k \<Longrightarrow> length (show_nat n) \<le> k"
proof (induction k arbitrary: n)
  case (Suc k)
  show ?case
  proof (cases "n < 10")
    case False
    then have n: "show_nat n = show_nat (n div 10) @ [show_digit (n mod 10)]" by (subst show_nat.simps) simp
    have "0 < k" using Suc.prems False by (cases k) auto
    moreover have "n div 10 < 10 ^ k" using Suc.prems(1) by (simp add: div_less_iff_less_mult mult.commute)
    ultimately show ?thesis using Suc.IH n by simp
  qed (simp add: show_nat_small)
qed simp

lemma digits_value_bound: "list_all is_digit s \<Longrightarrow> digits_value s < 10 ^ length s"
proof (induction s rule: rev_induct)
  case (snoc c s)
  then show ?case using digit_value_less [of c] by simp
qed simp

end
