(* ===== verification/Pledge_Facts.thy ===== *)
theory Pledge_Facts
  imports Financial Numerals
begin

text \<open>
  Amounts, pledges and the financial answers of a Family: an amount has one canonical text, which is read back, and so is the text that
  is displayed; what is typed is read exactly, an installment is the nearest cent, and accepted answers are stable under being
  submitted again.
\<close>

section \<open>Cents\<close>

lemma cents_digits_facts:
  assumes "n < 100"
  shows "length (cents_digits n) = 2" "list_all is_digit (cents_digits n)" "digits_value (cents_digits n) = n"
proof -
  have l: "length (show_nat n) \<le> 2" using show_nat_length [of n 2] assms by simp
  have "parse_nat (cents_digits n) = Some n" unfolding cents_digits_def by (rule pad_zero_value) simp
  then show "list_all is_digit (cents_digits n)" "digits_value (cents_digits n) = n" by (auto simp: parse_nat_def split: if_splits)
  show "length (cents_digits n) = 2" using l by (simp add: cents_digits_def pad_zero_def)
qed

lemma cents_digits_value:
  assumes "length f = 2" "list_all is_digit f"
  shows "cents_digits (digits_value f) = f" "digits_value f < 100"
proof -
  show "digits_value f < 100" using digits_value_bound [OF assms(2)] assms(1) by simp
  obtain a b where f: "f = [a, b]" using assms(1) by (auto simp: numeral_2_eq_2 length_Suc_conv)
  then have ab: "is_digit a" "is_digit b" using assms(2) by auto
  have v: "digits_value f = 10 * (of_char a - 48) + (of_char b - 48)" by (simp add: f digits_value_def)
  show "cents_digits (digits_value f) = f"
  proof (cases "a = CHR ''0''")
    case True
    then have "digits_value f = of_char b - 48" using v by simp
    then show ?thesis using True f digit_show [OF ab(2)] digit_value_less [OF ab(2)]
      by (simp add: cents_digits_def pad_zero_def show_nat_small)
  next
    case False
    then have "show_nat (digits_value f) = f" using show_digits [of f] f ab by simp
    then show ?thesis using f by (simp add: cents_digits_def pad_zero_def)
  qed
qed

section \<open>Canonical text\<close>

lemma digits_no: "list_all is_digit s \<Longrightarrow> c \<in> set s \<Longrightarrow> c \<noteq> CHR ''.'' \<and> c \<noteq> CHR '','' \<and> c \<noteq> CHR ''-''"
  by (auto simp: list_all_iff is_digit_def Let_def)

lemma split_point: "CHR ''.'' \<notin> set w \<Longrightarrow> CHR ''.'' \<notin> set f \<Longrightarrow> split_on CHR ''.'' (w @ CHR ''.'' # f) = [w, f]"
  by (simp add: split_on_append split_on_id)

lemma split_pointD: "split_on c s = [w, f] \<Longrightarrow> s = w @ c # f"
  using split_on_join [of c s] by simp

lemma match_source_text:
  assumes "w \<noteq> []" "list_all is_digit w" "canonical_whole w" "length f = 2" "list_all is_digit f"
  shows "match_source ((if b then ''-'' else []) @ w @ ''.'' @ f) = Some (b, w, f)"
proof -
  have "split_on CHR ''.'' (w @ CHR ''.'' # f) = [w, f]" using assms digits_no by (intro split_point) blast+
  moreover have "\<not> startswith (w @ CHR ''.'' # f) ''-''"
    using assms(1) digits_no [OF assms(2), of "hd w"] by (cases w) (auto simp: startswith_def)
  ultimately show ?thesis using assms by (auto simp: match_source_def startswith_def)
qed

lemma canonical_whole_digits: "canonical_whole w \<Longrightarrow> w \<noteq> [] \<and> list_all is_digit w \<and> show_nat (digits_value w) = w \<and> digits_value w < 10 ^ 20"
proof -
  assume w: "canonical_whole w"
  show ?thesis
  proof (cases "w = ''0''")
    case True
    then show ?thesis by (simp add: is_digit_def show_nat_small)
  next
    case False
    then have d: "w \<noteq> []" "hd w \<noteq> CHR ''0''" "length w \<le> 20" "list_all is_digit w" using w by (auto simp: canonical_whole_def)
    have "(10 :: nat) ^ length w \<le> 10 ^ 20" using d(3) by (intro power_increasing) simp_all
    then show ?thesis using show_digits [OF d(1,4,2)] digits_value_bound [OF d(4)] d by linarith
  qed
qed

lemma canonical_whole_show: "n < 10 ^ 20 \<Longrightarrow> canonical_whole (show_nat n)"
proof (cases "n = 0")
  case True
  then show ?thesis by (simp add: canonical_whole_def show_nat_small)
next
  case False
  moreover assume "n < 10 ^ 20"
  ultimately show ?thesis using show_nat_length [of n 20] show_nat_hd [of n] numeral_digits [of n] by (simp add: canonical_whole_def)
qed

lemma source_cents_match:
  "match_source s = Some (b, w, f) \<Longrightarrow> digits_value w * 100 + digits_value f = n \<Longrightarrow>
     source_cents (PStr s) = (if b \<and> n = 0 then Inl bad_source else Inr (if b then - int n else int n))"
  by (auto simp: source_cents_def Let_def)

lemma source_cents_text:
  assumes "nat (abs c) div 100 < 10 ^ 20"
  shows "source_cents (PStr (cents_text c)) = Inr c"
proof -
  let ?a = "nat (abs c)"
  have t: "?a mod 100 < 100" by simp
  have "match_source (cents_text c) = Some (c < 0, show_nat (?a div 100), cents_digits (?a mod 100))"
    unfolding cents_text_def Let_def
    using numeral_digits cents_digits_facts [OF t] canonical_whole_show [OF assms] by (intro match_source_text) simp_all
  moreover have "digits_value (show_nat (?a div 100)) * 100 + digits_value (cents_digits (?a mod 100)) = ?a"
    using numeral_digits(2) cents_digits_facts(3) [OF t] by simp
  ultimately show ?thesis using source_cents_match [of "cents_text c"] by auto
qed

lemma source_centsD:
  assumes "source_cents (PStr s) = Inr c"
  shows "s = cents_text c" "nat (abs c) div 100 < 10 ^ 20"
proof -
  obtain b w f where m: "match_source s = Some (b, w, f)" using assms by (auto simp: source_cents_def split: option.splits)
  let ?n = "digits_value w * 100 + digits_value f"
  have c: "c = (if b then - int ?n else int ?n)" "b \<longrightarrow> ?n \<noteq> 0"
    using assms m by (auto simp: source_cents_def Let_def split: if_splits)
  have body: "split_on CHR ''.'' (if b then drop 1 s else s) = [w, f]" and b: "b = startswith s ''-''"
    and ok: "canonical_whole w" "length f = 2" "list_all is_digit f"
    using m by (auto simp: match_source_def Let_def split: list.splits if_splits)
  have s: "s = (if b then ''-'' else []) @ w @ ''.'' @ f"
    using split_pointD [OF body] b by (cases s) (auto simp: startswith_def split: if_splits)
  note w = canonical_whole_digits [OF ok(1)] and f = cents_digits_value [OF ok(2,3)]
  have a: "nat (abs c) = ?n" "c < 0 \<longleftrightarrow> b" using c by auto
  have "?n div 100 = digits_value w" "?n mod 100 = digits_value f" using f(2) by simp_all
  then show "s = cents_text c" "nat (abs c) div 100 < 10 ^ 20" using s w f(1) a by (simp_all add: cents_text_def Let_def)
qed

section \<open>Grouping\<close>

lemma grouped_rev_step: "r \<noteq> [] \<Longrightarrow> grouped_rev (a # b # c # r) = a # b # c # CHR '','' # grouped_rev r"
  by (cases r) simp_all

lemma grouped_rev_short: "length r \<le> 3 \<Longrightarrow> grouped_rev r = r"
  by (cases r rule: grouped_rev.cases) simp_all

lemma no_commas_digits: "list_all is_digit s \<Longrightarrow> no_commas s = s"
  using digits_no by (auto simp: no_commas_def intro!: filter_True)

lemma no_commas_append [simp]: "no_commas (s @ t) = no_commas s @ no_commas t"
  by (simp add: no_commas_def)

lemma no_commas_grouped_rev: "no_commas (grouped_rev r) = no_commas r"
  by (induction r rule: grouped_rev.induct) (simp_all add: no_commas_def)

lemma no_commas_rev: "no_commas (rev s) = rev (no_commas s)"
  by (simp add: no_commas_def rev_filter)

lemma no_commas_grouped: "no_commas (grouped n) = show_nat n"
  by (simp add: grouped_def no_commas_rev no_commas_grouped_rev no_commas_digits numeral_digits)

lemma pledge_whole_plain: "s \<noteq> [] \<Longrightarrow> length s \<le> 9 \<Longrightarrow> list_all is_digit s \<Longrightarrow> pledge_whole s"
  by (simp add: pledge_whole_def)

lemma pledge_whole_groups:
  assumes "g \<noteq> []" "length g \<le> 3" "list_all is_digit g" "length gs = 1 \<or> length gs = 2" "list_all (\<lambda>h. length h = 3 \<and> list_all is_digit h) gs"
  shows "pledge_whole (g @ concat (map (\<lambda>h. CHR '','' # h) gs))"
proof -
  have "split_on CHR '','' (g @ concat (map (\<lambda>h. CHR '','' # h) gs)) = g # gs"
    using assms(3,5)
  proof (induction gs arbitrary: g)
    case Nil
    then show ?case using digits_no by (auto intro!: split_on_id)
  next
    case (Cons h gs)
    then have "CHR '','' \<notin> set g" using digits_no by blast
    then show ?case using Cons by (simp add: split_on_append)
  qed
  then show ?thesis using assms by (simp add: pledge_whole_def)
qed

lemma last_three:
  assumes "3 < length s"
  obtains t h where "s = t @ h" "t \<noteq> []" "length t = length s - 3" "length h = 3"
    "rev (grouped_rev (rev s)) = rev (grouped_rev (rev t)) @ CHR '','' # h"
proof -
  let ?t = "take (length s - 3) s" and ?h = "drop (length s - 3) s"
  have l: "length ?h = 3" using assms by simp
  have three: "\<exists>c b a. x = [c, b, a]" if "length x = 3" for x :: string using that by (auto simp: numeral_3_eq_3 length_Suc_conv)
  obtain c b a where h: "?h = [c, b, a]" using three [OF l] by blast
  have s: "s = ?t @ [c, b, a]" using append_take_drop_id [of "length s - 3" s] h by simp
  have t: "?t \<noteq> []" using assms by (auto simp: take_eq_Nil)
  have r: "rev s = a # b # c # rev ?t" using arg_cong [OF s, of rev] by simp
  have "grouped_rev (rev s) = a # b # c # CHR '','' # grouped_rev (rev ?t)" unfolding r using t by (intro grouped_rev_step) simp
  then have "rev (grouped_rev (rev s)) = rev (grouped_rev (rev ?t)) @ CHR '','' # ?h" unfolding h by simp
  then show thesis using append_take_drop_id t l assms by (intro that [of ?t ?h]) simp_all
qed

lemma pledge_whole_grouped:
  assumes "s \<noteq> []" "length s \<le> 9" "list_all is_digit s"
  shows "pledge_whole (rev (grouped_rev (rev s)))"
proof (cases "length s \<le> 3")
  case True
  then show ?thesis using assms by (simp add: grouped_rev_short pledge_whole_plain)
next
  case False
  then have "3 < length s" by simp
  then obtain t h where t: "s = t @ h" "t \<noteq> []" "length t = length s - 3" "length h = 3"
      "rev (grouped_rev (rev s)) = rev (grouped_rev (rev t)) @ CHR '','' # h" by (rule last_three)
  have digits: "list_all is_digit t" "list_all is_digit h" using assms(3) unfolding t(1) by simp_all
  show ?thesis
  proof (cases "length t \<le> 3")
    case True
    have "rev (grouped_rev (rev s)) = t @ CHR '','' # h" unfolding t(5) using True by (simp add: grouped_rev_short)
    then show ?thesis using pledge_whole_groups [of t "[h]"] t(2,4) digits True by simp
  next
    case False
    then have "3 < length t" by simp
    then obtain u g where u: "t = u @ g" "u \<noteq> []" "length u = length t - 3" "length g = 3"
        "rev (grouped_rev (rev t)) = rev (grouped_rev (rev u)) @ CHR '','' # g" by (rule last_three)
    have short: "length u \<le> 3" using assms(2) unfolding u(3) t(3) by simp
    have "list_all is_digit u" "list_all is_digit g" using digits(1) unfolding u(1) by simp_all
    moreover have "rev (grouped_rev (rev s)) = u @ CHR '','' # g @ CHR '','' # h"
      unfolding t(5) u(5) using short by (simp add: grouped_rev_short)
    ultimately show ?thesis using pledge_whole_groups [of u "[g, h]"] t(4) u(2,4) digits short by simp
  qed
qed

section \<open>Reading a pledge\<close>

lemma amount_char: "is_digit c \<or> c = CHR '','' \<or> c = CHR ''.'' \<Longrightarrow> printable c \<and> \<not> is_space c"
  by (auto simp: is_digit_def printable_def is_space_def Let_def)

lemma clean_amount:
  assumes "w \<noteq> []" "list_all (\<lambda>c. is_digit c \<or> c = CHR '','') w" "f \<noteq> []" "list_all is_digit f" "length w + length f \<le> 23"
  shows "clean_text (PStr (w @ ''.'' @ f)) 24 = Some (w @ ''.'' @ f)"
proof -
  have chars: "is_digit c \<or> c = CHR '','' \<or> c = CHR ''.''" if "c \<in> set (w @ ''.'' @ f)" for c using assms that by (auto simp: list_all_iff)
  have "strip (w @ ''.'' @ f) = w @ ''.'' @ f"
    using assms(1) amount_char [OF chars] by (intro strip_by_id) (auto simp: last_in_set hd_in_set)
  moreover have "list_all printable (w @ ''.'' @ f)" using amount_char [OF chars] by (simp only: list_all_iff) blast
  ultimately show ?thesis using assms(5) by (simp add: clean_text_def)
qed

lemma partition_at: "CHR ''.'' \<notin> set w \<Longrightarrow> partition_point (w @ CHR ''.'' # f) = (w, f)"
  by (induction w) (auto simp: partition_point_def)

lemma pledge_amount_text:
  assumes w: "pledge_whole w" "w \<noteq> []" "list_all (\<lambda>c. is_digit c \<or> c = CHR '','') w" "length w \<le> 21"
    and f: "length f = 2" "list_all is_digit f"
    and c: "int (digits_value (no_commas w) * 100 + digits_value f) = c" "c \<le> MAX_PLEDGE_CENTS"
  shows "pledge_amount (PStr (w @ ''.'' @ f)) = Inr c"
proof -
  have clean: "clean_text (PStr (w @ ''.'' @ f)) 24 = Some (w @ ''.'' @ f)" using w f by (intro clean_amount) auto
  have point: "CHR ''.'' \<notin> set w" "CHR ''.'' \<notin> set f" using w(3) f(2) by (auto simp: list_all_iff is_digit_def)
  then have "pledge_input (w @ ''.'' @ f)" using w f by (simp add: pledge_input_def split_point)
  moreover have "no_commas (w @ ''.'' @ f) = no_commas w @ CHR ''.'' # f" using no_commas_digits [OF f(2)] by (simp add: no_commas_def)
  moreover have "CHR ''.'' \<notin> set (no_commas w)" using point by (simp add: no_commas_def)
  ultimately show ?thesis
    using clean c f(1) by (simp add: pledge_amount_def partition_at ljust2_def Let_def)
qed

lemma grouped_chars: "c \<in> set (grouped_rev r) \<Longrightarrow> c \<in> set r \<or> c = CHR '',''" "length (grouped_rev r) \<le> 2 * length r" "grouped_rev r = [] \<longleftrightarrow> r = []"
  by (induction r rule: grouped_rev.induct) auto

lemma grouped_facts:
  assumes "n < 10 ^ 9"
  shows "pledge_whole (grouped n)" "grouped n \<noteq> []" "list_all (\<lambda>c. is_digit c \<or> c = CHR '','') (grouped n)" "length (grouped n) \<le> 21"
proof -
  have l: "length (show_nat n) \<le> 9" using show_nat_length [OF assms] by simp
  note d = numeral_digits [of n]
  show "pledge_whole (grouped n)" unfolding grouped_def using d(3) l d(1) by (rule pledge_whole_grouped)
  show "grouped n \<noteq> []" using d(3) by (simp add: grouped_def grouped_chars(3))
  show "list_all (\<lambda>c. is_digit c \<or> c = CHR '','') (grouped n)"
    using d(1) grouped_chars(1) [of _ "rev (show_nat n)"] by (auto simp: list_all_iff grouped_def)
  show "length (grouped n) \<le> 21" using grouped_chars(2) [of "rev (show_nat n)"] l by (simp add: grouped_def)
qed

lemma pledge_canonical:
  assumes "0 \<le> c" "c \<le> MAX_PLEDGE_CENTS"
  shows "pledge_amount (PStr (cents_text c)) = Inr c" "pledge_amount (PStr (drop 1 (cents_display c))) = Inr c"
proof -
  let ?w = "nat c div 100" and ?f = "nat c mod 100"
  have w: "?w < 10 ^ 9" using assms by (simp add: MAX_PLEDGE_CENTS_def)
  have f: "length (cents_digits ?f) = 2" "list_all is_digit (cents_digits ?f)" "digits_value (cents_digits ?f) = ?f" by (simp_all add: cents_digits_facts)
  note d = numeral_digits [of ?w]
  have v: "int (digits_value (no_commas (show_nat ?w)) * 100 + digits_value (cents_digits ?f)) = c"
    using no_commas_digits [OF d(1)] d(2) f(3) assms(1) by simp
  have l: "length (show_nat ?w) \<le> 9" using show_nat_length [OF w] by simp
  have chars: "list_all (\<lambda>c. is_digit c \<or> c = CHR '','') (show_nat ?w)" using d(1) by (auto simp: list_all_iff)
  have "length (show_nat ?w) \<le> 21" using l by simp
  from pledge_amount_text [OF pledge_whole_plain [OF d(3) l d(1)] d(3) chars this f(1,2) v assms(2)]
  show "pledge_amount (PStr (cents_text c)) = Inr c" using assms(1) by (simp add: cents_text_def Let_def)
  have v': "int (digits_value (no_commas (grouped ?w)) * 100 + digits_value (cents_digits ?f)) = c"
    using v unfolding no_commas_grouped no_commas_digits [OF d(1)] .
  from pledge_amount_text [OF grouped_facts [OF w] f(1,2) v' assms(2)]
  show "pledge_amount (PStr (drop 1 (cents_display c))) = Inr c" using assms(1) by (simp add: cents_display_def Let_def)
qed

lemma pledge_amount_range: "pledge_amount v = Inr c \<Longrightarrow> 0 \<le> c \<and> c \<le> MAX_PLEDGE_CENTS"
  by (auto simp: pledge_amount_def Let_def split: option.splits if_splits prod.splits)

section \<open>Answers\<close>

lemma clean_text_idem: "clean_text v limit = Some t \<Longrightarrow> clean_text (PStr t) limit = Some t \<and> length t \<le> limit \<and> strip t = t"
proof -
  assume a: "clean_text v limit = Some t"
  then obtain s where s: "v = PStr s" "length s \<le> limit" "list_all printable s" "t = strip s"
    by (auto simp: clean_text_def split: pyval.splits if_splits)
  have "length t \<le> length s"
    unfolding s(4) strip_by_def by (metis length_dropWhile_le length_rev order_trans)
  moreover have "list_all printable t" using s(3,4) strip_by_set [of is_space s] by (auto simp: list_all_iff)
  ultimately show ?thesis using s by (simp add: clean_text_def)
qed

lemma share_text_idem:
  "share_text opt v = Inr t \<Longrightarrow> share_text opt (PStr t) = Inr t \<and> (free_text opt \<longleftrightarrow> t \<noteq> []) \<and> length t \<le> SHARE_TEXT_LIMIT"
  using clean_text_idem [of v SHARE_TEXT_LIMIT t] by (auto simp: share_text_def split: option.splits if_splits)

lemma check_shares_stable:
  assumes "check_shares allowed d = ([], ts)" and "\<And>k. k \<in> fst ` set d \<Longrightarrow> allowed k \<noteq> None"
  shows "map fst ts = map fst d" "check_shares allowed (map (\<lambda>(k, t). (k, PStr t)) ts) = ([], ts)"
    "\<forall>(k, t)\<in>set ts. \<exists>opt. allowed k = Some opt \<and> (free_text opt \<longleftrightarrow> t \<noteq> []) \<and> length t \<le> SHARE_TEXT_LIMIT"
proof -
  have "map fst ts = map fst d \<and> check_shares allowed (map (\<lambda>(k, t). (k, PStr t)) ts) = ([], ts) \<and>
    (\<forall>(k, t)\<in>set ts. \<exists>opt. allowed k = Some opt \<and> (free_text opt \<longleftrightarrow> t \<noteq> []) \<and> length t \<le> SHARE_TEXT_LIMIT)"
    using assms
  proof (induction d arbitrary: ts)
    case (Cons kv d)
    obtain k v where kv: "kv = (k, v)" by (cases kv)
    obtain opt where opt: "allowed k = Some opt" using Cons.prems(2) [of k] kv by auto
    obtain ts' t where t: "check_shares allowed d = ([], ts')" "share_text opt v = Inr t" "ts = (k, t) # ts'"
      using Cons.prems(1) opt kv by (auto split: prod.splits sum.splits)
    show ?case using Cons.IH [OF t(1)] Cons.prems(2) share_text_idem [OF t(2)] opt kv t(3) by auto
  qed simp
  then show "map fst ts = map fst d" "check_shares allowed (map (\<lambda>(k, t). (k, PStr t)) ts) = ([], ts)"
    "\<forall>(k, t)\<in>set ts. \<exists>opt. allowed k = Some opt \<and> (free_text opt \<longleftrightarrow> t \<noteq> []) \<and> length t \<le> SHARE_TEXT_LIMIT" by blast+
qed

definition shares_value :: "(string \<times> string) list \<Rightarrow> pyval" where
  "shares_value ts = PDict (map (\<lambda>(k, t). (k, PStr t)) ts)"

definition answers_payload :: "financial_answers \<Rightarrow> pyval" where
  "answers_payload a = PDict [(''annual_pledge'', PStr (annual_pledge a)), (''frequency'', PStr (pledge_frequency a)),
     (''shares'', shares_value (pledge_shares a)), (''cannot_give'', PBool (cannot_give a))]"

lemma share_answers_stable:
  assumes "share_answers options amount v = ([], ts)" and "distinct (map share_id options)"
  shows "share_answers options amount (shares_value ts) = ([], ts)"
    "amount = Some c \<Longrightarrow> 0 < c \<Longrightarrow> options \<noteq> [] \<Longrightarrow> ts \<noteq> []"
    "\<forall>(k, t)\<in>set ts. \<exists>opt\<in>set options. share_id opt = k \<and> (free_text opt \<longleftrightarrow> t \<noteq> []) \<and> length t \<le> SHARE_TEXT_LIMIT"
proof -
  let ?allowed = "map_of (map (\<lambda>o'. (share_id o', o')) options)"
  obtain shares where sh: "v = PDict shares" "fst ` set shares \<subseteq> share_id ` set options" "check_shares ?allowed (sort_key fst shares) = ([], ts)"
      "\<not> ((case amount of Some c \<Rightarrow> c > 0 | None \<Rightarrow> False) \<and> options \<noteq> [] \<and> shares = [])"
    using assms(1) by (auto simp: share_answers_def Let_def split: pyval.splits if_splits prod.splits)
  have al: "?allowed k \<noteq> None" if "k \<in> fst ` set (sort_key fst shares)" for k
    using that sh(2) by (auto simp: map_of_eq_None_iff image_image)
  note st = check_shares_stable [OF sh(3) al]
  have keys: "map fst ts = map fst (sort_key fst shares)" by (rule st(1)) simp
  have sub: "fst ` set (map (\<lambda>(k, t). (k, PStr t)) ts) \<subseteq> share_id ` set options"
  proof -
    have "fst ` set (map (\<lambda>(k, t). (k, PStr t)) ts) = set (map fst ts)" by force
    then show ?thesis using sh(2) unfolding keys by simp
  qed
  have nil: "ts = [] \<longleftrightarrow> shares = []"
    using arg_cong [OF keys, of length] by auto
  have "sort_key fst (map (\<lambda>(k, t). (k, PStr t)) ts) = map (\<lambda>(k, t). (k, PStr t)) ts"
  proof (rule sort_key_id_if_sorted)
    have "map fst (map (\<lambda>(k, t). (k, PStr t)) ts) = map fst ts" by (simp add: case_prod_unfold comp_def)
    then show "sorted (map fst (map (\<lambda>(k, t). (k, PStr t)) ts))" unfolding keys by simp
  qed
  then show "share_answers options amount (shares_value ts) = ([], ts)"
    using st(2) sub sh(4) nil by (auto simp: share_answers_def shares_value_def Let_def)
  show "amount = Some c \<Longrightarrow> 0 < c \<Longrightarrow> options \<noteq> [] \<Longrightarrow> ts \<noteq> []" using sh(4) nil by auto
  show "\<forall>(k, t)\<in>set ts. \<exists>opt\<in>set options. share_id opt = k \<and> (free_text opt \<longleftrightarrow> t \<noteq> []) \<and> length t \<le> SHARE_TEXT_LIMIT"
    using st(3) by (fastforce dest: map_of_SomeD)
qed

lemma pledge_answersE:
  assumes "pledge_answers options d = Inr a"
  obtains c f where "pledge_amount (dget_none d ''annual_pledge'') = Inr c" "dget_none d ''frequency'' = PStr f" "\<not> frequency_error (Some c) (PStr f)"
    "share_answers options (Some c) (dget_none d ''shares'') = ([], pledge_shares a)"
    "a = \<lparr>annual_pledge = cents_text c, pledge_frequency = f, pledge_shares = pledge_shares a, cannot_give = False\<rparr>"
proof -
  obtain c where c: "pledge_amount (dget_none d ''annual_pledge'') = Inr c"
    using assms by (auto simp: pledge_answers_def Let_def split: sum.splits prod.splits list.splits)
  moreover obtain f where f: "dget_none d ''frequency'' = PStr f" "\<not> frequency_error (Some c) (PStr f)"
    using assms c by (auto simp: pledge_answers_def Let_def frequency_error_def split: prod.splits list.splits if_splits pyval.splits)
  ultimately show ?thesis
    using assms that by (auto simp: pledge_answers_def Let_def split: prod.splits list.splits)
qed

lemma validate_cases:
  assumes "validate_financial_answers payload options = Inr a"
  obtains d where "distinct (map share_id options)" "cannot_give_answers d = Inr a"
  | d where "distinct (map share_id options)" "pledge_answers options d = Inr a"
  using assms by (auto simp: validate_financial_answers_def Let_def split: if_splits pyval.splits bool.splits)

lemma answers_keys:
  "has_keys [(''annual_pledge'', p), (''frequency'', f), (''shares'', s), (''cannot_give'', b)] [''annual_pledge'', ''frequency'', ''shares'', ''cannot_give'']"
  by (simp add: has_keys_def)

text \<open>
  C21: The financial answers of a Family that are accepted: the pledge is the canonical text of an amount within the
  limits, a positive pledge has a frequency and, where share methods are offered, at least one of them; every share method is
  offered and has a text exactly when it asks for one; a Family that cannot give pledges nothing. The accepted answers are
  accepted again as they are stored, with the same result.
\<close>

theorem financial_answers_stable:
  assumes "validate_financial_answers payload options = Inr a"
  shows "validate_financial_answers (answers_payload a) options = Inr a \<and>
    (\<exists>c. annual_pledge a = cents_text c \<and> 0 \<le> c \<and> c \<le> MAX_PLEDGE_CENTS \<and>
       (0 < c \<longrightarrow> \<not> cannot_give a \<and> pledge_frequency a \<in> fst ` set PLEDGE_FREQUENCIES \<and> (options \<noteq> [] \<longrightarrow> pledge_shares a \<noteq> []))) \<and>
    (\<forall>(k, t)\<in>set (pledge_shares a). \<exists>opt\<in>set options. share_id opt = k \<and> (free_text opt \<longleftrightarrow> t \<noteq> []) \<and> length t \<le> SHARE_TEXT_LIMIT)"
  using assms
proof (cases rule: validate_cases)
  case (1 d)
  have zero: "cents_text 0 = ''0.00''" by code_simp
  have a: "a = \<lparr>annual_pledge = ''0.00'', pledge_frequency = [], pledge_shares = [], cannot_give = True\<rparr>"
    using 1(2) by (auto simp: cannot_give_answers_def split: if_splits)
  have "validate_financial_answers (answers_payload a) options = Inr a"
    using 1(1) by (simp add: a validate_financial_answers_def answers_payload_def answers_keys dget_def cannot_give_answers_def shares_value_def)
  then show ?thesis using zero by (intro conjI exI [of _ 0]) (simp_all add: a MAX_PLEDGE_CENTS_def)
next
  case (2 d)
  from 2(2) obtain c f where c: "pledge_amount (dget_none d ''annual_pledge'') = Inr c" "\<not> frequency_error (Some c) (PStr f)"
    "share_answers options (Some c) (dget_none d ''shares'') = ([], pledge_shares a)"
    "a = \<lparr>annual_pledge = cents_text c, pledge_frequency = f, pledge_shares = pledge_shares a, cannot_give = False\<rparr>"
    by (rule pledge_answersE)
  note r = pledge_amount_range [OF c(1)] and sh = share_answers_stable [OF c(3) 2(1)]
  have f: "pledge_frequency a = f" "annual_pledge a = cents_text c" "\<not> cannot_give a" by (subst c(4), simp)+
  have "pledge_amount (PStr (cents_text c)) = Inr c" using pledge_canonical(1) r by blast
  then have "pledge_answers options [(''annual_pledge'', PStr (cents_text c)), (''frequency'', PStr f),
      (''shares'', shares_value (pledge_shares a)), (''cannot_give'', PBool False)] = Inr a"
    using c(2,4) sh(1) by (simp add: pledge_answers_def Let_def dget_def)
  then have "validate_financial_answers (answers_payload a) options = Inr a"
    using 2(1) f by (simp add: validate_financial_answers_def answers_payload_def answers_keys dget_def)
  moreover have "0 < c \<longrightarrow> f \<in> fst ` set PLEDGE_FREQUENCIES \<and> (options \<noteq> [] \<longrightarrow> pledge_shares a \<noteq> [])"
    using c(2) sh(2) by (auto simp: frequency_error_def split: if_splits)
  ultimately show ?thesis using f r sh(3) by blast
qed

theorem financial_answers_stable_witness:
  "\<exists>a. validate_financial_answers (PDict [(''annual_pledge'', PStr '' 1,200.5 ''), (''frequency'', PStr ''monthly''), (''shares'', PDict [(''a'', PStr [])])])
       [\<lparr>share_id = ''a'', share_label = ''Bank'', free_text = False\<rparr>] = Inr a \<and> annual_pledge a = ''1200.50'' \<and>
     validate_financial_answers (answers_payload a) [\<lparr>share_id = ''a'', share_label = ''Bank'', free_text = False\<rparr>] = Inr a"
proof -
  let ?o = "[\<lparr>share_id = ''a'', share_label = ''Bank'', free_text = False\<rparr>]"
  let ?p = "PDict [(''annual_pledge'', PStr '' 1,200.5 ''), (''frequency'', PStr ''monthly''), (''shares'', PDict [(''a'', PStr [])])]"
  let ?a = "\<lparr>annual_pledge = ''1200.50'', pledge_frequency = ''monthly'', pledge_shares = [(''a'', [])], cannot_give = False\<rparr>"
  have "clean_text (PStr '' 1,200.5 '') 24 = Some ''1,200.5''" by code_simp
  moreover have "pledge_input ''1,200.5''" "partition_point (no_commas ''1,200.5'') = (''1200'', ''5'')" "ljust2 ''5'' = ''50''" by code_simp+
  moreover have "digits_value ''1200'' = 1200" "digits_value ''50'' = 50" by (simp_all add: digits_value_def)
  ultimately have amount: "pledge_amount (PStr '' 1,200.5 '') = Inr 120050" by (simp add: pledge_amount_def MAX_PLEDGE_CENTS_def)
  have "cents_text 120050 = ''1200.50''"
    using source_centsD(1) [of "''1200.50''" 120050] source_cents_match [of "''1200.50''" False "''1200''" "''50''"] \<open>digits_value ''1200'' = 1200\<close> \<open>digits_value ''50'' = 50\<close>
    by (simp add: match_source_def canonical_whole_def startswith_def is_digit_def)
  moreover have "share_text \<lparr>share_id = ''a'', share_label = ''Bank'', free_text = False\<rparr> (PStr []) = Inr []"
    by (simp add: share_text_def clean_text_def strip_by_def)
  ultimately have v: "validate_financial_answers ?p ?o = Inr ?a"
    using amount by (simp add: validate_financial_answers_def has_keys_def dget_def pledge_answers_def Let_def frequency_error_def PLEDGE_FREQUENCIES_def share_answers_def insert_commute)
  show ?thesis by (rule exI [of _ ?a]) (use v financial_answers_stable [OF v] in simp)
qed

section \<open>Amounts\<close>

lemma nearest:
  fixes c n :: int
  assumes "0 < n" "i = (c + n div 2) div n"
  shows "2 * abs (i * n - c) \<le> n"
proof -
  define r where "r = (c + n div 2) mod n"
  define h where "h = n div 2"
  have r: "i * n + r = c + h" "0 \<le> r" "r < n" using assms by (simp_all add: r_def h_def)
  have h: "2 * h \<le> n" "n \<le> 2 * h + 1" by (simp_all add: h_def)
  have "i * n - c = h - r" using r(1) by linarith
  moreover have "2 * (h - r) \<le> n" using r(2) h(1) by simp
  moreover have "2 * (r - h) \<le> n" using r(3) h(2) by simp
  ultimately show ?thesis by (simp add: abs_if)
qed

text \<open>
  C22: An amount within the pledge limits is read back exactly from its stored text and from the amount the Family is shown, and
  an installment is the annual pledge divided by its periods, rounded to the nearest cent.
\<close>

theorem pledge_exact:
  assumes "0 \<le> c" and "c \<le> MAX_PLEDGE_CENTS"
  shows "pledge_amount (PStr (cents_text c)) = Inr c \<and> pledge_amount (PStr (drop 1 (money_display (MoneyAmount (Some c))))) = Inr c \<and>
    (\<forall>s. source_cents (PStr s) = Inr c \<longleftrightarrow> s = cents_text c) \<and>
    (\<forall>(frequency, n)\<in>set PLEDGE_FREQUENCIES.
       \<exists>i. installment (MoneyAmount (Some c)) frequency = Inr (MoneyAmount (Some i)) \<and> 2 * abs (i * n - c) \<le> n)"
proof -
  have "nat (abs c) div 100 < 10 ^ 20" using assms by (simp add: MAX_PLEDGE_CENTS_def)
  then have "\<forall>s. source_cents (PStr s) = Inr c \<longleftrightarrow> s = cents_text c" using source_centsD(1) source_cents_text by blast
  moreover have "\<exists>i. installment (MoneyAmount (Some c)) frequency = Inr (MoneyAmount (Some i)) \<and> 2 * abs (i * n - c) \<le> n"
    if "(frequency, n) \<in> set PLEDGE_FREQUENCIES" for frequency n
  proof -
    have n: "map_of PLEDGE_FREQUENCIES frequency = Some n" "0 < n" using that by (auto simp: PLEDGE_FREQUENCIES_def)
    then have "installment (MoneyAmount (Some c)) frequency = Inr (MoneyAmount (Some ((c + n div 2) div n)))"
      using assms by (simp add: installment_def)
    then show ?thesis using nearest [OF n(2) refl] by blast
  qed
  ultimately show ?thesis using pledge_canonical [OF assms] unfolding money_display_def by auto
qed

theorem pledge_exact_witness:
  "\<exists>i. installment (MoneyAmount (Some 100001)) ''weekly'' = Inr (MoneyAmount (Some i)) \<and> 2 * abs (i * 52 - 100001) \<le> 52"
  using pledge_exact [of 100001] by (simp add: MAX_PLEDGE_CENTS_def PLEDGE_FREQUENCIES_def)

end
