(* ===== verification/Sealing.thy ===== *)
theory Sealing
  imports Config Json_Text
begin

text \<open>
  \<open>stewardship/backup_sealing.py\<close>: a backup stream sealed to a key in authenticated chunks, and opened again. Bytes are
  characters, a stream is the bytes left to read. \<open>seal_lib\<close> holds what the code takes from its libraries: the secret box and the sealed box,
  SHA-256, base64 and the JSON decoder. The data key and its sealed form, which are drawn at random, are arguments.
\<close>

record seal_lib =
  secret_encrypt :: "string \<Rightarrow> string \<Rightarrow> string \<Rightarrow> string"
  secret_decrypt :: "string \<Rightarrow> string \<Rightarrow> string \<Rightarrow> string option"
  sealed_decrypt :: "string \<Rightarrow> string \<Rightarrow> string option"
  public_key :: "string \<Rightarrow> string"
  sha256 :: "string \<Rightarrow> string"
  b64encode :: "string \<Rightarrow> string"
  b64decode :: "string \<Rightarrow> string option"
  json_loads :: "string \<Rightarrow> pyval option"

definition MAGIC :: string where
  "MAGIC = ''PKBK1'' @ [CHR 0x0A]"

definition CHUNK :: nat where
  "CHUNK = 8 * 1024 * 1024"

definition MAX_HEADER :: nat where
  "MAX_HEADER = 4096"

definition NONCE :: nat where
  "NONCE = 24"

definition MACBYTES :: nat where
  "MACBYTES = 16"

definition seal_error :: "string \<Rightarrow> exn" where
  "seal_error msg = ConfigError msg [] []"

definition hexdigest :: "string \<Rightarrow> string" where
  "hexdigest b = concat (map (\<lambda>c. let n = of_char c in [hex_digit (n div 16), hex_digit (n mod 16)]) b)"

definition key_fingerprint :: "seal_lib \<Rightarrow> string \<Rightarrow> string" where
  "key_fingerprint lib public = take 16 (hexdigest (sha256 lib public))"

text \<open>\<open>int.to_bytes\<close>, big-endian.\<close>

fun be_bytes :: "nat \<Rightarrow> nat \<Rightarrow> string" where
  "be_bytes 0 n = []"
| "be_bytes (Suc k) n = be_bytes k (n div 256) @ [char_of (n mod 256)]"

definition seal_nonce :: "nat \<Rightarrow> string res" where
  "seal_nonce index = (if index < 256 ^ NONCE then Inr (be_bytes NONCE index) else Inl (OtherException ''OverflowError''))"

text \<open>\<open>SecretBox.encrypt\<close> puts the nonce in front.\<close>

definition box_encrypt :: "seal_lib \<Rightarrow> string \<Rightarrow> string \<Rightarrow> nat \<Rightarrow> string res" where
  "box_encrypt lib key chunk index = bind_res (seal_nonce index) (\<lambda>n. Inr (n @ secret_encrypt lib key n chunk))"

section \<open>Sealing\<close>

definition header_line :: "seal_lib \<Rightarrow> string \<Rightarrow> string \<Rightarrow> string \<Rightarrow> string" where
  "header_line lib public sealed kind =
     ''{'' @ join '', '' (map (\<lambda>(k, t). json_string True k @ '': '' @ t)
        [(''chunk'', show_nat CHUNK), (''key'', json_string True (b64encode lib sealed)), (''kind'', json_string True kind),
         (''recipient'', json_string True (key_fingerprint lib public)), (''version'', ''1'')]) @ ''}'' @ [CHR 0x0A]"

lemma CHUNK_pos: "0 < CHUNK"
  by (simp add: CHUNK_def)

function seal_chunks :: "seal_lib \<Rightarrow> string \<Rightarrow> nat \<Rightarrow> string \<Rightarrow> string res" where
  "seal_chunks lib key index source =
     (let chunk = take CHUNK source in
      bind_res (box_encrypt lib key chunk index) (\<lambda>frame.
        if length chunk < CHUNK then Inr frame
        else bind_res (seal_chunks lib key (index + 1) (drop CHUNK source)) (\<lambda>rest. Inr (frame @ rest))))"
  by pat_completeness auto
termination
  by (relation "measure (\<lambda>(lib, key, index, source). length source)") (use CHUNK_pos in auto)

declare seal_chunks.simps [simp del]

definition seal :: "seal_lib \<Rightarrow> string \<Rightarrow> string \<Rightarrow> string \<Rightarrow> string \<Rightarrow> string \<Rightarrow> (string \<times> nat \<times> string) res" where
  "seal lib public key sealed kind source =
     (if kind \<noteq> ''database'' \<and> kind \<noteq> ''files'' then Inl (TypeError ''A recipient and a known backup kind are required.'')
      else let line = header_line lib public sealed kind in
        bind_res (box_encrypt lib key (sha256 lib line) 0) (\<lambda>first.
        bind_res (seal_chunks lib key 1 source) (\<lambda>frames.
          Inr (MAGIC @ line @ first @ frames, length source, hexdigest (sha256 lib source)))))"

section \<open>Opening\<close>

definition readline :: "nat \<Rightarrow> string \<Rightarrow> string" where
  "readline limit s =
     (let t = take limit s
      in if CHR 0x0A \<in> set t then takeWhile (\<lambda>c. c \<noteq> CHR 0x0A) t @ [CHR 0x0A] else t)"

record seal_header =
  sh_fields :: mapping_value
  sh_key :: string
  sh_digest :: string

definition header_fields :: "seal_lib \<Rightarrow> string \<Rightarrow> (mapping_value \<times> string) option" where
  "header_fields lib line =
     (case json_loads lib line of
        Some (PDict d) \<Rightarrow>
          (case (map_of d ''version'', map_of d ''chunk'', map_of d ''key'') of
             (Some v, Some c, Some (PStr k)) \<Rightarrow>
               if py_eq v (PInt 1) \<and> py_eq c (PInt (int CHUNK)) then map_option (\<lambda>b. (d, b)) (b64decode lib k) else None
           | _ \<Rightarrow> None)
      | _ \<Rightarrow> None)"

definition read_header :: "seal_lib \<Rightarrow> string \<Rightarrow> (seal_header \<times> string) res" where
  "read_header lib source =
     (if take (length MAGIC) source \<noteq> MAGIC then Inl (seal_error ''This is not a sealed backup.'')
      else let rest = drop (length MAGIC) source; line = readline (MAX_HEADER + 1) rest in
        if \<not> endswith line [CHR 0x0A] \<or> length line > MAX_HEADER then Inl (seal_error ''The sealed backup header is malformed.'')
        else case header_fields lib line of
          None \<Rightarrow> Inl (seal_error ''The sealed backup header is malformed.'')
        | Some (d, k) \<Rightarrow> Inr (\<lparr>sh_fields = d, sh_key = k, sh_digest = sha256 lib line\<rparr>, drop (length line) rest))"

definition read_frame :: "seal_lib \<Rightarrow> string \<Rightarrow> nat \<Rightarrow> nat \<Rightarrow> string \<Rightarrow> (string \<times> string) res" where
  "read_frame lib key index width source =
     (let n = NONCE + width + MACBYTES; frame = take n source in
      if length frame < NONCE + MACBYTES then Inl (seal_error ''The sealed backup is truncated.'')
      else bind_res (seal_nonce index) (\<lambda>nonce.
        if take NONCE frame \<noteq> nonce then Inl (seal_error ''The sealed backup failed authentication.'')
        else case secret_decrypt lib key nonce (drop NONCE frame) of
          None \<Rightarrow> Inl (seal_error ''The sealed backup failed authentication.'')
        | Some m \<Rightarrow> Inr (m, drop n source)))"

lemma read_frame_shorter:
  assumes "read_frame lib key index width source = Inr (m, rest)"
  shows "length rest < length source"
proof -
  have "NONCE + MACBYTES \<le> length (take (NONCE + width + MACBYTES) source)"
    using assms by (auto simp: read_frame_def Let_def split: if_splits)
  moreover have "rest = drop (NONCE + width + MACBYTES) source"
    using assms by (auto simp: read_frame_def Let_def split: if_splits option.splits)
  ultimately show ?thesis by (simp add: NONCE_def)
qed

function open_chunks :: "seal_lib \<Rightarrow> string \<Rightarrow> nat \<Rightarrow> string \<Rightarrow> string res" where
  "open_chunks lib key index source =
     (case read_frame lib key index CHUNK source of
        Inl e \<Rightarrow> Inl e
      | Inr (chunk, rest) \<Rightarrow>
          if length chunk < CHUNK then Inr chunk
          else bind_res (open_chunks lib key (index + 1) rest) (\<lambda>more. Inr (chunk @ more)))"
  by pat_completeness auto
termination
  by (relation "measure (\<lambda>(lib, key, index, source). length source)") (auto dest: read_frame_shorter)

declare open_chunks.simps [simp del]

definition header_item :: "seal_header \<Rightarrow> string \<Rightarrow> pyval res" where
  "header_item h k = (case map_of (sh_fields h) k of Some v \<Rightarrow> Inr v | None \<Rightarrow> Inl (KeyError k))"

text \<open>The kind, the plaintext written to the sink, its length and its digest.\<close>

definition open_sealed :: "seal_lib \<Rightarrow> string \<Rightarrow> string \<Rightarrow> (pyval \<times> string \<times> nat \<times> string) res" where
  "open_sealed lib private source =
     bind_res (read_header lib source) (\<lambda>(h, rest).
     bind_res (header_item h ''recipient'') (\<lambda>recipient.
       if recipient \<noteq> PStr (key_fingerprint lib (public_key lib private)) then Inl (seal_error ''The sealed backup is for a different key.'')
       else case sealed_decrypt lib private (sh_key h) of
         None \<Rightarrow> Inl (seal_error ''The sealed backup key could not be opened.'')
       | Some key \<Rightarrow>
           if length key \<noteq> 32 then Inl (ValueError ''The key must be exactly 32 bytes long'')
           else bind_res (read_frame lib key 0 32 rest) (\<lambda>(first, rest').
             if first \<noteq> sh_digest h then Inl (seal_error ''The sealed backup header is not the one sealed.'')
             else bind_res (open_chunks lib key 1 rest') (\<lambda>data.
                  bind_res (header_item h ''kind'') (\<lambda>kind. Inr (kind, data, length data, hexdigest (sha256 lib data)))))))"

section \<open>Proof of possession\<close>

definition PROOF_PREFIX :: string where
  "PROOF_PREFIX = ''PKBKP1:''"

definition PROOF_ALPHABET :: string where
  "PROOF_ALPHABET = ''0123456789ABCDEFGHJKMNPQRSTVWXYZ''"

definition PROOF_LENGTH :: nat where
  "PROOF_LENGTH = 12"

definition MAX_PROOF_TEXT :: nat where
  "MAX_PROOF_TEXT = length PROOF_PREFIX + 4 * ((PROOF_LENGTH + 48 + 2) div 3)"

text \<open>The code is drawn at random and its sealed form with it.\<close>

definition seal_proof :: "seal_lib \<Rightarrow> string \<Rightarrow> string \<Rightarrow> string \<times> string" where
  "seal_proof lib code sealed = (PROOF_PREFIX @ b64encode lib sealed, code)"

definition normalize_code :: "string \<Rightarrow> string" where
  "normalize_code t =
     map (\<lambda>c. if c = CHR ''O'' then CHR ''0'' else if c = CHR ''I'' \<or> c = CHR ''L'' then CHR ''1'' else c)
       (upper (filter (\<lambda>c. c \<noteq> CHR ''-'') (filter (\<lambda>c. \<not> is_space c) t)))"

fun fours :: "string \<Rightarrow> string list" where
  "fours (a # b # c # d # r) = [a, b, c, d] # fours r"
| "fours [] = []"
| "fours s = [s]"

definition display_code :: "string \<Rightarrow> string" where
  "display_code code = join ''-'' (fours code)"

definition open_proof :: "seal_lib \<Rightarrow> string \<Rightarrow> string \<Rightarrow> string res" where
  "open_proof lib private t =
     (let v = strip t; refused = seal_error ''This challenge was not sealed to this key.'' in
      if \<not> startswith v PROOF_PREFIX \<or> length v > MAX_PROOF_TEXT then Inl refused
      else case b64decode lib (drop (length PROOF_PREFIX) v) of
        None \<Rightarrow> Inl refused
      | Some sealed \<Rightarrow>
          (case sealed_decrypt lib private sealed of
             None \<Rightarrow> Inl refused
           | Some code \<Rightarrow>
               if length code \<noteq> PROOF_LENGTH \<or> \<not> list_all (\<lambda>c. c \<in> set PROOF_ALPHABET) code then Inl refused else Inr code))"

end
