(* ===== verification/Sealing_Facts.thy ===== *)
theory Sealing_Facts
  imports Sealing Numerals
begin

text \<open>
  Sealed backups: what was sealed is opened again, and a file that opens is exactly what sealing its plaintext under its header writes, so
  no chunk can be dropped, moved, repeated or appended.
\<close>

section \<open>Contracts\<close>

text \<open>
  The libraries: a box opens exactly what its key and nonce encrypt, to which it adds a tag; a digest has 32 bytes;
  base64 is read back and at most doubles its input.
\<close>

definition seal_laws :: "seal_lib \<Rightarrow> bool" where
  "seal_laws lib \<longleftrightarrow>
     (\<forall>k n c m. secret_decrypt lib k n c = Some m \<longleftrightarrow> c = secret_encrypt lib k n m) \<and>
     (\<forall>k n m. length (secret_encrypt lib k n m) = length m + MACBYTES) \<and>
     (\<forall>m. length (sha256 lib m) = 32) \<and>
     (\<forall>m. b64decode lib (b64encode lib m) = Some m \<and> length (b64encode lib m) \<le> 2 * length m + 4)"

text \<open>The JSON decoder reads the header that was written.\<close>

definition header_decodes :: "seal_lib \<Rightarrow> string \<Rightarrow> string \<Rightarrow> string \<Rightarrow> bool" where
  "header_decodes lib public sealed kind \<longleftrightarrow>
     json_loads lib (header_line lib public sealed kind) =
       Some (PDict [(''chunk'', PInt (int CHUNK)), (''key'', PStr (b64encode lib sealed)), (''kind'', PStr kind),
         (''recipient'', PStr (key_fingerprint lib public)), (''version'', PInt 1)])"

lemma decrypt_iff: "seal_laws lib \<Longrightarrow> secret_decrypt lib k n c = Some m \<longleftrightarrow> c = secret_encrypt lib k n m"
  unfolding seal_laws_def by blast

lemma encrypt_length: "seal_laws lib \<Longrightarrow> length (secret_encrypt lib k n m) = length m + MACBYTES"
  unfolding seal_laws_def by blast

section \<open>Frames\<close>

lemma be_bytes_length [simp]: "length (be_bytes k n) = k"
  by (induction k arbitrary: n) simp_all

lemma seal_nonce_length: "seal_nonce i = Inr n \<Longrightarrow> length n = NONCE"
  by (auto simp: seal_nonce_def split: if_splits)

lemma box_encryptE:
  assumes "box_encrypt lib key m i = Inr frame" and "seal_laws lib"
  obtains n where "seal_nonce i = Inr n" "frame = n @ secret_encrypt lib key n m" "length n = NONCE" "length frame = NONCE + length m + MACBYTES"
  using assms by (auto simp: box_encrypt_def encrypt_length dest: seal_nonce_length)

text \<open>A frame is read exactly when it is the encryption of what it gives, at its position.\<close>

lemma read_frame_box:
  assumes laws: "seal_laws lib" and "box_encrypt lib key m i = Inr frame" and "length m \<le> w" and "length m = w \<or> rest = []"
  shows "read_frame lib key i w (frame @ rest) = Inr (m, rest)"
proof -
  from assms(2) laws obtain n where n: "seal_nonce i = Inr n" "frame = n @ secret_encrypt lib key n m" "length n = NONCE"
    "length frame = NONCE + length m + MACBYTES" by (rule box_encryptE)
  have t: "take (NONCE + w + MACBYTES) (frame @ rest) = frame" "drop (NONCE + w + MACBYTES) (frame @ rest) = rest"
    using n(4) assms(3,4) by auto
  have "take NONCE frame = n" "drop NONCE frame = secret_encrypt lib key n m" using n(2,3) by simp_all
  then show ?thesis unfolding read_frame_def Let_def t using n(1,4) decrypt_iff [OF laws, of key n "secret_encrypt lib key n m" m] by simp
qed

lemma read_frameD:
  assumes laws: "seal_laws lib" and "read_frame lib key i w source = Inr (m, rest)"
  obtains frame where "box_encrypt lib key m i = Inr frame" "source = frame @ rest" "length m \<le> w" "length m = w \<or> rest = []"
proof -
  let ?n = "NONCE + w + MACBYTES" and ?frame = "take (NONCE + w + MACBYTES) source"
  obtain n where n: "seal_nonce i = Inr n" "take NONCE ?frame = n" "secret_decrypt lib key n (drop NONCE ?frame) = Some m" "rest = drop ?n source"
    using assms(2) by (auto simp: read_frame_def Let_def split: if_splits option.splits)
  have e: "drop NONCE ?frame = secret_encrypt lib key n m" using n(3) decrypt_iff [OF laws] by blast
  have f: "?frame = n @ secret_encrypt lib key n m" using append_take_drop_id [of NONCE ?frame] n(2) e by simp
  have len: "length ?frame = NONCE + length m + MACBYTES"
    unfolding f using encrypt_length [OF laws] seal_nonce_length [OF n(1)] by simp
  have "length m \<le> w" using len by simp
  moreover have "length m = w \<or> rest = []" using len n(4) by (auto simp: min_def split: if_splits)
  moreover have "box_encrypt lib key m i = Inr ?frame" unfolding f using n(1) by (simp add: box_encrypt_def)
  ultimately show thesis using that [of ?frame] n(4) by simp
qed

text \<open>The chunks of a file open to data exactly when they are what sealing the data writes.\<close>

lemma seal_chunks_short: "length source < CHUNK \<Longrightarrow> seal_chunks lib key i source = box_encrypt lib key source i"
  by (subst seal_chunks.simps) (cases "box_encrypt lib key source i"; simp add: Let_def)

lemma seal_chunks_full:
  "CHUNK \<le> length source \<Longrightarrow> seal_chunks lib key i source =
     bind_res (box_encrypt lib key (take CHUNK source) i) (\<lambda>frame.
     bind_res (seal_chunks lib key (i + 1) (drop CHUNK source)) (\<lambda>rest. Inr (frame @ rest)))"
  by (subst seal_chunks.simps) (simp add: Let_def)

lemma open_seal_chunks: "seal_laws lib \<Longrightarrow> seal_chunks lib key i data = Inr out \<Longrightarrow> open_chunks lib key i out = Inr data"
proof (induction data arbitrary: i out rule: length_induct)
  case (1 source)
  show ?case
  proof (cases "length source < CHUNK")
    case True
    then have "box_encrypt lib key source i = Inr out" using 1(3) by (simp add: seal_chunks_short)
    from read_frame_box [OF 1(2) this, of CHUNK "[]"] True show ?thesis by (subst open_chunks.simps) simp
  next
    case False
    then obtain frame rest where f: "box_encrypt lib key (take CHUNK source) i = Inr frame"
        "seal_chunks lib key (i + 1) (drop CHUNK source) = Inr rest" "out = frame @ rest"
      using 1(3) by (auto simp: seal_chunks_full)
    have "open_chunks lib key (i + 1) rest = Inr (drop CHUNK source)" using 1(1) 1(2) f(2) False CHUNK_pos by simp
    moreover have "read_frame lib key i CHUNK (frame @ rest) = Inr (take CHUNK source, rest)"
      using read_frame_box [OF 1(2) f(1), of CHUNK rest] False by simp
    ultimately show ?thesis using False f(3) by (subst open_chunks.simps) simp
  qed
qed

lemma seal_open_chunks: "seal_laws lib \<Longrightarrow> open_chunks lib key i source = Inr data \<Longrightarrow> seal_chunks lib key i data = Inr source"
proof (induction lib key i source arbitrary: data rule: open_chunks.induct)
  case (1 lib key i source)
  obtain m rest where m: "read_frame lib key i CHUNK source = Inr (m, rest)"
    using 1(3) by (subst (asm) open_chunks.simps) (auto split: sum.splits)
  from read_frameD [OF 1(2) this] obtain frame where f: "box_encrypt lib key m i = Inr frame" "source = frame @ rest"
    "length m \<le> CHUNK" "length m = CHUNK \<or> rest = []" .
  show ?case
  proof (cases "length m < CHUNK")
    case True
    then have "data = m" using 1(3) m by (subst (asm) open_chunks.simps) simp
    then show ?thesis using f True by (simp add: seal_chunks_short)
  next
    case False
    then obtain more where more: "open_chunks lib key (i + 1) rest = Inr more" "data = m @ more"
      using 1(3) m by (subst (asm) open_chunks.simps) auto
    have "seal_chunks lib key (i + 1) more = Inr rest" using 1(1) [OF m refl False 1(2) more(1)] .
    then show ?thesis using f False more(2) by (simp add: seal_chunks_full)
  qed
qed

lemma seal_chunks_total: "i + length source div CHUNK < 256 ^ NONCE \<Longrightarrow> \<exists>out. seal_chunks lib key i source = Inr out"
proof (induction source arbitrary: i rule: length_induct)
  case (1 source)
  have "i < 256 ^ NONCE" using 1(2) by (rule le_less_trans [rotated]) simp
  then have frame: "\<exists>frame. box_encrypt lib key m i = Inr frame" for m by (auto simp: box_encrypt_def seal_nonce_def)
  show ?case
  proof (cases "length source < CHUNK")
    case True
    then show ?thesis using frame by (simp add: seal_chunks_short)
  next
    case False
    then have "length source div CHUNK = Suc (length (drop CHUNK source) div CHUNK)" using CHUNK_pos by (simp add: le_div_geq)
    then have "i + 1 + length (drop CHUNK source) div CHUNK < 256 ^ NONCE" using 1(2) by simp
    then have "\<exists>out. seal_chunks lib key (i + 1) (drop CHUNK source) = Inr out" using 1(1) False CHUNK_pos by simp
    then show ?thesis using frame [of "take CHUNK source"] False by (auto simp: seal_chunks_full)
  qed
qed

section \<open>The header\<close>

lemma hex_digit_newline: "n < 16 \<Longrightarrow> hex_digit n \<noteq> CHR 0x0A"
proof -
  assume "n < 16"
  moreover have "list_all (\<lambda>n. hex_digit n \<noteq> CHR 0x0A) [0..<16]" by code_simp
  ultimately show ?thesis by (simp add: list_all_iff)
qed

lemma json_char_line: "CHR 0x0A \<notin> set (json_char True c)" "length (json_char True c) \<le> 6"
proof -
  have "(of_char c :: nat) < 256" by simp
  then have n: "(of_char c :: nat) div 16 < 16" "(of_char c :: nat) mod 16 < 16" by (simp_all add: div_less_iff_less_mult)
  show "CHR 0x0A \<notin> set (json_char True c)"
    using hex_digit_newline [OF n(1)] hex_digit_newline [OF n(2)] by (auto simp: json_char_def Let_def)
  show "length (json_char True c) \<le> 6" by (simp add: json_char_def Let_def)
qed

lemma json_string_line: "CHR 0x0A \<notin> set (json_string True s)" "length (json_string True s) \<le> 6 * length s + 2"
proof -
  show "CHR 0x0A \<notin> set (json_string True s)" using json_char_line(1) by (auto simp: json_string_def)
  have "length (concat (map (json_char True) s)) \<le> 6 * length s"
  proof (induction s)
    case (Cons c s)
    then show ?case using json_char_line(2) [of c] by simp
  qed simp
  then show "length (json_string True s) \<le> 6 * length s + 2" by (simp add: json_string_def)
qed

lemma readline_line:
  assumes "CHR 0x0A \<notin> set body" and "length body < limit"
  shows "readline limit (body @ CHR 0x0A # rest) = body @ [CHR 0x0A]"
proof -
  have "take limit (body @ CHR 0x0A # rest) = body @ CHR 0x0A # take (limit - length body - 1) rest"
    using assms(2) by (cases "limit - length body") simp_all
  moreover have "takeWhile (\<lambda>c. c \<noteq> CHR 0x0A) (body @ CHR 0x0A # r) = body" for r
    using assms(1) by (induction body) auto
  ultimately show ?thesis by (simp add: readline_def Let_def)
qed

lemma readline_prefix: "\<exists>r. s = readline limit s @ r"
proof -
  let ?t = "take limit s" and ?p = "\<lambda>c. c \<noteq> CHR 0x0A"
  have "\<exists>u. ?t = readline limit s @ u"
  proof (cases "CHR 0x0A \<in> set ?t")
    case True
    then have ne: "dropWhile ?p ?t \<noteq> []" by auto
    then obtain u where "dropWhile ?p ?t = CHR 0x0A # u" using hd_dropWhile [OF ne] by (cases "dropWhile ?p ?t") auto
    then have "?t = takeWhile ?p ?t @ CHR 0x0A # u" using takeWhile_dropWhile_id [of ?p ?t] by simp
    then show ?thesis using True by (auto simp: readline_def Let_def)
  qed (simp add: readline_def Let_def)
  then obtain u where "?t = readline limit s @ u" ..
  then have "s = readline limit s @ u @ drop limit s" by (metis append.assoc append_take_drop_id)
  then show ?thesis ..
qed

text \<open>The header of a sealed file is read, and what is left is the frames.\<close>

lemma header_line_body:
  obtains body where "header_line lib public sealed kind = body @ [CHR 0x0A]" "CHR 0x0A \<notin> set body"
    "length body \<le> 6 * (length (b64encode lib sealed) + length kind + 16) + length (show_nat CHUNK) + 300"
proof -
  let ?f = "key_fingerprint lib public"
  let ?body = "''{'' @ join '', '' (map (\<lambda>(k, t). json_string True k @ '': '' @ t)
        [(''chunk'', show_nat CHUNK), (''key'', json_string True (b64encode lib sealed)), (''kind'', json_string True kind),
         (''recipient'', json_string True ?f), (''version'', ''1'')]) @ ''}''"
  have f: "length ?f \<le> 16" by (simp add: key_fingerprint_def)
  have "CHR 0x0A \<notin> set (show_nat CHUNK)"
    using parse_show_nat [of CHUNK] by (auto simp: parse_nat_def list_all_iff is_digit_def split: if_splits)
  then have "CHR 0x0A \<notin> set ?body" using json_string_line(1) by auto
  moreover have "length ?body \<le> 6 * (length (b64encode lib sealed) + length kind + 16) + length (show_nat CHUNK) + 300"
    using json_string_line(2) [of "b64encode lib sealed"] json_string_line(2) [of kind] json_string_line(2) [of ?f]
      json_string_line(2) [of "''chunk''"] json_string_line(2) [of "''key''"] json_string_line(2) [of "''kind''"]
      json_string_line(2) [of "''recipient''"] json_string_line(2) [of "''version''"] f
    by simp
  ultimately show thesis using that [of ?body] by (simp add: header_line_def)
qed

lemma read_sealed_header:
  assumes laws: "seal_laws lib" and dec: "header_decodes lib public sealed kind" and "length sealed \<le> 80" and "kind = ''database'' \<or> kind = ''files''"
  shows "\<exists>d. read_header lib (MAGIC @ header_line lib public sealed kind @ rest) =
      Inr (\<lparr>sh_fields = d, sh_key = sealed, sh_digest = sha256 lib (header_line lib public sealed kind)\<rparr>, rest) \<and>
    map_of d ''recipient'' = Some (PStr (key_fingerprint lib public)) \<and> map_of d ''kind'' = Some (PStr kind)"
proof -
  let ?line = "header_line lib public sealed kind"
  obtain body where b: "?line = body @ [CHR 0x0A]" "CHR 0x0A \<notin> set body"
    "length body \<le> 6 * (length (b64encode lib sealed) + length kind + 16) + length (show_nat CHUNK) + 300"
    by (rule header_line_body)
  have b64: "b64decode lib (b64encode lib sealed) = Some sealed" "length (b64encode lib sealed) \<le> 164"
    using laws assms(3) by (auto simp: seal_laws_def intro: order_trans)
  have "length (show_nat CHUNK) \<le> 7" by (rule show_nat_length) (simp_all add: CHUNK_def)
  then have len: "length ?line \<le> MAX_HEADER" using b(1,3) b64(2) assms(4) by (auto simp: MAX_HEADER_def)
  have line: "readline (MAX_HEADER + 1) (?line @ rest) = ?line"
    using readline_line [OF b(2), of "MAX_HEADER + 1" rest] len by (simp add: b(1))
  have "header_fields lib ?line = Some ([(''chunk'', PInt (int CHUNK)), (''key'', PStr (b64encode lib sealed)), (''kind'', PStr kind),
         (''recipient'', PStr (key_fingerprint lib public)), (''version'', PInt 1)], sealed)"
    using dec b64(1) by (simp add: header_fields_def header_decodes_def)
  moreover have "endswith ?line [CHR 0x0A]" by (simp add: b(1) endswith_def)
  ultimately show ?thesis using line len by (auto simp: read_header_def Let_def)
qed

lemma read_headerD:
  assumes "read_header lib source = Inr (h, rest)"
  obtains line where "source = MAGIC @ line @ rest" "sh_digest h = sha256 lib line"
proof -
  let ?rest = "drop (length MAGIC) source" let ?line = "readline (MAX_HEADER + 1) ?rest"
  have h: "take (length MAGIC) source = MAGIC" "sh_digest h = sha256 lib ?line" "rest = drop (length ?line) ?rest"
    using assms by (auto simp: read_header_def Let_def split: if_splits option.splits)
  obtain r where "?rest = ?line @ r" using readline_prefix by blast
  then have "?rest = ?line @ rest" using h(3) by (metis append_eq_conv_conj)
  then have "source = MAGIC @ ?line @ rest" using append_take_drop_id [of "length MAGIC" source] h(1) by simp
  then show thesis using that h(2) by blast
qed

section \<open>Sealed backups\<close>

lemma open_sealed_file:
  assumes laws: "seal_laws lib" and key: "sealed_decrypt lib private sealed = Some key" "length key = 32" "length sealed \<le> 80"
    and kind: "kind = ''database'' \<or> kind = ''files''" and dec: "header_decodes lib (public_key lib private) sealed kind"
    and first: "box_encrypt lib key (sha256 lib (header_line lib (public_key lib private) sealed kind)) 0 = Inr first"
    and out: "seal_chunks lib key 1 source = Inr out"
  shows "open_sealed lib private (MAGIC @ header_line lib (public_key lib private) sealed kind @ first @ out) =
    Inr (PStr kind, source, length source, hexdigest (sha256 lib source))"
proof -
  let ?line = "header_line lib (public_key lib private) sealed kind"
  obtain d where d: "read_header lib (MAGIC @ ?line @ first @ out) = Inr (\<lparr>sh_fields = d, sh_key = sealed, sh_digest = sha256 lib ?line\<rparr>, first @ out)"
      "map_of d ''recipient'' = Some (PStr (key_fingerprint lib (public_key lib private)))" "map_of d ''kind'' = Some (PStr kind)"
    using read_sealed_header [OF laws dec key(3) kind] by blast
  have "length (sha256 lib ?line) = 32" using laws by (simp add: seal_laws_def)
  then have "read_frame lib key 0 32 (first @ out) = Inr (sha256 lib ?line, out)" using read_frame_box [OF laws first, of 32 out] by simp
  moreover have "open_chunks lib key 1 out = Inr source" by (rule open_seal_chunks [OF laws out])
  ultimately show ?thesis using d key by (simp add: open_sealed_def header_item_def)
qed

text \<open>
  C18: Sealing a backup of any practical length succeeds, and the private key opens the file again: the same kind, bytes, length and digest.
\<close>

theorem seal_roundtrip:
  assumes laws: "seal_laws lib" and key: "sealed_decrypt lib private sealed = Some key" "length key = 32" "length sealed \<le> 80"
    and kind: "kind = ''database'' \<or> kind = ''files''" and dec: "header_decodes lib (public_key lib private) sealed kind"
    and len: "length source < 2 ^ 64"
  shows "\<exists>file. seal lib (public_key lib private) key sealed kind source = Inr (file, length source, hexdigest (sha256 lib source)) \<and>
    open_sealed lib private file = Inr (PStr kind, source, length source, hexdigest (sha256 lib source))"
proof -
  have "length source div CHUNK \<le> length source" by simp
  then have "1 + length source div CHUNK \<le> 2 ^ 64" using len by linarith
  also have "\<dots> < (256 :: nat) ^ NONCE" by (simp add: NONCE_def)
  finally obtain out where out: "seal_chunks lib key 1 source = Inr out" using seal_chunks_total by blast
  obtain first where first: "box_encrypt lib key (sha256 lib (header_line lib (public_key lib private) sealed kind)) 0 = Inr first"
    by (auto simp: box_encrypt_def seal_nonce_def)
  have "seal lib (public_key lib private) key sealed kind source =
      Inr (MAGIC @ header_line lib (public_key lib private) sealed kind @ first @ out, length source, hexdigest (sha256 lib source))"
    using kind first out by (auto simp: seal_def Let_def)
  then show ?thesis using open_sealed_file [OF laws key kind dec first out] by blast
qed

text \<open>
  C19: A file that opens is exact: after its magic and its header line it is the frame that binds the header and then, with nothing before,
  between or after, the frames that sealing the plaintext writes under the data key of the header. A file with a chunk dropped, moved, repeated or
  appended does not open to the same data, and what is reported is the length and digest of the plaintext.
\<close>

theorem sealed_exact:
  assumes laws: "seal_laws lib" and run: "open_sealed lib private source = Inr (kind, data, n, h)"
  shows "n = length data \<and> h = hexdigest (sha256 lib data) \<and>
    (\<exists>line key sealed first frames. source = MAGIC @ line @ first @ frames \<and> sealed_decrypt lib private sealed = Some key \<and>
       box_encrypt lib key (sha256 lib line) 0 = Inr first \<and> seal_chunks lib key 1 data = Inr frames)"
proof -
  obtain hd rest key rest' where o: "read_header lib source = Inr (hd, rest)" "sealed_decrypt lib private (sh_key hd) = Some key"
      "read_frame lib key 0 32 rest = Inr (sh_digest hd, rest')" "open_chunks lib key 1 rest' = Inr data"
      "n = length data" "h = hexdigest (sha256 lib data)"
    using run by (auto simp: open_sealed_def split: if_splits option.splits)
  obtain line where line: "source = MAGIC @ line @ rest" "sh_digest hd = sha256 lib line" using read_headerD [OF o(1)] .
  obtain first where "box_encrypt lib key (sh_digest hd) 0 = Inr first" "rest = first @ rest'" using read_frameD [OF laws o(3)] .
  then have "source = MAGIC @ line @ first @ rest'" "box_encrypt lib key (sha256 lib line) 0 = Inr first" using line by simp_all
  then show ?thesis using seal_open_chunks [OF laws o(4)] o(2,5,6) by blast
qed

text \<open>A library that satisfies the contracts: a fixed tag for a ciphertext, and one header.\<close>

definition plain_lib :: seal_lib where
  "plain_lib =
     \<lparr>secret_encrypt = \<lambda>k n m. replicate 16 CHR ''t'' @ m,
      secret_decrypt = \<lambda>k n c. if take 16 c = replicate 16 CHR ''t'' then Some (drop 16 c) else None,
      sealed_decrypt = \<lambda>p s. Some s, public_key = \<lambda>p. p, sha256 = \<lambda>m. replicate 32 CHR ''d'', b64encode = \<lambda>m. m, b64decode = Some,
      json_loads = \<lambda>line. Some (PDict [(''chunk'', PInt (int CHUNK)), (''key'', PStr (replicate 32 CHR ''k'')), (''kind'', PStr ''files''),
         (''recipient'', PStr (take 16 (hexdigest (replicate 32 CHR ''d'')))), (''version'', PInt 1)])\<rparr>"

lemma plain_laws: "seal_laws plain_lib"
proof -
  have "((if take 16 c = replicate 16 CHR ''t'' then Some (drop 16 c) else None) = Some m) = (c = replicate 16 CHR ''t'' @ m)" for c m :: string
    using append_eq_conv_conj [of "replicate 16 CHR ''t''" m c] by auto
  then show ?thesis unfolding seal_laws_def plain_lib_def by (simp add: MACBYTES_def split del: if_split)
qed

lemma plain_header: "header_decodes plain_lib (public_key plain_lib p) (replicate 32 CHR ''k'') ''files''"
  by (simp add: header_decodes_def plain_lib_def key_fingerprint_def)

lemma plain_key: "sealed_decrypt plain_lib p s = Some s" "public_key plain_lib p = p"
  by (simp_all add: plain_lib_def)

theorem seal_roundtrip_witness:
  "\<exists>file. open_sealed plain_lib ''key'' file = Inr (PStr ''files'', ''backup'', length ''backup'', hexdigest (sha256 plain_lib ''backup''))"
  using seal_roundtrip [OF plain_laws plain_key(1), of "replicate 32 CHR ''k''" "''files''" "''key''" "''backup''"] plain_header by fastforce

theorem sealed_exact_witness:
  "\<exists>file line key sealed first frames. open_sealed plain_lib ''key'' file = Inr (PStr ''files'', ''x'', length ''x'', hexdigest (sha256 plain_lib ''x'')) \<and>
     file = MAGIC @ line @ first @ frames \<and> sealed_decrypt plain_lib ''key'' sealed = Some key \<and> seal_chunks plain_lib key 1 ''x'' = Inr frames"
proof -
  let ?k = "replicate 32 CHR ''k''"
  obtain first where first: "box_encrypt plain_lib ?k (sha256 plain_lib (header_line plain_lib (public_key plain_lib ''key'') ?k ''files'')) 0 = Inr first"
    by (auto simp: box_encrypt_def seal_nonce_def)
  obtain out where out: "seal_chunks plain_lib ?k 1 ''x'' = Inr out"
    using seal_chunks_total [of 1 "''x''" plain_lib ?k] by (auto simp: CHUNK_def NONCE_def)
  have "open_sealed plain_lib ''key'' (MAGIC @ header_line plain_lib (public_key plain_lib ''key'') ?k ''files'' @ first @ out) =
      Inr (PStr ''files'', ''x'', length ''x'', hexdigest (sha256 plain_lib ''x''))"
    by (rule open_sealed_file [OF plain_laws plain_key(1) _ _ _ plain_header first out]) simp_all
  from sealed_exact [OF plain_laws this] this show ?thesis by blast
qed

section \<open>Codes\<close>

lemma alphabet_char:
  assumes "c \<in> set PROOF_ALPHABET"
  shows "\<not> is_space c \<and> c \<noteq> CHR ''-'' \<and> upper_char c = c \<and> c \<noteq> CHR ''O'' \<and> c \<noteq> CHR ''I'' \<and> c \<noteq> CHR ''L''"
proof -
  have "list_all (\<lambda>c. \<not> is_space c \<and> c \<noteq> CHR ''-'' \<and> upper_char c = c \<and> c \<noteq> CHR ''O'' \<and> c \<noteq> CHR ''I'' \<and> c \<noteq> CHR ''L'') PROOF_ALPHABET" by code_simp
  then show ?thesis using assms unfolding list_all_iff by blast
qed

lemma concat_fours: "concat (fours s) = s"
  by (induction s rule: fours.induct) simp_all

lemma filter_join: "\<not> p CHR ''-'' \<Longrightarrow> filter p (join ''-'' xs) = filter p (concat xs)"
  by (induction xs rule: join.induct [of "\<lambda>_ xs. _ xs" "''-''"]) simp_all

text \<open>A code that is read aloud in groups and typed back is the same code.\<close>

lemma code_roundtrip:
  assumes "list_all (\<lambda>c. c \<in> set PROOF_ALPHABET) code"
  shows "normalize_code (display_code code) = code"
proof -
  have c: "c \<in> set code \<Longrightarrow> \<not> is_space c \<and> c \<noteq> CHR ''-'' \<and> upper_char c = c \<and> c \<noteq> CHR ''O'' \<and> c \<noteq> CHR ''I'' \<and> c \<noteq> CHR ''L''" for c
    using assms alphabet_char by (simp add: list_all_iff)
  have "filter (\<lambda>c. c \<noteq> CHR ''-'') (filter (\<lambda>c. \<not> is_space c) (display_code code)) = filter (\<lambda>c. \<not> is_space c \<and> c \<noteq> CHR ''-'') code"
    using filter_join [of "\<lambda>c. \<not> is_space c \<and> c \<noteq> CHR ''-''" "fours code"] by (simp add: display_code_def concat_fours conj_commute)
  also have "\<dots> = code" using c by (intro filter_True) blast
  finally have "normalize_code (display_code code) =
      map (\<lambda>c. if c = CHR ''O'' then CHR ''0'' else if c = CHR ''I'' \<or> c = CHR ''L'' then CHR ''1'' else c) (upper code)"
    by (simp add: normalize_code_def)
  also have "upper code = code" using c by (simp add: upper_def map_idI)
  also have "map (\<lambda>c. if c = CHR ''O'' then CHR ''0'' else if c = CHR ''I'' \<or> c = CHR ''L'' then CHR ''1'' else c) code = code"
    using c by (intro map_idI) auto
  finally show ?thesis .
qed

end
