(* ===== verification/Credentials.thy ===== *)
theory Credentials
  imports Prelude
begin

text \<open>
  \<open>stewardship/accounts/credential_files.py\<close>: replacing a credential file under a journal, so that a crash at any point
  can be reconciled. The disk is the working file and the journal; an operation returns the durable states it passes
  through and its receipt or error. \<open>handoff\<close> holds the keys and checks of the target: opening and sealing, the
  SHA-256 fingerprint, whether bytes are UTF-8, whether the JSON text of a journal fits its limit, and the services that use the
  target. The target lock is held throughout, and the journal is read as it was written.
\<close>

datatype cred_status = Prepared | Installed | Applied | Rolled_Back

record cred_journal =
  jr_request :: nat
  jr_state :: cred_status
  jr_expires :: int
  jr_prior_fp :: "string option"
  jr_candidate_fp :: string
  jr_prior_cipher :: "string option"
  jr_candidate_cipher :: "string option"
  jr_consumers :: "string list"

record cred_disk =
  working :: "string option"
  cred_journal :: "cred_journal option"

record handoff =
  ho_open :: "nat \<Rightarrow> string \<Rightarrow> string \<Rightarrow> string res"
  ho_seal :: "nat \<Rightarrow> string \<Rightarrow> string \<Rightarrow> string"
  ho_sha :: "string \<Rightarrow> string"
  ho_utf8 :: "string \<Rightarrow> bool"
  ho_fits :: "cred_journal \<Rightarrow> bool"
  ho_consumers :: "string list"

record receipt =
  rc_request :: nat
  rc_state :: cred_status
  rc_fingerprint :: "string option"

type_synonym cred_run = "cred_disk list \<times> receipt res"

definition crypto_error :: "string \<Rightarrow> exn" where
  "crypto_error msg = OtherException msg"

definition MAX_FILE_BYTES :: nat where
  "MAX_FILE_BYTES = 128 * 1024"

definition bounded :: "string \<Rightarrow> bool" where
  "bounded v \<longleftrightarrow> 0 < length v \<and> length v \<le> MAX_FILE_BYTES"

definition is_fingerprint :: "string \<Rightarrow> bool" where
  "is_fingerprint s \<longleftrightarrow> length s = 64 \<and> list_all (\<lambda>c. is_digit c \<or> c \<in> set ''abcdef'') s"

definition file_fingerprint :: "handoff \<Rightarrow> string \<Rightarrow> string res" where
  "file_fingerprint ho v = (if bounded v then Inr (ho_sha ho v) else Inl (crypto_error ''Credential bytes must be nonempty and bounded.''))"

definition selected_file :: "cred_disk \<Rightarrow> string option res" where
  "selected_file d =
     (case working d of None \<Rightarrow> Inr None | Some w \<Rightarrow> if bounded w then Inr (Some w) else Inl (crypto_error ''Credential file size is invalid.''))"

text \<open>The fingerprint of the working file, \<open>None\<close> when there is none.\<close>

definition selected_fingerprint :: "handoff \<Rightarrow> cred_disk \<Rightarrow> string option res" where
  "selected_fingerprint ho d = bind_res (selected_file d) (\<lambda>w. Inr (map_option (ho_sha ho) w))"

definition write_working :: "handoff \<Rightarrow> string \<Rightarrow> cred_disk \<Rightarrow> cred_disk res" where
  "write_working ho v d =
     (if \<not> bounded v then Inl (crypto_error ''Credential bytes must be nonempty and bounded.'')
      else if \<not> ho_utf8 ho v then Inl (crypto_error ''Credential replacement could not be completed.'')
      else bind_res (selected_file d) (\<lambda>_. Inr (d\<lparr>working := Some v\<rparr>)))"

definition save_journal :: "handoff \<Rightarrow> cred_journal \<Rightarrow> cred_disk \<Rightarrow> cred_disk res" where
  "save_journal ho j d =
     (if ho_fits ho j then Inr (d\<lparr>cred_journal := Some j\<rparr>) else Inl (crypto_error ''Credential bytes must be nonempty and bounded.''))"

definition consumers_ok :: "handoff \<Rightarrow> string list \<Rightarrow> bool" where
  "consumers_ok ho cs \<longleftrightarrow> cs \<noteq> [] \<and> set cs \<subseteq> set (ho_consumers ho) \<and> distinct cs"

definition journal_ok :: "handoff \<Rightarrow> cred_journal \<Rightarrow> bool" where
  "journal_ok ho j \<longleftrightarrow>
     consumers_ok ho (jr_consumers j) \<and> is_fingerprint (jr_candidate_fp j) \<and>
     (case jr_prior_fp j of None \<Rightarrow> True | Some f \<Rightarrow> is_fingerprint f) \<and>
     (jr_state j = Prepared \<longleftrightarrow> jr_candidate_cipher j \<noteq> None) \<and>
     (if jr_state j = Applied \<or> jr_state j = Rolled_Back then jr_prior_cipher j = None
      else (jr_prior_fp j = None) = (jr_prior_cipher j = None))"

definition read_journal :: "handoff \<Rightarrow> nat \<Rightarrow> cred_disk \<Rightarrow> cred_journal res" where
  "read_journal ho req d =
     (case cred_journal d of
        None \<Rightarrow> Inl (crypto_error ''Credential file is unavailable.'')
      | Some j \<Rightarrow> if jr_request j \<noteq> req \<or> \<not> journal_ok ho j then Inl (crypto_error ''Credential replacement journal is invalid.'') else Inr j)"

definition pending_request :: "handoff \<Rightarrow> cred_disk \<Rightarrow> nat option res" where
  "pending_request ho d =
     (case cred_journal d of
        None \<Rightarrow> Inr None
      | Some j \<Rightarrow> bind_res (read_journal ho (jr_request j) d) (\<lambda>_. Inr (Some (jr_request j))))"

definition receipt_of :: "cred_journal \<Rightarrow> receipt" where
  "receipt_of j =
     \<lparr>rc_request = jr_request j, rc_state = jr_state j,
      rc_fingerprint = (if jr_state j = Prepared \<or> jr_state j = Rolled_Back then jr_prior_fp j else Some (jr_candidate_fp j))\<rparr>"

definition unexpected :: exn where
  "unexpected = crypto_error ''Working credential has an unexpected fingerprint.''"

definition terminal_receipt :: "handoff \<Rightarrow> cred_journal \<Rightarrow> cred_disk \<Rightarrow> receipt res" where
  "terminal_receipt ho j d =
     bind_res (selected_fingerprint ho d) (\<lambda>f. if f \<noteq> rc_fingerprint (receipt_of j) then Inl unexpected else Inr (receipt_of j))"

text \<open>Saving the journal is the last durable step of an operation.\<close>

definition finish_with :: "handoff \<Rightarrow> cred_journal \<Rightarrow> cred_disk list \<Rightarrow> cred_disk \<Rightarrow> cred_run" where
  "finish_with ho j before d =
     (case save_journal ho j d of Inl e \<Rightarrow> (before, Inl e) | Inr d' \<Rightarrow> (before @ [d'], Inr (receipt_of j)))"

definition refused :: "receipt res \<Rightarrow> cred_run" where
  "refused r = ([], r)"

section \<open>Preparing\<close>

record prepare_request =
  pq_request :: nat
  pq_candidate :: string
  pq_expected :: "string option"
  pq_consumers :: "string list"
  pq_expires :: int
  pq_now :: int

definition DAY_SECONDS :: int where
  "DAY_SECONDS = 86400"

definition prepare_again :: "handoff \<Rightarrow> prepare_request \<Rightarrow> cred_disk \<Rightarrow> receipt res" where
  "prepare_again ho q d =
     bind_res (read_journal ho (pq_request q) d) (\<lambda>j.
     bind_res (ho_open ho (pq_request q) (pq_candidate q) ''candidate'') (\<lambda>plain.
     bind_res (file_fingerprint ho plain) (\<lambda>f.
       if f \<noteq> jr_candidate_fp j \<or> pq_expected q \<noteq> jr_prior_fp j \<or> sort (pq_consumers q) \<noteq> jr_consumers j \<or> pq_expires q \<noteq> jr_expires j
       then Inl (crypto_error ''Credential request identity is already bound.'') else Inr (receipt_of j))))"

definition new_journal :: "handoff \<Rightarrow> (string \<Rightarrow> bool) \<Rightarrow> prepare_request \<Rightarrow> cred_disk \<Rightarrow> cred_journal res" where
  "new_journal ho validate q d =
     bind_res (ho_open ho (pq_request q) (pq_candidate q) ''candidate'') (\<lambda>plain.
       if \<not> ho_utf8 ho plain then Inl (crypto_error ''Credential document must be UTF-8.'')
       else if \<not> validate plain then Inl (crypto_error ''Credential validation or testing failed.'')
       else bind_res (selected_file d) (\<lambda>prior.
         if map_option (ho_sha ho) prior \<noteq> pq_expected q then Inl (crypto_error ''Installed credential fingerprint has changed.'')
         else bind_res (file_fingerprint ho plain) (\<lambda>f.
           Inr \<lparr>jr_request = pq_request q, jr_state = Prepared, jr_expires = pq_expires q, jr_prior_fp = map_option (ho_sha ho) prior,
                jr_candidate_fp = f, jr_prior_cipher = map_option (\<lambda>p. ho_seal ho (pq_request q) p ''rollback'') prior,
                jr_candidate_cipher = Some (pq_candidate q), jr_consumers = sort (pq_consumers q)\<rparr>)))"

definition prepare :: "handoff \<Rightarrow> (string \<Rightarrow> bool) \<Rightarrow> prepare_request \<Rightarrow> cred_disk \<Rightarrow> cred_run" where
  "prepare ho validate q d =
     (if (case pq_expected q of None \<Rightarrow> False | Some f \<Rightarrow> \<not> is_fingerprint f) then refused (Inl (crypto_error ''Invalid credential fingerprint.''))
      else if pq_expires q \<le> pq_now q \<or> pq_expires q - pq_now q > DAY_SECONDS * 1000000
      then refused (Inl (crypto_error ''Credential staging interval is invalid.''))
      else if \<not> consumers_ok ho (pq_consumers q) then refused (Inl (crypto_error ''A bounded consumer inventory is required.''))
      else if cred_journal d \<noteq> None then refused (prepare_again ho q d)
      else case new_journal ho validate q d of
        Inl e \<Rightarrow> refused (Inl e)
      | Inr j \<Rightarrow> finish_with ho j [] d)"

section \<open>Rolling back, installing and acknowledging\<close>

text \<open>The file that \<open>rollback\<close> puts back, when it is not selected already.\<close>

definition restore_prior :: "handoff \<Rightarrow> cred_journal \<Rightarrow> cred_disk \<Rightarrow> cred_disk res" where
  "restore_prior ho j d =
     (case jr_prior_cipher j of
        None \<Rightarrow> Inr (d\<lparr>working := None\<rparr>)
      | Some c \<Rightarrow>
          bind_res (ho_open ho (jr_request j) c ''rollback'') (\<lambda>prior.
          bind_res (file_fingerprint ho prior) (\<lambda>f.
            if Some f \<noteq> jr_prior_fp j then Inl (crypto_error ''Sealed prior credential is inconsistent.'')
            else write_working ho prior d)))"

definition scrubbed :: "cred_journal \<Rightarrow> cred_journal" where
  "scrubbed j = j\<lparr>jr_state := Rolled_Back, jr_candidate_cipher := None, jr_prior_cipher := None\<rparr>"

definition rollback :: "handoff \<Rightarrow> nat \<Rightarrow> cred_disk \<Rightarrow> cred_run" where
  "rollback ho req d =
     (case read_journal ho req d of
        Inl e \<Rightarrow> refused (Inl e)
      | Inr j \<Rightarrow>
          if jr_state j = Rolled_Back then refused (terminal_receipt ho j d)
          else if jr_state j = Applied then refused (Inl (crypto_error ''Applied credentials require a new replacement request.''))
          else case selected_fingerprint ho d of
            Inl e \<Rightarrow> refused (Inl e)
          | Inr f \<Rightarrow>
              if f = jr_prior_fp j then finish_with ho (scrubbed j) [] d
              else if f \<noteq> Some (jr_candidate_fp j) then refused (Inl unexpected)
              else case restore_prior ho j d of
                Inl e \<Rightarrow> refused (Inl e)
              | Inr d' \<Rightarrow> finish_with ho (scrubbed j) [d'] d')"

definition install_candidate :: "handoff \<Rightarrow> cred_journal \<Rightarrow> cred_disk \<Rightarrow> cred_disk res" where
  "install_candidate ho j d =
     (case jr_candidate_cipher j of
        None \<Rightarrow> Inl unexpected
      | Some c \<Rightarrow>
          bind_res (ho_open ho (jr_request j) c ''candidate'') (\<lambda>plain.
          bind_res (file_fingerprint ho plain) (\<lambda>f.
            if f \<noteq> jr_candidate_fp j then Inl (crypto_error ''Sealed credential fingerprint is inconsistent.'')
            else write_working ho plain d)))"

definition install :: "handoff \<Rightarrow> nat \<Rightarrow> int \<Rightarrow> cred_disk \<Rightarrow> cred_run" where
  "install ho req now d =
     (case read_journal ho req d of
        Inl e \<Rightarrow> refused (Inl e)
      | Inr j \<Rightarrow>
          if jr_state j = Applied \<or> jr_state j = Rolled_Back then refused (terminal_receipt ho j d)
          else if now \<ge> jr_expires j then rollback ho req d
          else case selected_fingerprint ho d of
            Inl e \<Rightarrow> refused (Inl e)
          | Inr f \<Rightarrow>
              let fin = j\<lparr>jr_state := Installed, jr_candidate_cipher := None\<rparr> in
              if f = Some (jr_candidate_fp j) then finish_with ho fin [] d
              else if f \<noteq> jr_prior_fp j \<or> jr_state j \<noteq> Prepared then refused (Inl unexpected)
              else case install_candidate ho j d of
                Inl e \<Rightarrow> refused (Inl e)
              | Inr d' \<Rightarrow> finish_with ho fin [d'] d')"

definition acknowledge :: "handoff \<Rightarrow> nat \<Rightarrow> (string \<times> string) list \<Rightarrow> int \<Rightarrow> cred_disk \<Rightarrow> cred_run" where
  "acknowledge ho req fingerprints now d =
     (case read_journal ho req d of
        Inl e \<Rightarrow> refused (Inl e)
      | Inr j \<Rightarrow>
          if jr_state j = Applied \<or> jr_state j = Rolled_Back then refused (terminal_receipt ho j d)
          else if now \<ge> jr_expires j then rollback ho req d
          else if jr_state j \<noteq> Installed then refused (Inl (crypto_error ''Credential is not installed yet.''))
          else if \<not> fst ` set fingerprints \<subseteq> set (jr_consumers j) then refused (Inl (crypto_error ''Invalid consumer acknowledgement inventory.''))
          else if \<not> list_all (\<lambda>(_, f). is_fingerprint f) fingerprints then refused (Inl (crypto_error ''Invalid credential fingerprint.''))
          else if list_ex (\<lambda>name. map_of fingerprints name \<noteq> Some (jr_candidate_fp j)) (jr_consumers j) then refused (Inr (receipt_of j))
          else case selected_fingerprint ho d of
            Inl e \<Rightarrow> refused (Inl e)
          | Inr f \<Rightarrow>
              if f \<noteq> Some (jr_candidate_fp j) then refused (Inl unexpected)
              else finish_with ho (j\<lparr>jr_state := Applied, jr_prior_cipher := None\<rparr>) [] d)"

text \<open>The callback of \<open>release\<close> says whether the receipt was recorded.\<close>

definition release_journal :: "handoff \<Rightarrow> nat \<Rightarrow> (receipt \<Rightarrow> bool) \<Rightarrow> cred_disk \<Rightarrow> cred_run" where
  "release_journal ho req recorded d =
     (case read_journal ho req d of
        Inl e \<Rightarrow> refused (Inl e)
      | Inr j \<Rightarrow>
          if jr_state j \<noteq> Applied \<and> jr_state j \<noteq> Rolled_Back then refused (Inl (crypto_error ''Credential replacement is not terminal.''))
          else case terminal_receipt ho j d of
            Inl e \<Rightarrow> refused (Inl e)
          | Inr r \<Rightarrow>
              if \<not> recorded r then refused (Inl (crypto_error ''Credential terminal receipt is not durable.''))
              else ([d\<lparr>cred_journal := None\<rparr>], Inr r))"

end
