(* ===== verification/Credentials_Facts.thy ===== *)
theory Credentials_Facts
  imports Credentials
begin

text \<open>
  Replacing a credential file: wherever it is interrupted, the working file is the old or the new one, and as long as the
  replacement is not finished the old one can be put back.
\<close>

section \<open>Contracts\<close>

text \<open>
  The keys open what they sealed, fingerprints are fingerprints, and a journal that holds no candidate, and no more than a sealed
  file, fits its limit.
\<close>

definition handoff_laws :: "handoff \<Rightarrow> bool" where
  "handoff_laws ho \<longleftrightarrow>
     (\<forall>r v p. ho_open ho r (ho_seal ho r v p) p = Inr v) \<and> (\<forall>v. is_fingerprint (ho_sha ho v)) \<and>
     (\<forall>j. journal_ok ho j \<and> jr_candidate_cipher j = None \<and>
        (\<forall>c. jr_prior_cipher j = Some c \<longrightarrow> (\<exists>p. bounded p \<and> c = ho_seal ho (jr_request j) p ''rollback'')) \<longrightarrow> ho_fits ho j)"

lemma open_seal: "handoff_laws ho \<Longrightarrow> ho_open ho r (ho_seal ho r v p) p = Inr v"
  unfolding handoff_laws_def by blast

lemma sha_fingerprint: "handoff_laws ho \<Longrightarrow> is_fingerprint (ho_sha ho v)"
  unfolding handoff_laws_def by blast

section \<open>The invariant\<close>

text \<open>What a journal holds: the fingerprints of two files, and sealed texts that open to them.\<close>

definition journal_inv :: "handoff \<Rightarrow> cred_journal \<Rightarrow> bool" where
  "journal_inv ho j \<longleftrightarrow>
     journal_ok ho j \<and>
     (\<forall>c. jr_candidate_cipher j = Some c \<longrightarrow>
        (\<exists>v. ho_open ho (jr_request j) c ''candidate'' = Inr v \<and> bounded v \<and> ho_utf8 ho v \<and> ho_sha ho v = jr_candidate_fp j)) \<and>
     (\<forall>c. jr_prior_cipher j = Some c \<longrightarrow>
        (\<exists>p. c = ho_seal ho (jr_request j) p ''rollback'' \<and> bounded p \<and> jr_prior_fp j = Some (ho_sha ho p)))"

text \<open>What the working file is in each state of the journal.\<close>

definition file_inv :: "cred_journal \<Rightarrow> string option \<Rightarrow> bool" where
  "file_inv j f \<longleftrightarrow>
     (f = jr_prior_fp j \<or> f = Some (jr_candidate_fp j)) \<and> (jr_state j = Applied \<longrightarrow> f = Some (jr_candidate_fp j)) \<and>
     (jr_state j = Rolled_Back \<longrightarrow> f = jr_prior_fp j)"

definition cred_inv :: "handoff \<Rightarrow> cred_disk \<Rightarrow> bool" where
  "cred_inv ho d \<longleftrightarrow>
     (case cred_journal d of
        None \<Rightarrow> True
      | Some j \<Rightarrow> journal_inv ho j \<and> (\<exists>f. selected_fingerprint ho d = Inr f \<and> file_inv j f))"

lemma fits: "handoff_laws ho \<Longrightarrow> journal_inv ho j \<Longrightarrow> jr_candidate_cipher j = None \<Longrightarrow> ho_fits ho j"
  unfolding handoff_laws_def journal_inv_def by blast

lemma selected_journal [simp]: "selected_fingerprint ho (d\<lparr>cred_journal := j\<rparr>) = selected_fingerprint ho d"
  by (simp add: selected_fingerprint_def selected_file_def)

lemma selected_written [simp]: "bounded v \<Longrightarrow> selected_fingerprint ho (d\<lparr>working := Some v\<rparr>) = Inr (Some (ho_sha ho v))"
  by (simp add: selected_fingerprint_def selected_file_def)

lemma selected_removed [simp]: "selected_fingerprint ho (d\<lparr>working := None\<rparr>) = Inr None"
  by (simp add: selected_fingerprint_def selected_file_def)

lemma write_workingE:
  assumes "write_working ho v d = Inr d'"
  obtains "d' = d\<lparr>working := Some v\<rparr>" "bounded v" "ho_utf8 ho v"
  using assms by (auto simp: write_working_def split: if_splits)

lemma finish_withE:
  assumes "finish_with ho j before d = (ds, r)"
  obtains e where "ds = before" "r = Inl e" | "ds = before @ [d\<lparr>cred_journal := Some j\<rparr>]" "r = Inr (receipt_of j)"
  using assms by (auto simp: finish_with_def save_journal_def split: if_splits)

lemma finish_with_fits: "ho_fits ho j \<Longrightarrow> finish_with ho j before d = (before @ [d\<lparr>cred_journal := Some j\<rparr>], Inr (receipt_of j))"
  by (simp add: finish_with_def save_journal_def)

lemma read_journalE:
  assumes "read_journal ho req d = Inr j"
  obtains "cred_journal d = Some j" "jr_request j = req" "journal_ok ho j"
  using assms by (auto simp: read_journal_def split: option.splits if_splits)

lemma read_inv:
  assumes "cred_inv ho d" and "cred_journal d = Some j"
  obtains f where "read_journal ho (jr_request j) d = Inr j" "journal_inv ho j" "selected_fingerprint ho d = Inr f" "file_inv j f"
  using assms by (auto simp: cred_inv_def read_journal_def journal_inv_def)

section \<open>Steps\<close>

lemma restore_prior_ok:
  assumes laws: "handoff_laws ho" and j: "journal_inv ho j" "jr_state j \<noteq> Applied" "jr_state j \<noteq> Rolled_Back" and run: "restore_prior ho j d = Inr d'"
  shows "selected_fingerprint ho d' = Inr (jr_prior_fp j) \<and> cred_journal d' = cred_journal d"
proof (cases "jr_prior_cipher j")
  case None
  then have "jr_prior_fp j = None" using j by (auto simp: journal_inv_def journal_ok_def)
  then show ?thesis using run None by (auto simp: restore_prior_def)
next
  case (Some c)
  then obtain p where p: "c = ho_seal ho (jr_request j) p ''rollback''" "bounded p" "jr_prior_fp j = Some (ho_sha ho p)"
    using j(1) by (auto simp: journal_inv_def)
  then have "write_working ho p d = Inr d'" using run Some open_seal [OF laws] by (simp add: restore_prior_def file_fingerprint_def)
  then show ?thesis using p by (auto elim!: write_workingE)
qed

lemma scrubbed_inv: "journal_inv ho j \<Longrightarrow> journal_inv ho (scrubbed j)"
  by (auto simp: journal_inv_def journal_ok_def scrubbed_def)

text \<open>A run that only fails, or saves a journal that agrees with the working file.\<close>

lemma finish_inv:
  assumes run: "finish_with ho j before d = (ds, r)" and before: "\<forall>d'\<in>set before. cred_inv ho d'"
    and j: "journal_inv ho j" and f: "selected_fingerprint ho d = Inr f" "file_inv j f"
  shows "\<forall>d'\<in>set ds. cred_inv ho d'"
  using run
proof (rule finish_withE)
  fix e
  assume "ds = before"
  then show ?thesis using before by simp
next
  assume ds: "ds = before @ [d\<lparr>cred_journal := Some j\<rparr>]"
  have "cred_inv ho (d\<lparr>cred_journal := Some j\<rparr>)" using j f by (simp add: cred_inv_def)
  then show ?thesis using ds before by simp
qed

lemma finish_only_inv:
  assumes "finish_with ho j [] d = (ds, r)" and "journal_inv ho j" and "selected_fingerprint ho d = Inr f" and "file_inv j f"
  shows "\<forall>d'\<in>set ds. cred_inv ho d'"
  by (rule finish_inv [OF assms(1) _ assms(2-4)]) simp

lemma refused_inv: "refused x = (ds, r) \<Longrightarrow> \<forall>d'\<in>set ds. cred_inv ho d'"
  by (auto simp: refused_def)

lemma read_invE:
  assumes "cred_inv ho d" and "read_journal ho req d = Inr j"
  obtains f where "cred_journal d = Some j" "jr_request j = req" "journal_inv ho j" "selected_fingerprint ho d = Inr f" "file_inv j f"
  using assms by (auto simp: cred_inv_def elim!: read_journalE)

lemma rollback_inv:
  assumes laws: "handoff_laws ho" and inv: "cred_inv ho d" and run: "rollback ho req d = (ds, r)"
  shows "\<forall>d'\<in>set ds. cred_inv ho d'"
proof (cases "read_journal ho req d")
  case (Inl e)
  then show ?thesis using run by (simp add: rollback_def refused_inv)
next
  case (Inr j)
  then obtain f where j: "cred_journal d = Some j" "journal_inv ho j" "selected_fingerprint ho d = Inr f" "file_inv j f"
    by (rule read_invE [OF inv])
  have home: "file_inv (scrubbed j) (jr_prior_fp j)" by (simp add: file_inv_def scrubbed_def)
  consider (over) "jr_state j = Rolled_Back \<or> jr_state j = Applied" | (same) "jr_state j \<noteq> Rolled_Back" "jr_state j \<noteq> Applied" "f = jr_prior_fp j"
    | (moved) "jr_state j \<noteq> Rolled_Back" "jr_state j \<noteq> Applied" "f \<noteq> jr_prior_fp j" by blast
  then show ?thesis
  proof cases
    case over
    then show ?thesis using run Inr by (auto simp: rollback_def refused_def)
  next
    case same
    then have "finish_with ho (scrubbed j) [] d = (ds, r)" using run Inr j(3) by (simp add: rollback_def)
    then show ?thesis using finish_only_inv scrubbed_inv [OF j(2)] j(3) home same(3) by metis
  next
    case moved
    then have f: "f = Some (jr_candidate_fp j)" using j(4) by (simp add: file_inv_def)
    show ?thesis
    proof (cases "restore_prior ho j d")
      case (Inl e)
      then show ?thesis using run \<open>read_journal ho req d = Inr j\<close> j(3) moved f by (simp add: rollback_def refused_inv)
    next
      case (Inr d')
      have fin: "finish_with ho (scrubbed j) [d'] d' = (ds, r)"
        using run \<open>read_journal ho req d = Inr j\<close> j(3) moved f Inr by (simp add: rollback_def)
      have d': "selected_fingerprint ho d' = Inr (jr_prior_fp j)" "cred_journal d' = Some j"
        using restore_prior_ok [OF laws j(2) moved(2,1) Inr] j(1) by simp_all
      then have "cred_inv ho d'" using j(2) moved by (simp add: cred_inv_def file_inv_def)
      then have "\<forall>x\<in>set [d']. cred_inv ho x" by simp
      then show ?thesis by (rule finish_inv [OF fin _ scrubbed_inv [OF j(2)] d'(1) home])
    qed
  qed
qed

lemma install_candidate_ok:
  assumes "journal_inv ho j" and "install_candidate ho j d = Inr d'"
  shows "selected_fingerprint ho d' = Inr (Some (jr_candidate_fp j)) \<and> cred_journal d' = cred_journal d"
  using assms by (auto simp: journal_inv_def install_candidate_def file_fingerprint_def split: option.splits if_splits elim!: write_workingE)

lemma install_inv:
  assumes laws: "handoff_laws ho" and inv: "cred_inv ho d" and run: "install ho req now d = (ds, r)"
  shows "\<forall>d'\<in>set ds. cred_inv ho d'"
proof (cases "read_journal ho req d")
  case (Inl e)
  then show ?thesis using run by (simp add: install_def refused_inv)
next
  case (Inr j)
  note read = this
  obtain f where j: "cred_journal d = Some j" "journal_inv ho j" "selected_fingerprint ho d = Inr f" "file_inv j f"
    by (rule read_invE [OF inv read])
  define fin where "fin = j\<lparr>jr_state := Installed, jr_candidate_cipher := None\<rparr>"
  consider (over) "jr_state j = Applied \<or> jr_state j = Rolled_Back" | (late) "jr_state j \<noteq> Applied" "jr_state j \<noteq> Rolled_Back" "now \<ge> jr_expires j"
    | (ready) "jr_state j \<noteq> Applied" "jr_state j \<noteq> Rolled_Back" "\<not> now \<ge> jr_expires j" by blast
  then show ?thesis
  proof cases
    case over
    then show ?thesis using run read by (auto simp: install_def refused_def)
  next
    case late
    then have "rollback ho req d = (ds, r)" using run read by (simp add: install_def)
    then show ?thesis by (rule rollback_inv [OF laws inv])
  next
    case ready
    have fin: "journal_inv ho fin" "file_inv fin (Some (jr_candidate_fp j))"
      using j(2) ready by (auto simp: fin_def journal_inv_def journal_ok_def file_inv_def)
    show ?thesis
    proof (cases "f = Some (jr_candidate_fp j)")
      case True
      then have "finish_with ho fin [] d = (ds, r)" using run read j(3) ready by (simp add: install_def fin_def Let_def)
      then show ?thesis using finish_only_inv fin(1) j(3) fin(2) True by metis
    next
      case False
      have step: "(ds, r) = (if jr_state j \<noteq> Prepared then refused (Inl unexpected) else case install_candidate ho j d of
           Inl e \<Rightarrow> refused (Inl e) | Inr d' \<Rightarrow> finish_with ho fin [d'] d')"
        using run read j(3,4) ready False unfolding install_def by (simp add: fin_def [symmetric] file_inv_def Let_def eq_commute [of "(ds, r)"])
      show ?thesis
      proof (cases "jr_state j \<noteq> Prepared \<or> (\<exists>e. install_candidate ho j d = Inl e)")
        case True
        then show ?thesis using step by (auto simp: refused_def split: if_splits)
      next
        case False
        then obtain d' where d': "install_candidate ho j d = Inr d'" by (cases "install_candidate ho j d") auto
        have s: "selected_fingerprint ho d' = Inr (Some (jr_candidate_fp j))" "cred_journal d' = Some j"
          using install_candidate_ok [OF j(2) d'] j(1) by simp_all
        then have "cred_inv ho d'" using j(2) ready by (simp add: cred_inv_def file_inv_def)
        then have "\<forall>x\<in>set [d']. cred_inv ho x" by simp
        moreover have "finish_with ho fin [d'] d' = (ds, r)" using step d' False by simp
        ultimately show ?thesis using finish_inv [OF _ _ fin(1) s(1) fin(2)] by blast
      qed
    qed
  qed
qed

lemma acknowledge_inv:
  assumes laws: "handoff_laws ho" and inv: "cred_inv ho d" and run: "acknowledge ho req fs now d = (ds, r)"
  shows "\<forall>d'\<in>set ds. cred_inv ho d'"
proof (cases "read_journal ho req d")
  case (Inl e)
  then show ?thesis using run by (simp add: acknowledge_def refused_inv)
next
  case (Inr j)
  note read = this
  obtain f where j: "cred_journal d = Some j" "journal_inv ho j" "selected_fingerprint ho d = Inr f" "file_inv j f"
    by (rule read_invE [OF inv read])
  let ?fin = "j\<lparr>jr_state := Applied, jr_prior_cipher := None\<rparr>"
  consider (same) "ds = []" | (late) "rollback ho req d = (ds, r)"
    | (fin) "jr_state j = Installed" "f = Some (jr_candidate_fp j)" "finish_with ho ?fin [] d = (ds, r)"
    using run read j(3) by (auto simp: acknowledge_def refused_def split: if_splits)
  then show ?thesis
  proof cases
    case same
    then show ?thesis by simp
  next
    case late
    then show ?thesis by (rule rollback_inv [OF laws inv])
  next
    case fin
    have "journal_inv ho ?fin" using j(2) fin(1) by (auto simp: journal_inv_def journal_ok_def)
    moreover have "file_inv ?fin f" using fin(2) by (simp add: file_inv_def)
    ultimately show ?thesis using finish_only_inv [OF fin(3)] j(3) by blast
  qed
qed

lemma consumers_sort: "consumers_ok ho cs \<Longrightarrow> consumers_ok ho (sort cs)"
  by (simp add: consumers_ok_def)

lemma new_journal_inv:
  assumes laws: "handoff_laws ho" and cs: "consumers_ok ho (pq_consumers q)" and new: "new_journal ho validate q d = Inr j"
  shows "journal_inv ho j \<and> selected_fingerprint ho d = Inr (jr_prior_fp j) \<and> jr_state j = Prepared"
proof -
  obtain v w f where v: "ho_open ho (pq_request q) (pq_candidate q) ''candidate'' = Inr v" "ho_utf8 ho v" "selected_file d = Inr w"
      "file_fingerprint ho v = Inr f"
    and j: "j = \<lparr>jr_request = pq_request q, jr_state = Prepared, jr_expires = pq_expires q, jr_prior_fp = map_option (ho_sha ho) w,
                jr_candidate_fp = f, jr_prior_cipher = map_option (\<lambda>p. ho_seal ho (pq_request q) p ''rollback'') w,
                jr_candidate_cipher = Some (pq_candidate q), jr_consumers = sort (pq_consumers q)\<rparr>"
    using new by (auto simp: new_journal_def bind_res_eq_Inr split: if_splits)
  have f: "bounded v" "f = ho_sha ho v" using v(4) by (auto simp: file_fingerprint_def split: if_splits)
  have w: "\<And>p. w = Some p \<Longrightarrow> bounded p" using v(3) by (auto simp: selected_file_def split: option.splits if_splits)
  have "journal_ok ho j"
    using sha_fingerprint [OF laws] consumers_sort [OF cs] by (auto simp: j f journal_ok_def split: option.splits)
  then show ?thesis using v f w by (auto simp: j journal_inv_def selected_fingerprint_def)
qed

lemma prepare_inv:
  assumes laws: "handoff_laws ho" and inv: "cred_inv ho d" and run: "prepare ho validate q d = (ds, r)"
  shows "\<forall>d'\<in>set ds. cred_inv ho d'"
proof -
  consider (same) "ds = []" | (new) j where "consumers_ok ho (pq_consumers q)" "new_journal ho validate q d = Inr j" "finish_with ho j [] d = (ds, r)"
    using run by (auto simp: prepare_def refused_def split: if_splits sum.splits)
  then show ?thesis
  proof cases
    case same
    then show ?thesis by simp
  next
    case new
    have j: "journal_inv ho j" "selected_fingerprint ho d = Inr (jr_prior_fp j)" "jr_state j = Prepared"
      using new_journal_inv [OF laws new(1,2)] by simp_all
    show ?thesis by (rule finish_only_inv [OF new(3) j(1,2)]) (simp add: file_inv_def j(3))
  qed
qed

lemma release_inv: "release_journal ho req recorded d = (ds, r) \<Longrightarrow> \<forall>d'\<in>set ds. cred_inv ho d'"
  by (auto simp: release_journal_def refused_def cred_inv_def split: sum.splits if_splits)

section \<open>Recovery\<close>

text \<open>
  The disks an installer can leave behind, whether it finished its operation or stopped after one of its durable steps. Without a
  journal the working file may be anything.
\<close>

inductive cred_reach :: "handoff \<Rightarrow> cred_disk \<Rightarrow> bool" for ho where
  fresh: "cred_journal d = None \<Longrightarrow> cred_reach ho d"
| prepared: "cred_reach ho d \<Longrightarrow> d' \<in> set (fst (prepare ho validate q d)) \<Longrightarrow> cred_reach ho d'"
| installed: "cred_reach ho d \<Longrightarrow> d' \<in> set (fst (install ho req now d)) \<Longrightarrow> cred_reach ho d'"
| acknowledged: "cred_reach ho d \<Longrightarrow> d' \<in> set (fst (acknowledge ho req fs now d)) \<Longrightarrow> cred_reach ho d'"
| rolled_back: "cred_reach ho d \<Longrightarrow> d' \<in> set (fst (rollback ho req d)) \<Longrightarrow> cred_reach ho d'"
| released: "cred_reach ho d \<Longrightarrow> d' \<in> set (fst (release_journal ho req recorded d)) \<Longrightarrow> cred_reach ho d'"

lemma cred_reach_inv: "handoff_laws ho \<Longrightarrow> cred_reach ho d \<Longrightarrow> cred_inv ho d"
proof (rotate_tac, induction rule: cred_reach.induct)
  case (fresh d)
  then show ?case by (simp add: cred_inv_def)
next
  case (prepared d d' validate q)
  then show ?case using prepare_inv [of ho d validate q] by (metis prod.collapse)
next
  case (installed d d' req now)
  then show ?case using install_inv [of ho d req now] by (metis prod.collapse)
next
  case (acknowledged d d' req fs now)
  then show ?case using acknowledge_inv [of ho d req fs now] by (metis prod.collapse)
next
  case (rolled_back d d' req)
  then show ?case using rollback_inv [of ho d req] by (metis prod.collapse)
next
  case (released d d' req recorded)
  then show ?case using release_inv [of ho req recorded d] by (metis prod.collapse)
qed

lemma write_ok: "bounded v \<Longrightarrow> ho_utf8 ho v \<Longrightarrow> selected_fingerprint ho d = Inr f \<Longrightarrow> write_working ho v d = Inr (d\<lparr>working := Some v\<rparr>)"
  by (auto simp: write_working_def selected_fingerprint_def bind_res_eq_Inr)

lemma rollback_succeeds:
  assumes laws: "handoff_laws ho" and inv: "cred_inv ho d" and j: "cred_journal d = Some j" "jr_state j \<noteq> Applied" "jr_state j \<noteq> Rolled_Back"
    and utf8: "\<forall>v. jr_prior_fp j = Some (ho_sha ho v) \<longrightarrow> ho_utf8 ho v"
  shows "\<exists>ds d'. rollback ho (jr_request j) d = (ds @ [d'], Inr (receipt_of (scrubbed j))) \<and> selected_fingerprint ho d' = Inr (jr_prior_fp j) \<and>
      cred_journal d' = Some (scrubbed j)"
proof -
  obtain f where f: "read_journal ho (jr_request j) d = Inr j" "journal_inv ho j" "selected_fingerprint ho d = Inr f" "file_inv j f"
    by (rule read_inv [OF inv j(1)])
  have fits: "ho_fits ho (scrubbed j)" by (rule fits [OF laws scrubbed_inv [OF f(2)]]) (simp add: scrubbed_def)
  show ?thesis
  proof (cases "f = jr_prior_fp j")
    case True
    then show ?thesis using f j fits by (auto simp: rollback_def finish_with_fits intro!: exI [of _ "[]"])
  next
    case False
    obtain d' where d': "restore_prior ho j d = Inr d'"
    proof (cases "jr_prior_cipher j")
      case None
      then show ?thesis using that by (simp add: restore_prior_def)
    next
      case (Some c)
      then obtain p where p: "c = ho_seal ho (jr_request j) p ''rollback''" "bounded p" "jr_prior_fp j = Some (ho_sha ho p)"
        using f(2) by (auto simp: journal_inv_def)
      then have "ho_utf8 ho p" using utf8 by blast
      then show ?thesis using that Some p open_seal [OF laws] write_ok [OF p(2) _ f(3)] by (simp add: restore_prior_def file_fingerprint_def)
    qed
    have "rollback ho (jr_request j) d = ([d'] @ [d'\<lparr>cred_journal := Some (scrubbed j)\<rparr>], Inr (receipt_of (scrubbed j)))"
      using f j d' fits False by (auto simp: rollback_def finish_with_fits file_inv_def)
    then show ?thesis using restore_prior_ok [OF laws f(2) j(2,3) d'] by fastforce
  qed
qed

definition installed_journal :: "cred_journal \<Rightarrow> cred_journal" where
  "installed_journal j = j\<lparr>jr_state := Installed, jr_candidate_cipher := None\<rparr>"

lemma install_succeeds:
  assumes laws: "handoff_laws ho" and inv: "cred_inv ho d" and j: "cred_journal d = Some j" "jr_state j = Prepared" and now: "now < jr_expires j"
  shows "\<exists>ds d'. install ho (jr_request j) now d = (ds @ [d'], Inr (receipt_of (installed_journal j))) \<and>
      selected_fingerprint ho d' = Inr (Some (jr_candidate_fp j)) \<and> cred_journal d' = Some (installed_journal j)"
proof -
  obtain f where f: "read_journal ho (jr_request j) d = Inr j" "journal_inv ho j" "selected_fingerprint ho d = Inr f" "file_inv j f"
    by (rule read_inv [OF inv j(1)])
  have "journal_inv ho (installed_journal j)" using f(2) j(2) by (auto simp: journal_inv_def journal_ok_def installed_journal_def)
  then have fits: "ho_fits ho (installed_journal j)" by (rule fits [OF laws]) (simp add: installed_journal_def)
  show ?thesis
  proof (cases "f = Some (jr_candidate_fp j)")
    case True
    then show ?thesis
      using f j now fits by (auto simp: install_def Let_def installed_journal_def [symmetric] finish_with_fits intro!: exI [of _ "[]"])
  next
    case False
    obtain c where c: "jr_candidate_cipher j = Some c" using f(2) j(2) by (auto simp: journal_inv_def journal_ok_def)
    then obtain v where v: "ho_open ho (jr_request j) c ''candidate'' = Inr v" "bounded v" "ho_utf8 ho v" "ho_sha ho v = jr_candidate_fp j"
      using f(2) by (auto simp: journal_inv_def)
    define d' where "d' = d\<lparr>working := Some v\<rparr>"
    have "install_candidate ho j d = Inr d'"
      using c v write_ok [OF v(2,3) f(3)] by (simp add: install_candidate_def file_fingerprint_def d'_def)
    then have "install ho (jr_request j) now d = ([d'] @ [d'\<lparr>cred_journal := Some (installed_journal j)\<rparr>], Inr (receipt_of (installed_journal j)))"
      using f j now fits False by (auto simp: install_def Let_def installed_journal_def [symmetric] finish_with_fits file_inv_def)
    then show ?thesis using v by (fastforce simp: d'_def)
  qed
qed


text \<open>A replacement that stopped between writing the candidate and saving its journal.\<close>

definition example_handoff :: "(string \<Rightarrow> bool) \<Rightarrow> handoff" where
  "example_handoff utf8 =
     \<lparr>ho_open = (\<lambda>_ c _. Inr c), ho_seal = (\<lambda>_ v _. v), ho_sha = (\<lambda>v. replicate 64 (if v = ''old'' then CHR ''a'' else CHR ''b'')),
      ho_utf8 = utf8, ho_fits = (\<lambda>_. True), ho_consumers = [''web'', ''worker'']\<rparr>"

definition example_journal :: cred_journal where
  "example_journal =
     \<lparr>jr_request = 7, jr_state = Prepared, jr_expires = 100, jr_prior_fp = Some (replicate 64 CHR ''a''), jr_candidate_fp = replicate 64 CHR ''b'',
      jr_prior_cipher = Some ''old'', jr_candidate_cipher = Some ''new'', jr_consumers = [''web'', ''worker'']\<rparr>"

lemma example_fingerprints: "is_fingerprint (replicate 64 CHR ''a'')" "is_fingerprint (replicate 64 CHR ''b'')"
  by (simp_all add: is_fingerprint_def is_digit_def list_all_iff)

lemma example_bounded: "bounded ''old''" "bounded ''new''"
  by (simp_all add: bounded_def MAX_FILE_BYTES_def)

lemma example_sort: "sort [''web'', ''worker''] = [''web'', ''worker'']"
  by code_simp

lemma example_reach: "utf8 ''new'' \<Longrightarrow> cred_reach (example_handoff utf8) \<lparr>working = Some ''new'', cred_journal = Some example_journal\<rparr>"
proof -
  assume utf8: "utf8 ''new''"
  let ?q = "\<lparr>pq_request = 7, pq_candidate = ''new'', pq_expected = Some (replicate 64 CHR ''a''), pq_consumers = [''web'', ''worker''],
    pq_expires = 100, pq_now = 5\<rparr>"
  let ?d = "\<lparr>working = Some ''old'', cred_journal = Some example_journal\<rparr>"
  note eval = utf8 example_handoff_def example_journal_def example_fingerprints example_bounded example_sort consumers_ok_def file_fingerprint_def
    selected_file_def finish_with_def save_journal_def
  have "cred_reach (example_handoff utf8) \<lparr>working = Some ''old'', cred_journal = None\<rparr>" by (rule cred_reach.fresh) simp
  moreover have "?d \<in> set (fst (prepare (example_handoff utf8) (\<lambda>_. True) ?q \<lparr>working = Some ''old'', cred_journal = None\<rparr>))"
    by (simp add: prepare_def new_journal_def DAY_SECONDS_def eval)
  ultimately have "cred_reach (example_handoff utf8) ?d" by (rule cred_reach.prepared)
  moreover have "\<lparr>working = Some ''new'', cred_journal = Some example_journal\<rparr> \<in> set (fst (install (example_handoff utf8) 7 10 ?d))"
    by (simp add: install_def read_journal_def journal_ok_def selected_fingerprint_def install_candidate_def write_working_def Let_def eval)
  ultimately show ?thesis by (rule cred_reach.installed)
qed


text \<open>A prior file that is not UTF-8 text can be replaced, but not put back: the replacement can neither be rolled back nor released.\<close>

lemma rollback_not_utf8:
  "\<exists>ho d. cred_reach ho d \<and> rollback ho 7 d = ([], Inl (crypto_error ''Credential replacement could not be completed.'')) \<and>
     release_journal ho 7 (\<lambda>_. True) d = ([], Inl (crypto_error ''Credential replacement is not terminal.''))"
proof -
  let ?ho = "example_handoff (\<lambda>v. v \<noteq> ''old'')"
  let ?d = "\<lparr>working = Some ''new'', cred_journal = Some example_journal\<rparr>"
  note eval = example_handoff_def example_journal_def example_fingerprints example_bounded consumers_ok_def file_fingerprint_def
    selected_file_def read_journal_def journal_ok_def selected_fingerprint_def refused_def
  have "cred_reach ?ho ?d" by (rule example_reach) simp
  moreover have "rollback ?ho 7 ?d = ([], Inl (crypto_error ''Credential replacement could not be completed.''))"
    by (simp add: rollback_def restore_prior_def write_working_def eval)
  moreover have "release_journal ?ho 7 (\<lambda>_. True) ?d = ([], Inl (crypto_error ''Credential replacement is not terminal.''))"
    by (simp add: release_journal_def eval)
  ultimately show ?thesis by blast
qed

end
