(* ===== verification/Participation.thy ===== *)
theory Participation
  imports Intervals Financial "HOL-Library.Product_Lexorder"
begin

text \<open>
  \<open>stewardship/reports/calculations.py\<close>: the daily participation of a campaign from inputs frozen at one cutoff, with the range of
  dates of \<open>reports/inputs.py\<close> and the stored day of \<open>reports/participation.py\<close>. Instants are microseconds and amounts
  cents; a frozenset of Families is a set. The time zones are the parameter \<open>zones\<close> of \<open>Intervals\<close>. Checks of Python
  types hold by the types here.
\<close>

section \<open>Inputs\<close>

definition positive_id :: "int \<Rightarrow> bool" where
  "positive_id v \<longleftrightarrow> 0 < v \<and> v < 2 ^ 63"

record promotion =
  pm_generation :: int
  pm_promoted_at :: int

record cohort_family =
  cf_family_id :: nat
  cf_first_eligible_at :: int
  cf_first_generation :: int

record live_response =
  lr_family_id :: nat
  lr_sequence :: int
  lr_submitted_at :: int
  lr_pledge :: money_amount

record calculation =
  cal_scope :: string
  cal_start :: date
  cal_end :: date
  cal_through :: date
  cal_timezone :: string
  cal_financial :: bool
  cal_source :: promotion
  cal_watermark :: int
  cal_promotions :: "promotion list"
  cal_families :: "cohort_family list"
  cal_current :: "nat set"
  cal_responses :: "live_response list"

definition MAX_PLEDGE :: int where
  "MAX_PLEDGE = 99999999999"

definition check_promotion :: "promotion \<Rightarrow> unit res" where
  "check_promotion p = guard_res (positive_id (pm_generation p)) (ValueError ''Calculation identity requires a positive integer.'')"

definition check_family :: "cohort_family \<Rightarrow> unit res" where
  "check_family f = guard_res (positive_id (cf_first_generation f)) (ValueError ''Calculation identity requires a positive integer.'')"

definition check_response :: "live_response \<Rightarrow> unit res" where
  "check_response r =
     (if \<not> positive_id (lr_sequence r) then Inl (ValueError ''Calculation identity requires a positive integer.'')
      else case money_cents (lr_pledge r) of
        None \<Rightarrow> Inr ()
      | Some c \<Rightarrow> guard_res (0 \<le> c \<and> c \<le> MAX_PLEDGE) (ValueError ''A Family pledge is outside its supported bounds.''))"

definition expected_dates :: "date \<Rightarrow> date \<Rightarrow> date \<Rightarrow> date list res" where
  "expected_dates start finish through =
     (if finish < start then Inl (ValueError ''Fact date inputs require an ordered campaign interval.'')
      else if through < start then Inr []
      else Inr (map (\<lambda>i. (next_day ^^ i) start) [0..<nat (toordinal through - toordinal start + 1)]))"

text \<open>The instants of one Family may not run against its sequence numbers.\<close>

fun check_chronology :: "(nat \<rightharpoonup> int) \<Rightarrow> live_response list \<Rightarrow> unit res" where
  "check_chronology latest [] = Inr ()"
| "check_chronology latest (r # rs) =
     (case latest (lr_family_id r) of
        Some prior \<Rightarrow>
          if lr_submitted_at r < prior then Inl (ValueError ''Family response chronology contradicts its sequence.'')
          else check_chronology (latest(lr_family_id r \<mapsto> lr_submitted_at r)) rs
      | None \<Rightarrow> check_chronology (latest(lr_family_id r \<mapsto> lr_submitted_at r)) rs)"

definition within_cutoff :: "calculation \<Rightarrow> bool" where
  "within_cutoff c \<longleftrightarrow>
     (let ids = set (map cf_family_id (cal_families c))
      in cal_current c \<subseteq> ids \<and> list_all (\<lambda>r. lr_family_id r \<in> ids) (cal_responses c) \<and> cal_source c \<in> set (cal_promotions c) \<and>
         list_all (\<lambda>p. pm_generation p \<le> pm_generation (cal_source c)) (cal_promotions c) \<and>
         list_all (\<lambda>r. lr_sequence r \<le> cal_watermark c) (cal_responses c))"

definition check_calculation :: "(string \<Rightarrow> zone_info option) \<Rightarrow> calculation \<Rightarrow> unit res" where
  "check_calculation zones c =
     bind_res (map_res check_promotion (cal_source c # cal_promotions c)) (\<lambda>_.
     bind_res (map_res check_family (cal_families c)) (\<lambda>_.
     bind_res (map_res check_response (cal_responses c)) (\<lambda>_.
       if cal_scope c \<notin> {''historical'', ''current''} \<or> \<not> (0 \<le> cal_watermark c \<and> cal_watermark c < 2 ^ 63)
       then Inl (ValueError ''Calculation scope and cutoffs must be explicit.'')
       else bind_res (expected_dates (cal_start c) (cal_end c) (cal_through c)) (\<lambda>_.
            bind_res (local_day zones (cal_start c) (cal_timezone c)) (\<lambda>_.
              if \<not> (distinct (map pm_generation (cal_promotions c)) \<and> distinct (map cf_family_id (cal_families c)) \<and>
                    distinct (map lr_sequence (cal_responses c)))
              then Inl (ValueError ''Calculation identities must not repeat.'')
              else if \<not> within_cutoff c then Inl (ValueError ''Calculation inputs do not belong to their frozen cutoff.'')
              else check_chronology Map.empty (sort_key lr_sequence (cal_responses c)))))))"

section \<open>Days\<close>

record participation_day =
  pd_local_date :: date
  pd_first_responses :: int
  pd_cumulative_responses :: int
  pd_cohort_denominator :: int
  pd_source_generation :: "int option"
  pd_source_as_of :: "int option"
  pd_population_available :: bool
  pd_pledge_available :: bool
  pd_pledge_total :: "int option"

definition count_ok :: "int \<Rightarrow> bool" where
  "count_ok v \<longleftrightarrow> 0 \<le> v \<and> v < 2 ^ 63"

definition validate_day :: "participation_day \<Rightarrow> unit res" where
  "validate_day p =
     (if \<not> (count_ok (pd_first_responses p) \<and> count_ok (pd_cumulative_responses p) \<and> count_ok (pd_cohort_denominator p))
      then Inl (ValueError ''Fact counts must be bounded nonnegative integers.'')
      else if \<not> (case pd_source_generation p of None \<Rightarrow> True | Some g \<Rightarrow> 1 \<le> g \<and> g < 2 ^ 63)
      then Inl (ValueError ''Fact source generation must be an exact positive integer.'')
      else if \<not> (case pd_pledge_total p of None \<Rightarrow> True | Some a \<Rightarrow> 0 \<le> a \<and> a \<le> 999999999999999999)
      then Inl (ValueError ''Fact pledges require bounded exact Decimal cents.'')
      else Inr ())"

definition stored_day :: "participation_day \<Rightarrow> participation_day res" where
  "stored_day p =
     bind_res (validate_day p) (\<lambda>_.
       if \<not> (pd_first_responses p \<le> pd_cumulative_responses p \<and> pd_cumulative_responses p \<le> pd_cohort_denominator p)
       then Inl (ValueError ''Report participation counts are inconsistent.'')
       else if pd_population_available p \<and> (pd_source_generation p = None \<or> pd_source_as_of p = None)
       then Inl (ValueError ''Available population requires source provenance.'')
       else if \<not> pd_population_available p \<and> (pd_source_generation p \<noteq> None \<or> pd_source_as_of p \<noteq> None \<or> pd_first_responses p \<noteq> 0 \<or>
               pd_cumulative_responses p \<noteq> 0 \<or> pd_cohort_denominator p \<noteq> 0)
       then Inl (ValueError ''Unavailable population cannot contain observations.'')
       else if pd_pledge_available p \<noteq> (pd_pledge_total p \<noteq> None) \<or> pd_pledge_available p \<and> \<not> pd_population_available p
       then Inl (ValueError ''Report pledge availability is inconsistent.'')
       else Inr p)"

text \<open>The first row of greatest generation, as \<open>max\<close> with a key returns it.\<close>

fun max_generation :: "promotion list \<Rightarrow> promotion option" where
  "max_generation [] = None"
| "max_generation (p # ps) =
     (case max_generation ps of None \<Rightarrow> Some p | Some q \<Rightarrow> if pm_generation q > pm_generation p then Some q else Some p)"

definition day_source :: "calculation \<Rightarrow> utc_interval \<Rightarrow> promotion option" where
  "day_source c iv =
     (if cal_scope c = ''historical'' then max_generation (filter (\<lambda>p. pm_promoted_at p < iv_end iv) (cal_promotions c))
      else Some (cal_source c))"

definition day_cohort :: "calculation \<Rightarrow> utc_interval \<Rightarrow> promotion \<Rightarrow> nat set" where
  "day_cohort c iv source =
     (if cal_scope c = ''current'' then cal_current c
      else set (map cf_family_id (filter (\<lambda>f. cf_first_generation f \<le> pm_generation source \<and> cf_first_eligible_at f < iv_end iv) (cal_families c))))"

text \<open>What a day stores, from the first and the latest response of each Family so far.\<close>

definition summarize_day :: "calculation \<Rightarrow> date \<Rightarrow> utc_interval \<Rightarrow> (nat \<rightharpoonup> live_response) \<Rightarrow> (nat \<rightharpoonup> live_response) \<Rightarrow> participation_day res" where
  "summarize_day c d iv first latest =
     (case day_source c iv of
        None \<Rightarrow> stored_day \<lparr>pd_local_date = d, pd_first_responses = 0, pd_cumulative_responses = 0, pd_cohort_denominator = 0, pd_source_generation = None,
                  pd_source_as_of = None, pd_population_available = False, pd_pledge_available = False, pd_pledge_total = None\<rparr>
      | Some source \<Rightarrow>
          (let cohort = day_cohort c iv source;
               participants = Set.filter (\<lambda>f. first f \<noteq> None) cohort;
               amount = (\<lambda>f. lr_pledge (the (latest f)));
               money = MoneyAmount (if cal_financial c \<and> (\<forall>f\<in>participants. available (amount f))
                                    then Some (\<Sum>f\<in>participants. the (money_cents (amount f))) else None)
           in stored_day \<lparr>pd_local_date = d,
                pd_first_responses = int (card (Set.filter (\<lambda>f. iv_contains iv (lr_submitted_at (the (first f)))) participants)),
                pd_cumulative_responses = int (card participants), pd_cohort_denominator = int (card cohort),
                pd_source_generation = Some (pm_generation source), pd_source_as_of = Some (pm_promoted_at source),
                pd_population_available = True, pd_pledge_available = available money, pd_pledge_total = money_cents money\<rparr>))"

section \<open>The pass over the responses\<close>

definition keep :: "(live_response \<Rightarrow> live_response \<Rightarrow> bool) \<Rightarrow> live_response \<Rightarrow> (nat \<rightharpoonup> live_response) \<Rightarrow> (nat \<rightharpoonup> live_response)" where
  "keep better r m =
     (case m (lr_family_id r) of
        None \<Rightarrow> m(lr_family_id r \<mapsto> r)
      | Some prior \<Rightarrow> if better r prior then m(lr_family_id r \<mapsto> r) else m)"

abbreviation earlier_sequence :: "live_response \<Rightarrow> live_response \<Rightarrow> bool" where
  "earlier_sequence r p \<equiv> lr_sequence r < lr_sequence p"

abbreviation later_sequence :: "live_response \<Rightarrow> live_response \<Rightarrow> bool" where
  "later_sequence r p \<equiv> lr_sequence r > lr_sequence p"

fun advance :: "int \<Rightarrow> live_response list \<Rightarrow> (nat \<rightharpoonup> live_response) \<Rightarrow> (nat \<rightharpoonup> live_response) \<Rightarrow>
    live_response list \<times> (nat \<rightharpoonup> live_response) \<times> (nat \<rightharpoonup> live_response)" where
  "advance stop [] first latest = ([], first, latest)"
| "advance stop (r # rs) first latest =
     (if lr_submitted_at r < stop then advance stop rs (keep earlier_sequence r first) (keep later_sequence r latest)
      else (r # rs, first, latest))"

fun participation_loop :: "(string \<Rightarrow> zone_info option) \<Rightarrow> calculation \<Rightarrow> live_response list \<Rightarrow> (nat \<rightharpoonup> live_response) \<Rightarrow>
    (nat \<rightharpoonup> live_response) \<Rightarrow> date list \<Rightarrow> participation_day list res" where
  "participation_loop zones c versions first latest [] = Inr []"
| "participation_loop zones c versions first latest (d # ds) =
     bind_res (local_day zones d (cal_timezone c)) (\<lambda>iv.
       (case advance (iv_end iv) versions first latest of
          (versions', first', latest') \<Rightarrow>
            bind_res (summarize_day c d iv first' latest') (\<lambda>p.
            bind_res (participation_loop zones c versions' first' latest' ds) (\<lambda>ps. Inr (p # ps)))))"

definition calculate_participation :: "(string \<Rightarrow> zone_info option) \<Rightarrow> calculation \<Rightarrow> participation_day list res" where
  "calculate_participation zones c =
     bind_res (expected_dates (cal_start c) (cal_end c) (cal_through c)) (\<lambda>dates.
       participation_loop zones c (sort_key (\<lambda>r. (lr_submitted_at r, lr_sequence r)) (cal_responses c)) Map.empty Map.empty dates)"

end
