(* ===== verification/Participation_Facts.thy ===== *)
theory Participation_Facts
  imports Participation
begin

text \<open>
  The daily participation agrees with a direct definition that looks at the responses of each day anew, and every accepted
  calculation gives a day for each date.
\<close>

section \<open>First and latest responses\<close>

text \<open>Of the responses of a Family the one whose key is least.\<close>

definition best :: "(live_response \<Rightarrow> int) \<Rightarrow> live_response list \<Rightarrow> nat \<Rightarrow> live_response option" where
  "best key rs f = (case sort_key key (filter (\<lambda>r. lr_family_id r = f) rs) of [] \<Rightarrow> None | r # _ \<Rightarrow> Some r)"

lemma best_Some:
  assumes "inj_on key (set rs)"
  shows "best key rs f = Some r \<longleftrightarrow> r \<in> set rs \<and> lr_family_id r = f \<and> (\<forall>s\<in>set rs. lr_family_id s = f \<longrightarrow> key r \<le> key s)"
proof (cases "sort_key key (filter (\<lambda>r. lr_family_id r = f) rs)")
  case Nil
  then have "set (filter (\<lambda>r. lr_family_id r = f) rs) = {}" by (metis set_sort list.set(1))
  then show ?thesis using Nil by (auto simp: best_def)
next
  case (Cons a l)
  have s: "set (a # l) = {r \<in> set rs. lr_family_id r = f}" using Cons by (metis set_sort set_filter)
  have "sorted (map key (a # l))" using Cons by (metis sorted_sort_key)
  then have a: "a \<in> set rs" "lr_family_id a = f" "\<forall>s\<in>set rs. lr_family_id s = f \<longrightarrow> key a \<le> key s" using s by auto
  have "r = a" if "r \<in> set rs" "lr_family_id r = f" "\<forall>s\<in>set rs. lr_family_id s = f \<longrightarrow> key r \<le> key s"
    using that a inj_onD [OF assms, of r a] by force
  then show ?thesis using Cons a by (auto simp: best_def)
qed

lemma best_None: "best key rs f = None \<longleftrightarrow> (\<forall>r\<in>set rs. lr_family_id r \<noteq> f)"
proof (cases "sort_key key (filter (\<lambda>r. lr_family_id r = f) rs)")
  case Nil
  then have "set (filter (\<lambda>r. lr_family_id r = f) rs) = {}" by (metis set_sort list.set(1))
  then show ?thesis using Nil by (auto simp: best_def)
next
  case (Cons a l)
  then have "a \<in> set (filter (\<lambda>r. lr_family_id r = f) rs)" by (metis set_sort list.set_intros(1))
  then show ?thesis using Cons by (auto simp: best_def)
qed

lemma best_cong:
  assumes "inj_on key (set xs)" and "set xs = set ys"
  shows "best key xs = best key ys"
proof
  fix f
  show "best key xs f = best key ys f"
    using assms best_Some [of key xs f] best_Some [of key ys f] best_None [of key xs f] best_None [of key ys f]
    by (cases "best key xs f"; cases "best key ys f") auto
qed

lemma keep_best:
  assumes "inj_on key (set (rs @ [r]))"
  shows "keep (\<lambda>r p. key r < key p) r (best key rs) = best key (rs @ [r])"
proof
  fix f
  have inj: "inj_on key (set rs)" using assms by (simp add: inj_on_insert)
  note new = best_Some [OF assms, of f] and old = best_Some [OF inj, of f]
  show "keep (\<lambda>r p. key r < key p) r (best key rs) f = best key (rs @ [r]) f"
  proof (cases "lr_family_id r = f")
    case False
    then have "best key rs f = best key (rs @ [r]) f" by (simp add: best_def)
    then show ?thesis using False by (auto simp: keep_def split: option.splits)
  next
    case True
    show ?thesis
    proof (cases "best key rs f")
      case None
      then have "best key (rs @ [r]) f = Some r" unfolding new using True by (auto simp: best_None)
      then show ?thesis using None True by (simp add: keep_def)
    next
      case (Some p)
      then have p: "p \<in> set rs" "lr_family_id p = f" "\<forall>s\<in>set rs. lr_family_id s = f \<longrightarrow> key p \<le> key s" using old by auto
      have "best key (rs @ [r]) f = Some (if key r < key p then r else p)" unfolding new using p True by fastforce
      then show ?thesis using Some True by (simp add: keep_def)
    qed
  qed
qed

text \<open>The maps of the pass, after the responses \<open>rs\<close>.\<close>

abbreviation firsts :: "live_response list \<Rightarrow> nat \<Rightarrow> live_response option" where
  "firsts \<equiv> best lr_sequence"

abbreviation latests :: "live_response list \<Rightarrow> nat \<Rightarrow> live_response option" where
  "latests \<equiv> best (\<lambda>r. - lr_sequence r)"

lemma keep_first: "inj_on lr_sequence (set (rs @ [r])) \<Longrightarrow> keep earlier_sequence r (firsts rs) = firsts (rs @ [r])"
  by (rule keep_best)

lemma keep_latest: "inj_on lr_sequence (set (rs @ [r])) \<Longrightarrow> keep later_sequence r (latests rs) = latests (rs @ [r])"
  using keep_best [of "\<lambda>r. - lr_sequence r" rs r] by (simp add: inj_on_def)

lemma advance_spec:
  assumes "inj_on lr_sequence (set (seen @ rs))" and "sorted (map lr_submitted_at rs)"
  shows "advance stop rs (firsts seen) (latests seen) =
    (filter (\<lambda>r. \<not> lr_submitted_at r < stop) rs,
     firsts (seen @ filter (\<lambda>r. lr_submitted_at r < stop) rs), latests (seen @ filter (\<lambda>r. lr_submitted_at r < stop) rs))"
  using assms
proof (induction rs arbitrary: seen)
  case Nil
  then show ?case by simp
next
  case (Cons r rs)
  have inj: "inj_on lr_sequence (set (seen @ [r]))" using Cons.prems(1) by (rule inj_on_subset) auto
  show ?case
  proof (cases "lr_submitted_at r < stop")
    case True
    then show ?thesis using Cons.IH [of "seen @ [r]"] Cons.prems keep_first [OF inj] keep_latest [OF inj] by simp
  next
    case False
    then have "filter (\<lambda>r. lr_submitted_at r < stop) rs = []" using Cons.prems(2) by (auto simp: filter_empty_conv)
    moreover from this have "filter (\<lambda>r. \<not> lr_submitted_at r < stop) rs = rs" by (simp add: filter_id_conv filter_empty_conv)
    ultimately show ?thesis using False by simp
  qed
qed

section \<open>The reference\<close>

text \<open>A day, from the responses before its end.\<close>

definition reference_day :: "(string \<Rightarrow> zone_info option) \<Rightarrow> calculation \<Rightarrow> date \<Rightarrow> participation_day res" where
  "reference_day zones c d =
     bind_res (local_day zones d (cal_timezone c)) (\<lambda>iv.
       let before = filter (\<lambda>r. lr_submitted_at r < iv_end iv) (cal_responses c)
       in summarize_day c d iv (firsts before) (latests before))"

text \<open>Consecutive days end in order, because each starts where the one before it ends.\<close>

lemma local_day_next:
  assumes "local_day zones d tz = Inr iv" and "local_day zones (next_day d) tz = Inr iv'"
  shows "iv_end iv \<le> iv_end iv'"
  using assms by (auto simp: local_day_def add_day_Inr utc_interval_of_def split: if_splits)

fun consecutive :: "date list \<Rightarrow> bool" where
  "consecutive (d # e # ds) \<longleftrightarrow> e = next_day d \<and> consecutive (e # ds)"
| "consecutive _ \<longleftrightarrow> True"

lemma loop_reference:
  assumes "inj_on lr_sequence (set (cal_responses c))" and "sorted (map lr_submitted_at rs)"
    and "set (seen @ rs) = set (cal_responses c)" and "consecutive ds"
    and "\<forall>iv. ds \<noteq> [] \<and> local_day zones (hd ds) (cal_timezone c) = Inr iv \<longrightarrow> (\<forall>r\<in>set seen. lr_submitted_at r < iv_end iv)"
  shows "participation_loop zones c rs (firsts seen) (latests seen) ds = map_res (reference_day zones c) ds"
  using assms(2-5)
proof (induction ds arbitrary: seen rs)
  case Nil
  then show ?case by simp
next
  case (Cons d ds)
  show ?case
  proof (cases "local_day zones d (cal_timezone c)")
    case (Inl e)
    then show ?thesis by (simp add: reference_day_def)
  next
    case (Inr iv)
    define now where "now = seen @ filter (\<lambda>r. lr_submitted_at r < iv_end iv) rs"
    define rest where "rest = filter (\<lambda>r. \<not> lr_submitted_at r < iv_end iv) rs"
    let ?before = "filter (\<lambda>r. lr_submitted_at r < iv_end iv) (cal_responses c)"
    have inj: "inj_on lr_sequence (set (seen @ rs))" using assms(1) Cons.prems(2) by simp
    have adv: "advance (iv_end iv) rs (firsts seen) (latests seen) = (rest, firsts now, latests now)"
      unfolding now_def rest_def by (rule advance_spec [OF inj Cons.prems(1)])
    have seen: "\<forall>r\<in>set seen. lr_submitted_at r < iv_end iv" using Cons.prems(4) Inr by simp
    have "set now = {r \<in> set (seen @ rs). lr_submitted_at r < iv_end iv}" using seen by (auto simp: now_def)
    then have same: "set now = set ?before" unfolding Cons.prems(2) by simp
    have "set now \<subseteq> set (cal_responses c)" using same by auto
    then have "inj_on lr_sequence (set now)" using assms(1) by (rule inj_on_subset [rotated])
    then have maps: "firsts now = firsts ?before" "latests now = latests ?before"
      using best_cong [OF _ same, of lr_sequence] best_cong [OF _ same, of "\<lambda>r. - lr_sequence r"] by (simp_all add: inj_on_def)
    have tail: "participation_loop zones c rest (firsts now) (latests now) ds = map_res (reference_day zones c) ds"
    proof (rule Cons.IH)
      show "sorted (map lr_submitted_at rest)" unfolding rest_def by (rule sorted_filter [OF Cons.prems(1)])
      show "set (now @ rest) = set (cal_responses c)" using Cons.prems(2) by (auto simp: now_def rest_def)
      show "consecutive ds" using Cons.prems(3) by (cases ds) simp_all
      show "\<forall>iv'. ds \<noteq> [] \<and> local_day zones (hd ds) (cal_timezone c) = Inr iv' \<longrightarrow> (\<forall>r\<in>set now. lr_submitted_at r < iv_end iv')"
      proof (intro allI impI ballI)
        fix iv' r
        assume iv': "ds \<noteq> [] \<and> local_day zones (hd ds) (cal_timezone c) = Inr iv'" and r: "r \<in> set now"
        then have "hd ds = next_day d" using Cons.prems(3) by (cases ds) simp_all
        then have "iv_end iv \<le> iv_end iv'" using local_day_next [OF Inr] iv' by simp
        moreover have "lr_submitted_at r < iv_end iv" using r same by simp
        ultimately show "lr_submitted_at r < iv_end iv'" by simp
      qed
    qed
    show ?thesis using Inr adv maps tail by (simp add: reference_day_def [of zones c d] Let_def)
  qed
qed


section \<open>Accepted calculations\<close>

lemma check_calculationD:
  assumes "check_calculation zones c = Inr u"
  shows "\<forall>p\<in>set (cal_promotions c). positive_id (pm_generation p)" "positive_id (pm_generation (cal_source c))"
    "\<forall>r\<in>set (cal_responses c). check_response r = Inr ()" "inj_on lr_sequence (set (cal_responses c))"
    "cal_scope c = ''historical'' \<or> cal_scope c = ''current''" "within_cutoff c" "distinct (map cf_family_id (cal_families c))"
    "check_chronology Map.empty (sort_key lr_sequence (cal_responses c)) = Inr ()" "\<not> cal_end c < cal_start c"
  using assms
  by (auto simp: check_calculation_def map_res_eq_Inr check_promotion_def list_all2_conv_all_nth in_set_conv_nth distinct_map expected_dates_def
      split: if_splits)

lemma chronology:
  assumes "check_chronology m xs = Inr u"
  shows "(\<forall>r\<in>set xs. \<forall>t. m (lr_family_id r) = Some t \<longrightarrow> t \<le> lr_submitted_at r) \<and>
    sorted_wrt (\<lambda>r s. lr_family_id r = lr_family_id s \<longrightarrow> lr_submitted_at r \<le> lr_submitted_at s) xs"
  using assms
proof (induction xs arbitrary: m)
  case Nil
  then show ?case by simp
next
  case (Cons x xs)
  have run: "check_chronology (m(lr_family_id x \<mapsto> lr_submitted_at x)) xs = Inr u" "\<And>t. m (lr_family_id x) = Some t \<Longrightarrow> t \<le> lr_submitted_at x"
    using Cons.prems by (auto split: option.splits if_splits)
  show ?case using Cons.IH [OF run(1)] run(2) by (fastforce split: if_splits)
qed

text \<open>A response with a later sequence number came later.\<close>

lemma later_came_later:
  assumes "check_calculation zones c = Inr u" and "r \<in> set (cal_responses c)" and "s \<in> set (cal_responses c)"
    and "lr_family_id r = lr_family_id s" and "lr_sequence r \<le> lr_sequence s"
  shows "lr_submitted_at r \<le> lr_submitted_at s"
proof -
  let ?l = "sort_key lr_sequence (cal_responses c)"
  obtain i j where ij: "i < length ?l" "?l ! i = r" "j < length ?l" "?l ! j = s" using assms(2,3) by (metis in_set_conv_nth set_sort)
  have w: "sorted_wrt (\<lambda>r s. lr_family_id r = lr_family_id s \<longrightarrow> lr_submitted_at r \<le> lr_submitted_at s) ?l"
    using chronology [OF check_calculationD(8) [OF assms(1)]] by simp
  have "r = s" if "j < i"
  proof -
    have "lr_sequence s \<le> lr_sequence r" using that ij sorted_nth_mono [of "map lr_sequence ?l" j i] by simp
    then show ?thesis using assms inj_onD [OF check_calculationD(4) [OF assms(1)], of r s] by simp
  qed
  then show ?thesis using sorted_wrt_nth_less [OF w] ij assms(4) by (metis nat_neq_iff order_refl)
qed

text \<open>The first response of a Family before an instant is the earliest one.\<close>

lemma first_earliest:
  assumes "check_calculation zones c = Inr u" and "firsts (filter (\<lambda>r. lr_submitted_at r < e) (cal_responses c)) f = Some r"
    and "s \<in> set (cal_responses c)" and "lr_family_id s = f"
  shows "r \<in> set (cal_responses c) \<and> lr_family_id r = f \<and> lr_submitted_at r \<le> lr_submitted_at s"
proof -
  let ?l = "filter (\<lambda>r. lr_submitted_at r < e) (cal_responses c)"
  have inj: "inj_on lr_sequence (set ?l)" using check_calculationD(4) [OF assms(1)] by (rule inj_on_subset) auto
  have r: "r \<in> set ?l" "lr_family_id r = f" "\<forall>s\<in>set ?l. lr_family_id s = f \<longrightarrow> lr_sequence r \<le> lr_sequence s"
    using best_Some [OF inj] assms(2) by auto
  have "lr_submitted_at r \<le> lr_submitted_at s"
  proof (cases "lr_submitted_at s < e")
    case True
    then have "lr_sequence r \<le> lr_sequence s" using r(3) assms(3,4) by simp
    then show ?thesis using later_came_later [OF assms(1)] r assms(3,4) by simp
  next
    case False
    then show ?thesis using r(1) by simp
  qed
  then show ?thesis using r by simp
qed

lemma max_generation_in: "max_generation ps = Some p \<Longrightarrow> p \<in> set ps"
  by (induction ps arbitrary: p) (auto split: option.splits if_splits)

lemma day_source_positive:
  assumes "check_calculation zones c = Inr u" and "day_source c iv = Some p"
  shows "positive_id (pm_generation p)"
  using assms check_calculationD(1,2) [OF assms(1)] max_generation_in by (force simp: day_source_def split: if_splits)

lemma day_cohort_bound:
  assumes "check_calculation zones c = Inr u"
  shows "finite (day_cohort c iv p) \<and> card (day_cohort c iv p) \<le> length (cal_families c)"
proof -
  have "day_cohort c iv p \<subseteq> set (map cf_family_id (cal_families c))"
    using check_calculationD(6) [OF assms] by (auto simp: day_cohort_def within_cutoff_def Let_def)
  then show ?thesis using card_mono [OF finite_set] card_length by (metis finite_set finite_subset le_trans length_map)
qed

lemma pledge_bounds:
  assumes "check_calculation zones c = Inr u" and "r \<in> set (cal_responses c)" and "money_cents (lr_pledge r) = Some a"
  shows "0 \<le> a \<and> a \<le> MAX_PLEDGE"
  using assms check_calculationD(3) [OF assms(1)] by (fastforce simp: check_response_def split: if_splits)


section \<open>The result\<close>

abbreviation before :: "calculation \<Rightarrow> utc_interval \<Rightarrow> live_response list" where
  "before c iv \<equiv> filter (\<lambda>r. lr_submitted_at r < iv_end iv) (cal_responses c)"

lemma available_MoneyAmount: "available (MoneyAmount m) \<longleftrightarrow> m \<noteq> None"
  by (simp add: available_def)

lemma summarize_total:
  assumes ok: "check_calculation zones c = Inr u" and few: "length (cal_families c) \<le> 10000000"
  shows "\<exists>p. summarize_day c d iv (firsts (before c iv)) (latests (before c iv)) = Inr p"
proof (cases "day_source c iv")
  case None
  then show ?thesis by (simp add: summarize_day_def stored_day_def validate_day_def count_ok_def)
next
  case (Some src)
  define A where "A = day_cohort c iv src"
  define P where "P = Set.filter (\<lambda>f. firsts (before c iv) f \<noteq> None) A"
  define F where "F = Set.filter (\<lambda>f. iv_contains iv (lr_submitted_at (the (firsts (before c iv) f)))) P"
  define pledge where "pledge f = lr_pledge (the (latests (before c iv) f))" for f
  have A: "finite A" "card A \<le> 10000000" using day_cohort_bound [OF ok, of iv src] few by (simp_all add: A_def)
  have P: "finite P" "card P \<le> card A" using A(1) by (auto simp: P_def intro: card_mono)
  have F: "card F \<le> card P" using P(1) by (auto simp: F_def intro: card_mono)
  have g: "positive_id (pm_generation src)" by (rule day_source_positive [OF ok Some])
  have inj: "inj_on (\<lambda>r. - lr_sequence r) (set (before c iv))" using check_calculationD(4) [OF ok] by (auto simp: inj_on_def)
  have each: "0 \<le> the (money_cents (pledge f)) \<and> the (money_cents (pledge f)) \<le> MAX_PLEDGE" if "f \<in> P" "available (pledge f)" for f
  proof -
    have "\<not> (\<forall>r\<in>set (before c iv). lr_family_id r \<noteq> f)" using that(1) best_None [of lr_sequence "before c iv" f] by (auto simp: P_def)
    then obtain r where r: "latests (before c iv) f = Some r" using best_None [of "\<lambda>r. - lr_sequence r" "before c iv" f] by auto
    then have "r \<in> set (cal_responses c)" using best_Some [OF inj] by auto
    then show ?thesis using pledge_bounds [OF ok] that(2) r by (auto simp: pledge_def available_def)
  qed
  have total: "0 \<le> (\<Sum>f\<in>P. the (money_cents (pledge f))) \<and> (\<Sum>f\<in>P. the (money_cents (pledge f))) \<le> 999999999999999999"
    if "\<forall>f\<in>P. available (pledge f)"
  proof
    show "0 \<le> (\<Sum>f\<in>P. the (money_cents (pledge f)))" using each that by (simp add: sum_nonneg)
    have "(\<Sum>f\<in>P. the (money_cents (pledge f))) \<le> of_nat (card P) * MAX_PLEDGE" using each that by (intro sum_bounded_above) auto
    also have "\<dots> \<le> 10000000 * MAX_PLEDGE" using P A by (intro mult_right_mono) (simp_all add: MAX_PLEDGE_def)
    finally show "(\<Sum>f\<in>P. the (money_cents (pledge f))) \<le> 999999999999999999" by (simp add: MAX_PLEDGE_def)
  qed
  define fin_ok where "fin_ok \<longleftrightarrow> cal_financial c \<and> (\<forall>f\<in>P. available (pledge f))"
  have eq: "summarize_day c d iv (firsts (before c iv)) (latests (before c iv)) =
     stored_day \<lparr>pd_local_date = d, pd_first_responses = int (card F), pd_cumulative_responses = int (card P), pd_cohort_denominator = int (card A),
       pd_source_generation = Some (pm_generation src), pd_source_as_of = Some (pm_promoted_at src), pd_population_available = True,
       pd_pledge_available = fin_ok, pd_pledge_total = (if fin_ok then Some (\<Sum>f\<in>P. the (money_cents (pledge f))) else None)\<rparr>"
    unfolding summarize_day_def Some option.case Let_def A_def [symmetric] P_def [symmetric] F_def [symmetric] pledge_def [symmetric] fin_ok_def [symmetric]
    by (cases fin_ok) (simp_all add: available_MoneyAmount)
  show ?thesis unfolding eq using A P F g total by (auto simp: stored_day_def validate_day_def count_ok_def positive_id_def fin_ok_def)
qed

lemma expected_dates_consecutive: "expected_dates s e t = Inr ds \<Longrightarrow> consecutive ds"
proof -
  assume "expected_dates s e t = Inr ds"
  then have "ds = [] \<or> (\<exists>n. ds = map (\<lambda>i. (next_day ^^ i) s) [0..<n])" by (auto simp: expected_dates_def split: if_splits)
  moreover have "consecutive (map (\<lambda>i. (next_day ^^ i) s) [k..<k + n])" for k n
  proof (induction n arbitrary: k)
    case 0
    then show ?case by simp
  next
    case (Suc n)
    then show ?case using Suc [of "Suc k"] by (cases n) (simp_all add: upt_rec)
  qed
  ultimately show ?thesis by (metis consecutive.simps(2) add_0)
qed

lemma sorted_fst_key: "sorted (map (\<lambda>r. (a r :: int, b r :: int)) l) \<Longrightarrow> sorted (map a l)"
  by (induction l) auto

lemma calculate_reference:
  assumes ok: "check_calculation zones c = Inr u"
  shows "calculate_participation zones c = bind_res (expected_dates (cal_start c) (cal_end c) (cal_through c)) (map_res (reference_day zones c))"
proof -
  let ?l = "sort_key (\<lambda>r. (lr_submitted_at r, lr_sequence r)) (cal_responses c)"
  have "sorted (map (\<lambda>r. (lr_submitted_at r, lr_sequence r)) ?l)" by (rule sorted_sort_key)
  then have "sorted (map lr_submitted_at ?l)" by (rule sorted_fst_key)
  moreover have "firsts [] = Map.empty" "latests [] = Map.empty" by (auto simp: best_def)
  ultimately have "participation_loop zones c ?l Map.empty Map.empty ds = map_res (reference_day zones c) ds" if "consecutive ds" for ds
    using loop_reference [OF check_calculationD(4) [OF ok], of ?l "[]" ds zones] that by simp
  then show ?thesis using expected_dates_consecutive unfolding calculate_participation_def by (intro bind_res_cong) auto
qed


text \<open>The counts of a day, with the population of today.\<close>

definition responded_by :: "calculation \<Rightarrow> int \<Rightarrow> nat set" where
  "responded_by c e = {f \<in> cal_current c. \<exists>r\<in>set (cal_responses c). lr_family_id r = f \<and> lr_submitted_at r < e}"

lemma current_counts:
  assumes ok: "check_calculation zones c = Inr u" and scope: "cal_scope c = ''current''" and iv: "local_day zones d (cal_timezone c) = Inr iv"
    and p: "reference_day zones c d = Inr p"
  shows "pd_cumulative_responses p = int (card (responded_by c (iv_end iv)))"
    "pd_first_responses p = int (card (responded_by c (iv_end iv) - responded_by c (iv_start iv)))"
proof -
  let ?F = "firsts (before c iv)"
  have stored_day: "\<And>q. stored_day q = Inr p \<Longrightarrow> q = p" by (auto simp: stored_day_def split: if_splits)
  have P: "Set.filter (\<lambda>f. ?F f \<noteq> None) (cal_current c) = responded_by c (iv_end iv)"
    unfolding responded_by_def using best_None [of lr_sequence "before c iv"] by auto
  have early: "iv_contains iv (lr_submitted_at (the (?F f))) \<longleftrightarrow> f \<notin> responded_by c (iv_start iv)" if f: "f \<in> responded_by c (iv_end iv)" for f
  proof -
    obtain r where r: "?F f = Some r" using f P by auto
    have inj: "inj_on lr_sequence (set (before c iv))" using check_calculationD(4) [OF ok] by (rule inj_on_subset) auto
    have b: "r \<in> set (cal_responses c)" "lr_family_id r = f" "lr_submitted_at r < iv_end iv" using best_Some [OF inj] r by auto
    have "(\<exists>s\<in>set (cal_responses c). lr_family_id s = f \<and> lr_submitted_at s < iv_start iv) \<longleftrightarrow> lr_submitted_at r < iv_start iv"
      using first_earliest [OF ok r] b by fastforce
    moreover have "f \<in> cal_current c" using f by (simp add: responded_by_def)
    ultimately show ?thesis using r b by (auto simp: iv_contains_def responded_by_def)
  qed
  have F: "Set.filter (\<lambda>f. iv_contains iv (lr_submitted_at (the (?F f)))) (responded_by c (iv_end iv)) = responded_by c (iv_end iv) - responded_by c (iv_start iv)"
    using early by auto
  have run: "summarize_day c d iv ?F (latests (before c iv)) = Inr p" using p iv by (simp add: reference_day_def Let_def)
  have src: "day_source c iv = Some (cal_source c)" "day_cohort c iv (cal_source c) = cal_current c" using scope by (simp_all add: day_source_def day_cohort_def)
  note q = stored_day [OF run [unfolded summarize_day_def src option.case Let_def P F]]
  show "pd_cumulative_responses p = int (card (responded_by c (iv_end iv)))" by (simp add: q [symmetric])
  show "pd_first_responses p = int (card (responded_by c (iv_end iv) - responded_by c (iv_start iv)))" by (simp add: q [symmetric])
qed

lemma next_day_starts:
  assumes "local_day zones d tz = Inr iv" and "local_day zones (next_day d) tz = Inr iv'"
  shows "iv_start iv' = iv_end iv"
  using assms by (auto simp: local_day_def add_day_Inr utc_interval_of_def split: if_splits)

lemma counts_accumulate:
  assumes ok: "check_calculation zones c = Inr u" and scope: "cal_scope c = ''current''"
    and p: "reference_day zones c d = Inr p" and q: "reference_day zones c (next_day d) = Inr q"
  shows "pd_cumulative_responses q = pd_cumulative_responses p + pd_first_responses q"
proof -
  obtain iv where iv: "local_day zones d (cal_timezone c) = Inr iv" using p by (auto simp: reference_day_def)
  obtain iv' where iv': "local_day zones (next_day d) (cal_timezone c) = Inr iv'" using q by (auto simp: reference_day_def)
  let ?A = "responded_by c (iv_end iv)" and ?B = "responded_by c (iv_end iv')"
  have sub: "?A \<subseteq> ?B" using local_day_next [OF iv iv'] by (force simp: responded_by_def)
  have "finite (cal_current c)" using check_calculationD(6) [OF ok] by (auto simp: within_cutoff_def Let_def intro: finite_subset)
  then have fin: "finite ?A" "finite ?B" by (simp_all add: responded_by_def)
  have "card ?B = card ?A + card (?B - ?A)" using fin sub by (metis card_Diff_subset card_mono le_add_diff_inverse)
  then show ?thesis using current_counts [OF ok scope iv p] current_counts [OF ok scope iv' q] next_day_starts [OF iv iv'] by simp
qed

lemma consecutive_nth: "consecutive ds \<Longrightarrow> Suc i < length ds \<Longrightarrow> ds ! Suc i = next_day (ds ! i)"
proof (induction ds arbitrary: i rule: consecutive.induct)
  case (1 d e ds)
  then show ?case by (cases i) auto
qed auto


section \<open>An example\<close>

definition example_calculation :: calculation where
  "example_calculation =
     \<lparr>cal_scope = ''current'', cal_start = Date 2026 3 1, cal_end = Date 2026 3 9, cal_through = Date 2026 3 2, cal_timezone = ''UTC'', cal_financial = True,
      cal_source = \<lparr>pm_generation = 2, pm_promoted_at = 50\<rparr>, cal_watermark = 9,
      cal_promotions = [\<lparr>pm_generation = 1, pm_promoted_at = 10\<rparr>, \<lparr>pm_generation = 2, pm_promoted_at = 50\<rparr>],
      cal_families = [\<lparr>cf_family_id = 1, cf_first_eligible_at = 10, cf_first_generation = 1\<rparr>, \<lparr>cf_family_id = 2, cf_first_eligible_at = 10, cf_first_generation = 1\<rparr>],
      cal_current = set [1, 2],
      cal_responses =
        [\<lparr>lr_family_id = 1, lr_sequence = 1, lr_submitted_at = combine (Date 2026 3 1) 100, lr_pledge = MoneyAmount (Some 5000)\<rparr>,
         \<lparr>lr_family_id = 1, lr_sequence = 3, lr_submitted_at = combine (Date 2026 3 2) 300, lr_pledge = MoneyAmount (Some 7000)\<rparr>,
         \<lparr>lr_family_id = 2, lr_sequence = 2, lr_submitted_at = combine (Date 2026 3 2) 200, lr_pledge = MoneyAmount (Some 2000)\<rparr>]\<rparr>"

definition example_zones :: "string \<Rightarrow> zone_info option" where
  "example_zones name = (if name = ''UTC'' then Some \<lparr>to_wall = (\<lambda>t. t), from_wall = (\<lambda>_ t. t), wall_date = (\<lambda>_. Date 2026 3 1)\<rparr> else None)"


end
