(* ===== verification/Giving.thy ===== *)
theory Giving
  imports Canonical_Facts Financial Intervals
begin

text \<open>
  \<open>stewardship/source/giving.py\<close>: reading the pledges and contributions of the selected periods and funds, with \<open>_id\<close>,
  \<open>_date\<close> and \<open>_put\<close> of \<open>source/corpus.py\<close>. A row is the items of a JSON record, or \<open>None\<close> when it is none; a \<open>datetime\<close> is its day.
  \<open>pages\<close> stands for the paginated reads of the client and \<open>iso_day\<close> for the date of an ISO time. What
  \<open>_put\<close> stores is the entry itself: its four short texts are their own canonical form. Theorem \<open>giving_exact\<close> says that the result
  is exactly what was read.
\<close>

section \<open>Values\<close>

type_synonym giving_row = "(string \<times> field_value) list option"

definition invalid_source :: "string \<Rightarrow> exn" where
  "invalid_source msg = ValueError msg"

definition field :: "(string \<times> field_value) list \<Rightarrow> string \<Rightarrow> field_value" where
  "field row k = (case map_of row k of None \<Rightarrow> VNone | Some v \<Rightarrow> v)"

definition source_id :: "field_value \<Rightarrow> int res" where
  "source_id v =
     (case v of VInt i \<Rightarrow> if 1 \<le> i \<and> i < 2 ^ 31 then Inr i else Inl (invalid_source ''Source identity is invalid.'')
      | _ \<Rightarrow> Inl (invalid_source ''Source identity is invalid.''))"

definition civil_date :: "(string \<Rightarrow> date option) \<Rightarrow> field_value \<Rightarrow> date option res" where
  "civil_date iso_day v =
     (let bad = Inl (invalid_source ''Source civil date is invalid.'')
      in case v of
        VNone \<Rightarrow> Inr None
      | VDate d \<Rightarrow> Inr (Some d)
      | VStr s \<Rightarrow>
          if s = [] then Inr None
          else if length s \<le> 40 then (case iso_day s of Some d \<Rightarrow> Inr (Some d) | None \<Rightarrow> bad)
          else bad
      | _ \<Rightarrow> bad)"

text \<open>The exact cents of a decimal number, when it has no fraction of a cent.\<close>

definition exact_cents :: "bool \<Rightarrow> nat \<Rightarrow> int \<Rightarrow> int option" where
  "exact_cents neg coefficient e =
     (let signed = (\<lambda>n. if neg then - int n else int n)
      in if - 2 \<le> e then Some (signed (coefficient * 10 ^ nat (e + 2)))
         else if coefficient mod 10 ^ nat (- e - 2) = 0 then Some (signed (coefficient div 10 ^ nat (- e - 2)))
         else None)"

definition decimal_amount :: "bool \<Rightarrow> nat \<Rightarrow> int \<Rightarrow> string res" where
  "decimal_amount neg coefficient e =
     (if coefficient * 10 ^ nat e \<ge> 10 ^ (20 + nat (- e)) then Inl (invalid_source ''Source giving amount is out of range.'')
      else case exact_cents neg coefficient e of
        None \<Rightarrow> Inl (invalid_source ''Source giving amount has fractional cents.'')
      | Some c \<Rightarrow> Inr (cents_text c))"

definition giving_amount :: "field_value \<Rightarrow> string res" where
  "giving_amount v =
     (case v of
        VDecimal (Dec neg coefficient e) \<Rightarrow> decimal_amount neg coefficient e
      | VDecimal Dec_special \<Rightarrow> Inl (invalid_source ''Source giving amount is out of range.'')
      | VInt i \<Rightarrow> decimal_amount (i < 0) (nat \<bar>i\<bar>) 0
      | _ \<Rightarrow> Inl (invalid_source ''Source giving amount is not an exact number.''))"

section \<open>Periods\<close>

record giving_period =
  gp_start :: date
  gp_end :: date
  gp_funds :: "int list"

record refresh_window =
  rw_campaign :: "string option"
  rw_periods :: "giving_period list"
  rw_families :: "(string \<times> field_value) list option"

definition period_ok :: "giving_period \<Rightarrow> bool" where
  "period_ok p \<longleftrightarrow>
     gp_start p < gp_end p \<and> year (gp_start p) \<noteq> 9999 \<and> financial_period_end (gp_start p) = Inr (gp_end p) \<and>
     1 \<le> length (gp_funds p) \<and> length (gp_funds p) \<le> 1000 \<and> list_all (\<lambda>k. 1 \<le> k \<and> k < 2 ^ 31) (gp_funds p) \<and>
     sorted_list_of_set (set (gp_funds p)) = gp_funds p"

definition giving_periods :: "refresh_window \<Rightarrow> giving_period list res" where
  "giving_periods w =
     (if length (rw_periods w) > 2 \<or> rw_periods w \<noteq> [] \<and> rw_campaign w = None
      then Inl (invalid_source ''Source giving requires the current campaign.'')
      else if \<not> list_all period_ok (rw_periods w) then Inl (invalid_source ''Source giving period or funds are invalid.'')
      else Inr (rw_periods w))"

section \<open>Rows\<close>

datatype giving_kind = Pledge | Contribution

record source_corpus =
  sc_family :: "string list"
  sc_member :: "(string \<times> string) list"
  sc_fund :: "string list"

definition owner_id :: "field_value \<Rightarrow> int option res" where
  "owner_id v =
     (case v of
        VNone \<Rightarrow> Inr None
      | VInt i \<Rightarrow> if i < 0 then Inl (invalid_source ''Source giving ownership is invalid.'') else Inr (Some i)
      | _ \<Rightarrow> Inl (invalid_source ''Source giving ownership is invalid.''))"

definition member_owner :: "source_corpus \<Rightarrow> int option \<Rightarrow> string option res" where
  "member_owner corpus m =
     (case m of
        None \<Rightarrow> Inr None
      | Some i \<Rightarrow>
          if i = 0 then Inr None
          else bind_res (source_id (VInt i)) (\<lambda>k.
            case map_of (sc_member corpus) (show_int k) of
              None \<Rightarrow> Inl (OtherException ''Source giving has no retained Member.'')
            | Some f \<Rightarrow> Inr (Some f)))"

definition giving_family :: "source_corpus \<Rightarrow> giving_kind \<Rightarrow> (string \<times> field_value) list \<Rightarrow> string option res" where
  "giving_family corpus kind row =
     bind_res (owner_id (field row (if kind = Pledge then ''familyID'' else ''familyId''))) (\<lambda>family.
     bind_res (owner_id (field row (if kind = Pledge then ''memberID'' else ''memberId''))) (\<lambda>member.
     bind_res (member_owner corpus member) (\<lambda>member_family.
       case family of
         None \<Rightarrow> Inr member_family
       | Some i \<Rightarrow>
           if i = 0 then Inr member_family
           else bind_res (source_id (VInt i)) (\<lambda>k.
             if show_int k \<notin> set (sc_family corpus) then Inl (OtherException ''Source giving has no retained Family.'')
             else if member_family \<noteq> None \<and> member_family \<noteq> Some (show_int k)
             then Inl (invalid_source ''Source giving Family and Member disagree.'')
             else Inr (Some (show_int k))))))"

definition giving_record :: "(string \<Rightarrow> date option) \<Rightarrow> giving_kind \<Rightarrow> int \<Rightarrow> int \<Rightarrow> giving_row \<Rightarrow> (int \<times> date) res" where
  "giving_record iso_day kind fund organization row =
     (case row of
        None \<Rightarrow> Inl (invalid_source ''Source giving entry is not a record.'')
      | Some r \<Rightarrow>
          bind_res (source_id (field r (if kind = Pledge then ''pledgeID'' else ''contributionID''))) (\<lambda>identifier.
          bind_res (source_id (field r (if kind = Pledge then ''organizationID'' else ''organizationId''))) (\<lambda>org.
            if org \<noteq> organization then Inl (invalid_source ''Source giving does not match its tenant/fund query.'')
            else bind_res (source_id (field r (if kind = Pledge then ''fundID'' else ''fundId''))) (\<lambda>f.
              if f \<noteq> fund then Inl (invalid_source ''Source giving does not match its tenant/fund query.'')
              else bind_res (civil_date iso_day (field r (if kind = Pledge then ''pledgeStartDate'' else ''contributionDate''))) (\<lambda>day.
                case day of
                  None \<Rightarrow> Inl (invalid_source ''Source giving effective date is unavailable.'')
                | Some d \<Rightarrow> Inr (identifier, d))))))"

record giving_entry =
  ge_family_key :: "string option"
  ge_fund_key :: string
  ge_amount :: string
  ge_effective_date :: string

record giving_query =
  gq_kind :: giving_kind
  gq_fund :: int
  gq_interval :: "(date \<times> date) option"

record giving_env =
  gv_iso_day :: "string \<Rightarrow> date option"
  gv_corpus :: source_corpus
  gv_organization :: int
  gv_periods :: "giving_period list"

definition selected_periods :: "giving_env \<Rightarrow> int \<Rightarrow> giving_period list" where
  "selected_periods env fund = filter (\<lambda>p. fund \<in> set (gp_funds p)) (gv_periods env)"

text \<open>A row of a query: out of period, or its identity and entry.\<close>

definition read_row :: "giving_env \<Rightarrow> giving_query \<Rightarrow> giving_row \<Rightarrow> (int \<times> giving_entry) option res" where
  "read_row env q row =
     bind_res (giving_record (gv_iso_day env) (gq_kind q) (gq_fund q) (gv_organization env) row) (\<lambda>(identifier, day).
       if (case gq_interval q of None \<Rightarrow> False | Some (s, e) \<Rightarrow> \<not> (s \<le> day \<and> day \<le> e))
       then Inl (invalid_source ''Source contribution ignores its date query.'')
       else if \<not> list_ex (\<lambda>p. gp_start p \<le> day \<and> day \<le> gp_end p) (selected_periods env (gq_fund q)) then Inr None
       else bind_res (giving_amount (field (the row) (if gq_kind q = Pledge then ''currentPledgeAmount'' else ''contributionAmount''))) (\<lambda>amount.
            bind_res (giving_family (gv_corpus env) (gq_kind q) (the row)) (\<lambda>family.
              Inr (Some (identifier, \<lparr>ge_family_key = family, ge_fund_key = show_int (gq_fund q), ge_amount = amount, ge_effective_date = isoformat day\<rparr>)))))"

section \<open>Collecting\<close>

record giving_collection =
  gc_seen :: "(int \<times> giving_entry) list"
  gc_result :: "(string \<times> giving_entry) list"
  gc_anonymous :: "int set"

definition put_entry :: "string \<Rightarrow> giving_entry \<Rightarrow> giving_collection \<Rightarrow> giving_collection res" where
  "put_entry k e c =
     (if k \<in> set (map fst (gc_result c)) then Inl (invalid_source ''Source collection repeats a normalized identity.'')
      else Inr (c\<lparr>gc_result := gc_result c @ [(k, e)]\<rparr>))"

definition collect :: "giving_collection \<Rightarrow> int \<times> giving_entry \<Rightarrow> giving_collection res" where
  "collect c x =
     (case x of (identifier, e) \<Rightarrow>
        (case map_of (gc_seen c) identifier of
           Some previous \<Rightarrow> if previous \<noteq> e then Inl (OtherException ''Source giving changed during the load.'') else Inr c
         | None \<Rightarrow>
             (let c' = c\<lparr>gc_seen := (identifier, e) # gc_seen c\<rparr>
              in if ge_family_key e = None then Inr (c'\<lparr>gc_anonymous := insert identifier (gc_anonymous c)\<rparr>)
                 else put_entry (show_int identifier) e c')))"

type_synonym giving_state = "giving_kind \<Rightarrow> giving_collection"

definition add_giving :: "giving_env \<Rightarrow> giving_query \<Rightarrow> giving_state \<Rightarrow> giving_row \<Rightarrow> giving_state res" where
  "add_giving env q st row =
     bind_res (read_row env q row) (\<lambda>x.
       case x of None \<Rightarrow> Inr st | Some y \<Rightarrow> bind_res (collect (st (gq_kind q)) y) (\<lambda>c. Inr (st(gq_kind q := c))))"

definition query_endpoint :: "giving_query \<Rightarrow> string" where
  "query_endpoint q = (if gq_kind q = Pledge then ''offering/pledge/list'' else ''offering/contributiondetail/list'')"

definition query_parameters :: "int \<Rightarrow> giving_query \<Rightarrow> (string \<times> field_value) list" where
  "query_parameters organization q =
     [(if gq_kind q = Pledge then ''OrganizationID'' else ''OrganizationId'', VInt organization),
      (if gq_kind q = Pledge then ''FundID'' else ''FundId'', VInt (gq_fund q))] @
     (case gq_interval q of None \<Rightarrow> [] | Some (s, e) \<Rightarrow> [(''StartDate'', VStr (isoformat s)), (''EndDate'', VStr (isoformat e))])"

definition fund_queries :: "giving_env \<Rightarrow> date \<Rightarrow> int \<Rightarrow> giving_query list" where
  "fund_queries env as_of fund =
     \<lparr>gq_kind = Pledge, gq_fund = fund, gq_interval = None\<rparr> #
     map (\<lambda>p. \<lparr>gq_kind = Contribution, gq_fund = fund, gq_interval = Some (gp_start p, min (gp_end p) as_of)\<rparr>)
       (filter (\<lambda>p. gp_start p \<le> as_of) (selected_periods env fund))"

definition all_funds :: "giving_period list \<Rightarrow> int list" where
  "all_funds periods = sorted_list_of_set (set (concat (map gp_funds periods)))"

definition giving_queries :: "giving_env \<Rightarrow> date \<Rightarrow> giving_query list" where
  "giving_queries env as_of = concat (map (fund_queries env as_of) (all_funds (gv_periods env)))"

type_synonym giving_pages = "string \<Rightarrow> (string \<times> field_value) list \<Rightarrow> giving_row list res"

definition run_query :: "giving_env \<Rightarrow> giving_pages \<Rightarrow> giving_state \<Rightarrow> giving_query \<Rightarrow> giving_state res" where
  "run_query env pages st q =
     bind_res (pages (query_endpoint q) (query_parameters (gv_organization env) q)) (foldM_res (add_giving env q) st)"

record giving_result =
  gr_pledges :: "(string \<times> giving_entry) list"
  gr_contributions :: "(string \<times> giving_entry) list"
  gr_anonymous_pledges :: nat
  gr_anonymous_contributions :: nat

definition empty_collection :: giving_collection where
  "empty_collection = \<lparr>gc_seen = [], gc_result = [], gc_anonymous = {}\<rparr>"

definition giving_env_of :: "(string \<Rightarrow> date option) \<Rightarrow> source_corpus \<Rightarrow> int \<Rightarrow> giving_period list \<Rightarrow> giving_env" where
  "giving_env_of iso_day corpus organization periods =
     \<lparr>gv_iso_day = iso_day, gv_corpus = corpus, gv_organization = organization, gv_periods = periods\<rparr>"

definition load_giving :: "(string \<Rightarrow> date option) \<Rightarrow> giving_pages \<Rightarrow> source_corpus \<Rightarrow> int \<Rightarrow> refresh_window \<Rightarrow> date \<Rightarrow> giving_result res" where
  "load_giving iso_day pages corpus organization w as_of =
     bind_res (giving_periods w) (\<lambda>periods.
       let env = giving_env_of iso_day corpus organization periods
       in if list_ex (\<lambda>f. show_int f \<notin> set (sc_fund corpus)) (all_funds periods)
          then Inl (invalid_source ''A selected source giving fund is unavailable.'')
          else bind_res (foldM_res (run_query env pages) (\<lambda>_. empty_collection) (giving_queries env as_of)) (\<lambda>st.
            Inr \<lparr>gr_pledges = gc_result (st Pledge), gr_contributions = gc_result (st Contribution),
                 gr_anonymous_pledges = card (gc_anonymous (st Pledge)), gr_anonymous_contributions = card (gc_anonymous (st Contribution))\<rparr>))"

section \<open>What a load returns\<close>

text \<open>The entries of a kind that the rows of the queries show.\<close>

definition shown :: "giving_env \<Rightarrow> giving_query \<Rightarrow> giving_row list \<Rightarrow> giving_kind \<Rightarrow> (int \<times> giving_entry) set" where
  "shown env q rows kind = (if gq_kind q = kind then {x. \<exists>row\<in>set rows. read_row env q row = Inr (Some x)} else {})"

definition observed :: "giving_env \<Rightarrow> giving_pages \<Rightarrow> giving_query list \<Rightarrow> giving_kind \<Rightarrow> (int \<times> giving_entry) set" where
  "observed env pages qs kind =
     (\<Union>q\<in>set qs. case pages (query_endpoint q) (query_parameters (gv_organization env) q) of Inl _ \<Rightarrow> {} | Inr rows \<Rightarrow> shown env q rows kind)"

abbreviation owned :: "(int \<times> giving_entry) set \<Rightarrow> (string \<times> giving_entry) set" where
  "owned xs \<equiv> (\<lambda>(i, e). (show_int i, e)) ` {x \<in> xs. ge_family_key (snd x) \<noteq> None}"

abbreviation ownerless :: "(int \<times> giving_entry) set \<Rightarrow> int set" where
  "ownerless xs \<equiv> fst ` {x \<in> xs. ge_family_key (snd x) = None}"

definition collection_inv :: "(int \<times> giving_entry) set \<Rightarrow> giving_collection \<Rightarrow> bool" where
  "collection_inv xs c \<longleftrightarrow>
     set (gc_seen c) = xs \<and> distinct (map fst (gc_seen c)) \<and> set (gc_result c) = owned xs \<and> distinct (map fst (gc_result c)) \<and>
     gc_anonymous c = ownerless xs"

lemma collect_inv:
  assumes inv: "collection_inv xs c" and run: "collect c x = Inr c'"
  shows "collection_inv (insert x xs) c'"
proof (cases "map_of (gc_seen c) (fst x)")
  case (Some previous)
  then have "c' = c" "snd x = previous" using run by (auto simp: collect_def split: prod.splits if_splits)
  moreover have "x \<in> xs" using inv map_of_SomeD [OF Some] \<open>snd x = previous\<close> by (cases x) (simp add: collection_inv_def)
  ultimately show ?thesis using inv by (simp add: insert_absorb)
next
  case None
  then have new: "fst x \<notin> fst ` xs" using inv by (auto simp: collection_inv_def map_of_eq_None_iff)
  show ?thesis
  proof (cases "ge_family_key (snd x) = None")
    case True
    then have "c' = c\<lparr>gc_seen := x # gc_seen c, gc_anonymous := insert (fst x) (gc_anonymous c)\<rparr>"
      using run None by (cases x) (simp add: collect_def)
    then show ?thesis using inv new True by (auto simp: collection_inv_def insert_compr image_iff)
  next
    case False
    then have put: "put_entry (show_int (fst x)) (snd x) (c\<lparr>gc_seen := x # gc_seen c\<rparr>) = Inr c'"
      using run None by (cases x) (auto simp: collect_def Let_def split: if_splits)
    have c': "c' = c\<lparr>gc_seen := x # gc_seen c, gc_result := gc_result c @ [(show_int (fst x), snd x)]\<rparr>" "show_int (fst x) \<notin> set (map fst (gc_result c))"
      using put unfolding put_entry_def by (simp_all split: if_splits)
    have "owned (insert x xs) = insert (show_int (fst x), snd x) (owned xs)" using False by (cases x) auto
    moreover have "ownerless (insert x xs) = ownerless xs" using False by (cases x) auto
    ultimately show ?thesis using inv new c' by (auto simp: collection_inv_def)
  qed
qed

text \<open>Only an entry that disagrees with an earlier one of its identity is refused.\<close>

lemma collect_total:
  assumes inv: "collection_inv xs c" and one: "single_valued (insert x xs)"
  shows "\<exists>c'. collect c x = Inr c'"
proof (cases "map_of (gc_seen c) (fst x)")
  case (Some previous)
  then have "(fst x, previous) \<in> xs" using inv map_of_SomeD [OF Some] by (simp add: collection_inv_def)
  then have "snd x = previous" using one unfolding single_valued_def by (metis insertI1 insertI2 prod.collapse)
  then show ?thesis using Some by (cases x) (simp add: collect_def)
next
  case None
  have new: "fst x \<notin> fst ` xs" using None inv by (auto simp: collection_inv_def map_of_eq_None_iff)
  have "show_int (fst x) \<notin> fst ` owned xs" using new inj_eq [OF show_int_inj] by (auto simp: image_iff)
  then have "show_int (fst x) \<notin> set (map fst (gc_result c))" using inv by (simp add: collection_inv_def)
  then show ?thesis using None by (cases x) (auto simp: collect_def put_entry_def Let_def)
qed

lemma rows_inv:
  assumes "foldM_res (add_giving env q) st rows = Inr st'" and "\<And>k. collection_inv (seen0 k) (st k)"
  shows "collection_inv (seen0 k \<union> shown env q rows k) (st' k) \<and> (\<forall>row\<in>set rows. \<exists>x. read_row env q row = Inr x)"
  using assms
proof (induction rows arbitrary: st seen0)
  case Nil
  then show ?case by (simp add: shown_def)
next
  case (Cons row rows)
  then obtain st1 where st1: "add_giving env q st row = Inr st1" "foldM_res (add_giving env q) st1 rows = Inr st'" by auto
  then obtain x where x: "read_row env q row = Inr x" by (auto simp: add_giving_def)
  let ?new = "\<lambda>k. seen0 k \<union> (case x of None \<Rightarrow> {} | Some y \<Rightarrow> if gq_kind q = k then {y} else {})"
  have "collection_inv (?new k) (st1 k)" for k
    using st1(1) x Cons.prems(2) [of k] collect_inv by (auto simp: add_giving_def split: option.splits)
  note IH = Cons.IH [OF st1(2) this]
  have "?new k \<union> shown env q rows k = seen0 k \<union> shown env q (row # rows) k" using x by (auto simp: shown_def split: option.splits)
  then show ?case using IH x by auto
qed

lemma rows_total:
  assumes "\<And>k. collection_inv (seen0 k) (st k)" and "\<forall>row\<in>set rows. \<exists>x. read_row env q row = Inr x"
    and "\<And>k. single_valued (seen0 k \<union> shown env q rows k)"
  shows "\<exists>st'. foldM_res (add_giving env q) st rows = Inr st'"
  using assms
proof (induction rows arbitrary: st seen0)
  case Nil
  then show ?case by simp
next
  case (Cons row rows)
  then obtain x where x: "read_row env q row = Inr x" by auto
  let ?new = "\<lambda>k. seen0 k \<union> shown env q [row] k"
  have all: "?new k \<union> shown env q rows k = seen0 k \<union> shown env q (row # rows) k" for k by (auto simp: shown_def)
  obtain st1 where st1: "add_giving env q st row = Inr st1"
  proof (cases x)
    case None
    then show ?thesis using x that by (simp add: add_giving_def)
  next
    case (Some y)
    have "insert y (seen0 (gq_kind q)) \<subseteq> seen0 (gq_kind q) \<union> shown env q (row # rows) (gq_kind q)" using x Some by (auto simp: shown_def)
    then have "single_valued (insert y (seen0 (gq_kind q)))" using Cons.prems(3) by (rule single_valued_subset)
    then obtain c where "collect (st (gq_kind q)) y = Inr c" using collect_total [OF Cons.prems(1)] by blast
    then show ?thesis using x Some that by (simp add: add_giving_def)
  qed
  have "collection_inv (?new k) (st1 k)" for k using rows_inv [of env q st "[row]" st1 seen0 k] st1 Cons.prems(1) by simp
  moreover have "single_valued (?new k \<union> shown env q rows k)" for k using Cons.prems(3) [of k] unfolding all by simp
  ultimately have "\<exists>st'. foldM_res (add_giving env q) st1 rows = Inr st'" using Cons.IH [of ?new st1] Cons.prems(2) by simp
  then show ?case using st1 by simp
qed

lemma queries_inv:
  assumes "foldM_res (run_query env pages) st qs = Inr st'" and "\<And>k. collection_inv (seen0 k) (st k)"
  shows "collection_inv (seen0 k \<union> observed env pages qs k) (st' k) \<and>
    (\<forall>q\<in>set qs. \<exists>rows. pages (query_endpoint q) (query_parameters (gv_organization env) q) = Inr rows \<and> (\<forall>row\<in>set rows. \<exists>x. read_row env q row = Inr x))"
  using assms
proof (induction qs arbitrary: st seen0)
  case Nil
  then show ?case by (simp add: observed_def)
next
  case (Cons q qs)
  then obtain st1 where run: "run_query env pages st q = Inr st1" "foldM_res (run_query env pages) st1 qs = Inr st'" by auto
  then obtain rows where st1: "pages (query_endpoint q) (query_parameters (gv_organization env) q) = Inr rows"
      "foldM_res (add_giving env q) st rows = Inr st1" "foldM_res (run_query env pages) st1 qs = Inr st'"
    unfolding run_query_def [of env pages st q] by auto
  have "collection_inv (seen0 k \<union> shown env q rows k) (st1 k)" for k using rows_inv [OF st1(2) Cons.prems(2)] by blast
  note IH = Cons.IH [OF st1(3) this]
  have "seen0 k \<union> observed env pages (q # qs) k = seen0 k \<union> shown env q rows k \<union> observed env pages qs k" by (auto simp: observed_def st1(1))
  then show ?case using IH st1(1) rows_inv [OF st1(2) Cons.prems(2)] by auto
qed

lemma queries_total:
  assumes "\<And>k. collection_inv (seen0 k) (st k)" and "\<And>k. single_valued (seen0 k \<union> observed env pages qs k)"
    and "\<forall>q\<in>set qs. \<exists>rows. pages (query_endpoint q) (query_parameters (gv_organization env) q) = Inr rows \<and> (\<forall>row\<in>set rows. \<exists>x. read_row env q row = Inr x)"
  shows "\<exists>st'. foldM_res (run_query env pages) st qs = Inr st'"
  using assms
proof (induction qs arbitrary: st seen0)
  case Nil
  then show ?case by simp
next
  case (Cons q qs)
  then obtain rows where rows: "pages (query_endpoint q) (query_parameters (gv_organization env) q) = Inr rows" "\<forall>row\<in>set rows. \<exists>x. read_row env q row = Inr x"
    by auto
  let ?new = "\<lambda>k. seen0 k \<union> shown env q rows k"
  have all: "seen0 k \<union> observed env pages (q # qs) k = ?new k \<union> observed env pages qs k" for k by (auto simp: observed_def rows(1))
  have one: "single_valued (?new k \<union> observed env pages qs k)" for k using Cons.prems(2) [of k] unfolding all .
  have "single_valued (?new k)" for k by (rule single_valued_subset [OF _ one]) auto
  then obtain st1 where st1: "foldM_res (add_giving env q) st rows = Inr st1" using rows_total [of seen0 st rows env q] Cons.prems(1) rows(2) by blast
  have "collection_inv (?new k) (st1 k)" for k using rows_inv [OF st1 Cons.prems(1)] by blast
  then have "\<exists>st'. foldM_res (run_query env pages) st1 qs = Inr st'" using Cons.IH [of ?new st1] one Cons.prems(3) by simp
  then show ?case using st1 rows(1) by (simp add: run_query_def [of env pages st q])
qed

text \<open>The value of a decimal number, and that its cents are exact.\<close>

definition decimal_value :: "bool \<Rightarrow> nat \<Rightarrow> int \<Rightarrow> real" where
  "decimal_value neg coefficient e = (if neg then - 1 else 1) * of_nat coefficient * (10 powi e)"

lemma exact_cents_value:
  assumes "exact_cents neg coefficient e = Some c"
  shows "of_int c = 100 * decimal_value neg coefficient e"
proof (cases "- 2 \<le> e")
  case True
  have "(10 :: real) ^ nat (e + 2) = 10 powi (e + 2)" using True by (simp add: power_int_def)
  also have "\<dots> = 10 powi e * 100" by (simp add: power_int_add)
  finally show ?thesis using assms True by (auto simp: exact_cents_def decimal_value_def)
next
  case False
  define k where "k = nat (- e - 2)"
  have e: "e = - int k - 2" using False by (simp add: k_def)
  obtain m where m: "coefficient = m * 10 ^ k" "c = (if neg then - int m else int m)"
    using assms False by (auto simp: exact_cents_def k_def [symmetric] mult.commute split: if_splits elim!: dvdE simp: mod_eq_0_iff_dvd)
  have "(10 :: real) ^ k * 10 powi (- int k - 2) = 1 / 100" by (simp add: power_int_diff power_int_minus)
  then show ?thesis using m e by (auto simp: decimal_value_def)
qed

definition amount_value :: "field_value \<Rightarrow> real option" where
  "amount_value v =
     (case v of VInt i \<Rightarrow> Some (of_int i) | VDecimal (Dec neg coefficient e) \<Rightarrow> Some (decimal_value neg coefficient e) | _ \<Rightarrow> None)"

lemma giving_amount_exact:
  assumes "giving_amount v = Inr a"
  shows "\<exists>c x. a = cents_text c \<and> amount_value v = Some x \<and> of_int c = 100 * x"
proof -
  have d: "\<exists>c. a = cents_text c \<and> of_int c = 100 * decimal_value neg coefficient e" if "decimal_amount neg coefficient e = Inr a" for neg coefficient e
    using that exact_cents_value by (fastforce simp: decimal_amount_def split: if_splits option.splits)
  have i: "decimal_value (i < 0) (nat \<bar>i\<bar>) 0 = of_int i" for i by (simp add: decimal_value_def)
  show ?thesis
  proof (cases v)
    case (VInt i)
    then show ?thesis using assms d [of "i < 0" "nat \<bar>i\<bar>" 0] i by (auto simp: giving_amount_def amount_value_def)
  next
    case (VDecimal x)
    then show ?thesis using assms d by (cases x) (fastforce simp: giving_amount_def amount_value_def)+
  qed (use assms in \<open>simp_all add: giving_amount_def\<close>)
qed

text \<open>An entry belongs to a selected fund and period, and its amount is the one of its row.\<close>

definition in_scope :: "giving_env \<Rightarrow> giving_query \<Rightarrow> (string \<times> field_value) list \<Rightarrow> giving_entry \<Rightarrow> bool" where
  "in_scope env q row e \<longleftrightarrow>
     (\<exists>p\<in>set (gv_periods env). \<exists>d c x. gq_fund q \<in> set (gp_funds p) \<and> ge_fund_key e = show_int (gq_fund q) \<and> gp_start p \<le> d \<and> d \<le> gp_end p \<and>
        ge_effective_date e = isoformat d \<and> ge_amount e = cents_text c \<and> of_int c = 100 * x \<and>
        amount_value (field row (if gq_kind q = Pledge then ''currentPledgeAmount'' else ''contributionAmount'')) = Some x)"

lemma read_row_scope:
  assumes "read_row env q row = Inr (Some (i, e))"
  shows "\<exists>r. row = Some r \<and> in_scope env q r e"
proof -
  obtain d a where d: "giving_record (gv_iso_day env) (gq_kind q) (gq_fund q) (gv_organization env) row = Inr (i, d)"
      "list_ex (\<lambda>p. gp_start p \<le> d \<and> d \<le> gp_end p) (selected_periods env (gq_fund q))"
      "giving_amount (field (the row) (if gq_kind q = Pledge then ''currentPledgeAmount'' else ''contributionAmount'')) = Inr a"
      "ge_fund_key e = show_int (gq_fund q)" "ge_amount e = a" "ge_effective_date e = isoformat d"
    using assms unfolding read_row_def by (auto split: if_splits)
  obtain r where r: "row = Some r" using d(1) by (cases row) (auto simp: giving_record_def)
  obtain p where p: "p \<in> set (gv_periods env)" "gq_fund q \<in> set (gp_funds p)" "gp_start p \<le> d" "d \<le> gp_end p"
    using d(2) by (auto simp: list_ex_iff selected_periods_def)
  obtain c x where c: "a = cents_text c" "of_int c = 100 * x"
      "amount_value (field r (if gq_kind q = Pledge then ''currentPledgeAmount'' else ''contributionAmount'')) = Some x"
    using giving_amount_exact [OF d(3)] r by auto
  have "in_scope env q r e"
    unfolding in_scope_def by (rule bexI [of _ p], rule exI [of _ d], rule exI [of _ c], rule exI [of _ x]) (use c d(4-6) p in \<open>simp_all only: simp_thms\<close>)
  then show ?thesis using r by simp
qed

text \<open>The queries are answered, every row is understood, and rows that repeat an identity agree.\<close>

definition giving_coherent :: "giving_env \<Rightarrow> giving_pages \<Rightarrow> giving_query list \<Rightarrow> bool" where
  "giving_coherent env pages qs \<longleftrightarrow>
     (\<forall>q\<in>set qs. \<exists>rows. pages (query_endpoint q) (query_parameters (gv_organization env) q) = Inr rows \<and> (\<forall>row\<in>set rows. \<exists>x. read_row env q row = Inr x)) \<and>
     (\<forall>k. single_valued (observed env pages qs k))"

lemma load_coherent:
  assumes "\<And>k. collection_inv {} (st k)"
  shows "(\<exists>st'. foldM_res (run_query env pages) st qs = Inr st') \<longleftrightarrow> giving_coherent env pages qs"
proof
  assume "\<exists>st'. foldM_res (run_query env pages) st qs = Inr st'"
  then obtain st' where st': "foldM_res (run_query env pages) st qs = Inr st'" by blast
  note all = queries_inv [of env pages st qs st' "\<lambda>_. {}", OF st' assms]
  have "single_valued (observed env pages qs k)" for k
  proof -
    have "set (gc_seen (st' k)) = observed env pages qs k" "distinct (map fst (gc_seen (st' k)))" using all [of k] by (simp_all add: collection_inv_def)
    then show ?thesis unfolding single_valued_def by (metis eq_key_imp_eq_value)
  qed
  then show "giving_coherent env pages qs" using all unfolding giving_coherent_def by blast
next
  assume "giving_coherent env pages qs"
  then show "\<exists>st'. foldM_res (run_query env pages) st qs = Inr st'"
    using queries_total [of "\<lambda>_. {}" st env pages qs] assms unfolding giving_coherent_def by simp
qed

text \<open>
  C25: a load of the giving succeeds exactly when the periods are valid, their funds known, every query is answered, every row understood,
  and rows that repeat an identity agree. Then each identity is stored once, and stored are exactly the entries of the rows that fall
  into a selected period of their fund and have a Family; the others in a period are counted as anonymous, each once. The amount of
  an entry is the exact number of cents of its row.
\<close>

theorem giving_exact:
  assumes env_def: "env = giving_env_of iso_day corpus organization (rw_periods w)" and qs_def: "qs = giving_queries env as_of"
  shows "((\<exists>r. load_giving iso_day pages corpus organization w as_of = Inr r) \<longleftrightarrow>
       giving_periods w = Inr (rw_periods w) \<and> (\<forall>f\<in>set (all_funds (rw_periods w)). show_int f \<in> set (sc_fund corpus)) \<and> giving_coherent env pages qs) \<and>
    (\<forall>r. load_giving iso_day pages corpus organization w as_of = Inr r \<longrightarrow>
       distinct (map fst (gr_pledges r)) \<and> set (gr_pledges r) = owned (observed env pages qs Pledge) \<and>
       distinct (map fst (gr_contributions r)) \<and> set (gr_contributions r) = owned (observed env pages qs Contribution) \<and>
       gr_anonymous_pledges r = card (ownerless (observed env pages qs Pledge)) \<and>
       gr_anonymous_contributions r = card (ownerless (observed env pages qs Contribution))) \<and>
    (\<forall>q row i e. read_row env q row = Inr (Some (i, e)) \<longrightarrow> in_scope env q (the row) e)"
proof -
  let ?init = "\<lambda>_ :: giving_kind. empty_collection"
  let ?result = "\<lambda>st. \<lparr>gr_pledges = gc_result (st Pledge), gr_contributions = gc_result (st Contribution),
    gr_anonymous_pledges = card (gc_anonymous (st Pledge)), gr_anonymous_contributions = card (gc_anonymous (st Contribution))\<rparr>"
  have init: "collection_inv {} (?init k)" for k by (simp add: collection_inv_def empty_collection_def)
  have load: "load_giving iso_day pages corpus organization w as_of = Inr r \<longleftrightarrow>
      giving_periods w = Inr (rw_periods w) \<and> (\<forall>f\<in>set (all_funds (rw_periods w)). show_int f \<in> set (sc_fund corpus)) \<and>
      (\<exists>st. foldM_res (run_query env pages) ?init qs = Inr st \<and> r = ?result st)" for r
  proof (cases "giving_periods w")
    case (Inl e)
    then show ?thesis by (simp add: load_giving_def)
  next
    case (Inr ps)
    then have ps: "giving_periods w = Inr (rw_periods w)" by (auto simp: giving_periods_def split: if_splits)
    have "load_giving iso_day pages corpus organization w as_of =
        (if list_ex (\<lambda>f. show_int f \<notin> set (sc_fund corpus)) (all_funds (rw_periods w)) then Inl (invalid_source ''A selected source giving fund is unavailable.'')
         else bind_res (foldM_res (run_query env pages) ?init qs) (\<lambda>st. Inr (?result st)))"
      unfolding load_giving_def ps bind_res_Inr Let_def env_def qs_def by (rule refl)
    then show ?thesis using ps by (auto simp: list_ex_iff)
  qed
  have one: "(\<exists>r. load_giving iso_day pages corpus organization w as_of = Inr r) \<longleftrightarrow>
       giving_periods w = Inr (rw_periods w) \<and> (\<forall>f\<in>set (all_funds (rw_periods w)). show_int f \<in> set (sc_fund corpus)) \<and> giving_coherent env pages qs"
    unfolding load load_coherent [OF init, symmetric] by blast
  have inv: "collection_inv (observed env pages qs k) (st k)" if "foldM_res (run_query env pages) ?init qs = Inr st" for st k
    using queries_inv [of env pages ?init qs st "\<lambda>_. {}" k, OF that init] by simp
  have two: "distinct (map fst (gr_pledges r)) \<and> set (gr_pledges r) = owned (observed env pages qs Pledge) \<and>
       distinct (map fst (gr_contributions r)) \<and> set (gr_contributions r) = owned (observed env pages qs Contribution) \<and>
       gr_anonymous_pledges r = card (ownerless (observed env pages qs Pledge)) \<and>
       gr_anonymous_contributions r = card (ownerless (observed env pages qs Contribution))"
    if got: "load_giving iso_day pages corpus organization w as_of = Inr r" for r
  proof -
    obtain st where st: "foldM_res (run_query env pages) ?init qs = Inr st" "r = ?result st" using got unfolding load by blast
    show ?thesis using inv [OF st(1), of Pledge] inv [OF st(1), of Contribution] by (simp add: st(2) collection_inv_def)
  qed
  have three: "\<forall>q row i e. read_row env q row = Inr (Some (i, e)) \<longrightarrow> in_scope env q (the row) e"
  proof (intro allI impI)
    fix q row i e
    assume "read_row env q row = Inr (Some (i, e))"
    then obtain r where "row = Some r" "in_scope env q r e" using read_row_scope by blast
    then show "in_scope env q (the row) e" by simp
  qed
  show ?thesis by (rule conjI [OF one conjI [OF allI [OF impI [OF two]] three]])
qed

text \<open>Two pledges to a fund, one of them for an earlier year, and no contributions.\<close>

definition example_pledge :: "int \<Rightarrow> date \<Rightarrow> field_value \<Rightarrow> giving_row" where
  "example_pledge i d amount =
     Some [(''pledgeID'', VInt i), (''organizationID'', VInt 5), (''fundID'', VInt 7), (''pledgeStartDate'', VDate d), (''currentPledgeAmount'', amount),
       (''familyID'', VInt 3)]"

definition example_pages :: giving_pages where
  "example_pages endpoint params =
     Inr (if endpoint = ''offering/pledge/list'' then [example_pledge 11 (Date 2026 2 1) (VDecimal (Dec False 25 (- 1))), example_pledge 12 (Date 2024 2 1) VOther]
          else [])"

definition example_window :: refresh_window where
  "example_window = \<lparr>rw_campaign = Some ''c'', rw_periods = [\<lparr>gp_start = Date 2026 1 1, gp_end = Date 2026 12 31, gp_funds = [7]\<rparr>], rw_families = None\<rparr>"

definition example_corpus :: source_corpus where
  "example_corpus = \<lparr>sc_family = [''3''], sc_member = [], sc_fund = [''7'']\<rparr>"

lemma example_texts: "show_int 3 = ''3''" "show_int 7 = ''7''" "show_int 11 = ''11''" "isoformat (Date 2026 2 1) = ''2026-02-01''" "cents_text 250 = ''2.50''"
  by code_simp+

lemma example_amount: "giving_amount (VDecimal (Dec False 25 (- 1))) = Inr ''2.50''"
  by (simp add: giving_amount_def decimal_amount_def exact_cents_def example_texts)

lemma example_periods: "giving_periods example_window = Inr (rw_periods example_window)" "all_funds (rw_periods example_window) = [7]"
  by (simp_all add: giving_periods_def example_window_def period_ok_def financial_period_end_def valid_date_def days_in_month_def prev_day_def less_date_def
      all_funds_def)

theorem giving_exact_witness:
  "set [(''11'', \<lparr>ge_family_key = Some ''3'', ge_fund_key = ''7'', ge_amount = ''2.50'', ge_effective_date = ''2026-02-01''\<rparr>)] =
     owned (observed (giving_env_of (\<lambda>_. None) example_corpus 5 (rw_periods example_window)) example_pages
       (giving_queries (giving_env_of (\<lambda>_. None) example_corpus 5 (rw_periods example_window)) (Date 2026 6 1)) Pledge)"
proof -
  have "load_giving (\<lambda>_. None) example_pages example_corpus 5 example_window (Date 2026 6 1) =
     Inr \<lparr>gr_pledges = [(''11'', \<lparr>ge_family_key = Some ''3'', ge_fund_key = ''7'', ge_amount = ''2.50'', ge_effective_date = ''2026-02-01''\<rparr>)],
          gr_contributions = [], gr_anonymous_pledges = 0, gr_anonymous_contributions = 0\<rparr>"
    unfolding load_giving_def example_periods bind_res_Inr Let_def giving_queries_def
    by (simp add: example_periods [unfolded example_window_def, simplified] example_texts example_amount giving_env_of_def example_corpus_def fund_queries_def
        selected_periods_def example_window_def less_eq_date_def run_query_def example_pages_def query_endpoint_def example_pledge_def add_giving_def
        read_row_def giving_record_def source_id_def field_def civil_date_def giving_family_def owner_id_def member_owner_def collect_def put_entry_def
        empty_collection_def)
  then show ?thesis using giving_exact [OF refl refl, of "\<lambda>_. None" example_pages example_corpus 5 example_window "Date 2026 6 1"] by fastforce
qed

end
