(* ===== verification/Spec2Isabelle.thy ===== *)
theory Spec2Isabelle
  imports GGroup_Facts GGroup_Email CC_Safety CC_Report_Facts Cron_Facts Cron_Run_Facts Calendar_Facts
    PS_Rules_Facts Recurrence_Facts Schedule_Facts Lifecycle Source_Safety PS_Client_Facts
    Merge Comparison_Facts Refresh_Slots Preview_Facts Recovery_Facts Authority_Safety
    Readiness Incidents Delivery Load_Progress Pledge_Facts Sealing_Facts Credentials_Facts
    Participation_Facts Giving
begin

text \<open>
  \<^bold>\<open>A verification library for ParishKit.\<close>

  ParishKit (\<open>src/src/parishkit\<close>) is a collection of tools for a parish office. They read the
  parish records from ParishSoft and bring other services in line with them: Google Groups,
  Constant Contact mailing lists, room calendars. A runner starts the tools from cron. A web
  application, stewardship, runs pledge campaigns with scheduled mailings.

  \<^bold>\<open>How the parts interact.\<close> A tool parses its YAML file with the helpers of \<open>config.py\<close>, loads
  one snapshot of ParishSoft (\<open>parishsoft.py\<close>), reads the state of its service through a client
  (\<open>google/*.py\<close>, \<open>constant_contact.py\<close>) whose requests go through \<open>retry.py\<close>, computes
  actions, checks its safety guards, applies the actions and sends notification e-mails.
  Every tool is modelled the same way: pure definitions for the decisions, and a service as a record
  of actions on a world of type \<open>'w\<close>, threaded through the run. Every exception of the source is a value
  of \<open>exn\<close>, every raising function returns \<open>exn + 'a\<close>.

  \<^bold>\<open>Theories.\<close>
  \<^item> \<open>Prelude\<close>: exceptions, results, insertion-ordered dictionaries, Python's string methods.
    \<open>Interfaces\<close>: the contracts several components share as locales (a normaliser, a keyed
    accumulator), interpreted for addresses in \<open>GGroup_Diff\<close> and \<open>ParishSoft_Facts\<close>, and for the wanted
    members and grouped actions in \<open>GGroup_Diff\<close> and \<open>CC_Plan_Facts\<close>.
  \<^item> \<open>Retry\<close> (\<open>retry.py\<close>): the policy, the back-off delays and \<open>retry_call\<close>. A call is made at most
    as often as allowed and ends with the outcome of its last attempt.
  \<^item> \<open>Config\<close> (\<open>config.py\<close>): YAML values and the validation helpers.
  \<^item> \<open>Dates\<close>, \<open>Civil_Days\<close>: calendar dates, their text form, and stepping by a day.
  \<^item> \<open>ParishSoft\<close>, \<open>PS_Rules\<close> (\<open>parishsoft.py\<close>): address lists, cross-links, the active-family
    filter; family heads, mailing addresses, publishing rules. \<open>ParishSoft_Facts\<close> and
    \<open>PS_Rules_Facts\<close> show that links agree in both directions, that the filter removes what is
    out of scope and nothing else, and that addresses are duplicate-free normal forms.
  \<^item> \<open>PS_Client\<close> (\<open>ParishSoftClient\<close> of \<open>parishsoft.py\<close>): requests, the choice of the organization, the
    cache and paginated reads. \<open>PS_Client_Facts\<close> shows that no record of another organization is
    returned or cached, that a cached read is repeated without a request, and that tenants do not share
    cache files.
  \<^item> \<open>Source_Pages\<close> (\<open>parishsoft_pagination.py\<close>): the strict reader of whole collections, with
    its five page numberings. \<open>Source_Pages_Facts\<close> shows that a consistent server is read completely;
    \<open>Source_Safety\<close> that for any server a successful read is complete and without repeats.
  \<^item> \<open>Paging\<close>, \<open>Google_API\<close> (\<open>google/auth.py\<close>, \<open>google/groups.py\<close>): the page loop and the
    Directory requests; writes are sent once, reads are retried.
  \<^item> \<open>GGroup_Config\<close>, \<open>GGroup_Sync\<close>, \<open>GGroup_Run\<close>, \<open>Email\<close>, \<open>GGroup_Email\<close>
    (\<open>pk_sync_ps_to_ggroup.py\<close>): configuration, wanted members, diff, guards, planning, applying,
    notification. \<open>GGroup_Diff\<close> and \<open>GGroup_Facts\<close> show that an applied plan makes a group equal to
    what is wanted, that guards bound removals, and that a dry run or a failed plan changes nothing.
  \<^item> \<open>CC_Data\<close>, \<open>CC_Client\<close> (\<open>constant_contact.py\<close>), \<open>CC_Sync\<close>, \<open>CC_Report\<close>, \<open>CC_Run\<close>
    (\<open>pk_sync_ps_to_cc.py\<close>): lists and contacts, requests and token refresh, the plan, the
    e-mails, the daily report with its state file, the run. \<open>CC_Plan_Facts\<close>, \<open>CC_Facts\<close>, \<open>CC_Safety\<close>
    and \<open>CC_Report_Facts\<close> show convergence of the lists, that nobody who opted out is subscribed,
    the guards, single submission of creates, and that an interrupted report is resumed without repeats.
  \<^item> \<open>Cron_Config\<close>, \<open>Cron_Lock\<close>, \<open>Cron_Run\<close> (\<open>pk_cron_runner.py\<close>): configuration, the
    single-instance lock, jobs and exit codes. The lock is given twice: as sequential operations
    on the lock file and as a step relation over concurrent runners, one step per system
    call. \<open>Cron_Facts\<close> proves mutual exclusion by rule induction and that \<open>acquire\<close> refines the
    relation; \<open>Cron_Run_Facts\<close> proves the run of the jobs over the locale \<open>held_lock\<close>.
  \<^item> \<open>Calendar\<close> (\<open>pk_validate_gcalendar_reservations.py\<close>, \<open>google/calendar.py\<close>): decisions about
    pending reservations. \<open>Calendar_Facts\<close> shows that no room is booked twice and that nothing is
    written before everything was read.
  \<^item> \<open>Recurrence\<close> (\<open>stewardship/campaigns/recurrence.py\<close>), \<open>Intervals\<close> (\<open>intervals.py\<close>, \<open>domain.py\<close>),
    \<open>Schedule_Eval\<close> (\<open>schedule_evaluation.py\<close>), \<open>Lifecycle\<close> (\<open>lifecycle.py\<close>, \<open>boundaries.py\<close>):
    repeat rules, wall times in time zones, the slots of mailings, the campaign's state
    machine. \<open>Recurrence_Facts\<close>, \<open>Intervals\<close>, \<open>Schedule_Facts\<close> and \<open>Lifecycle\<close> show that the
    expansion is exactly what the rule says, that searches end and find the first answer, that pages
    resume, and that a campaign never returns to an editable state.
  \<^item> \<open>Comparison\<close>, \<open>Merge\<close> (\<open>stewardship/responses/comparison.py\<close>, \<open>merge.py\<close>): the keys under which
    census answers are compared and the three-way merge with the source. \<open>Comparison_Facts\<close> and \<open>Merge\<close>
    show that amounts are exact, that telephone records are stable, and when a Family's value wins.
  \<^item> \<open>Json_Text\<close>, \<open>Canonical\<close> (\<open>stewardship/source/canonical.py\<close>): JSON string literals and the canonical
    text of source payloads. \<open>Canonical_Facts\<close> shows that the text determines the payload.
  \<^item> \<open>Refresh_Rules\<close>, \<open>Cadence\<close> (\<open>stewardship/source/refresh_rules.py\<close>, \<open>cadence.py\<close>): the rules of the
    daily refresh, the check of a schedule, and the slots due in a time zone. \<open>Refresh_Facts\<close> and
    \<open>Refresh_Check\<close> show what times the rules give and when a schedule is accepted; \<open>Cadence_Facts\<close>
    that the scheduler never passes over an occurrence; \<open>Refresh_Slots\<close> that identities are distinct and
    that older schedules keep their times.
  \<^item> \<open>Preview\<close> (\<open>stewardship/source/send_windows.py\<close>, \<open>schedule_preview.py\<close>): the windows around mailings
    and the preview of a schedule with its cost and longest wait. \<open>Preview_Facts\<close> shows that the preview and
    the scheduler agree.
  \<^item> \<open>Recovery\<close> (\<open>stewardship/campaigns/schedule_recovery.py\<close>): the plan for missed mailings of one Family or
    report. \<open>Recovery_Facts\<close> shows that every missed slot is accounted for once, that at most one is sent, and
    that the order of the slots does not matter. \<open>Readiness\<close> (\<open>readiness_impact.py\<close>): the mail that going live would
    send, counted with these plans over all Families.
  \<^item> \<open>Authority\<close> (\<open>stewardship/accounts/authority.py\<close>): configuration versions, the store with its manifest, and
    the protocol that moves the files and the database to a new version. A run is the list of the durable states it
    passes through, so an interruption is any of them. \<open>Authority_Facts\<close> states the invariant of
    these states; \<open>Authority_Safety\<close> that recovery always completes and what a change can do.
  \<^item> \<open>Incidents\<close> (\<open>stewardship/jobs/operational_policy.py\<close>): episodes of an operational incident; an inductive relation of
    what the storage owner can do, and by rule induction which notices are sent and when. \<open>Delivery\<close>
    (\<open>jobs/delivery_states.py\<close>, \<open>campaigns/production_states.py\<close>): the transition tables of a message and of going live, and
    that no message is sent again without evidence.
  \<^item> \<open>Financial\<close> (\<open>stewardship/reports/money.py\<close>, \<open>stewardship/responses/financial.py\<close>): amounts, pledges and the financial answers.
    \<open>Numerals\<close> and \<open>Pledge_Facts\<close> show that amounts are read back exactly and that accepted answers are stable.
  \<^item> \<open>Load_Progress\<close> (\<open>stewardship/source/load_progress.py\<close>): progress in two counters and the lines of the page read back
    from their history.
  \<^item> \<open>Sealing\<close> (\<open>stewardship/backup_sealing.py\<close>): sealed backups. \<open>Sealing_Facts\<close> shows that what is sealed is opened again and that
    a file that opens is exactly what sealing its plaintext writes.
  \<^item> \<open>Participation\<close> (\<open>stewardship/reports/calculations.py\<close> with \<open>expected_dates\<close> of \<open>inputs.py\<close> and the stored day of
    \<open>participation.py\<close>): the daily participation of a campaign. \<open>Participation_Facts\<close> shows that its single pass over the responses
    equals a reference that looks at every day anew.
  \<^item> \<open>Giving\<close> (\<open>stewardship/source/giving.py\<close>): loading the pledges and contributions of the selected periods and funds, and
    that the result is exactly what the rows show.
  \<^item> \<open>Credentials\<close> (\<open>stewardship/accounts/credential_files.py\<close>): replacing a credential file under a journal; an operation returns
    the durable states it passes through. \<open>Credentials_Facts\<close> reaches every state an interruption can leave and shows that it
    can be completed or rolled back.

  \<^bold>\<open>Parameters.\<close> Code outside the repository is an argument: the HTTP services (\<open>rs\<close>, \<open>rc\<close>
    and the service records), the regular expression engine (\<open>full_match\<close>), parsing of ISO times
    (\<open>iso_time\<close>), \<open>strptime\<close> and \<open>strftime\<close> (\<open>ptime\<close>, \<open>fmt\<close>), processes and their metadata (\<open>proc\<close>,
    \<open>info\<close>), path expansion, the hash of a cache scope (\<open>fingerprint\<close>) and the file store of the cache, the
    identity of a source row (\<open>identify\<close>), the time zone database (\<open>zones\<close>, \<open>zone_info\<close>), the digest, UUID and ISO text of a slot (\<open>slot_codes\<close>),
    the SHA-256 digest (\<open>sha\<close>), the schema validator of a configuration (\<open>validate\<close>), the database that holds it (\<open>materializer\<close>),
    for sealed backups the boxes, base64 and the JSON decoder (\<open>seal_lib\<close>), for credential files the keys of the
    target, SHA-256, UTF-8 and the length of the JSON text (\<open>handoff\<close>), and for the giving the paginated reads (\<open>pages\<close>) and the
    day of an ISO time (\<open>iso_day\<close>). What a theorem needs
    of them is a named predicate in its statement, and its witness gives a concrete instance.

  \<^bold>\<open>Loops.\<close> The page loop runs as long as the server returns tokens, so it is a
    \<open>partial_function\<close>; theorems about it show that it returns when the server's pages end.
    \<open>expand_loop\<close>, \<open>gap_search\<close>, \<open>next_slot_loop\<close>, \<open>page_scan\<close>, \<open>seal_chunks\<close> and \<open>open_chunks\<close> have termination proofs (days left,
    width of the bracket, days left before the last send, requests left, bytes left). No definition uses fuel.

  \<^bold>\<open>Conventions.\<close> Strings stand for ASCII text. Floats are rationals. The text of an exception is its
    phrase and the values interpolated into it. Logging is left out: no result depends on it.

  \<^bold>\<open>Not modelled.\<close> Credential loading, the OAuth device flow and token files, the strict YAML
    loader, argument parsing, logging, Slack, file downloads and printing are input and output around
    libraries. The roster and query tools write spreadsheets through a library. Of the stewardship
    application the Django models, views, migrations, deployment, backup transport and quality tooling
    are not modelled: their behaviour is that of the framework and the database.
\<close>

end
